(* ===== verification/Umber_Prelude.thy ===== *)
theory Umber_Prelude
  imports Main "HOL-Library.Word" "HOL-Library.List_Lexorder" "HOL-Library.Product_Lexorder"
begin

text \<open>
  Shared material of the Umber DDS development.

  \<^item> \<open>panic\<close> and \<open>'a res\<close>: a Rust computation that may panic. The repository sets
    \<^verbatim>\<open>panic = 'abort'\<close> in every profile, so a panic ends the process; the model keeps
    it as the value \<open>Inl p\<close> of a sum.
  \<^item> \<open>i64_add\<close>, \<open>i64_sub\<close>: checked 64-bit arithmetic (Rust's debug semantics), and
    \<open>wrap_u\<close>, \<open>wrap_s\<close>: the wrap-around of an \<^verbatim>\<open>as\<close> cast.
  \<^item> \<open>btree_map\<close> and \<open>btree_set\<close>: the ordered containers of \<^verbatim>\<open>alloc::collections\<close>, as
    key-sorted association lists and sorted lists, so that the iteration order that the
    code relies on is part of the model. The locale \<open>ordered_map\<close> is their interface.
\<close>

named_theorems umber_wf \<open>preservation of the container invariants\<close>
named_theorems umber_res \<open>rewriting of computations that may panic\<close>

type_synonym u8 = "8 word"
type_synonym u16 = "16 word"
type_synonym u32 = "32 word"

section \<open>Computations that may panic\<close>

text \<open>\<open>Diverges\<close> stands for a loop that has not ended after as many rounds as its data can feed.\<close>

datatype panic =
    Unreachable
  | IndexOutOfBounds
  | UnwrapNone
  | ArithOverflow
  | AssertFailed
  | Unimplemented
  | ExplicitPanic
  | Diverges

type_synonym 'a res = "panic + 'a"

definition rbind :: "'a res \<Rightarrow> ('a \<Rightarrow> 'b res) \<Rightarrow> 'b res" where
  "rbind m f = (case m of Inl e \<Rightarrow> Inl e | Inr x \<Rightarrow> f x)"

fun rfold :: "('a \<Rightarrow> 's \<Rightarrow> 's res) \<Rightarrow> 'a list \<Rightarrow> 's \<Rightarrow> 's res" where
  "rfold f [] s = Inr s"
| "rfold f (x # xs) s = rbind (f x s) (rfold f xs)"

lemma rbind_simps [simp, umber_res]:
  "rbind (Inl e) f = Inl e"
  "rbind (Inr x) f = f x"
  by (simp_all add: rbind_def)

lemma rbind_Inr_iff [umber_res]:
  "rbind m f = Inr y \<longleftrightarrow> (\<exists>x. m = Inr x \<and> f x = Inr y)"
  by (cases m) auto

lemma rbind_Inl_iff:
  "rbind m f = Inl e \<longleftrightarrow> m = Inl e \<or> (\<exists>x. m = Inr x \<and> f x = Inl e)"
  by (cases m) auto

lemma rbind_Inr_E:
  assumes "rbind m f = Inr y"
  obtains x where "m = Inr x" and "f x = Inr y"
  using assms by (auto simp: rbind_Inr_iff)

text \<open>A loop keeps what every iteration keeps.\<close>

lemma rfold_invariant:
  assumes "rfold f xs s = Inr t" and "P s"
    and "\<And>x s s'. x \<in> set xs \<Longrightarrow> P s \<Longrightarrow> f x s = Inr s' \<Longrightarrow> P s'"
  shows "P t"
  using assms
proof (induction xs arbitrary: s)
  case Nil
  then show ?case by simp
next
  case (Cons x xs)
  from Cons.prems(1) obtain s' where s': "f x s = Inr s'" "rfold f xs s' = Inr t"
    by (auto simp: rbind_Inr_iff)
  from Cons.prems(3) [OF _ Cons.prems(2) s'(1)] have "P s'" by simp
  with s'(2) show ?case
    using Cons.IH Cons.prems(3) by (metis list.set_intros(2))
qed

text \<open>A loop does not panic when no iteration does under an invariant.\<close>

lemma rfold_total:
  assumes "P s"
    and "\<And>x s. x \<in> set xs \<Longrightarrow> P s \<Longrightarrow> \<exists>s'. f x s = Inr s' \<and> P s'"
  shows "\<exists>t. rfold f xs s = Inr t \<and> P t"
  using assms
proof (induction xs arbitrary: s)
  case Nil
  then show ?case by simp
next
  case (Cons x xs)
  from Cons.prems obtain s' where s': "f x s = Inr s'" "P s'"
    by (metis list.set_intros(1))
  then have "\<exists>t. rfold f xs s' = Inr t \<and> P t"
    using Cons.IH Cons.prems(2) by (metis list.set_intros(2))
  with s' show ?case by auto
qed

section \<open>Machine integers as integers with their range\<close>

definition in_i64 :: "int \<Rightarrow> bool" where
  "in_i64 x \<longleftrightarrow> - (2 ^ 63) \<le> x \<and> x < 2 ^ 63"

definition i64_max :: int where "i64_max = 2 ^ 63 - 1"
definition i64_min :: int where "i64_min = - (2 ^ 63)"

definition i64_add :: "int \<Rightarrow> int \<Rightarrow> int res" where
  "i64_add a b = (if in_i64 (a + b) then Inr (a + b) else Inl ArithOverflow)"

definition i64_sub :: "int \<Rightarrow> int \<Rightarrow> int res" where
  "i64_sub a b = (if in_i64 (a - b) then Inr (a - b) else Inl ArithOverflow)"

text \<open>\<^verbatim>\<open>x as uN\<close> and \<^verbatim>\<open>x as iN\<close> keep the low \<open>w\<close> bits.\<close>

definition wrap_u :: "nat \<Rightarrow> int \<Rightarrow> int" where
  "wrap_u w x = x mod 2 ^ w"

definition wrap_s :: "nat \<Rightarrow> int \<Rightarrow> int" where
  "wrap_s w x = (x + 2 ^ (w - 1)) mod 2 ^ w - 2 ^ (w - 1)"

lemma i64_add_Inr [simp]: "i64_add a b = Inr c \<longleftrightarrow> c = a + b \<and> in_i64 (a + b)"
  by (auto simp: i64_add_def)

lemma i64_sub_Inr [simp]: "i64_sub a b = Inr c \<longleftrightarrow> c = a - b \<and> in_i64 (a - b)"
  by (auto simp: i64_sub_def)

lemma wrap_u_range: "0 \<le> wrap_u w x \<and> wrap_u w x < 2 ^ w"
  by (simp add: wrap_u_def)

lemma wrap_u_id: "0 \<le> x \<Longrightarrow> x < 2 ^ w \<Longrightarrow> wrap_u w x = x"
  by (simp add: wrap_u_def)

lemma wrap_s_id:
  assumes "0 < w" and "- (2 ^ (w - 1)) \<le> x" and "x < 2 ^ (w - 1)"
  shows "wrap_s w x = x"
proof -
  have "(2::int) ^ w = 2 * 2 ^ (w - 1)"
    using assms(1) by (metis power_minus_mult mult.commute)
  with assms have "(x + 2 ^ (w - 1)) mod 2 ^ w = x + 2 ^ (w - 1)"
    by (intro mod_pos_pos_trivial) auto
  then show ?thesis by (simp add: wrap_s_def)
qed

section \<open>Ordered sets: \<^verbatim>\<open>BTreeSet\<close>\<close>

type_synonym 'k btree_set = "'k list"

fun bs_insert :: "'k::linorder \<Rightarrow> 'k btree_set \<Rightarrow> 'k btree_set" where
  "bs_insert x [] = [x]"
| "bs_insert x (y # ys) =
     (if x < y then x # y # ys else if x = y then x # ys else y # bs_insert x ys)"

definition bs_remove :: "'k \<Rightarrow> 'k btree_set \<Rightarrow> 'k btree_set" where
  "bs_remove x ys = filter (\<lambda>y. y \<noteq> x) ys"

definition bs_wf :: "'k::linorder btree_set \<Rightarrow> bool" where
  "bs_wf xs \<longleftrightarrow> sorted_wrt (<) xs"

lemma set_bs_insert [simp]: "set (bs_insert x ys) = insert x (set ys)"
  by (induction ys) auto

lemma set_bs_remove [simp]: "set (bs_remove x ys) = set ys - {x}"
  by (auto simp: bs_remove_def)

lemma bs_wf_Nil [simp, umber_wf]: "bs_wf []"
  by (simp add: bs_wf_def)

lemma bs_insert_wf [simp, umber_wf]: "bs_wf ys \<Longrightarrow> bs_wf (bs_insert x ys)"
  unfolding bs_wf_def by (induction ys) auto

lemma bs_remove_wf [simp, umber_wf]: "bs_wf ys \<Longrightarrow> bs_wf (bs_remove x ys)"
  by (simp add: bs_wf_def bs_remove_def sorted_wrt_filter)

lemma bs_filter_wf [simp, umber_wf]: "bs_wf ys \<Longrightarrow> bs_wf (filter P ys)"
  by (simp add: bs_wf_def sorted_wrt_filter)

lemma bs_wf_distinct: "bs_wf xs \<Longrightarrow> distinct xs"
  unfolding bs_wf_def by (induction xs) auto

lemma bs_wf_sorted: "bs_wf xs \<Longrightarrow> sorted xs"
  by (simp add: bs_wf_def strict_sorted_imp_sorted)

lemma bs_wf_unique: "bs_wf xs \<Longrightarrow> bs_wf ys \<Longrightarrow> set xs = set ys \<Longrightarrow> xs = ys"
  unfolding bs_wf_def by (rule strict_sorted_equal)

lemma bs_wf_Cons: "bs_wf (x # xs) \<longleftrightarrow> (\<forall>y \<in> set xs. x < y) \<and> bs_wf xs"
  by (auto simp: bs_wf_def)

lemma bs_wf_le_last: "bs_wf xs \<Longrightarrow> x \<in> set xs \<Longrightarrow> x \<le> last xs"
  by (induction xs) (auto simp: bs_wf_Cons intro: less_imp_le)

lemma bs_wf_hd_le: "bs_wf xs \<Longrightarrow> x \<in> set xs \<Longrightarrow> hd xs \<le> x"
  by (cases xs) (auto simp: bs_wf_Cons intro: less_imp_le)

lemma bs_wf_append: "bs_wf (xs @ ys) \<longleftrightarrow> bs_wf xs \<and> bs_wf ys \<and> (\<forall>x \<in> set xs. \<forall>y \<in> set ys. x < y)"
  by (auto simp: bs_wf_def sorted_wrt_append)

section \<open>Ordered maps: \<^verbatim>\<open>BTreeMap\<close>\<close>

type_synonym ('k, 'v) btree_map = "('k \<times> 'v) list"

abbreviation bm_get :: "('k, 'v) btree_map \<Rightarrow> 'k \<Rightarrow> 'v option" where
  "bm_get \<equiv> map_of"

abbreviation bm_keys :: "('k, 'v) btree_map \<Rightarrow> 'k list" where
  "bm_keys m \<equiv> map fst m"

abbreviation bm_values :: "('k, 'v) btree_map \<Rightarrow> 'v list" where
  "bm_values m \<equiv> map snd m"

fun bm_insert :: "'k::linorder \<Rightarrow> 'v \<Rightarrow> ('k, 'v) btree_map \<Rightarrow> ('k, 'v) btree_map" where
  "bm_insert k v [] = [(k, v)]"
| "bm_insert k v ((a, b) # m) =
     (if k < a then (k, v) # (a, b) # m
      else if k = a then (k, v) # m
      else (a, b) # bm_insert k v m)"

definition bm_remove :: "'k \<Rightarrow> ('k, 'v) btree_map \<Rightarrow> ('k, 'v) btree_map" where
  "bm_remove k m = filter (\<lambda>p. fst p \<noteq> k) m"

definition bm_contains :: "'k \<Rightarrow> ('k, 'v) btree_map \<Rightarrow> bool" where
  "bm_contains k m \<longleftrightarrow> k \<in> set (bm_keys m)"

text \<open>\<open>get_mut\<close> followed by an update of the value in place.\<close>

definition bm_adjust :: "'k \<Rightarrow> ('v \<Rightarrow> 'v) \<Rightarrow> ('k, 'v) btree_map \<Rightarrow> ('k, 'v) btree_map" where
  "bm_adjust k f m = map (\<lambda>(a, v). (a, if a = k then f v else v)) m"

definition bm_wf :: "('k::linorder, 'v) btree_map \<Rightarrow> bool" where
  "bm_wf m \<longleftrightarrow> bs_wf (bm_keys m)"

lemma bm_get_insert [simp]: "bm_get (bm_insert k v m) = (bm_get m)(k \<mapsto> v)"
  by (induction m) auto

lemma bm_get_remove [simp]: "bm_get (bm_remove k m) = (bm_get m)(k := None)"
  by (induction m) (auto simp: bm_remove_def)

lemma bm_get_adjust [simp]:
  "bm_get (bm_adjust k f m) = (bm_get m)(k := map_option f (bm_get m k))"
  by (induction m) (auto simp: bm_adjust_def fun_eq_iff)

lemma bm_get_filter_key [simp]:
  "bm_get (filter (\<lambda>p. P (fst p)) m) k = (if P k then bm_get m k else None)"
  by (induction m) auto

lemma bm_contains_get [simp]: "bm_contains k m \<longleftrightarrow> bm_get m k \<noteq> None"
  by (auto simp: bm_contains_def map_of_eq_None_iff)

lemma set_keys_remove [simp]: "fst ` set (bm_remove k m) = fst ` set m - {k}"
  by (auto simp: bm_remove_def)

lemma keys_adjust [simp]: "bm_keys (bm_adjust k f m) = bm_keys m"
  by (auto simp: bm_adjust_def)

lemma keys_insert: "bm_keys (bm_insert k v m) = bs_insert k (bm_keys m)"
  by (induction m) auto

lemma set_keys_insert [simp]: "fst ` set (bm_insert k v m) = insert k (fst ` set m)"
  using arg_cong [OF keys_insert, of set k v m] by simp

lemma keys_remove: "bm_keys (bm_remove k m) = bs_remove k (bm_keys m)"
  by (induction m) (auto simp: bm_remove_def bs_remove_def)

lemma bm_wf_Nil [simp, umber_wf]: "bm_wf []"
  by (simp add: bm_wf_def)

lemma bm_insert_wf [simp, umber_wf]: "bm_wf m \<Longrightarrow> bm_wf (bm_insert k v m)"
  by (simp add: bm_wf_def keys_insert)

lemma bm_remove_wf [simp, umber_wf]: "bm_wf m \<Longrightarrow> bm_wf (bm_remove k m)"
  by (simp add: bm_wf_def keys_remove)

lemma bm_adjust_wf [simp, umber_wf]: "bm_wf (bm_adjust k f m) = bm_wf m"
  by (simp add: bm_wf_def)

lemma bm_filter_wf [simp, umber_wf]: "bm_wf m \<Longrightarrow> bm_wf (filter P m)"
  unfolding bm_wf_def bs_wf_def by (induction m) auto

lemma bm_map_snd_wf [umber_wf]: "bm_wf (map (\<lambda>(k, v). (k, f k v)) m) = bm_wf m"
proof -
  have "bm_keys (map (\<lambda>(k, v). (k, f k v)) m) = bm_keys m"
    by (induction m) auto
  then show ?thesis unfolding bm_wf_def by (rule arg_cong)
qed

lemma bm_get_map_snd [simp]:
  "bm_get (map (\<lambda>(k, v). (k, f k v)) m) k = map_option (f k) (bm_get m k)"
  by (induction m) auto

lemma bm_wf_distinct: "bm_wf m \<Longrightarrow> distinct (bm_keys m)"
  by (simp add: bm_wf_def bs_wf_distinct)

lemma bm_get_in_set: "bm_wf m \<Longrightarrow> (k, v) \<in> set m \<longleftrightarrow> bm_get m k = Some v"
  by (simp add: bm_wf_distinct)

lemma bm_get_None: "bm_get m k = None \<longleftrightarrow> k \<notin> fst ` set m"
  by (rule map_of_eq_None_iff)

lemma bm_get_Some_key: "bm_get m k = Some v \<Longrightarrow> k \<in> fst ` set m"
  by (metis bm_get_None option.distinct(1))

text \<open>Two sorted maps with the same lookups are the same list.\<close>

lemma bm_ext:
  assumes "bm_wf m" and "bm_wf n" and "\<And>k. bm_get m k = bm_get n k"
  shows "m = n"
proof -
  from assms(3) have dom: "fst ` set m = fst ` set n"
    by (metis bm_get_None subsetI subset_antisym)
  then have keys: "bm_keys m = bm_keys n"
    using assms(1,2) by (intro bs_wf_unique) (auto simp: bm_wf_def)
  have "map (\<lambda>k. (k, the (bm_get m k))) (bm_keys m) = m" if "bm_wf m"
    for m :: "('a, 'b) btree_map"
    using that by (auto simp: bm_wf_distinct intro!: map_idI)
  from this [OF assms(1)] this [OF assms(2)] keys assms(3) show ?thesis
    by (metis (mono_tags, lifting) map_eq_conv)
qed

lemma length_bm_insert:
  "bm_wf m \<Longrightarrow> length (bm_insert k v m) = (if bm_contains k m then length m else Suc (length m))"
proof (induction m)
  case Nil
  then show ?case by (simp add: bm_contains_def del: bm_contains_get)
next
  case (Cons p m)
  then show ?case
    by (cases p) (auto simp: bm_wf_def bs_wf_Cons bm_contains_def simp del: bm_contains_get)
qed

text \<open>
  The interface of an ordered map that the components rely on: lookups after the updates,
  and an iteration order that is strictly increasing.
\<close>

locale ordered_map =
  fixes empty :: "'m"
    and insert :: "'k::linorder \<Rightarrow> 'v \<Rightarrow> 'm \<Rightarrow> 'm"
    and remove :: "'k \<Rightarrow> 'm \<Rightarrow> 'm"
    and lookup :: "'m \<Rightarrow> 'k \<Rightarrow> 'v option"
    and keys :: "'m \<Rightarrow> 'k list"
    and invar :: "'m \<Rightarrow> bool"
  assumes lookup_empty: "lookup empty k = None"
    and lookup_insert: "lookup (insert k v m) = (lookup m)(k \<mapsto> v)"
    and lookup_remove: "lookup (remove k m) = (lookup m)(k := None)"
    and keys_lookup: "k \<in> set (keys m) \<longleftrightarrow> lookup m k \<noteq> None"
    and keys_order: "invar m \<Longrightarrow> sorted_wrt (<) (keys m)"
    and invar_empty: "invar empty"
    and invar_insert: "invar m \<Longrightarrow> invar (insert k v m)"
    and invar_remove: "invar m \<Longrightarrow> invar (remove k m)"
begin

lemma keys_after_insert:
  assumes "invar m"
  shows "keys (insert k v m) = bs_insert k (keys m)"
proof (rule strict_sorted_equal)
  show "sorted_wrt (<) (keys (insert k v m))"
    using assms by (intro keys_order invar_insert)
  show "sorted_wrt (<) (bs_insert k (keys m))"
    using keys_order [OF assms] bs_insert_wf unfolding bs_wf_def by blast
  show "set (keys (insert k v m)) = set (bs_insert k (keys m))"
    by (auto simp: keys_lookup lookup_insert split: if_splits)
qed

lemma keys_after_remove:
  assumes "invar m"
  shows "keys (remove k m) = bs_remove k (keys m)"
proof (rule strict_sorted_equal)
  show "sorted_wrt (<) (keys (remove k m))"
    using assms by (intro keys_order invar_remove)
  show "sorted_wrt (<) (bs_remove k (keys m))"
    using keys_order [OF assms] bs_remove_wf unfolding bs_wf_def by blast
  show "set (keys (remove k m)) = set (bs_remove k (keys m))"
    by (auto simp: keys_lookup lookup_remove split: if_splits)
qed

lemma first_key_least:
  assumes "invar m" and "keys m = k # ks" and "lookup m k' \<noteq> None"
  shows "k \<le> k'"
proof -
  from assms(3) have "k' \<in> set (k # ks)" using keys_lookup assms(2) by metis
  with keys_order [OF assms(1)] assms(2) show ?thesis by auto
qed

end

interpretation btm: ordered_map "[]" bm_insert bm_remove bm_get bm_keys bm_wf
  by unfold_locales (auto simp: bm_wf_def bs_wf_def bm_get_None keys_insert keys_remove
      bs_insert_wf [unfolded bs_wf_def] bs_remove_wf [unfolded bs_wf_def])

end
