(* ===== verification/Umber_Time.thy ===== *)
theory Umber_Time
  imports Umber_Prelude "HOL-Library.Log_Nat" Complex_Main
begin

text \<open>
  Time: \<^verbatim>\<open>src/structure/duration.rs\<close> and the \<^verbatim>\<open>Timestamp\<close> of
  \<^verbatim>\<open>src/message/submessage/element.rs\<close>.

  Seconds and fractions are integers with the range of their Rust type; every \<^verbatim>\<open>as\<close> cast is
  written out with \<open>wrap_s\<close> and \<open>wrap_u\<close>. The code computes the fraction of a second in
  \<^verbatim>\<open>f64\<close>: \<open>f64_round\<close> rounds an exact rational to the nearest number with a 53-bit significand,
  ties to even, which is the IEEE 754 result for the normal numbers that occur here.
  \<^verbatim>\<open>core::time::Duration\<close> is the record \<open>CoreDuration\<close>. The clock \<^verbatim>\<open>helper::now\<close> is an argument.
\<close>

section \<open>Double precision\<close>

definition f64_exponent :: "int \<Rightarrow> int \<Rightarrow> int" where
  "f64_exponent n d =
     (let e = int (floorlog 2 (nat n)) - int (floorlog 2 (nat d))
      in if n * 2 ^ nat (- e) < d * 2 ^ nat e then e - 1 else e)"

text \<open>Round the positive rational \<open>n / d\<close>: scale by the unit in the last place, round, scale back.\<close>

definition f64_round_pos :: "int \<Rightarrow> int \<Rightarrow> rat" where
  "f64_round_pos n d =
     (let p = f64_exponent n d - 52;
          num = n * 2 ^ nat (- p);
          den = d * 2 ^ nat p;
          q = num div den;
          r = num mod den;
          m = (if 2 * r < den \<or> 2 * r = den \<and> even q then q else q + 1)
      in of_int (m * 2 ^ nat p) / of_int (2 ^ nat (- p)))"

definition f64_round :: "rat \<Rightarrow> rat" where
  "f64_round x =
     (case quotient_of x of (n, d) \<Rightarrow>
        if n = 0 then 0 else if 0 < n then f64_round_pos n d else - f64_round_pos (- n) d)"

text \<open>\<^verbatim>\<open>as u32\<close> on a float truncates and saturates.\<close>

definition f64_as_u32 :: "rat \<Rightarrow> int" where
  "f64_as_u32 x = (if x \<le> 0 then 0 else min (2 ^ 32 - 1) \<lfloor>x\<rfloor>)"

text \<open>\<^verbatim>\<open>(r as f64 / unit * (1_u64 << 32) as f64) as u32\<close>, the fraction of a second.\<close>

definition fraction_of :: "int \<Rightarrow> int \<Rightarrow> int" where
  "fraction_of r unit = f64_as_u32 (f64_round (f64_round (of_int r / of_int unit) * 2 ^ 32))"

section \<open>Durations\<close>

record Duration =
  dur_seconds :: int
  dur_fraction :: int

record CoreDuration =
  core_secs :: int
  core_nanos :: int

text \<open>Rust's division rounds towards zero.\<close>

definition tdiv :: "int \<Rightarrow> int \<Rightarrow> int" where
  "tdiv a b = (if 0 \<le> a then a div b else - ((- a) div b))"

definition DURATION_INFINITE :: Duration where
  "DURATION_INFINITE = \<lparr>dur_seconds = 0x7fffffff, dur_fraction = 0xffffffff\<rparr>"

definition DURATION_ZERO :: Duration where
  "DURATION_ZERO = \<lparr>dur_seconds = 0, dur_fraction = 0\<rparr>"

definition dur_wf :: "Duration \<Rightarrow> bool" where
  "dur_wf d \<longleftrightarrow> - (2 ^ 31) \<le> dur_seconds d \<and> dur_seconds d < 2 ^ 31 \<and>
     0 \<le> dur_fraction d \<and> dur_fraction d < 2 ^ 32"

definition from_secs :: "int \<Rightarrow> Duration" where
  "from_secs seconds = \<lparr>dur_seconds = seconds, dur_fraction = 0\<rparr>"

definition from_millis :: "int \<Rightarrow> Duration" where
  "from_millis milliseconds =
     (let seconds = tdiv milliseconds 1000
      in \<lparr>dur_seconds = wrap_s 32 seconds,
          dur_fraction = fraction_of (milliseconds - seconds * 1000) 1000\<rparr>)"

definition from_nanos :: "int \<Rightarrow> Duration" where
  "from_nanos nanoseconds =
     (let seconds = tdiv nanoseconds 1000000000
      in \<lparr>dur_seconds = wrap_s 32 seconds,
          dur_fraction = fraction_of (nanoseconds - seconds * 1000000000) 1000000000\<rparr>)"

definition dur_half :: "Duration \<Rightarrow> Duration" where
  "dur_half d =
     (if d \<noteq> DURATION_INFINITE
      then \<lparr>dur_seconds = tdiv (dur_seconds d) 2, dur_fraction = dur_fraction d div 2\<rparr>
      else d)"

definition to_core :: "Duration \<Rightarrow> CoreDuration" where
  "to_core d =
     \<lparr>core_secs = wrap_u 64 (dur_seconds d),
      core_nanos = wrap_u 32 (1000000000 * dur_fraction d div 2 ^ 32)\<rparr>"

definition from_core :: "CoreDuration \<Rightarrow> Duration" where
  "from_core c =
     \<lparr>dur_seconds = wrap_s 32 (core_secs c),
      dur_fraction = fraction_of (core_nanos c) 1000000000\<rparr>"

text \<open>\<^verbatim>\<open>Ord::cmp\<close> of \<^verbatim>\<open>Duration\<close> compares this key.\<close>

definition dur_key :: "Duration \<Rightarrow> int" where
  "dur_key d = dur_seconds d * 1000000000 + dur_fraction d"

definition dur_le :: "Duration \<Rightarrow> Duration \<Rightarrow> bool" where
  "dur_le a b \<longleftrightarrow> dur_key a \<le> dur_key b"

definition dur_less :: "Duration \<Rightarrow> Duration \<Rightarrow> bool" where
  "dur_less a b \<longleftrightarrow> dur_key a < dur_key b"

text \<open>The derived order of \<^verbatim>\<open>core::time::Duration\<close>.\<close>

definition core_less :: "CoreDuration \<Rightarrow> CoreDuration \<Rightarrow> bool" where
  "core_less a b \<longleftrightarrow>
     core_secs a < core_secs b \<or> core_secs a = core_secs b \<and> core_nanos a < core_nanos b"

section \<open>Timestamps\<close>

record Timestamp =
  ts_seconds :: int
  ts_fraction :: int

definition TIME_INVALID :: Timestamp where
  "TIME_INVALID = \<lparr>ts_seconds = 0xFFFFFFFF, ts_fraction = 0xFFFFFFFF\<rparr>"

definition ts_wf :: "Timestamp \<Rightarrow> bool" where
  "ts_wf t \<longleftrightarrow> 0 \<le> ts_seconds t \<and> ts_seconds t < 2 ^ 32 \<and>
     0 \<le> ts_fraction t \<and> ts_fraction t < 2 ^ 32"

text \<open>\<^verbatim>\<open>Timestamp::now\<close>, given what the clock \<^verbatim>\<open>helper::now\<close> returns.\<close>

definition ts_now :: "int option \<Rightarrow> Timestamp option" where
  "ts_now clock =
     map_option (\<lambda>now.
       \<lparr>ts_seconds = wrap_u 32 (tdiv now 1000000000),
        ts_fraction = fraction_of (now - tdiv now 1000000000 * 1000000000) 1000000000\<rparr>) clock"

definition ts_nanos :: "Timestamp \<Rightarrow> int" where
  "ts_nanos t = ts_seconds t * 1000000000 + 1000000000 * ts_fraction t div 2 ^ 32"

definition ts_sub :: "Timestamp \<Rightarrow> Timestamp \<Rightarrow> CoreDuration" where
  "ts_sub l r = to_core (from_nanos (ts_nanos l - ts_nanos r))"

text \<open>The seconds are added in \<^verbatim>\<open>u64\<close>; the carry of the fractions is \<^verbatim>\<open>overflowing_add\<close>.\<close>

definition ts_add :: "Timestamp \<Rightarrow> CoreDuration \<Rightarrow> Timestamp res" where
  "ts_add t d =
     (let secs = ts_seconds t + core_secs d;
          added = core_nanos d * 2 ^ 32 div 1000000000;
          sum = ts_fraction t + wrap_u 32 added;
          secs' = (if 2 ^ 32 \<le> sum then secs + 1 else secs)
      in if 2 ^ 64 \<le> secs' then Inl ArithOverflow
         else Inr \<lparr>ts_seconds = wrap_u 32 secs', ts_fraction = wrap_u 32 sum\<rparr>)"

section \<open>Properties\<close>

text \<open>
  Conversion to \<^verbatim>\<open>core::time::Duration\<close>: for a non-negative duration the seconds are kept and
  the nanoseconds are the fraction rounded down, always below one second (so
  \<^verbatim>\<open>CoreDuration::new\<close> never carries); a negative number of seconds becomes at least
  \<open>2^63\<close> seconds.
\<close>

theorem duration_to_core:
  assumes "dur_wf d"
  shows "core_nanos (to_core d) = 1000000000 * dur_fraction d div 2 ^ 32 \<and>
    0 \<le> core_nanos (to_core d) \<and> core_nanos (to_core d) < 1000000000 \<and>
    (0 \<le> dur_seconds d \<longrightarrow> core_secs (to_core d) = dur_seconds d) \<and>
    (dur_seconds d < 0 \<longrightarrow> 2 ^ 63 \<le> core_secs (to_core d))"
proof -
  have n: "0 \<le> 1000000000 * dur_fraction d div 2 ^ 32"
    "1000000000 * dur_fraction d div 2 ^ 32 < 1000000000"
    using assms by (auto simp: dur_wf_def)
  then have "wrap_u 32 (1000000000 * dur_fraction d div 2 ^ 32) = 1000000000 * dur_fraction d div 2 ^ 32"
    by (intro wrap_u_id) auto
  moreover have "wrap_u 64 (dur_seconds d) = dur_seconds d" if "0 \<le> dur_seconds d"
    using that assms by (intro wrap_u_id) (auto simp: dur_wf_def)
  moreover have "2 ^ 63 \<le> wrap_u 64 (dur_seconds d)" if "dur_seconds d < 0"
  proof -
    have "(dur_seconds d + 2 ^ 64) mod 2 ^ 64 = dur_seconds d + 2 ^ 64"
      using that assms by (intro mod_pos_pos_trivial) (auto simp: dur_wf_def)
    then have "wrap_u 64 (dur_seconds d) = dur_seconds d + 2 ^ 64" by (simp add: wrap_u_def)
    then show ?thesis using assms by (simp add: dur_wf_def)
  qed
  ultimately show ?thesis
    using n by (simp add: to_core_def)
qed

theorem duration_to_core_witness:
  "dur_wf \<lparr>dur_seconds = 1, dur_fraction = 2147483648\<rparr> \<and>
   to_core \<lparr>dur_seconds = 1, dur_fraction = 2147483648\<rparr> =
     \<lparr>core_secs = 1, core_nanos = 500000000\<rparr>"
proof -
  let ?d = "\<lparr>dur_seconds = 1, dur_fraction = 2147483648\<rparr>"
  have h: "dur_wf ?d" by (simp add: dur_wf_def)
  have "core_nanos (to_core ?d) = 500000000 \<and> core_secs (to_core ?d) = 1"
    using duration_to_core [OF h] by simp
  with h show ?thesis by simp
qed

text \<open>
  Comparing durations orders them by time when the seconds are equal or at least five
  apart, but not in general: the comparison weighs a second as \<open>10^9\<close> units of
  \<open>2^-32\<close> seconds, so a duration of 0.99 s compares greater than one of 1 s, and
  different durations compare equal.
\<close>

theorem duration_order:
  assumes "dur_wf a" and "dur_wf b"
  shows "(dur_seconds a = dur_seconds b \<longrightarrow> (dur_less a b \<longleftrightarrow> dur_fraction a < dur_fraction b)) \<and>
    (dur_seconds a + 5 \<le> dur_seconds b \<longrightarrow> dur_less a b) \<and>
    (\<exists>x y. dur_wf x \<and> dur_wf y \<and> core_less (to_core x) (to_core y) \<and> dur_less y x) \<and>
    (\<exists>x y. dur_wf x \<and> dur_wf y \<and> x \<noteq> y \<and> dur_key x = dur_key y)"
proof (intro conjI)
  show "dur_seconds a = dur_seconds b \<longrightarrow> (dur_less a b \<longleftrightarrow> dur_fraction a < dur_fraction b)"
    by (simp add: dur_less_def dur_key_def)
  show "dur_seconds a + 5 \<le> dur_seconds b \<longrightarrow> dur_less a b"
    using assms by (auto simp: dur_less_def dur_key_def dur_wf_def)
  let ?x = "\<lparr>dur_seconds = 0, dur_fraction = 4252017623\<rparr>"
  let ?y = "\<lparr>dur_seconds = 1, dur_fraction = 0\<rparr>"
  have "dur_wf ?x \<and> dur_wf ?y \<and> core_less (to_core ?x) (to_core ?y) \<and> dur_less ?y ?x"
    by (simp add: dur_wf_def core_less_def to_core_def wrap_u_def dur_less_def dur_key_def)
  then show "\<exists>x y. dur_wf x \<and> dur_wf y \<and> core_less (to_core x) (to_core y) \<and> dur_less y x"
    by blast
  let ?z = "\<lparr>dur_seconds = 0, dur_fraction = 1000000000\<rparr>"
  have "dur_wf ?z \<and> dur_wf ?y \<and> ?z \<noteq> ?y \<and> dur_key ?z = dur_key ?y"
    by (simp add: dur_wf_def dur_key_def)
  then show "\<exists>x y. dur_wf x \<and> dur_wf y \<and> x \<noteq> y \<and> dur_key x = dur_key y" by blast
qed

theorem duration_order_witness:
  "dur_wf \<lparr>dur_seconds = 1, dur_fraction = 7\<rparr> \<and> dur_wf \<lparr>dur_seconds = 6, dur_fraction = 0\<rparr> \<and>
   dur_less \<lparr>dur_seconds = 1, dur_fraction = 7\<rparr> \<lparr>dur_seconds = 6, dur_fraction = 0\<rparr>"
proof -
  have a: "dur_wf \<lparr>dur_seconds = 1, dur_fraction = 7\<rparr>"
    and b: "dur_wf \<lparr>dur_seconds = 6, dur_fraction = 0\<rparr>" by (simp_all add: dur_wf_def)
  show ?thesis using a b duration_order [OF a b] by simp
qed

text \<open>
  Adding a duration to a timestamp adds, in units of \<open>2^-32\<close> seconds and modulo \<open>2^64\<close>,
  exactly the whole seconds and the nanoseconds rounded down to that unit; the result is a
  well-formed timestamp.
\<close>

theorem timestamp_add_exact:
  assumes "ts_wf t" and "0 \<le> core_secs d" and "core_secs d < 2 ^ 63"
    and "0 \<le> core_nanos d" and "core_nanos d < 1000000000"
  shows "\<exists>t'. ts_add t d = Inr t' \<and> ts_wf t' \<and>
    ts_seconds t' * 2 ^ 32 + ts_fraction t' =
      (ts_seconds t * 2 ^ 32 + ts_fraction t + core_secs d * 2 ^ 32 +
        core_nanos d * 2 ^ 32 div 1000000000) mod 2 ^ 64"
proof -
  let ?added = "core_nanos d * 2 ^ 32 div 1000000000"
  define sum where "sum = ts_fraction t + ?added"
  define secs where "secs = ts_seconds t + core_secs d"
  define secs' where "secs' = (if 2 ^ 32 \<le> sum then secs + 1 else secs)"
  have added: "0 \<le> ?added" "?added < 2 ^ 32" using assms by auto
  then have w: "wrap_u 32 ?added = ?added" by (intro wrap_u_id) auto
  have sum: "0 \<le> sum" "sum < 2 * 2 ^ 32" using assms added by (auto simp: sum_def ts_wf_def)
  have small: "\<not> 2 ^ 64 \<le> secs'"
    using assms by (auto simp: secs'_def secs_def ts_wf_def)
  have add: "ts_add t d = Inr \<lparr>ts_seconds = wrap_u 32 secs', ts_fraction = wrap_u 32 sum\<rparr>"
    unfolding ts_add_def Let_def w using small
    by (simp only: sum_def [symmetric] secs_def [symmetric] secs'_def [symmetric] if_False)
  have total: "secs' * 2 ^ 32 + sum mod 2 ^ 32 = secs * 2 ^ 32 + sum"
  proof (cases "2 ^ 32 \<le> sum")
    case True
    then have "(sum - 2 ^ 32) mod 2 ^ 32 = sum - 2 ^ 32"
      using sum by (intro mod_pos_pos_trivial) auto
    then have "sum mod 2 ^ 32 = sum - 2 ^ 32" by simp
    with True show ?thesis by (simp add: secs'_def algebra_simps)
  next
    case False
    then show ?thesis using sum by (simp add: secs'_def)
  qed
  have wrap: "(secs' mod 2 ^ 32) * 2 ^ 32 + f = (secs' * 2 ^ 32 + f) mod 2 ^ 64"
    if "0 \<le> f" "f < 2 ^ 32" for f :: int
  proof -
    have "(secs' * 2 ^ 32 + f) mod (2 ^ 32 * 2 ^ 32) =
        2 ^ 32 * ((secs' * 2 ^ 32 + f) div 2 ^ 32 mod 2 ^ 32) + (secs' * 2 ^ 32 + f) mod 2 ^ 32"
      by (subst zmod_zmult2_eq) simp_all
    also have "(secs' * 2 ^ 32 + f) div 2 ^ 32 = secs'" using that by simp
    also have "(secs' * 2 ^ 32 + f) mod 2 ^ 32 = f" using that by simp
    finally show ?thesis by (simp add: mult.commute)
  qed
  have "(secs' mod 2 ^ 32) * 2 ^ 32 + sum mod 2 ^ 32 = (secs * 2 ^ 32 + sum) mod 2 ^ 64"
    using wrap [of "sum mod 2 ^ 32"] total by simp
  then show ?thesis
    unfolding add by (auto simp: wrap_u_def ts_wf_def secs_def sum_def algebra_simps)
qed

theorem timestamp_add_exact_witness:
  "ts_wf \<lparr>ts_seconds = 10, ts_fraction = 3221225472\<rparr> \<and>
   ts_add \<lparr>ts_seconds = 10, ts_fraction = 3221225472\<rparr> \<lparr>core_secs = 1, core_nanos = 500000000\<rparr> =
     Inr \<lparr>ts_seconds = 12, ts_fraction = 1073741824\<rparr>"
proof -
  let ?t = "\<lparr>ts_seconds = 10, ts_fraction = 3221225472\<rparr>"
  let ?d = "\<lparr>core_secs = 1, core_nanos = 500000000\<rparr>"
  have h: "ts_wf ?t" by (simp add: ts_wf_def)
  have "\<exists>t'. ts_add ?t ?d = Inr t' \<and> ts_wf t' \<and>
      ts_seconds t' * 2 ^ 32 + ts_fraction t' = 52613349376"
    using timestamp_add_exact [OF h, of ?d] by simp
  then show ?thesis
    using h by (simp add: ts_add_def Let_def wrap_u_def)
qed

lemma fraction_in_u32: "0 \<le> fraction_of r u \<and> fraction_of r u < 2 ^ 32"
  by (simp add: fraction_of_def f64_as_u32_def min_def le_floor_iff)

end
