(* ===== verification/Umber_Structure.thy ===== *)
theory Umber_Structure
  imports Umber_Prelude
begin

text \<open>
  Identifiers of RTPS entities: \<^verbatim>\<open>src/structure/{entity_id,guid,vendor_id,topic_kind}.rs\<close>,
  the locators of \<^verbatim>\<open>src/message/submessage/element.rs\<close> and the well-known ports of
  \<^verbatim>\<open>src/network/net_util.rs\<close>.

  The derived \<^verbatim>\<open>Ord\<close> of the Rust structs is the lexicographic order of their fields; the
  types that are keys of ordered maps are instances of \<open>linorder\<close> with that order, because
  the code iterates over those maps.
\<close>

unbundle bit_operations_syntax

section \<open>Entity kinds and entity identifiers\<close>

text \<open>\<^verbatim>\<open>EntityKind\<close> is a struct with one byte; its constants are those of the RTPS specification.\<close>

datatype EntityKind = EntityKind (kind_value: u8)

definition UNKNOW_USER_DEFIND :: EntityKind where "UNKNOW_USER_DEFIND = EntityKind 0x00"
definition WRITER_WITH_KEY_USER_DEFIND :: EntityKind where
  "WRITER_WITH_KEY_USER_DEFIND = EntityKind 0x02"
definition WRITER_NO_KEY_USER_DEFIND :: EntityKind where
  "WRITER_NO_KEY_USER_DEFIND = EntityKind 0x03"
definition READER_NO_KEY_USER_DEFIND :: EntityKind where
  "READER_NO_KEY_USER_DEFIND = EntityKind 0x04"
definition READER_WITH_KEY_USER_DEFIND :: EntityKind where
  "READER_WITH_KEY_USER_DEFIND = EntityKind 0x07"
definition WRITER_GROUP_USER_DEFIND :: EntityKind where
  "WRITER_GROUP_USER_DEFIND = EntityKind 0x08"
definition READER_GROUP_USER_DEFIND :: EntityKind where
  "READER_GROUP_USER_DEFIND = EntityKind 0x09"
definition UNKNOW_BUILT_IN :: EntityKind where "UNKNOW_BUILT_IN = EntityKind 0xc0"
definition PARTICIPANT_BUILT_IN :: EntityKind where "PARTICIPANT_BUILT_IN = EntityKind 0xc1"
definition WRITER_WITH_KEY_BUILT_IN :: EntityKind where
  "WRITER_WITH_KEY_BUILT_IN = EntityKind 0xc2"
definition WRITER_NO_KEY_BUILT_IN :: EntityKind where "WRITER_NO_KEY_BUILT_IN = EntityKind 0xc3"
definition READER_NO_KEY_BUILT_IN :: EntityKind where "READER_NO_KEY_BUILT_IN = EntityKind 0xc4"
definition READER_WITH_KEY_BUILT_IN :: EntityKind where
  "READER_WITH_KEY_BUILT_IN = EntityKind 0xc7"
definition WRITER_GROUP_BUILT_IN :: EntityKind where "WRITER_GROUP_BUILT_IN = EntityKind 0xc8"
definition READER_GROUP_BUILT_IN :: EntityKind where "READER_GROUP_BUILT_IN = EntityKind 0xc9"
definition PUBLISHER :: EntityKind where "PUBLISHER = EntityKind 0x40"
definition SUBSCRIBER :: EntityKind where "SUBSCRIBER = EntityKind 0x41"

lemmas entity_kind_defs =
  UNKNOW_USER_DEFIND_def WRITER_WITH_KEY_USER_DEFIND_def WRITER_NO_KEY_USER_DEFIND_def
  READER_NO_KEY_USER_DEFIND_def READER_WITH_KEY_USER_DEFIND_def WRITER_GROUP_USER_DEFIND_def
  READER_GROUP_USER_DEFIND_def UNKNOW_BUILT_IN_def PARTICIPANT_BUILT_IN_def
  WRITER_WITH_KEY_BUILT_IN_def WRITER_NO_KEY_BUILT_IN_def READER_NO_KEY_BUILT_IN_def
  READER_WITH_KEY_BUILT_IN_def WRITER_GROUP_BUILT_IN_def READER_GROUP_BUILT_IN_def
  PUBLISHER_def SUBSCRIBER_def

datatype TopicKind = NoKey | WithKey

definition kind_topic_kind :: "EntityKind \<Rightarrow> TopicKind option" where
  "kind_topic_kind k =
     (if k \<in> {WRITER_WITH_KEY_USER_DEFIND, WRITER_WITH_KEY_BUILT_IN,
              READER_WITH_KEY_USER_DEFIND, READER_WITH_KEY_BUILT_IN} then Some WithKey
      else if k \<in> {WRITER_NO_KEY_USER_DEFIND, WRITER_NO_KEY_BUILT_IN,
                   READER_NO_KEY_USER_DEFIND, READER_NO_KEY_BUILT_IN} then Some NoKey
      else None)"

datatype EntityId = EntityId (entity_key: "u8 \<times> u8 \<times> u8") (entity_kind: EntityKind)

definition eid_UNKNOW :: EntityId where
  "eid_UNKNOW = EntityId (0, 0, 0) UNKNOW_USER_DEFIND"
definition eid_PARTICIPANT :: EntityId where
  "eid_PARTICIPANT = EntityId (0, 0, 1) PARTICIPANT_BUILT_IN"
definition SED_PBUILTIN_TOPICS_ANNOUNCER :: EntityId where
  "SED_PBUILTIN_TOPICS_ANNOUNCER = EntityId (0, 0, 2) WRITER_WITH_KEY_BUILT_IN"
definition SED_PBUILTIN_TOPICS_DETECTOR :: EntityId where
  "SED_PBUILTIN_TOPICS_DETECTOR = EntityId (0, 0, 2) READER_WITH_KEY_BUILT_IN"
definition SEDP_BUILTIN_PUBLICATIONS_ANNOUNCER :: EntityId where
  "SEDP_BUILTIN_PUBLICATIONS_ANNOUNCER = EntityId (0, 0, 3) WRITER_WITH_KEY_BUILT_IN"
definition SEDP_BUILTIN_PUBLICATIONS_DETECTOR :: EntityId where
  "SEDP_BUILTIN_PUBLICATIONS_DETECTOR = EntityId (0, 0, 3) READER_WITH_KEY_BUILT_IN"
definition SEDP_BUILTIN_SUBSCRIPTIONS_ANNOUNCER :: EntityId where
  "SEDP_BUILTIN_SUBSCRIPTIONS_ANNOUNCER = EntityId (0, 0, 4) WRITER_WITH_KEY_BUILT_IN"
definition SEDP_BUILTIN_SUBSCRIPTIONS_DETECTOR :: EntityId where
  "SEDP_BUILTIN_SUBSCRIPTIONS_DETECTOR = EntityId (0, 0, 4) READER_WITH_KEY_BUILT_IN"
definition SPDP_BUILTIN_PARTICIPANT_ANNOUNCER :: EntityId where
  "SPDP_BUILTIN_PARTICIPANT_ANNOUNCER = EntityId (0, 1, 0) WRITER_WITH_KEY_BUILT_IN"
definition SPDP_BUILTIN_PARTICIPANT_DETECTOR :: EntityId where
  "SPDP_BUILTIN_PARTICIPANT_DETECTOR = EntityId (0, 1, 0) READER_WITH_KEY_BUILT_IN"
definition P2P_BUILTIN_PARTICIPANT_MESSAGE_WRITER :: EntityId where
  "P2P_BUILTIN_PARTICIPANT_MESSAGE_WRITER = EntityId (0, 2, 0) WRITER_WITH_KEY_BUILT_IN"
definition P2P_BUILTIN_PARTICIPANT_MESSAGE_READER :: EntityId where
  "P2P_BUILTIN_PARTICIPANT_MESSAGE_READER = EntityId (0, 2, 0) READER_WITH_KEY_BUILT_IN"

lemmas entity_id_defs =
  eid_UNKNOW_def eid_PARTICIPANT_def SED_PBUILTIN_TOPICS_ANNOUNCER_def
  SED_PBUILTIN_TOPICS_DETECTOR_def SEDP_BUILTIN_PUBLICATIONS_ANNOUNCER_def
  SEDP_BUILTIN_PUBLICATIONS_DETECTOR_def SEDP_BUILTIN_SUBSCRIPTIONS_ANNOUNCER_def
  SEDP_BUILTIN_SUBSCRIPTIONS_DETECTOR_def SPDP_BUILTIN_PARTICIPANT_ANNOUNCER_def
  SPDP_BUILTIN_PARTICIPANT_DETECTOR_def P2P_BUILTIN_PARTICIPANT_MESSAGE_WRITER_def
  P2P_BUILTIN_PARTICIPANT_MESSAGE_READER_def

definition is_reader :: "EntityId \<Rightarrow> bool" where
  "is_reader e \<longleftrightarrow> entity_kind e \<in>
     {READER_WITH_KEY_BUILT_IN, READER_NO_KEY_BUILT_IN,
      READER_NO_KEY_USER_DEFIND, READER_WITH_KEY_USER_DEFIND}"

definition is_writer :: "EntityId \<Rightarrow> bool" where
  "is_writer e \<longleftrightarrow> entity_kind e \<in>
     {WRITER_WITH_KEY_BUILT_IN, WRITER_NO_KEY_BUILT_IN,
      WRITER_NO_KEY_USER_DEFIND, WRITER_WITH_KEY_USER_DEFIND}"

definition is_builtin :: "EntityId \<Rightarrow> bool" where
  "is_builtin e \<longleftrightarrow> e \<in>
     {SED_PBUILTIN_TOPICS_ANNOUNCER, SED_PBUILTIN_TOPICS_DETECTOR,
      SEDP_BUILTIN_PUBLICATIONS_ANNOUNCER, SEDP_BUILTIN_PUBLICATIONS_DETECTOR,
      SEDP_BUILTIN_SUBSCRIPTIONS_ANNOUNCER, SEDP_BUILTIN_SUBSCRIPTIONS_DETECTOR,
      SPDP_BUILTIN_PARTICIPANT_ANNOUNCER, SPDP_BUILTIN_PARTICIPANT_DETECTOR,
      P2P_BUILTIN_PARTICIPANT_MESSAGE_WRITER, P2P_BUILTIN_PARTICIPANT_MESSAGE_READER}"

definition eid_topic_kind :: "EntityId \<Rightarrow> TopicKind option" where
  "eid_topic_kind e = kind_topic_kind (entity_kind e)"

text \<open>
  \<^verbatim>\<open>as_usize\<close> packs the four bytes into a 32-bit value (the poll token of the entity) and
  \<^verbatim>\<open>from_usize\<close> unpacks one. \<^verbatim>\<open>usize\<close> is modelled with its 64 bits.
\<close>

definition as_usize :: "EntityId \<Rightarrow> 64 word" where
  "as_usize e =
     (case entity_key e of (k0, k1, k2) \<Rightarrow>
        let u0 = (ucast k0 :: u32); u1 = (ucast k1 :: u32); u2 = (ucast k2 :: u32);
            u3 = (ucast (kind_value (entity_kind e)) :: u32)
        in ucast (push_bit 24 u0 OR push_bit 16 u1 OR push_bit 8 u2 OR u3))"

definition from_usize :: "64 word \<Rightarrow> EntityId" where
  "from_usize n =
     (let ek = n AND 0xff;
          e2 = drop_bit 8 (n AND 0xff00);
          e1 = drop_bit 16 (n AND 0xff0000);
          e0 = drop_bit 24 (n AND 0xff000000)
      in EntityId (ucast e0, ucast e1, ucast e2) (EntityKind (ucast ek)))"

section \<open>Total orders\<close>

instantiation EntityKind :: linorder
begin

definition less_eq_EntityKind :: "EntityKind \<Rightarrow> EntityKind \<Rightarrow> bool" where
  "less_eq_EntityKind a b \<longleftrightarrow> kind_value a \<le> kind_value b"

definition less_EntityKind :: "EntityKind \<Rightarrow> EntityKind \<Rightarrow> bool" where
  "less_EntityKind a b \<longleftrightarrow> kind_value a < kind_value b"

instance
  by intro_classes
    (auto simp: less_eq_EntityKind_def less_EntityKind_def EntityKind.expand)

end

instantiation EntityId :: linorder
begin

definition less_eq_EntityId :: "EntityId \<Rightarrow> EntityId \<Rightarrow> bool" where
  "less_eq_EntityId a b \<longleftrightarrow> (entity_key a, entity_kind a) \<le> (entity_key b, entity_kind b)"

definition less_EntityId :: "EntityId \<Rightarrow> EntityId \<Rightarrow> bool" where
  "less_EntityId a b \<longleftrightarrow> (entity_key a, entity_kind a) < (entity_key b, entity_kind b)"

instance
proof
  fix x y z :: EntityId
  show "x < y \<longleftrightarrow> x \<le> y \<and> \<not> y \<le> x"
    unfolding less_eq_EntityId_def less_EntityId_def by (rule less_le_not_le)
  show "x \<le> x" unfolding less_eq_EntityId_def by (rule order_refl)
  show "x \<le> y \<Longrightarrow> y \<le> z \<Longrightarrow> x \<le> z"
    unfolding less_eq_EntityId_def by (rule order_trans)
  show "x \<le> y \<Longrightarrow> y \<le> x \<Longrightarrow> x = y"
    unfolding less_eq_EntityId_def by (metis EntityId.collapse Pair_inject order_antisym)
  show "x \<le> y \<or> y \<le> x" unfolding less_eq_EntityId_def by (rule linear)
qed

end

section \<open>Participant prefixes and GUIDs\<close>

text \<open>A \<^verbatim>\<open>GuidPrefix\<close> is an array of twelve bytes; the length is the invariant \<open>prefix_wf\<close>.\<close>

type_synonym GuidPrefix = "u8 list"

definition prefix_wf :: "GuidPrefix \<Rightarrow> bool" where
  "prefix_wf p \<longleftrightarrow> length p = 12"

definition prefix_UNKNOW :: GuidPrefix where "prefix_UNKNOW = replicate 12 0"

text \<open>The first two bytes are the vendor identifier; \<open>bytes\<close> is what the generator yields.\<close>

definition vendor_THIS_IMPLEMENTATION :: "u8 list" where
  "vendor_THIS_IMPLEMENTATION = [0, 0]"

definition GuidPrefix_new :: "u8 list \<Rightarrow> GuidPrefix" where
  "GuidPrefix_new bytes =
     bytes[0 := vendor_THIS_IMPLEMENTATION ! 0, 1 := vendor_THIS_IMPLEMENTATION ! 1]"

datatype GUID = GUID (guid_prefix: GuidPrefix) (entity_id: EntityId)

definition guid_UNKNOW :: GUID where "guid_UNKNOW = GUID prefix_UNKNOW eid_UNKNOW"

definition new_participant_guid :: "u8 list \<Rightarrow> GUID" where
  "new_participant_guid bytes = GUID (GuidPrefix_new bytes) eid_PARTICIPANT"

instantiation GUID :: linorder
begin

definition less_eq_GUID :: "GUID \<Rightarrow> GUID \<Rightarrow> bool" where
  "less_eq_GUID a b \<longleftrightarrow> (guid_prefix a, entity_id a) \<le> (guid_prefix b, entity_id b)"

definition less_GUID :: "GUID \<Rightarrow> GUID \<Rightarrow> bool" where
  "less_GUID a b \<longleftrightarrow> (guid_prefix a, entity_id a) < (guid_prefix b, entity_id b)"

instance
proof
  fix x y z :: GUID
  show "x < y \<longleftrightarrow> x \<le> y \<and> \<not> y \<le> x"
    unfolding less_eq_GUID_def less_GUID_def by (rule less_le_not_le)
  show "x \<le> x" unfolding less_eq_GUID_def by (rule order_refl)
  show "x \<le> y \<Longrightarrow> y \<le> z \<Longrightarrow> x \<le> z" unfolding less_eq_GUID_def by (rule order_trans)
  show "x \<le> y \<Longrightarrow> y \<le> x \<Longrightarrow> x = y"
    unfolding less_eq_GUID_def by (metis GUID.collapse Pair_inject order_antisym)
  show "x \<le> y \<or> y \<le> x" unfolding less_eq_GUID_def by (rule linear)
qed

end

section \<open>Locators\<close>

datatype Locator =
  Locator (loc_kind: int) (loc_port: int) (loc_address: "u8 list")

definition KIND_INVALID :: int where "KIND_INVALID = - 1"
definition KIND_UDPV4 :: int where "KIND_UDPV4 = 1"
definition Locator_INVALID :: Locator where
  "Locator_INVALID = Locator KIND_INVALID 0 (replicate 16 0)"

definition Locator_new :: "int \<Rightarrow> int \<Rightarrow> u8 list \<Rightarrow> Locator res" where
  "Locator_new kind port address =
     (if kind = KIND_UDPV4 \<and> take 12 address \<noteq> replicate 12 0 then Inl AssertFailed
      else Inr (Locator kind port address))"

definition new_from_ipv4 :: "int \<Rightarrow> u8 list \<Rightarrow> Locator" where
  "new_from_ipv4 port address = Locator KIND_UDPV4 port (replicate 12 0 @ address)"

fun new_list_from_multi_ipv4 :: "int \<Rightarrow> u8 list list \<Rightarrow> Locator list res" where
  "new_list_from_multi_ipv4 port [] = Inr []"
| "new_list_from_multi_ipv4 port (a # as) =
     (if a = replicate 4 0 then Inl AssertFailed
      else rbind (new_list_from_multi_ipv4 port as)
        (\<lambda>ls. Inr (Locator KIND_UDPV4 port (replicate 12 0 @ a) # ls)))"

instantiation Locator :: linorder
begin

definition less_eq_Locator :: "Locator \<Rightarrow> Locator \<Rightarrow> bool" where
  "less_eq_Locator a b \<longleftrightarrow>
     (loc_kind a, loc_port a, loc_address a) \<le> (loc_kind b, loc_port b, loc_address b)"

definition less_Locator :: "Locator \<Rightarrow> Locator \<Rightarrow> bool" where
  "less_Locator a b \<longleftrightarrow>
     (loc_kind a, loc_port a, loc_address a) < (loc_kind b, loc_port b, loc_address b)"

instance
proof
  fix x y z :: Locator
  show "x < y \<longleftrightarrow> x \<le> y \<and> \<not> y \<le> x"
    unfolding less_eq_Locator_def less_Locator_def by (rule less_le_not_le)
  show "x \<le> x" unfolding less_eq_Locator_def by (rule order_refl)
  show "x \<le> y \<Longrightarrow> y \<le> z \<Longrightarrow> x \<le> z" unfolding less_eq_Locator_def by (rule order_trans)
  show "x \<le> y \<Longrightarrow> y \<le> x \<Longrightarrow> x = y"
    unfolding less_eq_Locator_def by (metis Locator.collapse Pair_inject order_antisym)
  show "x \<le> y \<or> y \<le> x" unfolding less_eq_Locator_def by (rule linear)
qed

end

text \<open>\<^verbatim>\<open>((addr[12] >> 4) ^ 0b1110) == 0\<close>: an IPv4 address of class D.\<close>

definition is_ipv4_multicast :: "u8 list \<Rightarrow> bool" where
  "is_ipv4_multicast addr \<longleftrightarrow> drop_bit 4 (addr ! 12) XOR 0b1110 = 0"

section \<open>Well-known ports\<close>

text \<open>\<^verbatim>\<open>u16\<close> arithmetic of \<^verbatim>\<open>net_util.rs\<close>: a result above 65535 overflows.\<close>

definition u16_checked :: "int \<Rightarrow> int res" where
  "u16_checked x = (if 0 \<le> x \<and> x < 2 ^ 16 then Inr x else Inl ArithOverflow)"

definition spdp_multicast_port :: "int \<Rightarrow> int res" where
  "spdp_multicast_port domain_id = u16_checked (7400 + 250 * domain_id + 0)"

definition spdp_unicast_port :: "int \<Rightarrow> int \<Rightarrow> int res" where
  "spdp_unicast_port domain_id participant_id =
     u16_checked (7400 + 250 * domain_id + 10 + 2 * participant_id)"

definition usertraffic_multicast_port :: "int \<Rightarrow> int res" where
  "usertraffic_multicast_port domain_id = u16_checked (7400 + 250 * domain_id + 1)"

definition usertraffic_unicast_port :: "int \<Rightarrow> int \<Rightarrow> int res" where
  "usertraffic_unicast_port domain_id participant_id =
     u16_checked (7400 + 250 * domain_id + 11 + 2 * participant_id)"

text \<open>\<^verbatim>\<open>utils::pad_len\<close>: the bytes that align a length to four.\<close>

definition pad_len :: "nat \<Rightarrow> nat" where
  "pad_len len = (4 - len mod 4) mod 4"

lemma pad_len_aligns: "4 dvd len + pad_len len"
proof -
  obtain q r where len: "len = 4 * q + r" and r: "r < 4"
    using mod_less_divisor [of 4 len] by (metis mult_div_mod_eq zero_less_numeral)
  then have "r = 0 \<or> r = 1 \<or> r = 2 \<or> r = 3" by linarith
  then have "4 dvd r + (4 - r) mod 4" by (elim disjE) simp_all
  moreover have "len mod 4 = r" using len r by simp
  ultimately have "4 dvd 4 * q + (r + (4 - len mod 4) mod 4)"
    by (metis dvd_add dvd_triv_left)
  then show ?thesis by (simp add: pad_len_def len add.assoc)
qed

lemma pad_len_small: "pad_len len < 4"
  by (simp add: pad_len_def)

section \<open>Properties\<close>

lemma byte_of_u32:
  fixes a b c d :: u8
  assumes "w = (ucast (push_bit 24 (ucast a :: u32) OR push_bit 16 (ucast b :: u32)
                  OR push_bit 8 (ucast c :: u32) OR (ucast d :: u32)) :: 64 word)"
  shows "(ucast (w AND 0xff) :: u8) = d"
    and "(ucast (drop_bit 8 (w AND 0xff00)) :: u8) = c"
    and "(ucast (drop_bit 16 (w AND 0xff0000)) :: u8) = b"
    and "(ucast (drop_bit 24 (w AND 0xff000000)) :: u8) = a"
proof -
  have eight: "n = 0 \<or> n = 1 \<or> n = 2 \<or> n = 3 \<or> n = 4 \<or> n = 5 \<or> n = 6 \<or> n = 7"
    if "n < LENGTH(8)" for n using that by simp linarith
  have high: "bit x n \<longleftrightarrow> False" if "8 \<le> n" for x :: u8 and n
    using that by (auto dest: bit_imp_le_length)
  show "(ucast (w AND 0xff) :: u8) = d" unfolding assms
    by (rule bit_word_eqI) (drule eight, elim disjE; simp add: bit_simps high)
  show "(ucast (drop_bit 8 (w AND 0xff00)) :: u8) = c" unfolding assms
    by (rule bit_word_eqI) (drule eight, elim disjE; simp add: bit_simps high)
  show "(ucast (drop_bit 16 (w AND 0xff0000)) :: u8) = b" unfolding assms
    by (rule bit_word_eqI) (drule eight, elim disjE; simp add: bit_simps high)
  show "(ucast (drop_bit 24 (w AND 0xff000000)) :: u8) = a" unfolding assms
    by (rule bit_word_eqI) (drule eight, elim disjE; simp add: bit_simps high)
qed

text \<open>
  The token of an entity identifies it: unpacking the token of any entity identifier
  gives the identifier back, and a token never uses more than 32 bits.
\<close>

theorem entity_token_roundtrip:
  "from_usize (as_usize e) = e \<and> unat (as_usize e) < 2 ^ 32"
proof (cases e)
  case (EntityId key kind)
  obtain k0 k1 k2 where key: "key = (k0, k1, k2)" by (cases key) auto
  define w where "w = as_usize e"
  have w: "w = (ucast (push_bit 24 (ucast k0 :: u32) OR push_bit 16 (ucast k1 :: u32)
                 OR push_bit 8 (ucast k2 :: u32) OR (ucast (kind_value kind) :: u32)) :: 64 word)"
    by (simp add: w_def as_usize_def EntityId key Let_def)
  have "from_usize w = e"
    using byte_of_u32 [OF w] by (simp add: from_usize_def Let_def EntityId key)
  moreover have "unat (ucast v :: 64 word) < 2 ^ 32" for v :: u32
  proof -
    have "unat v < 2 ^ 32" using unsigned_less [of v] by simp
    then show ?thesis by (simp add: unsigned_ucast_eq take_bit_eq_mod)
  qed
  then have "unat w < 2 ^ 32" unfolding w .
  ultimately show ?thesis by (simp add: w_def)
qed

end
