(* ===== verification/Umber_Qos.thy ===== *)
theory Umber_Qos
  imports Umber_Time Umber_Structure
begin

text \<open>
  Quality of service: \<^verbatim>\<open>src/dds/qos.rs\<close>.

  Every policy of the module \<^verbatim>\<open>policy\<close> with its default, the policies of a topic, a writer and
  a reader with the flag that says whether the user has set them, their builders, the
  combination of a topic's QoS with an endpoint's, and the offered-versus-requested
  compatibility test that decides whether endpoints are matched. The numeric values of the
  enums, which the code uses both for the comparison and on the wire, are the functions
  \<open>*_repr\<close> and the readers of the wire values \<open>*_read\<close>.
\<close>

section \<open>Policies\<close>

definition LENGTH_UNLIMITED :: int where "LENGTH_UNLIMITED = - 1"

datatype Durability = Volatile | TransientLocal
datatype Ownership = Shared | Exclusive
datatype LivelinessQosKind = Automatic | ManualByParticipant | ManualByTopic
datatype ReliabilityQosKind = Reliable | BestEffort
datatype DestinationOrder = ByReceptionTimestamp | BySourceTimestamp
datatype HistoryQosKind = KeepLast | KeepAll
datatype PresentationQosAccessScopeKind = InstanceScope | TopicScope | GroupScope

record History =
  history_kind :: HistoryQosKind
  history_depth :: int

record ResourceLimits =
  max_samples :: int
  max_instance :: int
  max_samples_per_instanse :: int

record DurabilityService =
  service_cleanup_delay :: Duration
  ds_history_kind :: HistoryQosKind
  ds_history_depth :: int
  ds_max_samples :: int
  ds_max_instance :: int
  ds_max_samples_per_instanse :: int

datatype Deadline = Deadline (deadline_period: Duration)
datatype LatencyBudget = LatencyBudget (latency_duration: Duration)
datatype OwnershipStrength = OwnershipStrength (strength_value: int)
datatype Lifespan = Lifespan (lifespan_duration: Duration)
datatype TimeBasedFilter = TimeBasedFilter (minimun_separation: Duration)
datatype UserData = UserData (user_value: "u8 list")
datatype TopicData = TopicData (topic_value: "u8 list")
datatype GroupData = GroupData (group_value: "u8 list")
datatype Partition = Partition (partition_name: "string list")
datatype TransportPriority = TransportPriority (priority_value: int)
datatype WriterDataLifecycle = WriterDataLifecycle (autodispose_unregistered_instance: bool)

record Liveliness =
  liveliness_kind :: LivelinessQosKind
  lease_duration :: Duration

record Reliability =
  reliability_kind :: ReliabilityQosKind
  max_bloking_time :: Duration

record ReaderDataLifecycle =
  autopurge_nowriter_samples_delay :: Duration
  autopurge_dispose_samples_delay :: Duration

record Presentation =
  access_scope :: PresentationQosAccessScopeKind
  coherent_access :: bool
  ordered_access :: bool

subsection \<open>The numbers of the enums\<close>

fun durability_repr :: "Durability \<Rightarrow> int" where
  "durability_repr Volatile = 0"
| "durability_repr TransientLocal = 1"

definition durability_read :: "int \<Rightarrow> Durability option" where
  "durability_read val =
     (if val = 0 then Some Volatile else if val = 1 then Some TransientLocal else None)"

fun ownership_repr :: "Ownership \<Rightarrow> int" where
  "ownership_repr Shared = 0"
| "ownership_repr Exclusive = 1"

definition ownership_read :: "int \<Rightarrow> Ownership option" where
  "ownership_read val =
     (if val = 0 then Some Shared else if val = 1 then Some Exclusive else None)"

fun liveliness_repr :: "LivelinessQosKind \<Rightarrow> int" where
  "liveliness_repr Automatic = 0"
| "liveliness_repr ManualByParticipant = 1"
| "liveliness_repr ManualByTopic = 2"

definition liveliness_read :: "int \<Rightarrow> LivelinessQosKind option" where
  "liveliness_read val =
     (if val = 0 then Some Automatic else if val = 1 then Some ManualByTopic
      else if val = 2 then Some ManualByParticipant else None)"

fun reliability_repr :: "ReliabilityQosKind \<Rightarrow> int" where
  "reliability_repr Reliable = 2"
| "reliability_repr BestEffort = 1"

definition reliability_read :: "int \<Rightarrow> ReliabilityQosKind option" where
  "reliability_read val =
     (if val = 2 then Some Reliable else if val = 1 then Some BestEffort else None)"

fun destination_order_repr :: "DestinationOrder \<Rightarrow> int" where
  "destination_order_repr ByReceptionTimestamp = 0"
| "destination_order_repr BySourceTimestamp = 1"

definition destination_order_read :: "int \<Rightarrow> DestinationOrder option" where
  "destination_order_read val =
     (if val = 0 then Some ByReceptionTimestamp
      else if val = 1 then Some BySourceTimestamp else None)"

fun history_repr :: "HistoryQosKind \<Rightarrow> int" where
  "history_repr KeepLast = 0"
| "history_repr KeepAll = 1"

definition history_read :: "int \<Rightarrow> HistoryQosKind option" where
  "history_read val =
     (if val = 0 then Some KeepLast else if val = 1 then Some KeepAll else None)"

fun access_scope_repr :: "PresentationQosAccessScopeKind \<Rightarrow> int" where
  "access_scope_repr InstanceScope = 0"
| "access_scope_repr TopicScope = 1"
| "access_scope_repr GroupScope = 2"

definition access_scope_read :: "int \<Rightarrow> PresentationQosAccessScopeKind option" where
  "access_scope_read val =
     (if val = 0 then Some InstanceScope else if val = 1 then Some TopicScope
      else if val = 2 then Some GroupScope else None)"

subsection \<open>Defaults\<close>

definition default_durability :: Durability where "default_durability = Volatile"
definition default_ownership :: Ownership where "default_ownership = Shared"
definition default_destination_order :: DestinationOrder where
  "default_destination_order = ByReceptionTimestamp"
definition default_deadline :: Deadline where "default_deadline = Deadline DURATION_INFINITE"
definition default_latency_budget :: LatencyBudget where
  "default_latency_budget = LatencyBudget DURATION_ZERO"
definition default_ownership_strength :: OwnershipStrength where
  "default_ownership_strength = OwnershipStrength 0"
definition default_lifespan :: Lifespan where "default_lifespan = Lifespan DURATION_INFINITE"
definition default_time_based_filter :: TimeBasedFilter where
  "default_time_based_filter = TimeBasedFilter DURATION_ZERO"
definition default_user_data :: UserData where "default_user_data = UserData []"
definition default_topic_data :: TopicData where "default_topic_data = TopicData []"
definition default_transport_priority :: TransportPriority where
  "default_transport_priority = TransportPriority 0"
definition default_writer_data_lifecycle :: WriterDataLifecycle where
  "default_writer_data_lifecycle = WriterDataLifecycle True"

definition default_history :: History where
  "default_history = \<lparr>history_kind = KeepLast, history_depth = 1\<rparr>"

definition default_resource_limits :: ResourceLimits where
  "default_resource_limits =
     \<lparr>max_samples = LENGTH_UNLIMITED, max_instance = LENGTH_UNLIMITED,
      max_samples_per_instanse = LENGTH_UNLIMITED\<rparr>"

definition default_durability_service :: DurabilityService where
  "default_durability_service =
     \<lparr>service_cleanup_delay = DURATION_ZERO, ds_history_kind = KeepLast, ds_history_depth = 1,
      ds_max_samples = LENGTH_UNLIMITED, ds_max_instance = LENGTH_UNLIMITED,
      ds_max_samples_per_instanse = LENGTH_UNLIMITED\<rparr>"

definition default_liveliness :: Liveliness where
  "default_liveliness = \<lparr>liveliness_kind = Automatic, lease_duration = DURATION_INFINITE\<rparr>"

definition default_besteffort :: Reliability where
  "default_besteffort = \<lparr>reliability_kind = BestEffort, max_bloking_time = from_millis 100\<rparr>"

definition default_reliable :: Reliability where
  "default_reliable = \<lparr>reliability_kind = Reliable, max_bloking_time = from_millis 100\<rparr>"

definition default_reader_data_lifecycle :: ReaderDataLifecycle where
  "default_reader_data_lifecycle =
     \<lparr>autopurge_nowriter_samples_delay = DURATION_INFINITE,
      autopurge_dispose_samples_delay = DURATION_INFINITE\<rparr>"

subsection \<open>Compatibility of each policy\<close>

definition durability_is_compatible :: "Durability \<Rightarrow> Durability \<Rightarrow> bool" where
  "durability_is_compatible offered requested \<longleftrightarrow>
     durability_repr offered \<ge> durability_repr requested"

definition deadline_is_compatible :: "Deadline \<Rightarrow> Deadline \<Rightarrow> bool" where
  "deadline_is_compatible offered requested \<longleftrightarrow>
     deadline_period requested = deadline_period default_deadline \<or>
     dur_le (deadline_period offered) (deadline_period requested)"

definition latency_budget_is_compatible :: "LatencyBudget \<Rightarrow> LatencyBudget \<Rightarrow> bool" where
  "latency_budget_is_compatible offered requested \<longleftrightarrow>
     dur_le (latency_duration offered) (latency_duration requested)"

definition ownership_is_compatible :: "Ownership \<Rightarrow> Ownership \<Rightarrow> bool" where
  "ownership_is_compatible offered requested \<longleftrightarrow>
     ownership_repr offered = ownership_repr requested"

definition liveliness_is_compatible :: "Liveliness \<Rightarrow> Liveliness \<Rightarrow> bool" where
  "liveliness_is_compatible offered requested \<longleftrightarrow>
     liveliness_repr (liveliness_kind offered) \<ge> liveliness_repr (liveliness_kind requested) \<and>
     dur_le (lease_duration offered) (lease_duration requested)"

definition reliability_is_compatible :: "Reliability \<Rightarrow> Reliability \<Rightarrow> bool" where
  "reliability_is_compatible offered requested \<longleftrightarrow>
     reliability_repr (reliability_kind offered) \<ge> reliability_repr (reliability_kind requested)"

definition destination_order_is_compatible :: "DestinationOrder \<Rightarrow> DestinationOrder \<Rightarrow> bool" where
  "destination_order_is_compatible offered requested \<longleftrightarrow>
     destination_order_repr offered \<ge> destination_order_repr requested"

definition presentation_is_compatible :: "Presentation \<Rightarrow> Presentation \<Rightarrow> bool" where
  "presentation_is_compatible offered requested \<longleftrightarrow>
     access_scope_repr (access_scope offered) \<ge> access_scope_repr (access_scope requested)"

section \<open>The QoS of topics, writers and readers\<close>

text \<open>Each policy carries whether the user has set it.\<close>

record TopicQosPolicies =
  tq_topic_data :: "TopicData \<times> bool"
  tq_durability :: "Durability \<times> bool"
  tq_durability_service :: "DurabilityService \<times> bool"
  tq_deadline :: "Deadline \<times> bool"
  tq_latency_budget :: "LatencyBudget \<times> bool"
  tq_liveliness :: "Liveliness \<times> bool"
  tq_reliability :: "Reliability \<times> bool"
  tq_destination_order :: "DestinationOrder \<times> bool"
  tq_history :: "History \<times> bool"
  tq_resource_limits :: "ResourceLimits \<times> bool"
  tq_transport_priority :: "TransportPriority \<times> bool"
  tq_lifespan :: "Lifespan \<times> bool"
  tq_ownership :: "Ownership \<times> bool"

record DataWriterQosPolicies =
  dw_durability :: "Durability \<times> bool"
  dw_durability_service :: "DurabilityService \<times> bool"
  dw_deadline :: "Deadline \<times> bool"
  dw_latency_budget :: "LatencyBudget \<times> bool"
  dw_liveliness :: "Liveliness \<times> bool"
  dw_reliability :: "Reliability \<times> bool"
  dw_destination_order :: "DestinationOrder \<times> bool"
  dw_history :: "History \<times> bool"
  dw_resource_limits :: "ResourceLimits \<times> bool"
  dw_transport_priority :: "TransportPriority \<times> bool"
  dw_lifespan :: "Lifespan \<times> bool"
  dw_user_data :: "UserData \<times> bool"
  dw_ownership :: "Ownership \<times> bool"
  dw_ownership_strength :: "OwnershipStrength \<times> bool"
  dw_writer_data_lifecycle :: "WriterDataLifecycle \<times> bool"

record DataReaderQosPolicies =
  dr_durability :: "Durability \<times> bool"
  dr_deadline :: "Deadline \<times> bool"
  dr_latency_budget :: "LatencyBudget \<times> bool"
  dr_liveliness :: "Liveliness \<times> bool"
  dr_reliability :: "Reliability \<times> bool"
  dr_destination_order :: "DestinationOrder \<times> bool"
  dr_history :: "History \<times> bool"
  dr_resource_limits :: "ResourceLimits \<times> bool"
  dr_user_data :: "UserData \<times> bool"
  dr_ownership :: "Ownership \<times> bool"
  dr_time_based_filter :: "TimeBasedFilter \<times> bool"
  dr_reader_data_lifecycle :: "ReaderDataLifecycle \<times> bool"

definition to_datawriter_qos :: "TopicQosPolicies \<Rightarrow> DataWriterQosPolicies" where
  "to_datawriter_qos q =
     \<lparr>dw_durability = tq_durability q,
      dw_durability_service = tq_durability_service q,
      dw_deadline = tq_deadline q,
      dw_latency_budget = tq_latency_budget q,
      dw_liveliness = tq_liveliness q,
      dw_reliability = tq_reliability q,
      dw_destination_order = tq_destination_order q,
      dw_history = tq_history q,
      dw_resource_limits = tq_resource_limits q,
      dw_transport_priority = tq_transport_priority q,
      dw_lifespan = tq_lifespan q,
      dw_user_data = (default_user_data, False),
      dw_ownership = tq_ownership q,
      dw_ownership_strength = (default_ownership_strength, False),
      dw_writer_data_lifecycle = (default_writer_data_lifecycle, False)\<rparr>"

definition to_datareader_qos :: "TopicQosPolicies \<Rightarrow> DataReaderQosPolicies" where
  "to_datareader_qos q =
     \<lparr>dr_durability = tq_durability q,
      dr_deadline = tq_deadline q,
      dr_latency_budget = tq_latency_budget q,
      dr_liveliness = tq_liveliness q,
      dr_reliability = tq_reliability q,
      dr_destination_order = tq_destination_order q,
      dr_history = tq_history q,
      dr_resource_limits = tq_resource_limits q,
      dr_user_data = (default_user_data, False),
      dr_ownership = tq_ownership q,
      dr_time_based_filter = (default_time_based_filter, False),
      dr_reader_data_lifecycle = (default_reader_data_lifecycle, False)\<rparr>"

section \<open>Compatibility of offered and requested QoS\<close>

text \<open>
  \<^verbatim>\<open>is_compatible\<close> builds a message with one entry per policy that does not match, in this order;
  the model keeps the policies named in the message.
\<close>

datatype policy_name =
    P_durability | P_deadline | P_latency_budget | P_ownership | P_liveliness | P_reliability
  | P_destination_order

fun mismatches :: "(bool \<times> policy_name) list \<Rightarrow> policy_name list" where
  "mismatches [] = []"
| "mismatches ((ok, p) # ps) = (if \<not> ok then p # mismatches ps else mismatches ps)"

definition compat_result :: "policy_name list \<Rightarrow> policy_name list + unit" where
  "compat_result ms = (if ms = [] then Inr () else Inl ms)"

definition dw_is_compatible :: "DataWriterQosPolicies \<Rightarrow> DataReaderQosPolicies
    \<Rightarrow> policy_name list + unit" where
  "dw_is_compatible self qos = compat_result (mismatches
       [(durability_is_compatible (fst (dw_durability self)) (fst (dr_durability qos)), P_durability),
        (deadline_is_compatible (fst (dw_deadline self)) (fst (dr_deadline qos)), P_deadline),
        (latency_budget_is_compatible (fst (dw_latency_budget self)) (fst (dr_latency_budget qos)), P_latency_budget),
        (ownership_is_compatible (fst (dw_ownership self)) (fst (dr_ownership qos)), P_ownership),
        (liveliness_is_compatible (fst (dw_liveliness self)) (fst (dr_liveliness qos)), P_liveliness),
        (reliability_is_compatible (fst (dw_reliability self)) (fst (dr_reliability qos)), P_reliability),
        (destination_order_is_compatible (fst (dw_destination_order self)) (fst (dr_destination_order qos)), P_destination_order)])"

definition dr_is_compatible :: "DataReaderQosPolicies \<Rightarrow> DataWriterQosPolicies
    \<Rightarrow> policy_name list + unit" where
  "dr_is_compatible self qos = compat_result (mismatches
       [(durability_is_compatible (fst (dw_durability qos)) (fst (dr_durability self)), P_durability),
        (deadline_is_compatible (fst (dw_deadline qos)) (fst (dr_deadline self)), P_deadline),
        (latency_budget_is_compatible (fst (dw_latency_budget qos)) (fst (dr_latency_budget self)), P_latency_budget),
        (ownership_is_compatible (fst (dw_ownership qos)) (fst (dr_ownership self)), P_ownership),
        (liveliness_is_compatible (fst (dw_liveliness qos)) (fst (dr_liveliness self)), P_liveliness),
        (reliability_is_compatible (fst (dw_reliability qos)) (fst (dr_reliability self)), P_reliability),
        (destination_order_is_compatible (fst (dw_destination_order qos)) (fst (dr_destination_order self)), P_destination_order)])"

section \<open>Combining the QoS of a topic with that of an endpoint\<close>

text \<open>The macro \<^verbatim>\<open>combine_policy!\<close>; reliability has a rule of its own.\<close>

definition combine_policy :: "'p \<times> bool \<Rightarrow> 'p \<times> bool \<Rightarrow> 'p \<times> bool" where
  "combine_policy self policies =
     (if fst self \<noteq> fst policies
      then if snd policies then policies else self
      else (fst self, snd self \<or> snd policies))"

definition combine_reliability :: "Reliability \<times> bool \<Rightarrow> Reliability \<times> bool \<Rightarrow> Reliability \<times> bool" where
  "combine_reliability self policies =
     (if fst self \<noteq> fst policies \<and> snd policies then policies else self)"

definition dw_combine :: "DataWriterQosPolicies \<Rightarrow> DataWriterQosPolicies \<Rightarrow> DataWriterQosPolicies" where
  "dw_combine self policies =
     \<lparr>dw_durability = combine_policy (dw_durability self) (dw_durability policies),
      dw_durability_service = combine_policy (dw_durability_service self) (dw_durability_service policies),
      dw_deadline = combine_policy (dw_deadline self) (dw_deadline policies),
      dw_latency_budget = combine_policy (dw_latency_budget self) (dw_latency_budget policies),
      dw_liveliness = combine_policy (dw_liveliness self) (dw_liveliness policies),
      dw_reliability = combine_reliability (dw_reliability self) (dw_reliability policies),
      dw_destination_order = combine_policy (dw_destination_order self) (dw_destination_order policies),
      dw_history = combine_policy (dw_history self) (dw_history policies),
      dw_resource_limits = combine_policy (dw_resource_limits self) (dw_resource_limits policies),
      dw_transport_priority = combine_policy (dw_transport_priority self) (dw_transport_priority policies),
      dw_lifespan = combine_policy (dw_lifespan self) (dw_lifespan policies),
      dw_user_data = combine_policy (dw_user_data self) (dw_user_data policies),
      dw_ownership = combine_policy (dw_ownership self) (dw_ownership policies),
      dw_ownership_strength = combine_policy (dw_ownership_strength self) (dw_ownership_strength policies),
      dw_writer_data_lifecycle = combine_policy (dw_writer_data_lifecycle self) (dw_writer_data_lifecycle policies)\<rparr>"

definition dr_combine :: "DataReaderQosPolicies \<Rightarrow> DataReaderQosPolicies \<Rightarrow> DataReaderQosPolicies" where
  "dr_combine self policies =
     \<lparr>dr_durability = combine_policy (dr_durability self) (dr_durability policies),
      dr_deadline = combine_policy (dr_deadline self) (dr_deadline policies),
      dr_latency_budget = combine_policy (dr_latency_budget self) (dr_latency_budget policies),
      dr_liveliness = combine_policy (dr_liveliness self) (dr_liveliness policies),
      dr_reliability = combine_reliability (dr_reliability self) (dr_reliability policies),
      dr_destination_order = combine_policy (dr_destination_order self) (dr_destination_order policies),
      dr_history = combine_policy (dr_history self) (dr_history policies),
      dr_resource_limits = combine_policy (dr_resource_limits self) (dr_resource_limits policies),
      dr_user_data = combine_policy (dr_user_data self) (dr_user_data policies),
      dr_ownership = combine_policy (dr_ownership self) (dr_ownership policies),
      dr_time_based_filter = combine_policy (dr_time_based_filter self) (dr_time_based_filter policies),
      dr_reader_data_lifecycle = combine_policy (dr_reader_data_lifecycle self) (dr_reader_data_lifecycle policies)\<rparr>"

section \<open>Builders\<close>

record TopicQosBuilder =
  tb_topic_data :: "TopicData option"
  tb_durability :: "Durability option"
  tb_durability_service :: "DurabilityService option"
  tb_deadline :: "Deadline option"
  tb_latency_budget :: "LatencyBudget option"
  tb_liveliness :: "Liveliness option"
  tb_reliability :: "Reliability option"
  tb_destination_order :: "DestinationOrder option"
  tb_history :: "History option"
  tb_resource_limits :: "ResourceLimits option"
  tb_transport_priority :: "TransportPriority option"
  tb_lifespan :: "Lifespan option"
  tb_ownership :: "Ownership option"

record DataWriterQosBuilder =
  wb_durability :: "Durability option"
  wb_durability_service :: "DurabilityService option"
  wb_deadline :: "Deadline option"
  wb_latency_budget :: "LatencyBudget option"
  wb_liveliness :: "Liveliness option"
  wb_reliability :: "Reliability option"
  wb_destination_order :: "DestinationOrder option"
  wb_history :: "History option"
  wb_resource_limits :: "ResourceLimits option"
  wb_transport_priority :: "TransportPriority option"
  wb_lifespan :: "Lifespan option"
  wb_user_data :: "UserData option"
  wb_ownership :: "Ownership option"
  wb_ownership_strength :: "OwnershipStrength option"
  wb_writer_data_lifecycle :: "WriterDataLifecycle option"

record DataReaderQosBuilder =
  rb_durability :: "Durability option"
  rb_deadline :: "Deadline option"
  rb_latency_budget :: "LatencyBudget option"
  rb_liveliness :: "Liveliness option"
  rb_reliability :: "Reliability option"
  rb_destination_order :: "DestinationOrder option"
  rb_history :: "History option"
  rb_resource_limits :: "ResourceLimits option"
  rb_user_data :: "UserData option"
  rb_ownership :: "Ownership option"
  rb_time_based_filter :: "TimeBasedFilter option"
  rb_reader_data_lifecycle :: "ReaderDataLifecycle option"

definition TopicQosBuilder_new :: TopicQosBuilder where
  "TopicQosBuilder_new =
     \<lparr>tb_topic_data = None,
      tb_durability = None,
      tb_durability_service = None,
      tb_deadline = None,
      tb_latency_budget = None,
      tb_liveliness = None,
      tb_reliability = None,
      tb_destination_order = None,
      tb_history = None,
      tb_resource_limits = None,
      tb_transport_priority = None,
      tb_lifespan = None,
      tb_ownership = None\<rparr>"

definition DataWriterQosBuilder_new :: DataWriterQosBuilder where
  "DataWriterQosBuilder_new =
     \<lparr>wb_durability = None,
      wb_durability_service = None,
      wb_deadline = None,
      wb_latency_budget = None,
      wb_liveliness = None,
      wb_reliability = None,
      wb_destination_order = None,
      wb_history = None,
      wb_resource_limits = None,
      wb_transport_priority = None,
      wb_lifespan = None,
      wb_user_data = None,
      wb_ownership = None,
      wb_ownership_strength = None,
      wb_writer_data_lifecycle = None\<rparr>"

definition DataReaderQosBuilder_new :: DataReaderQosBuilder where
  "DataReaderQosBuilder_new =
     \<lparr>rb_durability = None,
      rb_deadline = None,
      rb_latency_budget = None,
      rb_liveliness = None,
      rb_reliability = None,
      rb_destination_order = None,
      rb_history = None,
      rb_resource_limits = None,
      rb_user_data = None,
      rb_ownership = None,
      rb_time_based_filter = None,
      rb_reader_data_lifecycle = None\<rparr>"

text \<open>The macro \<^verbatim>\<open>decide_value!\<close>.\<close>

definition decide_value :: "'p option \<Rightarrow> 'p \<Rightarrow> 'p \<times> bool" where
  "decide_value v dflt = (case v of Some qos_policy \<Rightarrow> (qos_policy, True) | None \<Rightarrow> (dflt, False))"

definition topic_build :: "TopicQosBuilder \<Rightarrow> TopicQosPolicies" where
  "topic_build b =
     \<lparr>tq_topic_data = decide_value (tb_topic_data b) default_topic_data,
      tq_durability = decide_value (tb_durability b) default_durability,
      tq_durability_service = decide_value (tb_durability_service b) default_durability_service,
      tq_deadline = decide_value (tb_deadline b) default_deadline,
      tq_latency_budget = decide_value (tb_latency_budget b) default_latency_budget,
      tq_liveliness = decide_value (tb_liveliness b) default_liveliness,
      tq_reliability = decide_value (tb_reliability b) default_besteffort,
      tq_destination_order = decide_value (tb_destination_order b) default_destination_order,
      tq_history = decide_value (tb_history b) default_history,
      tq_resource_limits = decide_value (tb_resource_limits b) default_resource_limits,
      tq_transport_priority = decide_value (tb_transport_priority b) default_transport_priority,
      tq_lifespan = decide_value (tb_lifespan b) default_lifespan,
      tq_ownership = decide_value (tb_ownership b) default_ownership\<rparr>"

definition datawriter_build :: "DataWriterQosBuilder \<Rightarrow> DataWriterQosPolicies" where
  "datawriter_build b =
     \<lparr>dw_durability = decide_value (wb_durability b) default_durability,
      dw_durability_service = decide_value (wb_durability_service b) default_durability_service,
      dw_deadline = decide_value (wb_deadline b) default_deadline,
      dw_latency_budget = decide_value (wb_latency_budget b) default_latency_budget,
      dw_liveliness = decide_value (wb_liveliness b) default_liveliness,
      dw_reliability = decide_value (wb_reliability b) default_reliable,
      dw_destination_order = decide_value (wb_destination_order b) default_destination_order,
      dw_history = decide_value (wb_history b) default_history,
      dw_resource_limits = decide_value (wb_resource_limits b) default_resource_limits,
      dw_transport_priority = decide_value (wb_transport_priority b) default_transport_priority,
      dw_lifespan = decide_value (wb_lifespan b) default_lifespan,
      dw_user_data = decide_value (wb_user_data b) default_user_data,
      dw_ownership = decide_value (wb_ownership b) default_ownership,
      dw_ownership_strength = decide_value (wb_ownership_strength b) default_ownership_strength,
      dw_writer_data_lifecycle = decide_value (wb_writer_data_lifecycle b) default_writer_data_lifecycle\<rparr>"

definition datareader_build :: "DataReaderQosBuilder \<Rightarrow> DataReaderQosPolicies" where
  "datareader_build b =
     \<lparr>dr_durability = decide_value (rb_durability b) default_durability,
      dr_deadline = decide_value (rb_deadline b) default_deadline,
      dr_latency_budget = decide_value (rb_latency_budget b) default_latency_budget,
      dr_liveliness = decide_value (rb_liveliness b) default_liveliness,
      dr_reliability = decide_value (rb_reliability b) default_besteffort,
      dr_destination_order = decide_value (rb_destination_order b) default_destination_order,
      dr_history = decide_value (rb_history b) default_history,
      dr_resource_limits = decide_value (rb_resource_limits b) default_resource_limits,
      dr_user_data = decide_value (rb_user_data b) default_user_data,
      dr_ownership = decide_value (rb_ownership b) default_ownership,
      dr_time_based_filter = decide_value (rb_time_based_filter b) default_time_based_filter,
      dr_reader_data_lifecycle = decide_value (rb_reader_data_lifecycle b) default_reader_data_lifecycle\<rparr>"

section \<open>Properties\<close>

lemmas policy_compat_defs =
  durability_is_compatible_def deadline_is_compatible_def latency_budget_is_compatible_def
  ownership_is_compatible_def liveliness_is_compatible_def reliability_is_compatible_def
  destination_order_is_compatible_def

lemma mismatches_Nil: "mismatches ps = [] \<longleftrightarrow> list_all fst ps"
  by (induction ps rule: mismatches.induct) auto

lemma compat_result_ok [simp]: "compat_result ms = Inr () \<longleftrightarrow> ms = []"
  by (simp add: compat_result_def)

lemma durability_compat: "durability_is_compatible o' r \<longleftrightarrow> o' = TransientLocal \<or> r = Volatile"
  by (cases o'; cases r) (simp_all add: durability_is_compatible_def)

lemma reliability_compat:
  "reliability_is_compatible o' r \<longleftrightarrow> reliability_kind o' = Reliable \<or> reliability_kind r = BestEffort"
  by (cases "reliability_kind o'"; cases "reliability_kind r")
    (simp_all add: reliability_is_compatible_def)

lemma destination_order_compat:
  "destination_order_is_compatible o' r \<longleftrightarrow> o' = BySourceTimestamp \<or> r = ByReceptionTimestamp"
  by (cases o'; cases r) (simp_all add: destination_order_is_compatible_def)

lemma ownership_compat: "ownership_is_compatible o' r \<longleftrightarrow> o' = r"
  by (cases o'; cases r) (simp_all add: ownership_is_compatible_def)

text \<open>
  C39. The writer's and the reader's test of one pair of QoS give the same verdict and name the
  same policies (a discovery exchange may hand them different pairs, since the wire swaps the two manual kinds of
  liveliness); and the test succeeds exactly when every requested policy is offered: a transient-local reader needs
  a transient-local writer, a reliable reader a reliable writer, a reader that orders by source
  timestamp such a writer, equal ownership, and deadline, latency budget and liveliness lease
  that the offer does not exceed.
\<close>

theorem qos_compatible_agree:
  "dw_is_compatible w r = dr_is_compatible r w \<and>
   (dw_is_compatible w r = Inr () \<longleftrightarrow>
      (fst (dw_durability w) = TransientLocal \<or> fst (dr_durability r) = Volatile) \<and>
      (reliability_kind (fst (dw_reliability w)) = Reliable \<or>
       reliability_kind (fst (dr_reliability r)) = BestEffort) \<and>
      (fst (dw_destination_order w) = BySourceTimestamp \<or>
       fst (dr_destination_order r) = ByReceptionTimestamp) \<and>
      fst (dw_ownership w) = fst (dr_ownership r) \<and>
      (deadline_period (fst (dr_deadline r)) = DURATION_INFINITE \<or>
       dur_le (deadline_period (fst (dw_deadline w))) (deadline_period (fst (dr_deadline r)))) \<and>
      dur_le (latency_duration (fst (dw_latency_budget w)))
        (latency_duration (fst (dr_latency_budget r))) \<and>
      liveliness_is_compatible (fst (dw_liveliness w)) (fst (dr_liveliness r)))"
proof
  show "dw_is_compatible w r = dr_is_compatible r w"
    by (simp add: dw_is_compatible_def dr_is_compatible_def)
qed (auto simp: dw_is_compatible_def mismatches_Nil durability_compat reliability_compat
    destination_order_compat ownership_compat deadline_is_compatible_def default_deadline_def
    latency_budget_is_compatible_def)

text \<open>What the combination of one policy promises: the explicit setting of the endpoint wins.\<close>

definition selects :: "'p \<times> bool \<Rightarrow> 'p \<times> bool \<Rightarrow> 'p \<times> bool \<Rightarrow> bool" where
  "selects t e c \<longleftrightarrow>
     fst c = (if snd e then fst e else fst t) \<and> (snd c \<longleftrightarrow> snd t \<or> snd e)"

lemma selects_combine [simp]: "selects t e (combine_policy t e)"
  by (cases t; cases e) (auto simp: selects_def combine_policy_def)

lemma combine_policy_idem [simp]: "combine_policy (combine_policy t e) e = combine_policy t e"
  by (cases t; cases e) (auto simp: combine_policy_def)

lemma combine_reliability_idem [simp]:
  "combine_reliability (combine_reliability t e) e = combine_reliability t e"
  by (auto simp: combine_reliability_def)

lemma combine_reliability_flag:
  "snd (combine_reliability t e) \<longleftrightarrow> snd t \<or> snd e \<and> fst t \<noteq> fst e"
  by (auto simp: combine_reliability_def)

lemma combine_reliability_value:
  "fst (combine_reliability t e) = (if snd e then fst e else fst t)"
  by (auto simp: combine_reliability_def)

text \<open>
  Combining a topic's QoS with an endpoint's: for every policy the value the user has set on
  the endpoint is the one in force, a policy that was not set there keeps the topic's value,
  and a policy that was set on either side stays marked as set. Reliability follows the
  same rule for its value, but its mark is lost when the endpoint sets explicitly the value that
  the topic has by default. Combining twice changes nothing.
\<close>

theorem dw_combine_selects:
  "selects (dw_durability t) (dw_durability e) (dw_durability (dw_combine t e)) \<and>
   selects (dw_durability_service t) (dw_durability_service e) (dw_durability_service (dw_combine t e)) \<and>
   selects (dw_deadline t) (dw_deadline e) (dw_deadline (dw_combine t e)) \<and>
   selects (dw_latency_budget t) (dw_latency_budget e) (dw_latency_budget (dw_combine t e)) \<and>
   selects (dw_liveliness t) (dw_liveliness e) (dw_liveliness (dw_combine t e)) \<and>
   selects (dw_destination_order t) (dw_destination_order e) (dw_destination_order (dw_combine t e)) \<and>
   selects (dw_history t) (dw_history e) (dw_history (dw_combine t e)) \<and>
   selects (dw_resource_limits t) (dw_resource_limits e) (dw_resource_limits (dw_combine t e)) \<and>
   selects (dw_transport_priority t) (dw_transport_priority e) (dw_transport_priority (dw_combine t e)) \<and>
   selects (dw_lifespan t) (dw_lifespan e) (dw_lifespan (dw_combine t e)) \<and>
   selects (dw_user_data t) (dw_user_data e) (dw_user_data (dw_combine t e)) \<and>
   selects (dw_ownership t) (dw_ownership e) (dw_ownership (dw_combine t e)) \<and>
   selects (dw_ownership_strength t) (dw_ownership_strength e) (dw_ownership_strength (dw_combine t e)) \<and>
   selects (dw_writer_data_lifecycle t) (dw_writer_data_lifecycle e) (dw_writer_data_lifecycle (dw_combine t e)) \<and>
   fst (dw_reliability (dw_combine t e)) =
     (if snd (dw_reliability e) then fst (dw_reliability e) else fst (dw_reliability t)) \<and>
   (snd (dw_reliability (dw_combine t e)) \<longleftrightarrow> snd (dw_reliability t) \<or>
      snd (dw_reliability e) \<and> fst (dw_reliability t) \<noteq> fst (dw_reliability e)) \<and>
   dw_combine (dw_combine t e) e = dw_combine t e"
  unfolding dw_combine_def DataWriterQosPolicies.simps
  by (simp add: combine_reliability_flag combine_reliability_value)

text \<open>
  Reading back the number written for an enum gives the enum, for durability, ownership,
  reliability, destination order, history and access scope; for liveliness the two manual kinds
  are exchanged, so a peer of the same implementation that announces \<^verbatim>\<open>ManualByTopic\<close> is taken for
  \<^verbatim>\<open>ManualByParticipant\<close> and the reverse.
\<close>

theorem qos_enum_wire:
  "durability_read (durability_repr d) = Some d \<and>
   ownership_read (ownership_repr ow) = Some ow \<and>
   reliability_read (reliability_repr r) = Some r \<and>
   destination_order_read (destination_order_repr dor) = Some dor \<and>
   history_read (history_repr h) = Some h \<and>
   access_scope_read (access_scope_repr a) = Some a \<and>
   (liveliness_read (liveliness_repr l) = Some l \<longleftrightarrow> l = Automatic) \<and>
   liveliness_read (liveliness_repr ManualByTopic) = Some ManualByParticipant \<and>
   liveliness_read (liveliness_repr ManualByParticipant) = Some ManualByTopic"
  by (cases d; cases ow; cases r; cases dor; cases h; cases a; cases l)
    (simp_all add: durability_read_def ownership_read_def reliability_read_def
      destination_order_read_def history_read_def access_scope_read_def liveliness_read_def)

end
