(* ===== verification/Umber_SeqNum.thy ===== *)
theory Umber_SeqNum
  imports Umber_Structure
begin

text \<open>
  Sequence numbers and sequence-number sets of
  \<^verbatim>\<open>src/message/submessage/element.rs\<close>.

  A \<^verbatim>\<open>SequenceNumber\<close> is an \<^verbatim>\<open>i64\<close>; the model uses \<open>int\<close> with checked arithmetic. On the wire
  it is a signed high half and an unsigned low half (\<open>sn_write\<close>, \<open>sn_read\<close>). A
  \<^verbatim>\<open>SequenceNumberSet\<close> is the bitmap that an ACKNACK or a GAP carries: \<open>sns_from_vec\<close> builds
  it, \<open>sns_set\<close> lists its members, most significant bit first.
\<close>

section \<open>Sequence numbers\<close>

type_synonym SequenceNumber = int

definition SEQUENCENUMBER_UNKNOWN :: SequenceNumber where
  "SEQUENCENUMBER_UNKNOWN = wrap_s 64 ((2 ^ 32 - 1) * 2 ^ 32)"

text \<open>\<^verbatim>\<open>write_to\<close>: the high half is \<^verbatim>\<open>(self.0 >> 32) as i32\<close>, the low half \<^verbatim>\<open>self.0 as u32\<close>.\<close>

definition sn_write :: "SequenceNumber \<Rightarrow> int \<times> int" where
  "sn_write sn = (wrap_s 32 (sn div 2 ^ 32), wrap_u 32 sn)"

definition sn_read :: "int \<times> int \<Rightarrow> SequenceNumber res" where
  "sn_read hl = (case hl of (high, low) \<Rightarrow> i64_add (wrap_s 64 (high * 2 ^ 32)) low)"

section \<open>Sequence-number sets\<close>

record 'n NumberSet =
  bitmap_base :: 'n
  num_bits :: nat
  bitmap :: "u32 list"

type_synonym SequenceNumberSet = "SequenceNumber NumberSet"
type_synonym FragmentNumberSet = "nat NumberSet"

definition bit_set :: "u32 \<Rightarrow> nat \<Rightarrow> bool" where
  "bit_set m off \<longleftrightarrow> m AND push_bit (31 - off) 1 = push_bit (31 - off) 1"

text \<open>The inner loop of \<^verbatim>\<open>set\<close> over the offsets of one word, and the outer one over the words.\<close>

fun set_line :: "SequenceNumber \<Rightarrow> nat \<Rightarrow> u32 \<Rightarrow> nat list \<Rightarrow> SequenceNumber list
    \<Rightarrow> SequenceNumber list res" where
  "set_line base line m [] acc = Inr acc"
| "set_line base line m (off # offs) acc =
     (if bit_set m off then
        rbind (i64_add base (32 * int line + int off))
          (\<lambda>sn. set_line base line m offs (acc @ [sn]))
      else set_line base line m offs acc)"

fun set_lines :: "SequenceNumber \<Rightarrow> nat \<Rightarrow> nat \<Rightarrow> u32 list \<Rightarrow> SequenceNumber list
    \<Rightarrow> SequenceNumber list res" where
  "set_lines base nb line [] acc = Inr acc"
| "set_lines base nb line (m # ms) acc =
     (if nb < 32 * line then Inl ArithOverflow
      else rbind (set_line base line m [0 ..< min 32 (nb - 32 * line)] acc)
        (set_lines base nb (Suc line) ms))"

definition sns_set :: "SequenceNumberSet \<Rightarrow> SequenceNumber list res" where
  "sns_set s = set_lines (bitmap_base s) (num_bits s) 0 (bitmap s) []"

text \<open>
  \<^verbatim>\<open>from_vec\<close>: one iteration per element. \<^verbatim>\<open>Vec::resize\<close> truncates as well as it extends. An
  element below the base panics (the shift or the conversion to \<^verbatim>\<open>usize\<close> overflows).
\<close>

definition vec_resize :: "nat \<Rightarrow> u32 list \<Rightarrow> u32 list" where
  "vec_resize n xs = take n xs @ replicate (n - length xs) 0"

fun from_vec_loop :: "SequenceNumber \<Rightarrow> SequenceNumber list \<Rightarrow> nat \<Rightarrow> u32 list
    \<Rightarrow> (nat \<times> u32 list) res" where
  "from_vec_loop base [] nb bm = Inr (nb, bm)"
| "from_vec_loop base (sn # sns) nb bm =
     rbind (i64_sub sn base) (\<lambda>offset.
       if offset < 0 \<or> wrap_u 32 offset = 2 ^ 32 - 1 then Inl ArithOverflow
       else
         let nb' = max nb (nat (wrap_u 32 offset) + 1);
             line = nat offset div 32;
             offset_in_line = nat offset mod 32;
             bm' = vec_resize (line + 1) bm
         in from_vec_loop base sns nb'
              (bm'[line := bm' ! line OR push_bit (31 - offset_in_line) 1]))"

definition sns_from_vec :: "SequenceNumber \<Rightarrow> SequenceNumber list \<Rightarrow> SequenceNumberSet res" where
  "sns_from_vec base sns =
     rbind (from_vec_loop base sns 0 []) (\<lambda>(nb, bm).
       Inr \<lparr>bitmap_base = base, num_bits = nb, bitmap = bm\<rparr>)"

text \<open>\<^verbatim>\<open>size\<close> computes in \<^verbatim>\<open>u16\<close>.\<close>

definition sns_size :: "SequenceNumberSet \<Rightarrow> int res" where
  "sns_size s =
     (let n = wrap_u 16 (int (length (bitmap s)))
      in if n * 4 < 2 ^ 16 \<and> 12 + n * 4 < 2 ^ 16 then Inr (12 + n * 4) else Inl ArithOverflow)"

definition div_ceil32 :: "nat \<Rightarrow> nat" where
  "div_ceil32 n = (n + 31) div 32"

definition sns_is_valid :: "SequenceNumberSet \<Rightarrow> bool" where
  "sns_is_valid s \<longleftrightarrow>
     1 \<le> bitmap_base s \<and> num_bits s < 256 \<and> length (bitmap s) = div_ceil32 (num_bits s)"

section \<open>Reading a bitmap\<close>

lemma bit_set_iff: "bit_set m off \<longleftrightarrow> bit m (31 - off)"
proof -
  have "m AND push_bit n 1 = push_bit n 1 \<longleftrightarrow> bit m n" if n: "n < 32" for n
  proof
    assume "m AND push_bit n 1 = push_bit n 1"
    then have "bit (m AND push_bit n 1) n = bit (push_bit n 1 :: u32) n" by simp
    then show "bit m n" using n by (simp add: bit_simps)
  next
    assume "bit m n"
    then show "m AND push_bit n 1 = push_bit n 1"
      by (intro bit_word_eqI) (auto simp: bit_simps simp flip: One_nat_def)
  qed
  then show ?thesis by (simp add: bit_set_def)
qed

definition bm_bit :: "u32 list \<Rightarrow> nat \<Rightarrow> bool" where
  "bm_bit bm i \<longleftrightarrow> bit_set (bm ! (i div 32)) (i mod 32)"

lemma set_line_eq:
  assumes "\<And>off. off \<in> set offs \<Longrightarrow> bit_set m off \<Longrightarrow> in_i64 (base + (32 * int line + int off))"
  shows "set_line base line m offs acc =
    Inr (acc @ map (\<lambda>off. base + (32 * int line + int off)) (filter (bit_set m) offs))"
  using assms by (induction offs arbitrary: acc) (auto simp: i64_add_def)

lemma filter_upt_shift:
  "map (\<lambda>off. f (a + off)) (filter (\<lambda>off. P (a + off)) [0 ..< n]) =
   map f (filter P [a ..< a + n])"
proof -
  have "[a ..< a + n] = map (\<lambda>off. a + off) [0 ..< n]"
    by (simp add: map_add_upt add.commute)
  then show ?thesis by (simp add: filter_map comp_def)
qed

lemma set_lines_eq:
  assumes "\<And>i. i < nb \<Longrightarrow> bm_bit bm i \<Longrightarrow> in_i64 (base + int i)"
    and "line + length ms = length bm" and "ms = drop line bm"
    and "nb \<le> 32 * length bm" and "32 * (length bm - 1) \<le> nb"
  shows "set_lines base nb line ms acc =
    Inr (acc @ map (\<lambda>i. base + int i) (filter (bm_bit bm) [32 * line ..< nb]))"
  using assms
proof (induction ms arbitrary: line acc)
  case Nil
  then have "nb \<le> 32 * line" by simp
  then show ?case by simp
next
  case (Cons m ms)
  let ?k = "min 32 (nb - 32 * line)"
  have line: "line < length bm" using Cons.prems(2) by simp
  then have m: "m = bm ! line" using Cons.prems(3) by (metis Cons_nth_drop_Suc list.inject)
  have le: "32 * line \<le> nb"
  proof -
    have "line \<le> length bm - 1" using line by simp
    then have "32 * line \<le> 32 * (length bm - 1)" by simp
    then show ?thesis using Cons.prems(5) by linarith
  qed
  have bits: "bit_set m off = bm_bit bm (32 * line + off)" if "off < ?k" for off
    using that by (simp add: bm_bit_def m)
  have "set_line base line m [0 ..< ?k] acc =
      Inr (acc @ map (\<lambda>off. base + (32 * int line + int off)) (filter (bit_set m) [0 ..< ?k]))"
  proof (rule set_line_eq)
    fix off
    assume "off \<in> set [0 ..< ?k]" and "bit_set m off"
    then have "in_i64 (base + int (32 * line + off))"
      using bits [of off] by (intro Cons.prems(1)) auto
    then show "in_i64 (base + (32 * int line + int off))" by simp
  qed
  also have "filter (bit_set m) [0 ..< ?k] = filter (\<lambda>off. bm_bit bm (32 * line + off)) [0 ..< ?k]"
    by (rule filter_cong) (simp_all add: bits)
  also have "map (\<lambda>off. base + (32 * int line + int off)) \<dots> =
      map (\<lambda>i. base + int i) (filter (bm_bit bm) [32 * line ..< 32 * line + ?k])"
    using filter_upt_shift [of "\<lambda>i. base + int i" "32 * line" "bm_bit bm" ?k] by simp
  finally have head: "set_line base line m [0 ..< ?k] acc =
      Inr (acc @ map (\<lambda>i. base + int i) (filter (bm_bit bm) [32 * line ..< 32 * line + ?k]))" .
  have tail: "ms = drop (Suc line) bm"
    using Cons.prems(3) line by (metis Cons_nth_drop_Suc list.inject)
  have rest: "set_lines base nb (Suc line) ms acc' =
      Inr (acc' @ map (\<lambda>i. base + int i) (filter (bm_bit bm) [32 * Suc line ..< nb]))" for acc'
    using Cons.prems le tail by (intro Cons.IH) auto
  have split: "[32 * line ..< nb] = [32 * line ..< 32 * line + ?k] @ [32 * Suc line ..< nb]"
  proof (cases "nb < 32 * Suc line")
    case True
    with le show ?thesis by simp
  next
    case False
    then have k: "?k = 32" by simp
    have "[32 * line ..< nb] = [32 * line ..< 32 * line + 32] @ [32 * line + 32 ..< nb]"
      using upt_add_eq_append [of "32 * line" "32 * line + 32" "nb - (32 * line + 32)"] False
      by simp
    then show ?thesis unfolding k by (simp add: add.commute)
  qed
  show ?case
    using le by (simp only: set_lines.simps head rest rbind_simps split) simp
qed

lemma sns_set_eq:
  assumes "length (bitmap s) = div_ceil32 (num_bits s)"
    and "\<And>i. i < num_bits s \<Longrightarrow> bm_bit (bitmap s) i \<Longrightarrow> in_i64 (bitmap_base s + int i)"
  shows "sns_set s =
    Inr (map (\<lambda>i. bitmap_base s + int i) (filter (bm_bit (bitmap s)) [0 ..< num_bits s]))"
proof -
  have "num_bits s \<le> 32 * length (bitmap s)" "32 * (length (bitmap s) - 1) \<le> num_bits s"
    unfolding assms(1) div_ceil32_def by linarith+
  then show ?thesis
    unfolding sns_set_def using assms(2)
    by (subst set_lines_eq [where bm = "bitmap s"]) simp_all
qed

section \<open>Building a bitmap\<close>

definition fv_inv :: "SequenceNumber \<Rightarrow> SequenceNumber list \<Rightarrow> nat \<Rightarrow> u32 list \<Rightarrow> bool" where
  "fv_inv base ys nb bm \<longleftrightarrow>
     length bm = div_ceil32 nb \<and>
     (\<forall>i < 32 * length bm. bm_bit bm i \<longleftrightarrow> base + int i \<in> set ys) \<and>
     (\<forall>y \<in> set ys. base \<le> y) \<and>
     nb = (if ys = [] then 0 else nat (last ys - base) + 1)"

lemma bm_bit_set_word:
  assumes "i div 32 < length bm" and "k < 32" and "line < length bm"
  shows "bm_bit (bm[line := bm ! line OR push_bit (31 - k) 1]) i \<longleftrightarrow>
    bm_bit bm i \<or> i = 32 * line + k"
proof (cases "i div 32 = line")
  case True
  have i: "i mod 32 < 32" by simp
  have eq: "i = 32 * line + k \<longleftrightarrow> i mod 32 = k"
    using True assms(2) by (metis mod_mult_self4 mod_less mult_div_mod_eq)
  have "bit (w OR push_bit (31 - k) 1) (31 - i mod 32) \<longleftrightarrow>
      bit w (31 - i mod 32) \<or> i mod 32 = k" for w :: u32
    using assms(2) i by (auto simp: bit_simps simp flip: One_nat_def)
  then show ?thesis
    using True assms(1) by (simp add: bm_bit_def bit_set_iff eq)
next
  case False
  then have "i \<noteq> 32 * line + k" using assms(2) by auto
  with False show ?thesis by (simp add: bm_bit_def)
qed

lemma bm_bit_resize:
  assumes "length bm \<le> n" and "i < 32 * n"
  shows "bm_bit (vec_resize n bm) i \<longleftrightarrow> i < 32 * length bm \<and> bm_bit bm i"
proof (cases "i < 32 * length bm")
  case True
  then have "i div 32 < length bm" by (simp add: less_mult_imp_div_less mult.commute)
  with True assms show ?thesis by (simp add: bm_bit_def vec_resize_def nth_append)
next
  case False
  then have "length bm \<le> i div 32" by simp
  moreover have "i div 32 < n" using assms(2) by (simp add: less_mult_imp_div_less mult.commute)
  ultimately show ?thesis
    using False assms(1) by (simp add: bm_bit_def vec_resize_def nth_append bit_set_iff)
qed

lemma fv_inv_step:
  assumes inv: "fv_inv base ys nb bm" and wf: "bs_wf (ys @ [sn])"
    and off: "sn = base + int off"
  defines "bm' \<equiv> vec_resize (off div 32 + 1) bm"
  shows "fv_inv base (ys @ [sn]) (max nb (off + 1))
    (bm'[off div 32 := bm' ! (off div 32) OR push_bit (31 - off mod 32) 1])"
proof -
  have nb: "nb \<le> off"
  proof (cases "ys = []")
    case False
    then have "last ys \<in> set ys" by simp
    then have "base \<le> last ys" "last ys < sn"
      using inv wf by (auto simp: fv_inv_def bs_wf_def sorted_wrt_append)
    then have "nat (last ys - base) < off" using off by linarith
    with False show ?thesis using inv by (simp add: fv_inv_def)
  qed (use inv in \<open>simp add: fv_inv_def\<close>)
  have len: "length bm \<le> off div 32 + 1"
    using nb inv by (simp add: fv_inv_def div_ceil32_def)
  have len': "length bm' = off div 32 + 1"
    using len by (simp add: bm'_def vec_resize_def)
  have fresh: "base + int i \<notin> set ys" if "32 * length bm \<le> i" for i
  proof
    assume mem: "base + int i \<in> set ys"
    then have "base + int i \<le> last ys"
      using wf by (simp add: bs_wf_le_last bs_wf_append)
    moreover have "nb \<le> 32 * length bm"
      using inv by (simp add: fv_inv_def div_ceil32_def)
    moreover have "nb = nat (last ys - base) + 1"
      using inv mem by (auto simp: fv_inv_def)
    ultimately show False using that by linarith
  qed
  have "bm_bit (bm'[off div 32 := bm' ! (off div 32) OR push_bit (31 - off mod 32) 1]) i \<longleftrightarrow>
      base + int i \<in> set (ys @ [sn])" if i: "i < 32 * length bm'" for i
  proof -
    have div: "i div 32 < length bm'" using i by (simp add: less_mult_imp_div_less mult.commute)
    have "bm_bit bm' i \<longleftrightarrow> base + int i \<in> set ys"
    proof -
      have "bm_bit bm' i \<longleftrightarrow> i < 32 * length bm \<and> bm_bit bm i"
        unfolding bm'_def using len i len' by (intro bm_bit_resize) auto
      moreover have "\<forall>j < 32 * length bm. bm_bit bm j \<longleftrightarrow> base + int j \<in> set ys"
        using inv by (simp add: fv_inv_def)
      ultimately show ?thesis using fresh [of i] by (cases "i < 32 * length bm") auto
    qed
    moreover have "i = 32 * (off div 32) + off mod 32 \<longleftrightarrow> base + int i = sn"
      using off by simp
    ultimately show ?thesis
      using div len' by (subst bm_bit_set_word) auto
  qed
  moreover have "div_ceil32 (off + 1) = off div 32 + 1"
    by (simp add: div_ceil32_def)
  ultimately show ?thesis
    using inv nb off len' by (auto simp: fv_inv_def)
qed

lemma from_vec_loop_inv:
  assumes "fv_inv base ys nb bm" and "bs_wf (ys @ xs)"
    and "\<And>x. x \<in> set xs \<Longrightarrow> base \<le> x \<and> x - base < 2 ^ 32 - 1"
  shows "\<exists>nb' bm'. from_vec_loop base xs nb bm = Inr (nb', bm') \<and> fv_inv base (ys @ xs) nb' bm'"
  using assms
proof (induction xs arbitrary: ys nb bm)
  case Nil
  then show ?case by simp
next
  case (Cons sn xs)
  define off where "off = nat (sn - base)"
  from Cons.prems(3) [of sn] have sn: "sn = base + int off" "int off < 2 ^ 32 - 1"
    by (auto simp: off_def)
  have i64: "i64_sub sn base = Inr (int off)" and wrap: "wrap_u 32 (int off) = int off"
    using sn by (auto simp: in_i64_def intro: wrap_u_id)
  let ?bm = "vec_resize (off div 32 + 1) bm"
  let ?bm' = "?bm[off div 32 := ?bm ! (off div 32) OR push_bit (31 - off mod 32) 1]"
  have step: "fv_inv base (ys @ [sn]) (max nb (off + 1)) ?bm'"
    using Cons.prems(1,2) sn(1) by (intro fv_inv_step) (auto simp: bs_wf_def sorted_wrt_append)
  have "\<exists>nb' bm'. from_vec_loop base xs (max nb (off + 1)) ?bm' = Inr (nb', bm') \<and>
      fv_inv base ((ys @ [sn]) @ xs) nb' bm'"
    using Cons.prems(2,3) by (intro Cons.IH [OF step]) auto
  moreover have "from_vec_loop base (sn # xs) nb bm = from_vec_loop base xs (max nb (off + 1)) ?bm'"
    using sn(2) by (simp add: i64 wrap Let_def)
  ultimately show ?case by simp
qed

lemma sns_from_vec_inv:
  assumes "bs_wf xs" and "\<And>x. x \<in> set xs \<Longrightarrow> base \<le> x \<and> x - base < 2 ^ 32 - 1"
  obtains s where "sns_from_vec base xs = Inr s" and "bitmap_base s = base"
    and "fv_inv base xs (num_bits s) (bitmap s)"
proof -
  have "fv_inv base [] 0 []" by (simp add: fv_inv_def div_ceil32_def)
  from from_vec_loop_inv [OF this, of xs] assms obtain nb bm
    where "from_vec_loop base xs 0 [] = Inr (nb, bm)" "fv_inv base xs nb bm" by auto
  then show ?thesis by (intro that) (auto simp: sns_from_vec_def)
qed

lemma fv_inv_set:
  assumes "fv_inv base xs (num_bits s) (bitmap s)" and "bitmap_base s = base" and "bs_wf xs"
    and "\<And>x. x \<in> set xs \<Longrightarrow> in_i64 x"
  shows "sns_set s = Inr xs"
proof -
  let ?l = "map (\<lambda>i. base + int i) (filter (bm_bit (bitmap s)) [0 ..< num_bits s])"
  have le: "num_bits s \<le> 32 * length (bitmap s)"
    using assms(1) by (simp add: fv_inv_def div_ceil32_def)
  then have bits: "bm_bit (bitmap s) i \<longleftrightarrow> base + int i \<in> set xs" if "i < num_bits s" for i
    using assms(1) that by (simp add: fv_inv_def)
  have "sns_set s = Inr ?l"
    unfolding assms(2) [symmetric] using assms
    by (intro sns_set_eq) (auto simp: fv_inv_def bits)
  moreover have "?l = xs"
  proof (rule strict_sorted_equal)
    show "sorted_wrt (<) ?l"
      by (simp add: sorted_wrt_map sorted_wrt_filter)
    show "sorted_wrt (<) xs" using assms(3) by (simp add: bs_wf_def)
    have "\<exists>i < num_bits s. x = base + int i" if "x \<in> set xs" for x
    proof -
      have "x \<le> last xs" using that assms(3) by (rule bs_wf_le_last [rotated])
      with that assms(1) show ?thesis
        by (intro exI [of _ "nat (x - base)"]) (auto simp: fv_inv_def)
    qed
    then show "set ?l = set xs" using bits by force
  qed
  ultimately show ?thesis by simp
qed

section \<open>Properties\<close>

text \<open>
  Writing a sequence number as its signed high half and unsigned low half and reading it
  back gives the same number, for every 64-bit value, and both halves are in the range of
  their wire type.
\<close>

theorem sequence_number_roundtrip:
  assumes "in_i64 sn"
  shows "sn_read (sn_write sn) = Inr sn \<and>
    - (2 ^ 31) \<le> fst (sn_write sn) \<and> fst (sn_write sn) < 2 ^ 31 \<and>
    0 \<le> snd (sn_write sn) \<and> snd (sn_write sn) < 2 ^ 32"
proof -
  have high: "- (2 ^ 31) \<le> sn div 2 ^ 32" "sn div 2 ^ 32 < 2 ^ 31"
    using assms by (auto simp: in_i64_def)
  then have h: "wrap_s 32 (sn div 2 ^ 32) = sn div 2 ^ 32" by (intro wrap_s_id) auto
  have "wrap_s 64 (sn div 2 ^ 32 * 2 ^ 32) = sn div 2 ^ 32 * 2 ^ 32"
    using high by (intro wrap_s_id) auto
  moreover have "sn div 2 ^ 32 * 2 ^ 32 + sn mod 2 ^ 32 = sn" by (rule div_mult_mod_eq)
  moreover have w: "sn_write sn = (sn div 2 ^ 32, sn mod 2 ^ 32)"
    by (simp only: sn_write_def h wrap_u_def)
  ultimately have "sn_read (sn_write sn) = Inr sn"
    using assms by (simp only: sn_read_def prod.case i64_add_def if_True)
  then show ?thesis
    using high by (simp add: w)
qed

theorem sequence_number_roundtrip_witness:
  "in_i64 (- 5) \<and> sn_read (sn_write (- 5)) = Inr (- 5) \<and> sn_write (- 5) = (- 1, 4294967291)"
proof -
  have h: "in_i64 (- 5)" by (simp add: in_i64_def)
  show ?thesis using h sequence_number_roundtrip [OF h]
    by (simp add: sn_write_def wrap_s_def wrap_u_def)
qed

text \<open>
  C35. A sequence-number set built by \<^verbatim>\<open>from_vec\<close> from increasing numbers, none below the base and
  all within the 32-bit bit count, lists exactly those numbers again, in the same order; it
  passes \<^verbatim>\<open>is_valid\<close> exactly when the base is positive and the largest number is less than
  255 above it.
\<close>

theorem from_vec_set_roundtrip:
  assumes "bs_wf xs" and "\<forall>x \<in> set xs. base \<le> x \<and> x - base < 2 ^ 32 - 1 \<and> in_i64 x"
  shows "\<exists>s. sns_from_vec base xs = Inr s \<and> bitmap_base s = base \<and> sns_set s = Inr xs \<and>
    (sns_is_valid s \<longleftrightarrow> 1 \<le> base \<and> (xs = [] \<or> last xs - base < 255))"
proof -
  from sns_from_vec_inv [of xs base] assms obtain s
    where s: "sns_from_vec base xs = Inr s" "bitmap_base s = base"
      and inv: "fv_inv base xs (num_bits s) (bitmap s)" by blast
  have "sns_set s = Inr xs" using inv s(2) assms by (intro fv_inv_set) auto
  moreover have "xs \<noteq> [] \<Longrightarrow> base \<le> last xs" using assms(2) by simp
  then have "sns_is_valid s \<longleftrightarrow> 1 \<le> base \<and> (xs = [] \<or> last xs - base < 255)"
    using inv s(2) by (auto simp: sns_is_valid_def fv_inv_def)
  ultimately show ?thesis using s by blast
qed

theorem from_vec_set_roundtrip_witness:
  "bs_wf [5, 7, 42 :: int] \<and>
   (\<exists>s. sns_from_vec 2 [5, 7, 42] = Inr s \<and> sns_set s = Inr [5, 7, 42] \<and> sns_is_valid s)"
proof -
  have h: "bs_wf [5, 7, 42 :: int]" by (simp add: bs_wf_def)
  have r: "\<forall>x \<in> set [5, 7, 42 :: int]. 2 \<le> x \<and> x - 2 < 2 ^ 32 - 1 \<and> in_i64 x"
    by (simp add: in_i64_def)
  show ?thesis using h from_vec_set_roundtrip [OF h r] by auto
qed

text \<open>
  \<^verbatim>\<open>from_vec\<close> loses elements of a vector that is not in increasing order: \<^verbatim>\<open>Vec::resize\<close>
  truncates the bitmap when a smaller number follows a larger one, so the words of the
  larger number are gone and the set no longer has the length that its bit count asks for.
\<close>

theorem from_vec_unsorted_loses:
  "\<exists>s. sns_from_vec 1 [40, 2] = Inr s \<and> num_bits s = 40 \<and> sns_set s = Inr [2] \<and>
     \<not> sns_is_valid s"
proof -
  have "sns_from_vec 1 [40, 2] = Inr \<lparr>bitmap_base = 1, num_bits = 40, bitmap = [0x40000000]\<rparr>"
    by (simp add: sns_from_vec_def i64_sub_def in_i64_def wrap_u_def vec_resize_def Let_def)
  moreover have "sns_set \<lparr>bitmap_base = 1, num_bits = 40, bitmap = [0x40000000]\<rparr> = Inr [2]"
    by code_simp
  ultimately show ?thesis by (simp add: sns_is_valid_def div_ceil32_def)
qed

end
