(* ===== verification/Umber_Payload.thy ===== *)
theory Umber_Payload
  imports Umber_Prelude
begin

text \<open>
  Serialized payloads: \<^verbatim>\<open>RepresentationIdentifier\<close> and \<^verbatim>\<open>SerializedPayload\<close> of
  \<^verbatim>\<open>src/message/submessage/element.rs\<close>. The byte encoding of user data is done by the
  \<^verbatim>\<open>speedy\<close> crate: it is the argument \<open>enc\<close> of \<open>new_from_cdr_data\<close>.
\<close>

datatype RepresentationIdentifier = RepresentationIdentifier (rep_bytes: "u8 \<times> u8")

definition CDR_BE :: RepresentationIdentifier where
  "CDR_BE = RepresentationIdentifier (0x00, 0x00)"
definition CDR_LE :: RepresentationIdentifier where
  "CDR_LE = RepresentationIdentifier (0x00, 0x01)"
definition PL_CDR_BE :: RepresentationIdentifier where
  "PL_CDR_BE = RepresentationIdentifier (0x00, 0x02)"
definition PL_CDR_LE :: RepresentationIdentifier where
  "PL_CDR_LE = RepresentationIdentifier (0x00, 0x03)"
definition CDR2_BE :: RepresentationIdentifier where
  "CDR2_BE = RepresentationIdentifier (0x00, 0x10)"
definition CDR2_LE :: RepresentationIdentifier where
  "CDR2_LE = RepresentationIdentifier (0x00, 0x11)"
definition PL_CDR2_BE :: RepresentationIdentifier where
  "PL_CDR2_BE = RepresentationIdentifier (0x00, 0x12)"
definition PL_CDR2_LE :: RepresentationIdentifier where
  "PL_CDR2_LE = RepresentationIdentifier (0x00, 0x13)"
definition D_CDR_BE :: RepresentationIdentifier where
  "D_CDR_BE = RepresentationIdentifier (0x00, 0x14)"
definition D_CDR_LE :: RepresentationIdentifier where
  "D_CDR_LE = RepresentationIdentifier (0x00, 0x15)"
definition XML_rep :: RepresentationIdentifier where
  "XML_rep = RepresentationIdentifier (0x00, 0x04)"

record SerializedPayload =
  representation_identifier :: RepresentationIdentifier
  representation_options :: "u8 \<times> u8"
  payload_value :: "u8 list"

datatype Endianness = LittleEndian | BigEndian

datatype io_error = DataTooSmall

text \<open>\<^verbatim>\<open>read_exact(..).unwrap()\<close> panics when fewer than four bytes are there.\<close>

definition payload_from_bytes :: "u8 list \<Rightarrow> (io_error + SerializedPayload) res" where
  "payload_from_bytes buffer =
     (case buffer of
        a # b # c # d # rest \<Rightarrow>
          Inr (if rest = [] then Inl DataTooSmall
               else Inr \<lparr>representation_identifier = RepresentationIdentifier (a, b),
                         representation_options = (c, d), payload_value = rest\<rparr>)
      | _ \<Rightarrow> Inl UnwrapNone)"

definition payload_to_bytes :: "SerializedPayload \<Rightarrow> u8 list" where
  "payload_to_bytes p =
     [fst (rep_bytes (representation_identifier p)), snd (rep_bytes (representation_identifier p)),
      fst (representation_options p), snd (representation_options p)] @ payload_value p"

definition new_from_cdr_data ::
    "(Endianness \<Rightarrow> u8 list) \<Rightarrow> RepresentationIdentifier \<Rightarrow> SerializedPayload res" where
  "new_from_cdr_data enc rep_id =
     rbind (if rep_id = CDR_LE then Inr (enc LittleEndian)
            else if rep_id = CDR_BE then Inr (enc BigEndian)
            else if rep_id = PL_CDR_LE then Inr (enc LittleEndian)
            else if rep_id = PL_CDR_BE then Inr (enc BigEndian)
            else Inl Unimplemented)
       (\<lambda>serialized_data. Inr \<lparr>representation_identifier = rep_id,
          representation_options = (0, 0), payload_value = serialized_data\<rparr>)"

section \<open>Properties\<close>

text \<open>
  A payload survives the conversion to bytes and back exactly when it carries at least one
  byte of data; an empty one is refused as too small, and a buffer shorter than the
  four-byte header panics.
\<close>

theorem payload_roundtrip:
  "payload_from_bytes (payload_to_bytes p) =
     Inr (if payload_value p = [] then Inl DataTooSmall else Inr p) \<and>
   (payload_from_bytes bs = Inl e \<longleftrightarrow> length bs < 4 \<and> e = UnwrapNone) \<and>
   (payload_from_bytes bs = Inr (Inr q) \<longrightarrow> payload_to_bytes q = bs)"
  by (auto simp: payload_from_bytes_def payload_to_bytes_def split: list.splits if_splits)

theorem payload_roundtrip_witness:
  "payload_from_bytes [0, 1, 0, 0, 42] = Inr (Inr \<lparr>representation_identifier = CDR_LE,
     representation_options = (0, 0), payload_value = [42]\<rparr>) \<and>
   payload_to_bytes \<lparr>representation_identifier = CDR_LE,
     representation_options = (0, 0), payload_value = [42]\<rparr> = [0, 1, 0, 0, 42]"
proof -
  let ?q = "\<lparr>representation_identifier = CDR_LE, representation_options = (0, 0),
    payload_value = [42]\<rparr>"
  have r: "payload_from_bytes [0, 1, 0, 0, 42] = Inr (Inr ?q)"
    by (simp add: payload_from_bytes_def CDR_LE_def)
  then have "payload_to_bytes ?q = [0, 1, 0, 0, 42]"
    using payload_roundtrip by blast
  with r show ?thesis by simp
qed

end
