(* ===== verification/Umber_Cache.thy ===== *)
theory Umber_Cache
  imports Umber_Qos Umber_SeqNum Umber_Payload
begin

text \<open>
  The history cache shared by a DDS endpoint and its RTPS endpoint: \<^verbatim>\<open>src/rtps/cache.rs\<close>.

  \<open>HistoryCache\<close> has the fields of the struct and one definition per method, in the order of
  the source. A method takes the cache and returns it updated; \<open>add_change\<close>, which may
  panic or fail, returns \<open>(HistoryCache \<times> (AddChangeErr + unit)) res\<close>. Logging is left out.

  The locale \<open>change_store\<close> is what the clients of the cache rely on when they remove changes.
  \<open>hc_inv\<close> is the consistency of the four indexes of the cache; every operation keeps it
  (\<open>hc_step\<close>, \<open>hc_reachable\<close>).
\<close>

section \<open>Changes and keys\<close>

datatype AddChangeErr = WouldBlock string

datatype ChangeKind =
  Alive | AliveFiltered | NotAlive | NotAliveDisposed | NotAliveUnregistered

datatype InstantHandle = InstantHandle

record CacheChange =
  change_kind :: ChangeKind
  writer_guid :: GUID
  sequence_number :: SequenceNumber
  timestamp :: Timestamp
  data_value :: "SerializedPayload option"
  instance_handle :: InstantHandle

datatype ChangeForReaderStatusKind =
  Unsent | Unacknowledged | Requested | Acknowledged | Underway

datatype ChangeFromWriterStatusKind = Lost | Missing | Received | Uuknown

record ChangeForReader =
  cfr_seq_num :: SequenceNumber
  cfr_status :: ChangeForReaderStatusKind
  cfr_is_relevant :: bool

record ChangeFromWriter =
  cfw_seq_num :: SequenceNumber
  cfw_is_relevant :: bool
  cfw_status :: ChangeFromWriterStatusKind

datatype HCKey = HCKey (hk_guid: GUID) (hk_seq_num: SequenceNumber)

datatype HistoryCacheType = HCReader | HCWriter | HCDummy

text \<open>The order of \<^verbatim>\<open>ChangeKind\<close> is the order of its variants.\<close>

fun change_kind_rank :: "ChangeKind \<Rightarrow> nat" where
  "change_kind_rank Alive = 0"
| "change_kind_rank AliveFiltered = 1"
| "change_kind_rank NotAlive = 2"
| "change_kind_rank NotAliveDisposed = 3"
| "change_kind_rank NotAliveUnregistered = 4"

lemma change_kind_rank_inj [simp]: "change_kind_rank a = change_kind_rank b \<longleftrightarrow> a = b"
  by (cases a; cases b) simp_all

instantiation ChangeKind :: linorder
begin

definition less_eq_ChangeKind :: "ChangeKind \<Rightarrow> ChangeKind \<Rightarrow> bool" where
  "less_eq_ChangeKind a b \<longleftrightarrow> change_kind_rank a \<le> change_kind_rank b"

definition less_ChangeKind :: "ChangeKind \<Rightarrow> ChangeKind \<Rightarrow> bool" where
  "less_ChangeKind a b \<longleftrightarrow> change_kind_rank a < change_kind_rank b"

instance
  by standard (auto simp: less_eq_ChangeKind_def less_ChangeKind_def)

end

text \<open>Keys are ordered by sequence number first.\<close>

instantiation HCKey :: linorder
begin

definition less_eq_HCKey :: "HCKey \<Rightarrow> HCKey \<Rightarrow> bool" where
  "less_eq_HCKey a b \<longleftrightarrow> hk_seq_num a < hk_seq_num b \<or>
     hk_seq_num a = hk_seq_num b \<and> hk_guid a \<le> hk_guid b"

definition less_HCKey :: "HCKey \<Rightarrow> HCKey \<Rightarrow> bool" where
  "less_HCKey a b \<longleftrightarrow> hk_seq_num a < hk_seq_num b \<or>
     hk_seq_num a = hk_seq_num b \<and> hk_guid a < hk_guid b"

instance
proof
  fix a b c :: HCKey
  show "a < b \<longleftrightarrow> a \<le> b \<and> \<not> b \<le> a"
    by (auto simp: less_eq_HCKey_def less_HCKey_def)
  show "a \<le> a" by (simp add: less_eq_HCKey_def)
  show "a \<le> b \<Longrightarrow> b \<le> c \<Longrightarrow> a \<le> c"
    by (auto simp: less_eq_HCKey_def)
  show "a \<le> b \<Longrightarrow> b \<le> a \<Longrightarrow> a = b"
    by (auto simp: less_eq_HCKey_def intro: HCKey.expand)
  show "a \<le> b \<or> b \<le> a"
    by (auto simp: less_eq_HCKey_def)
qed

end

section \<open>The cache\<close>

record HistoryCache =
  changes :: "(HCKey, CacheChange) btree_map"
  ts2key :: "HCKey list"
  kind2key :: "(ChangeKind, HCKey btree_set) btree_map"
  hc_type :: HistoryCacheType
  unprocessed_seqnum :: "SequenceNumber btree_set"
  taken_key :: "HCKey btree_set"
  ready_key :: "HCKey btree_set"
  last_added :: "(GUID, Timestamp) btree_map"
  min_seq_num :: "SequenceNumber option"
  max_seq_num :: "SequenceNumber option"

definition HistoryCache_new :: "HistoryCacheType \<Rightarrow> HistoryCache" where
  "HistoryCache_new t =
     \<lparr>changes = [], ts2key = [], kind2key = [], hc_type = t, unprocessed_seqnum = [],
      taken_key = [], ready_key = [], last_added = [], min_seq_num = None, max_seq_num = None\<rparr>"

text \<open>\<open>now\<close> is \<^verbatim>\<open>Timestamp::now()\<close>, whose \<^verbatim>\<open>expect\<close> panics when there is no time.\<close>

definition add_empty_change :: "Timestamp option \<Rightarrow> GUID \<Rightarrow> HistoryCache \<Rightarrow> HistoryCache res" where
  "add_empty_change now guid h =
     (case now of
        None \<Rightarrow> Inl UnwrapNone
      | Some ts \<Rightarrow> Inr (h\<lparr>last_added := bm_insert guid ts (last_added h)\<rparr>))"

definition remove_change :: "HCKey \<Rightarrow> bool \<Rightarrow> HistoryCache \<Rightarrow> HistoryCache" where
  "remove_change key taken h =
     (if hk_seq_num key \<in> set (unprocessed_seqnum h) then h
      else
        let h1 = (case bm_get (changes h) key of
                    Some c \<Rightarrow>
                      h\<lparr>changes := bm_remove key (changes h),
                        taken_key := (if hc_type h = HCReader \<and> taken
                                      then bs_insert key (taken_key h) else taken_key h),
                        ready_key := (if hc_type h = HCReader
                                      then bs_remove key (ready_key h) else ready_key h),
                        kind2key := bm_adjust (change_kind c) (bs_remove key) (kind2key h)\<rparr>
                  | None \<Rightarrow> h)
        in h1\<lparr>ts2key := remove1 key (ts2key h1), min_seq_num := None, max_seq_num := None\<rparr>)"

definition change_key :: "CacheChange \<Rightarrow> HCKey" where
  "change_key c = HCKey (writer_guid c) (sequence_number c)"

text \<open>\<^verbatim>\<open>self.changes.len() + 1 >= max_samples as usize\<close>.\<close>

definition limit_reached :: "ResourceLimits \<Rightarrow> HistoryCache \<Rightarrow> bool" where
  "limit_reached limits h \<longleftrightarrow>
     max_samples limits \<noteq> LENGTH_UNLIMITED \<and>
     wrap_u 64 (max_samples limits) \<le> int (length (changes h)) + 1"

text \<open>Remove the oldest change; \<^verbatim>\<open>self.ts2key[0]\<close> panics when there is none.\<close>

definition evict_oldest :: "HistoryCache \<Rightarrow> HistoryCache res" where
  "evict_oldest h =
     (case ts2key h of [] \<Rightarrow> Inl IndexOutOfBounds | k # _ \<Rightarrow> Inr (remove_change k False h))"

text \<open>The branch of \<^verbatim>\<open>add_change\<close> for a key that is already there.\<close>

definition add_known :: "CacheChange \<Rightarrow> CacheChange \<Rightarrow> HistoryCache \<Rightarrow> HistoryCache res" where
  "add_known c change h =
     (if data_value c = data_value change then
        (case hc_type h of
           HCReader \<Rightarrow> Inr (h\<lparr>last_added := bm_insert (writer_guid change) (timestamp change) (last_added h)\<rparr>)
         | HCWriter \<Rightarrow> Inr (h\<lparr>last_added := bm_insert (writer_guid change) (timestamp change) (last_added h),
                             unprocessed_seqnum := bs_insert (sequence_number change) (unprocessed_seqnum h)\<rparr>)
         | HCDummy \<Rightarrow> Inl Unreachable)
      else if data_value c = None \<or> data_value change = None then Inl UnwrapNone
      else Inl Unreachable)"

text \<open>The four indexes after the insertion of a new change.\<close>

definition store_change :: "CacheChange \<Rightarrow> HistoryCache \<Rightarrow> HistoryCache" where
  "store_change change h =
     (let key = change_key change in
      h\<lparr>last_added := bm_insert (hk_guid key) (timestamp change) (last_added h),
        ts2key := ts2key h @ [key],
        kind2key := bm_insert (change_kind change)
          (bs_insert key (case bm_get (kind2key h) (change_kind change) of Some s \<Rightarrow> s | None \<Rightarrow> []))
          (kind2key h),
        changes := bm_insert key change (changes h)\<rparr>)"

text \<open>\<^verbatim>\<open>keys().rev().skip(hdepth as usize)\<close>: all but the largest keys.\<close>

definition keep_last :: "History \<Rightarrow> HistoryCache \<Rightarrow> HistoryCache" where
  "keep_last history h =
     (if history_kind history = KeepLast
      then fold (\<lambda>key. remove_change key False)
             (drop (nat (wrap_u 64 (history_depth history))) (rev (bm_keys (changes h)))) h
      else h)"

definition after_store :: "History \<Rightarrow> SequenceNumber \<Rightarrow> HistoryCache \<Rightarrow> HistoryCache" where
  "after_store history seq_num h =
     (let h1 = (if hc_type h = HCReader then keep_last history h else h)
      in if hc_type h1 = HCWriter
         then h1\<lparr>unprocessed_seqnum := bs_insert seq_num (unprocessed_seqnum h1)\<rparr>
         else h1)"

definition add_change :: "CacheChange \<Rightarrow> bool \<Rightarrow> ResourceLimits \<Rightarrow> History \<Rightarrow> HistoryCache
    \<Rightarrow> (HistoryCache \<times> (AddChangeErr + unit)) res" where
  "add_change change is_reliable resource_limits history h =
     (case bm_get (changes h) (change_key change) of
        Some c \<Rightarrow> rbind (add_known c change h) (\<lambda>h'. Inr (h', Inr ()))
      | None \<Rightarrow>
          if limit_reached resource_limits h \<and> hc_type h = HCDummy then Inl Unreachable
          else if limit_reached resource_limits h \<and> is_reliable then
            (if hc_type h = HCWriter
             then Inr (h, Inl (WouldBlock ''resource_limits.max_samples reached''))
             else Inr (h, Inr ()))
          else
            rbind (if limit_reached resource_limits h then evict_oldest h else Inr h)
              (\<lambda>h1. Inr (after_store history (sequence_number change) (store_change change h1), Inr ())))"

definition get_unprocessed :: "HistoryCache \<Rightarrow> (HistoryCache \<times> SequenceNumber btree_set) res" where
  "get_unprocessed h =
     (if hc_type h = HCWriter then Inr (h\<lparr>unprocessed_seqnum := []\<rparr>, unprocessed_seqnum h)
      else Inl Unreachable)"

definition get_taken :: "HistoryCache \<Rightarrow> (HistoryCache \<times> HCKey btree_set) res" where
  "get_taken h =
     (if hc_type h = HCReader then Inr (h\<lparr>taken_key := []\<rparr>, taken_key h) else Inl Unreachable)"

definition get_taken_less_than ::
    "GUID \<Rightarrow> SequenceNumber \<Rightarrow> HistoryCache \<Rightarrow> (HistoryCache \<times> HCKey list) res" where
  "get_taken_less_than guid seq_num h =
     (let hit = (\<lambda>k. hk_guid k = guid \<and> hk_seq_num k < seq_num) in
      if hc_type h = HCReader
      then Inr (h\<lparr>taken_key := filter (\<lambda>k. \<not> hit k) (taken_key h)\<rparr>, filter hit (taken_key h))
      else Inl Unreachable)"

definition get_change :: "GUID \<Rightarrow> SequenceNumber \<Rightarrow> HistoryCache \<Rightarrow> CacheChange option" where
  "get_change guid seq_num h = bm_get (changes h) (HCKey guid seq_num)"

definition get_last_added_ts :: "GUID \<Rightarrow> HistoryCache \<Rightarrow> Timestamp option" where
  "get_last_added_ts guid h = bm_get (last_added h) guid"

definition flush :: "HistoryCache \<Rightarrow> (HistoryCache \<times> bool) res" where
  "flush h =
     (if hc_type h = HCReader
      then Inr (h\<lparr>ready_key := fold bs_insert (bm_keys (changes h)) (ready_key h)\<rparr>, changes h \<noteq> [])
      else Inl Unreachable)"

fun lookup_all :: "(HCKey, CacheChange) btree_map \<Rightarrow> HCKey list \<Rightarrow> (HCKey \<times> CacheChange) list res" where
  "lookup_all m [] = Inr []"
| "lookup_all m (k # ks) =
     (case bm_get m k of
        None \<Rightarrow> Inl ExplicitPanic
      | Some c \<Rightarrow> rbind (lookup_all m ks) (\<lambda>r. Inr ((k, c) # r)))"

definition get_ready_changes :: "HistoryCache \<Rightarrow> (HCKey list \<times> CacheChange list) res" where
  "get_ready_changes h =
     (case bm_get (kind2key h) Alive of
        Some ks \<Rightarrow>
          rbind (lookup_all (changes h) (filter (\<lambda>k. k \<in> set (ready_key h)) ks))
            (\<lambda>r. let r' = sort_key fst r in Inr (map fst r', map snd r'))
      | None \<Rightarrow> Inr ([], []))"

definition remove_change_from_writer :: "GUID \<Rightarrow> HistoryCache \<Rightarrow> HistoryCache" where
  "remove_change_from_writer guid h =
     (if hc_type h = HCReader
      then fold (\<lambda>k. remove_change k False) (filter (\<lambda>k. hk_guid k = guid) (bm_keys (changes h))) h
      else h)"

definition remove_change_if_exist :: "HCKey \<Rightarrow> HistoryCache \<Rightarrow> HistoryCache" where
  "remove_change_if_exist key h =
     (if bm_contains key (changes h) then remove_change key False h else h)"

text \<open>The loops over the keys that look for the extreme sequence number.\<close>

definition get_seq_num_min :: "HistoryCache \<Rightarrow> SequenceNumber" where
  "get_seq_num_min h =
     (let m = fold (\<lambda>k m. if hk_seq_num k < m \<and> hk_seq_num k \<notin> set (unprocessed_seqnum h)
                          then hk_seq_num k else m) (bm_keys (changes h)) i64_max
      in if m = i64_max then 0 else m)"

definition get_seq_num_max :: "HistoryCache \<Rightarrow> SequenceNumber" where
  "get_seq_num_max h =
     (let m = fold (\<lambda>k m. if m < hk_seq_num k \<and> hk_seq_num k \<notin> set (unprocessed_seqnum h)
                          then hk_seq_num k else m) (bm_keys (changes h)) i64_min
      in if m = i64_min then 0 else m)"

definition update_change_state :: "HCKey \<Rightarrow> ChangeKind \<Rightarrow> HistoryCache \<Rightarrow> HistoryCache" where
  "update_change_state key kind h =
     h\<lparr>changes := bm_adjust key (\<lambda>c. c\<lparr>change_kind := kind\<rparr>) (changes h)\<rparr>"

section \<open>The invariant\<close>

definition kind_keys :: "HistoryCache \<Rightarrow> ChangeKind \<Rightarrow> HCKey list" where
  "kind_keys h kd = (case bm_get (kind2key h) kd of Some s \<Rightarrow> s | None \<Rightarrow> [])"

text \<open>The index by kind: each of its keys is a change of that kind, and each change is in it.\<close>

definition kind_index_ok :: "HistoryCache \<Rightarrow> bool" where
  "kind_index_ok h \<longleftrightarrow>
     bm_wf (kind2key h) \<and>
     list_all (\<lambda>(kd, s). bs_wf s \<and>
       list_all (\<lambda>k. map_option change_kind (bm_get (changes h) k) = Some kd) s) (kind2key h) \<and>
     list_all (\<lambda>(k, c). k \<in> set (kind_keys h (change_kind c))) (changes h)"

definition hc_inv :: "HistoryCache \<Rightarrow> bool" where
  "hc_inv h \<longleftrightarrow>
     bm_wf (changes h) \<and> list_all (\<lambda>(k, c). change_key c = k) (changes h) \<and>
     distinct (ts2key h) \<and> set (ts2key h) = set (bm_keys (changes h)) \<and>
     kind_index_ok h \<and>
     bs_wf (ready_key h) \<and> set (ready_key h) \<subseteq> set (bm_keys (changes h)) \<and>
     bs_wf (taken_key h) \<and> bs_wf (unprocessed_seqnum h) \<and> bm_wf (last_added h) \<and>
     (hc_type h = HCReader \<longrightarrow> unprocessed_seqnum h = []) \<and>
     (hc_type h \<noteq> HCReader \<longrightarrow> ready_key h = [] \<and> taken_key h = [])"

definition pinned :: "HistoryCache \<Rightarrow> HCKey \<Rightarrow> bool" where
  "pinned h k \<longleftrightarrow> hk_seq_num k \<in> set (unprocessed_seqnum h)"

lemma hc_invD:
  assumes "hc_inv h"
  shows "bm_wf (changes h)" "distinct (ts2key h)" "set (ts2key h) = fst ` set (changes h)"
    "kind_index_ok h" "bs_wf (ready_key h)" "set (ready_key h) \<subseteq> fst ` set (changes h)"
    "bs_wf (taken_key h)" "bs_wf (unprocessed_seqnum h)" "bm_wf (last_added h)"
    "\<And>k c. bm_get (changes h) k = Some c \<Longrightarrow> change_key c = k"
    "hc_type h = HCReader \<Longrightarrow> unprocessed_seqnum h = []"
    "hc_type h \<noteq> HCReader \<Longrightarrow> ready_key h = []"
    "hc_type h \<noteq> HCReader \<Longrightarrow> taken_key h = []"
  using assms by (auto simp: hc_inv_def list_all_iff dest!: map_of_SomeD)

text \<open>The index by kind in terms of lookups.\<close>

lemma kind_index_iff:
  assumes "bm_wf (changes h)"
  shows "kind_index_ok h \<longleftrightarrow> bm_wf (kind2key h) \<and> (\<forall>kd. bs_wf (kind_keys h kd)) \<and>
    (\<forall>kd k. k \<in> set (kind_keys h kd) \<longleftrightarrow> map_option change_kind (bm_get (changes h) k) = Some kd)"
    (is "_ \<longleftrightarrow> ?R")
proof
  assume k: "kind_index_ok h"
  then have wf: "bm_wf (kind2key h)" by (simp add: kind_index_ok_def)
  have in_kind: "bs_wf s \<and> (\<forall>k \<in> set s. map_option change_kind (bm_get (changes h) k) = Some kd)"
    if "bm_get (kind2key h) kd = Some s" for kd s
    using k that wf by (auto simp: kind_index_ok_def list_all_iff dest!: map_of_SomeD)
  have from_change: "k \<in> set (kind_keys h (change_kind c))" if "bm_get (changes h) k = Some c" for k c
    using k that by (auto simp: kind_index_ok_def list_all_iff dest!: map_of_SomeD)
  have "bs_wf (kind_keys h kd) \<and>
      (\<forall>k \<in> set (kind_keys h kd). map_option change_kind (bm_get (changes h) k) = Some kd)" for kd
    using in_kind by (cases "bm_get (kind2key h) kd") (simp_all add: kind_keys_def)
  with wf from_change show ?R by auto
next
  assume r: ?R
  have "bs_wf s \<and> (\<forall>k \<in> set s. map_option change_kind (bm_get (changes h) k) = Some kd)"
    if "(kd, s) \<in> set (kind2key h)" for kd s
  proof -
    from that r have "bm_get (kind2key h) kd = Some s" by (simp add: bm_get_in_set)
    then have "kind_keys h kd = s" by (simp add: kind_keys_def)
    with r show ?thesis by auto
  qed
  moreover have "k \<in> set (kind_keys h (change_kind c))" if "(k, c) \<in> set (changes h)" for k c
    using that r assms by (simp add: bm_get_in_set)
  ultimately show "kind_index_ok h"
    using r by (auto simp: kind_index_ok_def list_all_iff)
qed

lemma hc_inv_intro:
  assumes "bm_wf (changes h)" "\<And>k c. bm_get (changes h) k = Some c \<Longrightarrow> change_key c = k"
    "distinct (ts2key h)" "set (ts2key h) = fst ` set (changes h)"
    "bm_wf (kind2key h)" "\<And>kd. bs_wf (kind_keys h kd)"
    "\<And>kd k. k \<in> set (kind_keys h kd) \<longleftrightarrow> map_option change_kind (bm_get (changes h) k) = Some kd"
    "bs_wf (ready_key h)" "set (ready_key h) \<subseteq> fst ` set (changes h)"
    "bs_wf (taken_key h)" "bs_wf (unprocessed_seqnum h)" "bm_wf (last_added h)"
    "hc_type h = HCReader \<Longrightarrow> unprocessed_seqnum h = []"
    "hc_type h \<noteq> HCReader \<Longrightarrow> ready_key h = []"
    "hc_type h \<noteq> HCReader \<Longrightarrow> taken_key h = []"
  shows "hc_inv h"
  using assms kind_index_iff [OF assms(1)]
  by (auto simp: hc_inv_def list_all_iff bm_get_in_set)

lemma kind_indexD:
  assumes "hc_inv h"
  shows "bm_wf (kind2key h)" "bs_wf (kind_keys h kd)"
    "k \<in> set (kind_keys h kd) \<longleftrightarrow> map_option change_kind (bm_get (changes h) k) = Some kd"
  using hc_invD(4) [OF assms] kind_index_iff [OF hc_invD(1) [OF assms]] by auto

lemma hc_inv_new [umber_wf]: "hc_inv (HistoryCache_new t)"
  by (rule hc_inv_intro) (auto simp: HistoryCache_new_def kind_keys_def)

section \<open>Removal\<close>

lemma remove_change_frame [simp]:
  "hc_type (remove_change k t h) = hc_type h"
  "unprocessed_seqnum (remove_change k t h) = unprocessed_seqnum h"
  "last_added (remove_change k t h) = last_added h"
  by (auto simp: remove_change_def Let_def split: option.splits)

lemma bm_remove_absent: "bm_get m k = None \<Longrightarrow> bm_remove k m = m"
  by (force simp: bm_remove_def bm_get_None filter_id_conv)

lemma remove_change_changes:
  "changes (remove_change k t h) = (if pinned h k then changes h else bm_remove k (changes h))"
  by (auto simp: remove_change_def pinned_def Let_def bm_remove_absent split: option.splits)

lemma remove_change_ts2key:
  "ts2key (remove_change k t h) = (if pinned h k then ts2key h else remove1 k (ts2key h))"
  by (auto simp: remove_change_def pinned_def Let_def split: option.splits)

lemma remove_change_ready:
  "ready_key (remove_change k t h) =
     (if pinned h k \<or> hc_type h \<noteq> HCReader \<or> bm_get (changes h) k = None then ready_key h
      else bs_remove k (ready_key h))"
  by (auto simp: remove_change_def pinned_def Let_def split: option.splits)

lemma remove_change_taken:
  "taken_key (remove_change k t h) =
     (if pinned h k \<or> hc_type h \<noteq> HCReader \<or> bm_get (changes h) k = None \<or> \<not> t then taken_key h
      else bs_insert k (taken_key h))"
  by (auto simp: remove_change_def pinned_def Let_def split: option.splits)

lemma remove_change_kind2key:
  "kind2key (remove_change k t h) =
     (if pinned h k then kind2key h
      else case bm_get (changes h) k of None \<Rightarrow> kind2key h
           | Some c \<Rightarrow> bm_adjust (change_kind c) (bs_remove k) (kind2key h))"
  by (auto simp: remove_change_def pinned_def Let_def split: option.splits)

lemma remove_change_kind_keys:
  assumes "hc_inv h"
  shows "kind_keys (remove_change k t h) kd =
    (if pinned h k then kind_keys h kd else bs_remove k (kind_keys h kd))"
proof -
  have "k \<notin> set (kind_keys h kd)" if "map_option change_kind (bm_get (changes h) k) \<noteq> Some kd"
    using that kind_indexD(3) [OF assms] by simp
  moreover have "bs_remove k xs = xs" if "k \<notin> set xs" for xs
    using that by (auto simp: bs_remove_def filter_id_conv)
  ultimately show ?thesis
    by (auto simp: kind_keys_def remove_change_kind2key bs_remove_def split: option.splits)
qed

lemmas remove_change_fields =
  remove_change_changes remove_change_ts2key remove_change_ready remove_change_taken

lemma remove_change_inv [umber_wf]:
  assumes "hc_inv h"
  shows "hc_inv (remove_change k t h)"
proof (cases "pinned h k")
  case True
  then show ?thesis using assms by (simp add: remove_change_def pinned_def)
next
  case False
  show ?thesis
  proof (rule hc_inv_intro)
    show "bm_wf (kind2key (remove_change k t h))"
      using kind_indexD(1) [OF assms] False by (simp add: remove_change_kind2key split: option.splits)
    fix kd k'
    show "bs_wf (kind_keys (remove_change k t h) kd)"
      using kind_indexD(2) [OF assms] False by (simp add: remove_change_kind_keys [OF assms])
    show "k' \<in> set (kind_keys (remove_change k t h) kd) \<longleftrightarrow>
        map_option change_kind (bm_get (changes (remove_change k t h)) k') = Some kd"
      using kind_indexD(3) [OF assms] False
      by (auto simp: remove_change_kind_keys [OF assms] remove_change_changes)
  qed (use assms False hc_invD [OF assms] in
    \<open>auto simp: remove_change_fields set_remove1_eq bm_get_None split: if_splits\<close>)
qed

text \<open>
  What a client that removes changes relies on: the invariant is kept, a change that is pinned
  stays, another one is gone, and nothing else is touched.
\<close>

locale change_store =
  fixes inv :: "'s \<Rightarrow> bool"
    and lookup :: "'s \<Rightarrow> 'k \<Rightarrow> 'c option"
    and fixed :: "'s \<Rightarrow> 'k \<Rightarrow> bool"
    and remove :: "'k \<Rightarrow> 's \<Rightarrow> 's"
  assumes remove_inv: "inv s \<Longrightarrow> inv (remove k s)"
    and lookup_remove: "lookup (remove k s) k' = (if k' = k \<and> \<not> fixed s k then None else lookup s k')"
    and fixed_remove: "fixed (remove k s) k' = fixed s k'"
begin

lemma fold_inv: "inv s \<Longrightarrow> inv (fold remove ks s)"
  by (induction ks arbitrary: s) (auto intro: remove_inv)

lemma fold_fixed: "fixed (fold remove ks s) k = fixed s k"
  by (induction ks arbitrary: s) (auto simp: fixed_remove)

lemma fold_lookup:
  "lookup (fold remove ks s) k = (if k \<in> set ks \<and> \<not> fixed s k then None else lookup s k)"
  by (induction ks arbitrary: s) (auto simp: lookup_remove fixed_remove)

lemma fold_keeps: "\<forall>k \<in> set ks. lookup s k = None \<or> fixed s k \<Longrightarrow> lookup (fold remove ks s) = lookup s"
  by (auto simp: fun_eq_iff fold_lookup)

end

interpretation hc: change_store hc_inv "\<lambda>h. bm_get (changes h)" pinned "\<lambda>k. remove_change k t" for t
  by unfold_locales (auto simp: remove_change_inv remove_change_changes pinned_def)

section \<open>Insertion\<close>

lemma store_change_frame [simp]:
  "hc_type (store_change c h) = hc_type h"
  "unprocessed_seqnum (store_change c h) = unprocessed_seqnum h"
  "ready_key (store_change c h) = ready_key h"
  "taken_key (store_change c h) = taken_key h"
  "changes (store_change c h) = bm_insert (change_key c) c (changes h)"
  "ts2key (store_change c h) = ts2key h @ [change_key c]"
  by (simp_all add: store_change_def Let_def)

lemma store_change_kind_keys:
  "kind_keys (store_change c h) kd =
     (if kd = change_kind c then bs_insert (change_key c) (kind_keys h kd) else kind_keys h kd)"
  by (simp add: kind_keys_def store_change_def Let_def)

lemma store_change_inv:
  assumes "hc_inv h" and "bm_get (changes h) (change_key c) = None"
  shows "hc_inv (store_change c h)"
proof (rule hc_inv_intro)
  show "bm_wf (kind2key (store_change c h))"
    using kind_indexD(1) [OF assms(1)] by (simp add: store_change_def Let_def)
  fix kd k
  show "bs_wf (kind_keys (store_change c h) kd)"
    using kind_indexD(2) [OF assms(1)] by (simp add: store_change_kind_keys)
  show "k \<in> set (kind_keys (store_change c h) kd) \<longleftrightarrow>
      map_option change_kind (bm_get (changes (store_change c h)) k) = Some kd"
    using kind_indexD(3) [OF assms(1)] assms(2) by (auto simp: store_change_kind_keys)
qed (use assms hc_invD [OF assms(1)] in
  \<open>auto simp: bm_get_None store_change_def Let_def split: if_splits\<close>)

text \<open>A fold of removals in terms of the list of changes.\<close>

lemma fold_remove_changes:
  assumes "\<And>k. k \<in> set ks \<Longrightarrow> \<not> pinned h k"
  shows "changes (fold (\<lambda>k. remove_change k t) ks h) = filter (\<lambda>p. fst p \<notin> set ks) (changes h)"
  using assms
proof (induction ks arbitrary: h)
  case Nil
  show ?case by simp
next
  case (Cons k ks)
  then show ?case
    by (simp add: remove_change_changes pinned_def bm_remove_def conj_commute)
qed

lemma fold_remove_frame [simp]:
  "hc_type (fold (\<lambda>k. remove_change k t) ks h) = hc_type h"
  "unprocessed_seqnum (fold (\<lambda>k. remove_change k t) ks h) = unprocessed_seqnum h"
  "last_added (fold (\<lambda>k. remove_change k t) ks h) = last_added h"
  by (induction ks arbitrary: h) simp_all

lemma filter_not_take: "distinct xs \<Longrightarrow> filter (\<lambda>x. x \<notin> set (take n xs)) xs = drop n xs"
proof -
  assume d: "distinct xs"
  have "filter (\<lambda>x. x \<notin> set (take n xs)) (take n xs @ drop n xs) = drop n xs"
    using set_take_disj_set_drop_if_distinct [OF d, of n n]
    by (auto simp: filter_empty_conv filter_id_conv simp del: append_take_drop_id)
  then show ?thesis by simp
qed

lemma filter_not_drop_rev:
  assumes "distinct ks"
  shows "filter (\<lambda>k. k \<notin> set (drop d (rev ks))) ks = drop (length ks - d) ks"
  using filter_not_take [OF assms, of "length ks - d"] by (simp add: drop_rev)

lemma keep_last_frame [simp]:
  "hc_type (keep_last hi h) = hc_type h"
  "unprocessed_seqnum (keep_last hi h) = unprocessed_seqnum h"
  "last_added (keep_last hi h) = last_added h"
  by (simp_all add: keep_last_def)

lemma keep_last_changes:
  assumes "hc_inv h" and "hc_type h = HCReader" and "history_kind hi = KeepLast"
  shows "changes (keep_last hi h) =
    drop (length (changes h) - nat (wrap_u 64 (history_depth hi))) (changes h)"
proof -
  let ?d = "nat (wrap_u 64 (history_depth hi))"
  let ?ks = "drop ?d (rev (bm_keys (changes h)))"
  have wf: "bm_wf (changes h)" by (rule hc_invD(1) [OF assms(1)])
  have "changes (keep_last hi h) = filter (\<lambda>p. fst p \<notin> set ?ks) (changes h)"
    using assms hc_invD(11) [OF assms(1)]
    by (simp add: keep_last_def fold_remove_changes pinned_def)
  moreover have "bm_keys (filter (\<lambda>p. fst p \<notin> set ?ks) (changes h)) =
      filter (\<lambda>k. k \<notin> set ?ks) (bm_keys (changes h))"
    by (simp add: filter_map o_def)
  moreover have "\<dots> = bm_keys (drop (length (changes h) - ?d) (changes h))"
    using filter_not_drop_rev [OF bm_wf_distinct [OF wf], of ?d] by (simp add: drop_map)
  moreover have "filter (\<lambda>p. fst p \<notin> set ?ks) (changes h) =
      drop (length (changes h) - ?d) (changes h)"
  proof (rule bm_ext)
    let ?n = "length (changes h) - ?d"
    have "bm_wf (take ?n (changes h) @ drop ?n (changes h))" using wf by simp
    then show drop: "bm_wf (drop ?n (changes h))"
      unfolding bm_wf_def map_append bs_wf_append by simp
    show filt: "bm_wf (filter (\<lambda>p. fst p \<notin> set ?ks) (changes h))"
      using wf by simp
    fix k
    have "bm_get m k = (if k \<in> fst ` set m then bm_get (changes h) k else None)"
      if "bm_wf m" "set m \<subseteq> set (changes h)" for m
      using that wf by (metis bm_get_None bm_get_in_set not_Some_eq subset_iff)
    from this [OF filt] this [OF drop] calculation(2,3)
    show "bm_get (filter (\<lambda>p. fst p \<notin> set ?ks) (changes h)) k =
        bm_get (drop ?n (changes h)) k"
      by (metis (no_types, lifting) filter_is_subset list.set_map set_drop_subset)
  qed
  ultimately show ?thesis by simp
qed

lemma keep_last_inv: "hc_inv h \<Longrightarrow> hc_inv (keep_last hi h)"
  by (simp add: keep_last_def hc.fold_inv)

lemma unprocessed_inv:
  assumes "hc_inv h" and "hc_type h = HCWriter" and "bs_wf u"
  shows "hc_inv (h\<lparr>unprocessed_seqnum := u\<rparr>)"
  using assms by (simp add: hc_inv_def kind_index_ok_def kind_keys_def)

lemma last_added_inv: "hc_inv h \<Longrightarrow> hc_inv (h\<lparr>last_added := bm_insert g ts (last_added h)\<rparr>)"
  by (simp add: hc_inv_def kind_index_ok_def kind_keys_def)

lemma after_store_inv: "hc_inv h \<Longrightarrow> hc_inv (after_store hi n h)"
  by (simp add: after_store_def Let_def keep_last_inv unprocessed_inv hc_invD)

lemma add_known_inv:
  assumes "hc_inv h" and "add_known c change h = Inr h'"
  shows "hc_inv h'"
proof -
  have "h\<lparr>last_added := l, unprocessed_seqnum := u\<rparr> =
      (h\<lparr>last_added := l\<rparr>)\<lparr>unprocessed_seqnum := u\<rparr>" for l u by simp
  then show ?thesis
    using assms last_added_inv [OF assms(1)] hc_invD(8) [OF assms(1)]
    by (auto simp: add_known_def intro!: unprocessed_inv split: if_splits HistoryCacheType.splits)
qed

lemma evict_oldest_inv: "hc_inv h \<Longrightarrow> evict_oldest h = Inr h' \<Longrightarrow> hc_inv h'"
  by (auto simp: evict_oldest_def remove_change_inv split: list.splits)

lemma evict_oldest_fresh:
  "evict_oldest h = Inr h' \<Longrightarrow> bm_get (changes h) k = None \<Longrightarrow> bm_get (changes h') k = None"
  by (auto simp: evict_oldest_def remove_change_changes split: list.splits)

lemma add_change_inv [umber_wf]:
  assumes "hc_inv h" and "add_change c rel rl hi h = Inr (h', r)"
  shows "hc_inv h'"
proof (cases "bm_get (changes h) (change_key c)")
  case (Some c')
  then show ?thesis using assms by (auto simp: add_change_def rbind_Inr_iff intro: add_known_inv)
next
  case None
  show ?thesis
    using assms None evict_oldest_fresh [OF _ None] evict_oldest_inv [OF assms(1)]
    by (auto simp: add_change_def rbind_Inr_iff after_store_inv store_change_inv split: if_splits)
qed

section \<open>The other operations\<close>

lemma ready_inv:
  assumes "hc_inv h" and "hc_type h = HCReader" and "bs_wf r" and "set r \<subseteq> fst ` set (changes h)"
  shows "hc_inv (h\<lparr>ready_key := r\<rparr>)"
  using assms by (simp add: hc_inv_def kind_index_ok_def kind_keys_def)

lemma taken_inv:
  assumes "hc_inv h" and "hc_type h = HCReader" and "bs_wf r"
  shows "hc_inv (h\<lparr>taken_key := r\<rparr>)"
  using assms by (simp add: hc_inv_def kind_index_ok_def kind_keys_def)

lemma fold_bs_insert: "bs_wf s \<Longrightarrow> bs_wf (fold bs_insert ks s)"
  by (induction ks arbitrary: s) auto

lemma set_fold_bs_insert [simp]: "set (fold bs_insert ks s) = set ks \<union> set s"
  by (induction ks arbitrary: s) auto

lemma flush_inv: "hc_inv h \<Longrightarrow> flush h = Inr (h', b) \<Longrightarrow> hc_inv h'"
  using hc_invD(5,6) by (fastforce simp: flush_def fold_bs_insert intro!: ready_inv split: if_splits)

lemma get_unprocessed_inv: "hc_inv h \<Longrightarrow> get_unprocessed h = Inr (h', u) \<Longrightarrow> hc_inv h'"
  by (auto simp: get_unprocessed_def intro!: unprocessed_inv split: if_splits)

lemma get_taken_inv: "hc_inv h \<Longrightarrow> get_taken h = Inr (h', u) \<Longrightarrow> hc_inv h'"
  by (auto simp: get_taken_def intro!: taken_inv split: if_splits)

lemma get_taken_less_than_inv:
  "hc_inv h \<Longrightarrow> get_taken_less_than g n h = Inr (h', u) \<Longrightarrow> hc_inv h'"
  by (auto simp: get_taken_less_than_def Let_def hc_invD intro!: taken_inv split: if_splits)

lemma remove_change_from_writer_inv: "hc_inv h \<Longrightarrow> hc_inv (remove_change_from_writer g h)"
  by (simp add: remove_change_from_writer_def hc.fold_inv)

lemma remove_change_if_exist_inv: "hc_inv h \<Longrightarrow> hc_inv (remove_change_if_exist k h)"
  by (simp add: remove_change_if_exist_def remove_change_inv)

lemma add_empty_change_inv: "hc_inv h \<Longrightarrow> add_empty_change now g h = Inr h' \<Longrightarrow> hc_inv h'"
  by (auto simp: add_empty_change_def last_added_inv split: option.splits)

text \<open>The steps of a cache: any method that changes it, with any arguments.\<close>

inductive hc_step :: "HistoryCache \<Rightarrow> HistoryCache \<Rightarrow> bool" where
  hs_add: "add_change c rel rl hi h = Inr (h', r) \<Longrightarrow> hc_step h h'"
| hs_empty: "add_empty_change now g h = Inr h' \<Longrightarrow> hc_step h h'"
| hs_unprocessed: "get_unprocessed h = Inr (h', u) \<Longrightarrow> hc_step h h'"
| hs_taken: "get_taken h = Inr (h', ks) \<Longrightarrow> hc_step h h'"
| hs_taken_less: "get_taken_less_than g n h = Inr (h', ks') \<Longrightarrow> hc_step h h'"
| hs_flush: "flush h = Inr (h', b) \<Longrightarrow> hc_step h h'"
| hs_remove: "hc_step h (remove_change k t h)"
| hs_remove_writer: "hc_step h (remove_change_from_writer g h)"
| hs_remove_if: "hc_step h (remove_change_if_exist k h)"

inductive hc_reachable :: "HistoryCache \<Rightarrow> bool" where
  hr_new: "hc_reachable (HistoryCache_new t)"
| hr_step: "hc_reachable h \<Longrightarrow> hc_step h h' \<Longrightarrow> hc_reachable h'"

inductive_cases hc_stepE: "hc_step h h'"

lemma hc_step_inv: "hc_step h h' \<Longrightarrow> hc_inv h \<Longrightarrow> hc_inv h'"
  by (induction rule: hc_step.induct)
    (auto intro: add_change_inv add_empty_change_inv get_unprocessed_inv get_taken_inv
      get_taken_less_than_inv flush_inv remove_change_inv remove_change_from_writer_inv
      remove_change_if_exist_inv)

lemma hc_reachable_inv: "hc_reachable h \<Longrightarrow> hc_inv h"
  by (induction rule: hc_reachable.induct) (auto intro: hc_inv_new hc_step_inv)

section \<open>Behaviour of the operations\<close>

lemma nat_wrap_u64: "0 \<le> x \<Longrightarrow> x < 2 ^ 63 \<Longrightarrow> nat (wrap_u 64 x) = nat x"
  by (simp add: wrap_u_id)

text \<open>Adding a new change when the limit is not reached.\<close>

lemma add_change_new:
  assumes "bm_get (changes h) (change_key c) = None" and "\<not> limit_reached rl h"
  shows "add_change c rel rl hi h =
    Inr (after_store hi (sequence_number c) (store_change c h), Inr ())"
  using assms by (simp add: add_change_def)

lemma add_change_writer:
  assumes "bm_get (changes h) (change_key c) = None" and "\<not> limit_reached rl h"
    and "hc_type h = HCWriter"
  shows "add_change c rel rl hi h =
    Inr ((store_change c h)\<lparr>unprocessed_seqnum :=
      bs_insert (sequence_number c) (unprocessed_seqnum h)\<rparr>, Inr ())"
  using assms by (simp add: add_change_new after_store_def)

lemma add_change_reader:
  assumes "bm_get (changes h) (change_key c) = None" and "\<not> limit_reached rl h"
    and "hc_type h = HCReader"
  shows "add_change c rel rl hi h = Inr (keep_last hi (store_change c h), Inr ())"
  using assms by (simp add: add_change_new after_store_def Let_def)

text \<open>No removal makes the cache larger, and eviction on a reader's cache makes room.\<close>

lemma length_bm_remove_le: "length (bm_remove k m) \<le> length m"
  by (simp add: bm_remove_def)

lemma length_bm_remove:
  "bm_get m k \<noteq> None \<Longrightarrow> length (bm_remove k m) < length m"
proof -
  assume "bm_get m k \<noteq> None"
  then obtain p where "p \<in> set m" "\<not> fst p \<noteq> k" using bm_get_Some_key by fastforce
  then show ?thesis unfolding bm_remove_def by (rule length_filter_less)
qed

lemma fold_remove_length:
  "length (changes (fold (\<lambda>k. remove_change k t) ks h)) \<le> length (changes h)"
proof (induction ks arbitrary: h)
  case Nil
  show ?case by simp
next
  case (Cons k ks)
  have "length (changes (remove_change k t h)) \<le> length (changes h)"
    by (simp add: remove_change_changes length_bm_remove_le)
  with Cons.IH [of "remove_change k t h"] show ?case by simp
qed

lemma after_store_length: "length (changes (after_store hi n h)) \<le> length (changes h)"
  by (auto simp: after_store_def Let_def keep_last_def fold_remove_length)

lemma evict_oldest_length:
  assumes "hc_inv h" and "hc_type h = HCReader" and "changes h \<noteq> []"
  shows "\<exists>h'. evict_oldest h = Inr h' \<and> length (changes h') < length (changes h)"
proof -
  from assms(3) hc_invD(3) [OF assms(1)] obtain k ks where ts: "ts2key h = k # ks"
    by (cases "ts2key h") auto
  then have "bm_get (changes h) k \<noteq> None"
    using hc_invD(3) [OF assms(1)] bm_get_None [of "changes h" k] by auto
  then show ?thesis
    using ts hc_invD(11) [OF assms(1,2)]
    by (simp add: evict_oldest_def remove_change_changes pinned_def length_bm_remove)
qed

lemma store_change_length:
  assumes "hc_inv h" and "bm_get (changes h) (change_key c) = None"
  shows "length (changes (store_change c h)) = Suc (length (changes h))"
  using assms by (simp add: length_bm_insert hc_invD)

text \<open>The ready changes in terms of lookups.\<close>

lemma lookup_all_total:
  assumes "\<And>k. k \<in> set ks \<Longrightarrow> bm_get m k \<noteq> None"
  shows "lookup_all m ks = Inr (map (\<lambda>k. (k, the (bm_get m k))) ks)"
  using assms
proof (induction ks)
  case Nil
  show ?case by simp
next
  case (Cons k ks)
  then obtain c where "bm_get m k = Some c" by fastforce
  with Cons show ?case by simp
qed

lemma ready_keys_kind:
  assumes "hc_inv h" and "bm_get (kind2key h) Alive = Some ks"
  shows "filter (\<lambda>k. k \<in> set (ready_key h)) ks =
    filter (\<lambda>k. k \<in> set (ready_key h) \<and> map_option change_kind (bm_get (changes h) k) = Some Alive)
      (bm_keys (changes h))"
proof (rule bs_wf_unique)
  have ks: "kind_keys h Alive = ks" using assms(2) by (simp add: kind_keys_def)
  show "bs_wf (filter (\<lambda>k. k \<in> set (ready_key h)) ks)"
    using kind_indexD(2) [OF assms(1), of Alive] ks by simp
  show "bs_wf (filter (\<lambda>k. k \<in> set (ready_key h) \<and>
      map_option change_kind (bm_get (changes h) k) = Some Alive) (bm_keys (changes h)))"
    using hc_invD(1) [OF assms(1)] by (simp add: bm_wf_def)
  show "set (filter (\<lambda>k. k \<in> set (ready_key h)) ks) =
      set (filter (\<lambda>k. k \<in> set (ready_key h) \<and>
        map_option change_kind (bm_get (changes h) k) = Some Alive) (bm_keys (changes h)))"
    using kind_indexD(3) [OF assms(1), of _ Alive] ks hc_invD(6) [OF assms(1)] by auto
qed

definition ready_alive :: "HistoryCache \<Rightarrow> HCKey list" where
  "ready_alive h = filter (\<lambda>k. k \<in> set (ready_key h) \<and>
     map_option change_kind (bm_get (changes h) k) = Some Alive) (bm_keys (changes h))"

lemma ready_alive_wf: "hc_inv h \<Longrightarrow> bs_wf (ready_alive h)"
  using hc_invD(1) by (auto simp: ready_alive_def bm_wf_def)

lemma sort_key_fst_id: "bs_wf (map fst xs) \<Longrightarrow> sort_key fst xs = xs"
  by (rule sort_key_id_if_sorted) (simp add: bs_wf_sorted)

lemma get_ready_changes_spec:
  assumes "hc_inv h"
  shows "get_ready_changes h =
    Inr (ready_alive h, map (\<lambda>k. the (bm_get (changes h) k)) (ready_alive h))"
proof (cases "bm_get (kind2key h) Alive")
  case None
  then have "set (kind_keys h Alive) = {}" by (simp add: kind_keys_def)
  then have "ready_alive h = []"
    using kind_indexD(3) [OF assms, of _ Alive] by (auto simp: ready_alive_def filter_empty_conv)
  with None show ?thesis by (simp add: get_ready_changes_def)
next
  case (Some ks)
  have f: "filter (\<lambda>k. k \<in> set (ready_key h)) ks = ready_alive h"
    unfolding ready_alive_def by (rule ready_keys_kind [OF assms Some])
  have "lookup_all (changes h) (ready_alive h) =
      Inr (map (\<lambda>k. (k, the (bm_get (changes h) k))) (ready_alive h))"
    by (rule lookup_all_total) (auto simp: ready_alive_def)
  moreover have "sort_key fst (map (\<lambda>k. (k, the (bm_get (changes h) k))) (ready_alive h)) =
      map (\<lambda>k. (k, the (bm_get (changes h) k))) (ready_alive h)"
    by (rule sort_key_fst_id) (simp add: o_def ready_alive_wf [OF assms])
  ultimately show ?thesis using Some f by (simp add: get_ready_changes_def o_def)
qed

text \<open>The loops for the extreme sequence numbers.\<close>

lemma Min_insert_insert:
  "finite S \<Longrightarrow> Min (insert m (insert x S)) = Min (insert (min m x) S)" for S :: "int set"
  by (cases "S = {}") (simp_all add: min.assoc)

lemma Max_insert_insert:
  "finite S \<Longrightarrow> Max (insert m (insert x S)) = Max (insert (max m x) S)" for S :: "int set"
  by (cases "S = {}") (simp_all add: max.assoc)

lemma fold_min_seq:
  "fold (\<lambda>k m. if hk_seq_num k < m \<and> hk_seq_num k \<notin> U then hk_seq_num k else m) ks m =
     Min (insert m (hk_seq_num ` set ks - U))"
proof (induction ks arbitrary: m)
  case Nil
  show ?case by simp
next
  case (Cons k ks)
  let ?S = "hk_seq_num ` set ks - U"
  have "Min (insert (if hk_seq_num k < m \<and> hk_seq_num k \<notin> U then hk_seq_num k else m) ?S) =
      Min (insert m (hk_seq_num ` set (k # ks) - U))"
  proof (cases "hk_seq_num k \<in> U")
    case True
    then show ?thesis by (simp add: insert_Diff_if)
  next
    case False
    have "Min (insert m (insert (hk_seq_num k) ?S)) = Min (insert (min m (hk_seq_num k)) ?S)"
      by (rule Min_insert_insert) simp
    with False show ?thesis by (auto simp: insert_Diff_if min_def)
  qed
  with Cons.IH show ?case by simp
qed

lemma fold_max_seq:
  "fold (\<lambda>k m. if m < hk_seq_num k \<and> hk_seq_num k \<notin> U then hk_seq_num k else m) ks m =
     Max (insert m (hk_seq_num ` set ks - U))"
proof (induction ks arbitrary: m)
  case Nil
  show ?case by simp
next
  case (Cons k ks)
  let ?S = "hk_seq_num ` set ks - U"
  have "Max (insert (if m < hk_seq_num k \<and> hk_seq_num k \<notin> U then hk_seq_num k else m) ?S) =
      Max (insert m (hk_seq_num ` set (k # ks) - U))"
  proof (cases "hk_seq_num k \<in> U")
    case True
    then show ?thesis by (simp add: insert_Diff_if)
  next
    case False
    have "Max (insert m (insert (hk_seq_num k) ?S)) = Max (insert (max m (hk_seq_num k)) ?S)"
      by (rule Max_insert_insert) simp
    with False show ?thesis by (auto simp: insert_Diff_if max_def)
  qed
  with Cons.IH show ?case by simp
qed

definition processed_seqs :: "HistoryCache \<Rightarrow> SequenceNumber set" where
  "processed_seqs h = hk_seq_num ` set (bm_keys (changes h)) - set (unprocessed_seqnum h)"

lemma get_seq_num_min_max:
  assumes "\<And>s. s \<in> processed_seqs h \<Longrightarrow> i64_min < s \<and> s < i64_max"
  shows "get_seq_num_min h = (if processed_seqs h = {} then 0 else Min (processed_seqs h))"
    and "get_seq_num_max h = (if processed_seqs h = {} then 0 else Max (processed_seqs h))"
proof -
  have fin: "finite (processed_seqs h)" by (simp add: processed_seqs_def)
  have "Min (insert i64_max (processed_seqs h)) = Min (processed_seqs h) \<and>
      Min (processed_seqs h) \<noteq> i64_max \<and>
      Max (insert i64_min (processed_seqs h)) = Max (processed_seqs h) \<and>
      Max (processed_seqs h) \<noteq> i64_min" if "processed_seqs h \<noteq> {}"
  proof -
    have mx: "i64_min < Max (processed_seqs h)" and mn: "Min (processed_seqs h) < i64_max"
      using assms Min_in [OF fin that] Max_in [OF fin that] by blast+
    have "Min (insert i64_max (processed_seqs h)) = Min (processed_seqs h)"
      unfolding Min_insert [OF fin that] using mn by (rule min.absorb2 [OF less_imp_le])
    moreover have "Max (insert i64_min (processed_seqs h)) = Max (processed_seqs h)"
      unfolding Max_insert [OF fin that] using mx by (rule max.absorb2 [OF less_imp_le])
    ultimately show ?thesis using mx mn less_irrefl by metis
  qed
  then show "get_seq_num_min h = (if processed_seqs h = {} then 0 else Min (processed_seqs h))"
    and "get_seq_num_max h = (if processed_seqs h = {} then 0 else Max (processed_seqs h))"
    unfolding get_seq_num_min_def get_seq_num_max_def fold_min_seq fold_max_seq Let_def
      processed_seqs_def [symmetric] by (auto simp del: Min_insert Max_insert)
qed

section \<open>Properties\<close>

definition ex_payload :: "u8 \<Rightarrow> SerializedPayload" where
  "ex_payload b = \<lparr>representation_identifier = CDR_LE, representation_options = (0, 0),
     payload_value = [b]\<rparr>"

definition ex_guid :: GUID where
  "ex_guid = GUID (replicate 12 1) (EntityId (0, 0, 1) WRITER_NO_KEY_USER_DEFIND)"

definition ex_change :: "SequenceNumber \<Rightarrow> CacheChange" where
  "ex_change n = \<lparr>change_kind = Alive, writer_guid = ex_guid, sequence_number = n,
     timestamp = \<lparr>ts_seconds = n, ts_fraction = 0\<rparr>, data_value = Some (ex_payload 7),
     instance_handle = InstantHandle\<rparr>"

lemmas ex_cache_defs = ex_change_def ex_guid_def ex_payload_def change_key_def
  HistoryCache_new_def limit_reached_def default_resource_limits_def LENGTH_UNLIMITED_def
  store_change_def wrap_u_def less_HCKey_def Let_def

text \<open>
  C33. Every history cache that a sequence of operations can produce is consistent: the changes
  are sorted by key and stored under their own key, the order of arrival lists exactly their
  keys once each, the index by kind lists exactly the changes of each kind, the ready keys are
  keys of changes, and only a writer's cache has unprocessed sequence numbers.
\<close>

theorem cache_indexes_consistent:
  assumes "hc_reachable h"
  shows "hc_inv h"
  using assms by (rule hc_reachable_inv)

theorem cache_indexes_consistent_witness:
  "\<exists>h. add_change (ex_change 1) True default_resource_limits default_history
      (HistoryCache_new HCWriter) = Inr (h, Inr ()) \<and>
     hc_inv h \<and> bm_keys (changes h) = [HCKey ex_guid 1]"
proof -
  let ?e = "HistoryCache_new HCWriter"
  let ?h = "(store_change (ex_change 1) ?e)\<lparr>unprocessed_seqnum := [1]\<rparr>"
  have add: "add_change (ex_change 1) True default_resource_limits default_history ?e =
      Inr (?h, Inr ())"
    by (subst add_change_writer) (simp_all add: ex_cache_defs)
  then have "hc_reachable ?h" by (blast intro: hr_new hr_step hs_add)
  from cache_indexes_consistent [OF this] add show ?thesis
    by (intro exI [of _ ?h]) (simp add: change_key_def ex_change_def HistoryCache_new_def)
qed

text \<open>
  A change written through a writer's cache below its limit is found again under its key,
  is handed to the RTPS writer exactly once by \<^verbatim>\<open>get_unprocessed\<close>, cannot be removed before
  that, and disturbs no other change.
\<close>

theorem writer_add_then_get:
  assumes "hc_inv h" and "hc_type h = HCWriter" and "\<not> limit_reached rl h"
    and "bm_get (changes h) (change_key c) = None"
  shows "\<exists>h'. add_change c rel rl hi h = Inr (h', Inr ()) \<and>
    get_change (writer_guid c) (sequence_number c) h' = Some c \<and>
    (\<forall>k. k \<noteq> change_key c \<longrightarrow> bm_get (changes h') k = bm_get (changes h) k) \<and>
    remove_change (change_key c) t h' = h' \<and>
    (\<exists>h'' u. get_unprocessed h' = Inr (h'', u) \<and> sequence_number c \<in> set u \<and>
       get_unprocessed h'' = Inr (h'', []) \<and>
       bm_get (changes (remove_change (change_key c) t h'')) (change_key c) = None)"
proof -
  let ?h = "(store_change c h)\<lparr>unprocessed_seqnum :=
      bs_insert (sequence_number c) (unprocessed_seqnum h)\<rparr>"
  have add: "add_change c rel rl hi h = Inr (?h, Inr ())"
    using assms by (simp add: add_change_writer)
  have "get_unprocessed ?h = Inr (?h\<lparr>unprocessed_seqnum := []\<rparr>, unprocessed_seqnum ?h)"
    using assms(2) by (simp add: get_unprocessed_def)
  moreover have "get_unprocessed (?h\<lparr>unprocessed_seqnum := []\<rparr>) =
      Inr (?h\<lparr>unprocessed_seqnum := []\<rparr>, [])"
    using assms(2) by (simp add: get_unprocessed_def)
  moreover have "remove_change (change_key c) t ?h = ?h"
    by (simp add: remove_change_def change_key_def)
  ultimately show ?thesis
    using add by (auto simp: get_change_def change_key_def remove_change_changes pinned_def)
qed

theorem writer_add_then_get_witness:
  "\<exists>h'. add_change (ex_change 1) True default_resource_limits default_history
      (HistoryCache_new HCWriter) = Inr (h', Inr ()) \<and>
    get_change ex_guid 1 h' = Some (ex_change 1)"
proof -
  let ?e = "HistoryCache_new HCWriter"
  have "hc_type ?e = HCWriter" "\<not> limit_reached default_resource_limits ?e"
    "bm_get (changes ?e) (change_key (ex_change 1)) = None"
    by (simp_all add: ex_cache_defs)
  from writer_add_then_get [OF hc_inv_new this, of True default_history]
  show ?thesis by (auto simp: ex_change_def)
qed

text \<open>
  C34. Under \<^verbatim>\<open>KEEP_LAST\<close> with depth \<open>d\<close> a reader's cache below its resource limit keeps, after
  adding a change, exactly the \<open>d\<close> largest keys of what it had and the new one, each with
  its contents; so a late sample older than all of them is not kept.
\<close>

theorem reader_keeps_last:
  assumes "hc_inv h" and "hc_type h = HCReader" and "\<not> limit_reached rl h"
    and "bm_get (changes h) (change_key c) = None"
    and "history_kind hi = KeepLast" and "0 \<le> history_depth hi" and "history_depth hi < 2 ^ 31"
  shows "\<exists>h'. add_change c rel rl hi h = Inr (h', Inr ()) \<and>
    (let all = bm_insert (change_key c) c (changes h)
     in changes h' = drop (length all - nat (history_depth hi)) all) \<and>
    length (changes h') \<le> nat (history_depth hi)"
proof -
  have "hc_inv (store_change c h)" using assms by (intro store_change_inv)
  then have "changes (keep_last hi (store_change c h)) =
      drop (length (bm_insert (change_key c) c (changes h)) - nat (history_depth hi))
        (bm_insert (change_key c) c (changes h))"
    using assms by (subst keep_last_changes) (simp_all add: nat_wrap_u64)
  then show ?thesis
    using assms by (simp add: add_change_reader Let_def)
qed

theorem reader_keeps_last_witness:
  "\<exists>h1 h2. add_change (ex_change 5) True default_resource_limits default_history
      (HistoryCache_new HCReader) = Inr (h1, Inr ()) \<and>
    add_change (ex_change 3) True default_resource_limits default_history h1 = Inr (h2, Inr ()) \<and>
    bm_keys (changes h2) = [HCKey ex_guid 5]"
proof -
  let ?e = "HistoryCache_new HCReader"
  let ?h1 = "keep_last default_history (store_change (ex_change 5) ?e)"
  have add1: "add_change (ex_change 5) True default_resource_limits default_history ?e =
      Inr (?h1, Inr ())"
    by (rule add_change_reader) (simp_all add: ex_cache_defs)
  have inv1: "hc_inv ?h1"
    by (rule add_change_inv [OF hc_inv_new add1])
  have ch1: "changes ?h1 = [(HCKey ex_guid 5, ex_change 5)]"
    by (subst keep_last_changes [OF store_change_inv [OF hc_inv_new]])
      (simp_all add: ex_cache_defs default_history_def)
  have "hc_type ?h1 = HCReader" "\<not> limit_reached default_resource_limits ?h1"
    "bm_get (changes ?h1) (change_key (ex_change 3)) = None" "history_kind default_history = KeepLast"
    "0 \<le> history_depth default_history" "history_depth default_history < 2 ^ 31"
    unfolding ch1 by (simp_all add: ex_cache_defs default_history_def)
  from reader_keeps_last [OF inv1 this, of True] obtain h2 where
    "add_change (ex_change 3) True default_resource_limits default_history ?h1 = Inr (h2, Inr ())"
    "changes h2 = [(HCKey ex_guid 5, ex_change 5)]"
    unfolding ch1 by (auto simp: ex_cache_defs default_history_def)
  with add1 show ?thesis by auto
qed

text \<open>What storing a new change leaves in a reader's cache: all changes, or the largest keys of KEEP_LAST.\<close>

definition history_view :: "History \<Rightarrow> (HCKey, CacheChange) btree_map \<Rightarrow> (HCKey, CacheChange) btree_map" where
  "history_view hi m =
     (if history_kind hi = KeepLast then drop (length m - nat (wrap_u 64 (history_depth hi))) m else m)"

lemma after_store_view:
  assumes "hc_inv h" and "hc_type h = HCReader" and "bm_get (changes h) (change_key c) = None"
  shows "changes (after_store hi n (store_change c h)) = history_view hi (bm_insert (change_key c) c (changes h))"
proof -
  have "hc_inv (store_change c h)" using assms by (intro store_change_inv)
  then show ?thesis
    using assms(2) keep_last_changes [of "store_change c h" hi]
    by (simp add: after_store_def history_view_def keep_last_def Let_def)
qed

lemma evict_oldest_reader:
  assumes "hc_inv h" and "hc_type h = HCReader" and "changes h \<noteq> []"
  shows "ts2key h \<noteq> []" and "evict_oldest h = Inr (remove_change (hd (ts2key h)) False h)"
    and "changes (remove_change (hd (ts2key h)) False h) = bm_remove (hd (ts2key h)) (changes h)"
proof -
  from assms(3) hc_invD(3) [OF assms(1)] obtain k ks where ts: "ts2key h = k # ks" by (cases "ts2key h") auto
  then show "ts2key h \<noteq> []" "evict_oldest h = Inr (remove_change (hd (ts2key h)) False h)"
    by (simp_all add: evict_oldest_def)
  show "changes (remove_change (hd (ts2key h)) False h) = bm_remove (hd (ts2key h)) (changes h)"
    using hc_invD(11) [OF assms(1,2)] by (simp add: remove_change_changes pinned_def)
qed

text \<open>
  C38. A new change at a reader's cache whose policy allows \<^verbatim>\<open>max_samples = m > 1\<close> and that holds fewer than \<open>m\<close>
  changes. Adding does not panic and leaves fewer than \<open>m\<close> changes: one less than the policy allows. Below the limit
  the change is stored; at the limit a reliable reader discards it and leaves the cache as it is, and a best-effort reader
  first removes the change that has been in the cache longest, the head of \<^verbatim>\<open>ts2key\<close>, and then stores
  the new one. With KEEP_LAST the largest keys remain of the result, as many as the depth says.
\<close>

theorem reader_resource_limit:
  assumes "hc_inv h" and "hc_type h = HCReader" and "1 < max_samples rl" and "max_samples rl < 2 ^ 31"
    and "length (changes h) < nat (max_samples rl)"
    and "bm_get (changes h) (change_key c) = None"
  shows "\<exists>h'. add_change c rel rl hi h = Inr (h', Inr ()) \<and>
    length (changes h') < nat (max_samples rl) \<and>
    (if limit_reached rl h
     then if rel then h' = h
          else ts2key h \<noteq> [] \<and>
            changes h' = history_view hi (bm_insert (change_key c) c (bm_remove (hd (ts2key h)) (changes h)))
     else changes h' = history_view hi (bm_insert (change_key c) c (changes h)))"
proof (cases "limit_reached rl h")
  case limit: True
  show ?thesis
  proof (cases rel)
    case True
    then show ?thesis using assms limit by (simp add: add_change_def)
  next
    case False
    let ?h = "remove_change (hd (ts2key h)) False h"
    from limit assms(3,4) have "changes h \<noteq> []"
      by (auto simp: limit_reached_def wrap_u_id)
    note e = evict_oldest_reader [OF assms(1,2) this] and l = evict_oldest_length [OF assms(1,2) this]
    have h: "hc_inv ?h" "hc_type ?h = HCReader" "bm_get (changes ?h) (change_key c) = None"
      using evict_oldest_inv [OF assms(1) e(2)] evict_oldest_fresh [OF e(2) assms(6)] assms(2) by simp_all
    have "length (changes (store_change c ?h)) < nat (max_samples rl)"
      using l assms(5) unfolding store_change_length [OF h(1,3)] e(2) by simp
    then show ?thesis
      using e assms False limit after_store_length [of hi "sequence_number c" "store_change c ?h"]
        after_store_view [OF h, of hi "sequence_number c"]
      by (auto simp: add_change_def)
  qed
next
  case False
  then have "length (changes (store_change c h)) < nat (max_samples rl)"
    using assms(3,4) unfolding store_change_length [OF assms(1,6)]
    by (auto simp: limit_reached_def LENGTH_UNLIMITED_def wrap_u_id)
  then show ?thesis
    using False assms after_store_length [of hi "sequence_number c" "store_change c h"]
      after_store_view [OF assms(1,2,6), of hi "sequence_number c"]
    by (auto simp: add_change_new)
qed

text \<open>A full best-effort cache with \<^verbatim>\<open>max_samples = 2\<close>: the change 1 makes way for the change 2.\<close>

theorem reader_resource_limit_witness:
  "\<exists>h'. add_change (ex_change 2) False \<lparr>max_samples = 2, max_instance = - 1, max_samples_per_instanse = - 1\<rparr>
       \<lparr>history_kind = KeepAll, history_depth = 1\<rparr> (store_change (ex_change 1) (HistoryCache_new HCReader)) = Inr (h', Inr ()) \<and>
     changes h' = [(HCKey ex_guid 2, ex_change 2)]"
proof -
  let ?h = "store_change (ex_change 1) (HistoryCache_new HCReader)"
  let ?rl = "\<lparr>max_samples = 2, max_instance = - 1, max_samples_per_instanse = - 1\<rparr>"
  let ?hi = "\<lparr>history_kind = KeepAll, history_depth = 1\<rparr>"
  have key: "change_key (ex_change n) = HCKey ex_guid n" for n by (simp add: change_key_def ex_change_def)
  have inv: "hc_inv ?h" using hc_inv_new [of HCReader] by (rule store_change_inv) (simp add: HistoryCache_new_def)
  have h: "changes ?h = [(HCKey ex_guid 1, ex_change 1)]" "ts2key ?h = [HCKey ex_guid 1]" "hc_type ?h = HCReader"
    by (simp_all add: store_change_def key HistoryCache_new_def Let_def)
  have "1 < max_samples ?rl" "max_samples ?rl < 2 ^ 31" "length (changes ?h) < nat (max_samples ?rl)"
    "bm_get (changes ?h) (change_key (ex_change 2)) = None" "limit_reached ?rl ?h"
    by (simp_all add: h key limit_reached_def LENGTH_UNLIMITED_def wrap_u_def HistoryCache_new_def)
  with reader_resource_limit [OF inv h(3) this(1-4), of False ?hi] show ?thesis
    by (auto simp: h key history_view_def bm_remove_def HistoryCache_new_def)
qed

text \<open>
  With \<^verbatim>\<open>max_samples = 1\<close>, a legal setting that should leave room for one sample, an empty
  cache is already at its limit: a reliable writer's first write reports that it would block, a
  reliable reader drops its first sample silently, and for a best-effort endpoint the first
  sample panics, because there is no oldest change to evict.
\<close>

theorem max_samples_one_unusable:
  assumes "max_samples rl = 1"
  shows "add_change c True rl hi (HistoryCache_new HCWriter) =
      Inr (HistoryCache_new HCWriter, Inl (WouldBlock ''resource_limits.max_samples reached'')) \<and>
    add_change c True rl hi (HistoryCache_new HCReader) = Inr (HistoryCache_new HCReader, Inr ()) \<and>
    add_change c False rl hi (HistoryCache_new HCWriter) = Inl IndexOutOfBounds \<and>
    add_change c False rl hi (HistoryCache_new HCReader) = Inl IndexOutOfBounds"
  using assms
  by (simp add: add_change_def HistoryCache_new_def limit_reached_def LENGTH_UNLIMITED_def
      wrap_u_def evict_oldest_def)

theorem max_samples_one_unusable_witness:
  "max_samples \<lparr>max_samples = 1, max_instance = - 1, max_samples_per_instanse = - 1\<rparr> = (1::int) \<and>
   add_change (ex_change 1) False \<lparr>max_samples = 1, max_instance = - 1,
     max_samples_per_instanse = - 1\<rparr> default_history (HistoryCache_new HCReader) = Inl IndexOutOfBounds"
  using max_samples_one_unusable [of "\<lparr>max_samples = 1, max_instance = - 1,
     max_samples_per_instanse = - 1\<rparr>" "ex_change 1" default_history] by simp

text \<open>
  The sequence numbers a heartbeat announces: over a cache whose sequence numbers are
  strictly inside the 64-bit range, \<^verbatim>\<open>get_seq_num_min\<close> and \<^verbatim>\<open>get_seq_num_max\<close> are the least and the
  greatest sequence number of the changes that the writer has processed, and zero when there
  are none.
\<close>

theorem seq_num_min_max:
  assumes "\<forall>s \<in> processed_seqs h. i64_min < s \<and> s < i64_max"
  shows "get_seq_num_min h = (if processed_seqs h = {} then 0 else Min (processed_seqs h)) \<and>
    get_seq_num_max h = (if processed_seqs h = {} then 0 else Max (processed_seqs h))"
  using assms get_seq_num_min_max [of h] by blast

theorem seq_num_min_max_witness:
  "\<exists>h. processed_seqs h = {3, 5} \<and> get_seq_num_min h = 3 \<and> get_seq_num_max h = 5"
proof -
  let ?h = "store_change (ex_change 5) (store_change (ex_change 3) (HistoryCache_new HCWriter))"
  have p: "processed_seqs ?h = {3, 5}"
    by (auto simp: processed_seqs_def ex_cache_defs)
  have "get_seq_num_min ?h = 3 \<and> get_seq_num_max ?h = 5"
    using seq_num_min_max [of ?h] unfolding p by (simp add: i64_min_def i64_max_def)
  with p show ?thesis by blast
qed

end
