(* ===== verification/Umber_Proxy.thy ===== *)
theory Umber_Proxy
  imports Umber_Cache
begin

text \<open>
  The proxies of remote endpoints: \<^verbatim>\<open>src/structure/proxy.rs\<close>.

  A writer keeps a \<open>ReaderProxy\<close> per matched reader with the state of every change for that
  reader; a reader keeps a \<open>WriterProxy\<close> per matched writer with the state of every change from
  that writer. The field \<^verbatim>\<open>_history_cache\<close>, a shared handle that is read only by
  \<^verbatim>\<open>ReaderProxy::new\<close>, is an argument of that function.

  The locale \<open>change_tracker\<close> is what both state tables promise their clients.
\<close>

section \<open>ReaderProxy\<close>

record ReaderProxy =
  remote_reader_guid :: GUID
  expects_inline_qos :: bool
  rp_unicast_locator_list :: "Locator list"
  rp_multicast_locator_list :: "Locator list"
  rp_default_unicast_locator_list :: "Locator list"
  rp_default_multicast_locator_list :: "Locator list"
  rp_qos :: DataReaderQosPolicies
  rp_cache_state :: "(SequenceNumber, ChangeForReader) btree_map"

definition ChangeForReader_new ::
    "SequenceNumber \<Rightarrow> ChangeForReaderStatusKind \<Rightarrow> bool \<Rightarrow> ChangeForReader" where
  "ChangeForReader_new seq_num status is_relevant =
     \<lparr>cfr_seq_num = seq_num, cfr_status = status, cfr_is_relevant = is_relevant\<rparr>"

text \<open>One iteration of the loop of \<^verbatim>\<open>new\<close>; \<^verbatim>\<open>ts2key[len - 1]\<close> panics on an empty vector.\<close>

definition new_entry :: "GUID \<Rightarrow> Durability \<Rightarrow> ChangeForReaderStatusKind \<Rightarrow> HistoryCache \<Rightarrow> HCKey
    \<Rightarrow> (SequenceNumber, ChangeForReader) btree_map
    \<Rightarrow> (SequenceNumber, ChangeForReader) btree_map res" where
  "new_entry reader durability status_kind hc k m =
     (if ts2key hc = [] then Inl ArithOverflow
      else
        let latest = last (ts2key hc);
            is_relevant = (case durability of
                             Volatile \<Rightarrow> False
                           | TransientLocal \<Rightarrow>
                               if is_builtin (entity_id reader) then True else k = latest)
        in Inr (bm_insert (hk_seq_num k)
             (ChangeForReader_new (hk_seq_num k) status_kind is_relevant) m))"

definition ReaderProxy_new :: "GUID \<Rightarrow> bool \<Rightarrow> Locator list \<Rightarrow> Locator list \<Rightarrow> Locator list
    \<Rightarrow> Locator list \<Rightarrow> DataReaderQosPolicies \<Rightarrow> HistoryCache \<Rightarrow> bool \<Rightarrow> ReaderProxy res" where
  "ReaderProxy_new guid inline uni multi duni dmulti qos hc push_mode =
     (if \<not> length uni + length multi + length duni + length dmulti > 0 then Inl AssertFailed
      else
        let status_kind = (if push_mode then Unsent else Unacknowledged)
        in rbind (rfold (new_entry guid (fst (dr_durability qos)) status_kind hc)
                    (bm_keys (changes hc)) [])
             (\<lambda>cs. Inr \<lparr>remote_reader_guid = guid, expects_inline_qos = inline,
                rp_unicast_locator_list = uni, rp_multicast_locator_list = multi,
                rp_default_unicast_locator_list = duni, rp_default_multicast_locator_list = dmulti,
                rp_qos = qos, rp_cache_state = cs\<rparr>))"

definition rp_get_unicast_locator_list :: "ReaderProxy \<Rightarrow> Locator list" where
  "rp_get_unicast_locator_list p =
     (if rp_unicast_locator_list p = [] then rp_default_unicast_locator_list p
      else rp_unicast_locator_list p)"

definition rp_get_multicast_locator_list :: "ReaderProxy \<Rightarrow> Locator list" where
  "rp_get_multicast_locator_list p =
     (if rp_multicast_locator_list p = [] then rp_default_multicast_locator_list p
      else rp_multicast_locator_list p)"

definition rp_update_cache_state ::
    "SequenceNumber \<Rightarrow> bool \<Rightarrow> ChangeForReaderStatusKind \<Rightarrow> ReaderProxy \<Rightarrow> ReaderProxy" where
  "rp_update_cache_state seq_num is_relevant state p =
     p\<lparr>rp_cache_state := bm_insert seq_num (ChangeForReader_new seq_num state is_relevant)
         (rp_cache_state p)\<rparr>"

definition acked_changes_set :: "SequenceNumber \<Rightarrow> ReaderProxy \<Rightarrow> ReaderProxy" where
  "acked_changes_set commited_seq_num p =
     (let to_update = map (\<lambda>(n, cfr). (n, cfr_is_relevant cfr))
            (filter (\<lambda>(n, cfr). n \<le> commited_seq_num) (rp_cache_state p))
      in fold (\<lambda>(n, is_relevant). rp_update_cache_state n is_relevant Acknowledged) to_update p)"

definition requested_changes :: "ReaderProxy \<Rightarrow> ChangeForReader list" where
  "requested_changes p = filter (\<lambda>c. cfr_status c = Requested) (bm_values (rp_cache_state p))"

definition unsent_changes :: "ReaderProxy \<Rightarrow> ChangeForReader list" where
  "unsent_changes p = filter (\<lambda>c. cfr_status c = Unsent) (bm_values (rp_cache_state p))"

definition unacked_changes :: "ReaderProxy \<Rightarrow> ChangeForReader list" where
  "unacked_changes p =
     filter (\<lambda>c. cfr_status c = Unacknowledged) (bm_values (rp_cache_state p))"

definition next_requested_change :: "ReaderProxy \<Rightarrow> ChangeForReader option" where
  "next_requested_change p =
     (let next_seq_num = fold (\<lambda>c m. min m (cfr_seq_num c)) (requested_changes p) i64_max
      in find (\<lambda>c. cfr_seq_num c = next_seq_num) (requested_changes p))"

definition next_unsent_change :: "ReaderProxy \<Rightarrow> ChangeForReader option" where
  "next_unsent_change p =
     (let next_seq_num = fold (\<lambda>c m. min m (cfr_seq_num c)) (unsent_changes p) i64_max
      in find (\<lambda>c. cfr_seq_num c = next_seq_num) (unsent_changes p))"

definition request_change :: "SequenceNumber \<Rightarrow> ReaderProxy \<Rightarrow> ReaderProxy" where
  "request_change seq_num p =
     (case bm_get (rp_cache_state p) seq_num of
        Some cfr \<Rightarrow> p\<lparr>rp_cache_state := bm_adjust seq_num (\<lambda>c. c\<lparr>cfr_status := Requested\<rparr>)
                       (rp_cache_state p)\<rparr>
      | None \<Rightarrow> rp_update_cache_state seq_num True Requested p)"

definition requested_changes_set :: "SequenceNumber list \<Rightarrow> ReaderProxy \<Rightarrow> ReaderProxy" where
  "requested_changes_set req_seq_num_set p = fold request_change req_seq_num_set p"

definition is_acked :: "SequenceNumber \<Rightarrow> ReaderProxy \<Rightarrow> bool" where
  "is_acked seq_num p =
     (case bm_get (rp_cache_state p) seq_num of
        Some change \<Rightarrow> if cfr_is_relevant change then cfr_status change = Acknowledged else True
      | None \<Rightarrow> True)"

definition rp_remove_cache_state :: "SequenceNumber \<Rightarrow> ReaderProxy \<Rightarrow> ReaderProxy" where
  "rp_remove_cache_state seq_num p = p\<lparr>rp_cache_state := bm_remove seq_num (rp_cache_state p)\<rparr>"

section \<open>WriterProxy\<close>

record WriterProxy =
  remote_writer_guid :: GUID
  wp_unicast_locator_list :: "Locator list"
  wp_multicast_locator_list :: "Locator list"
  wp_default_unicast_locator_list :: "Locator list"
  wp_default_multicast_locator_list :: "Locator list"
  data_max_size_serialized :: int
  wp_qos :: DataWriterQosPolicies
  wp_cache_state :: "(SequenceNumber, ChangeFromWriter) btree_map"

definition ChangeFromWriter_new ::
    "SequenceNumber \<Rightarrow> ChangeFromWriterStatusKind \<Rightarrow> bool \<Rightarrow> ChangeFromWriter" where
  "ChangeFromWriter_new seq_num status is_relevant =
     \<lparr>cfw_seq_num = seq_num, cfw_is_relevant = is_relevant, cfw_status = status\<rparr>"

definition WriterProxy_new :: "GUID \<Rightarrow> Locator list \<Rightarrow> Locator list \<Rightarrow> Locator list
    \<Rightarrow> Locator list \<Rightarrow> int \<Rightarrow> DataWriterQosPolicies \<Rightarrow> WriterProxy res" where
  "WriterProxy_new guid uni multi duni dmulti max_size qos =
     (if \<not> length uni + length multi + length duni + length dmulti > 0 then Inl AssertFailed
      else Inr \<lparr>remote_writer_guid = guid, wp_unicast_locator_list = uni,
         wp_multicast_locator_list = multi, wp_default_unicast_locator_list = duni,
         wp_default_multicast_locator_list = dmulti, data_max_size_serialized = max_size,
         wp_qos = qos, wp_cache_state = []\<rparr>)"

definition wp_get_unicast_locator_list :: "WriterProxy \<Rightarrow> Locator list" where
  "wp_get_unicast_locator_list p =
     (if wp_unicast_locator_list p = [] then wp_default_unicast_locator_list p
      else wp_unicast_locator_list p)"

definition wp_get_multicast_locator_list :: "WriterProxy \<Rightarrow> Locator list" where
  "wp_get_multicast_locator_list p =
     (if wp_multicast_locator_list p = [] then wp_default_multicast_locator_list p
      else wp_multicast_locator_list p)"

definition wp_update_cache_state ::
    "SequenceNumber \<Rightarrow> bool \<Rightarrow> ChangeFromWriterStatusKind \<Rightarrow> WriterProxy \<Rightarrow> WriterProxy" where
  "wp_update_cache_state seq_num is_relevant state p =
     p\<lparr>wp_cache_state := bm_insert seq_num (ChangeFromWriter_new seq_num state is_relevant)
         (wp_cache_state p)\<rparr>"

definition available_changes_max :: "WriterProxy \<Rightarrow> SequenceNumber" where
  "available_changes_max p =
     fold (\<lambda>(sn, cfw) m. if cfw_status cfw = Received \<or> cfw_status cfw = Lost then max m sn else m)
       (wp_cache_state p) 0"

definition irrelevant_change_set :: "SequenceNumber \<Rightarrow> WriterProxy \<Rightarrow> WriterProxy" where
  "irrelevant_change_set seq_num p = wp_update_cache_state seq_num False Received p"

definition lost_changes_update :: "SequenceNumber \<Rightarrow> WriterProxy \<Rightarrow> WriterProxy" where
  "lost_changes_update first_available_seq_num p =
     p\<lparr>wp_cache_state := map (\<lambda>(sn, cfw). (sn,
         if (cfw_status cfw = Uuknown \<or> cfw_status cfw = Missing) \<and> sn < first_available_seq_num
         then cfw\<lparr>cfw_status := Lost\<rparr> else cfw)) (wp_cache_state p)\<rparr>"

definition missing_changes :: "WriterProxy \<Rightarrow> SequenceNumber list" where
  "missing_changes p = map fst (filter (\<lambda>(sn, cfw). cfw_status cfw = Missing) (wp_cache_state p))"

definition miss_change :: "SequenceNumber \<Rightarrow> SequenceNumber \<Rightarrow> WriterProxy \<Rightarrow> WriterProxy" where
  "miss_change last_available_seq_num sn p =
     (case bm_get (wp_cache_state p) sn of
        Some cfw \<Rightarrow>
          if cfw_status cfw = Uuknown \<and> sn \<le> last_available_seq_num
          then p\<lparr>wp_cache_state := bm_adjust sn (\<lambda>c. c\<lparr>cfw_status := Missing\<rparr>) (wp_cache_state p)\<rparr>
          else p
      | None \<Rightarrow> wp_update_cache_state sn True Missing p)"

definition missing_changes_update ::
    "SequenceNumber \<Rightarrow> SequenceNumber \<Rightarrow> WriterProxy \<Rightarrow> WriterProxy" where
  "missing_changes_update first_available_seq_num last_available_seq_num p =
     fold (miss_change last_available_seq_num) [first_available_seq_num..last_available_seq_num] p"

definition received_change_set :: "SequenceNumber \<Rightarrow> WriterProxy \<Rightarrow> WriterProxy" where
  "received_change_set seq_num p =
     (case bm_get (wp_cache_state p) seq_num of
        Some cfw \<Rightarrow> p\<lparr>wp_cache_state := bm_adjust seq_num (\<lambda>c. c\<lparr>cfw_status := Received\<rparr>)
                       (wp_cache_state p)\<rparr>
      | None \<Rightarrow> wp_update_cache_state seq_num True Received p)"

definition wp_remove_cache_state :: "SequenceNumber \<Rightarrow> WriterProxy \<Rightarrow> WriterProxy" where
  "wp_remove_cache_state seq_num p = p\<lparr>wp_cache_state := bm_remove seq_num (wp_cache_state p)\<rparr>"

section \<open>The state tables\<close>

text \<open>
  What both tables promise: an entry that is put is found, one that is forgotten is gone, other
  entries stay, and the table keeps its invariant.
\<close>

locale change_tracker =
  fixes wf :: "'s \<Rightarrow> bool"
    and entry :: "'s \<Rightarrow> SequenceNumber \<Rightarrow> 'e option"
    and put :: "SequenceNumber \<Rightarrow> 'e \<Rightarrow> 's \<Rightarrow> 's"
    and forget :: "SequenceNumber \<Rightarrow> 's \<Rightarrow> 's"
    and for_key :: "SequenceNumber \<Rightarrow> 'e \<Rightarrow> bool"
  assumes put_wf: "wf s \<Longrightarrow> for_key n e \<Longrightarrow> wf (put n e s)"
    and forget_wf: "wf s \<Longrightarrow> wf (forget n s)"
    and entry_put: "entry (put n e s) = (entry s)(n \<mapsto> e)"
    and entry_forget: "entry (forget n s) = (entry s)(n := None)"
    and entry_key: "wf s \<Longrightarrow> entry s n = Some e \<Longrightarrow> for_key n e"
begin

lemma fold_put_entry:
  "entry (fold (\<lambda>n. put n (f n)) ns s) m = (if m \<in> set ns then Some (f m) else entry s m)"
  by (induction ns arbitrary: s) (auto simp: entry_put)

lemma fold_put_wf:
  "wf s \<Longrightarrow> (\<And>n. n \<in> set ns \<Longrightarrow> for_key n (f n)) \<Longrightarrow> wf (fold (\<lambda>n. put n (f n)) ns s)"
  by (induction ns arbitrary: s) (auto intro: put_wf)

lemma fold_forget_entry:
  "entry (fold forget ns s) m = (if m \<in> set ns then None else entry s m)"
  by (induction ns arbitrary: s) (auto simp: entry_forget)

lemma fold_forget_wf: "wf s \<Longrightarrow> wf (fold forget ns s)"
  by (induction ns arbitrary: s) (auto intro: forget_wf)

text \<open>A loop that rewrites each entry once, from its old value.\<close>

lemma fold_modify_entry:
  assumes "distinct ns" and "\<And>n s. entry (step n s) = (entry s)(n := f n (entry s n))"
  shows "entry (fold step ns s) m = (if m \<in> set ns then f m (entry s m) else entry s m)"
  using assms(1) by (induction ns arbitrary: s) (auto simp: assms(2))

end

definition rp_entry :: "ReaderProxy \<Rightarrow> SequenceNumber \<Rightarrow> ChangeForReader option" where
  "rp_entry p = bm_get (rp_cache_state p)"

definition rp_put :: "SequenceNumber \<Rightarrow> ChangeForReader \<Rightarrow> ReaderProxy \<Rightarrow> ReaderProxy" where
  "rp_put n e p = p\<lparr>rp_cache_state := bm_insert n e (rp_cache_state p)\<rparr>"

definition rp_wf :: "ReaderProxy \<Rightarrow> bool" where
  "rp_wf p \<longleftrightarrow> bm_wf (rp_cache_state p) \<and>
     list_all (\<lambda>(n, e). cfr_seq_num e = n \<and> n \<le> i64_max) (rp_cache_state p)"

definition wp_entry :: "WriterProxy \<Rightarrow> SequenceNumber \<Rightarrow> ChangeFromWriter option" where
  "wp_entry p = bm_get (wp_cache_state p)"

definition wp_put :: "SequenceNumber \<Rightarrow> ChangeFromWriter \<Rightarrow> WriterProxy \<Rightarrow> WriterProxy" where
  "wp_put n e p = p\<lparr>wp_cache_state := bm_insert n e (wp_cache_state p)\<rparr>"

definition wp_wf :: "WriterProxy \<Rightarrow> bool" where
  "wp_wf p \<longleftrightarrow> bm_wf (wp_cache_state p) \<and> list_all (\<lambda>(n, e). cfw_seq_num e = n) (wp_cache_state p)"

lemma list_all_bm_insert:
  assumes "bm_wf m"
  shows "list_all (\<lambda>(n, e). P n e) (bm_insert k v m) \<longleftrightarrow>
    P k v \<and> (\<forall>n e. n \<noteq> k \<longrightarrow> bm_get m n = Some e \<longrightarrow> P n e)"
  using assms by (auto simp: list_all_iff bm_get_in_set split: if_splits)

lemma list_all_bm_get:
  "bm_wf m \<Longrightarrow> list_all (\<lambda>(n, e). P n e) m \<longleftrightarrow> (\<forall>n e. bm_get m n = Some e \<longrightarrow> P n e)"
  by (auto simp: list_all_iff bm_get_in_set)

interpretation rp: change_tracker rp_wf rp_entry rp_put rp_remove_cache_state
    "\<lambda>n e. cfr_seq_num e = n \<and> n \<le> i64_max"
proof
  fix s :: ReaderProxy and n and e :: ChangeForReader
  show "rp_wf s \<Longrightarrow> cfr_seq_num e = n \<and> n \<le> i64_max \<Longrightarrow> rp_wf (rp_put n e s)"
    by (auto simp: rp_wf_def rp_put_def list_all_bm_insert list_all_bm_get)
  show "rp_wf s \<Longrightarrow> rp_wf (rp_remove_cache_state n s)"
    by (auto simp: rp_wf_def rp_remove_cache_state_def list_all_bm_get split: if_splits)
qed (auto simp: rp_entry_def rp_put_def rp_remove_cache_state_def rp_wf_def list_all_bm_get)

interpretation wp: change_tracker wp_wf wp_entry wp_put wp_remove_cache_state
    "\<lambda>n e. cfw_seq_num e = n"
proof
  fix s :: WriterProxy and n and e :: ChangeFromWriter
  show "wp_wf s \<Longrightarrow> cfw_seq_num e = n \<Longrightarrow> wp_wf (wp_put n e s)"
    by (auto simp: wp_wf_def wp_put_def list_all_bm_insert list_all_bm_get)
  show "wp_wf s \<Longrightarrow> wp_wf (wp_remove_cache_state n s)"
    by (auto simp: wp_wf_def wp_remove_cache_state_def list_all_bm_get split: if_splits)
qed (auto simp: wp_entry_def wp_put_def wp_remove_cache_state_def wp_wf_def list_all_bm_get)

section \<open>The changes for a reader\<close>

lemma cfr_new_sel [simp]:
  "cfr_seq_num (ChangeForReader_new n st r) = n"
  "cfr_status (ChangeForReader_new n st r) = st"
  "cfr_is_relevant (ChangeForReader_new n st r) = r"
  by (simp_all add: ChangeForReader_new_def)

lemma rp_update_put:
  "rp_update_cache_state n r st p = rp_put n (ChangeForReader_new n st r) p"
  by (simp add: rp_update_cache_state_def rp_put_def)

lemma rp_put_frame [simp]:
  "remote_reader_guid (rp_put n e p) = remote_reader_guid p"
  "rp_qos (rp_put n e p) = rp_qos p"
  "expects_inline_qos (rp_put n e p) = expects_inline_qos p"
  "rp_get_unicast_locator_list (rp_put n e p) = rp_get_unicast_locator_list p"
  "rp_get_multicast_locator_list (rp_put n e p) = rp_get_multicast_locator_list p"
  by (simp_all add: rp_put_def rp_get_unicast_locator_list_def rp_get_multicast_locator_list_def)

lemma rp_wfD:
  assumes "rp_wf p"
  shows "bm_wf (rp_cache_state p)"
    and "rp_entry p n = Some e \<Longrightarrow> cfr_seq_num e = n"
    and "rp_entry p n = Some e \<Longrightarrow> n \<le> i64_max"
  using assms rp.entry_key [OF assms] by (auto simp: rp_wf_def)

lemma acked_changes_set_fold:
  assumes "rp_wf p"
  shows "acked_changes_set c p =
    fold (\<lambda>n. rp_put n (ChangeForReader_new n Acknowledged (cfr_is_relevant (the (rp_entry p n)))))
      (filter (\<lambda>n. n \<le> c) (bm_keys (rp_cache_state p))) p"
proof -
  let ?f = "\<lambda>n. rp_put n (ChangeForReader_new n Acknowledged (cfr_is_relevant (the (rp_entry p n))))"
  let ?es = "filter (\<lambda>(n, cfr). n \<le> c) (rp_cache_state p)"
  have eq: "(\<lambda>(n, r). rp_update_cache_state n r Acknowledged) ((\<lambda>(n, cfr). (n, cfr_is_relevant cfr)) x) =
      ?f (fst x)" if "x \<in> set ?es" for x
    using that rp_wfD(1) [OF assms] by (auto simp: rp_update_put rp_entry_def bm_get_in_set)
  have "acked_changes_set c p = fold (\<lambda>x. (\<lambda>(n, r). rp_update_cache_state n r Acknowledged)
      ((\<lambda>(n, cfr). (n, cfr_is_relevant cfr)) x)) ?es p"
    by (simp add: acked_changes_set_def fold_map o_def)
  also have "\<dots> = fold (\<lambda>x. ?f (fst x)) ?es p"
    by (rule fold_cong [OF refl refl eq])
  also have "\<dots> = fold ?f (map fst ?es) p"
    by (simp add: fold_map o_def)
  also have "map fst ?es = filter (\<lambda>n. n \<le> c) (bm_keys (rp_cache_state p))"
    by (simp add: filter_map o_def case_prod_beta')
  finally show ?thesis .
qed

lemma acked_changes_set_entry:
  assumes "rp_wf p"
  shows "rp_entry (acked_changes_set c p) n =
    (if n \<le> c then map_option (\<lambda>e. e\<lparr>cfr_status := Acknowledged\<rparr>) (rp_entry p n) else rp_entry p n)"
proof (cases "rp_entry p n")
  case None
  then have "n \<notin> set (bm_keys (rp_cache_state p))" by (simp add: rp_entry_def bm_get_None)
  then show ?thesis using None
    by (simp add: acked_changes_set_fold [OF assms] rp.fold_put_entry)
next
  case (Some e)
  then have "n \<in> set (bm_keys (rp_cache_state p))"
    by (simp add: rp_entry_def bm_get_Some_key)
  moreover have "ChangeForReader_new n Acknowledged (cfr_is_relevant e) =
      e\<lparr>cfr_status := Acknowledged\<rparr>"
    using rp_wfD(2) [OF assms Some] by (simp add: ChangeForReader_new_def)
  ultimately show ?thesis using Some
    by (simp add: acked_changes_set_fold [OF assms] rp.fold_put_entry)
qed

lemma acked_changes_set_wf [umber_wf]: "rp_wf p \<Longrightarrow> rp_wf (acked_changes_set c p)"
  unfolding acked_changes_set_fold
  by (rule rp.fold_put_wf) (auto dest: rp_wfD simp: rp_entry_def bm_get_in_set [symmetric] rp_wf_def list_all_iff)

definition requested_entry :: "SequenceNumber \<Rightarrow> ChangeForReader option \<Rightarrow> ChangeForReader" where
  "requested_entry n e =
     (case e of Some c \<Rightarrow> c\<lparr>cfr_status := Requested\<rparr> | None \<Rightarrow> ChangeForReader_new n Requested True)"

lemma request_change_put:
  assumes "rp_wf p"
  shows "request_change n p = rp_put n (requested_entry n (rp_entry p n)) p"
proof (cases "rp_entry p n")
  case None
  then show ?thesis
    by (simp add: request_change_def rp_entry_def requested_entry_def rp_update_put)
next
  case (Some c)
  have "bm_adjust n (\<lambda>c. c\<lparr>cfr_status := Requested\<rparr>) (rp_cache_state p) =
      bm_insert n (c\<lparr>cfr_status := Requested\<rparr>) (rp_cache_state p)"
    using rp_wfD(1) [OF assms] Some by (intro bm_ext) (auto simp: rp_entry_def)
  with Some show ?thesis
    by (simp add: request_change_def rp_entry_def requested_entry_def rp_put_def)
qed

lemma request_change_wf:
  assumes "rp_wf p" and "n \<le> i64_max"
  shows "rp_wf (request_change n p)"
  unfolding request_change_put [OF assms(1)]
  using assms rp_wfD(2) [OF assms(1)]
  by (intro rp.put_wf) (auto simp: requested_entry_def split: option.splits)

lemma requested_changes_set_spec:
  assumes "rp_wf p" and "\<forall>n \<in> set ns. n \<le> i64_max"
  shows "rp_wf (requested_changes_set ns p)"
    and "rp_entry (requested_changes_set ns p) m =
      (if m \<in> set ns then Some (requested_entry m (rp_entry p m)) else rp_entry p m)"
proof -
  have "rp_wf (fold request_change ns p) \<and> rp_entry (fold request_change ns p) m =
      (if m \<in> set ns then Some (requested_entry m (rp_entry p m)) else rp_entry p m)"
    using assms
  proof (induction ns arbitrary: p)
    case Nil
    then show ?case by simp
  next
    case (Cons n ns)
    have wf: "rp_wf (request_change n p)"
      using Cons.prems by (auto intro: request_change_wf)
    have "requested_entry m (Some (requested_entry m e)) = requested_entry m e" for e
      by (cases e) (simp_all add: requested_entry_def)
    with Cons.IH [OF wf] Cons.prems show ?case
      by (auto simp: request_change_put rp.entry_put)
  qed
  then show "rp_wf (requested_changes_set ns p)"
    and "rp_entry (requested_changes_set ns p) m =
      (if m \<in> set ns then Some (requested_entry m (rp_entry p m)) else rp_entry p m)"
    by (auto simp: requested_changes_set_def)
qed

text \<open>The search for the least sequence number finds the first of a sorted list.\<close>

lemma fold_min_const: "\<forall>c \<in> set cs. m \<le> cfr_seq_num c \<Longrightarrow> fold (\<lambda>c m. min m (cfr_seq_num c)) cs m = m"
  by (induction cs) (auto simp: min_def)

lemma least_is_first:
  assumes "bs_wf (map cfr_seq_num cs)" and "\<forall>c \<in> set cs. cfr_seq_num c \<le> i64_max"
  shows "find (\<lambda>c. cfr_seq_num c = fold (\<lambda>c m. min m (cfr_seq_num c)) cs i64_max) cs =
    (case cs of [] \<Rightarrow> None | c # _ \<Rightarrow> Some c)"
proof (cases cs)
  case (Cons c cs')
  have "fold (\<lambda>c m. min m (cfr_seq_num c)) cs' (cfr_seq_num c) = cfr_seq_num c"
    using assms(1) Cons by (intro fold_min_const) (auto simp: bs_wf_Cons intro: less_imp_le)
  then show ?thesis using Cons assms(2) by (simp add: min_absorb2)
qed simp

lemma status_list_wf:
  assumes "rp_wf p"
  shows "bs_wf (map cfr_seq_num (filter (\<lambda>c. P (cfr_status c)) (bm_values (rp_cache_state p))))"
proof -
  have "map cfr_seq_num (filter (\<lambda>c. P (cfr_status c)) (bm_values (rp_cache_state p))) =
      map fst (filter (\<lambda>x. P (cfr_status (snd x))) (rp_cache_state p))"
    using assms by (auto simp: rp_wf_def filter_map o_def list_all_iff intro!: map_cong)
  then show ?thesis
    using bm_filter_wf [OF rp_wfD(1) [OF assms]] by (simp add: bm_wf_def)
qed

lemma status_list_set:
  assumes "rp_wf p"
  shows "c \<in> set (filter (\<lambda>c. P (cfr_status c)) (bm_values (rp_cache_state p))) \<longleftrightarrow>
    rp_entry p (cfr_seq_num c) = Some c \<and> P (cfr_status c)"
  using assms by (force simp: rp_wf_def rp_entry_def list_all_iff bm_get_in_set [symmetric] image_iff)

lemma next_unsent_change_first:
  assumes "rp_wf p"
  shows "next_unsent_change p = (case unsent_changes p of [] \<Rightarrow> None | c # _ \<Rightarrow> Some c)"
  unfolding next_unsent_change_def Let_def unsent_changes_def
  by (rule least_is_first [OF status_list_wf [OF assms, of "\<lambda>s. s = Unsent"]])
    (auto simp: status_list_set [OF assms, of _ "\<lambda>s. s = Unsent", simplified] dest: rp_wfD(3) [OF assms])

lemma next_requested_change_first:
  assumes "rp_wf p"
  shows "next_requested_change p = (case requested_changes p of [] \<Rightarrow> None | c # _ \<Rightarrow> Some c)"
  unfolding next_requested_change_def Let_def requested_changes_def
  by (rule least_is_first [OF status_list_wf [OF assms, of "\<lambda>s. s = Requested"]])
    (auto simp: status_list_set [OF assms, of _ "\<lambda>s. s = Requested", simplified] dest: rp_wfD(3) [OF assms])

section \<open>The changes from a writer\<close>

lemma cfw_new_sel [simp]:
  "cfw_seq_num (ChangeFromWriter_new n st r) = n"
  "cfw_status (ChangeFromWriter_new n st r) = st"
  "cfw_is_relevant (ChangeFromWriter_new n st r) = r"
  by (simp_all add: ChangeFromWriter_new_def)

definition wp_status :: "WriterProxy \<Rightarrow> SequenceNumber \<Rightarrow> ChangeFromWriterStatusKind option" where
  "wp_status p n = map_option cfw_status (wp_entry p n)"

lemma wp_update_put:
  "wp_update_cache_state n r st p = wp_put n (ChangeFromWriter_new n st r) p"
  by (simp add: wp_update_cache_state_def wp_put_def)

lemma wp_status_put [simp]: "wp_status (wp_put n e p) = (wp_status p)(n \<mapsto> cfw_status e)"
  by (auto simp: wp_status_def wp.entry_put)

lemma wp_status_remove [simp]:
  "wp_status (wp_remove_cache_state n p) = (wp_status p)(n := None)"
  by (auto simp: wp_status_def wp.entry_forget)

lemma wp_wfD:
  assumes "wp_wf p"
  shows "bm_wf (wp_cache_state p)" and "wp_entry p n = Some e \<Longrightarrow> cfw_seq_num e = n"
  using assms wp.entry_key [OF assms] by (auto simp: wp_wf_def)

lemma wp_put_frame [simp]:
  "remote_writer_guid (wp_put n e p) = remote_writer_guid p"
  "wp_qos (wp_put n e p) = wp_qos p"
  "wp_unicast_locator_list (wp_put n e p) = wp_unicast_locator_list p"
  "wp_default_unicast_locator_list (wp_put n e p) = wp_default_unicast_locator_list p"
  by (simp_all add: wp_put_def)

text \<open>\<^verbatim>\<open>get_mut\<close> and an update in place, as a put.\<close>

lemma wp_adjust_put:
  assumes "wp_wf p" and "wp_entry p n = Some e"
  shows "p\<lparr>wp_cache_state := bm_adjust n f (wp_cache_state p)\<rparr> = wp_put n (f e) p"
proof -
  have "bm_adjust n f (wp_cache_state p) = bm_insert n (f e) (wp_cache_state p)"
    using wp_wfD(1) [OF assms(1)] assms(2) by (intro bm_ext) (auto simp: wp_entry_def)
  then show ?thesis by (simp add: wp_put_def)
qed

definition missed_entry :: "SequenceNumber \<Rightarrow> ChangeFromWriter option \<Rightarrow> ChangeFromWriter" where
  "missed_entry n e =
     (case e of None \<Rightarrow> ChangeFromWriter_new n Missing True
      | Some c \<Rightarrow> if cfw_status c = Uuknown then c\<lparr>cfw_status := Missing\<rparr> else c)"

lemma miss_change_put:
  assumes "wp_wf p" and "n \<le> l"
  shows "wp_wf (miss_change l n p) \<and>
    wp_entry (miss_change l n p) = (wp_entry p)(n \<mapsto> missed_entry n (wp_entry p n)) \<and>
    remote_writer_guid (miss_change l n p) = remote_writer_guid p"
proof (cases "wp_entry p n")
  case None
  then have "miss_change l n p = wp_put n (missed_entry n None) p"
    by (simp add: miss_change_def wp_entry_def missed_entry_def wp_update_put)
  then show ?thesis
    using None wp.put_wf [OF assms(1), of "missed_entry n None" n]
    by (simp add: wp.entry_put missed_entry_def)
next
  case (Some c)
  have "miss_change l n p = (if cfw_status c = Uuknown then wp_put n (c\<lparr>cfw_status := Missing\<rparr>) p else p)"
    using Some assms wp_adjust_put [OF assms(1) Some, of "\<lambda>c. c\<lparr>cfw_status := Missing\<rparr>"]
    by (simp add: miss_change_def wp_entry_def)
  then show ?thesis
    using Some assms(1) wp_wfD(2) [OF assms(1) Some]
    by (auto simp: wp.entry_put missed_entry_def intro: wp.put_wf)
qed

lemma fold_miss_change:
  assumes "wp_wf p" and "distinct ns" and "\<forall>n \<in> set ns. n \<le> l"
  shows "wp_wf (fold (miss_change l) ns p) \<and>
    wp_entry (fold (miss_change l) ns p) m =
      (if m \<in> set ns then Some (missed_entry m (wp_entry p m)) else wp_entry p m) \<and>
    remote_writer_guid (fold (miss_change l) ns p) = remote_writer_guid p"
  using assms
proof (induction ns arbitrary: p)
  case Nil
  then show ?case by simp
next
  case (Cons n ns)
  from Cons.prems have "wp_wf p" "n \<le> l" by simp_all
  note step = miss_change_put [OF this]
  from Cons.IH [of "miss_change l n p"] Cons.prems step show ?case by auto
qed

lemma missing_changes_update_spec:
  assumes "wp_wf p"
  shows "wp_wf (missing_changes_update a l p)"
    and "wp_status (missing_changes_update a l p) n =
      (if a \<le> n \<and> n \<le> l \<and> (wp_status p n = None \<or> wp_status p n = Some Uuknown)
       then Some Missing else wp_status p n)"
    and "remote_writer_guid (missing_changes_update a l p) = remote_writer_guid p"
  using fold_miss_change [OF assms, of "[a..l]" l n]
  by (auto simp: missing_changes_update_def wp_status_def missed_entry_def split: option.splits)

lemma lost_changes_update_spec:
  assumes "wp_wf p"
  shows "wp_wf (lost_changes_update a p)"
    and "wp_status (lost_changes_update a p) n =
      (if n < a \<and> (wp_status p n = Some Uuknown \<or> wp_status p n = Some Missing)
       then Some Lost else wp_status p n)"
    and "remote_writer_guid (lost_changes_update a p) = remote_writer_guid p"
proof -
  let ?g = "\<lambda>sn cfw. if (cfw_status cfw = Uuknown \<or> cfw_status cfw = Missing) \<and> sn < a
      then cfw\<lparr>cfw_status := Lost\<rparr> else cfw"
  have cs: "wp_cache_state (lost_changes_update a p) =
      map (\<lambda>(sn, cfw). (sn, ?g sn cfw)) (wp_cache_state p)"
    by (simp add: lost_changes_update_def)
  have entry: "wp_entry (lost_changes_update a p) m = map_option (?g m) (wp_entry p m)" for m
    unfolding wp_entry_def cs by (rule bm_get_map_snd)
  have "bm_wf (wp_cache_state (lost_changes_update a p))"
    unfolding cs using wp_wfD(1) [OF assms] by (simp only: bm_map_snd_wf)
  then show "wp_wf (lost_changes_update a p)"
    using wp_wfD(2) [OF assms] entry unfolding wp_wf_def
    by (auto simp: list_all_bm_get wp_entry_def [symmetric] split: if_splits)
  show "wp_status (lost_changes_update a p) n =
      (if n < a \<and> (wp_status p n = Some Uuknown \<or> wp_status p n = Some Missing)
       then Some Lost else wp_status p n)"
    by (cases "wp_entry p n") (auto simp: wp_status_def entry)
  show "remote_writer_guid (lost_changes_update a p) = remote_writer_guid p"
    by (simp add: lost_changes_update_def)
qed

lemma received_change_set_spec:
  assumes "wp_wf p"
  shows "wp_wf (received_change_set n p)"
    and "wp_status (received_change_set n p) = (wp_status p)(n \<mapsto> Received)"
    and "remote_writer_guid (received_change_set n p) = remote_writer_guid p"
proof -
  have "received_change_set n p = wp_put n (case wp_entry p n of Some c \<Rightarrow> c\<lparr>cfw_status := Received\<rparr>
      | None \<Rightarrow> ChangeFromWriter_new n Received True) p"
    using wp_adjust_put [OF assms, of n _ "\<lambda>c. c\<lparr>cfw_status := Received\<rparr>"]
    by (cases "wp_entry p n") (simp_all add: received_change_set_def wp_entry_def wp_update_put)
  then show "wp_wf (received_change_set n p)"
    and "wp_status (received_change_set n p) = (wp_status p)(n \<mapsto> Received)"
    and "remote_writer_guid (received_change_set n p) = remote_writer_guid p"
    using assms wp_wfD(2) [OF assms]
    by (auto intro!: wp.put_wf split: option.splits)
qed

lemma irrelevant_change_set_spec:
  assumes "wp_wf p"
  shows "wp_wf (irrelevant_change_set n p)"
    and "wp_status (irrelevant_change_set n p) = (wp_status p)(n \<mapsto> Received)"
    and "remote_writer_guid (irrelevant_change_set n p) = remote_writer_guid p"
  using assms by (auto simp: irrelevant_change_set_def wp_update_put intro: wp.put_wf)

lemma missing_changes_spec:
  assumes "wp_wf p"
  shows "bs_wf (missing_changes p)" and "n \<in> set (missing_changes p) \<longleftrightarrow> wp_status p n = Some Missing"
proof -
  show "bs_wf (missing_changes p)"
    using bm_filter_wf [OF wp_wfD(1) [OF assms]] unfolding missing_changes_def bm_wf_def by blast
  show "n \<in> set (missing_changes p) \<longleftrightarrow> wp_status p n = Some Missing"
    using wp_wfD(1) [OF assms]
    by (force simp: missing_changes_def wp_status_def wp_entry_def bm_get_in_set [symmetric])
qed

lemma fold_max_status:
  "fold (\<lambda>(sn, cfw) m. if P cfw then max m sn else m) xs m =
     Max (insert m (fst ` set (filter (\<lambda>x. P (snd x)) xs)))" for m :: int
proof (induction xs arbitrary: m)
  case Nil
  show ?case by simp
next
  case (Cons x xs)
  have "Max (insert (max m y) S) = Max (insert m (insert y S))" if "finite S" for y and S :: "int set"
    using Max_insert_insert [OF that] by simp
  then show ?case by (cases x) (simp add: Cons.IH)
qed

lemma available_changes_max_spec:
  assumes "wp_wf p"
  shows "available_changes_max p =
    Max (insert 0 {n. wp_status p n = Some Received \<or> wp_status p n = Some Lost})"
proof -
  have "fst ` set (filter (\<lambda>x. cfw_status (snd x) = Received \<or> cfw_status (snd x) = Lost)
      (wp_cache_state p)) = {n. wp_status p n = Some Received \<or> wp_status p n = Some Lost}"
    using wp_wfD(1) [OF assms]
    by (force simp: wp_status_def wp_entry_def bm_get_in_set [symmetric] image_iff)
  then show ?thesis unfolding available_changes_max_def fold_max_status by simp
qed

section \<open>A new reader proxy\<close>

definition late_joiner_relevant :: "GUID \<Rightarrow> Durability \<Rightarrow> HistoryCache \<Rightarrow> HCKey \<Rightarrow> bool" where
  "late_joiner_relevant reader d hc k \<longleftrightarrow>
     d = TransientLocal \<and> (is_builtin (entity_id reader) \<or> k = last (ts2key hc))"

lemma new_entry_step:
  assumes "ts2key hc \<noteq> []"
  shows "new_entry reader d st hc k m = Inr (bm_insert (hk_seq_num k)
    (ChangeForReader_new (hk_seq_num k) st (late_joiner_relevant reader d hc k)) m)"
  using assms by (cases d) (simp_all add: new_entry_def late_joiner_relevant_def Let_def)

lemma new_entries:
  assumes "ts2key hc \<noteq> []" and "inj_on hk_seq_num (set ks)" and "distinct ks"
  shows "\<exists>m'. rfold (new_entry reader d st hc) ks m = Inr m' \<and> (bm_wf m \<longrightarrow> bm_wf m') \<and>
    (\<forall>k \<in> set ks. bm_get m' (hk_seq_num k) =
      Some (ChangeForReader_new (hk_seq_num k) st (late_joiner_relevant reader d hc k))) \<and>
    (\<forall>n. n \<notin> hk_seq_num ` set ks \<longrightarrow> bm_get m' n = bm_get m n)"
  using assms(2,3)
proof (induction ks arbitrary: m)
  case Nil
  then show ?case by simp
next
  case (Cons k ks)
  let ?m = "bm_insert (hk_seq_num k)
    (ChangeForReader_new (hk_seq_num k) st (late_joiner_relevant reader d hc k)) m"
  from Cons.prems have inj: "inj_on hk_seq_num (set ks)" and "distinct ks"
    and fresh: "hk_seq_num k \<notin> hk_seq_num ` set ks"
    by (auto simp: inj_on_def)
  from Cons.IH [OF this(1,2), of ?m] obtain m' where
    "rfold (new_entry reader d st hc) ks ?m = Inr m'" "bm_wf ?m \<longrightarrow> bm_wf m'"
    "\<forall>k \<in> set ks. bm_get m' (hk_seq_num k) =
      Some (ChangeForReader_new (hk_seq_num k) st (late_joiner_relevant reader d hc k))"
    "\<forall>n. n \<notin> hk_seq_num ` set ks \<longrightarrow> bm_get m' n = bm_get ?m n"
    by blast
  with fresh show ?case
    by (intro exI [of _ m']) (simp add: new_entry_step [OF assms(1), of reader d st k m])
qed

lemma ReaderProxy_new_spec:
  assumes "hc_inv hc" and "\<forall>k \<in> set (bm_keys (changes hc)). hk_guid k = g \<and> hk_seq_num k \<le> i64_max"
    and "uni @ multi @ duni @ dmulti \<noteq> []"
  shows "\<exists>p. ReaderProxy_new guid inl uni multi duni dmulti qos hc push = Inr p \<and> rp_wf p \<and>
    remote_reader_guid p = guid \<and>
    (\<forall>n. rp_entry p n =
      (if HCKey g n \<in> set (bm_keys (changes hc))
       then Some (ChangeForReader_new n (if push then Unsent else Unacknowledged)
              (late_joiner_relevant guid (fst (dr_durability qos)) hc (HCKey g n)))
       else None))"
proof -
  let ?st = "if push then Unsent else Unacknowledged"
  let ?d = "fst (dr_durability qos)"
  let ?ks = "bm_keys (changes hc)"
  have len: "length uni + length multi + length duni + length dmulti > 0" using assms(3) by auto
  have key: "k = HCKey g (hk_seq_num k)" if "k \<in> set ?ks" for k
    using that assms(2) by (metis HCKey.collapse)
  have "\<exists>m. rfold (new_entry guid ?d ?st hc) ?ks [] = Inr m \<and> bm_wf m \<and>
    (\<forall>k \<in> set ?ks. bm_get m (hk_seq_num k) =
      Some (ChangeForReader_new (hk_seq_num k) ?st (late_joiner_relevant guid ?d hc k))) \<and>
    (\<forall>n. n \<notin> hk_seq_num ` set ?ks \<longrightarrow> bm_get m n = None)"
  proof (cases "changes hc = []")
    case False
    then have "ts2key hc \<noteq> []" using hc_invD(3) [OF assms(1)] by auto
    moreover have "inj_on hk_seq_num (set ?ks)" using key by (metis inj_onI)
    ultimately show ?thesis
      using new_entries [of hc ?ks guid ?d ?st "[]"] bm_wf_distinct [OF hc_invD(1) [OF assms(1)]]
      by auto
  qed simp
  then obtain m where m: "rfold (new_entry guid ?d ?st hc) ?ks [] = Inr m" "bm_wf m"
    "\<And>k. k \<in> set ?ks \<Longrightarrow> bm_get m (hk_seq_num k) =
      Some (ChangeForReader_new (hk_seq_num k) ?st (late_joiner_relevant guid ?d hc k))"
    "\<And>n. n \<notin> hk_seq_num ` set ?ks \<Longrightarrow> bm_get m n = None"
    by blast
  have entry: "bm_get m n = (if HCKey g n \<in> set ?ks
       then Some (ChangeForReader_new n ?st (late_joiner_relevant guid ?d hc (HCKey g n)))
       else None)" for n
    using m(3) [of "HCKey g n"] m(4) [of n] key by fastforce
  then have "list_all (\<lambda>(n, e). cfr_seq_num e = n \<and> n \<le> i64_max) m"
    using m(2) assms(2) by (fastforce simp: list_all_bm_get split: if_splits)
  then show ?thesis
    using len m(1,2) entry by (simp add: ReaderProxy_new_def rp_wf_def rp_entry_def Let_def)
qed

section \<open>Properties\<close>

definition ex_reader_qos :: DataReaderQosPolicies where
  "ex_reader_qos = datareader_build DataReaderQosBuilder_new"

definition ex_writer_qos :: DataWriterQosPolicies where
  "ex_writer_qos = datawriter_build DataWriterQosBuilder_new"

definition ex_reader_guid :: GUID where
  "ex_reader_guid = GUID (replicate 12 2) (EntityId (0, 0, 2) READER_NO_KEY_USER_DEFIND)"

definition ex_reader_proxy :: "(SequenceNumber, ChangeForReader) btree_map \<Rightarrow> ReaderProxy" where
  "ex_reader_proxy cs = \<lparr>remote_reader_guid = ex_reader_guid, expects_inline_qos = False,
     rp_unicast_locator_list = [Locator_INVALID], rp_multicast_locator_list = [],
     rp_default_unicast_locator_list = [], rp_default_multicast_locator_list = [],
     rp_qos = ex_reader_qos, rp_cache_state = cs\<rparr>"

definition ex_writer_proxy :: "(SequenceNumber, ChangeFromWriter) btree_map \<Rightarrow> WriterProxy" where
  "ex_writer_proxy cs = \<lparr>remote_writer_guid = ex_guid,
     wp_unicast_locator_list = [Locator_INVALID], wp_multicast_locator_list = [],
     wp_default_unicast_locator_list = [], wp_default_multicast_locator_list = [],
     data_max_size_serialized = 0, wp_qos = ex_writer_qos, wp_cache_state = cs\<rparr>"

text \<open>
  Acknowledgement: after a reader has acknowledged everything up to \<open>c\<close>, every change up to
  \<open>c\<close> counts as acknowledged for that reader, the state of later changes is untouched, no change
  is forgotten or invented, and relevance is preserved.
\<close>

theorem acknowledged_up_to:
  assumes "rp_wf p"
  shows "(\<forall>n \<le> c. is_acked n (acked_changes_set c p)) \<and>
    (\<forall>n > c. rp_entry (acked_changes_set c p) n = rp_entry p n) \<and>
    bm_keys (rp_cache_state (acked_changes_set c p)) = bm_keys (rp_cache_state p) \<and>
    (\<forall>n. map_option cfr_is_relevant (rp_entry (acked_changes_set c p) n) =
      map_option cfr_is_relevant (rp_entry p n))"
proof -
  note e = acked_changes_set_entry [OF assms]
  have "set (bm_keys (rp_cache_state (acked_changes_set c p))) = set (bm_keys (rp_cache_state p))"
  proof (rule set_eqI)
    fix n
    have "rp_entry (acked_changes_set c p) n = None \<longleftrightarrow> rp_entry p n = None" by (simp add: e)
    then show "n \<in> set (bm_keys (rp_cache_state (acked_changes_set c p))) \<longleftrightarrow>
        n \<in> set (bm_keys (rp_cache_state p))"
      by (simp add: rp_entry_def bm_get_None)
  qed
  then have "bm_keys (rp_cache_state (acked_changes_set c p)) = bm_keys (rp_cache_state p)"
    using rp_wfD(1) [OF assms] rp_wfD(1) [OF acked_changes_set_wf [OF assms]]
    by (intro bs_wf_unique) (auto simp: bm_wf_def)
  moreover have "is_acked n (acked_changes_set c p)" if "n \<le> c" for n
    using e [of c n] that by (auto simp: is_acked_def rp_entry_def split: option.splits)
  moreover have "map_option cfr_is_relevant (rp_entry (acked_changes_set c p) n) =
      map_option cfr_is_relevant (rp_entry p n)" for n
    unfolding e by (cases "rp_entry p n") simp_all
  ultimately show ?thesis by (simp add: e)
qed

theorem acknowledged_up_to_witness:
  "let p = ex_reader_proxy [(1, ChangeForReader_new 1 Unacknowledged True),
                            (2, ChangeForReader_new 2 Unacknowledged True)]
   in rp_wf p \<and> \<not> is_acked 1 p \<and> is_acked 1 (acked_changes_set 1 p) \<and>
      rp_entry (acked_changes_set 1 p) 2 = rp_entry p 2"
proof -
  let ?p = "ex_reader_proxy [(1, ChangeForReader_new 1 Unacknowledged True),
                            (2, ChangeForReader_new 2 Unacknowledged True)]"
  have wf: "rp_wf ?p"
    by (simp add: rp_wf_def ex_reader_proxy_def bm_wf_def bs_wf_def i64_max_def)
  moreover have "\<not> is_acked 1 ?p" by (simp add: is_acked_def ex_reader_proxy_def)
  ultimately show ?thesis using acknowledged_up_to [OF wf, of 1] by (simp add: Let_def)
qed

text \<open>
  The change sent next is the unsent one with the least sequence number, there is none exactly
  when nothing is unsent, and the same holds for the changes requested by a negative
  acknowledgement.
\<close>

theorem next_change_least:
  assumes "rp_wf p"
  shows "(case next_unsent_change p of
      None \<Rightarrow> \<forall>n e. rp_entry p n = Some e \<longrightarrow> cfr_status e \<noteq> Unsent
    | Some c \<Rightarrow> rp_entry p (cfr_seq_num c) = Some c \<and> cfr_status c = Unsent \<and>
        (\<forall>n e. rp_entry p n = Some e \<longrightarrow> cfr_status e = Unsent \<longrightarrow> cfr_seq_num c \<le> n)) \<and>
    (case next_requested_change p of
      None \<Rightarrow> \<forall>n e. rp_entry p n = Some e \<longrightarrow> cfr_status e \<noteq> Requested
    | Some c \<Rightarrow> rp_entry p (cfr_seq_num c) = Some c \<and> cfr_status c = Requested \<and>
        (\<forall>n e. rp_entry p n = Some e \<longrightarrow> cfr_status e = Requested \<longrightarrow> cfr_seq_num c \<le> n))"
proof -
  have first: "case xs of [] \<Rightarrow> \<forall>n e. rp_entry p n = Some e \<longrightarrow> cfr_status e \<noteq> st
    | c # _ \<Rightarrow> rp_entry p (cfr_seq_num c) = Some c \<and> cfr_status c = st \<and>
        (\<forall>n e. rp_entry p n = Some e \<longrightarrow> cfr_status e = st \<longrightarrow> cfr_seq_num c \<le> n)"
    if xs: "xs = filter (\<lambda>c. cfr_status c = st) (bm_values (rp_cache_state p))" for xs st
  proof -
    have wf: "bs_wf (map cfr_seq_num xs)"
      unfolding xs using status_list_wf [OF assms, of "\<lambda>s. s = st"] .
    have set: "c \<in> set xs \<longleftrightarrow> rp_entry p (cfr_seq_num c) = Some c \<and> cfr_status c = st" for c
      unfolding xs using status_list_set [OF assms, of _ "\<lambda>s. s = st"] by simp
    have key: "rp_entry p n = Some e \<Longrightarrow> cfr_seq_num e = n" for n e
      using rp_wfD(2) [OF assms] by simp
    show ?thesis
    proof (cases xs)
      case Nil
      then show ?thesis using set key by fastforce
    next
      case (Cons c ys)
      have "cfr_seq_num c \<le> cfr_seq_num e" if "e \<in> set xs" for e
        using wf that Cons by (auto simp: bs_wf_Cons intro: less_imp_le)
      then show ?thesis using set key Cons by fastforce
    qed
  qed
  show ?thesis
    using first [OF unsent_changes_def] first [OF requested_changes_def]
    by (auto simp: next_unsent_change_first [OF assms] next_requested_change_first [OF assms]
        split: list.splits)
qed

theorem next_change_least_witness:
  "let p = ex_reader_proxy [(1, ChangeForReader_new 1 Acknowledged True),
             (2, ChangeForReader_new 2 Unsent True), (3, ChangeForReader_new 3 Unsent True)]
   in rp_wf p \<and> next_unsent_change p = Some (ChangeForReader_new 2 Unsent True) \<and>
      rp_entry p 2 = Some (ChangeForReader_new 2 Unsent True)"
proof -
  let ?p = "ex_reader_proxy [(1, ChangeForReader_new 1 Acknowledged True),
             (2, ChangeForReader_new 2 Unsent True), (3, ChangeForReader_new 3 Unsent True)]"
  have wf: "rp_wf ?p"
    by (simp add: rp_wf_def ex_reader_proxy_def bm_wf_def bs_wf_def i64_max_def)
  have next2: "next_unsent_change ?p = Some (ChangeForReader_new 2 Unsent True)"
    by (simp add: next_unsent_change_def unsent_changes_def ex_reader_proxy_def i64_max_def Let_def)
  have "rp_entry ?p 2 = Some (ChangeForReader_new 2 Unsent True)"
    using next_change_least [OF wf] by (simp add: next2)
  with wf next2 show ?thesis by (simp add: Let_def)
qed

text \<open>
  A heartbeat that announces the range from \<open>a\<close> to \<open>l\<close> classifies the changes of a writer proxy:
  changes of the range that the reader did not know become missing, earlier changes that were
  missing are given up as lost, and nothing else changes; in particular a received change is
  never requested again. The list of missing changes is then strictly increasing and consists
  of exactly the changes that are missing.
\<close>

theorem heartbeat_classifies:
  fixes a l :: SequenceNumber
  assumes "wp_wf p"
  defines "q \<equiv> lost_changes_update a (missing_changes_update a l p)"
  shows "wp_wf q \<and>
    (\<forall>n. wp_status q n =
      (if n < a \<and> wp_status p n \<in> {Some Missing, Some Uuknown} then Some Lost
       else if a \<le> n \<and> n \<le> l \<and> wp_status p n \<in> {None, Some Uuknown} then Some Missing
       else wp_status p n)) \<and>
    sorted_wrt (<) (missing_changes q) \<and>
    (\<forall>n. n \<in> set (missing_changes q) \<longleftrightarrow> wp_status q n = Some Missing)"
proof -
  note m = missing_changes_update_spec [OF assms(1), of a l]
  note lo = lost_changes_update_spec [OF m(1), of a]
  have wf: "wp_wf q" unfolding q_def by (rule lo(1))
  moreover have "wp_status q n =
      (if n < a \<and> wp_status p n \<in> {Some Missing, Some Uuknown} then Some Lost
       else if a \<le> n \<and> n \<le> l \<and> wp_status p n \<in> {None, Some Uuknown} then Some Missing
       else wp_status p n)" for n
    unfolding q_def lo(2) m(2) by auto
  ultimately show ?thesis
    using missing_changes_spec [OF wf] by (simp add: bs_wf_def)
qed

theorem heartbeat_classifies_witness:
  "let p = ex_writer_proxy [(1, ChangeFromWriter_new 1 Missing True),
                            (3, ChangeFromWriter_new 3 Received True)]
   in wp_wf p \<and>
      missing_changes (lost_changes_update 2 (missing_changes_update 2 4 p)) = [2, 4] \<and>
      wp_status (lost_changes_update 2 (missing_changes_update 2 4 p)) 1 = Some Lost"
proof -
  let ?p = "ex_writer_proxy [(1, ChangeFromWriter_new 1 Missing True),
                            (3, ChangeFromWriter_new 3 Received True)]"
  let ?q = "lost_changes_update 2 (missing_changes_update 2 4 ?p)"
  have wf: "wp_wf ?p" by (simp add: wp_wf_def ex_writer_proxy_def bm_wf_def bs_wf_def)
  note h = heartbeat_classifies [OF wf, of 2 4]
  have st: "wp_status ?p n = (if n = 1 then Some Missing else if n = 3 then Some Received else None)" for n
    by (simp add: wp_status_def wp_entry_def ex_writer_proxy_def)
  have "n \<in> set (missing_changes ?q) \<longleftrightarrow> n = 2 \<or> n = 4" for n
  proof -
    have "n \<in> set (missing_changes ?q) \<longleftrightarrow> wp_status ?q n = Some Missing" using h by blast
    also have "\<dots> \<longleftrightarrow> 2 \<le> n \<and> n \<le> 4 \<and> n \<noteq> 3" using h by (auto simp: st)
    finally show ?thesis by auto
  qed
  then have "set (missing_changes ?q) = {2, 4}" by auto
  moreover have "bs_wf (missing_changes ?q)" using h by (simp add: bs_wf_def)
  ultimately have "missing_changes ?q = [2, 4]"
    by (intro bs_wf_unique) (auto simp: bs_wf_def)
  with wf h show ?thesis unfolding Let_def st by simp
qed

text \<open>
  The proxy created for a late-joining reader lists every change of the writer's cache, and
  the changes that count as relevant for it are: none for a volatile reader, the change added
  last for a transient-local reader, and all of them for a transient-local built-in reader.
  Creating a proxy with no locator at all fails its assertion.
\<close>

theorem late_joiner_proxy:
  assumes "hc_inv hc" and "\<forall>k \<in> set (bm_keys (changes hc)). hk_guid k = g \<and> hk_seq_num k \<le> i64_max"
  shows "(uni @ multi @ duni @ dmulti = [] \<longrightarrow>
      ReaderProxy_new guid inl uni multi duni dmulti qos hc push = Inl AssertFailed) \<and>
    (uni @ multi @ duni @ dmulti \<noteq> [] \<longrightarrow>
      (\<exists>p. ReaderProxy_new guid inl uni multi duni dmulti qos hc push = Inr p \<and> rp_wf p \<and>
        (\<forall>n. is_acked n p \<longleftrightarrow> HCKey g n \<notin> set (bm_keys (changes hc)) \<or>
          \<not> (fst (dr_durability qos) = TransientLocal \<and>
             (is_builtin (entity_id guid) \<or> HCKey g n = last (ts2key hc))))))"
proof (intro conjI impI)
  assume "uni @ multi @ duni @ dmulti = []"
  then show "ReaderProxy_new guid inl uni multi duni dmulti qos hc push = Inl AssertFailed"
    by (simp add: ReaderProxy_new_def)
next
  assume "uni @ multi @ duni @ dmulti \<noteq> []"
  from ReaderProxy_new_spec [OF assms this, of guid inl qos push] obtain p where
    p: "ReaderProxy_new guid inl uni multi duni dmulti qos hc push = Inr p" "rp_wf p"
    "\<And>n. rp_entry p n = (if HCKey g n \<in> set (bm_keys (changes hc))
       then Some (ChangeForReader_new n (if push then Unsent else Unacknowledged)
              (late_joiner_relevant guid (fst (dr_durability qos)) hc (HCKey g n))) else None)"
    by blast
  have "is_acked n p \<longleftrightarrow> HCKey g n \<notin> set (bm_keys (changes hc)) \<or>
      \<not> late_joiner_relevant guid (fst (dr_durability qos)) hc (HCKey g n)" for n
    using p(3) [of n] by (auto simp: is_acked_def rp_entry_def split: if_splits option.splits)
  with p(1,2) show "\<exists>p. ReaderProxy_new guid inl uni multi duni dmulti qos hc push = Inr p \<and> rp_wf p \<and>
        (\<forall>n. is_acked n p \<longleftrightarrow> HCKey g n \<notin> set (bm_keys (changes hc)) \<or>
          \<not> (fst (dr_durability qos) = TransientLocal \<and>
             (is_builtin (entity_id guid) \<or> HCKey g n = last (ts2key hc))))"
    by (auto simp: late_joiner_relevant_def)
qed

theorem late_joiner_proxy_witness:
  "\<exists>p. ReaderProxy_new ex_reader_guid False [Locator_INVALID] [] [] []
      (ex_reader_qos\<lparr>dr_durability := (TransientLocal, True)\<rparr>)
      (store_change (ex_change 1) (HistoryCache_new HCWriter)) True = Inr p \<and> \<not> is_acked 1 p"
proof -
  let ?hc = "store_change (ex_change 1) (HistoryCache_new HCWriter)"
  have inv: "hc_inv ?hc"
    by (intro store_change_inv hc_inv_new) (simp add: HistoryCache_new_def)
  have keys: "bm_keys (changes ?hc) = [HCKey ex_guid 1]" and ts: "ts2key ?hc = [HCKey ex_guid 1]"
    by (simp_all add: ex_change_def change_key_def HistoryCache_new_def)
  have "\<forall>k \<in> set (bm_keys (changes ?hc)). hk_guid k = ex_guid \<and> hk_seq_num k \<le> i64_max"
    unfolding keys by (simp add: i64_max_def)
  from late_joiner_proxy [OF inv this, of "[Locator_INVALID]" "[]" "[]" "[]" ex_reader_guid False
      "ex_reader_qos\<lparr>dr_durability := (TransientLocal, True)\<rparr>" True]
  show ?thesis unfolding keys ts by auto
qed

end
