(* ===== verification/Umber_Message.thy ===== *)
theory Umber_Message
  imports Umber_Cache
begin

text \<open>
  RTPS messages: \<^verbatim>\<open>src/message/{message_header,message_builder,submessage}.rs\<close>,
  \<^verbatim>\<open>src/message/submessage/{submessage_flag,submessage_header}.rs\<close> and the submessages of
  \<^verbatim>\<open>src/message/submessage/element/\<close>.

  A \<^verbatim>\<open>BitFlags\<close> value is its byte; \<open>flag_contains\<close> is the bit test. Messages are values here; their
  byte encoding is the subject of \<^verbatim>\<open>Umber_Wire\<close>. The validity tests of the
  submessages are those that the receiver applies before it acts on them; the test of a
  heartbeat may panic and returns a \<open>bool res\<close>.
\<close>

section \<open>Flags\<close>

definition flag_contains :: "u8 \<Rightarrow> u8 \<Rightarrow> bool" where
  "flag_contains flags flag \<longleftrightarrow> flags AND flag = flag"

definition AckNackFlag_Final :: u8 where "AckNackFlag_Final = 0b10"
definition DataFlag_InlineQos :: u8 where "DataFlag_InlineQos = 0b00010"
definition DataFlag_Data :: u8 where "DataFlag_Data = 0b00100"
definition DataFlag_Key :: u8 where "DataFlag_Key = 0b01000"
definition DataFlag_NonStandardPayload :: u8 where "DataFlag_NonStandardPayload = 0b10000"
definition GapFlag_GroupInfo :: u8 where "GapFlag_GroupInfo = 0b10"
definition HeartbeatFlag_Final :: u8 where "HeartbeatFlag_Final = 0b0010"
definition HeartbeatFlag_Liveliness :: u8 where "HeartbeatFlag_Liveliness = 0b0100"
definition HeartbeatFlag_GroupInfo :: u8 where "HeartbeatFlag_GroupInfo = 0b1000"
definition InfoReplyFlag_Multicast :: u8 where "InfoReplyFlag_Multicast = 0b10"
definition InfoReplyIp4Flag_Multicast :: u8 where "InfoReplyIp4Flag_Multicast = 0b10"
definition InfoTimestampFlag_Invalidate :: u8 where "InfoTimestampFlag_Invalidate = 0b10"

lemmas flag_defs = AckNackFlag_Final_def DataFlag_InlineQos_def DataFlag_Data_def DataFlag_Key_def
  DataFlag_NonStandardPayload_def GapFlag_GroupInfo_def HeartbeatFlag_Final_def
  HeartbeatFlag_Liveliness_def HeartbeatFlag_GroupInfo_def InfoReplyFlag_Multicast_def
  InfoReplyIp4Flag_Multicast_def InfoTimestampFlag_Invalidate_def

text \<open>The macro \<^verbatim>\<open>from_enndianness!\<close>: in every flag type the endianness is bit 0.\<close>

definition from_enndianness :: "Endianness \<Rightarrow> u8" where
  "from_enndianness endiann = (if endiann = LittleEndian then 1 else 0)"

section \<open>Submessages\<close>

record Parameter =
  parameter_id :: u16
  parameter_value :: "u8 list"

type_synonym ParameterList = "Parameter list"

record AckNack =
  an_reader_id :: EntityId
  an_writer_id :: EntityId
  reader_sn_state :: SequenceNumberSet
  an_count :: int

record Data =
  data_reader_id :: EntityId
  data_writer_id :: EntityId
  writer_sn :: SequenceNumber
  inline_qos :: "ParameterList option"
  serialized_payload :: "SerializedPayload option"

record DataFrag =
  df_reader_id :: EntityId
  df_writer_id :: EntityId
  df_writer_sn :: SequenceNumber
  fragment_starting_num :: int
  fragments_in_submessage :: int
  data_size :: int
  fragment_size :: int
  df_inline_qos :: "ParameterList option"
  df_serialized_payload :: SerializedPayload

record Gap =
  gap_reader_id :: EntityId
  gap_writer_id :: EntityId
  gap_start :: SequenceNumber
  gap_list :: SequenceNumberSet
  gap_start_gsn :: "SequenceNumber option"
  gap_end_gsn :: "SequenceNumber option"

record Heartbeat =
  hb_reader_id :: EntityId
  hb_writer_id :: EntityId
  first_sn :: SequenceNumber
  last_sn :: SequenceNumber
  hb_count :: int
  current_gsn :: "SequenceNumber option"
  first_gsn :: "SequenceNumber option"
  last_gsn :: "SequenceNumber option"
  writer_set :: "u8 list option"
  secure_writer_set :: "u8 list option"

record HeartbeatFrag =
  hbf_reader_id :: EntityId
  hbf_writer_id :: EntityId
  hbf_writer_sn :: SequenceNumber
  last_fragment_num :: int
  hbf_count :: int

record NackFrag =
  nf_reader_id :: EntityId
  nf_writer_id :: EntityId
  nf_writer_sn :: SequenceNumber
  fragment_number_state :: FragmentNumberSet
  nf_count :: int

record InfoSource =
  is_unused :: int
  is_protocol_version :: "u8 \<times> u8"
  is_vendor_id :: "u8 list"
  is_guid_prefix :: GuidPrefix

record InfoReply =
  ir_unicast_locator_list :: "Locator list"
  ir_multicast_locator_list :: "Locator list option"

datatype EntitySubmessage =
    ES_Data Data u8
  | ES_DataFrag DataFrag u8
  | ES_HeartBeat Heartbeat u8
  | ES_HeartbeatFrag HeartbeatFrag u8
  | ES_Gap Gap u8
  | ES_AckNack AckNack u8
  | ES_NackFrag NackFrag u8

datatype InterpreterSubmessage =
    IS_InfoSource InfoSource u8
  | IS_InfoDestination GuidPrefix u8
  | IS_InfoTimestamp "Timestamp option" u8
  | IS_InfoReply InfoReply u8
  | IS_InfoReplyIp4 InfoReply u8

datatype SubMessageBody = Entity EntitySubmessage | Interpreter InterpreterSubmessage

datatype SubMessageKind =
    PAD | ACKNACK | HEARTBEAT | GAP | INFO_TS | INFO_SRC | INFO_REPLY_IP4 | INFO_DST | INFO_REPLY
  | NACK_FRAG | HEARTBEAT_FRAG | DATA | DATA_FRAG | UNKNOWN_RTPS | VENDORSPECIFIC

fun submessage_kind_id :: "SubMessageKind \<Rightarrow> u8" where
  "submessage_kind_id PAD = 0x01"
| "submessage_kind_id ACKNACK = 0x06"
| "submessage_kind_id HEARTBEAT = 0x07"
| "submessage_kind_id GAP = 0x08"
| "submessage_kind_id INFO_TS = 0x09"
| "submessage_kind_id INFO_SRC = 0x0c"
| "submessage_kind_id INFO_REPLY_IP4 = 0x0d"
| "submessage_kind_id INFO_DST = 0x0e"
| "submessage_kind_id INFO_REPLY = 0x0f"
| "submessage_kind_id NACK_FRAG = 0x12"
| "submessage_kind_id HEARTBEAT_FRAG = 0x13"
| "submessage_kind_id DATA = 0x15"
| "submessage_kind_id DATA_FRAG = 0x16"
| "submessage_kind_id UNKNOWN_RTPS = 0x17"
| "submessage_kind_id VENDORSPECIFIC = 0x18"

record SubMessageHeader =
  submessage_id :: u8
  sub_flags :: u8
  submessage_length :: int

definition get_endian :: "SubMessageHeader \<Rightarrow> Endianness" where
  "get_endian h = (if sub_flags h AND 0x01 = 0 then BigEndian else LittleEndian)"

definition get_submessagekind :: "SubMessageHeader \<Rightarrow> SubMessageKind" where
  "get_submessagekind h =
     (let i = submessage_id h in
      if i = 0x01 then PAD else if i = 0x06 then ACKNACK else if i = 0x07 then HEARTBEAT
      else if i = 0x08 then GAP else if i = 0x09 then INFO_TS else if i = 0x0c then INFO_SRC
      else if i = 0x0d then INFO_REPLY_IP4 else if i = 0x0e then INFO_DST
      else if i = 0x0f then INFO_REPLY else if i = 0x12 then NACK_FRAG
      else if i = 0x13 then HEARTBEAT_FRAG else if i = 0x15 then DATA
      else if i = 0x16 then DATA_FRAG else if i \<le> 0x7f then UNKNOWN_RTPS else VENDORSPECIFIC)"

record SubMessage =
  sub_header :: SubMessageHeader
  sub_body :: SubMessageBody

record Header =
  protocol :: "u8 list"
  version :: "u8 \<times> u8"
  vendor_id :: "u8 list"
  header_guid_prefix :: GuidPrefix

record Message =
  header :: Header
  submessages :: "SubMessage list"

definition PROTOCOLVERSION :: "u8 \<times> u8" where "PROTOCOLVERSION = (2, 3)"

definition Header_new :: "GuidPrefix \<Rightarrow> Header" where
  "Header_new prefix =
     \<lparr>protocol = [0x52, 0x54, 0x50, 0x53], version = PROTOCOLVERSION,
      vendor_id = vendor_THIS_IMPLEMENTATION, header_guid_prefix = prefix\<rparr>"

section \<open>The builder\<close>

type_synonym MessageBuilder = "SubMessage list"

definition sub_message :: "SubMessageKind \<Rightarrow> u8 \<Rightarrow> int \<Rightarrow> SubMessageBody \<Rightarrow> SubMessage" where
  "sub_message kind flags len body =
     \<lparr>sub_header = \<lparr>submessage_id = submessage_kind_id kind, sub_flags = flags,
                    submessage_length = len\<rparr>, sub_body = body\<rparr>"

definition mb_info_ts :: "Endianness \<Rightarrow> Timestamp option \<Rightarrow> MessageBuilder \<Rightarrow> MessageBuilder" where
  "mb_info_ts endiannes time_stamp b =
     (let flag = from_enndianness endiannes;
          (ts, ts_flag) = (case time_stamp of
                             Some t \<Rightarrow> (t, flag)
                           | None \<Rightarrow> (TIME_INVALID, flag OR InfoTimestampFlag_Invalidate))
      in b @ [sub_message INFO_TS ts_flag 8 (Interpreter (IS_InfoTimestamp (Some ts) ts_flag))])"

definition mb_info_dst :: "Endianness \<Rightarrow> GuidPrefix \<Rightarrow> MessageBuilder \<Rightarrow> MessageBuilder" where
  "mb_info_dst endiannes destination b =
     (let dst_flag = from_enndianness endiannes
      in b @ [sub_message INFO_DST dst_flag 12
                (Interpreter (IS_InfoDestination destination dst_flag))])"

text \<open>The lengths of the submessages with a bitmap are computed in \<^verbatim>\<open>u16\<close>.\<close>

definition mb_acknack :: "Endianness \<Rightarrow> EntityId \<Rightarrow> EntityId \<Rightarrow> SequenceNumberSet \<Rightarrow> int \<Rightarrow> bool
    \<Rightarrow> MessageBuilder \<Rightarrow> MessageBuilder res" where
  "mb_acknack endiannes writer_id reader_id sn_state count is_final b =
     rbind (sns_size sn_state) (\<lambda>sz. rbind (u16_checked (12 + sz)) (\<lambda>len.
       let acknack = \<lparr>an_reader_id = reader_id, an_writer_id = writer_id,
                      reader_sn_state = sn_state, an_count = count\<rparr>;
           flag = (if is_final then from_enndianness endiannes OR AckNackFlag_Final
                   else from_enndianness endiannes)
       in Inr (b @ [sub_message ACKNACK flag len (Entity (ES_AckNack acknack flag))])))"

definition mb_heartbeat :: "Endianness \<Rightarrow> bool \<Rightarrow> EntityId \<Rightarrow> EntityId \<Rightarrow> SequenceNumber
    \<Rightarrow> SequenceNumber \<Rightarrow> int \<Rightarrow> bool \<Rightarrow> MessageBuilder \<Rightarrow> MessageBuilder" where
  "mb_heartbeat endiannes liveliness writer_id reader_id fsn lsn count is_final b =
     (let hb = \<lparr>hb_reader_id = reader_id, hb_writer_id = writer_id, first_sn = fsn, last_sn = lsn,
                hb_count = count, current_gsn = None, first_gsn = None, last_gsn = None,
                writer_set = None, secure_writer_set = None\<rparr>;
          flag = from_enndianness endiannes;
          flag = (if is_final then flag OR HeartbeatFlag_Final else flag);
          flag = (if liveliness then flag OR HeartbeatFlag_Liveliness else flag)
      in b @ [sub_message HEARTBEAT flag 28 (Entity (ES_HeartBeat hb flag))])"

definition mb_data :: "Endianness \<Rightarrow> EntityId \<Rightarrow> EntityId \<Rightarrow> CacheChange \<Rightarrow> MessageBuilder
    \<Rightarrow> MessageBuilder" where
  "mb_data endiannes writer_id reader_id cache_change b =
     (let (flag, payload_length) =
            (case data_value cache_change of
               Some payload \<Rightarrow> (from_enndianness endiannes OR DataFlag_Data,
                                 4 + int (length (payload_value payload)))
             | None \<Rightarrow> (from_enndianness endiannes, 0));
          data = \<lparr>data_reader_id = reader_id, data_writer_id = writer_id,
                  writer_sn = sequence_number cache_change, inline_qos = None,
                  serialized_payload = data_value cache_change\<rparr>
      in b @ [sub_message DATA flag (wrap_u 16 (2 + 2 + 4 + 4 + 8 + 0 + payload_length))
                (Entity (ES_Data data flag))])"

definition mb_gap :: "Endianness \<Rightarrow> EntityId \<Rightarrow> EntityId \<Rightarrow> SequenceNumber \<Rightarrow> SequenceNumberSet
    \<Rightarrow> MessageBuilder \<Rightarrow> MessageBuilder res" where
  "mb_gap endiannes writer_id reader_id start lst b =
     rbind (sns_size lst) (\<lambda>sz. rbind (u16_checked (16 + sz)) (\<lambda>len.
       let gap = \<lparr>gap_reader_id = reader_id, gap_writer_id = writer_id, gap_start = start,
                  gap_list = lst, gap_start_gsn = None, gap_end_gsn = None\<rparr>;
           flag = from_enndianness endiannes
       in Inr (b @ [sub_message GAP flag len (Entity (ES_Gap gap flag))])))"

definition mb_build :: "GuidPrefix \<Rightarrow> MessageBuilder \<Rightarrow> Message" where
  "mb_build self_guid_prefix b = \<lparr>header = Header_new self_guid_prefix, submessages = b\<rparr>"

section \<open>Validity\<close>

definition acknack_is_valid :: "AckNack \<Rightarrow> bool" where
  "acknack_is_valid a \<longleftrightarrow> sns_is_valid (reader_sn_state a)"

definition gap_is_valid :: "u8 \<Rightarrow> Gap \<Rightarrow> bool res" where
  "gap_is_valid flag g =
     (if gap_start g \<le> 0 then Inr False
      else if \<not> sns_is_valid (gap_list g) then Inr False
      else if flag_contains flag GapFlag_GroupInfo then
        (case gap_start_gsn g of
           None \<Rightarrow> Inr False
         | Some gs \<Rightarrow>
             if gs \<le> 0 then Inr False
             else
               (case gap_end_gsn g of
                  None \<Rightarrow> Inr False
                | Some ge \<Rightarrow>
                    if ge \<le> 0 then Inr False
                    else rbind (i64_sub gs 1) (\<lambda>gs1. Inr (\<not> ge < gs1))))
      else Inr True)"

definition unwrap :: "'a option \<Rightarrow> 'a res" where
  "unwrap v = (case v of Some x \<Rightarrow> Inr x | None \<Rightarrow> Inl UnwrapNone)"

definition heartbeat_is_valid :: "u8 \<Rightarrow> Heartbeat \<Rightarrow> bool res" where
  "heartbeat_is_valid flag h =
     (if first_sn h \<le> 0 then Inr False
      else if last_sn h < 0 then Inr False
      else rbind (i64_sub (first_sn h) 1) (\<lambda>fsn1.
        if last_sn h < fsn1 then Inr False
        else if flag_contains flag HeartbeatFlag_GroupInfo then
          rbind (unwrap (current_gsn h)) (\<lambda>cur.
          if cur \<le> 0 then Inr False
          else rbind (unwrap (first_gsn h)) (\<lambda>fst_gsn.
          if fst_gsn \<le> 0 then Inr False
          else rbind (unwrap (last_gsn h)) (\<lambda>lst_gsn.
          if lst_gsn < 0 then Inr False
          else rbind (i64_sub fst_gsn 1) (\<lambda>fst1.
          if lst_gsn < fst1 then Inr False
          else if cur < fst_gsn then Inr False
          else if cur < lst_gsn then Inr False
          else Inr True))))
        else Inr True))"

section \<open>Sending\<close>

text \<open>
  What \<^verbatim>\<open>send_msg_to_locator\<close> of a reader or a writer hands to the UDP sender: the four bytes
  of the address, the port cut to sixteen bits and the message. Other locator kinds are skipped.
\<close>

datatype net_out =
    ToMulticast "u8 list" int Message
  | ToUnicast "u8 list" int Message

definition send_msg_to_locator :: "Locator \<Rightarrow> Message \<Rightarrow> net_out list" where
  "send_msg_to_locator loc msg =
     (if loc_kind loc = KIND_UDPV4
      then let addr = loc_address loc;
               ip = [addr ! 12, addr ! 13, addr ! 14, addr ! 15];
               port = wrap_u 16 (loc_port loc)
           in if is_ipv4_multicast addr then [ToMulticast ip port msg] else [ToUnicast ip port msg]
      else [])"

fun net_message :: "net_out \<Rightarrow> Message" where
  "net_message (ToMulticast _ _ m) = m"
| "net_message (ToUnicast _ _ m) = m"

section \<open>Properties\<close>

lemma flag_final [simp]:
  "flag_contains (from_enndianness e) AckNackFlag_Final = False"
  "flag_contains (from_enndianness e OR AckNackFlag_Final) AckNackFlag_Final = True"
  by (cases e; simp add: flag_contains_def from_enndianness_def flag_defs)+

text \<open>
  The kind of a submessage is recovered from the identifier that the builder writes, for
  every kind that has one; identifiers that no kind has are classed as unknown below 0x80 and
  as vendor specific above.
\<close>

theorem submessage_kind_roundtrip:
  "(k \<noteq> UNKNOWN_RTPS \<and> k \<noteq> VENDORSPECIFIC \<longrightarrow>
     get_submessagekind \<lparr>submessage_id = submessage_kind_id k, sub_flags = f,
       submessage_length = n\<rparr> = k) \<and>
   (get_submessagekind h = VENDORSPECIFIC \<longleftrightarrow> 0x7f < submessage_id h)"
proof
  show "k \<noteq> UNKNOWN_RTPS \<and> k \<noteq> VENDORSPECIFIC \<longrightarrow>
     get_submessagekind \<lparr>submessage_id = submessage_kind_id k, sub_flags = f,
       submessage_length = n\<rparr> = k"
    by (cases k) (simp_all add: get_submessagekind_def)
  show "get_submessagekind h = VENDORSPECIFIC \<longleftrightarrow> 0x7f < submessage_id h"
    by (auto simp: get_submessagekind_def Let_def not_le)
qed

theorem submessage_kind_roundtrip_witness:
  "get_submessagekind \<lparr>submessage_id = submessage_kind_id GAP, sub_flags = 1,
     submessage_length = 28\<rparr> = GAP"
  using submessage_kind_roundtrip [of GAP 1 28 "\<lparr>submessage_id = 0x80, sub_flags = 0,
    submessage_length = 0\<rparr>"] by simp

text \<open>
  Validation of a heartbeat: without the group information flag it never panics for
  sequence numbers of the 64-bit range and accepts exactly the ranges with a positive first number and a
  last number not below the one before it; with the flag and without the group sequence
  numbers, which a peer may leave out, it panics.
\<close>

theorem heartbeat_validation:
  assumes "in_i64 (first_sn h)" and "in_i64 (last_sn h)"
  shows "(\<not> flag_contains f HeartbeatFlag_GroupInfo \<longrightarrow>
      heartbeat_is_valid f h =
        Inr (0 < first_sn h \<and> 0 \<le> last_sn h \<and> first_sn h \<le> last_sn h + 1)) \<and>
    (flag_contains f HeartbeatFlag_GroupInfo \<longrightarrow> current_gsn h = None \<longrightarrow>
      0 < first_sn h \<longrightarrow> first_sn h \<le> last_sn h \<longrightarrow>
      heartbeat_is_valid f h = Inl UnwrapNone)"
  using assms by (auto simp: heartbeat_is_valid_def i64_sub_def in_i64_def unwrap_def)

definition ex_heartbeat :: Heartbeat where
  "ex_heartbeat = \<lparr>hb_reader_id = eid_UNKNOW, hb_writer_id = entity_id ex_guid, first_sn = 1,
     last_sn = 3, hb_count = 0, current_gsn = None, first_gsn = None, last_gsn = None,
     writer_set = None, secure_writer_set = None\<rparr>"

theorem heartbeat_validation_witness:
  "in_i64 (first_sn ex_heartbeat) \<and> in_i64 (last_sn ex_heartbeat) \<and>
   heartbeat_is_valid 1 ex_heartbeat = Inr True \<and>
   heartbeat_is_valid 9 ex_heartbeat = Inl UnwrapNone"
proof -
  have h: "in_i64 (first_sn ex_heartbeat)" "in_i64 (last_sn ex_heartbeat)"
    by (simp_all add: in_i64_def ex_heartbeat_def)
  show ?thesis
    using h heartbeat_validation [OF h, of 1] heartbeat_validation [OF h, of 9]
    by (simp add: ex_heartbeat_def flag_contains_def flag_defs)
qed

end
