(* ===== verification/Umber_Writer.thy ===== *)
theory Umber_Writer
  imports Umber_Proxy Umber_Message
begin

text \<open>
  The RTPS writer: \<^verbatim>\<open>src/rtps/writer.rs\<close> and \<^verbatim>\<open>src/rtps/reader_locator.rs\<close>.

  \<open>Writer\<close> has the fields of the struct. The sending ends of its channels and its UDP sender are
  the lists of what has been sent over them, oldest first (\<open>writer_state_notifier\<close>,
  \<open>participant_msg_cmd_sender\<close>, \<open>udp_sender\<close>); the receiving end of the command channel is the
  list of commands given to \<open>handle_writer_cmd\<close>. The shared \<^verbatim>\<open>Arc<RwLock<HistoryCache>>\<close> is the field
  \<open>writer_cache\<close>: the handlers run under its lock. The clock is the argument \<open>now\<close>, one reading
  per handler. A handler that may panic returns a \<open>res\<close>.
\<close>

section \<open>State\<close>

datatype WriterTimer = TNack EntityId GUID | TDeadline EntityId CoreDuration

datatype AckNackState = Waiting | Repairing | MustRepair

record ReaderLocator =
  rl_locator :: Locator
  rl_requested_changes :: "CacheChange list"
  rl_unsent_changes :: "CacheChange list"
  rl_expects_inline_qos :: bool

record Topic =
  topic_name :: string
  type_desc :: string
  topic_qos :: TopicQosPolicies
  topic_kind :: TopicKind

record LivelinessLostStatus =
  ll_total_count :: int
  ll_total_count_change :: int
  ll_guid :: GUID

record PublicationMatchedStatus =
  pm_total_count :: int
  pm_total_count_change :: int
  pm_current_count :: int
  pm_current_count_change :: int
  pm_guid :: GUID

datatype DataWriterStatusChanged =
    LivelinessLost LivelinessLostStatus
  | OfferedDeadlineMissed
  | OfferedIncompatibleQos "policy_name list"
  | PublicationMatched PublicationMatchedStatus

datatype ParticipantMessageKind = ParticipantMessageKind (pmk_value: "u8 list")

definition PMK_UNKNOWN :: ParticipantMessageKind where
  "PMK_UNKNOWN = ParticipantMessageKind [0, 0, 0, 0]"
definition AUTOMATIC_LIVELINESS_UPDATE :: ParticipantMessageKind where
  "AUTOMATIC_LIVELINESS_UPDATE = ParticipantMessageKind [0, 0, 0, 1]"
definition MANUAL_LIVELINESS_UPDATE :: ParticipantMessageKind where
  "MANUAL_LIVELINESS_UPDATE = ParticipantMessageKind [0, 0, 0, 2]"

record ParticipantMessageData =
  pmd_guid_prefix :: GuidPrefix
  pmd_kind :: ParticipantMessageKind
  pmd_data :: "u8 list"

datatype ParticipantMessageCmd = SendData ParticipantMessageData

datatype WriterCmd = WriteData | AssertLiveliness

record Writer =
  w_guid :: GUID
  w_topic_kind :: TopicKind
  w_reliability_level :: ReliabilityQosKind
  w_unicast_locator_list :: "Locator list"
  w_multicast_locator_list :: "Locator list"
  push_mode :: bool
  w_heartbeat_period :: Duration
  w_nack_response_delay :: Duration
  w_nack_suppression_duration :: Duration
  writer_cache :: HistoryCache
  w_data_max_size_serialized :: int
  reader_locators :: "ReaderLocator list"
  matched_readers :: "(GUID, ReaderProxy) btree_map"
  total_matched_readers :: "GUID btree_set"
  w_topic :: Topic
  w_qos :: DataWriterQosPolicies
  w_endianness :: Endianness
  writer_state_notifier :: "DataWriterStatusChanged list"
  participant_msg_cmd_sender :: "ParticipantMessageCmd list"
  w_udp_sender :: "net_out list"
  hb_counter :: int
  an_state :: AckNackState
  w_unmatch_count :: int
  is_alive :: bool

record WriterIngredients =
  wi_guid :: GUID
  wi_reliability_level :: ReliabilityQosKind
  wi_unicast_locator_list :: "Locator list"
  wi_multicast_locator_list :: "Locator list"
  wi_push_mode :: bool
  wi_heartbeat_period :: Duration
  wi_nack_response_delay :: Duration
  wi_nack_suppression_duration :: Duration
  wi_data_max_size_serialized :: int
  wi_whc :: HistoryCache
  wi_topic :: Topic
  wi_qos :: DataWriterQosPolicies

text \<open>\<^verbatim>\<open>x += 1\<close> on an \<^verbatim>\<open>i32\<close>.\<close>

definition i32_inc :: "int \<Rightarrow> int res" where
  "i32_inc x = (if x + 1 < 2 ^ 31 then Inr (x + 1) else Inl ArithOverflow)"

definition deadline_timer :: "GUID \<Rightarrow> DataWriterQosPolicies \<Rightarrow> WriterTimer option" where
  "deadline_timer guid qos =
     (let period = deadline_period (fst (dw_deadline qos))
      in if period \<noteq> DURATION_INFINITE then Some (TDeadline (entity_id guid) (to_core period))
         else None)"

definition Writer_new :: "Timestamp option \<Rightarrow> WriterIngredients
    \<Rightarrow> (Writer \<times> WriterTimer option) res" where
  "Writer_new now wi =
     rbind (add_empty_change now (wi_guid wi) (wi_whc wi)) (\<lambda>cache.
       Inr (\<lparr>w_guid = wi_guid wi, w_topic_kind = topic_kind (wi_topic wi),
         w_reliability_level = wi_reliability_level wi,
         w_unicast_locator_list = wi_unicast_locator_list wi,
         w_multicast_locator_list = wi_multicast_locator_list wi, push_mode = wi_push_mode wi,
         w_heartbeat_period = wi_heartbeat_period wi,
         w_nack_response_delay = wi_nack_response_delay wi,
         w_nack_suppression_duration = wi_nack_suppression_duration wi, writer_cache = cache,
         w_data_max_size_serialized = wi_data_max_size_serialized wi, reader_locators = [],
         matched_readers = [], total_matched_readers = [], w_topic = wi_topic wi, w_qos = wi_qos wi,
         w_endianness = LittleEndian, writer_state_notifier = [], participant_msg_cmd_sender = [],
         w_udp_sender = [], hb_counter = 0, an_state = Waiting, w_unmatch_count = 0,
         is_alive = True\<rparr>, deadline_timer (wi_guid wi) (wi_qos wi)))"

definition w_is_reliable :: "Writer \<Rightarrow> bool" where
  "w_is_reliable w =
     (case w_reliability_level w of Reliable \<Rightarrow> True | BestEffort \<Rightarrow> False)"

definition reader_locator_add :: "ReaderLocator \<Rightarrow> Writer \<Rightarrow> Writer" where
  "reader_locator_add loc w = w\<lparr>reader_locators := reader_locators w @ [loc]\<rparr>"

definition reader_locator_remove :: "ReaderLocator \<Rightarrow> Writer \<Rightarrow> Writer" where
  "reader_locator_remove loc w = w\<lparr>reader_locators := remove1 loc (reader_locators w)\<rparr>"

definition unsent_changes_reset :: "Writer \<Rightarrow> Writer" where
  "unsent_changes_reset w =
     w\<lparr>reader_locators := map (\<lambda>rl. rl\<lparr>rl_unsent_changes := bm_values (changes (writer_cache w))\<rparr>)
         (reader_locators w)\<rparr>"

definition map_readers :: "(ReaderProxy \<Rightarrow> ReaderProxy) \<Rightarrow> Writer \<Rightarrow> Writer" where
  "map_readers f w = w\<lparr>matched_readers := map (\<lambda>(g, p). (g, f p)) (matched_readers w)\<rparr>"

definition notify_w :: "DataWriterStatusChanged \<Rightarrow> Writer \<Rightarrow> Writer" where
  "notify_w s w = w\<lparr>writer_state_notifier := writer_state_notifier w @ [s]\<rparr>"

definition is_acked_by_all :: "SequenceNumber \<Rightarrow> Writer \<Rightarrow> bool" where
  "is_acked_by_all seq_num w = list_all (is_acked seq_num) (bm_values (matched_readers w))"

definition is_acked_all_changes :: "Writer \<Rightarrow> bool" where
  "is_acked_all_changes w =
     list_all (\<lambda>key. is_acked_by_all (hk_seq_num key) w) (bm_keys (changes (writer_cache w)))"

section \<open>Locators of the destinations\<close>

definition get_unicast_ll_from_proxy :: "ReaderProxy \<Rightarrow> Locator list option" where
  "get_unicast_ll_from_proxy p =
     (let ll_u = rp_get_unicast_locator_list p in
      if ll_u = [] then
        let ll_m = rp_get_multicast_locator_list p
        in if ll_m = [] then None else Some ll_m
      else Some ll_u)"

definition get_multicast_ll_from_proxy :: "ReaderProxy \<Rightarrow> Locator list option" where
  "get_multicast_ll_from_proxy p =
     (let ll_m = rp_get_multicast_locator_list p in
      if ll_m = [] then
        let ll_u = rp_get_unicast_locator_list p
        in if ll_u = [] then None else Some ll_u
      else Some ll_m)"

text \<open>Which readers each locator reaches.\<close>

definition add_reader_at :: "GUID \<Rightarrow> Locator \<Rightarrow> (Locator, GUID btree_set) btree_map
    \<Rightarrow> (Locator, GUID btree_set) btree_map" where
  "add_reader_at guid l m =
     bm_insert l (bs_insert guid (case bm_get m l of Some s \<Rightarrow> s | None \<Rightarrow> [])) m"

definition locator_to_readers :: "(GUID \<times> Locator list) list
    \<Rightarrow> (Locator, GUID btree_set) btree_map" where
  "locator_to_readers reader_locs =
     fold (\<lambda>(guid, ll) m. fold (add_reader_at guid) ll m) reader_locs []"

definition min_message_cover :: "(GUID \<times> Locator list) list \<Rightarrow> (EntityId \<times> Locator) list" where
  "min_message_cover reader_locs =
     (let l2r = locator_to_readers reader_locs;
          shared = filter (\<lambda>(loc, rs). length rs > 1) l2r;
          covered = concat (map (\<lambda>(loc, rs). map (\<lambda>r. (r, loc)) rs) shared)
      in map (\<lambda>(loc, rs). (eid_UNKNOW, loc)) shared @
         concat (map (\<lambda>(reader, locs).
           map (\<lambda>loc. (entity_id reader, loc))
             (filter (\<lambda>loc. (reader, loc) \<notin> set covered) locs)) reader_locs))"

section \<open>Removing acknowledged changes\<close>

definition remove_acked_key :: "HCKey \<Rightarrow> Writer \<Rightarrow> Writer" where
  "remove_acked_key key w =
     map_readers (rp_remove_cache_state (hk_seq_num key))
       (w\<lparr>writer_cache := remove_change key False (writer_cache w)\<rparr>)"

definition remove_acked_changes :: "SequenceNumber \<Rightarrow> Writer \<Rightarrow> Writer res" where
  "remove_acked_changes base w =
     (if is_builtin (entity_id (w_guid w)) then Inr w
      else
        rbind (case fst (dw_durability (w_qos w)) of
                 Volatile \<Rightarrow> Inr base
               | TransientLocal \<Rightarrow> i64_sub base 1) (\<lambda>limit.
          let todo_remove = filter (\<lambda>key. hk_seq_num key \<le> limit \<and> is_acked_by_all (hk_seq_num key) w)
                (bm_keys (changes (writer_cache w)))
          in Inr (fold remove_acked_key todo_remove w)))"

section \<open>Sending changes\<close>

type_synonym send_map = "(SequenceNumber, (GUID \<times> Locator list) list) btree_map"

definition push_send :: "SequenceNumber \<Rightarrow> GUID \<times> Locator list \<Rightarrow> send_map \<Rightarrow> send_map" where
  "push_send n x m = bm_insert n ((case bm_get m n of Some v \<Rightarrow> v | None \<Rightarrow> []) @ [x]) m"

text \<open>Built-in endpoints prefer multicast, others unicast.\<close>

definition destination :: "GUID \<Rightarrow> ReaderProxy \<Rightarrow> Locator list option" where
  "destination self p =
     (if is_builtin (entity_id self) then get_multicast_ll_from_proxy p
      else get_unicast_ll_from_proxy p)"

text \<open>
  The loop \<^verbatim>\<open>while let Some(change) = reader_proxy.next_...()\<close> over one proxy. Every round takes one
  change out of the selected status, so \<open>rounds\<close>, the number of entries of the proxy, is enough.
\<close>

fun collect_changes :: "nat \<Rightarrow> (ReaderProxy \<Rightarrow> ChangeForReader option) \<Rightarrow> GUID \<Rightarrow> ReaderProxy
    \<Rightarrow> send_map \<times> send_map \<Rightarrow> (ReaderProxy \<times> send_map \<times> send_map) res" where
  "collect_changes 0 next self p acc =
     (case next p of None \<Rightarrow> Inr (p, acc) | Some c \<Rightarrow> Inl Diverges)"
| "collect_changes (Suc rounds) next self p (to_data, to_gap) =
     (case next p of
        None \<Rightarrow> Inr (p, to_data, to_gap)
      | Some c \<Rightarrow>
          let p' = rp_update_cache_state (cfr_seq_num c) (cfr_is_relevant c) Underway p in
          (case destination self p' of
             None \<Rightarrow> collect_changes rounds next self p' (to_data, to_gap)
           | Some ll \<Rightarrow>
               let x = (remote_reader_guid p', ll) in
               if cfr_is_relevant c
               then collect_changes rounds next self p' (push_send (cfr_seq_num c) x to_data, to_gap)
               else collect_changes rounds next self p' (to_data, push_send (cfr_seq_num c) x to_gap)))"

fun collect_all :: "GUID \<Rightarrow> (GUID, ReaderProxy) btree_map \<Rightarrow> send_map \<times> send_map
    \<Rightarrow> ((GUID, ReaderProxy) btree_map \<times> send_map \<times> send_map) res" where
  "collect_all self [] acc = Inr ([], acc)"
| "collect_all self ((g, p) # ps) acc =
     rbind (collect_changes (length (rp_cache_state p)) next_unsent_change self p acc)
       (\<lambda>(p', acc'). rbind (collect_all self ps acc') (\<lambda>(ps', acc''). Inr ((g, p') # ps', acc'')))"

definition data_message :: "Timestamp option \<Rightarrow> Writer \<Rightarrow> EntityId \<Rightarrow> CacheChange \<Rightarrow> Message" where
  "data_message now w reid change =
     mb_build (guid_prefix (w_guid w))
       (mb_data LittleEndian (entity_id (w_guid w)) reid change (mb_info_ts LittleEndian now []))"

definition heartbeat_message :: "Timestamp option \<Rightarrow> Writer \<Rightarrow> bool \<Rightarrow> EntityId \<Rightarrow> SequenceNumber
    \<Rightarrow> SequenceNumber \<Rightarrow> int \<Rightarrow> Message" where
  "heartbeat_message now w liveliness reid fsn lsn count =
     mb_build (guid_prefix (w_guid w))
       (mb_heartbeat (w_endianness w) liveliness (entity_id (w_guid w)) reid fsn lsn count False
         (mb_info_ts LittleEndian now []))"

definition gap_message :: "Writer \<Rightarrow> EntityId \<Rightarrow> SequenceNumber \<Rightarrow> Message res" where
  "gap_message w reid start =
     rbind (i64_add start 1) (\<lambda>base. rbind (sns_from_vec base []) (\<lambda>lst.
     rbind (mb_gap LittleEndian (entity_id (w_guid w)) reid start lst []) (\<lambda>b.
       Inr (mb_build (guid_prefix (w_guid w)) b))))"

definition emit :: "Locator \<Rightarrow> Message \<Rightarrow> Writer \<Rightarrow> Writer" where
  "emit loc msg w = w\<lparr>w_udp_sender := w_udp_sender w @ send_msg_to_locator loc msg\<rparr>"

definition emit_data :: "Timestamp option \<Rightarrow> CacheChange \<Rightarrow> (GUID \<times> Locator list) list \<Rightarrow> Writer \<Rightarrow> Writer" where
  "emit_data now change rls w =
     fold (\<lambda>(reid, loc) w. emit loc (data_message now w reid change) w) (min_message_cover rls) w"

definition drop_if_best_effort :: "SequenceNumber \<Rightarrow> Writer \<Rightarrow> Writer" where
  "drop_if_best_effort n w =
     (if \<not> w_is_reliable w
      then w\<lparr>writer_cache := remove_change (HCKey (w_guid w) n) False (writer_cache w)\<rparr> else w)"

definition send_data_step :: "Timestamp option \<Rightarrow> SequenceNumber \<times> (GUID \<times> Locator list) list
    \<Rightarrow> Writer \<Rightarrow> Writer res" where
  "send_data_step now nx w =
     (case get_change (w_guid w) (fst nx) (writer_cache w) of
        Some change \<Rightarrow> Inr (drop_if_best_effort (fst nx) (emit_data now change (snd nx) w))
      | None \<Rightarrow> Inl Unreachable)"

definition emit_gaps :: "SequenceNumber \<times> (GUID \<times> Locator list) list \<Rightarrow> Writer \<Rightarrow> Writer res" where
  "emit_gaps nx w =
     rfold (\<lambda>(reid, loc) w. rbind (gap_message w reid (fst nx)) (\<lambda>m. Inr (emit loc m w)))
       (min_message_cover (snd nx)) w"

definition send_gap_step :: "SequenceNumber \<times> (GUID \<times> Locator list) list \<Rightarrow> Writer \<Rightarrow> Writer res" where
  "send_gap_step nx w = rbind (emit_gaps nx w) (\<lambda>w'. Inr (drop_if_best_effort (fst nx) w'))"

text \<open>Relevance of the \<open>i\<close>-th newest unprocessed change.\<close>

definition relevant_by_history :: "DataWriterQosPolicies \<Rightarrow> nat \<Rightarrow> bool" where
  "relevant_by_history qos i =
     (let hdepth = nat (wrap_u 64 (history_depth (fst (dw_history qos)))) in
      case history_kind (fst (dw_history qos)) of
        KeepAll \<Rightarrow> True
      | KeepLast \<Rightarrow> (case fst (dw_durability qos) of
                        Volatile \<Rightarrow> i < hdepth
                      | TransientLocal \<Rightarrow> i \<le> hdepth))"

definition register_unprocessed :: "SequenceNumber list \<Rightarrow> Writer \<Rightarrow> Writer" where
  "register_unprocessed seq_nums w =
     fold (\<lambda>(i, n). map_readers (rp_update_cache_state n (relevant_by_history (w_qos w) i)
             (if push_mode w then Unsent else Unacknowledged)))
       (enumerate 0 (rev seq_nums)) w"

definition send_unsent :: "Timestamp option \<Rightarrow> Writer \<Rightarrow> Writer res" where
  "send_unsent now w =
     rbind (collect_all (w_guid w) (matched_readers w) ([], [])) (\<lambda>(ps, to_data, to_gap).
     rbind (rfold (send_data_step now) to_data (w\<lparr>matched_readers := ps\<rparr>)) (\<lambda>w1.
     rfold send_gap_step to_gap w1))"

definition handle_write_data_cmd :: "Timestamp option \<Rightarrow> Writer
    \<Rightarrow> (Writer \<times> WriterTimer option) res" where
  "handle_write_data_cmd now w0 =
     (let w = w0\<lparr>is_alive := True\<rparr> in
      rbind (get_unprocessed (writer_cache w)) (\<lambda>(cache, seq_nums).
        case seq_nums of
          [] \<Rightarrow> Inr (w\<lparr>writer_cache := cache\<rparr>, None)
        | oldest_unprocessed # _ \<Rightarrow>
            let w1 = register_unprocessed seq_nums (w\<lparr>writer_cache := cache\<rparr>) in
            rbind (if w_is_reliable w1 then remove_acked_changes oldest_unprocessed w1 else Inr w1) (\<lambda>w2.
            rbind (send_unsent now w2) (\<lambda>w3.
              Inr (w3, deadline_timer (w_guid w) (w_qos w))))))"

definition send_builtin_data_for_loc :: "Timestamp option \<Rightarrow> SerializedPayload \<Rightarrow> Locator list
    \<Rightarrow> Writer \<Rightarrow> Writer res" where
  "send_builtin_data_for_loc now builtin_data locs w =
     rbind (unwrap now) (\<lambda>time_stamp.
       let a_change = \<lparr>change_kind = Alive, writer_guid = w_guid w, sequence_number = 1,
                       timestamp = time_stamp, data_value = Some builtin_data,
                       instance_handle = InstantHandle\<rparr>;
           msg = data_message (Some time_stamp) w SPDP_BUILTIN_PARTICIPANT_DETECTOR a_change
       in Inr (fold (\<lambda>loc. emit loc msg) locs w))"

section \<open>Heartbeats\<close>

definition hb_destinations :: "Writer \<Rightarrow> (GUID \<times> Locator list) list" where
  "hb_destinations w =
     List.map_filter (\<lambda>p. map_option (\<lambda>ll. (remote_reader_guid p, ll)) (get_multicast_ll_from_proxy p))
       (bm_values (matched_readers w))"

definition emit_heartbeats :: "Timestamp option \<Rightarrow> bool \<Rightarrow> SequenceNumber \<Rightarrow> SequenceNumber \<Rightarrow> int
    \<Rightarrow> (GUID \<times> Locator list) list \<Rightarrow> Writer \<Rightarrow> Writer" where
  "emit_heartbeats now liveliness fsn lsn count rls w =
     fold (\<lambda>(reid, loc) w. emit loc (heartbeat_message now w liveliness reid fsn lsn count) w)
       (min_message_cover rls) w"

definition send_heart_beat :: "Timestamp option \<Rightarrow> bool \<Rightarrow> Writer \<Rightarrow> Writer res" where
  "send_heart_beat now liveliness w0 =
     (if \<not> liveliness \<and> is_acked_all_changes w0 then Inr w0
      else
        let w = (if liveliness then w0\<lparr>is_alive := True\<rparr> else w0) in
        rbind (remove_acked_changes (get_seq_num_max (writer_cache w)) w) (\<lambda>w1.
          let fsn = get_seq_num_min (writer_cache w1);
              lsn = get_seq_num_max (writer_cache w1)
          in if fsn \<le> 0 \<or> lsn < 0 \<or> lsn < fsn - 1 then Inr w1
             else rbind (i32_inc (hb_counter w1)) (\<lambda>c.
               Inr (emit_heartbeats now liveliness fsn lsn (c - 1) (hb_destinations w1)
                     (w1\<lparr>hb_counter := c\<rparr>)))))"

definition assert_liveliness_manually :: "Timestamp option \<Rightarrow> Writer \<Rightarrow> Writer res" where
  "assert_liveliness_manually now w = send_heart_beat now True (w\<lparr>is_alive := True\<rparr>)"

text \<open>\<^verbatim>\<open>Timestamp::now().expect(..) - *ts > ld.into()\<close>.\<close>

definition lease_expired :: "Timestamp option \<Rightarrow> Duration \<Rightarrow> Timestamp \<Rightarrow> bool res" where
  "lease_expired now ld ts =
     rbind (unwrap now) (\<lambda>t. Inr (core_less (to_core ld) (ts_sub t ts)))"

definition assert_liveliness :: "Timestamp option \<Rightarrow> Writer \<Rightarrow> Writer res" where
  "assert_liveliness now w0 =
     (let w = w0\<lparr>is_alive := True\<rparr>;
          ld = lease_duration (fst (dw_liveliness (w_qos w)))
      in if ld = DURATION_INFINITE then Inr w
         else
           (case get_last_added_ts (w_guid w) (writer_cache w) of
              None \<Rightarrow> Inl Unreachable
            | Some ts \<Rightarrow>
                rbind (lease_expired now ld ts) (\<lambda>expired.
                  Inr (if expired
                       then w\<lparr>participant_msg_cmd_sender := participant_msg_cmd_sender w @
                              [SendData \<lparr>pmd_guid_prefix = guid_prefix (w_guid w),
                                 pmd_kind = AUTOMATIC_LIVELINESS_UPDATE, pmd_data = []\<rparr>]\<rparr>
                       else w))))"

definition check_liveliness_w :: "Timestamp option \<Rightarrow> Writer \<Rightarrow> Writer res" where
  "check_liveliness_w now w =
     (if is_alive w then
        let ld = lease_duration (fst (dw_liveliness (w_qos w))) in
        if ld = DURATION_INFINITE then Inr w
        else
          (case get_last_added_ts (w_guid w) (writer_cache w) of
             None \<Rightarrow> Inr w
           | Some ts \<Rightarrow>
               rbind (lease_expired now ld ts) (\<lambda>expired.
                 if expired then
                   rbind (i32_inc (w_unmatch_count w)) (\<lambda>c.
                     Inr (notify_w (LivelinessLost \<lparr>ll_total_count = c, ll_total_count_change = 1,
                              ll_guid = w_guid w\<rparr>)
                            (w\<lparr>w_unmatch_count := c, is_alive := False\<rparr>)))
                 else Inr w))
      else Inr w)"

definition handle_writer_cmd :: "Timestamp option \<Rightarrow> WriterCmd list \<Rightarrow> Writer
    \<Rightarrow> (Writer \<times> WriterTimer list) res" where
  "handle_writer_cmd now cmds w =
     rfold (\<lambda>cmd (w, wtv).
       case cmd of
         WriteData \<Rightarrow> rbind (handle_write_data_cmd now w)
           (\<lambda>(w', wt). Inr (w', wtv @ (case wt of Some t \<Rightarrow> [t] | None \<Rightarrow> [])))
       | AssertLiveliness \<Rightarrow> rbind (assert_liveliness_manually now w) (\<lambda>w'. Inr (w', wtv)))
       cmds (w, [])"

section \<open>Negative acknowledgements\<close>

text \<open>A requested change is sent again, or a heartbeat says that it is gone.\<close>

definition resend_step :: "Timestamp option \<Rightarrow> SequenceNumber \<times> (GUID \<times> Locator list) list
    \<Rightarrow> Writer \<Rightarrow> Writer res" where
  "resend_step now nx w =
     (case get_change (w_guid w) (fst nx) (writer_cache w) of
        Some change \<Rightarrow> Inr (emit_data now change (snd nx) w)
      | None \<Rightarrow>
          rbind (i32_inc (hb_counter w)) (\<lambda>c.
            let w' = w\<lparr>hb_counter := c\<rparr> in
            if min_message_cover (snd nx) = [] then Inr w'
            else rbind (i64_add (fst nx) 1) (\<lambda>fsn.
              Inr (emit_heartbeats now False fsn (get_seq_num_max (writer_cache w')) (c - 1)
                    (snd nx) w'))))"

definition handle_nack_response_timeout :: "Timestamp option \<Rightarrow> GUID \<Rightarrow> Writer \<Rightarrow> Writer res" where
  "handle_nack_response_timeout now reader_guid w0 =
     (let w = w0\<lparr>an_state := Repairing\<rparr> in
      rbind (case bm_get (matched_readers w) reader_guid of
               Some p \<Rightarrow>
                 rbind (collect_changes (length (rp_cache_state p)) next_requested_change (w_guid w) p
                          ([], []))
                   (\<lambda>(p', acc). Inr (w\<lparr>matched_readers := bm_adjust reader_guid (\<lambda>_. p')
                                        (matched_readers w)\<rparr>, acc))
             | None \<Rightarrow> Inr (w, [], []))
        (\<lambda>(w1, to_data, to_gap).
           rbind (rfold (resend_step now) to_data w1) (\<lambda>w2.
           rbind (rfold emit_gaps to_gap w2) (\<lambda>w3.
             Inr (w3\<lparr>an_state := Waiting\<rparr>)))))"

definition handle_acknack :: "Timestamp option \<Rightarrow> AckNack \<Rightarrow> GUID \<Rightarrow> Writer
    \<Rightarrow> (Writer \<times> WriterTimer option) res" where
  "handle_acknack now acknack reader_guid w =
     (case bm_get (matched_readers w) reader_guid of
        None \<Rightarrow> Inr (w, None)
      | Some p \<Rightarrow>
          rbind (sns_set (reader_sn_state acknack)) (\<lambda>req_seq_num_set.
          rbind (i64_sub (bitmap_base (reader_sn_state acknack)) 1) (\<lambda>acked.
            let p' = requested_changes_set req_seq_num_set (acked_changes_set acked p);
                w1 = w\<lparr>matched_readers := bm_adjust reader_guid (\<lambda>_. p') (matched_readers w)\<rparr>
            in rbind (case an_state w1 of
                        Waiting \<Rightarrow>
                          if requested_changes p' \<noteq> [] then
                            if w_nack_response_delay w1 = DURATION_ZERO
                            then rbind (handle_nack_response_timeout now reader_guid w1)
                                   (\<lambda>w2. Inr (w2, None))
                            else Inr (w1\<lparr>an_state := MustRepair\<rparr>,
                                      Some (TNack (entity_id (w_guid w1)) reader_guid))
                          else Inr (w1, None)
                      | MustRepair \<Rightarrow> Inr (w1, None)
                      | Repairing \<Rightarrow> Inl Unreachable)
                 (\<lambda>(w2, wt). rbind (remove_acked_changes acked w2) (\<lambda>w3. Inr (w3, wt))))))"

section \<open>Matching\<close>

definition matched_reader_add_with_default_locator :: "GUID \<Rightarrow> bool \<Rightarrow> Locator list \<Rightarrow> Locator list
    \<Rightarrow> Locator list \<Rightarrow> Locator list \<Rightarrow> DataReaderQosPolicies \<Rightarrow> Writer \<Rightarrow> Writer res" where
  "matched_reader_add_with_default_locator guid inl uni multi duni dmulti qos w =
     (case bm_get (matched_readers w) guid of
        None \<Rightarrow>
          (case dw_is_compatible (w_qos w) qos of
             Inl e \<Rightarrow> Inr (notify_w (OfferedIncompatibleQos e) w)
           | Inr _ \<Rightarrow>
               rbind (ReaderProxy_new guid inl uni multi duni dmulti qos (writer_cache w) (push_mode w))
                 (\<lambda>p. let w' = w\<lparr>matched_readers := bm_insert guid p (matched_readers w),
                                 total_matched_readers := bs_insert guid (total_matched_readers w)\<rparr>
                      in Inr (notify_w (PublicationMatched
                           \<lparr>pm_total_count = wrap_s 32 (int (length (total_matched_readers w'))),
                            pm_total_count_change = 1,
                            pm_current_count = wrap_s 32 (int (length (matched_readers w'))),
                            pm_current_count_change = 1, pm_guid = guid\<rparr>) w')))
      | Some _ \<Rightarrow>
          Inr (w\<lparr>matched_readers := bm_adjust guid (\<lambda>p. p\<lparr>rp_qos := qos, expects_inline_qos := inl,
            rp_unicast_locator_list := uni, rp_multicast_locator_list := multi,
            rp_default_unicast_locator_list := duni,
            rp_default_multicast_locator_list := dmulti\<rparr>) (matched_readers w)\<rparr>))"

definition matched_reader_add :: "GUID \<Rightarrow> bool \<Rightarrow> Locator list \<Rightarrow> Locator list
    \<Rightarrow> DataReaderQosPolicies \<Rightarrow> Writer \<Rightarrow> Writer res" where
  "matched_reader_add guid inl uni multi qos w =
     matched_reader_add_with_default_locator guid inl uni multi [] [] qos w"

definition is_reader_match :: "string \<Rightarrow> string \<Rightarrow> Writer \<Rightarrow> bool" where
  "is_reader_match name data_type w \<longleftrightarrow>
     topic_name (w_topic w) = name \<and> type_desc (w_topic w) = data_type"

definition notify_offered_deadline_missed :: "Writer \<Rightarrow> Writer" where
  "notify_offered_deadline_missed w = notify_w OfferedDeadlineMissed w"

definition matched_reader_unmatch :: "GUID \<Rightarrow> Writer \<Rightarrow> Writer res" where
  "matched_reader_unmatch guid w =
     (if bm_contains guid (matched_readers w) then
        rbind (i32_inc (w_unmatch_count w)) (\<lambda>c.
          Inr (notify_w (LivelinessLost \<lparr>ll_total_count = c, ll_total_count_change = 1, ll_guid = guid\<rparr>)
            (w\<lparr>matched_readers := bm_remove guid (matched_readers w), w_unmatch_count := c\<rparr>)))
      else Inr w)"

definition matched_reader_remove :: "GUID \<Rightarrow> Writer \<Rightarrow> Writer" where
  "matched_reader_remove guid w =
     (let w' = w\<lparr>matched_readers := bm_remove guid (matched_readers w)\<rparr>
      in notify_w (PublicationMatched
           \<lparr>pm_total_count = wrap_s 32 (int (length (total_matched_readers w'))),
            pm_total_count_change = 0,
            pm_current_count = wrap_s 32 (int (length (matched_readers w'))),
            pm_current_count_change = - 1, pm_guid = guid\<rparr>) w')"

definition delete_reader_proxy :: "GuidPrefix \<Rightarrow> Writer \<Rightarrow> Writer" where
  "delete_reader_proxy prefix w =
     fold matched_reader_remove
       (filter (\<lambda>k. guid_prefix k = prefix) (bm_keys (matched_readers w))) w"

text \<open>
  \<^verbatim>\<open>CoreDuration::new(secs, nanos)\<close> carries whole seconds out of the nanoseconds; it panics when
  the seconds overflow.
\<close>

definition CoreDuration_new :: "int \<Rightarrow> int \<Rightarrow> CoreDuration res" where
  "CoreDuration_new secs nanos =
     (let s = secs + nanos div 1000000000
      in if s < 2 ^ 64 then Inr \<lparr>core_secs = s, core_nanos = nanos mod 1000000000\<rparr>
         else Inl ArithOverflow)"

definition heartbeat_period :: "Writer \<Rightarrow> CoreDuration res" where
  "heartbeat_period w =
     CoreDuration_new (wrap_u 64 (dur_seconds (w_heartbeat_period w)))
       (dur_fraction (w_heartbeat_period w))"

definition nack_response_delay :: "Writer \<Rightarrow> CoreDuration res" where
  "nack_response_delay w =
     CoreDuration_new (wrap_u 64 (dur_seconds (w_nack_response_delay w)))
       (dur_fraction (w_nack_response_delay w))"

section \<open>The cover of destinations\<close>

definition readers_at :: "(Locator, GUID btree_set) btree_map \<Rightarrow> Locator \<Rightarrow> GUID btree_set" where
  "readers_at m l = (case bm_get m l of Some s \<Rightarrow> s | None \<Rightarrow> [])"

lemma readers_at_add [simp]:
  "readers_at (add_reader_at g l m) l' = (if l' = l then bs_insert g (readers_at m l) else readers_at m l')"
  by (simp add: readers_at_def add_reader_at_def)

lemma fold_add_reader_at:
  "g' \<in> set (readers_at (fold (add_reader_at g) ll m) l) \<longleftrightarrow>
     g' \<in> set (readers_at m l) \<or> g' = g \<and> l \<in> set ll"
  by (induction ll arbitrary: m) auto

lemma fold_add_reader_at_wf:
  "(\<And>l. bs_wf (readers_at m l)) \<Longrightarrow> bs_wf (readers_at (fold (add_reader_at g) ll m) l)"
  by (induction ll arbitrary: m) auto

lemma fold_add_reader_at_bm: "bm_wf m \<Longrightarrow> bm_wf (fold (add_reader_at g) ll m)"
  by (induction ll arbitrary: m) (auto simp: add_reader_at_def)

lemma l2r_fold:
  "(\<And>l. bs_wf (readers_at m l)) \<Longrightarrow> bm_wf m \<Longrightarrow>
   bm_wf (fold (\<lambda>(guid, ll) m. fold (add_reader_at guid) ll m) rls m) \<and>
   (\<forall>l. bs_wf (readers_at (fold (\<lambda>(guid, ll) m. fold (add_reader_at guid) ll m) rls m) l)) \<and>
   (\<forall>g l. g \<in> set (readers_at (fold (\<lambda>(guid, ll) m. fold (add_reader_at guid) ll m) rls m) l) \<longleftrightarrow>
     g \<in> set (readers_at m l) \<or> (\<exists>ll. (g, ll) \<in> set rls \<and> l \<in> set ll))"
proof (induction rls arbitrary: m)
  case Nil
  then show ?case by simp
next
  case (Cons x rls)
  obtain guid ll where x: "x = (guid, ll)" by (cases x)
  let ?m = "fold (add_reader_at guid) ll m"
  have "bm_wf ?m" and "\<And>l. bs_wf (readers_at ?m l)"
    using Cons.prems by (auto simp: fold_add_reader_at_bm fold_add_reader_at_wf)
  from Cons.IH [OF this(2,1)] show ?case
    by (auto simp: x fold_add_reader_at)
qed

lemma l2r_spec:
  "bm_wf (locator_to_readers rls)"
  "bs_wf (readers_at (locator_to_readers rls) l)"
  "g \<in> set (readers_at (locator_to_readers rls) l) \<longleftrightarrow> (\<exists>ll. (g, ll) \<in> set rls \<and> l \<in> set ll)"
  using l2r_fold [of "[]" rls] by (auto simp: locator_to_readers_def readers_at_def)

definition shared_locator :: "(GUID \<times> Locator list) list \<Rightarrow> Locator \<Rightarrow> bool" where
  "shared_locator rls l \<longleftrightarrow> 1 < length (readers_at (locator_to_readers rls) l)"

lemma shared_in_l2r:
  "(l, rs) \<in> set (filter (\<lambda>(loc, rs). 1 < length rs) (locator_to_readers rls)) \<longleftrightarrow>
     shared_locator rls l \<and> rs = readers_at (locator_to_readers rls) l"
  using l2r_spec(1) [of rls]
  by (auto simp: shared_locator_def readers_at_def bm_get_in_set split: option.splits)

lemma shared_two_readers:
  "shared_locator rls l \<longleftrightarrow> (\<exists>g g' ll ll'. g \<noteq> g' \<and> (g, ll) \<in> set rls \<and> l \<in> set ll \<and>
     (g', ll') \<in> set rls \<and> l \<in> set ll')"
proof -
  let ?rs = "readers_at (locator_to_readers rls) l"
  have d: "distinct ?rs" by (rule bs_wf_distinct [OF l2r_spec(2)])
  have "1 < length ?rs \<longleftrightarrow> (\<exists>g g'. g \<noteq> g' \<and> g \<in> set ?rs \<and> g' \<in> set ?rs)"
    using d by (cases ?rs rule: remdups_adj.cases) auto
  then show ?thesis unfolding shared_locator_def l2r_spec(3) by blast
qed

lemma min_message_cover_alt:
  "min_message_cover rls =
     map (\<lambda>(loc, rs). (eid_UNKNOW, loc)) (filter (\<lambda>(loc, rs). 1 < length rs) (locator_to_readers rls)) @
     concat (map (\<lambda>(g, ll). map (\<lambda>l. (entity_id g, l)) (filter (\<lambda>l. \<not> shared_locator rls l) ll)) rls)"
proof -
  let ?sh = "filter (\<lambda>(loc, rs). 1 < length rs) (locator_to_readers rls)"
  define cov where "cov = set (concat (map (\<lambda>(loc, rs). map (\<lambda>r. (r, loc)) rs) ?sh))"
  have cov: "(g, l) \<in> cov \<longleftrightarrow> shared_locator rls l" if "(g, ll) \<in> set rls" "l \<in> set ll" for g l ll
  proof -
    have "(g, l) \<in> cov \<longleftrightarrow> (\<exists>rs. (l, rs) \<in> set ?sh \<and> g \<in> set rs)" unfolding cov_def by auto
    also have "\<dots> \<longleftrightarrow> shared_locator rls l"
      unfolding shared_in_l2r using that l2r_spec(3) [of g rls l] by auto
    finally show ?thesis .
  qed
  have "map (\<lambda>(g, ll). map (\<lambda>l. (entity_id g, l)) (filter (\<lambda>l. (g, l) \<notin> cov) ll)) rls =
      map (\<lambda>(g, ll). map (\<lambda>l. (entity_id g, l)) (filter (\<lambda>l. \<not> shared_locator rls l) ll)) rls"
    using cov by (auto intro!: filter_cong arg_cong [of _ _ "map _"])
  then have "concat (map (\<lambda>(g, ll). map (\<lambda>l. (entity_id g, l)) (filter (\<lambda>l. (g, l) \<notin> cov) ll)) rls) =
      concat (map (\<lambda>(g, ll). map (\<lambda>l. (entity_id g, l)) (filter (\<lambda>l. \<not> shared_locator rls l) ll)) rls)"
    by (rule arg_cong)
  then show ?thesis unfolding min_message_cover_def Let_def cov_def by (simp only:)
qed

lemma set_concat_pairs:
  "(e, l) \<in> set (concat (map (\<lambda>(g, ll). map (\<lambda>l. (h g, l)) (filter P ll)) rls)) \<longleftrightarrow>
     (\<exists>g ll. (g, ll) \<in> set rls \<and> l \<in> set ll \<and> P l \<and> e = h g)"
  by (induction rls) auto

lemma min_message_cover_iff:
  "(e, l) \<in> set (min_message_cover rls) \<longleftrightarrow>
     (if shared_locator rls l then e = eid_UNKNOW
      else \<exists>g ll. (g, ll) \<in> set rls \<and> l \<in> set ll \<and> e = entity_id g)"
proof -
  let ?sh = "filter (\<lambda>(loc, rs). 1 < length rs) (locator_to_readers rls)"
  have "(e, l) \<in> set (map (\<lambda>(loc, rs). (eid_UNKNOW, loc)) ?sh) \<longleftrightarrow>
      (\<exists>rs. (l, rs) \<in> set ?sh) \<and> e = eid_UNKNOW"
    by (force simp del: set_filter)
  also have "\<dots> \<longleftrightarrow> shared_locator rls l \<and> e = eid_UNKNOW"
    by (simp only: shared_in_l2r) simp
  finally have one: "(e, l) \<in> set (map (\<lambda>(loc, rs). (eid_UNKNOW, loc)) ?sh) \<longleftrightarrow>
      shared_locator rls l \<and> e = eid_UNKNOW" .
  have two: "(e, l) \<in> set (concat (map (\<lambda>(g, ll). map (\<lambda>l. (entity_id g, l))
        (filter (\<lambda>l. \<not> shared_locator rls l) ll)) rls)) \<longleftrightarrow>
      (\<exists>g ll. (g, ll) \<in> set rls \<and> l \<in> set ll \<and> \<not> shared_locator rls l \<and> e = entity_id g)"
    by (rule set_concat_pairs)
  show ?thesis
    unfolding min_message_cover_alt set_append Un_iff one two by auto
qed

lemma distinct_unshared:
  assumes "distinct (map fst rls)" and "\<forall>(g, ll) \<in> set rls. distinct ll"
    and "\<forall>(g, ll) \<in> set rls. \<forall>l \<in> set ll. P l \<longrightarrow> (\<forall>(g', ll') \<in> set rls. l \<in> set ll' \<longrightarrow> g' = g)"
  shows "distinct (concat (map (\<lambda>(g, ll). filter P ll) rls))"
  using assms
proof (induction rls)
  case Nil
  then show ?case by simp
next
  case (Cons x rls)
  obtain g ll where x: "x = (g, ll)" by (cases x)
  have "distinct (concat (map (\<lambda>(g, ll). filter P ll) rls))"
    using Cons.prems by (intro Cons.IH) (auto split: prod.splits)
  moreover have "g' \<noteq> g" if "(g', ll') \<in> set rls" for g' ll'
    using Cons.prems(1) that x by force
  ultimately show ?case using Cons.prems x by fastforce
qed

text \<open>
  C37. The cover of destinations: every locator of every reader gets a message that the reader
  accepts, addressed to it or to all readers; nothing is sent to a locator or reader that was
  not asked for; a message for all readers is used exactly at the locators that several readers
  share; and with distinct readers and locators each locator gets exactly one message.
\<close>

theorem min_message_cover_spec:
  "(\<forall>g ll l. (g, ll) \<in> set rls \<longrightarrow> l \<in> set ll \<longrightarrow>
      (entity_id g, l) \<in> set (min_message_cover rls) \<or> (eid_UNKNOW, l) \<in> set (min_message_cover rls)) \<and>
   (\<forall>e l. (e, l) \<in> set (min_message_cover rls) \<longrightarrow>
      (\<exists>g ll. (g, ll) \<in> set rls \<and> l \<in> set ll \<and> (e = entity_id g \<or>
        e = eid_UNKNOW \<and> (\<exists>g' ll'. g' \<noteq> g \<and> (g', ll') \<in> set rls \<and> l \<in> set ll')))) \<and>
   (distinct (map fst rls) \<longrightarrow> (\<forall>(g, ll) \<in> set rls. distinct ll) \<longrightarrow>
      distinct (map snd (min_message_cover rls)))"
proof (intro conjI)
  show "\<forall>g ll l. (g, ll) \<in> set rls \<longrightarrow> l \<in> set ll \<longrightarrow>
      (entity_id g, l) \<in> set (min_message_cover rls) \<or> (eid_UNKNOW, l) \<in> set (min_message_cover rls)"
    unfolding min_message_cover_iff by auto
  show "\<forall>e l. (e, l) \<in> set (min_message_cover rls) \<longrightarrow>
      (\<exists>g ll. (g, ll) \<in> set rls \<and> l \<in> set ll \<and> (e = entity_id g \<or>
        e = eid_UNKNOW \<and> (\<exists>g' ll'. g' \<noteq> g \<and> (g', ll') \<in> set rls \<and> l \<in> set ll')))"
  proof (intro allI impI)
    fix e l
    assume m: "(e, l) \<in> set (min_message_cover rls)"
    show "\<exists>g ll. (g, ll) \<in> set rls \<and> l \<in> set ll \<and> (e = entity_id g \<or>
        e = eid_UNKNOW \<and> (\<exists>g' ll'. g' \<noteq> g \<and> (g', ll') \<in> set rls \<and> l \<in> set ll'))"
    proof (cases "shared_locator rls l")
      case True
      then have "e = eid_UNKNOW" using m by (simp add: min_message_cover_iff)
      then show ?thesis using True unfolding shared_two_readers by blast
    next
      case False
      then show ?thesis using m by (auto simp: min_message_cover_iff)
    qed
  qed
  show "distinct (map fst rls) \<longrightarrow> (\<forall>(g, ll) \<in> set rls. distinct ll) \<longrightarrow>
      distinct (map snd (min_message_cover rls))"
  proof (intro impI)
    assume d: "distinct (map fst rls)" "\<forall>(g, ll) \<in> set rls. distinct ll"
    let ?sh = "filter (\<lambda>(loc, rs). 1 < length rs) (locator_to_readers rls)"
    let ?un = "concat (map (\<lambda>(g, ll). filter (\<lambda>l. \<not> shared_locator rls l) ll) rls)"
    have eq: "map snd (min_message_cover rls) = map fst ?sh @ ?un"
      unfolding min_message_cover_alt
      by (simp add: map_concat o_def case_prod_beta')
    have "distinct (map fst ?sh)"
      using bm_wf_distinct [OF bm_filter_wf [OF l2r_spec(1)]] .
    moreover have "distinct ?un"
    proof (rule distinct_unshared [OF d])
      have "g' = g" if "(g, ll) \<in> set rls" "l \<in> set ll" "\<not> shared_locator rls l"
        "(g', ll') \<in> set rls" "l \<in> set ll'" for g ll l g' ll'
        using that unfolding shared_two_readers by blast
      then show "\<forall>(g, ll) \<in> set rls. \<forall>l \<in> set ll. \<not> shared_locator rls l \<longrightarrow>
          (\<forall>(g', ll') \<in> set rls. l \<in> set ll' \<longrightarrow> g' = g)"
        by blast
    qed
    moreover have "l \<notin> set ?un" if "l \<in> set (map fst ?sh)" for l
    proof -
      from that obtain rs where "(l, rs) \<in> set ?sh" by auto
      then have "shared_locator rls l" unfolding shared_in_l2r by simp
      then show ?thesis by auto
    qed
    ultimately show "distinct (map snd (min_message_cover rls))"
      unfolding eq by (simp only: distinct_append) blast
  qed
qed

definition ex_locator :: "u8 \<Rightarrow> Locator" where
  "ex_locator b = Locator KIND_UDPV4 7411 (replicate 12 0 @ [192, 168, 0, b])"

definition ex_reader_guid2 :: GUID where
  "ex_reader_guid2 = GUID (replicate 12 3) (EntityId (0, 0, 3) READER_NO_KEY_USER_DEFIND)"

theorem min_message_cover_spec_witness:
  "distinct (map snd (min_message_cover
     [(ex_reader_guid, [ex_locator 1, ex_locator 2]), (ex_reader_guid2, [ex_locator 1])])) \<and>
   ((entity_id ex_reader_guid, ex_locator 2) \<in> set (min_message_cover
     [(ex_reader_guid, [ex_locator 1, ex_locator 2]), (ex_reader_guid2, [ex_locator 1])]) \<or>
    (eid_UNKNOW, ex_locator 2) \<in> set (min_message_cover
     [(ex_reader_guid, [ex_locator 1, ex_locator 2]), (ex_reader_guid2, [ex_locator 1])]))"
proof -
  have "ex_reader_guid \<noteq> ex_reader_guid2" "ex_locator 1 \<noteq> ex_locator 2"
    by (simp_all add: ex_reader_guid_def ex_reader_guid2_def ex_locator_def)
  then show ?thesis
    using min_message_cover_spec [of
      "[(ex_reader_guid, [ex_locator 1, ex_locator 2]), (ex_reader_guid2, [ex_locator 1])]"]
    by simp
qed

end
