(* ===== verification/Umber_WriterSend.thy ===== *)
theory Umber_WriterSend
  imports Umber_Writer
begin

text \<open>
  What the writer sends: the loops that drain the unsent and the requested changes of the reader
  proxies (\<open>collect_changes\<close>, \<open>collect_all\<close>), the messages that result, and the removal of
  acknowledged changes.
\<close>

section \<open>Draining a proxy\<close>

definition in_status :: "ChangeForReaderStatusKind \<Rightarrow> ReaderProxy \<Rightarrow> SequenceNumber set" where
  "in_status st p = {n. \<exists>e. rp_entry p n = Some e \<and> cfr_status e = st}"

lemma finite_in_status [simp]: "finite (in_status st p)"
proof (rule finite_subset)
  show "in_status st p \<subseteq> fst ` set (rp_cache_state p)"
    by (auto simp: in_status_def rp_entry_def dest: bm_get_Some_key)
qed simp

lemma card_in_status: "card (in_status st p) \<le> length (rp_cache_state p)"
proof -
  have "in_status st p \<subseteq> set (bm_keys (rp_cache_state p))"
    by (auto simp: in_status_def rp_entry_def dest: bm_get_Some_key)
  then have "card (in_status st p) \<le> card (set (bm_keys (rp_cache_state p)))"
    by (rule card_mono [rotated]) simp
  also have "\<dots> \<le> length (rp_cache_state p)"
    using card_length [of "bm_keys (rp_cache_state p)"] by simp
  finally show ?thesis .
qed

text \<open>The contract of the two searches: find a change in the given status whenever there is one.\<close>

definition selects_status ::
    "(ReaderProxy \<Rightarrow> ChangeForReader option) \<Rightarrow> ChangeForReaderStatusKind \<Rightarrow> bool" where
  "selects_status next st \<longleftrightarrow> (\<forall>p. rp_wf p \<longrightarrow>
     (case next p of
        None \<Rightarrow> in_status st p = {}
      | Some c \<Rightarrow> rp_entry p (cfr_seq_num c) = Some c \<and> cfr_status c = st))"

lemma first_selects:
  assumes "rp_wf p"
    and "xs = filter (\<lambda>c. cfr_status c = st) (bm_values (rp_cache_state p))"
  shows "case (case xs of [] \<Rightarrow> None | c # _ \<Rightarrow> Some c) of
      None \<Rightarrow> in_status st p = {}
    | Some c \<Rightarrow> rp_entry p (cfr_seq_num c) = Some c \<and> cfr_status c = st"
proof -
  have set: "c \<in> set xs \<longleftrightarrow> rp_entry p (cfr_seq_num c) = Some c \<and> cfr_status c = st" for c
    unfolding assms(2) using status_list_set [OF assms(1), of _ "\<lambda>s. s = st"] by simp
  show ?thesis
  proof (cases xs)
    case Nil
    then have "in_status st p = {}"
      using set rp_wfD(2) [OF assms(1)] by (fastforce simp: in_status_def)
    with Nil show ?thesis by simp
  next
    case (Cons c ys)
    then show ?thesis using set [of c] by simp
  qed
qed

lemma selects_unsent: "selects_status next_unsent_change Unsent"
  unfolding selects_status_def
  using first_selects [OF _ unsent_changes_def] by (simp add: next_unsent_change_first)

lemma selects_requested: "selects_status next_requested_change Requested"
  unfolding selects_status_def
  using first_selects [OF _ requested_changes_def] by (simp add: next_requested_change_first)

section \<open>The maps of what to send\<close>

definition sends :: "send_map \<Rightarrow> SequenceNumber \<Rightarrow> (GUID \<times> Locator list) set" where
  "sends m n = (case bm_get m n of Some v \<Rightarrow> set v | None \<Rightarrow> {})"

definition sm_wf :: "send_map \<Rightarrow> bool" where
  "sm_wf m \<longleftrightarrow> bm_wf m \<and> (\<forall>n v. bm_get m n = Some v \<longrightarrow> v \<noteq> [])"

lemma sm_wf_Nil [simp]: "sm_wf []" and sends_Nil [simp]: "sends [] n = {}"
  by (simp_all add: sm_wf_def sends_def)

lemma push_send_wf [simp]: "sm_wf m \<Longrightarrow> sm_wf (push_send n x m)"
  by (auto simp: sm_wf_def push_send_def)

lemma sends_push [simp]:
  "sends (push_send n x m) n' = (if n' = n then insert x (sends m n) else sends m n')"
  by (auto simp: sends_def push_send_def split: option.splits)

lemma sm_key: "sm_wf m \<Longrightarrow> (n, v) \<in> set m \<longleftrightarrow> bm_get m n = Some v"
  by (simp add: sm_wf_def bm_get_in_set)

lemma sm_sends: "sm_wf m \<Longrightarrow> (n, v) \<in> set m \<Longrightarrow> sends m n = set v \<and> v \<noteq> []"
  by (auto simp: sm_key sends_def) (auto simp: sm_wf_def)

definition to_send :: "GUID \<Rightarrow> ChangeForReaderStatusKind \<Rightarrow> bool \<Rightarrow> ReaderProxy \<Rightarrow> SequenceNumber
    \<Rightarrow> (GUID \<times> Locator list) set" where
  "to_send self st rel p n =
     {(remote_reader_guid p, ll) | ll e. rp_entry p n = Some e \<and> cfr_status e = st \<and>
        cfr_is_relevant e = rel \<and> destination self p = Some ll}"

definition underway :: "ChangeForReaderStatusKind \<Rightarrow> ChangeForReader option \<Rightarrow> ChangeForReader option" where
  "underway st = map_option (\<lambda>e. if cfr_status e = st then e\<lparr>cfr_status := Underway\<rparr> else e)"

text \<open>Two proxies that differ only in the state of their changes.\<close>

definition same_reader :: "ReaderProxy \<Rightarrow> ReaderProxy \<Rightarrow> bool" where
  "same_reader p q \<longleftrightarrow> q = p\<lparr>rp_cache_state := rp_cache_state q\<rparr>"

lemma same_reader_refl [simp]: "same_reader p p"
  by (simp add: same_reader_def)

lemma same_reader_trans: "same_reader p q \<Longrightarrow> same_reader q r \<Longrightarrow> same_reader p r"
  unfolding same_reader_def
  by (metis (no_types, lifting) ReaderProxy.fold_congs(8) ReaderProxy.simps(8) ReaderProxy.surjective ReaderProxy.update_convs(8))

lemma same_reader_put [simp]: "same_reader p (rp_put n e p)"
  by (simp add: same_reader_def rp_put_def)

lemma same_reader_frame:
  assumes "same_reader p q"
  shows "remote_reader_guid q = remote_reader_guid p" and "destination self q = destination self p"
    and "get_multicast_ll_from_proxy q = get_multicast_ll_from_proxy p"
proof -
  obtain cs where q: "q = p\<lparr>rp_cache_state := cs\<rparr>" using assms by (auto simp: same_reader_def)
  show "remote_reader_guid q = remote_reader_guid p" and "destination self q = destination self p"
    and "get_multicast_ll_from_proxy q = get_multicast_ll_from_proxy p"
    unfolding q destination_def get_unicast_ll_from_proxy_def get_multicast_ll_from_proxy_def
      rp_get_unicast_locator_list_def rp_get_multicast_locator_list_def Let_def by simp_all
qed

lemma none_in_status:
  assumes "in_status st p = {}"
  shows "underway st (rp_entry p n) = rp_entry p n" and "to_send self st r p n = {}"
  using assms by (cases "rp_entry p n"; auto simp: underway_def in_status_def to_send_def)+

lemma collect_changes_spec:
  assumes "rp_wf p" and "sm_wf d" and "sm_wf g" and "selects_status next st" and "st \<noteq> Underway"
    and "card (in_status st p) \<le> rounds"
  shows "\<exists>p' d' g'. collect_changes rounds next self p (d, g) = Inr (p', d', g') \<and>
    rp_wf p' \<and> same_reader p p' \<and> sm_wf d' \<and> sm_wf g' \<and>
    (\<forall>n. rp_entry p' n = underway st (rp_entry p n)) \<and>
    (\<forall>n. sends d' n = sends d n \<union> to_send self st True p n) \<and>
    (\<forall>n. sends g' n = sends g n \<union> to_send self st False p n)"
  using assms
proof (induction rounds arbitrary: p d g)
  case 0
  then have empty: "in_status st p = {}" by simp
  have "next p = None"
  proof (rule ccontr)
    assume "next p \<noteq> None"
    then obtain c where "next p = Some c" by blast
    then have "cfr_seq_num c \<in> in_status st p"
      using 0 by (force simp: selects_status_def in_status_def)
    with empty show False by simp
  qed
  moreover note none_in_status [OF empty]
  ultimately show ?case using 0 by (intro exI [of _ p] exI [of _ d] exI [of _ g]) simp
next
  case (Suc rounds)
  show ?case
  proof (cases "next p")
    case None
    then have empty: "in_status st p = {}" using Suc.prems by (auto simp: selects_status_def)
    note none_in_status [OF this]
    then show ?thesis using None Suc.prems by (intro exI [of _ p] exI [of _ d] exI [of _ g]) simp
  next
    case (Some c)
    let ?n = "cfr_seq_num c"
    let ?p = "rp_update_cache_state ?n (cfr_is_relevant c) Underway p"
    from Some Suc.prems have c: "rp_entry p ?n = Some c" "cfr_status c = st"
      by (auto simp: selects_status_def split: option.splits)
    have put: "?p = rp_put ?n (c\<lparr>cfr_status := Underway\<rparr>) p"
      by (cases c) (simp add: rp_update_put ChangeForReader_new_def)
    have wf: "rp_wf ?p"
      unfolding put using Suc.prems(1) rp_wfD(3) [OF Suc.prems(1) c(1)] by (intro rp.put_wf) auto
    have entry: "rp_entry ?p = (rp_entry p)(?n \<mapsto> c\<lparr>cfr_status := Underway\<rparr>)"
      unfolding put by (rule rp.entry_put)
    have "in_status st ?p = in_status st p - {?n}"
      using Suc.prems(5) by (auto simp: in_status_def entry)
    moreover have "?n \<in> in_status st p" using c by (simp add: in_status_def)
    ultimately have card: "card (in_status st ?p) \<le> rounds" using Suc.prems(6) by simp
    have dest: "destination self ?p = destination self p" and remote: "remote_reader_guid ?p = remote_reader_guid p"
      unfolding put by (simp_all add: same_reader_frame [OF same_reader_put])
    have under: "underway st (rp_entry ?p n) = underway st (rp_entry p n)" for n
      using c Suc.prems(5) by (auto simp: underway_def entry)
    have tosend: "to_send self st r p n = to_send self st r ?p n \<union>
        (if n = ?n \<and> cfr_is_relevant c = r
         then {(remote_reader_guid p, ll) | ll. destination self p = Some ll} else {})" for r n
      using c Suc.prems(5) by (auto simp: to_send_def entry dest remote)
    define d' where "d' = (case destination self p of
        Some ll \<Rightarrow> if cfr_is_relevant c then push_send ?n (remote_reader_guid p, ll) d else d | None \<Rightarrow> d)"
    define g' where "g' = (case destination self p of
        Some ll \<Rightarrow> if cfr_is_relevant c then g else push_send ?n (remote_reader_guid p, ll) g | None \<Rightarrow> g)"
    have wf': "sm_wf d'" "sm_wf g'"
      using Suc.prems(2,3) by (auto simp: d'_def g'_def split: option.splits)
    have sends': "sends d' n \<union> to_send self st True ?p n = sends d n \<union> to_send self st True p n"
      "sends g' n \<union> to_send self st False ?p n = sends g n \<union> to_send self st False p n" for n
      by (auto simp: tosend d'_def g'_def split: option.splits)
    have step: "collect_changes (Suc rounds) next self p (d, g) =
        collect_changes rounds next self ?p (d', g')"
      using Some by (auto simp: Let_def dest remote d'_def g'_def split: option.splits)
    from Suc.IH [OF wf wf' Suc.prems(4,5) card] obtain p'' d'' g'' where
      "collect_changes rounds next self ?p (d', g') = Inr (p'', d'', g'')" "rp_wf p''"
      "same_reader ?p p''" "sm_wf d''" "sm_wf g''"
      "\<forall>n. rp_entry p'' n = underway st (rp_entry ?p n)"
      "\<forall>n. sends d'' n = sends d' n \<union> to_send self st True ?p n"
      "\<forall>n. sends g'' n = sends g' n \<union> to_send self st False ?p n"
      by blast
    moreover have "same_reader p p''"
      using same_reader_trans [OF same_reader_put [of p ?n "c\<lparr>cfr_status := Underway\<rparr>"]]
        \<open>same_reader ?p p''\<close> put by simp
    ultimately show ?thesis unfolding step by (auto simp: under sends')
  qed
qed

section \<open>Draining all proxies\<close>

definition to_send_any :: "GUID \<Rightarrow> ChangeForReaderStatusKind \<Rightarrow> bool \<Rightarrow> (GUID, ReaderProxy) btree_map
    \<Rightarrow> SequenceNumber \<Rightarrow> (GUID \<times> Locator list) set" where
  "to_send_any self st rel ps n = (\<Union>(g, p) \<in> set ps. to_send self st rel p n)"

lemma collect_all_spec:
  assumes "\<forall>(g, p) \<in> set ps. rp_wf p" and "sm_wf d" and "sm_wf g"
  shows "\<exists>ps' d' g'. collect_all self ps (d, g) = Inr (ps', d', g') \<and>
    list_all2 (\<lambda>(k, p) (k', p'). k' = k \<and> rp_wf p' \<and> same_reader p p' \<and>
      (\<forall>n. rp_entry p' n = underway Unsent (rp_entry p n))) ps ps' \<and> sm_wf d' \<and> sm_wf g' \<and>
    (\<forall>n. sends d' n = sends d n \<union> to_send_any self Unsent True ps n) \<and>
    (\<forall>n. sends g' n = sends g n \<union> to_send_any self Unsent False ps n)"
  using assms
proof (induction ps arbitrary: d g)
  case Nil
  then show ?case by (simp add: to_send_any_def)
next
  case (Cons x ps)
  obtain k p where x: "x = (k, p)" by (cases x)
  from Cons.prems x have "rp_wf p" by simp
  from collect_changes_spec [OF this Cons.prems(2,3) selects_unsent _ card_in_status, of self]
  obtain p' d1 g1 where 1: "collect_changes (length (rp_cache_state p)) next_unsent_change self p (d, g) =
      Inr (p', d1, g1)" "rp_wf p'" "same_reader p p'" "sm_wf d1" "sm_wf g1"
    "\<forall>n. rp_entry p' n = underway Unsent (rp_entry p n)"
    "\<forall>n. sends d1 n = sends d n \<union> to_send self Unsent True p n"
    "\<forall>n. sends g1 n = sends g n \<union> to_send self Unsent False p n"
    by auto
  from Cons.IH [of d1 g1] Cons.prems 1 obtain ps' d2 g2 where
    2: "collect_all self ps (d1, g1) = Inr (ps', d2, g2)"
    "list_all2 (\<lambda>(k, p) (k', p'). k' = k \<and> rp_wf p' \<and> same_reader p p' \<and>
      (\<forall>n. rp_entry p' n = underway Unsent (rp_entry p n))) ps ps'" "sm_wf d2" "sm_wf g2"
    "\<forall>n. sends d2 n = sends d1 n \<union> to_send_any self Unsent True ps n"
    "\<forall>n. sends g2 n = sends g1 n \<union> to_send_any self Unsent False ps n"
    by auto
  have "collect_all self (x # ps) (d, g) = Inr ((k, p') # ps', d2, g2)"
    using 1(1) 2(1) x by simp
  then show ?case using 1 2 x by (auto simp: to_send_any_def)
qed

section \<open>The messages\<close>

text \<open>The writer apart from what it has put on the network.\<close>

definition quiet :: "Writer \<Rightarrow> Writer" where
  "quiet w = w\<lparr>w_udp_sender := []\<rparr>"

lemma quiet_emit [simp]: "quiet (emit loc m w) = quiet w"
  by (simp add: quiet_def emit_def)

lemma quiet_fields:
  assumes "quiet v = quiet w"
  shows "w_guid v = w_guid w" "writer_cache v = writer_cache w" "matched_readers v = matched_readers w"
    "w_reliability_level v = w_reliability_level w" "w_qos v = w_qos w" "an_state v = an_state w"
    "hb_counter v = hb_counter w" "push_mode v = push_mode w" "w_endianness v = w_endianness w"
    "w_nack_response_delay v = w_nack_response_delay w"
  using assms by (auto simp: quiet_def dest: arg_cong [of _ _ w_guid] arg_cong [of _ _ writer_cache]
      arg_cong [of _ _ matched_readers] arg_cong [of _ _ w_reliability_level] arg_cong [of _ _ w_qos]
      arg_cong [of _ _ an_state] arg_cong [of _ _ hb_counter] arg_cong [of _ _ push_mode]
      arg_cong [of _ _ w_endianness] arg_cong [of _ _ w_nack_response_delay])

definition data_msg :: "Timestamp option \<Rightarrow> GUID \<Rightarrow> EntityId \<Rightarrow> CacheChange \<Rightarrow> Message" where
  "data_msg now self reid change =
     mb_build (guid_prefix self)
       (mb_data LittleEndian (entity_id self) reid change (mb_info_ts LittleEndian now []))"

lemma emit_data_spec:
  "quiet (emit_data now change rls w) = quiet w"
  "w_udp_sender (emit_data now change rls w) = w_udp_sender w @
     concat (map (\<lambda>(reid, loc). send_msg_to_locator loc (data_msg now (w_guid w) reid change))
       (min_message_cover rls))"
proof -
  have "quiet (fold (\<lambda>(reid, loc) w. emit loc (data_message now w reid change) w) xs w) = quiet w \<and>
      w_udp_sender (fold (\<lambda>(reid, loc) w. emit loc (data_message now w reid change) w) xs w) =
        w_udp_sender w @ concat (map (\<lambda>(reid, loc).
          send_msg_to_locator loc (data_msg now (w_guid w) reid change)) xs)" for xs
    by (induction xs arbitrary: w)
      (auto simp: emit_def quiet_def data_message_def data_msg_def split: prod.splits)
  then show "quiet (emit_data now change rls w) = quiet w"
    and "w_udp_sender (emit_data now change rls w) = w_udp_sender w @
     concat (map (\<lambda>(reid, loc). send_msg_to_locator loc (data_msg now (w_guid w) reid change))
       (min_message_cover rls))"
    by (simp_all add: emit_data_def)
qed

text \<open>What is on the network grows only at its end.\<close>

definition sent_more :: "Writer \<Rightarrow> Writer \<Rightarrow> bool" where
  "sent_more w v \<longleftrightarrow> (\<exists>xs. w_udp_sender v = w_udp_sender w @ xs)"

lemma sent_more_refl [simp]: "sent_more w w"
  by (simp add: sent_more_def)

lemma sent_more_trans: "sent_more u v \<Longrightarrow> sent_more v w \<Longrightarrow> sent_more u w"
  by (auto simp: sent_more_def)

lemma sent_more_set: "sent_more w v \<Longrightarrow> set (w_udp_sender w) \<subseteq> set (w_udp_sender v)"
  by (auto simp: sent_more_def)

lemma sent_more_emit [simp]: "sent_more w (emit loc m w)"
  by (simp add: sent_more_def emit_def)

lemma sent_more_emit_data [simp]: "sent_more w (emit_data now c rls w)"
  by (simp add: sent_more_def emit_data_spec)

lemma reliable_drop [simp]: "w_reliability_level w = Reliable \<Longrightarrow> drop_if_best_effort n w = w"
  by (simp add: drop_if_best_effort_def w_is_reliable_def)

text \<open>Sending the data of changes that are in the cache succeeds and reaches every destination.\<close>

lemma send_data_loop:
  assumes "w_reliability_level w = Reliable"
    and "\<forall>(n, rls) \<in> set xs. get_change (w_guid w) n (writer_cache w) \<noteq> None"
  shows "\<exists>w'. rfold (send_data_step now) xs w = Inr w' \<and> quiet w' = quiet w \<and> sent_more w w' \<and>
    (\<forall>(n, rls) \<in> set xs. \<forall>(reid, loc) \<in> set (min_message_cover rls).
      set (send_msg_to_locator loc (data_msg now (w_guid w) reid
        (the (get_change (w_guid w) n (writer_cache w))))) \<subseteq> set (w_udp_sender w'))"
  using assms
proof (induction xs arbitrary: w)
  case Nil
  then show ?case by simp
next
  case (Cons x xs)
  obtain n rls where x: "x = (n, rls)" by (cases x)
  from Cons.prems x obtain c where c: "get_change (w_guid w) n (writer_cache w) = Some c" by auto
  let ?w = "emit_data now c rls w"
  note f = quiet_fields [OF emit_data_spec(1), of now c rls w]
  have step: "send_data_step now x w = Inr ?w"
    using c Cons.prems(1) x f by (simp add: send_data_step_def)
  have "\<forall>(n, rls) \<in> set xs. get_change (w_guid ?w) n (writer_cache ?w) \<noteq> None"
    using Cons.prems(2) f by auto
  from Cons.IH [OF _ this] Cons.prems(1) f obtain w' where
    w': "rfold (send_data_step now) xs ?w = Inr w'" "quiet w' = quiet ?w" "sent_more ?w w'"
    "\<forall>(n, rls) \<in> set xs. \<forall>(reid, loc) \<in> set (min_message_cover rls).
      set (send_msg_to_locator loc (data_msg now (w_guid w) reid
        (the (get_change (w_guid w) n (writer_cache w))))) \<subseteq> set (w_udp_sender w')"
    by auto
  have "\<forall>(reid, loc) \<in> set (min_message_cover rls).
      set (send_msg_to_locator loc (data_msg now (w_guid w) reid c)) \<subseteq> set (w_udp_sender ?w)"
    by (auto simp: emit_data_spec(2))
  then have "\<forall>(reid, loc) \<in> set (min_message_cover rls).
      set (send_msg_to_locator loc (data_msg now (w_guid w) reid c)) \<subseteq> set (w_udp_sender w')"
    using sent_more_set [OF w'(3)] by blast
  moreover have "quiet w' = quiet w" "sent_more w w'"
    using w'(2,3) emit_data_spec(1) sent_more_trans [OF sent_more_emit_data] by auto
  ultimately show ?case using step w'(1,4) x c by auto
qed

text \<open>Gaps of sequence numbers below the largest one are sent without a panic.\<close>

lemma gap_message_total:
  assumes "0 \<le> n" and "n < i64_max"
  shows "\<exists>m. gap_message w reid n = Inr m"
  using assms by (simp add: gap_message_def i64_add_def in_i64_def i64_max_def sns_from_vec_def
      sns_size_def wrap_u_def mb_gap_def u16_checked_def Let_def)

lemma emit_gaps_total:
  assumes "0 \<le> fst nx" and "fst nx < i64_max"
  shows "\<exists>w'. emit_gaps nx w = Inr w' \<and> quiet w' = quiet w \<and> sent_more w w'"
  unfolding emit_gaps_def
proof (rule rfold_total [where P = "\<lambda>v. quiet v = quiet w \<and> sent_more w v"])
  fix x v
  assume "quiet v = quiet w \<and> sent_more w v"
  then show "\<exists>v'. (case x of (reid, loc) \<Rightarrow> \<lambda>w. rbind (gap_message w reid (fst nx)) (\<lambda>m. Inr (emit loc m w))) v =
      Inr v' \<and> quiet v' = quiet w \<and> sent_more w v'"
    using gap_message_total [OF assms, of v "fst x"]
    by (auto split: prod.splits intro: sent_more_trans [OF _ sent_more_emit])
qed simp

lemma send_gap_loop:
  assumes "w_reliability_level w = Reliable" and "\<forall>x \<in> set xs. 0 \<le> fst x \<and> fst x < i64_max"
  shows "\<exists>w'. rfold send_gap_step xs w = Inr w' \<and> quiet w' = quiet w \<and> sent_more w w'"
proof (rule rfold_total [where P = "\<lambda>v. quiet v = quiet w \<and> sent_more w v"])
  fix x v
  assume x: "x \<in> set xs" and v: "quiet v = quiet w \<and> sent_more w v"
  with assms(2) have "0 \<le> fst x" "fst x < i64_max" by auto
  from emit_gaps_total [OF this, of v] obtain v' where
    v': "emit_gaps x v = Inr v'" "quiet v' = quiet v" "sent_more v v'" by blast
  have "w_reliability_level v' = Reliable"
    using quiet_fields(4) [of v' w] v v' assms(1) by simp
  then show "\<exists>s'. send_gap_step x v = Inr s' \<and> quiet s' = quiet w \<and> sent_more w s'"
    using v v' by (auto simp: send_gap_step_def intro: sent_more_trans)
qed simp

lemma collect_changes_more:
  "collect_changes k next self p acc = Inr x \<Longrightarrow> k \<le> l \<Longrightarrow> collect_changes l next self p acc = Inr x"
proof (induction k arbitrary: p acc l)
  case 0
  then show ?case by (cases l; cases acc) (auto split: option.splits)
next
  case (Suc k)
  from Suc.prems obtain m where l: "l = Suc m" "k \<le> m" by (cases l) auto
  obtain d g where acc: "acc = (d, g)" by (cases acc)
  show ?case
  proof (cases "next p")
    case None
    with Suc.prems show ?thesis by (simp add: l acc)
  next
    case (Some c)
    with Suc.prems(1) show ?thesis
      by (simp add: l acc Let_def split: option.split_asm if_split_asm) (auto intro: Suc.IH [OF _ l(2)])
  qed
qed

lemma collect_changes_end:
  "collect_changes k next self p acc = Inr (p', acc') \<Longrightarrow> next p' = None"
  by (induction k "next" self p acc rule: collect_changes.induct) (auto simp: Let_def split: option.splits if_splits)

text \<open>
  C18. The loops that drain the unsent and the requested changes of a reader proxy end. Whatever number of
  rounds is allowed, as long as it is not less than the number of changes with that status, the loop
  stops before it is used up, with the same result, and then no change has the status any more.
\<close>

theorem draining_ends:
  assumes wf: "rp_wf p" "sm_wf d" "sm_wf g"
    and loop: "(next, st) \<in> {(next_unsent_change, Unsent), (next_requested_change, Requested)}"
  shows "\<exists>p' d' g'. next p' = None \<and> in_status st p' = {} \<and>
    (\<forall>rounds \<ge> card (in_status st p). collect_changes rounds next self p (d, g) = Inr (p', d', g'))"
proof -
  have "selects_status next st" "st \<noteq> Underway" using loop selects_unsent selects_requested by auto
  from collect_changes_spec [OF wf this order_refl, of self] obtain p' d' g' where
    run: "collect_changes (card (in_status st p)) next self p (d, g) = Inr (p', d', g')"
    and e: "\<forall>n. rp_entry p' n = underway st (rp_entry p n)" by blast
  have "in_status st p' = {}"
    using e loop by (auto simp: in_status_def underway_def split: if_splits)
  with collect_changes_end [OF run] collect_changes_more [OF run] show ?thesis by blast
qed

theorem draining_ends_witness:
  "\<exists>p' d' g'. next_unsent_change p' = None \<and> collect_changes 7 next_unsent_change ex_guid
      (ex_reader_proxy [(1, ChangeForReader_new 1 Unsent True), (2, ChangeForReader_new 2 Underway True)]) ([], []) =
      Inr (p', d', g')"
proof -
  let ?p = "ex_reader_proxy [(1, ChangeForReader_new 1 Unsent True), (2, ChangeForReader_new 2 Underway True)]"
  have wf: "rp_wf ?p" "sm_wf []"
    by (simp_all add: rp_wf_def ex_reader_proxy_def ChangeForReader_new_def bm_wf_def bs_wf_def sm_wf_def i64_max_def)
  have "card (in_status Unsent ?p) \<le> 7"
    using card_in_status [of Unsent ?p] by (simp add: ex_reader_proxy_def)
  with draining_ends [OF wf(1,2,2), of next_unsent_change Unsent ex_guid] show ?thesis by blast
qed

end
