(* ===== verification/Umber_WriterInv.thy ===== *)
theory Umber_WriterInv
  imports Umber_WriterSend
begin

text \<open>
  The reliable writer as a state machine: its invariant, its steps, and what its handlers
  guarantee in every reachable state.
\<close>

section \<open>Operations on all readers\<close>

lemma map_readers_frame [simp]:
  "w_guid (map_readers f w) = w_guid w" "writer_cache (map_readers f w) = writer_cache w"
  "w_qos (map_readers f w) = w_qos w" "push_mode (map_readers f w) = push_mode w"
  "w_reliability_level (map_readers f w) = w_reliability_level w"
  "an_state (map_readers f w) = an_state w" "w_udp_sender (map_readers f w) = w_udp_sender w"
  "hb_counter (map_readers f w) = hb_counter w"
  by (simp_all add: map_readers_def)

lemma map_readers_get [simp]:
  "bm_get (matched_readers (map_readers f w)) g = map_option f (bm_get (matched_readers w) g)"
  unfolding map_readers_def using bm_get_map_snd [of "\<lambda>k. f" "matched_readers w" g] by simp

lemma map_readers_wf [simp]: "bm_wf (matched_readers (map_readers f w)) = bm_wf (matched_readers w)"
  unfolding map_readers_def using bm_map_snd_wf [of "\<lambda>k. f"] by simp

lemma map_readers_comp: "map_readers f (map_readers h w) = map_readers (\<lambda>p. f (h p)) w"
  by (simp add: map_readers_def o_def case_prod_beta')

lemma map_readers_id [simp]: "map_readers (\<lambda>p. p) w = w"
  by (simp add: map_readers_def)

lemma map_readers_cache:
  "map_readers f (w\<lparr>writer_cache := c\<rparr>) = (map_readers f w)\<lparr>writer_cache := c\<rparr>"
  by (simp add: map_readers_def)

lemma fold_map_readers: "fold (\<lambda>x. map_readers (h x)) xs w = map_readers (fold h xs) w"
  by (induction xs arbitrary: w) (simp_all add: map_readers_comp o_def id_def)

text \<open>Removing acknowledged changes acts on the cache and on every proxy.\<close>

lemma fold_remove_acked:
  "fold remove_acked_key ks w =
     map_readers (fold rp_remove_cache_state (map hk_seq_num ks))
       (w\<lparr>writer_cache := fold (\<lambda>k. remove_change k False) ks (writer_cache w)\<rparr>)"
proof (induction ks arbitrary: w)
  case Nil
  show ?case by simp
next
  case (Cons k ks)
  show ?case
    unfolding fold_simps Cons.IH
    by (simp add: remove_acked_key_def map_readers_comp map_readers_cache o_def)
qed

lemma register_unprocessed_alt:
  "register_unprocessed us w =
     map_readers (fold (\<lambda>(i, n). rp_update_cache_state n (relevant_by_history (w_qos w) i)
        (if push_mode w then Unsent else Unacknowledged)) (enumerate 0 (rev us))) w"
  unfolding register_unprocessed_def fold_map_readers [symmetric] by (simp add: case_prod_beta')

lemma fold_update_entry:
  assumes "distinct (map snd xs)"
  shows "rp_entry (fold (\<lambda>(i, n). rp_update_cache_state n (r i) st) xs p) n =
    (case map_of (map prod.swap xs) n of
       Some i \<Rightarrow> Some (ChangeForReader_new n st (r i)) | None \<Rightarrow> rp_entry p n)"
  using assms
proof (induction xs arbitrary: p)
  case Nil
  show ?case by simp
next
  case (Cons x xs)
  obtain i m where x: "x = (i, m)" by (cases x)
  have "map_of (map prod.swap xs) m = None" using Cons.prems x by (force simp: map_of_eq_None_iff)
  with Cons show ?case
    by (auto simp: x rp_update_put rp.entry_put split: option.splits)
qed

lemma fold_update_wf:
  assumes "rp_wf p" and "\<forall>(i, n) \<in> set xs. n \<le> i64_max"
  shows "rp_wf (fold (\<lambda>(i, n). rp_update_cache_state n (r i) st) xs p)"
  using assms
proof (induction xs arbitrary: p)
  case (Cons x xs)
  obtain i n where x: "x = (i, n)" by (cases x)
  have "rp_wf (rp_put n (ChangeForReader_new n st (r i)) p)"
    using Cons.prems x by (intro rp.put_wf) auto
  with Cons show ?case by (simp add: x rp_update_put)
qed simp

lemma fold_update_same: "same_reader p (fold (\<lambda>(i, n). rp_update_cache_state n (r i) st) xs p)"
proof (induction xs arbitrary: p)
  case (Cons x xs)
  then show ?case
    by (cases x) (auto simp: rp_update_put intro: same_reader_trans [OF same_reader_put])
qed simp

lemma swap_enumerate:
  assumes "distinct xs"
  shows "map_of (map prod.swap (enumerate 0 xs)) n = Some i \<longleftrightarrow> i < length xs \<and> xs ! i = n"
    and "map_of (map prod.swap (enumerate 0 xs)) n = None \<longleftrightarrow> n \<notin> set xs"
proof -
  have fst: "map fst (map prod.swap (enumerate 0 xs)) = xs" by (simp add: o_def)
  have "distinct (map fst (map prod.swap (enumerate 0 xs)))" unfolding fst by (rule assms)
  then have "map_of (map prod.swap (enumerate 0 xs)) n = Some i \<longleftrightarrow>
      (n, i) \<in> set (map prod.swap (enumerate 0 xs))"
    by (rule map_of_eq_Some_iff)
  also have "\<dots> \<longleftrightarrow> (i, n) \<in> set (enumerate 0 xs)" by force
  finally show "map_of (map prod.swap (enumerate 0 xs)) n = Some i \<longleftrightarrow> i < length xs \<and> xs ! i = n"
    by (simp add: in_set_enumerate_eq)
  have "fst ` set (map prod.swap (enumerate 0 xs)) = set xs"
    unfolding list.set_map [symmetric] fst ..
  then show "map_of (map prod.swap (enumerate 0 xs)) n = None \<longleftrightarrow> n \<notin> set xs"
    by (simp only: map_of_eq_None_iff)
qed

section \<open>The invariant\<close>

definition reader_ok :: "GUID \<Rightarrow> HistoryCache \<Rightarrow> GUID \<Rightarrow> ReaderProxy \<Rightarrow> bool" where
  "reader_ok self cache g p \<longleftrightarrow>
     rp_wf p \<and> remote_reader_guid p = g \<and>
     list_all (\<lambda>(n, e). 0 \<le> n \<and> n < i64_max \<and>
       (cfr_status e = Unsent \<and> cfr_is_relevant e \<longrightarrow> get_change self n cache \<noteq> None))
       (rp_cache_state p)"

definition cache_ok :: "GUID \<Rightarrow> HistoryCache \<Rightarrow> bool" where
  "cache_ok self cache \<longleftrightarrow>
     hc_inv cache \<and> hc_type cache = HCWriter \<and>
     list_all (\<lambda>k. hk_guid k = self \<and> 0 \<le> hk_seq_num k \<and> hk_seq_num k < i64_max)
       (bm_keys (changes cache)) \<and>
     list_all (\<lambda>n. get_change self n cache \<noteq> None) (unprocessed_seqnum cache)"

definition writer_inv :: "Writer \<Rightarrow> bool" where
  "writer_inv w \<longleftrightarrow>
     w_reliability_level w = Reliable \<and> an_state w \<noteq> Repairing \<and>
     cache_ok (w_guid w) (writer_cache w) \<and> bm_wf (matched_readers w) \<and>
     list_all (\<lambda>(g, p). reader_ok (w_guid w) (writer_cache w) g p) (matched_readers w)"

lemma reader_okI:
  assumes "rp_wf p" and "remote_reader_guid p = g"
    and "\<And>n e. rp_entry p n = Some e \<Longrightarrow> 0 \<le> n \<and> n < i64_max"
    and "\<And>n e. rp_entry p n = Some e \<Longrightarrow> cfr_status e = Unsent \<Longrightarrow> cfr_is_relevant e \<Longrightarrow>
      get_change self n cache \<noteq> None"
  shows "reader_ok self cache g p"
  using assms rp_wfD(1) [OF assms(1)] by (auto simp: reader_ok_def list_all_bm_get rp_entry_def)

lemma reader_okD:
  assumes "reader_ok self cache g p"
  shows "rp_wf p" and "remote_reader_guid p = g"
    and "rp_entry p n = Some e \<Longrightarrow> 0 \<le> n \<and> n < i64_max"
    and "rp_entry p n = Some e \<Longrightarrow> cfr_status e = Unsent \<Longrightarrow> cfr_is_relevant e \<Longrightarrow>
      get_change self n cache \<noteq> None"
  using assms rp_wfD(1) by (auto simp: reader_ok_def list_all_bm_get rp_entry_def)

lemma cache_okD:
  assumes "cache_ok self cache"
  shows "hc_inv cache" and "hc_type cache = HCWriter"
    and "bm_get (changes cache) k = Some c \<Longrightarrow> hk_guid k = self \<and> 0 \<le> hk_seq_num k \<and> hk_seq_num k < i64_max"
    and "n \<in> set (unprocessed_seqnum cache) \<Longrightarrow> get_change self n cache \<noteq> None"
    and "get_change self n cache \<noteq> None \<Longrightarrow> 0 \<le> n \<and> n < i64_max"
  using assms by (fastforce simp: cache_ok_def list_all_iff get_change_def dest!: bm_get_Some_key)+

lemma writer_invD:
  assumes "writer_inv w"
  shows "w_reliability_level w = Reliable" and "an_state w \<noteq> Repairing"
    and "cache_ok (w_guid w) (writer_cache w)" and "bm_wf (matched_readers w)"
    and "bm_get (matched_readers w) g = Some p \<Longrightarrow> reader_ok (w_guid w) (writer_cache w) g p"
    and "(g, p) \<in> set (matched_readers w) \<Longrightarrow> reader_ok (w_guid w) (writer_cache w) g p"
  using assms by (auto simp: writer_inv_def list_all_iff dest!: map_of_SomeD)

lemma writer_invI:
  assumes "w_reliability_level w = Reliable" and "an_state w \<noteq> Repairing"
    and "cache_ok (w_guid w) (writer_cache w)" and "bm_wf (matched_readers w)"
    and "\<And>g p. bm_get (matched_readers w) g = Some p \<Longrightarrow> reader_ok (w_guid w) (writer_cache w) g p"
  shows "writer_inv w"
  using assms by (auto simp: writer_inv_def list_all_iff bm_get_in_set)

lemma quiet_inv: "quiet v = quiet w \<Longrightarrow> writer_inv v = writer_inv w"
  using quiet_fields [of v w] by (simp only: writer_inv_def)

lemma cache_ok_seq_range:
  assumes "cache_ok self cache" and "n \<in> set (unprocessed_seqnum cache)"
  shows "0 \<le> n \<and> n < i64_max"
  using cache_okD(4) [OF assms] cache_okD(5) [OF assms(1)] by blast

section \<open>Removal keeps the invariant\<close>

lemma get_change_fold_remove:
  "get_change g n (fold (\<lambda>k. remove_change k t) ks h) =
     (if HCKey g n \<in> set ks \<and> \<not> pinned h (HCKey g n) then None else get_change g n h)"
  by (simp add: get_change_def hc.fold_lookup)

lemma cache_ok_fold_remove:
  assumes "cache_ok self h"
  shows "cache_ok self (fold (\<lambda>k. remove_change k t) ks h)"
proof -
  let ?h = "fold (\<lambda>k. remove_change k t) ks h"
  have "bm_get (changes ?h) k = Some c \<Longrightarrow> bm_get (changes h) k = Some c" for k c
    by (auto simp: hc.fold_lookup split: if_splits)
  then have "list_all (\<lambda>k. hk_guid k = self \<and> 0 \<le> hk_seq_num k \<and> hk_seq_num k < i64_max)
      (bm_keys (changes ?h))"
    using cache_okD(3) [OF assms] hc_invD(1) [OF hc.fold_inv [OF cache_okD(1) [OF assms]], of t ks]
    by (force simp: list_all_iff bm_get_in_set)
  moreover have "get_change self n ?h \<noteq> None" if "n \<in> set (unprocessed_seqnum h)" for n
    using that cache_okD(4) [OF assms that] by (auto simp: get_change_fold_remove pinned_def)
  ultimately show ?thesis
    using hc.fold_inv [OF cache_okD(1) [OF assms]] cache_okD(2) [OF assms]
    by (auto simp: cache_ok_def list_all_iff)
qed

lemma fold_remove_acked_inv:
  assumes "writer_inv w" and "set ks \<subseteq> set (bm_keys (changes (writer_cache w)))"
  shows "writer_inv (fold remove_acked_key ks w)"
  unfolding fold_remove_acked
proof (rule writer_invI)
  let ?h = "fold (\<lambda>k. remove_change k False) ks (writer_cache w)"
  let ?w = "map_readers (fold rp_remove_cache_state (map hk_seq_num ks)) (w\<lparr>writer_cache := ?h\<rparr>)"
  fix g p
  assume "bm_get (matched_readers ?w) g = Some p"
  then obtain q where q: "bm_get (matched_readers w) g = Some q"
    and p: "p = fold rp_remove_cache_state (map hk_seq_num ks) q" by auto
  note ok = reader_okD [OF writer_invD(5) [OF assms(1) q]]
  have entry: "rp_entry p n = (if n \<in> hk_seq_num ` set ks then None else rp_entry q n)" for n
    unfolding p rp.fold_forget_entry by simp
  have same: "remote_reader_guid p = remote_reader_guid q"
    unfolding p by (induction ks arbitrary: q) (simp_all add: rp_remove_cache_state_def)
  show "reader_ok (w_guid ?w) (writer_cache ?w) g p"
  proof (rule reader_okI)
    show "rp_wf p" unfolding p by (rule rp.fold_forget_wf [OF ok(1)])
    show "remote_reader_guid p = g" using same ok(2) by simp
    fix n e
    assume e: "rp_entry p n = Some e"
    then show "0 \<le> n \<and> n < i64_max" using ok(3) by (auto simp: entry split: if_splits)
    assume "cfr_status e = Unsent" "cfr_is_relevant e"
    moreover have "HCKey (w_guid w) n \<notin> set ks"
    proof
      assume "HCKey (w_guid w) n \<in> set ks"
      then have "n \<in> hk_seq_num ` set ks" by (rule rev_image_eqI) simp
      with e show False by (simp add: entry)
    qed
    ultimately show "get_change (w_guid ?w) n (writer_cache ?w) \<noteq> None"
      using e ok(4) by (auto simp: entry get_change_fold_remove split: if_splits)
  qed
qed (use writer_invD [OF assms(1)] in \<open>auto intro: cache_ok_fold_remove\<close>)

lemma remove_acked_changes_total:
  assumes "writer_inv w" and "i64_min < base" and "in_i64 base"
  shows "\<exists>w'. remove_acked_changes base w = Inr w' \<and> writer_inv w'"
  using assms fold_remove_acked_inv [OF assms(1)]
  by (auto simp: remove_acked_changes_def Let_def i64_sub_def in_i64_def i64_min_def
      split: Durability.splits)

lemma remove_acked_changes_inv:
  assumes "writer_inv w" and "remove_acked_changes base w = Inr w'"
  shows "writer_inv w'"
  using assms fold_remove_acked_inv [OF assms(1)]
  by (auto simp: remove_acked_changes_def Let_def rbind_Inr_iff split: if_splits)

lemma remove_acked_changes_frame:
  assumes "remove_acked_changes base w = Inr w'"
  shows "w_guid w' = w_guid w" "w_qos w' = w_qos w" "push_mode w' = push_mode w"
    "w_reliability_level w' = w_reliability_level w" "an_state w' = an_state w"
    "w_udp_sender w' = w_udp_sender w" "hb_counter w' = hb_counter w"
  using assms
  by (auto simp: remove_acked_changes_def Let_def rbind_Inr_iff fold_remove_acked split: if_splits)

text \<open>What is removed was acknowledged by every reader; everything else stays.\<close>

lemma remove_acked_changes_keeps:
  assumes "remove_acked_changes base w = Inr w'"
    and "bm_get (matched_readers w) g = Some p" and "\<not> is_acked n p"
  shows "get_change (w_guid w) n (writer_cache w') = get_change (w_guid w) n (writer_cache w)"
    and "\<exists>p'. bm_get (matched_readers w') g = Some p' \<and> rp_entry p' n = rp_entry p n \<and> same_reader p p'"
proof -
  have nall: "\<not> is_acked_by_all n w"
    using assms(2,3) by (force simp: is_acked_by_all_def list_all_iff dest: map_of_SomeD)
  have same: "same_reader p (fold rp_remove_cache_state ns p)" for ns
  proof (induction ns arbitrary: p)
    case (Cons n ns)
    have "same_reader p (rp_remove_cache_state n p)"
      by (simp add: same_reader_def rp_remove_cache_state_def)
    then show ?case using Cons.IH same_reader_trans by fastforce
  qed simp
  have "\<exists>ks. w' = fold remove_acked_key ks w \<and> (\<forall>k \<in> set ks. is_acked_by_all (hk_seq_num k) w)"
  proof (cases "is_builtin (entity_id (w_guid w))")
    case True
    then show ?thesis using assms(1) by (intro exI [of _ "[]"]) (simp add: remove_acked_changes_def)
  next
    case False
    then obtain b where "w' = fold remove_acked_key
        (filter (\<lambda>key. hk_seq_num key \<le> b \<and> is_acked_by_all (hk_seq_num key) w)
          (bm_keys (changes (writer_cache w)))) w"
      using assms(1) by (auto simp: remove_acked_changes_def Let_def rbind_Inr_iff)
    then show ?thesis by auto
  qed
  then obtain ks where w': "w' = fold remove_acked_key ks w"
    and ks: "\<forall>k \<in> set ks. is_acked_by_all (hk_seq_num k) w" by blast
  from ks nall have "HCKey (w_guid w) n \<notin> set ks" and n: "n \<notin> set (map hk_seq_num ks)" by auto
  then show "get_change (w_guid w) n (writer_cache w') = get_change (w_guid w) n (writer_cache w)"
    unfolding w' fold_remove_acked by (simp add: get_change_fold_remove)
  show "\<exists>p'. bm_get (matched_readers w') g = Some p' \<and> rp_entry p' n = rp_entry p n \<and> same_reader p p'"
    unfolding w' fold_remove_acked using assms(2) n same by (auto simp: rp.fold_forget_entry)
qed

section \<open>Sending what is unsent\<close>

lemma list_all2_readers:
  assumes "list_all2 (\<lambda>(k, p) (k', p'). k' = k \<and> R p p') ps ps'"
  shows "bm_keys ps' = bm_keys ps"
    and "bm_get ps' g = Some q \<Longrightarrow> \<exists>p. bm_get ps g = Some p \<and> R p q"
    and "bm_get ps g = Some p \<Longrightarrow> \<exists>q. bm_get ps' g = Some q \<and> R p q"
  using assms by (induction ps ps') (auto split: if_splits)

text \<open>The data of change \<open>n\<close> goes to reader \<open>g\<close> at locator \<open>l\<close>, addressed to it or to all.\<close>

definition data_sent :: "Timestamp option \<Rightarrow> GUID \<Rightarrow> CacheChange \<Rightarrow> GUID \<Rightarrow> Locator \<Rightarrow> net_out list \<Rightarrow> bool" where
  "data_sent now self c g l out \<longleftrightarrow>
     set (send_msg_to_locator l (data_msg now self (entity_id g) c)) \<subseteq> set out \<or>
     set (send_msg_to_locator l (data_msg now self eid_UNKNOW c)) \<subseteq> set out"

lemma data_sent_mono: "data_sent now self c g l out \<Longrightarrow> set out \<subseteq> set out' \<Longrightarrow> data_sent now self c g l out'"
  by (auto simp: data_sent_def)

lemma cover_reaches:
  assumes "(g, ll) \<in> set rls" and "l \<in> set ll"
  shows "(entity_id g, l) \<in> set (min_message_cover rls) \<or> (eid_UNKNOW, l) \<in> set (min_message_cover rls)"
  using assms unfolding min_message_cover_iff by auto

lemma to_send_anyE:
  assumes "sm_wf m" and "(n, v) \<in> set m" and "sends m n = to_send_any self st rel ps n"
  obtains k p e where "(k, p) \<in> set ps" and "rp_entry p n = Some e" and "cfr_status e = st"
    and "cfr_is_relevant e = rel"
proof -
  from sm_sends [OF assms(1,2)] assms(3) have "to_send_any self st rel ps n \<noteq> {}" by auto
  then obtain x where "x \<in> to_send_any self st rel ps n" by blast
  then show ?thesis using that by (auto simp: to_send_any_def to_send_def)
qed

lemma send_unsent_total:
  assumes inv: "writer_inv w"
  shows "\<exists>w'. send_unsent now w = Inr w' \<and> writer_inv w' \<and> sent_more w w' \<and>
    w_guid w' = w_guid w \<and> writer_cache w' = writer_cache w \<and> w_qos w' = w_qos w \<and>
    (\<forall>g p. bm_get (matched_readers w') g = Some p \<longrightarrow> in_status Unsent p = {}) \<and>
    (\<forall>g p n e ll l. bm_get (matched_readers w) g = Some p \<longrightarrow> rp_entry p n = Some e \<longrightarrow>
      cfr_status e = Unsent \<longrightarrow> cfr_is_relevant e \<longrightarrow> destination (w_guid w) p = Some ll \<longrightarrow> l \<in> set ll \<longrightarrow>
      data_sent now (w_guid w) (the (get_change (w_guid w) n (writer_cache w))) g l (w_udp_sender w'))"
proof -
  let ?self = "w_guid w"
  let ?R = "\<lambda>p p'. rp_wf p' \<and> same_reader p p' \<and> (\<forall>n. rp_entry p' n = underway Unsent (rp_entry p n))"
  have ok: "reader_ok ?self (writer_cache w) g p" if "(g, p) \<in> set (matched_readers w)" for g p
    using writer_invD(6) [OF inv that] .
  then have wf: "\<forall>(g, p) \<in> set (matched_readers w). rp_wf p" using reader_okD(1) by blast
  from collect_all_spec [OF wf sm_wf_Nil sm_wf_Nil, of ?self] obtain ps d g where
    col: "collect_all ?self (matched_readers w) ([], []) = Inr (ps, d, g)"
    and "list_all2 (\<lambda>(k, p) (k', p'). k' = k \<and> ?R p p') (matched_readers w) ps"
    and d: "sm_wf d" "\<And>n. sends d n = to_send_any ?self Unsent True (matched_readers w) n"
    and g: "sm_wf g" "\<And>n. sends g n = to_send_any ?self Unsent False (matched_readers w) n"
    by auto
  note rel = list_all2_readers [OF this(2)]
  let ?w = "w\<lparr>matched_readers := ps\<rparr>"
  have unsent: "in_status Unsent q = {}" if "bm_get ps k = Some q" for k q
  proof -
    from rel(2) [OF that] obtain p where "\<And>n. rp_entry q n = underway Unsent (rp_entry p n)" by blast
    then show ?thesis by (auto simp: in_status_def underway_def split: if_splits)
  qed
  have inv': "writer_inv ?w"
  proof (rule writer_invI)
    show "bm_wf (matched_readers ?w)"
      using writer_invD(4) [OF inv] rel(1) by (simp add: bm_wf_def)
    fix k q
    assume q: "bm_get (matched_readers ?w) k = Some q"
    with rel(2) obtain p where p: "bm_get (matched_readers w) k = Some p" "rp_wf q" "same_reader p q"
      "\<And>n. rp_entry q n = underway Unsent (rp_entry p n)" by force
    note okp = reader_okD [OF writer_invD(5) [OF inv p(1)]]
    have "reader_ok ?self (writer_cache w) k q"
    proof (rule reader_okI [OF p(2)])
      show "remote_reader_guid q = k" using same_reader_frame(1) [OF p(3)] okp(2) by simp
      fix n e
      assume e: "rp_entry q n = Some e"
      then show "0 \<le> n \<and> n < i64_max" using okp(3) by (auto simp: p(4) underway_def)
      assume "cfr_status e = Unsent"
      with e unsent q have False by (auto simp: in_status_def)
      then show "get_change ?self n (writer_cache w) \<noteq> None" ..
    qed
    then show "reader_ok (w_guid ?w) (writer_cache ?w) k q" by simp
  qed (use writer_invD [OF inv] in simp_all)
  have incache: "\<forall>(n, rls) \<in> set d. get_change (w_guid ?w) n (writer_cache ?w) \<noteq> None"
  proof -
    have "get_change ?self n (writer_cache w) \<noteq> None" if n: "(n, rls) \<in> set d" for n rls
    proof -
      from to_send_anyE [OF d(1) n d(2)] obtain k p e where
        p: "(k, p) \<in> set (matched_readers w)" "rp_entry p n = Some e" "cfr_status e = Unsent"
        "cfr_is_relevant e" by metis
      from reader_okD(4) [OF ok [OF p(1)] p(2-4)] show ?thesis .
    qed
    then show ?thesis by auto
  qed
  have range: "\<forall>x \<in> set g. 0 \<le> fst x \<and> fst x < i64_max"
  proof
    fix x
    assume "x \<in> set g"
    then have "(fst x, snd x) \<in> set g" by simp
    from to_send_anyE [OF g(1) this g(2)] obtain k p e where
      p: "(k, p) \<in> set (matched_readers w)" "rp_entry p (fst x) = Some e" by metis
    from reader_okD(3) [OF ok [OF p(1)] p(2)] show "0 \<le> fst x \<and> fst x < i64_max" .
  qed
  have rel_w: "w_reliability_level ?w = Reliable" using writer_invD(1) [OF inv] by simp
  from send_data_loop [OF rel_w incache, of now] obtain w1 where
    w1: "rfold (send_data_step now) d ?w = Inr w1" "quiet w1 = quiet ?w" "sent_more ?w w1"
    "\<forall>(n, rls) \<in> set d. \<forall>(reid, loc) \<in> set (min_message_cover rls).
      set (send_msg_to_locator loc (data_msg now ?self reid
        (the (get_change ?self n (writer_cache w))))) \<subseteq> set (w_udp_sender w1)"
    by auto
  have rel1: "w_reliability_level w1 = Reliable" using quiet_fields(4) [OF w1(2)] rel_w by simp
  from send_gap_loop [OF rel1 range] obtain w2 where
    w2: "rfold send_gap_step g w1 = Inr w2" "quiet w2 = quiet w1" "sent_more w1 w2" by blast
  have q: "quiet w2 = quiet ?w" using w1(2) w2(2) by simp
  have more: "sent_more w w2"
    using sent_more_trans [OF w1(3) w2(3)] by (simp add: sent_more_def)
  have sent: "data_sent now ?self (the (get_change ?self n (writer_cache w))) k l (w_udp_sender w2)"
    if p: "bm_get (matched_readers w) k = Some p" "rp_entry p n = Some e" "cfr_status e = Unsent"
      "cfr_is_relevant e" "destination ?self p = Some ll" "l \<in> set ll" for k p n e ll l
  proof -
    have kp: "(k, p) \<in> set (matched_readers w)" using p(1) by (rule map_of_SomeD)
    have "remote_reader_guid p = k" using reader_okD(2) [OF ok [OF kp]] .
    then have "(k, ll) \<in> sends d n"
      using d(2) kp p by (force simp: to_send_any_def to_send_def)
    then obtain rls where rls: "(n, rls) \<in> set d" "(k, ll) \<in> set rls"
      using sm_key [OF d(1)] by (auto simp: sends_def split: option.splits)
    from cover_reaches [OF rls(2) p(6)] w1(4) rls(1)
    have "data_sent now ?self (the (get_change ?self n (writer_cache w))) k l (w_udp_sender w1)"
      by (fastforce simp: data_sent_def)
    then show ?thesis using sent_more_set [OF w2(3)] by (rule data_sent_mono)
  qed
  have "send_unsent now w = Inr w2"
    using col w1(1) w2(1) by (simp add: send_unsent_def)
  moreover have "writer_inv w2" using quiet_inv [OF q] inv' by simp
  ultimately show ?thesis
    using more sent quiet_fields [OF q] unsent by auto
qed

section \<open>Writing data\<close>

text \<open>The writer after it has taken the unprocessed sequence numbers and registered them.\<close>

definition registered :: "Writer \<Rightarrow> Writer" where
  "registered w = register_unprocessed (unprocessed_seqnum (writer_cache w))
     (w\<lparr>is_alive := True, writer_cache := (writer_cache w)\<lparr>unprocessed_seqnum := []\<rparr>\<rparr>)"

lemma registered_frame [simp]:
  "w_guid (registered w) = w_guid w" "w_qos (registered w) = w_qos w"
  "w_reliability_level (registered w) = w_reliability_level w" "an_state (registered w) = an_state w"
  "writer_cache (registered w) = (writer_cache w)\<lparr>unprocessed_seqnum := []\<rparr>"
  "w_udp_sender (registered w) = w_udp_sender w"
  by (simp_all add: registered_def register_unprocessed_alt)

lemma get_change_unprocessed [simp]:
  "get_change g n (h\<lparr>unprocessed_seqnum := u\<rparr>) = get_change g n h"
  by (simp add: get_change_def)

lemma cache_ok_taken: "cache_ok self h \<Longrightarrow> cache_ok self (h\<lparr>unprocessed_seqnum := []\<rparr>)"
  by (simp add: cache_ok_def unprocessed_inv)

lemma registered_entry:
  assumes "writer_inv w" and "bm_get (matched_readers w) g = Some p"
  defines "us \<equiv> unprocessed_seqnum (writer_cache w)"
  obtains q where "bm_get (matched_readers (registered w)) g = Some q" and "rp_wf q"
    and "same_reader p q"
    and "\<And>i. i < length us \<Longrightarrow> rp_entry q (rev us ! i) = Some (ChangeForReader_new (rev us ! i)
      (if push_mode w then Unsent else Unacknowledged) (relevant_by_history (w_qos w) i))"
    and "\<And>n. n \<notin> set us \<Longrightarrow> rp_entry q n = rp_entry p n"
proof -
  note co = writer_invD(3) [OF assms(1)]
  have d: "distinct (rev us)"
    using bs_wf_distinct [OF hc_invD(8) [OF cache_okD(1) [OF co]]] by (simp add: us_def)
  let ?st = "if push_mode w then Unsent else Unacknowledged"
  let ?q = "fold (\<lambda>(i, n). rp_update_cache_state n (relevant_by_history (w_qos w) i) ?st)
      (enumerate 0 (rev us)) p"
  have "bm_get (matched_readers (registered w)) g = Some ?q"
    using assms(2) by (simp add: registered_def register_unprocessed_alt us_def)
  moreover have "rp_wf ?q"
  proof (rule fold_update_wf)
    show "rp_wf p" using reader_okD(1) [OF writer_invD(5) [OF assms(1,2)]] .
    have "n \<in> set us" if "(i, n) \<in> set (enumerate 0 (rev us))" for i n
    proof -
      have "n \<in> snd ` set (enumerate 0 (rev us))" using that by (rule rev_image_eqI) simp
      then show ?thesis unfolding list.set_map [symmetric] by simp
    qed
    then show "\<forall>(i, n) \<in> set (enumerate 0 (rev us)). n \<le> i64_max"
      using cache_ok_seq_range [OF co] by (force simp: us_def)
  qed
  moreover have "distinct (map snd (enumerate 0 (rev us)))" using d by simp
  note entry = fold_update_entry [OF this, of "relevant_by_history (w_qos w)" ?st p]
  have "rp_entry ?q (rev us ! i) = Some (ChangeForReader_new (rev us ! i) ?st
      (relevant_by_history (w_qos w) i))" if "i < length us" for i
    using swap_enumerate(1) [OF d, of "rev us ! i" i] that by (simp add: entry)
  moreover have "rp_entry ?q n = rp_entry p n" if "n \<notin> set us" for n
    using swap_enumerate(2) [OF d, of n] that by (simp add: entry)
  ultimately show ?thesis using that fold_update_same by blast
qed

lemma registered_inv:
  assumes "writer_inv w"
  shows "writer_inv (registered w)"
proof (rule writer_invI)
  note co = writer_invD(3) [OF assms]
  show "bm_wf (matched_readers (registered w))"
    using writer_invD(4) [OF assms] by (simp add: registered_def register_unprocessed_alt)
  show "cache_ok (w_guid (registered w)) (writer_cache (registered w))"
    using cache_ok_taken [OF co] by simp
  fix g q
  assume q: "bm_get (matched_readers (registered w)) g = Some q"
  then obtain p where p: "bm_get (matched_readers w) g = Some p"
    by (auto simp: registered_def register_unprocessed_alt)
  note okp = reader_okD [OF writer_invD(5) [OF assms p]]
  from registered_entry [OF assms p] q have wf: "rp_wf q" and same: "same_reader p q" by force+
  let ?us = "unprocessed_seqnum (writer_cache w)"
  have old: "rp_entry q n = rp_entry p n" if "n \<notin> set ?us" for n
    using registered_entry [OF assms p] q that by (metis option.inject)
  show "reader_ok (w_guid (registered w)) (writer_cache (registered w)) g q"
  proof (rule reader_okI [OF wf])
    show "remote_reader_guid q = g" using same_reader_frame(1) [OF same] okp(2) by simp
    fix n e
    assume e: "rp_entry q n = Some e"
    show "0 \<le> n \<and> n < i64_max"
      using cache_ok_seq_range [OF co, of n] old [of n] e okp(3) [of n e]
      by (cases "n \<in> set ?us") simp_all
    assume "cfr_status e = Unsent" "cfr_is_relevant e"
    then show "get_change (w_guid (registered w)) n (writer_cache (registered w)) \<noteq> None"
      using cache_okD(4) [OF co, of n] old [of n] e okp(4) [of n e]
      by (cases "n \<in> set ?us") simp_all
  qed
qed (use writer_invD [OF assms] in simp_all)

lemma handle_write_data_cmd_empty:
  assumes "hc_type (writer_cache w) = HCWriter" and "unprocessed_seqnum (writer_cache w) = []"
  shows "handle_write_data_cmd now w = Inr (w\<lparr>is_alive := True\<rparr>, None)"
proof -
  have "(writer_cache w)\<lparr>unprocessed_seqnum := []\<rparr> = writer_cache w"
    using assms(2) by (metis (no_types, lifting) HistoryCache.surjective HistoryCache.update_convs(5))
  then show ?thesis using assms by (simp add: handle_write_data_cmd_def get_unprocessed_def Let_def)
qed

lemma handle_write_data_cmd_steps:
  assumes "writer_inv w" and "unprocessed_seqnum (writer_cache w) = u # us"
  shows "handle_write_data_cmd now w =
    rbind (remove_acked_changes u (registered w)) (\<lambda>w2. rbind (send_unsent now w2) (\<lambda>w3.
      Inr (w3, deadline_timer (w_guid w) (w_qos w))))"
proof -
  have "w_is_reliable (registered w)" using writer_invD(1) [OF assms(1)] by (simp add: w_is_reliable_def)
  moreover have "get_unprocessed (writer_cache w) =
      Inr ((writer_cache w)\<lparr>unprocessed_seqnum := []\<rparr>, u # us)"
    using cache_okD(2) [OF writer_invD(3) [OF assms(1)]] assms(2) by (simp add: get_unprocessed_def)
  ultimately show ?thesis
    using assms(2) by (simp add: handle_write_data_cmd_def Let_def registered_def)
qed

text \<open>A write command in a state that satisfies the invariant succeeds and keeps it.\<close>

lemma handle_write_data_cmd_total:
  assumes inv: "writer_inv w"
  shows "\<exists>w' t. handle_write_data_cmd now w = Inr (w', t) \<and> writer_inv w' \<and>
    unprocessed_seqnum (writer_cache w') = [] \<and>
    (unprocessed_seqnum (writer_cache w) \<noteq> [] \<longrightarrow>
      (\<forall>g p. bm_get (matched_readers w') g = Some p \<longrightarrow> in_status Unsent p = {})) \<and>
    (push_mode w \<longrightarrow> (\<forall>i < length (unprocessed_seqnum (writer_cache w)).
      relevant_by_history (w_qos w) i \<longrightarrow> (\<forall>g p ll l. bm_get (matched_readers w) g = Some p \<longrightarrow>
        destination (w_guid w) p = Some ll \<longrightarrow> l \<in> set ll \<longrightarrow>
        data_sent now (w_guid w)
          (the (get_change (w_guid w) (rev (unprocessed_seqnum (writer_cache w)) ! i) (writer_cache w)))
          g l (w_udp_sender w'))))"
proof (cases "unprocessed_seqnum (writer_cache w)")
  case Nil
  have "writer_inv (w\<lparr>is_alive := True\<rparr>)" using inv by (simp add: writer_inv_def)
  then show ?thesis
    using Nil handle_write_data_cmd_empty [OF cache_okD(2) [OF writer_invD(3) [OF inv]] Nil] by simp
next
  case (Cons u us)
  note co = writer_invD(3) [OF inv]
  have "0 \<le> u \<and> u < i64_max" using cache_ok_seq_range [OF co] Cons by simp
  then have "i64_min < u" "in_i64 u" by (auto simp: i64_min_def i64_max_def in_i64_def)
  from remove_acked_changes_total [OF registered_inv [OF inv] this] obtain w2 where
    w2: "remove_acked_changes u (registered w) = Inr w2" "writer_inv w2" by blast
  note f2 = remove_acked_changes_frame [OF w2(1)]
  from send_unsent_total [OF w2(2), of now] obtain w3 where
    w3: "send_unsent now w2 = Inr w3" "writer_inv w3" "writer_cache w3 = writer_cache w2"
    "\<forall>g p. bm_get (matched_readers w3) g = Some p \<longrightarrow> in_status Unsent p = {}"
    "\<forall>g p n e ll l. bm_get (matched_readers w2) g = Some p \<longrightarrow> rp_entry p n = Some e \<longrightarrow>
      cfr_status e = Unsent \<longrightarrow> cfr_is_relevant e \<longrightarrow> destination (w_guid w2) p = Some ll \<longrightarrow> l \<in> set ll \<longrightarrow>
      data_sent now (w_guid w2) (the (get_change (w_guid w2) n (writer_cache w2))) g l (w_udp_sender w3)"
    by blast
  have run: "handle_write_data_cmd now w = Inr (w3, deadline_timer (w_guid w) (w_qos w))"
    unfolding handle_write_data_cmd_steps [OF inv Cons] using w2(1) w3(1) by simp
  have unproc: "unprocessed_seqnum (writer_cache w2) = []"
    using w2(1) by (auto simp: remove_acked_changes_def Let_def rbind_Inr_iff fold_remove_acked
        split: if_splits)
  have "data_sent now (w_guid w) (the (get_change (w_guid w) (rev (u # us) ! i) (writer_cache w)))
      g l (w_udp_sender w3)"
    if push: "push_mode w" and i: "i < length (u # us)" "relevant_by_history (w_qos w) i"
      and p: "bm_get (matched_readers w) g = Some p" and ll: "destination (w_guid w) p = Some ll" "l \<in> set ll"
    for i g p ll l
  proof -
    let ?n = "rev (u # us) ! i"
    from registered_entry [OF inv p] i push Cons obtain q where
      q: "bm_get (matched_readers (registered w)) g = Some q" "same_reader p q"
      "rp_entry q ?n = Some (ChangeForReader_new ?n Unsent True)"
      by (metis (full_types))
    have "\<not> is_acked ?n q" using q(3) by (simp add: is_acked_def rp_entry_def)
    note keep = remove_acked_changes_keeps [OF w2(1) q(1) this]
    from keep(2) obtain q' where q': "bm_get (matched_readers w2) g = Some q'"
      "rp_entry q' ?n = rp_entry q ?n" "same_reader q q'" by blast
    have "destination (w_guid w2) q' = Some ll"
      using ll same_reader_frame(2) [OF q(2)] same_reader_frame(2) [OF q'(3)] f2(1) by simp
    then have "data_sent now (w_guid w2) (the (get_change (w_guid w2) ?n (writer_cache w2))) g l
        (w_udp_sender w3)"
      using w3(5) q' q(3) ll(2) by fastforce
    then show ?thesis using keep(1) f2(1) by simp
  qed
  with run w3 unproc Cons show ?thesis by auto
qed

section \<open>Properties\<close>

lemmas ex_qos_defs = ex_writer_qos_def datawriter_build_def DataWriterQosBuilder_new_def
  decide_value_def default_durability_def default_history_def

definition ex_topic :: Topic where
  "ex_topic = \<lparr>topic_name = ''Square'', type_desc = ''ShapeType'',
     topic_qos = topic_build TopicQosBuilder_new, topic_kind = WithKey\<rparr>"

definition ex_cache :: "SequenceNumber list \<Rightarrow> HistoryCache" where
  "ex_cache us =
     (store_change (ex_change 2) (store_change (ex_change 1) (HistoryCache_new HCWriter)))
       \<lparr>unprocessed_seqnum := us\<rparr>"

definition ex_matched_reader :: "(SequenceNumber, ChangeForReader) btree_map \<Rightarrow> ReaderProxy" where
  "ex_matched_reader cs = (ex_reader_proxy cs)\<lparr>rp_unicast_locator_list := [ex_locator 1]\<rparr>"

text \<open>A reliable writer with two changes and one reader in the given state.\<close>

definition ex_writer :: "SequenceNumber list \<Rightarrow> (SequenceNumber, ChangeForReader) btree_map \<Rightarrow> Writer" where
  "ex_writer us cs =
     \<lparr>w_guid = ex_guid, w_topic_kind = WithKey, w_reliability_level = Reliable,
      w_unicast_locator_list = [], w_multicast_locator_list = [], push_mode = True,
      w_heartbeat_period = DURATION_ZERO, w_nack_response_delay = DURATION_ZERO,
      w_nack_suppression_duration = DURATION_ZERO, writer_cache = ex_cache us,
      w_data_max_size_serialized = 0, reader_locators = [],
      matched_readers = [(ex_reader_guid, ex_matched_reader cs)], total_matched_readers = [ex_reader_guid],
      w_topic = ex_topic, w_qos = ex_writer_qos, w_endianness = LittleEndian,
      writer_state_notifier = [], participant_msg_cmd_sender = [], w_udp_sender = [], hb_counter = 0,
      an_state = Waiting, w_unmatch_count = 0, is_alive = True\<rparr>"

lemma ex_cache_changes [simp]:
  "changes (ex_cache us) = [(HCKey ex_guid 1, ex_change 1), (HCKey ex_guid 2, ex_change 2)]"
  "unprocessed_seqnum (ex_cache us) = us" "hc_type (ex_cache us) = HCWriter"
  by (simp_all add: ex_cache_def ex_cache_defs)

lemma ex_cache_ok: "us = [] \<or> us = [2] \<Longrightarrow> cache_ok ex_guid (ex_cache us)"
proof -
  assume us: "us = [] \<or> us = [2]"
  then have "hc_inv (ex_cache us)"
    by (auto simp: hc_inv_def ex_cache_def ex_cache_defs kind_index_ok_def kind_keys_def bm_wf_def bs_wf_def)
  with us show ?thesis by (auto simp: cache_ok_def get_change_def i64_max_def)
qed

lemma ex_destination: "destination ex_guid (ex_matched_reader cs) = Some [ex_locator 1]"
  by (simp add: destination_def ex_guid_def is_builtin_def ex_matched_reader_def ex_reader_proxy_def
      get_unicast_ll_from_proxy_def rp_get_unicast_locator_list_def entity_id_defs entity_kind_defs)

lemma ex_writer_inv:
  assumes "us = [] \<or> us = [2]" and "bm_wf cs" and "list_all (\<lambda>(n, e). cfr_seq_num e = n \<and> n \<in> {1, 2}) cs"
  shows "writer_inv (ex_writer us cs)"
  using assms ex_cache_ok [OF assms(1)]
  by (auto simp: writer_inv_def ex_writer_def reader_ok_def rp_wf_def ex_matched_reader_def
      ex_reader_proxy_def list_all_iff get_change_def i64_max_def bm_wf_def [of "[_]"] bs_wf_def [of "[_]"])

lemma ex_writer_sel [simp]:
  "push_mode (ex_writer us cs)" "writer_cache (ex_writer us cs) = ex_cache us"
  "w_guid (ex_writer us cs) = ex_guid" "an_state (ex_writer us cs) = Waiting"
  "w_nack_response_delay (ex_writer us cs) = DURATION_ZERO" "hb_counter (ex_writer us cs) = 0"
  "matched_readers (ex_writer us cs) = [(ex_reader_guid, ex_matched_reader cs)]"
  "w_qos (ex_writer us cs) = ex_writer_qos"
  by (simp_all add: ex_writer_def)

lemma handle_write_data_cmd_idle:
  assumes "writer_inv w" and "unprocessed_seqnum (writer_cache w) = []"
  shows "handle_write_data_cmd now w = Inr (w\<lparr>is_alive := True\<rparr>, None)"
proof -
  have "hc_type (writer_cache w) = HCWriter" using writer_invD(3) [OF assms(1)] by (simp add: cache_ok_def)
  moreover have "(writer_cache w)\<lparr>unprocessed_seqnum := []\<rparr> = writer_cache w" using assms(2) by simp
  ultimately show ?thesis using assms(2) by (simp add: handle_write_data_cmd_def get_unprocessed_def)
qed

text \<open>
  C1. A write command of a reliable writer never panics in a state that satisfies the invariant, and keeps
  that invariant. If no sample is unprocessed it only marks the writer as alive: what is still unsent to a reader
  stays unsent. Otherwise it takes all unprocessed samples and leaves nothing unsent to any matched reader, and,
  in push mode, puts every sample that the history depth makes relevant on the network for
  every locator of the list that the writer prefers for a matched reader (\<open>destination\<close>: the unicast
  list of a user endpoint, the multicast list of a built-in one, with the fallback of the code), addressed to that reader or to all
  readers there.
\<close>

theorem write_reaches_readers:
  assumes inv: "writer_inv w"
  shows "\<exists>w' t. handle_write_data_cmd now w = Inr (w', t) \<and> writer_inv w' \<and>
    unprocessed_seqnum (writer_cache w') = [] \<and>
    (unprocessed_seqnum (writer_cache w) = [] \<longrightarrow> w' = w\<lparr>is_alive := True\<rparr> \<and> t = None) \<and>
    (unprocessed_seqnum (writer_cache w) \<noteq> [] \<longrightarrow>
      (\<forall>g p. bm_get (matched_readers w') g = Some p \<longrightarrow> in_status Unsent p = {})) \<and>
    (push_mode w \<longrightarrow> (\<forall>i < length (unprocessed_seqnum (writer_cache w)).
      relevant_by_history (w_qos w) i \<longrightarrow> (\<forall>g p ll l. bm_get (matched_readers w) g = Some p \<longrightarrow>
        destination (w_guid w) p = Some ll \<longrightarrow> l \<in> set ll \<longrightarrow>
        data_sent now (w_guid w)
          (the (get_change (w_guid w) (rev (unprocessed_seqnum (writer_cache w)) ! i) (writer_cache w)))
          g l (w_udp_sender w'))))"
  using handle_write_data_cmd_total [OF inv, of now] handle_write_data_cmd_idle [OF inv, of now]
  by (cases "unprocessed_seqnum (writer_cache w) = []") (simp, blast)

theorem write_reaches_readers_witness:
  "writer_inv (ex_writer [2] [(1, ChangeForReader_new 1 Acknowledged True)]) \<and>
   (\<exists>w' t. handle_write_data_cmd (Some \<lparr>ts_seconds = 5, ts_fraction = 0\<rparr>)
       (ex_writer [2] [(1, ChangeForReader_new 1 Acknowledged True)]) = Inr (w', t) \<and>
     data_sent (Some \<lparr>ts_seconds = 5, ts_fraction = 0\<rparr>) ex_guid (ex_change 2) ex_reader_guid
       (ex_locator 1) (w_udp_sender w'))"
proof -
  let ?w = "ex_writer [2] [(1, ChangeForReader_new 1 Acknowledged True)]"
  have inv: "writer_inv ?w" by (rule ex_writer_inv) (simp_all add: ChangeForReader_new_def bm_wf_def bs_wf_def)
  have rel: "relevant_by_history ex_writer_qos 0"
    by (simp add: relevant_by_history_def ex_qos_defs wrap_u_def Let_def)
  have change: "get_change ex_guid 2 (ex_cache [2]) = Some (ex_change 2)" by (simp add: get_change_def)
  from write_reaches_readers [OF inv, of "Some \<lparr>ts_seconds = 5, ts_fraction = 0\<rparr>"] rel ex_destination change inv
  show ?thesis by fastforce
qed

text \<open>
  C36. Removing acknowledged changes is safe: a change that some matched reader has been told about
  and has not acknowledged keeps its place in the cache and in that reader's proxy, with its data.
\<close>

theorem unacked_changes_kept:
  assumes "remove_acked_changes base w = Inr w'"
    and "bm_get (matched_readers w) g = Some p" and "\<not> is_acked n p"
  shows "get_change (w_guid w) n (writer_cache w') = get_change (w_guid w) n (writer_cache w) \<and>
    (\<exists>p'. bm_get (matched_readers w') g = Some p' \<and> rp_entry p' n = rp_entry p n)"
  using remove_acked_changes_keeps [OF assms] by blast

theorem unacked_changes_kept_witness:
  "let w = ex_writer [] [(1, ChangeForReader_new 1 Acknowledged True),
                         (2, ChangeForReader_new 2 Underway True)]
   in \<exists>w'. remove_acked_changes 3 w = Inr w' \<and> get_change ex_guid 1 (writer_cache w') = None \<and>
        get_change ex_guid 2 (writer_cache w') = Some (ex_change 2)"
proof -
  let ?cs = "[(1, ChangeForReader_new 1 Acknowledged True), (2, ChangeForReader_new 2 Underway True)]"
  let ?w = "ex_writer [] ?cs"
  let ?v = "fold remove_acked_key [HCKey ex_guid 1] ?w"
  have acked: "is_acked 1 (ex_matched_reader ?cs)" "\<not> is_acked 2 (ex_matched_reader ?cs)"
    by (simp_all add: is_acked_def ex_matched_reader_def ex_reader_proxy_def)
  have "\<not> is_builtin (entity_id ex_guid)"
    by (simp add: ex_guid_def is_builtin_def entity_id_defs entity_kind_defs)
  moreover have "fst (dw_durability ex_writer_qos) = Volatile"
    by (simp add: ex_qos_defs)
  ultimately have run: "remove_acked_changes 3 ?w = Inr ?v"
    using acked by (simp add: remove_acked_changes_def Let_def is_acked_by_all_def)
  have p: "bm_get (matched_readers ?w) ex_reader_guid = Some (ex_matched_reader ?cs)" by simp
  from unacked_changes_kept [OF run p acked(2)]
  have "get_change ex_guid 2 (writer_cache ?v) = Some (ex_change 2)" by (simp add: get_change_def)
  moreover have "get_change ex_guid 1 (writer_cache ?v) = None"
    by (simp add: remove_acked_key_def get_change_def remove_change_changes pinned_def)
  ultimately show ?thesis using run by (simp add: Let_def)
qed

end
