(* ===== verification/Umber_WriterNack.thy ===== *)
theory Umber_WriterNack
  imports Umber_WriterInv
begin

text \<open>
  The writer's repair protocol: an ACKNACK marks the changes below its base as acknowledged and the
  listed ones as requested, the requested changes are sent again, and changes that every reader has
  acknowledged are dropped.
\<close>

section \<open>The writer apart from its counter of heartbeats\<close>

definition calm :: "Writer \<Rightarrow> Writer" where
  "calm w = w\<lparr>w_udp_sender := [], hb_counter := 0\<rparr>"

lemma quiet_calm: "quiet v = quiet w \<Longrightarrow> calm v = calm w"
  unfolding quiet_def calm_def
  by (metis (no_types, lifting) Writer.fold_congs(20) Writer.update_convs(20,21))

lemma calm_count [simp]: "calm (w\<lparr>hb_counter := c\<rparr>) = calm w"
  by (simp add: calm_def)

lemma calm_fields:
  assumes "calm v = calm w"
  shows "w_guid v = w_guid w" "writer_cache v = writer_cache w" "matched_readers v = matched_readers w"
    "w_reliability_level v = w_reliability_level w" "w_qos v = w_qos w" "an_state v = an_state w"
    "push_mode v = push_mode w"
  using assms by (auto simp: calm_def dest: arg_cong [of _ _ w_guid] arg_cong [of _ _ writer_cache]
      arg_cong [of _ _ matched_readers] arg_cong [of _ _ w_reliability_level] arg_cong [of _ _ w_qos]
      arg_cong [of _ _ an_state] arg_cong [of _ _ push_mode])

lemma calm_inv: "calm v = calm w \<Longrightarrow> writer_inv v = writer_inv w"
  using calm_fields [of v w] by (simp only: writer_inv_def)

lemma emit_heartbeats_frame:
  "quiet (emit_heartbeats now lv fsn lsn c rls w) = quiet w \<and>
   sent_more w (emit_heartbeats now lv fsn lsn c rls w)"
proof -
  have "quiet (fold (\<lambda>(reid, loc) w. emit loc (heartbeat_message now w lv reid fsn lsn c) w) xs w) = quiet w \<and>
      sent_more w (fold (\<lambda>(reid, loc) w. emit loc (heartbeat_message now w lv reid fsn lsn c) w) xs w)" for xs
    by (induction xs arbitrary: w)
      (auto split: prod.splits intro: sent_more_trans [OF sent_more_emit])
  then show ?thesis by (simp add: emit_heartbeats_def)
qed

section \<open>Sending requested changes again\<close>

lemma resend_step_total:
  assumes "hb_counter w + 1 < 2 ^ 31" and "0 \<le> n" and "n < i64_max"
  shows "\<exists>w'. resend_step now (n, rls) w = Inr w' \<and> calm w' = calm w \<and> sent_more w w' \<and>
    hb_counter w' \<le> hb_counter w + 1 \<and>
    (\<forall>c. get_change (w_guid w) n (writer_cache w) = Some c \<longrightarrow> (\<forall>(reid, loc) \<in> set (min_message_cover rls).
      set (send_msg_to_locator loc (data_msg now (w_guid w) reid c)) \<subseteq> set (w_udp_sender w')))"
proof (cases "get_change (w_guid w) n (writer_cache w)")
  case None
  let ?w = "w\<lparr>hb_counter := hb_counter w + 1\<rparr>"
  let ?e = "emit_heartbeats now False (n + 1) (get_seq_num_max (writer_cache w)) (hb_counter w) rls ?w"
  have "in_i64 (n + 1)" using assms(2,3) by (simp add: in_i64_def i64_max_def)
  then have "resend_step now (n, rls) w = Inr (if min_message_cover rls = [] then ?w else ?e)"
    using None assms(1) by (simp add: resend_step_def i32_inc_def i64_add_def Let_def)
  moreover note emit_heartbeats_frame [of now False "n + 1" "get_seq_num_max (writer_cache w)" "hb_counter w" rls ?w]
  then have "calm ?e = calm w" "sent_more w ?e" "hb_counter ?e = hb_counter w + 1"
    using quiet_calm [of ?e ?w] quiet_fields(7) [of ?e ?w] by (simp_all add: sent_more_def)
  moreover have "sent_more w ?w" by (simp add: sent_more_def)
  ultimately show ?thesis using None by auto
next
  case (Some c)
  then have "resend_step now (n, rls) w = Inr (emit_data now c rls w)" by (simp add: resend_step_def)
  then show ?thesis
    using Some quiet_calm [OF emit_data_spec(1)] quiet_fields(7) [OF emit_data_spec(1)]
    by (auto simp: emit_data_spec(2))
qed

lemma resend_loop:
  assumes "hb_counter w + int (length xs) < 2 ^ 31" and "\<forall>(n, rls) \<in> set xs. 0 \<le> n \<and> n < i64_max"
  shows "\<exists>w'. rfold (resend_step now) xs w = Inr w' \<and> calm w' = calm w \<and> sent_more w w' \<and>
    (\<forall>(n, rls) \<in> set xs. \<forall>c. get_change (w_guid w) n (writer_cache w) = Some c \<longrightarrow>
      (\<forall>(reid, loc) \<in> set (min_message_cover rls).
        set (send_msg_to_locator loc (data_msg now (w_guid w) reid c)) \<subseteq> set (w_udp_sender w')))"
  using assms
proof (induction xs arbitrary: w)
  case Nil
  then show ?case by simp
next
  case (Cons x xs)
  obtain n rls where x: "x = (n, rls)" by (cases x)
  from Cons.prems x have "hb_counter w + 1 < 2 ^ 31" "0 \<le> n" "n < i64_max" by auto
  from resend_step_total [OF this, of now rls] obtain v where
    v: "resend_step now x w = Inr v" "calm v = calm w" "sent_more w v" "hb_counter v \<le> hb_counter w + 1"
    "\<forall>c. get_change (w_guid w) n (writer_cache w) = Some c \<longrightarrow> (\<forall>(reid, loc) \<in> set (min_message_cover rls).
      set (send_msg_to_locator loc (data_msg now (w_guid w) reid c)) \<subseteq> set (w_udp_sender v))"
    using x by blast
  note f = calm_fields [OF v(2)]
  from Cons.IH [of v] Cons.prems v(4) f obtain w' where
    w': "rfold (resend_step now) xs v = Inr w'" "calm w' = calm v" "sent_more v w'"
    "\<forall>(n, rls) \<in> set xs. \<forall>c. get_change (w_guid w) n (writer_cache w) = Some c \<longrightarrow>
      (\<forall>(reid, loc) \<in> set (min_message_cover rls).
        set (send_msg_to_locator loc (data_msg now (w_guid w) reid c)) \<subseteq> set (w_udp_sender w'))"
    by auto
  have "\<forall>c. get_change (w_guid w) n (writer_cache w) = Some c \<longrightarrow> (\<forall>(reid, loc) \<in> set (min_message_cover rls).
      set (send_msg_to_locator loc (data_msg now (w_guid w) reid c)) \<subseteq> set (w_udp_sender w'))"
    using v(5) sent_more_set [OF w'(3)] by blast
  with w' v sent_more_trans [OF v(3) w'(3)] show ?case by (auto simp: x)
qed

lemma emit_gaps_loop:
  assumes "\<forall>x \<in> set xs. 0 \<le> fst x \<and> fst x < i64_max"
  shows "\<exists>w'. rfold emit_gaps xs w = Inr w' \<and> quiet w' = quiet w \<and> sent_more w w'"
proof (rule rfold_total [where P = "\<lambda>v. quiet v = quiet w \<and> sent_more w v"])
  fix x v
  assume "x \<in> set xs" and v: "quiet v = quiet w \<and> sent_more w v"
  with assms have "0 \<le> fst x" "fst x < i64_max" by auto
  from emit_gaps_total [OF this, of v] v show "\<exists>s'. emit_gaps x v = Inr s' \<and> quiet s' = quiet w \<and> sent_more w s'"
    by (metis sent_more_trans)
qed simp

section \<open>The state of the proxies\<close>

lemma reader_ok_underway:
  assumes "reader_ok self cache g p" and "rp_wf q" and "same_reader p q"
    and "\<And>n. rp_entry q n = underway st (rp_entry p n)"
  shows "reader_ok self cache g q"
proof (rule reader_okI [OF assms(2)])
  note ok = reader_okD [OF assms(1)]
  show "remote_reader_guid q = g" using same_reader_frame(1) [OF assms(3)] ok(2) by simp
  fix n e
  assume "rp_entry q n = Some e"
  then obtain d where d: "rp_entry p n = Some d" and e: "e = (if cfr_status d = st then d\<lparr>cfr_status := Underway\<rparr> else d)"
    by (auto simp: assms(4) underway_def)
  from ok(3) [OF d] show "0 \<le> n \<and> n < i64_max" .
  assume "cfr_status e = Unsent" "cfr_is_relevant e"
  then show "get_change self n cache \<noteq> None" using ok(4) [OF d] by (auto simp: e split: if_splits)
qed

lemma put_reader_inv:
  assumes "writer_inv w" and "reader_ok (w_guid w) (writer_cache w) g q"
    and "bm_get (matched_readers w) g = Some p"
  shows "writer_inv (w\<lparr>matched_readers := bm_adjust g (\<lambda>_. q) (matched_readers w)\<rparr>)"
  using writer_invD [OF assms(1)] assms(2,3)
  by (intro writer_invI) (auto split: if_splits)

lemma send_map_length:
  assumes "sm_wf d" and "\<And>n. sends d n \<subseteq> to_send self st rel p n"
  shows "length d \<le> length (rp_cache_state p)"
proof -
  have "set (bm_keys d) \<subseteq> set (bm_keys (rp_cache_state p))"
  proof
    fix n
    assume "n \<in> set (bm_keys d)"
    then obtain v where "(n, v) \<in> set d" by auto
    then have "sends d n \<noteq> {}" using sm_sends [OF assms(1)] by auto
    then show "n \<in> set (bm_keys (rp_cache_state p))"
      using assms(2) [of n] by (auto simp: to_send_def rp_entry_def dest: bm_get_Some_key)
  qed
  then have "card (set (bm_keys d)) \<le> card (set (bm_keys (rp_cache_state p)))"
    by (rule card_mono [rotated]) simp
  also have "\<dots> \<le> length (bm_keys (rp_cache_state p))" by (rule card_length)
  finally show ?thesis
    using distinct_card [OF bm_wf_distinct, of d] assms(1) by (simp add: sm_wf_def)
qed

lemma send_map_range:
  assumes "sm_wf d" and "\<And>n. sends d n \<subseteq> to_send self st rel p n" and "reader_ok self cache g p"
  shows "\<forall>x \<in> set d. 0 \<le> fst x \<and> fst x < i64_max"
proof
  fix x
  assume "x \<in> set d"
  then have "sends d (fst x) \<noteq> {}" using sm_sends [OF assms(1), of "fst x" "snd x"] by auto
  then obtain e where "rp_entry p (fst x) = Some e" using assms(2) [of "fst x"] by (auto simp: to_send_def)
  then show "0 \<le> fst x \<and> fst x < i64_max" using reader_okD(3) [OF assms(3)] by simp
qed

text \<open>
  The response to a negative acknowledgement: every change the reader has requested and the cache
  still has is sent to it again; no change stays requested.
\<close>

lemma handle_nack_response_timeout_total:
  assumes inv: "writer_inv w" and p: "bm_get (matched_readers w) g = Some p"
    and count: "hb_counter w + int (length (rp_cache_state p)) < 2 ^ 31"
  shows "\<exists>w' p'. handle_nack_response_timeout now g w = Inr w' \<and> writer_inv w' \<and> sent_more w w' \<and>
    an_state w' = Waiting \<and> w_guid w' = w_guid w \<and> writer_cache w' = writer_cache w \<and> w_qos w' = w_qos w \<and>
    matched_readers w' = bm_adjust g (\<lambda>_. p') (matched_readers w) \<and> same_reader p p' \<and>
    (\<forall>n. rp_entry p' n = underway Requested (rp_entry p n)) \<and>
    (\<forall>n e c ll l. rp_entry p n = Some e \<longrightarrow> cfr_status e = Requested \<longrightarrow> cfr_is_relevant e \<longrightarrow>
      get_change (w_guid w) n (writer_cache w) = Some c \<longrightarrow> destination (w_guid w) p = Some ll \<longrightarrow>
      l \<in> set ll \<longrightarrow> data_sent now (w_guid w) c g l (w_udp_sender w'))"
proof -
  let ?self = "w_guid w"
  note ok = writer_invD(5) [OF inv p]
  from collect_changes_spec [OF reader_okD(1) [OF ok] sm_wf_Nil sm_wf_Nil selects_requested _ card_in_status, of ?self]
  obtain p' d gs where col: "collect_changes (length (rp_cache_state p)) next_requested_change ?self p ([], []) =
      Inr (p', d, gs)" and p': "rp_wf p'" "same_reader p p'" "\<And>n. rp_entry p' n = underway Requested (rp_entry p n)"
    and d: "sm_wf d" "\<And>n. sends d n = to_send ?self Requested True p n"
    and gs: "sm_wf gs" "\<And>n. sends gs n = to_send ?self Requested False p n"
    by auto
  let ?v = "w\<lparr>matched_readers := bm_adjust g (\<lambda>_. p') (matched_readers w)\<rparr>"
  let ?w = "w\<lparr>an_state := Repairing, matched_readers := bm_adjust g (\<lambda>_. p') (matched_readers w)\<rparr>"
  have inv0: "writer_inv ?v" using put_reader_inv [OF inv reader_ok_underway [OF ok p'] p] .
  have "hb_counter ?w + int (length d) < 2 ^ 31"
    using count send_map_length [OF d(1) equalityD1 [OF d(2)]] by simp
  moreover have "\<forall>(n, rls) \<in> set d. 0 \<le> n \<and> n < i64_max"
    using send_map_range [OF d(1) equalityD1 [OF d(2)] ok] by auto
  ultimately obtain w1 where w1: "rfold (resend_step now) d ?w = Inr w1" "calm w1 = calm ?w" "sent_more ?w w1"
    "\<forall>(n, rls) \<in> set d. \<forall>c. get_change ?self n (writer_cache w) = Some c \<longrightarrow>
      (\<forall>(reid, loc) \<in> set (min_message_cover rls).
        set (send_msg_to_locator loc (data_msg now ?self reid c)) \<subseteq> set (w_udp_sender w1))"
    using resend_loop [of ?w d now] by auto
  from emit_gaps_loop [OF send_map_range [OF gs(1) equalityD1 [OF gs(2)] ok]] obtain w2 where
    w2: "rfold emit_gaps gs w1 = Inr w2" "quiet w2 = quiet w1" "sent_more w1 w2" by blast
  let ?w3 = "w2\<lparr>an_state := Waiting\<rparr>"
  have calm: "calm w2 = calm ?w" using quiet_calm [OF w2(2)] w1(2) by simp
  note f = calm_fields [OF calm]
  have "writer_inv ?w3" using inv0 f by (simp add: writer_inv_def)
  moreover have "sent_more w ?w3" using sent_more_trans [OF w1(3) w2(3)] by (simp add: sent_more_def)
  moreover have "handle_nack_response_timeout now g w = Inr ?w3"
    using p col w1(1) w2(1) by (simp add: handle_nack_response_timeout_def)
  moreover have "data_sent now ?self c g l (w_udp_sender ?w3)"
    if e: "rp_entry p n = Some e" "cfr_status e = Requested" "cfr_is_relevant e"
      and c: "get_change ?self n (writer_cache w) = Some c" and ll: "destination ?self p = Some ll" "l \<in> set ll"
    for n e c ll l
  proof -
    have "(g, ll) \<in> sends d n" unfolding d(2) to_send_def using e ll(1) reader_okD(2) [OF ok] by blast
    then obtain rls where rls: "(n, rls) \<in> set d" "(g, ll) \<in> set rls"
      using sm_key [OF d(1)] by (auto simp: sends_def split: option.splits)
    from cover_reaches [OF rls(2) ll(2)] w1(4) rls(1) c
    have "data_sent now ?self c g l (w_udp_sender w1)" by (fastforce simp: data_sent_def)
    then show ?thesis using data_sent_mono [OF _ sent_more_set [OF w2(3)]] by simp
  qed
  ultimately show ?thesis using p' f by (intro exI [of _ ?w3] exI [of _ p']) simp
qed

section \<open>The acknowledgement\<close>

text \<open>The proxy after an ACKNACK with base \<open>b\<close> that requests \<open>ns\<close>.\<close>

definition nacked :: "SequenceNumber \<Rightarrow> SequenceNumber list \<Rightarrow> ReaderProxy \<Rightarrow> ReaderProxy" where
  "nacked b ns p = requested_changes_set ns (acked_changes_set (b - 1) p)"

lemma nacked_spec:
  assumes "rp_wf p" and "\<forall>n \<in> set ns. b \<le> n \<and> n < i64_max"
  shows "rp_wf (nacked b ns p)"
    and "rp_entry (nacked b ns p) n =
      (if n \<in> set ns then Some (requested_entry n (rp_entry p n))
       else if n < b then map_option (\<lambda>e. e\<lparr>cfr_status := Acknowledged\<rparr>) (rp_entry p n) else rp_entry p n)"
proof -
  have "\<forall>n \<in> set ns. n \<le> i64_max" using assms(2) by auto
  note r = requested_changes_set_spec [OF acked_changes_set_wf [OF assms(1)] this, of "b - 1"]
  show "rp_wf (nacked b ns p)" unfolding nacked_def by (rule r(1))
  show "rp_entry (nacked b ns p) n =
      (if n \<in> set ns then Some (requested_entry n (rp_entry p n))
       else if n < b then map_option (\<lambda>e. e\<lparr>cfr_status := Acknowledged\<rparr>) (rp_entry p n) else rp_entry p n)"
    unfolding nacked_def r(2) acked_changes_set_entry [OF assms(1)] using assms(2) by auto
qed

lemma same_reader_fold: "(\<And>x q. same_reader q (f x q)) \<Longrightarrow> same_reader p (fold f xs p)"
  by (induction xs arbitrary: p) (auto intro: same_reader_trans)

lemma nacked_same: "same_reader p (nacked b ns p)"
proof -
  have "same_reader p (acked_changes_set (b - 1) p)"
    unfolding acked_changes_set_def Let_def
    by (rule same_reader_fold) (simp add: same_reader_def rp_update_cache_state_def split: prod.splits)
  moreover have "same_reader q (fold request_change ns q)" for q
    by (rule same_reader_fold)
      (simp add: request_change_def same_reader_def Let_def rp_update_cache_state_def split: option.splits)
  ultimately show ?thesis
    unfolding nacked_def requested_changes_set_def using same_reader_trans by blast
qed

lemma nacked_length:
  assumes "rp_wf p" and "\<forall>n \<in> set ns. b \<le> n \<and> n < i64_max"
  shows "length (rp_cache_state (nacked b ns p)) \<le> length (rp_cache_state p) + length ns"
proof -
  let ?k = "\<lambda>q. set (bm_keys (rp_cache_state q))"
  have key: "n \<in> ?k q \<longleftrightarrow> rp_entry q n \<noteq> None" for q n
    by (simp add: rp_entry_def bm_get_None)
  have "?k (nacked b ns p) \<subseteq> ?k p \<union> set ns"
    by (auto simp: key nacked_spec(2) [OF assms] simp del: set_map split: if_splits)
  then have "card (?k (nacked b ns p)) \<le> card (?k p \<union> set ns)" by (rule card_mono [rotated]) simp
  also have "\<dots> \<le> card (?k p) + card (set ns)" by (rule card_Un_le)
  also have "\<dots> \<le> length (rp_cache_state p) + length ns"
    using card_length [of "bm_keys (rp_cache_state p)"] card_length [of ns] by simp
  finally show ?thesis
    using distinct_card [OF bm_wf_distinct [OF rp_wfD(1) [OF nacked_spec(1) [OF assms]]]] by simp
qed

lemma nacked_ok:
  assumes "reader_ok self cache g p" and "\<forall>n \<in> set ns. b \<le> n \<and> n < i64_max" and "0 \<le> b"
  shows "reader_ok self cache g (nacked b ns p)"
proof (rule reader_okI [OF nacked_spec(1) [OF reader_okD(1) [OF assms(1)] assms(2)]])
  note ok = reader_okD [OF assms(1)]
  note e = nacked_spec(2) [OF ok(1) assms(2)]
  show "remote_reader_guid (nacked b ns p) = g"
    using same_reader_frame(1) [OF nacked_same] ok(2) by simp
  fix n d
  assume d: "rp_entry (nacked b ns p) n = Some d"
  then show "0 \<le> n \<and> n < i64_max" using assms(2,3) ok(3) by (fastforce simp: e split: if_splits)
  assume "cfr_status d = Unsent" "cfr_is_relevant d"
  then show "get_change self n cache \<noteq> None"
    using d ok(4) by (auto simp: e requested_entry_def ChangeForReader_new_def split: if_splits option.splits)
qed

text \<open>Removing acknowledged changes takes no acknowledgement back.\<close>

lemma remove_acked_changes_reader:
  assumes "remove_acked_changes base w = Inr w'" and "bm_get (matched_readers w) g = Some p"
  shows "\<exists>p'. bm_get (matched_readers w') g = Some p' \<and> same_reader p p' \<and>
    (\<forall>n. is_acked n p \<longrightarrow> is_acked n p')"
proof -
  from assms(1) obtain ks where "w' = fold remove_acked_key ks w"
    by (auto simp: remove_acked_changes_def Let_def rbind_Inr_iff intro: that [of "[]"] split: if_splits)
  moreover have "same_reader p (fold rp_remove_cache_state ns p)" for ns
    by (rule same_reader_fold) (simp add: same_reader_def rp_remove_cache_state_def)
  moreover have "is_acked n p \<longrightarrow> is_acked n (fold rp_remove_cache_state ns p)" for n ns
    using rp.fold_forget_entry [of ns p n] by (simp add: is_acked_def rp_entry_def)
  ultimately show ?thesis using assms(2) by (simp add: fold_remove_acked)
qed

text \<open>The part of the handler before the removal of acknowledged changes.\<close>

lemma acknack_repair:
  assumes inv: "writer_inv w" and p: "bm_get (matched_readers w) g = Some p"
    and ns: "\<forall>n \<in> set ns. b \<le> n \<and> n < i64_max" and b: "0 \<le> b"
    and idle: "an_state w = Waiting" "w_nack_response_delay w = DURATION_ZERO"
    and count: "hb_counter w + int (length (rp_cache_state p)) + int (length ns) < 2 ^ 31"
    and v: "v = w\<lparr>matched_readers := bm_adjust g (\<lambda>_. nacked b ns p) (matched_readers w)\<rparr>"
  shows "\<exists>w' p'. (if requested_changes (nacked b ns p) \<noteq> [] then handle_nack_response_timeout now g v else Inr v) = Inr w' \<and>
    writer_inv w' \<and> an_state w' = Waiting \<and> w_guid w' = w_guid w \<and> writer_cache w' = writer_cache w \<and>
    bm_get (matched_readers w') g = Some p' \<and> same_reader p p' \<and>
    (\<forall>n < b. is_acked n p') \<and> (\<forall>n \<in> set ns. \<exists>e. rp_entry p' n = Some e \<and> cfr_status e = Underway) \<and>
    (\<forall>n \<in> set ns. (\<forall>e. rp_entry p n = Some e \<longrightarrow> cfr_is_relevant e) \<longrightarrow>
      (\<exists>e. rp_entry p' n = Some e \<and> cfr_is_relevant e) \<and> (\<forall>c ll l.
      get_change (w_guid w) n (writer_cache w) = Some c \<longrightarrow> destination (w_guid w) p = Some ll \<longrightarrow>
      l \<in> set ll \<longrightarrow> data_sent now (w_guid w) c g l (w_udp_sender w')))"
proof -
  let ?q = "nacked b ns p"
  note okp = writer_invD(5) [OF inv p]
  note e = nacked_spec [OF reader_okD(1) [OF okp] ns]
  have inv': "writer_inv v" unfolding v by (rule put_reader_inv [OF inv nacked_ok [OF okp ns b] p])
  have q: "bm_get (matched_readers v) g = Some ?q" using p by (simp add: v)
  have relevant: "cfr_is_relevant (requested_entry n (rp_entry p n))"
    if "\<forall>e. rp_entry p n = Some e \<longrightarrow> cfr_is_relevant e" for n
    using that by (auto simp: requested_entry_def ChangeForReader_new_def split: option.splits)
  have req: "cfr_status (requested_entry n x) = Requested" for n x
    by (simp add: requested_entry_def ChangeForReader_new_def split: option.splits)
  have acked: "is_acked n r" if "rp_entry r n = underway Requested (rp_entry ?q n)" "n < b" for n r
    using that ns by (auto simp: is_acked_def rp_entry_def [symmetric] underway_def e(2) split: option.splits)
  show ?thesis
  proof (cases "requested_changes ?q = []")
    case True
    have "n \<notin> set ns" for n
    proof
      let ?e = "requested_entry n (rp_entry p n)"
      assume "n \<in> set ns"
      then have entry: "rp_entry ?q n = Some ?e" by (simp add: e(2))
      then have "?e \<in> set (requested_changes ?q)"
        using status_list_set [OF e(1), of ?e "\<lambda>s. s = Requested"] rp_wfD(2) [OF e(1) entry] req
        by (simp add: requested_changes_def)
      with True show False by simp
    qed
    moreover have "\<forall>n < b. is_acked n ?q"
      using calculation by (auto simp: is_acked_def rp_entry_def [symmetric] e(2) split: option.splits)
    ultimately show ?thesis
      using True inv' q idle nacked_same by (intro exI [of _ v] exI [of _ ?q]) (auto simp: v)
  next
    case False
    have vf: "w_guid v = w_guid w" "writer_cache v = writer_cache w" by (simp_all add: v)
    have "hb_counter v + int (length (rp_cache_state ?q)) < 2 ^ 31"
      using count nacked_length [OF reader_okD(1) [OF okp] ns] by (simp add: v)
    from handle_nack_response_timeout_total [OF inv' q this, of now, unfolded vf] obtain w' r where
      r: "handle_nack_response_timeout now g v = Inr w'" "writer_inv w'" "an_state w' = Waiting"
      "w_guid w' = w_guid w" "writer_cache w' = writer_cache w"
      "matched_readers w' = bm_adjust g (\<lambda>_. r) (matched_readers v)" "same_reader ?q r"
      "\<And>n. rp_entry r n = underway Requested (rp_entry ?q n)"
      and sent: "\<And>n e c ll l. rp_entry ?q n = Some e \<Longrightarrow> cfr_status e = Requested \<Longrightarrow> cfr_is_relevant e \<Longrightarrow>
        get_change (w_guid w) n (writer_cache w) = Some c \<Longrightarrow> destination (w_guid w) ?q = Some ll \<Longrightarrow>
        l \<in> set ll \<Longrightarrow> data_sent now (w_guid w) c g l (w_udp_sender w')"
      by blast
    have "data_sent now (w_guid w) c g l (w_udp_sender w')"
      if "n \<in> set ns" "\<forall>e. rp_entry p n = Some e \<longrightarrow> cfr_is_relevant e"
        "get_change (w_guid w) n (writer_cache w) = Some c" "destination (w_guid w) p = Some ll" "l \<in> set ll" for n c ll l
      using sent [OF _ req relevant [OF that(2)] that(3) _ that(5)] that(1,4) e(2)
        same_reader_frame(2) [OF nacked_same] by simp
    moreover have "\<exists>e. rp_entry r n = Some e \<and> cfr_status e = Underway" if "n \<in> set ns" for n
      using that by (simp add: r(8) e(2) underway_def req)
    moreover have "\<exists>e. rp_entry r n = Some e \<and> cfr_is_relevant e"
      if "n \<in> set ns" "\<forall>e. rp_entry p n = Some e \<longrightarrow> cfr_is_relevant e" for n
      using that relevant [of n] by (simp add: r(8) e(2) underway_def req)
    moreover have "\<forall>n < b. is_acked n r" using acked r(8) by blast
    moreover have "same_reader p r" using same_reader_trans [OF nacked_same r(7)] .
    moreover have "bm_get (matched_readers w') g = Some r" using q by (simp add: r(6))
    ultimately show ?thesis using False r(1-5) by (intro exI [of _ w'] exI [of _ r]) simp
  qed
qed

lemma acknack_handled:
  assumes inv: "writer_inv w" and p: "bm_get (matched_readers w) g = Some p"
    and idle: "an_state w = Waiting" "w_nack_response_delay w = DURATION_ZERO"
    and base: "b = bitmap_base (reader_sn_state a)" "1 \<le> b" "b \<le> i64_max"
    and ns: "sns_set (reader_sn_state a) = Inr ns" "\<forall>n \<in> set ns. b \<le> n \<and> n < i64_max"
    and count: "hb_counter w + int (length (rp_cache_state p)) + int (length ns) < 2 ^ 31"
  shows "\<exists>w'. handle_acknack now a g w = Inr (w', None) \<and> writer_inv w' \<and> an_state w' = Waiting \<and>
    (\<exists>p'. bm_get (matched_readers w') g = Some p' \<and> same_reader p p' \<and> (\<forall>n < b. is_acked n p')) \<and>
    (\<forall>n \<in> set ns. \<forall>c. (\<forall>e. rp_entry p n = Some e \<longrightarrow> cfr_is_relevant e) \<longrightarrow>
      get_change (w_guid w) n (writer_cache w) = Some c \<longrightarrow>
      get_change (w_guid w) n (writer_cache w') = Some c \<and>
      (\<forall>ll l. destination (w_guid w) p = Some ll \<longrightarrow> l \<in> set ll \<longrightarrow>
        data_sent now (w_guid w) c g l (w_udp_sender w')))"
proof -
  define v where "v = w\<lparr>matched_readers := bm_adjust g (\<lambda>_. nacked b ns p) (matched_readers w)\<rparr>"
  have "0 \<le> b" using base by simp
  from acknack_repair [OF inv p ns(2) this idle count v_def, of now] obtain w1 p1 where
    run: "(if requested_changes (nacked b ns p) \<noteq> [] then handle_nack_response_timeout now g v else Inr v) = Inr w1"
    and w1: "writer_inv w1" "an_state w1 = Waiting" "w_guid w1 = w_guid w" "writer_cache w1 = writer_cache w"
    "bm_get (matched_readers w1) g = Some p1" "same_reader p p1" "\<forall>n < b. is_acked n p1"
    and under: "\<And>n. n \<in> set ns \<Longrightarrow> \<exists>e. rp_entry p1 n = Some e \<and> cfr_status e = Underway"
    and sent: "\<And>n. n \<in> set ns \<Longrightarrow> (\<forall>e. rp_entry p n = Some e \<longrightarrow> cfr_is_relevant e) \<Longrightarrow>
      (\<exists>e. rp_entry p1 n = Some e \<and> cfr_is_relevant e) \<and> (\<forall>c ll l.
      get_change (w_guid w) n (writer_cache w) = Some c \<longrightarrow> destination (w_guid w) p = Some ll \<longrightarrow>
      l \<in> set ll \<longrightarrow> data_sent now (w_guid w) c g l (w_udp_sender w1))"
    by blast
  have acked: "i64_min < b - 1" "in_i64 (b - 1)" using base by (auto simp: i64_min_def i64_max_def in_i64_def)
  from remove_acked_changes_total [OF w1(1) acked] obtain w2 where
    w2: "remove_acked_changes (b - 1) w1 = Inr w2" "writer_inv w2" by blast
  note f = remove_acked_changes_frame [OF w2(1)]
  have "handle_acknack now a g w = Inr (w2, None)"
    using p run w2(1) idle ns(1) acked(2) base(1)
    by (auto simp: handle_acknack_def i64_sub_def Let_def v_def nacked_def split: if_splits)
  moreover have "\<exists>p'. bm_get (matched_readers w2) g = Some p' \<and> same_reader p p' \<and> (\<forall>n < b. is_acked n p')"
    using remove_acked_changes_reader [OF w2(1) w1(5)] w1(6,7) same_reader_trans by blast
  moreover have "get_change (w_guid w) n (writer_cache w2) = Some c \<and>
      (\<forall>ll l. destination (w_guid w) p = Some ll \<longrightarrow> l \<in> set ll \<longrightarrow>
        data_sent now (w_guid w) c g l (w_udp_sender w2))"
    if n: "n \<in> set ns" "\<forall>e. rp_entry p n = Some e \<longrightarrow> cfr_is_relevant e"
      "get_change (w_guid w) n (writer_cache w) = Some c" for n c
  proof -
    have "\<not> is_acked n p1"
      using under [OF n(1)] sent [OF n(1,2)] by (auto simp: is_acked_def rp_entry_def)
    from remove_acked_changes_keeps(1) [OF w2(1) w1(5) this] n(3) sent [OF n(1,2)] f(6) w1(3,4)
    show ?thesis by simp
  qed
  ultimately show ?thesis using w2(2) f(5) w1(2) by (intro exI [of _ w2]) simp
qed

text \<open>
  C2. Repair, without response delay (the default). An ACKNACK of a matched reader at an idle reliable writer, with a
  base of at least 1, requested numbers from the base on and below the largest sequence number, and with room in
  the heartbeat counter for one heartbeat per entry of the reader and request, is handled without a panic and
  keeps the writer's invariant. Every change below the base then counts as acknowledged by that reader; every
  requested change that is still in the cache and relevant to the reader is sent again to each locator of
  the list that the writer prefers for it (\<open>destination\<close>) and is still in the cache afterwards, although
  acknowledged changes are dropped; and the writer is idle again.
\<close>

theorem acknack_repairs:
  assumes inv: "writer_inv w" and p: "bm_get (matched_readers w) g = Some p"
    and idle: "an_state w = Waiting" "w_nack_response_delay w = DURATION_ZERO"
    and base: "b = bitmap_base (reader_sn_state a)" "1 \<le> b" "b \<le> i64_max"
    and ns: "sns_set (reader_sn_state a) = Inr ns" "\<forall>n \<in> set ns. b \<le> n \<and> n < i64_max"
    and count: "hb_counter w + int (length (rp_cache_state p)) + int (length ns) < 2 ^ 31"
  shows "\<exists>w'. handle_acknack now a g w = Inr (w', None) \<and> writer_inv w' \<and> an_state w' = Waiting \<and>
    (\<exists>p'. bm_get (matched_readers w') g = Some p' \<and> same_reader p p' \<and> (\<forall>n < b. is_acked n p')) \<and>
    (\<forall>n \<in> set ns. \<forall>c. (\<forall>e. rp_entry p n = Some e \<longrightarrow> cfr_is_relevant e) \<longrightarrow>
      get_change (w_guid w) n (writer_cache w) = Some c \<longrightarrow>
      get_change (w_guid w) n (writer_cache w') = Some c \<and>
      (\<forall>ll l. destination (w_guid w) p = Some ll \<longrightarrow> l \<in> set ll \<longrightarrow>
        data_sent now (w_guid w) c g l (w_udp_sender w')))"
  using assms by (rule acknack_handled)

definition ex_acknack :: AckNack where
  "ex_acknack = \<lparr>an_reader_id = entity_id ex_reader_guid, an_writer_id = entity_id ex_guid,
     reader_sn_state = \<lparr>bitmap_base = 2, num_bits = 1, bitmap = [0x80000000]\<rparr>, an_count = 0\<rparr>"

theorem acknack_repairs_witness:
  "\<exists>w'. handle_acknack (Some \<lparr>ts_seconds = 5, ts_fraction = 0\<rparr>) ex_acknack ex_reader_guid
      (ex_writer [] [(1, ChangeForReader_new 1 Underway True), (2, ChangeForReader_new 2 Underway True)]) =
      Inr (w', None) \<and>
    data_sent (Some \<lparr>ts_seconds = 5, ts_fraction = 0\<rparr>) ex_guid (ex_change 2) ex_reader_guid (ex_locator 1) (w_udp_sender w')"
proof -
  let ?cs = "[(1, ChangeForReader_new 1 Underway True), (2, ChangeForReader_new 2 Underway True)]"
  let ?w = "ex_writer [] ?cs"
  have inv: "writer_inv ?w" by (rule ex_writer_inv) (simp_all add: ChangeForReader_new_def bm_wf_def bs_wf_def)
  have p: "bm_get (matched_readers ?w) ex_reader_guid = Some (ex_matched_reader ?cs)" by simp
  have ns: "sns_set (reader_sn_state ex_acknack) = Inr [2]" by code_simp
  have range: "\<forall>n \<in> set [2]. 2 \<le> n \<and> n < i64_max" by (simp add: i64_max_def)
  have base: "2 = bitmap_base (reader_sn_state ex_acknack)" "1 \<le> (2 :: int)" "2 \<le> i64_max"
    by (simp_all add: ex_acknack_def i64_max_def)
  have count: "hb_counter ?w + int (length (rp_cache_state (ex_matched_reader ?cs))) + int (length [2 :: int]) < 2 ^ 31"
    by (simp add: ex_matched_reader_def ex_reader_proxy_def)
  have change: "get_change ex_guid 2 (ex_cache []) = Some (ex_change 2)" by (simp add: get_change_def)
  have entry: "rp_entry (ex_matched_reader ?cs) 2 = Some (ChangeForReader_new 2 Underway True)"
    by (simp add: rp_entry_def ex_matched_reader_def ex_reader_proxy_def)
  from acknack_repairs [OF inv p _ _ base ns range count, of "Some \<lparr>ts_seconds = 5, ts_fraction = 0\<rparr>"] change entry ex_destination
  show ?thesis by fastforce
qed

end
