(* ===== verification/Umber_DataWriter.thy ===== *)
theory Umber_DataWriter
  imports Umber_WriterNack
begin

text \<open>
  The DDS \<^verbatim>\<open>DataWriter\<close> (\<^verbatim>\<open>src/dds/datawriter.rs\<close>) beside the RTPS writer. The application's thread
  owns the \<^verbatim>\<open>DataWriter\<close>, the event loop the \<^verbatim>\<open>Writer\<close>; they share the history cache and the channel
  of commands. \<open>PubState\<close> is both, and \<open>pub_step\<close> interleaves their atomic actions: every access
  to the cache is one step, since the cache is locked there.
\<close>

section \<open>The data writer\<close>

record DataWriter =
  dwr_writer_guid :: GUID
  dwr_qos :: DataWriterQosPolicies
  dwr_topic :: Topic
  last_change_sequence_number :: SequenceNumber

definition DataWriter_new :: "GUID \<Rightarrow> DataWriterQosPolicies \<Rightarrow> Topic \<Rightarrow> DataWriter" where
  "DataWriter_new guid qos topic =
     \<lparr>dwr_writer_guid = guid, dwr_qos = qos, dwr_topic = topic, last_change_sequence_number = 0\<rparr>"

definition set_qos_dw :: "DataWriterQosPolicies \<Rightarrow> DataWriter \<Rightarrow> DataWriter" where
  "set_qos_dw qos dw = dw\<lparr>dwr_qos := qos\<rparr>"

definition dwr_is_reliable :: "DataWriter \<Rightarrow> bool" where
  "dwr_is_reliable dw =
     (case reliability_kind (fst (dw_reliability (dwr_qos dw))) of Reliable \<Rightarrow> True | BestEffort \<Rightarrow> False)"

text \<open>The sequence number of the change to be written.\<close>

definition advance_seq_num :: "bool \<Rightarrow> DataWriter \<Rightarrow> DataWriter res" where
  "advance_seq_num inc_seq_num dw =
     (if inc_seq_num then
        rbind (i64_add (last_change_sequence_number dw) 1) (\<lambda>n. Inr (dw\<lparr>last_change_sequence_number := n\<rparr>))
      else if last_change_sequence_number dw = 0 then Inr (dw\<lparr>last_change_sequence_number := 1\<rparr>)
      else Inr dw)"

definition a_change :: "Timestamp \<Rightarrow> SerializedPayload \<Rightarrow> DataWriter \<Rightarrow> CacheChange" where
  "a_change ts payload dw =
     \<lparr>change_kind = Alive, writer_guid = dwr_writer_guid dw,
      sequence_number = last_change_sequence_number dw, timestamp = ts, data_value = Some payload,
      instance_handle = InstantHandle\<rparr>"

text \<open>
  Where the application's thread is: outside \<^verbatim>\<open>writer_data_to_hc\<close>, in its loop with a change to add,
  or between adding the change and telling the RTPS writer.
\<close>

datatype WritePhase = Idle | Adding CacheChange | Notifying

record PubState =
  p_dw :: DataWriter
  p_phase :: WritePhase
  p_cmds :: "WriterCmd list"
  p_writer :: Writer

text \<open>\<^verbatim>\<open>writer_data_to_hc\<close> up to its loop.\<close>

definition begin_write :: "Timestamp \<Rightarrow> SerializedPayload \<Rightarrow> bool \<Rightarrow> PubState \<Rightarrow> PubState res" where
  "begin_write ts payload inc_seq_num s =
     rbind (advance_seq_num inc_seq_num (p_dw s)) (\<lambda>dw.
       Inr (s\<lparr>p_dw := dw, p_phase := Adding (a_change ts payload dw)\<rparr>))"

text \<open>One iteration of the loop; when the cache would block, the thread sleeps and tries again.\<close>

definition try_add :: "PubState \<Rightarrow> PubState res" where
  "try_add s =
     (case p_phase s of
        Adding c \<Rightarrow>
          rbind (add_change c (dwr_is_reliable (p_dw s)) (fst (dw_resource_limits (dwr_qos (p_dw s))))
                   (fst (dw_history (dwr_qos (p_dw s)))) (writer_cache (p_writer s)))
            (\<lambda>(cache, write_res).
              let s' = s\<lparr>p_writer := (p_writer s)\<lparr>writer_cache := cache\<rparr>\<rparr>
              in case write_res of
                   Inr _ \<Rightarrow> Inr (s'\<lparr>p_phase := Notifying\<rparr>)
                 | Inl (WouldBlock t) \<Rightarrow> Inr s')
      | _ \<Rightarrow> Inr s)"

definition notify_writer :: "PubState \<Rightarrow> PubState" where
  "notify_writer s =
     (case p_phase s of
        Notifying \<Rightarrow> s\<lparr>p_cmds := p_cmds s @ [WriteData], p_phase := Idle\<rparr>
      | _ \<Rightarrow> s)"

definition dwr_assert_liveliness :: "PubState \<Rightarrow> PubState" where
  "dwr_assert_liveliness s =
     (case liveliness_kind (fst (dw_liveliness (dwr_qos (p_dw s)))) of
        Automatic \<Rightarrow> s
      | ManualByTopic \<Rightarrow> s\<lparr>p_cmds := p_cmds s @ [AssertLiveliness]\<rparr>
      | ManualByParticipant \<Rightarrow> s\<lparr>p_cmds := p_cmds s @ [AssertLiveliness]\<rparr>)"

text \<open>The event loop takes one command from the channel.\<close>

definition take_cmd :: "Timestamp option \<Rightarrow> PubState \<Rightarrow> PubState res" where
  "take_cmd now s =
     (case p_cmds s of
        [] \<Rightarrow> Inr s
      | c # cs \<Rightarrow>
          rbind (handle_writer_cmd now [c] (p_writer s)) (\<lambda>(w, wtv).
            Inr (s\<lparr>p_cmds := cs, p_writer := w\<rparr>)))"

section \<open>Every handler of the writer keeps the invariant\<close>

text \<open>What the handlers other than the write command keep.\<close>

definition evolves :: "Writer \<Rightarrow> Writer \<Rightarrow> bool" where
  "evolves w w' \<longleftrightarrow> writer_inv w' \<and> w_guid w' = w_guid w \<and>
     unprocessed_seqnum (writer_cache w') = unprocessed_seqnum (writer_cache w) \<and>
     set (bm_keys (changes (writer_cache w'))) \<subseteq> set (bm_keys (changes (writer_cache w)))"

lemma evolves_refl: "writer_inv w \<Longrightarrow> evolves w w"
  by (simp add: evolves_def)

lemma evolves_trans: "evolves u v \<Longrightarrow> evolves v w \<Longrightarrow> evolves u w"
  unfolding evolves_def by (elim conjE) (intro conjI; (rule subset_trans)?; simp)

lemma evolves_inv: "evolves w w' \<Longrightarrow> writer_inv w'"
  by (simp add: evolves_def)

lemma evolves_calm: "writer_inv w \<Longrightarrow> calm v = calm w \<Longrightarrow> evolves w v"
  using calm_inv [of v w] calm_fields [of v w] by (simp add: evolves_def)

lemma evolves_fields:
  assumes "writer_inv w" and "w_guid v = w_guid w" and "writer_cache v = writer_cache w"
    and "matched_readers v = matched_readers w" and "w_reliability_level v = w_reliability_level w"
    and "an_state v \<noteq> Repairing"
  shows "evolves w v"
  using assms by (simp add: evolves_def writer_inv_def)

lemma evolves_readers:
  assumes "writer_inv w" and "v = w\<lparr>matched_readers := m\<rparr>" and "bm_wf m"
    and "\<And>g p. bm_get m g = Some p \<Longrightarrow> reader_ok (w_guid w) (writer_cache w) g p"
  shows "evolves w v"
  using assms writer_invD [OF assms(1)] by (auto simp: evolves_def intro!: writer_invI)

lemma remove_acked_changes_evolves:
  assumes "writer_inv w" and "remove_acked_changes base w = Inr w'"
  shows "evolves w w'"
proof -
  from assms(2) obtain ks where w': "w' = fold remove_acked_key ks w"
    by (auto simp: remove_acked_changes_def Let_def rbind_Inr_iff intro: that [of "[]"] split: if_splits)
  have "bm_get (changes (writer_cache w')) k \<noteq> None \<Longrightarrow> bm_get (changes (writer_cache w)) k \<noteq> None" for k
    by (auto simp: w' fold_remove_acked hc.fold_lookup split: if_splits)
  then have "set (bm_keys (changes (writer_cache w'))) \<subseteq> set (bm_keys (changes (writer_cache w)))"
    by (force simp: bm_get_None)
  then show ?thesis
    using remove_acked_changes_inv [OF assms] remove_acked_changes_frame [OF assms(2)]
    by (simp add: evolves_def w' fold_remove_acked)
qed

lemma send_heart_beat_evolves:
  assumes "writer_inv w" and "send_heart_beat now lv w = Inr w'"
  shows "evolves w w'"
proof (cases "\<not> lv \<and> is_acked_all_changes w")
  case True
  then show ?thesis using assms by (simp add: send_heart_beat_def evolves_refl)
next
  case False
  let ?v = "if lv then w\<lparr>is_alive := True\<rparr> else w"
  have v: "evolves w ?v" using evolves_fields [OF assms(1), of ?v] writer_invD(2) [OF assms(1)] by simp
  let ?k = "\<lambda>w1. let fsn = get_seq_num_min (writer_cache w1); lsn = get_seq_num_max (writer_cache w1)
      in if fsn \<le> 0 \<or> lsn < 0 \<or> lsn < fsn - 1 then Inr w1
         else rbind (i32_inc (hb_counter w1)) (\<lambda>c.
           Inr (emit_heartbeats now lv fsn lsn (c - 1) (hb_destinations w1) (w1\<lparr>hb_counter := c\<rparr>)))"
  have "send_heart_beat now lv w = rbind (remove_acked_changes (get_seq_num_max (writer_cache ?v)) ?v) ?k"
    unfolding send_heart_beat_def Let_def using False by (simp only: if_False)
  with assms(2) have "rbind (remove_acked_changes (get_seq_num_max (writer_cache ?v)) ?v) ?k = Inr w'" by (simp only:)
  then obtain w1 where w1: "remove_acked_changes (get_seq_num_max (writer_cache ?v)) ?v = Inr w1"
    and k: "?k w1 = Inr w'" by (rule rbind_Inr_E)
  have "calm (emit_heartbeats now lv fsn lsn n rls (w1\<lparr>hb_counter := c\<rparr>)) = calm w1" for fsn lsn n rls c
    using quiet_calm [of _ "w1\<lparr>hb_counter := c\<rparr>"] emit_heartbeats_frame by fastforce
  with k have "calm w' = calm w1" by (auto simp: Let_def rbind_Inr_iff split: if_splits)
  with remove_acked_changes_evolves [OF evolves_inv [OF v] w1] v show ?thesis
    by (meson evolves_calm evolves_inv evolves_trans)
qed

text \<open>The handlers of negative acknowledgements.\<close>

lemma resend_step_calm: "resend_step now nx w = Inr w' \<Longrightarrow> calm w' = calm w"
proof -
  have "calm (emit_heartbeats now lv fsn lsn n rls (w\<lparr>hb_counter := c\<rparr>)) = calm w" for lv fsn lsn n rls c
    using quiet_calm [of _ "w\<lparr>hb_counter := c\<rparr>"] emit_heartbeats_frame by fastforce
  then show "resend_step now nx w = Inr w' \<Longrightarrow> calm w' = calm w"
    using quiet_calm [OF emit_data_spec(1)]
    by (auto simp: resend_step_def Let_def rbind_Inr_iff split: option.splits if_splits)
qed

lemma emit_gaps_calm: "emit_gaps nx w = Inr w' \<Longrightarrow> calm w' = calm w"
  unfolding emit_gaps_def
  by (erule rfold_invariant) (auto simp: rbind_Inr_iff calm_def emit_def)

lemma handle_nack_response_timeout_evolves:
  assumes inv: "writer_inv w" and run: "handle_nack_response_timeout now g w = Inr w'"
  shows "evolves w w'"
proof (cases "bm_get (matched_readers w) g")
  case None
  then have "w' = w\<lparr>an_state := Waiting\<rparr>" using run by (simp add: handle_nack_response_timeout_def)
  then show ?thesis using evolves_fields [OF inv] by simp
next
  case (Some p)
  note ok = writer_invD(5) [OF inv Some]
  from collect_changes_spec [OF reader_okD(1) [OF ok] sm_wf_Nil sm_wf_Nil selects_requested _ card_in_status, of "w_guid w"]
  obtain p' d gs where p': "rp_wf p'" "same_reader p p'" "\<And>n. rp_entry p' n = underway Requested (rp_entry p n)"
    and col: "collect_changes (length (rp_cache_state p)) next_requested_change (w_guid w) p ([], []) = Inr (p', d, gs)"
    by auto
  let ?v = "w\<lparr>an_state := Repairing, matched_readers := bm_adjust g (\<lambda>_. p') (matched_readers w)\<rparr>"
  from run Some col obtain w2 w3 where w2: "rfold (resend_step now) d ?v = Inr w2"
    and w3: "rfold emit_gaps gs w2 = Inr w3" and w': "w' = w3\<lparr>an_state := Waiting\<rparr>"
    by (auto simp: handle_nack_response_timeout_def rbind_Inr_iff)
  have "calm w2 = calm ?v" using w2 by (rule rfold_invariant) (auto dest: resend_step_calm)
  moreover have "calm w3 = calm w2" using w3 by (rule rfold_invariant) (auto dest: emit_gaps_calm)
  ultimately have "calm w3 = calm ?v" by simp
  note f = calm_fields [OF this]
  have "writer_inv (w\<lparr>matched_readers := bm_adjust g (\<lambda>_. p') (matched_readers w)\<rparr>)"
    by (rule put_reader_inv [OF inv reader_ok_underway [OF ok p'] Some])
  then show ?thesis using f by (simp add: w' evolves_def writer_inv_def)
qed

text \<open>
  The sequence numbers an ACKNACK lists are not below its base; the last one is excluded, as a
  writer never uses it.
\<close>

definition acknack_in_range :: "AckNack \<Rightarrow> bool" where
  "acknack_in_range a \<longleftrightarrow>
     0 \<le> bitmap_base (reader_sn_state a) \<and>
     (case sns_set (reader_sn_state a) of
        Inr ns \<Rightarrow> list_all (\<lambda>n. bitmap_base (reader_sn_state a) \<le> n \<and> n < i64_max) ns | Inl _ \<Rightarrow> True)"

lemma handle_acknack_evolves:
  assumes inv: "writer_inv w" and a: "acknack_in_range a" and run: "handle_acknack now a g w = Inr (w', t)"
  shows "evolves w w'"
proof (cases "bm_get (matched_readers w) g")
  case None
  then show ?thesis using run inv by (simp add: handle_acknack_def evolves_refl)
next
  case (Some p)
  let ?b = "bitmap_base (reader_sn_state a)"
  from run Some obtain ns where ns: "sns_set (reader_sn_state a) = Inr ns"
    by (auto simp: handle_acknack_def rbind_Inr_iff)
  let ?w = "w\<lparr>matched_readers := bm_adjust g (\<lambda>_. nacked ?b ns p) (matched_readers w)\<rparr>"
  have "\<forall>n \<in> set ns. ?b \<le> n \<and> n < i64_max" "0 \<le> ?b"
    using a ns by (simp_all add: acknack_in_range_def list_all_iff)
  then have "reader_ok (w_guid w) (writer_cache w) g (nacked ?b ns p)"
    using nacked_ok [OF writer_invD(5) [OF inv Some]] by simp
  from put_reader_inv [OF inv this Some] have 1: "evolves w ?w" by (simp add: evolves_def)
  have "\<exists>w2. evolves ?w w2 \<and> remove_acked_changes (?b - 1) w2 = Inr w'"
  proof (cases "an_state w")
    case Waiting
    note repair = evolves_fields [OF evolves_inv [OF 1], of "?w\<lparr>an_state := MustRepair\<rparr>"]
    from Waiting run Some ns show ?thesis
      using repair evolves_refl [OF evolves_inv [OF 1]] handle_nack_response_timeout_evolves [OF evolves_inv [OF 1]]
      by (auto simp: handle_acknack_def Let_def rbind_Inr_iff i64_sub_def nacked_def split: if_splits)
  next
    case MustRepair
    with run Some ns show ?thesis
      using evolves_refl [OF evolves_inv [OF 1]]
      by (auto simp: handle_acknack_def Let_def rbind_Inr_iff i64_sub_def nacked_def split: if_splits)
  qed (use writer_invD(2) [OF inv] in simp)
  with remove_acked_changes_evolves 1 show ?thesis by (meson evolves_inv evolves_trans)
qed

text \<open>Matching and unmatching readers.\<close>

lemma matched_reader_add_evolves:
  assumes inv: "writer_inv w"
    and run: "matched_reader_add_with_default_locator g inl uni multi duni dmulti qos w = Inr w'"
  shows "evolves w w'"
proof (cases "bm_get (matched_readers w) g")
  case (Some p)
  let ?f = "\<lambda>p. p\<lparr>rp_qos := qos, expects_inline_qos := inl, rp_unicast_locator_list := uni,
      rp_multicast_locator_list := multi, rp_default_unicast_locator_list := duni,
      rp_default_multicast_locator_list := dmulti\<rparr>"
  have "reader_ok self cache k (?f q) = reader_ok self cache k q" for self cache k q
    by (simp add: reader_ok_def rp_wf_def)
  moreover have "w' = w\<lparr>matched_readers := bm_adjust g ?f (matched_readers w)\<rparr>"
    using run Some by (simp add: matched_reader_add_with_default_locator_def)
  ultimately show ?thesis
    using writer_invD(4,5) [OF inv]
    by (intro evolves_readers [OF inv, of _ "bm_adjust g ?f (matched_readers w)"]) (auto split: if_splits)
next
  case None
  show ?thesis
  proof (cases "dw_is_compatible (w_qos w) qos")
    case (Inl e)
    then have "w' = notify_w (OfferedIncompatibleQos e) w"
      using run None by (simp add: matched_reader_add_with_default_locator_def)
    then show ?thesis using evolves_fields [OF inv] writer_invD(2) [OF inv] by (simp add: notify_w_def)
  next
    case (Inr u)
    note co = writer_invD(3) [OF inv]
    from run None Inr obtain p where p: "ReaderProxy_new g inl uni multi duni dmulti qos (writer_cache w) (push_mode w) = Inr p"
      by (auto simp: matched_reader_add_with_default_locator_def rbind_Inr_iff)
    from p have "uni @ multi @ duni @ dmulti \<noteq> []" by (auto simp: ReaderProxy_new_def split: if_splits)
    moreover have keys: "\<forall>k \<in> set (bm_keys (changes (writer_cache w))). hk_guid k = w_guid w \<and> hk_seq_num k \<le> i64_max"
      using co by (auto simp: cache_ok_def list_all_iff)
    ultimately have p': "rp_wf p" "remote_reader_guid p = g"
      "\<And>n. rp_entry p n \<noteq> None \<Longrightarrow> get_change (w_guid w) n (writer_cache w) \<noteq> None"
      using ReaderProxy_new_spec [OF cache_okD(1) [OF co] keys, of uni multi duni dmulti g inl qos "push_mode w"] p
      by (auto simp: get_change_def bm_get_None split: if_splits)
    then have "reader_ok (w_guid w) (writer_cache w) g p"
      using cache_okD(5) [OF co] by (intro reader_okI) blast+
    then have "evolves w (w\<lparr>matched_readers := bm_insert g p (matched_readers w)\<rparr>)"
      using writer_invD(4,5) [OF inv] by (intro evolves_readers [OF inv refl]) (auto split: if_splits)
    then show ?thesis
      using run None Inr p
      by (auto simp: matched_reader_add_with_default_locator_def notify_w_def evolves_def writer_inv_def)
  qed
qed

lemma matched_reader_unmatch_evolves:
  assumes "writer_inv w" and "matched_reader_unmatch g w = Inr w'"
  shows "evolves w w'"
  using assms writer_invD [OF assms(1)]
  by (auto simp: matched_reader_unmatch_def notify_w_def rbind_Inr_iff evolves_def intro!: writer_invI
      split: if_splits)

lemma matched_reader_remove_evolves: "writer_inv w \<Longrightarrow> evolves w (matched_reader_remove g w)"
  using writer_invD [of w]
  by (auto simp: matched_reader_remove_def notify_w_def Let_def evolves_def intro!: writer_invI split: if_splits)

lemma delete_reader_proxy_evolves:
  assumes "writer_inv w"
  shows "evolves w (delete_reader_proxy prefix w)"
proof -
  have "evolves w v \<Longrightarrow> evolves w (fold matched_reader_remove gs v)" for gs v
    by (induction gs arbitrary: v) (simp, metis evolves_inv evolves_trans matched_reader_remove_evolves fold_simps(2))
  then show ?thesis using evolves_refl [OF assms] by (simp add: delete_reader_proxy_def)
qed

text \<open>Liveliness.\<close>

lemma assert_liveliness_evolves:
  assumes "writer_inv w" and "assert_liveliness now w = Inr w'"
  shows "evolves w w'"
  using assms writer_invD(2) [OF assms(1)]
  by (auto simp: assert_liveliness_def Let_def rbind_Inr_iff intro!: evolves_fields split: if_splits option.splits)

lemma check_liveliness_w_evolves:
  assumes "writer_inv w" and "check_liveliness_w now w = Inr w'"
  shows "evolves w w'"
  using assms writer_invD(2) [OF assms(1)]
  by (auto simp: check_liveliness_w_def Let_def rbind_Inr_iff notify_w_def intro!: evolves_fields
      split: if_splits option.splits)

lemma send_builtin_data_evolves:
  assumes "writer_inv w" and "send_builtin_data_for_loc now d locs w = Inr w'"
  shows "evolves w w'"
proof -
  have "calm (fold (\<lambda>loc. emit loc m) ls v) = calm v" for m ls v
    by (induction ls arbitrary: v) (simp_all add: calm_def emit_def)
  then show ?thesis
    using assms by (auto simp: send_builtin_data_for_loc_def Let_def rbind_Inr_iff intro: evolves_calm)
qed

lemma assert_liveliness_manually_evolves:
  assumes "writer_inv w" and "assert_liveliness_manually now w = Inr w'"
  shows "evolves w w'"
proof -
  have "evolves w (w\<lparr>is_alive := True\<rparr>)" using evolves_fields [OF assms(1)] writer_invD(2) [OF assms(1)] by simp
  then show ?thesis
    using assms(2) send_heart_beat_evolves evolves_inv evolves_trans
    unfolding assert_liveliness_manually_def by blast
qed

section \<open>Adding to the cache\<close>

lemma add_change_cache_ok:
  assumes co: "cache_ok self h" and c: "writer_guid c = self" "0 \<le> sequence_number c" "sequence_number c < i64_max"
    and run: "add_change c True rl hi h = Inr (h', r)"
  shows "cache_ok self h'" and "\<And>n. get_change self n h \<noteq> None \<Longrightarrow> get_change self n h' \<noteq> None"
    and "set (bm_keys (changes h')) \<subseteq> insert (change_key c) (set (bm_keys (changes h)))"
    and "r = Inr () \<Longrightarrow> sequence_number c \<in> set (unprocessed_seqnum h')"
    and "r \<noteq> Inr () \<Longrightarrow> h' = h"
proof -
  note w = cache_okD(2) [OF co]
  have inv: "hc_inv h'" using add_change_inv [OF cache_okD(1) [OF co] run] .
  consider (same) "h' = h" "r \<noteq> Inr ()"
    | (known) c0 where "bm_get (changes h) (change_key c) = Some c0" "r = Inr ()"
        "h' = h\<lparr>last_added := bm_insert (writer_guid c) (timestamp c) (last_added h),
            unprocessed_seqnum := bs_insert (sequence_number c) (unprocessed_seqnum h)\<rparr>"
    | (new) "bm_get (changes h) (change_key c) = None" "r = Inr ()" "h' = (store_change c h)
        \<lparr>unprocessed_seqnum := bs_insert (sequence_number c) (unprocessed_seqnum h)\<rparr>"
  proof (cases "bm_get (changes h) (change_key c)")
    case None
    show ?thesis
    proof (cases "limit_reached rl h")
      case True
      then show ?thesis using None run w that(1) by (auto simp: add_change_def)
    next
      case False
      from add_change_writer [OF None this w] run None show ?thesis using that(3) by auto
    qed
  next
    case (Some c0)
    then show ?thesis
      using run w that(2) by (auto simp: add_change_def add_known_def rbind_Inr_iff split: if_splits)
  qed
  note cases = this
  have key: "hk_guid (change_key c) = self" "hk_seq_num (change_key c) = sequence_number c"
    "change_key c = HCKey self (sequence_number c)"
    using c(1) by (simp_all add: change_key_def)
  have grow: "get_change self n h' \<noteq> None" if "get_change self n h \<noteq> None" for n
    using cases by cases (use that in \<open>auto simp: get_change_def\<close>)
  then show "\<And>n. get_change self n h \<noteq> None \<Longrightarrow> get_change self n h' \<noteq> None" .
  have keys: "set (bm_keys (changes h')) \<subseteq> insert (change_key c) (set (bm_keys (changes h)))"
    using cases by cases (auto simp: store_change_def Let_def keys_insert simp del: set_map)
  then show "set (bm_keys (changes h')) \<subseteq> insert (change_key c) (set (bm_keys (changes h)))" .
  have unproc: "set (unprocessed_seqnum h') \<subseteq> insert (sequence_number c) (set (unprocessed_seqnum h))"
    using cases by cases auto
  have there: "r = Inr () \<Longrightarrow> get_change self (sequence_number c) h' \<noteq> None"
    using cases by cases (auto simp: get_change_def key(3))
  show "r = Inr () \<Longrightarrow> sequence_number c \<in> set (unprocessed_seqnum h')" using cases by cases auto
  show "r \<noteq> Inr () \<Longrightarrow> h' = h" using cases by cases auto
  have "hc_type h' = HCWriter" using cases by cases (auto simp: w)
  moreover have "get_change self n h' \<noteq> None" if "n \<in> set (unprocessed_seqnum h')" for n
    using cases by cases (use that there grow unproc cache_okD(4) [OF co, of n] in auto)
  moreover have "hk_guid k = self \<and> 0 \<le> hk_seq_num k \<and> hk_seq_num k < i64_max"
    if "k \<in> set (bm_keys (changes h'))" for k
    using subsetD [OF keys that] co c key by (auto simp: cache_ok_def list_all_iff)
  ultimately show "cache_ok self h'" using inv by (simp add: cache_ok_def list_all_iff)
qed

section \<open>The publishing side as a state machine\<close>

text \<open>The write command keeps the identity of the writer and adds no change.\<close>

lemma handle_write_data_cmd_frame:
  assumes inv: "writer_inv w" and run: "handle_write_data_cmd now w = Inr (w', t)"
  shows "writer_inv w'" and "unprocessed_seqnum (writer_cache w') = []" and "w_guid w' = w_guid w"
    and "set (bm_keys (changes (writer_cache w'))) \<subseteq> set (bm_keys (changes (writer_cache w)))"
proof -
  show "writer_inv w'" and "unprocessed_seqnum (writer_cache w') = []"
    using handle_write_data_cmd_total [OF inv, of now] run by auto
  have "w_guid w' = w_guid w \<and>
      set (bm_keys (changes (writer_cache w'))) \<subseteq> set (bm_keys (changes (writer_cache w)))"
  proof (cases "unprocessed_seqnum (writer_cache w)")
    case Nil
    with run handle_write_data_cmd_empty [OF cache_okD(2) [OF writer_invD(3) [OF inv]] Nil, of now]
    show ?thesis by auto
  next
    case (Cons u us)
    from run obtain w2 where w2: "remove_acked_changes u (registered w) = Inr w2" "send_unsent now w2 = Inr w'"
      unfolding handle_write_data_cmd_steps [OF inv Cons] by (auto simp: rbind_Inr_iff)
    note e = remove_acked_changes_evolves [OF registered_inv [OF inv] w2(1)]
    from send_unsent_total [OF evolves_inv [OF e], of now] w2(2)
    have "w_guid w' = w_guid w2" "writer_cache w' = writer_cache w2" by auto
    with e show ?thesis by (simp add: evolves_def)
  qed
  then show "w_guid w' = w_guid w"
    and "set (bm_keys (changes (writer_cache w'))) \<subseteq> set (bm_keys (changes (writer_cache w)))"
    by blast+
qed

text \<open>What the event loop does with the writer, apart from its commands.\<close>

inductive writer_action :: "Writer \<Rightarrow> Writer \<Rightarrow> bool" where
  wa_heartbeat: "send_heart_beat now lv w = Inr w' \<Longrightarrow> writer_action w w'"
| wa_acknack: "acknack_in_range a \<Longrightarrow> handle_acknack now a g w = Inr (w', t) \<Longrightarrow> writer_action w w'"
| wa_nack_response: "handle_nack_response_timeout now g w = Inr w' \<Longrightarrow> writer_action w w'"
| wa_match: "matched_reader_add_with_default_locator g inl uni multi duni dmulti qos w = Inr w' \<Longrightarrow>
    writer_action w w'"
| wa_unmatch: "matched_reader_unmatch g w = Inr w' \<Longrightarrow> writer_action w w'"
| wa_remove: "writer_action w (matched_reader_remove g w)"
| wa_delete: "writer_action w (delete_reader_proxy prefix w)"
| wa_assert: "assert_liveliness now w = Inr w' \<Longrightarrow> writer_action w w'"
| wa_check: "check_liveliness_w now w = Inr w' \<Longrightarrow> writer_action w w'"
| wa_deadline: "writer_action w (notify_offered_deadline_missed w)"
| wa_builtin: "send_builtin_data_for_loc now d locs w = Inr w' \<Longrightarrow> writer_action w w'"

lemma writer_action_evolves: "writer_action w w' \<Longrightarrow> writer_inv w \<Longrightarrow> evolves w w'"
proof (induction rule: writer_action.induct)
  case (wa_deadline w)
  then show ?case
    using evolves_fields writer_invD(2) by (simp add: notify_offered_deadline_missed_def notify_w_def)
qed (auto intro: send_heart_beat_evolves handle_acknack_evolves handle_nack_response_timeout_evolves
    matched_reader_add_evolves matched_reader_unmatch_evolves matched_reader_remove_evolves
    delete_reader_proxy_evolves assert_liveliness_evolves check_liveliness_w_evolves send_builtin_data_evolves)

text \<open>
  The steps of both threads. The last sequence number is never used, and the reliability of a
  data writer does not change once it exists.
\<close>

inductive pub_step :: "PubState \<Rightarrow> PubState \<Rightarrow> bool" where
  ps_begin: "p_phase s = Idle \<Longrightarrow> last_change_sequence_number (p_dw s) + 1 < i64_max \<Longrightarrow>
    begin_write ts payload inc s = Inr s' \<Longrightarrow> pub_step s s'"
| ps_add: "try_add s = Inr s' \<Longrightarrow> pub_step s s'"
| ps_notify: "pub_step s (notify_writer s)"
| ps_liveliness: "pub_step s (dwr_assert_liveliness s)"
| ps_qos: "dwr_is_reliable (set_qos_dw qos (p_dw s)) = dwr_is_reliable (p_dw s) \<Longrightarrow>
    pub_step s (s\<lparr>p_dw := set_qos_dw qos (p_dw s)\<rparr>)"
| ps_cmd: "take_cmd now s = Inr s' \<Longrightarrow> pub_step s s'"
| ps_writer: "writer_action (p_writer s) w \<Longrightarrow> pub_step s (s\<lparr>p_writer := w\<rparr>)"

text \<open>A reliable data writer and its RTPS writer right after their creation.\<close>

definition pub_init :: "PubState \<Rightarrow> bool" where
  "pub_init s \<longleftrightarrow> (\<exists>now wi t.
     wi_whc wi = HistoryCache_new HCWriter \<and> wi_reliability_level wi = Reliable \<and>
     Writer_new now wi = Inr (p_writer s, t) \<and>
     p_dw s = DataWriter_new (wi_guid wi) (wi_qos wi) (wi_topic wi) \<and> dwr_is_reliable (p_dw s) \<and>
     p_phase s = Idle \<and> p_cmds s = [])"

inductive pub_reachable :: "PubState \<Rightarrow> bool" where
  pr_init: "pub_init s \<Longrightarrow> pub_reachable s"
| pr_step: "pub_reachable s \<Longrightarrow> pub_step s s' \<Longrightarrow> pub_reachable s'"

definition pub_inv :: "PubState \<Rightarrow> bool" where
  "pub_inv s \<longleftrightarrow>
     writer_inv (p_writer s) \<and> dwr_writer_guid (p_dw s) = w_guid (p_writer s) \<and> dwr_is_reliable (p_dw s) \<and>
     0 \<le> last_change_sequence_number (p_dw s) \<and> last_change_sequence_number (p_dw s) < i64_max \<and>
     list_all (\<lambda>k. hk_seq_num k \<le> last_change_sequence_number (p_dw s))
       (bm_keys (changes (writer_cache (p_writer s)))) \<and>
     (case p_phase s of
        Adding c \<Rightarrow> writer_guid c = w_guid (p_writer s) \<and>
          sequence_number c = last_change_sequence_number (p_dw s)
      | _ \<Rightarrow> True) \<and>
     (unprocessed_seqnum (writer_cache (p_writer s)) \<noteq> [] \<longrightarrow>
        WriteData \<in> set (p_cmds s) \<or> p_phase s = Notifying)"

lemma Writer_new_fields:
  "Writer_new now wi = Inr (w, t) \<Longrightarrow>
     add_empty_change now (wi_guid wi) (wi_whc wi) = Inr (writer_cache w) \<and> w_guid w = wi_guid wi \<and>
     matched_readers w = [] \<and> w_reliability_level w = wi_reliability_level wi \<and> an_state w = Waiting"
  by (auto simp: Writer_new_def rbind_Inr_iff)

lemma add_empty_change_fields:
  "add_empty_change now g h = Inr h' \<Longrightarrow>
     changes h' = changes h \<and> unprocessed_seqnum h' = unprocessed_seqnum h \<and> hc_type h' = hc_type h"
  by (auto simp: add_empty_change_def split: option.splits)

lemma pub_init_inv: "pub_init s \<Longrightarrow> pub_inv s"
proof -
  assume "pub_init s"
  then obtain now wi t where s: "wi_whc wi = HistoryCache_new HCWriter" "wi_reliability_level wi = Reliable"
    "Writer_new now wi = Inr (p_writer s, t)" "p_dw s = DataWriter_new (wi_guid wi) (wi_qos wi) (wi_topic wi)"
    "dwr_is_reliable (p_dw s)" "p_phase s = Idle" "p_cmds s = []"
    by (auto simp: pub_init_def)
  let ?cache = "writer_cache (p_writer s)"
  note w = Writer_new_fields [OF s(3), unfolded s(1,2)]
  then have c: "add_empty_change now (wi_guid wi) (HistoryCache_new HCWriter) = Inr ?cache" by blast
  have "hc_inv ?cache" using add_empty_change_inv [OF hc_inv_new c] .
  moreover have "changes ?cache = []" "unprocessed_seqnum ?cache = []" "hc_type ?cache = HCWriter"
    using add_empty_change_fields [OF c] by (simp_all add: HistoryCache_new_def)
  ultimately show ?thesis
    using s w by (simp add: pub_inv_def writer_inv_def cache_ok_def DataWriter_new_def i64_max_def)
qed

lemma pub_inv_writer:
  assumes "pub_inv s" and "evolves (p_writer s) w"
  shows "pub_inv (s\<lparr>p_writer := w\<rparr>)"
proof -
  have "list_all (\<lambda>k. hk_seq_num k \<le> last_change_sequence_number (p_dw s)) (bm_keys (changes (writer_cache w)))"
    using assms unfolding pub_inv_def evolves_def list_all_iff by blast
  then show ?thesis using assms by (simp add: pub_inv_def evolves_def split: WritePhase.splits)
qed

lemma begin_write_inv:
  assumes inv: "pub_inv s" and "p_phase s = Idle" and "last_change_sequence_number (p_dw s) + 1 < i64_max"
    and run: "begin_write ts payload inc s = Inr s'"
  shows "pub_inv s'"
proof -
  from run obtain dw where dw: "advance_seq_num inc (p_dw s) = Inr dw"
    and s': "s' = s\<lparr>p_dw := dw, p_phase := Adding (a_change ts payload dw)\<rparr>"
    by (auto simp: begin_write_def rbind_Inr_iff)
  from dw inv have "dwr_writer_guid dw = dwr_writer_guid (p_dw s) \<and> dwr_qos dw = dwr_qos (p_dw s) \<and>
      last_change_sequence_number (p_dw s) \<le> last_change_sequence_number dw \<and>
      last_change_sequence_number dw \<le> last_change_sequence_number (p_dw s) + 1"
    by (auto simp: advance_seq_num_def rbind_Inr_iff i64_add_def pub_inv_def split: if_splits)
  moreover from this inv have "list_all (\<lambda>k. hk_seq_num k \<le> last_change_sequence_number dw)
      (bm_keys (changes (writer_cache (p_writer s))))"
    by (fastforce simp: pub_inv_def list_all_iff)
  ultimately show ?thesis
    using inv assms(2,3) by (simp add: s' pub_inv_def a_change_def dwr_is_reliable_def)
qed

lemma app_add_inv:
  assumes winv: "writer_inv w" and c: "writer_guid c = w_guid w" "0 \<le> sequence_number c" "sequence_number c < i64_max"
    and add: "add_change c True limits hist (writer_cache w) = Inr (h, r)"
  shows "writer_inv (w\<lparr>writer_cache := h\<rparr>)"
proof -
  note ok = add_change_cache_ok [OF writer_invD(3) [OF winv] c add]
  have "reader_ok (w_guid w) h g p" if "bm_get (matched_readers w) g = Some p" for g p
    using reader_okD [OF writer_invD(5) [OF winv that]] ok(2) by (intro reader_okI) blast+
  then show ?thesis using writer_invD [OF winv] ok(1) by (intro writer_invI) auto
qed

lemma try_add_inv:
  assumes inv: "pub_inv s" and run: "try_add s = Inr s'"
  shows "pub_inv s'"
proof (cases "p_phase s")
  case (Adding c)
  let ?w = "p_writer s" and ?n = "last_change_sequence_number (p_dw s)"
  have c: "writer_guid c = w_guid ?w" "sequence_number c = ?n" "0 \<le> ?n" "?n < i64_max"
    using inv Adding by (auto simp: pub_inv_def)
  note winv = conjunct1 [OF inv [unfolded pub_inv_def]]
  have rel: "dwr_is_reliable (p_dw s)" using inv by (simp add: pub_inv_def)
  from run Adding obtain h r where
    add: "add_change c True (fst (dw_resource_limits (dwr_qos (p_dw s)))) (fst (dw_history (dwr_qos (p_dw s))))
        (writer_cache ?w) = Inr (h, r)"
    and "(case r of Inr _ \<Rightarrow> Inr (s\<lparr>p_writer := ?w\<lparr>writer_cache := h\<rparr>, p_phase := Notifying\<rparr>)
        | Inl (WouldBlock t) \<Rightarrow> Inr (s\<lparr>p_writer := ?w\<lparr>writer_cache := h\<rparr>\<rparr>)) = (Inr s' :: PubState res)"
    by (auto simp: try_add_def Let_def rbind_Inr_iff rel)
  then have s': "s' = s\<lparr>p_writer := ?w\<lparr>writer_cache := h\<rparr>, p_phase := (if r = Inr () then Notifying else Adding c)\<rparr>"
    using Adding by (cases s) (auto split: sum.splits AddChangeErr.splits)
  have range: "0 \<le> sequence_number c" "sequence_number c < i64_max" using c by simp_all
  note ok = add_change_cache_ok [OF writer_invD(3) [OF winv] c(1) range add]
  have "writer_inv (?w\<lparr>writer_cache := h\<rparr>)" by (rule app_add_inv [OF winv c(1) range add])
  moreover have "list_all (\<lambda>k. hk_seq_num k \<le> ?n) (bm_keys (changes h))"
    using ok(3) inv c by (auto simp: pub_inv_def list_all_iff change_key_def simp del: set_map)
  moreover have "r \<noteq> Inr () \<Longrightarrow> h = writer_cache ?w" using ok(5) by simp
  ultimately show ?thesis
    using inv c Adding by (auto simp: s' pub_inv_def)
qed (use run inv in \<open>simp_all add: try_add_def\<close>)

lemma take_cmd_inv:
  assumes inv: "pub_inv s" and run: "take_cmd now s = Inr s'"
  shows "pub_inv s'"
proof (cases "p_cmds s")
  case Nil
  then show ?thesis using inv run by (simp add: take_cmd_def)
next
  case (Cons c cs)
  note winv = conjunct1 [OF inv [unfolded pub_inv_def]]
  from run Cons obtain w wtv where w: "handle_writer_cmd now [c] (p_writer s) = Inr (w, wtv)"
    and s': "s' = s\<lparr>p_cmds := cs, p_writer := w\<rparr>"
    by (auto simp: take_cmd_def rbind_Inr_iff)
  show ?thesis
  proof (cases c)
    case WriteData
    with w obtain t where "handle_write_data_cmd now (p_writer s) = Inr (w, t)"
      by (auto simp: handle_writer_cmd_def rbind_Inr_iff)
    note f = handle_write_data_cmd_frame [OF winv this]
    have "list_all (\<lambda>k. hk_seq_num k \<le> last_change_sequence_number (p_dw s)) (bm_keys (changes (writer_cache w)))"
      using f(4) inv unfolding pub_inv_def list_all_iff by blast
    then show ?thesis using f(1-3) inv by (simp add: s' pub_inv_def split: WritePhase.splits)
  next
    case AssertLiveliness
    with w have "assert_liveliness_manually now (p_writer s) = Inr w"
      by (auto simp: handle_writer_cmd_def rbind_Inr_iff)
    from pub_inv_writer [OF inv assert_liveliness_manually_evolves [OF winv this]]
    show ?thesis using Cons AssertLiveliness by (auto simp: s' pub_inv_def split: WritePhase.splits)
  qed
qed

lemma pub_step_inv: "pub_step s s' \<Longrightarrow> pub_inv s \<Longrightarrow> pub_inv s'"
proof (induction rule: pub_step.induct)
  case (ps_begin s ts payload inc s')
  then show ?case using begin_write_inv by blast
next
  case (ps_add s s')
  then show ?case using try_add_inv by blast
next
  case (ps_notify s)
  then show ?case by (cases "p_phase s") (auto simp: pub_inv_def notify_writer_def)
next
  case (ps_liveliness s)
  then show ?case
    by (cases "liveliness_kind (fst (dw_liveliness (dwr_qos (p_dw s))))"; cases "p_phase s")
      (auto simp: pub_inv_def dwr_assert_liveliness_def)
next
  case (ps_qos qos s)
  then show ?case by (cases "p_phase s") (simp_all add: pub_inv_def set_qos_dw_def)
next
  case (ps_cmd now s s')
  then show ?case using take_cmd_inv by blast
next
  case (ps_writer s w)
  then have "writer_inv (p_writer s)" by (simp add: pub_inv_def)
  then show ?case using ps_writer writer_action_evolves pub_inv_writer by blast
qed

lemma pub_reachable_inv: "pub_reachable s \<Longrightarrow> pub_inv s"
  by (induction rule: pub_reachable.induct) (auto intro: pub_init_inv pub_step_inv)

section \<open>Properties\<close>

text \<open>
  C3. The publishing side of a reliable data writer as a whole: in every state that it and its RTPS writer
  can reach from their creation, whatever the interleaving of writes, commands, heartbeats, ACKNACKs in range, matching,
  removals, deadlines and liveliness checks, the writer's invariant holds, the next write command cannot panic (so the
  \<^verbatim>\<open>unreachable!\<close> of \<^verbatim>\<open>handle_write_data_cmd\<close> is unreachable), no change has a sequence number
  beyond the last one given out, and no written sample is forgotten: while one is unprocessed, a write
  command is queued or about to be queued. The largest sequence number is never used; best-effort writers are
  not covered, and one with transient-local durability can indeed reach that \<^verbatim>\<open>unreachable!\<close>.
\<close>

theorem publisher_safe:
  assumes "pub_reachable s"
  shows "writer_inv (p_writer s) \<and>
    (\<exists>w' t. handle_write_data_cmd now (p_writer s) = Inr (w', t) \<and> unprocessed_seqnum (writer_cache w') = []) \<and>
    (\<forall>k \<in> set (bm_keys (changes (writer_cache (p_writer s)))).
      hk_guid k = w_guid (p_writer s) \<and> hk_seq_num k \<le> last_change_sequence_number (p_dw s)) \<and>
    (unprocessed_seqnum (writer_cache (p_writer s)) \<noteq> [] \<longrightarrow>
      WriteData \<in> set (p_cmds s) \<or> p_phase s = Notifying)"
proof -
  note inv = pub_reachable_inv [OF assms, unfolded pub_inv_def]
  then have "writer_inv (p_writer s)" by blast
  from handle_write_data_cmd_total [OF this, of now] writer_invD(3) [OF this] inv show ?thesis
    unfolding cache_ok_def list_all_iff by blast
qed

definition ex_ingredients :: WriterIngredients where
  "ex_ingredients = \<lparr>wi_guid = ex_guid, wi_reliability_level = Reliable, wi_unicast_locator_list = [],
     wi_multicast_locator_list = [], wi_push_mode = True, wi_heartbeat_period = DURATION_ZERO,
     wi_nack_response_delay = DURATION_ZERO, wi_nack_suppression_duration = DURATION_ZERO,
     wi_data_max_size_serialized = 0, wi_whc = HistoryCache_new HCWriter, wi_topic = ex_topic,
     wi_qos = ex_writer_qos\<rparr>"

lemma ex_dw_reliable: "dwr_is_reliable (DataWriter_new g ex_writer_qos ex_topic)"
  by (simp add: dwr_is_reliable_def DataWriter_new_def ex_qos_defs default_reliable_def)

text \<open>The application has written one sample and the RTPS writer has not processed it yet.\<close>

lemma ex_published:
  "\<exists>s. pub_reachable s \<and> p_phase s = Idle \<and> unprocessed_seqnum (writer_cache (p_writer s)) = [1] \<and>
     get_change ex_guid 1 (writer_cache (p_writer s)) \<noteq> None"
proof -
  let ?ts = "\<lparr>ts_seconds = 5, ts_fraction = 0\<rparr>"
  obtain w t where w: "Writer_new (Some ?ts) ex_ingredients = Inr (w, t)"
    by (auto simp: Writer_new_def add_empty_change_def)
  define dw where "dw = DataWriter_new ex_guid ex_writer_qos ex_topic"
  define h where "h = writer_cache w"
  let ?s0 = "\<lparr>p_dw = dw, p_phase = Idle, p_cmds = [], p_writer = w\<rparr>"
  let ?dw = "dw\<lparr>last_change_sequence_number := 1\<rparr>"
  let ?c = "a_change ?ts (ex_payload 7) ?dw"
  let ?s1 = "?s0\<lparr>p_dw := ?dw, p_phase := Adding ?c\<rparr>"
  have "pub_init ?s0"
    using w ex_dw_reliable unfolding pub_init_def
    by (intro exI [of _ "Some ?ts"] exI [of _ ex_ingredients] exI [of _ t]) (simp add: ex_ingredients_def dw_def)
  then have r0: "pub_reachable ?s0" by (rule pr_init)
  have "begin_write ?ts (ex_payload 7) True ?s0 = Inr ?s1"
    by (simp add: begin_write_def advance_seq_num_def dw_def DataWriter_new_def i64_add_def in_i64_def)
  from ps_begin [OF _ _ this] have "pub_step ?s0 ?s1" by (simp add: dw_def DataWriter_new_def i64_max_def)
  then have r1: "pub_reachable ?s1" using r0 pr_step by blast
  have h: "changes h = []" "unprocessed_seqnum h = []" "hc_type h = HCWriter"
    using add_empty_change_fields [OF conjunct1 [OF Writer_new_fields [OF w]]]
    by (simp_all add: h_def ex_ingredients_def HistoryCache_new_def)
  let ?h = "(store_change ?c h)\<lparr>unprocessed_seqnum := [1]\<rparr>"
  let ?s2 = "?s1\<lparr>p_writer := w\<lparr>writer_cache := ?h\<rparr>, p_phase := Notifying\<rparr>"
  have "add_change ?c True (fst (dw_resource_limits ex_writer_qos)) (fst (dw_history ex_writer_qos)) h = Inr (?h, Inr ())"
    using h by (subst add_change_writer) (simp_all add: limit_reached_def ex_qos_defs default_resource_limits_def a_change_def)
  then have "try_add ?s1 = Inr ?s2"
    using ex_dw_reliable [of ex_guid]
    by (simp add: try_add_def dw_def h_def [symmetric] DataWriter_new_def dwr_is_reliable_def Let_def)
  then have r2: "pub_reachable ?s2" using r1 pr_step ps_add by blast
  have "pub_reachable (notify_writer ?s2)" by (rule pr_step [OF r2 ps_notify])
  then show ?thesis
    by (intro exI [of _ "notify_writer ?s2"])
      (simp add: notify_writer_def get_change_def store_change_def change_key_def a_change_def dw_def DataWriter_new_def Let_def)
qed

theorem publisher_safe_witness:
  "\<exists>s. pub_reachable s \<and> unprocessed_seqnum (writer_cache (p_writer s)) = [1] \<and> WriteData \<in> set (p_cmds s) \<and>
     (\<exists>w' t. handle_write_data_cmd None (p_writer s) = Inr (w', t) \<and> unprocessed_seqnum (writer_cache w') = [])"
proof -
  from ex_published obtain s where s: "pub_reachable s" "p_phase s = Idle"
    "unprocessed_seqnum (writer_cache (p_writer s)) = [1]" by blast
  from publisher_safe [OF s(1), of None] s show ?thesis by auto
qed

end
