(* ===== verification/Umber_Discovery.thy ===== *)
theory Umber_Discovery
  imports Umber_Qos Umber_Message
begin

text \<open>
  The database of remote participants and of the liveliness of writers:
  \<^verbatim>\<open>src/discovery/discovery_db.rs\<close>. Its mutex makes every operation atomic; the methods of
  \<^verbatim>\<open>DiscoveryDB\<close> only lock and call those of \<^verbatim>\<open>DiscoveryDBInner\<close>, which are modelled here.
\<close>

datatype EndpointState = Live Timestamp | EpLivelinessLost | EpUnknown

record SPDPdiscoveredParticipantData =
  spdp_domain_id :: int
  domain_tag :: string
  spdp_protocol_version :: "u8 \<times> u8"
  spdp_guid :: GUID
  spdp_vendor_id :: "u8 list"
  spdp_expects_inline_qos :: bool
  available_builtin_endpoint :: u32
  metarraffic_unicast_locator_list :: "Locator list"
  metarraffic_multicast_locator_list :: "Locator list"
  spdp_default_multicast_locator_list :: "Locator list"
  spdp_default_unicast_locator_list :: "Locator list"
  manual_liveliness_count :: "int option"
  spdp_lease_duration :: Duration

record DiscoveryDB =
  participant_data :: "(GuidPrefix, EndpointState \<times> SPDPdiscoveredParticipantData) btree_map"
  local_writer_data :: "(GUID, EndpointState \<times> LivelinessQosKind) btree_map"
  remote_writer_data :: "(GUID, EndpointState \<times> LivelinessQosKind) btree_map"

definition DiscoveryDB_new :: DiscoveryDB where
  "DiscoveryDB_new = \<lparr>participant_data = [], local_writer_data = [], remote_writer_data = []\<rparr>"

text \<open>The result says whether the participant was known.\<close>

definition write_participant :: "GuidPrefix \<Rightarrow> Timestamp \<Rightarrow> SPDPdiscoveredParticipantData \<Rightarrow> DiscoveryDB
    \<Rightarrow> DiscoveryDB \<times> bool" where
  "write_participant prefix ts data db =
     (db\<lparr>participant_data := bm_insert prefix (Live ts, data) (participant_data db)\<rparr>,
      bm_contains prefix (participant_data db))"

definition CORE_DURATION_MAX :: CoreDuration where
  "CORE_DURATION_MAX = \<lparr>core_secs = 2 ^ 64 - 1, core_nanos = 999999999\<rparr>"

definition lease_over :: "Timestamp \<Rightarrow> EndpointState \<times> SPDPdiscoveredParticipantData \<Rightarrow> bool" where
  "lease_over now e =
     (case fst e of
        Live ts \<Rightarrow> core_less (to_core (spdp_lease_duration (snd e))) (ts_sub now ts)
      | _ \<Rightarrow> False)"

definition next_check :: "Timestamp \<Rightarrow> (GuidPrefix, EndpointState \<times> SPDPdiscoveredParticipantData) btree_map
    \<Rightarrow> CoreDuration" where
  "next_check now m =
     fold (\<lambda>(prefix, e) d.
         case fst e of
           Live ts \<Rightarrow> if lease_over now e then d else to_core (dur_half (spdp_lease_duration (snd e)))
         | _ \<Rightarrow> d)
       m CORE_DURATION_MAX"

definition check_participant_liveliness :: "Timestamp \<Rightarrow> DiscoveryDB
    \<Rightarrow> DiscoveryDB \<times> CoreDuration \<times> GuidPrefix list" where
  "check_participant_liveliness now db =
     (let lost = map fst (filter (\<lambda>(prefix, e). lease_over now e) (participant_data db));
          d = next_check now (participant_data db);
          db' = db\<lparr>participant_data := fold bm_remove lost (participant_data db)\<rparr>
      in (db', (if d = CORE_DURATION_MAX then \<lparr>core_secs = 5, core_nanos = 0\<rparr> else d), lost))"

definition refresh_writers :: "(GUID \<Rightarrow> LivelinessQosKind \<Rightarrow> bool) \<Rightarrow> Timestamp \<Rightarrow> DiscoveryDB \<Rightarrow> DiscoveryDB" where
  "refresh_writers sel ts db =
     (let to_update = map (\<lambda>(g, (es, kd)). (g, kd))
            (filter (\<lambda>(g, (es, kd)). sel g kd) (remote_writer_data db))
      in db\<lparr>remote_writer_data := fold (\<lambda>(g, kd). bm_insert g (Live ts, kd)) to_update
            (remote_writer_data db)\<rparr>)"

definition update_liveliness_with_guid_prefix_with_kind :: "GuidPrefix \<Rightarrow> Timestamp \<Rightarrow> LivelinessQosKind
    \<Rightarrow> DiscoveryDB \<Rightarrow> DiscoveryDB" where
  "update_liveliness_with_guid_prefix_with_kind prefix ts kind db =
     refresh_writers (\<lambda>g kd. guid_prefix g = prefix \<and> kd = kind) ts db"

definition update_liveliness_with_guid_prefix :: "GuidPrefix \<Rightarrow> Timestamp \<Rightarrow> DiscoveryDB \<Rightarrow> DiscoveryDB" where
  "update_liveliness_with_guid_prefix prefix ts db =
     refresh_writers (\<lambda>g kd. guid_prefix g = prefix) ts db"

definition write_local_writer :: "GUID \<Rightarrow> Timestamp \<Rightarrow> LivelinessQosKind \<Rightarrow> DiscoveryDB \<Rightarrow> DiscoveryDB" where
  "write_local_writer guid ts kind db =
     (let db' = db\<lparr>local_writer_data := bm_insert guid (Live ts, kind) (local_writer_data db)\<rparr>
      in if kind = ManualByParticipant
         then update_liveliness_with_guid_prefix (guid_prefix guid) ts db' else db')"

definition write_remote_writer :: "GUID \<Rightarrow> Timestamp \<Rightarrow> LivelinessQosKind \<Rightarrow> DiscoveryDB \<Rightarrow> DiscoveryDB" where
  "write_remote_writer guid ts kind db =
     (let db' = db\<lparr>remote_writer_data := bm_insert guid (Live ts, kind) (remote_writer_data db)\<rparr>
      in if kind = ManualByParticipant
         then update_liveliness_with_guid_prefix (guid_prefix guid) ts db' else db')"

definition update_remote_writer_state :: "GUID \<Rightarrow> EndpointState \<Rightarrow> DiscoveryDB \<Rightarrow> DiscoveryDB" where
  "update_remote_writer_state guid state db =
     db\<lparr>remote_writer_data := bm_adjust guid (\<lambda>(es, l). (state, l)) (remote_writer_data db)\<rparr>"

definition read_participant_data :: "GuidPrefix \<Rightarrow> DiscoveryDB \<Rightarrow> SPDPdiscoveredParticipantData option" where
  "read_participant_data prefix db = map_option snd (bm_get (participant_data db) prefix)"

definition read_participant_ts :: "GuidPrefix \<Rightarrow> DiscoveryDB \<Rightarrow> Timestamp option" where
  "read_participant_ts prefix db =
     (case bm_get (participant_data db) prefix of
        Some (Live ts, data) \<Rightarrow> Some ts
      | _ \<Rightarrow> None)"

definition read_local_writer :: "GUID \<Rightarrow> DiscoveryDB \<Rightarrow> EndpointState" where
  "read_local_writer guid db =
     (case bm_get (local_writer_data db) guid of Some (es, kd) \<Rightarrow> es | None \<Rightarrow> EpUnknown)"

definition read_remote_writer :: "GUID \<Rightarrow> DiscoveryDB \<Rightarrow> EndpointState" where
  "read_remote_writer guid db =
     (case bm_get (remote_writer_data db) guid of Some (es, kd) \<Rightarrow> es | None \<Rightarrow> EpUnknown)"

section \<open>Lemmas\<close>

definition db_inv :: "DiscoveryDB \<Rightarrow> bool" where
  "db_inv db \<longleftrightarrow> bm_wf (participant_data db) \<and> bm_wf (local_writer_data db) \<and> bm_wf (remote_writer_data db)"

lemma fold_refresh:
  assumes "distinct (map fst xs)"
  shows "bm_get (fold (\<lambda>(g, kd). bm_insert g (Live ts, kd)) xs m) g =
    (case map_of xs g of Some kd \<Rightarrow> Some (Live ts, kd) | None \<Rightarrow> bm_get m g)"
  using assms
proof (induction xs arbitrary: m)
  case (Cons x xs)
  obtain g' kd where x: "x = (g', kd)" by (cases x)
  have "map_of xs g' = None" using Cons.prems x by (simp add: map_of_eq_None_iff)
  then show ?case using Cons by (auto simp: x split: option.splits)
qed simp

lemma map_of_selected:
  assumes "distinct (map fst m)"
  shows "map_of (map (\<lambda>(g, (es, kd)). (g, kd)) (filter (\<lambda>(g, (es, kd)). sel g kd) m)) g =
    (case map_of m g of Some (es, kd) \<Rightarrow> if sel g kd then Some kd else None | None \<Rightarrow> None)"
  using assms
proof (induction m)
  case (Cons x m)
  obtain g' es kd where x: "x = (g', (es, kd))" by (cases x)
  have "map_of m g' = None" using Cons.prems x by (simp add: map_of_eq_None_iff)
  then show ?case using Cons by (cases "g' = g") (simp_all add: x)
qed simp

lemma refresh_writers_spec:
  assumes "bm_wf (remote_writer_data db)"
  shows "bm_get (remote_writer_data (refresh_writers sel ts db)) g =
    map_option (\<lambda>(es, kd). (if sel g kd then Live ts else es, kd)) (bm_get (remote_writer_data db) g)"
proof -
  let ?m = "remote_writer_data db"
  let ?xs = "map (\<lambda>(g, (es, kd)). (g, kd)) (filter (\<lambda>(g, (es, kd)). sel g kd) ?m)"
  have fst: "map fst ?xs = map fst (filter (\<lambda>(g, (es, kd)). sel g kd) ?m)"
    by (simp add: case_prod_beta' o_def)
  have d: "distinct (map fst ?xs)"
    unfolding fst using bm_wf_distinct [OF assms] by (rule distinct_map_filter)
  have "map_of ?xs g = (case bm_get ?m g of Some (es, kd) \<Rightarrow> if sel g kd then Some kd else None | None \<Rightarrow> None)"
    by (rule map_of_selected [OF bm_wf_distinct [OF assms]])
  then show ?thesis
    unfolding refresh_writers_def Let_def
    by (simp add: fold_refresh [OF d] del: map_map) (auto split: option.splits)
qed

text \<open>Removing the lost participants.\<close>

lemma fold_bm_remove: "bm_get (fold bm_remove ks m) k = (if k \<in> set ks then None else bm_get m k)"
  by (induction ks arbitrary: m) auto

lemma fold_bm_remove_wf: "bm_wf m \<Longrightarrow> bm_wf (fold bm_remove ks m)"
  by (induction ks arbitrary: m) auto

lemma lost_prefixes:
  assumes "bm_wf m"
  shows "p \<in> set (map fst (filter (\<lambda>(prefix, e). P e) m)) \<longleftrightarrow> (\<exists>e. bm_get m p = Some e \<and> P e)"
  using assms by (force simp: bm_get_in_set)

lemma ts_sub_self: "ts_sub t t = \<lparr>core_secs = 0, core_nanos = 0\<rparr>"
  by (simp add: ts_sub_def from_nanos_def to_core_def tdiv_def fraction_of_def f64_round_def f64_as_u32_def
      wrap_s_def wrap_u_def)

lemma lease_over_iff:
  "lease_over now e \<longleftrightarrow> (\<exists>ts. fst e = Live ts \<and> core_less (to_core (spdp_lease_duration (snd e))) (ts_sub now ts))"
  by (cases "fst e") (simp_all add: lease_over_def)

text \<open>The delay to the next check is that of the last participant that is still alive.\<close>

lemma next_check_last:
  assumes "\<And>p e. (p, e) \<in> set m \<Longrightarrow> \<exists>ts. fst e = Live ts"
  shows "next_check now m =
    (case rev (filter (\<lambda>(p, e). \<not> lease_over now e) m) of
       [] \<Rightarrow> CORE_DURATION_MAX
     | (p, e) # _ \<Rightarrow> to_core (dur_half (spdp_lease_duration (snd e))))"
  using assms
proof (induction m rule: rev_induct)
  case Nil
  show ?case by (simp add: next_check_def)
next
  case (snoc x m)
  obtain p e where x: "x = (p, e)" by (cases x)
  with snoc.prems obtain ts where "fst e = Live ts" by (metis in_set_conv_decomp)
  then show ?case using snoc by (auto simp: x next_check_def)
qed

section \<open>Properties\<close>

text \<open>
  C26. Liveliness of participants: the check reports and removes exactly the participants whose last
  announcement is older than their lease, keeps every other participant with its data, and leaves the
  state of the writers alone. An announcement stores the data with its time, says whether the
  participant was known, and a participant announced at the time of the check is never lost.
\<close>

theorem participant_liveliness:
  assumes "db_inv db"
  shows "(\<forall>now db' d lost. check_participant_liveliness now db = (db', d, lost) \<longrightarrow>
      db_inv db' \<and> remote_writer_data db' = remote_writer_data db \<and>
      (\<forall>p. p \<in> set lost \<longleftrightarrow> (\<exists>ts data. bm_get (participant_data db) p = Some (Live ts, data) \<and>
        core_less (to_core (spdp_lease_duration data)) (ts_sub now ts))) \<and>
      (\<forall>p. bm_get (participant_data db') p = (if p \<in> set lost then None else bm_get (participant_data db) p))) \<and>
    (\<forall>p ts data. snd (write_participant p ts data db) = (read_participant_data p db \<noteq> None) \<and>
      read_participant_data p (fst (write_participant p ts data db)) = Some data \<and>
      read_participant_ts p (fst (write_participant p ts data db)) = Some ts \<and>
      p \<notin> set (snd (snd (check_participant_liveliness ts (fst (write_participant p ts data db))))))"
proof (intro conjI allI impI)
  fix now db' d lost
  assume run: "check_participant_liveliness now db = (db', d, lost)"
  then have lost: "lost = map fst (filter (\<lambda>(prefix, e). lease_over now e) (participant_data db))"
    and db': "db' = db\<lparr>participant_data := fold bm_remove lost (participant_data db)\<rparr>"
    by (auto simp: check_participant_liveliness_def Let_def)
  have wf: "bm_wf (participant_data db)" using assms by (simp add: db_inv_def)
  show "db_inv db'" using assms fold_bm_remove_wf [OF wf] by (simp add: db' db_inv_def)
  show "remote_writer_data db' = remote_writer_data db" by (simp add: db')
  fix p
  show "p \<in> set lost \<longleftrightarrow> (\<exists>ts data. bm_get (participant_data db) p = Some (Live ts, data) \<and>
      core_less (to_core (spdp_lease_duration data)) (ts_sub now ts))"
    unfolding lost lost_prefixes [OF wf] by (auto simp: lease_over_iff)
  show "bm_get (participant_data db') p = (if p \<in> set lost then None else bm_get (participant_data db) p)"
    by (simp add: db' fold_bm_remove)
next
  fix p ts data
  let ?db = "fst (write_participant p ts data db)"
  have get: "bm_get (participant_data ?db) p = Some (Live ts, data)" by (simp add: write_participant_def)
  have wf: "bm_wf (participant_data ?db)" using assms by (simp add: write_participant_def db_inv_def)
  show "snd (write_participant p ts data db) = (read_participant_data p db \<noteq> None)"
    by (simp add: write_participant_def read_participant_data_def)
  show "read_participant_data p ?db = Some data" "read_participant_ts p ?db = Some ts"
    using get by (simp_all add: read_participant_data_def read_participant_ts_def)
  have "\<not> core_less (to_core (spdp_lease_duration data)) (ts_sub ts ts)"
    unfolding ts_sub_self by (simp add: core_less_def to_core_def wrap_u_def not_less)
  then show "p \<notin> set (snd (snd (check_participant_liveliness ts ?db)))"
    using get by (simp add: check_participant_liveliness_def Let_def lost_prefixes [OF wf] lease_over_def
        del: set_map set_filter)
qed

definition ex_participant :: "int \<Rightarrow> SPDPdiscoveredParticipantData" where
  "ex_participant lease = \<lparr>spdp_domain_id = 0, domain_tag = [], spdp_protocol_version = PROTOCOLVERSION, spdp_guid = ex_guid,
     spdp_vendor_id = [0, 0], spdp_expects_inline_qos = False, available_builtin_endpoint = 0,
     metarraffic_unicast_locator_list = [], metarraffic_multicast_locator_list = [],
     spdp_default_multicast_locator_list = [], spdp_default_unicast_locator_list = [],
     manual_liveliness_count = None, spdp_lease_duration = from_secs lease\<rparr>"

text \<open>Two participants heard of at second 50, with leases of 20 and 100 seconds.\<close>

definition ex_db :: DiscoveryDB where
  "ex_db = DiscoveryDB_new\<lparr>participant_data :=
     [(replicate 12 1, (Live \<lparr>ts_seconds = 50, ts_fraction = 0\<rparr>, ex_participant 20)),
      (replicate 12 2, (Live \<lparr>ts_seconds = 50, ts_fraction = 0\<rparr>, ex_participant 100))]\<rparr>"

lemma ex_db_inv: "db_inv ex_db"
  by (simp add: db_inv_def ex_db_def DiscoveryDB_new_def bm_wf_def bs_wf_def numeral_eq_Suc)

lemmas ts_diff_defs = ts_sub_def ts_nanos_def from_nanos_def to_core_def tdiv_def fraction_of_def
  f64_round_def f64_as_u32_def wrap_s_def wrap_u_def

lemma ex_lease:
  "lease_over \<lparr>ts_seconds = 80, ts_fraction = 0\<rparr> (Live \<lparr>ts_seconds = 50, ts_fraction = 0\<rparr>, ex_participant 20)"
  "\<not> lease_over \<lparr>ts_seconds = 80, ts_fraction = 0\<rparr> (Live \<lparr>ts_seconds = 50, ts_fraction = 0\<rparr>, ex_participant 100)"
  "\<not> lease_over \<lparr>ts_seconds = 60, ts_fraction = 0\<rparr> (Live \<lparr>ts_seconds = 50, ts_fraction = 0\<rparr>, ex_participant 20)"
  "\<not> lease_over \<lparr>ts_seconds = 60, ts_fraction = 0\<rparr> (Live \<lparr>ts_seconds = 50, ts_fraction = 0\<rparr>, ex_participant 100)"
  by (simp_all add: lease_over_def ex_participant_def from_secs_def core_less_def ts_diff_defs)

theorem participant_liveliness_witness:
  "\<exists>db' d. check_participant_liveliness \<lparr>ts_seconds = 80, ts_fraction = 0\<rparr> ex_db = (db', d, [replicate 12 1]) \<and>
     bm_get (participant_data db') (replicate 12 1) = None \<and>
     bm_get (participant_data db') (replicate 12 2) =
       Some (Live \<lparr>ts_seconds = 50, ts_fraction = 0\<rparr>, ex_participant 100)"
proof -
  let ?now = "\<lparr>ts_seconds = 80, ts_fraction = 0\<rparr>"
  obtain db' d lost where run: "check_participant_liveliness ?now ex_db = (db', d, lost)"
    by (cases "check_participant_liveliness ?now ex_db") auto
  then have lost: "lost = [replicate 12 1]"
    using ex_lease(1,2) by (auto simp: check_participant_liveliness_def ex_db_def DiscoveryDB_new_def Let_def)
  have "bm_get (participant_data db') p = (if p \<in> set lost then None else bm_get (participant_data ex_db) p)" for p
    using participant_liveliness [OF ex_db_inv] run by blast
  then show ?thesis using run by (simp add: lost ex_db_def DiscoveryDB_new_def)
qed

text \<open>
  The delay until the next check of the participants: five seconds when nobody is left, otherwise
  half the lease of the participant with the greatest prefix that is still alive, whatever the leases
  of the others. So it is not the least of them: with leases of 20 and 100 seconds the next check
  comes after 50 seconds, when the first lease is long over.
\<close>

theorem next_check_delay:
  "(\<forall>now db. list_all (\<lambda>(p, e). \<exists>ts. fst e = Live ts) (participant_data db) \<longrightarrow>
     fst (snd (check_participant_liveliness now db)) =
       (case rev (filter (\<lambda>(p, e). \<not> lease_over now e) (participant_data db)) of
          [] \<Rightarrow> \<lparr>core_secs = 5, core_nanos = 0\<rparr>
        | (p, e) # _ \<Rightarrow>
            (let d = to_core (dur_half (spdp_lease_duration (snd e)))
             in if d = CORE_DURATION_MAX then \<lparr>core_secs = 5, core_nanos = 0\<rparr> else d))) \<and>
   fst (snd (check_participant_liveliness \<lparr>ts_seconds = 60, ts_fraction = 0\<rparr> ex_db)) =
     \<lparr>core_secs = 50, core_nanos = 0\<rparr>"
proof (intro conjI allI impI)
  fix now and db :: DiscoveryDB
  assume "list_all (\<lambda>(p, e). \<exists>ts. fst e = Live ts) (participant_data db)"
  then have "next_check now (participant_data db) =
      (case rev (filter (\<lambda>(p, e). \<not> lease_over now e) (participant_data db)) of
         [] \<Rightarrow> CORE_DURATION_MAX
       | (p, e) # _ \<Rightarrow> to_core (dur_half (spdp_lease_duration (snd e))))"
    by (intro next_check_last) (auto simp: list_all_iff)
  then show "fst (snd (check_participant_liveliness now db)) =
       (case rev (filter (\<lambda>(p, e). \<not> lease_over now e) (participant_data db)) of
          [] \<Rightarrow> \<lparr>core_secs = 5, core_nanos = 0\<rparr>
        | (p, e) # _ \<Rightarrow>
            (let d = to_core (dur_half (spdp_lease_duration (snd e)))
             in if d = CORE_DURATION_MAX then \<lparr>core_secs = 5, core_nanos = 0\<rparr> else d))"
    by (simp add: check_participant_liveliness_def Let_def split: list.splits prod.splits)
next
  show "fst (snd (check_participant_liveliness \<lparr>ts_seconds = 60, ts_fraction = 0\<rparr> ex_db)) =
     \<lparr>core_secs = 50, core_nanos = 0\<rparr>"
    using ex_lease(3,4)
    by (simp add: check_participant_liveliness_def next_check_def ex_db_def DiscoveryDB_new_def Let_def
        CORE_DURATION_MAX_def)
      (simp add: ex_participant_def from_secs_def dur_half_def to_core_def tdiv_def DURATION_INFINITE_def wrap_u_def)
qed

theorem next_check_delay_witness:
  "list_all (\<lambda>(p, e). \<exists>ts. fst e = Live ts) (participant_data ex_db) \<and>
   fst (snd (check_participant_liveliness \<lparr>ts_seconds = 60, ts_fraction = 0\<rparr> ex_db)) =
     (let d = to_core (dur_half (from_secs 100))
      in if d = CORE_DURATION_MAX then \<lparr>core_secs = 5, core_nanos = 0\<rparr> else d)"
proof -
  have live: "list_all (\<lambda>(p, e). \<exists>ts. fst e = Live ts) (participant_data ex_db)"
    by (simp add: ex_db_def DiscoveryDB_new_def)
  from next_check_delay live
  have "fst (snd (check_participant_liveliness \<lparr>ts_seconds = 60, ts_fraction = 0\<rparr> ex_db)) =
      (case rev (filter (\<lambda>(p, e). \<not> lease_over \<lparr>ts_seconds = 60, ts_fraction = 0\<rparr> e) (participant_data ex_db)) of
         [] \<Rightarrow> \<lparr>core_secs = 5, core_nanos = 0\<rparr>
       | (p, e) # _ \<Rightarrow>
           (let d = to_core (dur_half (spdp_lease_duration (snd e)))
            in if d = CORE_DURATION_MAX then \<lparr>core_secs = 5, core_nanos = 0\<rparr> else d))" by blast
  with live show ?thesis
    using ex_lease(3,4) by (simp add: ex_db_def DiscoveryDB_new_def) (simp add: ex_participant_def)
qed

end
