(* ===== verification/Umber_Reader.thy ===== *)
theory Umber_Reader
  imports Umber_Writer Umber_Discovery
begin

text \<open>
  The RTPS reader: \<^verbatim>\<open>src/rtps/reader.rs\<close>. As for the writer, channels and the UDP sender are the lists of
  what was sent over them, the shared history cache is a field, and a handler that may panic returns
  a \<open>res\<close>. The part of the code that three handlers share at their start, which matches a writer again
  whose liveliness had been lost, is \<open>rematch\<close>.
\<close>

section \<open>State\<close>

datatype ReaderTimer =
    RtHeartbeat EntityId GUID
  | RtDeadline EntityId GUID CoreDuration
  | RtLifespan EntityId HCKey Timestamp CoreDuration

datatype ReaderState = Initial | WaitingFor "SequenceNumber btree_set" | Expect SequenceNumber

record SubscriptionMatchedStatus =
  sm_total_count :: int
  sm_total_count_change :: int
  sm_current_count :: int
  sm_current_count_change :: int
  sm_guid :: GUID

record LivelinessChangedStatus =
  lc_alive_count :: int
  lc_not_alive_count :: int
  lc_alive_count_change :: int
  lc_not_alive_count_change :: int
  lc_guid :: GUID

datatype DataReaderStatusChanged =
    SampleRejected
  | LivelinessChanged LivelinessChangedStatus
  | RequestedDeadlineMissed GUID
  | RequestedIncompatibleQos "policy_name list"
  | DataAvailable
  | SampleLost
  | SubscriptionMatched SubscriptionMatchedStatus

record Reader =
  r_guid :: GUID
  r_topic_kind :: TopicKind
  r_reliability_level :: ReliabilityQosKind
  r_unicast_locator_list :: "Locator list"
  r_multicast_locator_list :: "Locator list"
  expectsinline_qos :: bool
  r_heartbeat_response_delay :: Duration
  reader_cache :: HistoryCache
  matched_writers :: "(GUID, WriterProxy) btree_map"
  unmatched_writers :: "(GUID, WriterProxy) btree_map"
  r_topic :: Topic
  r_qos :: DataReaderQosPolicies
  r_endianness :: Endianness
  reader_state_notifier :: "DataReaderStatusChanged list"
  r_udp_sender :: "net_out list"
  writer_communication_state :: "(GUID, ReaderState) btree_map"

record ReaderIngredients =
  ri_guid :: GUID
  ri_reliability_level :: ReliabilityQosKind
  ri_unicast_locator_list :: "Locator list"
  ri_multicast_locator_list :: "Locator list"
  ri_expectsinline_qos :: bool
  ri_heartbeat_response_delay :: Duration
  ri_rhc :: HistoryCache
  ri_topic :: Topic
  ri_qos :: DataReaderQosPolicies

definition Reader_new :: "ReaderIngredients \<Rightarrow> Reader" where
  "Reader_new ri =
     \<lparr>r_guid = ri_guid ri, r_topic_kind = topic_kind (ri_topic ri),
      r_reliability_level = ri_reliability_level ri,
      r_unicast_locator_list = ri_unicast_locator_list ri,
      r_multicast_locator_list = ri_multicast_locator_list ri,
      expectsinline_qos = ri_expectsinline_qos ri,
      r_heartbeat_response_delay = ri_heartbeat_response_delay ri, reader_cache = ri_rhc ri,
      matched_writers = [], unmatched_writers = [], r_topic = ri_topic ri, r_qos = ri_qos ri,
      r_endianness = LittleEndian, reader_state_notifier = [], r_udp_sender = [],
      writer_communication_state = []\<rparr>"

definition r_is_reliable :: "Reader \<Rightarrow> bool" where
  "r_is_reliable r = (case r_reliability_level r of Reliable \<Rightarrow> True | BestEffort \<Rightarrow> False)"

definition notify_r :: "DataReaderStatusChanged \<Rightarrow> Reader \<Rightarrow> Reader" where
  "notify_r s r = r\<lparr>reader_state_notifier := reader_state_notifier r @ [s]\<rparr>"

definition count32 :: "'a list \<Rightarrow> int" where
  "count32 xs = wrap_s 32 (int (length xs))"

definition liveliness_changed :: "int \<Rightarrow> int \<Rightarrow> GUID \<Rightarrow> Reader \<Rightarrow> Reader" where
  "liveliness_changed d nd guid r =
     notify_r (LivelinessChanged
       \<lparr>lc_alive_count = count32 (matched_writers r), lc_not_alive_count = count32 (unmatched_writers r),
        lc_alive_count_change = d, lc_not_alive_count_change = nd, lc_guid = guid\<rparr>) r"

text \<open>A message from a writer whose liveliness was lost matches it again.\<close>

definition rematch :: "GUID \<Rightarrow> Reader \<Rightarrow> Reader" where
  "rematch wg r =
     (case bm_get (unmatched_writers r) wg of
        Some wp \<Rightarrow>
          liveliness_changed 1 (- 1) wg
            (r\<lparr>unmatched_writers := bm_remove wg (unmatched_writers r),
               matched_writers := bm_insert wg wp (matched_writers r)\<rparr>)
      | None \<Rightarrow> r)"

section \<open>Receiving a change\<close>

definition change_timers :: "GUID \<Rightarrow> CacheChange \<Rightarrow> WriterProxy \<Rightarrow> Reader \<Rightarrow> ReaderTimer list" where
  "change_timers wg change wp r =
     (let ls = lifespan_duration (fst (dw_lifespan (wp_qos wp)));
          deadline = deadline_period (fst (dr_deadline (r_qos r)))
      in (if ls \<noteq> DURATION_INFINITE
          then [RtLifespan (entity_id (r_guid r)) (HCKey wg (sequence_number change))
                  (timestamp change) (to_core ls)] else []) @
         (if deadline \<noteq> DURATION_INFINITE
          then [RtDeadline (entity_id (r_guid r)) wg (to_core deadline)] else []))"

definition some_timers :: "ReaderTimer list \<Rightarrow> ReaderTimer list option" where
  "some_timers rt = (if rt = [] then None else Some rt)"

definition add_to_cache :: "CacheChange \<Rightarrow> Reader \<Rightarrow> (Reader \<times> (AddChangeErr + unit)) res" where
  "add_to_cache change r =
     rbind (add_change change (r_is_reliable r) (fst (dr_resource_limits (r_qos r)))
              (fst (dr_history (r_qos r))) (reader_cache r))
       (\<lambda>(h, res). Inr (r\<lparr>reader_cache := h\<rparr>, res))"

definition flush_cache :: "Reader \<Rightarrow> (Reader \<times> bool) res" where
  "flush_cache r = rbind (flush (reader_cache r)) (\<lambda>(h, b). Inr (r\<lparr>reader_cache := h\<rparr>, b))"

definition release :: "Reader \<Rightarrow> Reader res" where
  "release r = rbind (flush_cache r) (\<lambda>(r', _). Inr (notify_r DataAvailable r'))"

definition set_state :: "GUID \<Rightarrow> ReaderState \<Rightarrow> Reader \<Rightarrow> Reader" where
  "set_state g st r =
     r\<lparr>writer_communication_state := bm_adjust g (\<lambda>_. st) (writer_communication_state r)\<rparr>"

definition on_proxy :: "GUID \<Rightarrow> (WriterProxy \<Rightarrow> WriterProxy) \<Rightarrow> Reader \<Rightarrow> Reader" where
  "on_proxy g f r = r\<lparr>matched_writers := bm_adjust g f (matched_writers r)\<rparr>"

text \<open>The reordering of a reliable reader.\<close>

definition advance_state :: "GUID \<Rightarrow> SequenceNumber \<Rightarrow> Reader \<Rightarrow> Reader res" where
  "advance_state g n r =
     (case bm_get (writer_communication_state r) g of
        Some (WaitingFor wait_list) \<Rightarrow>
          let wl = bs_remove n wait_list; r' = set_state g (WaitingFor wl) r
          in if wl = [] then release r' else Inr r'
      | Some (Expect seq_num) \<Rightarrow>
          if n = seq_num
          then rbind (release r) (\<lambda>r'. rbind (i64_add seq_num 1) (\<lambda>m. Inr (set_state g (Expect m) r')))
          else Inr r
      | Some Initial \<Rightarrow> Inr r
      | None \<Rightarrow> Inr r)"

definition add_change_reliable :: "GUID \<Rightarrow> CacheChange \<Rightarrow> Reader \<Rightarrow> Reader res" where
  "add_change_reliable wg change r =
     rbind (add_to_cache change r) (\<lambda>(r1, res).
       case res of
         Inl e \<Rightarrow> Inr r1
       | Inr _ \<Rightarrow>
           rbind (advance_state wg (sequence_number change) r1) (\<lambda>r2.
             Inr (on_proxy wg (received_change_set (sequence_number change)) r2)))"

text \<open>A best-effort reader forgets what has been taken and accepts only what is newer than all it had.\<close>

definition forget_taken :: "Reader \<Rightarrow> Reader res" where
  "forget_taken r =
     rbind (get_taken (reader_cache r)) (\<lambda>(h, keys).
       Inr (fold (\<lambda>key. on_proxy (hk_guid key) (wp_remove_cache_state (hk_seq_num key))) keys
              (r\<lparr>reader_cache := h\<rparr>)))"

definition add_change_best_effort :: "GUID \<Rightarrow> CacheChange \<Rightarrow> Reader \<Rightarrow> Reader res" where
  "add_change_best_effort wg change r0 =
     rbind (forget_taken r0) (\<lambda>r.
       case bm_get (matched_writers r) wg of
         None \<Rightarrow> Inr r
       | Some wp \<Rightarrow>
           rbind (i64_add (available_changes_max wp) 1) (\<lambda>expected_seq_num.
             if expected_seq_num \<le> sequence_number change then
               rbind (add_to_cache change r) (\<lambda>(r1, res).
                 case res of
                   Inl e \<Rightarrow> Inr r1
                 | Inr _ \<Rightarrow>
                     rbind (release r1) (\<lambda>r2.
                       let r3 = on_proxy wg (received_change_set (sequence_number change)) r2
                       in Inr (if expected_seq_num < sequence_number change
                               then on_proxy wg (lost_changes_update (sequence_number change)) r3
                               else r3)))
             else Inr r))"

definition reader_add_change :: "GuidPrefix \<Rightarrow> CacheChange \<Rightarrow> Reader
    \<Rightarrow> (Reader \<times> ReaderTimer list option) res" where
  "reader_add_change source_guid_prefix change r0 =
     (let wg = GUID source_guid_prefix (entity_id (writer_guid change));
          r = rematch wg r0
      in case bm_get (matched_writers r) wg of
           None \<Rightarrow> Inr (r, None)
         | Some wp \<Rightarrow>
             rbind (if r_is_reliable r then add_change_reliable wg change r
                    else add_change_best_effort wg change r)
               (\<lambda>r'. Inr (r', some_timers (change_timers wg change wp r))))"

section \<open>Matching\<close>

definition send_sub_unmatch :: "GUID \<Rightarrow> Reader \<Rightarrow> Reader" where
  "send_sub_unmatch guid r =
     notify_r (SubscriptionMatched
       \<lparr>sm_total_count = wrap_s 32 (int (length (matched_writers r) + length (unmatched_writers r))),
        sm_total_count_change = 0,
        sm_current_count = count32 (matched_writers r), sm_current_count_change = - 1, sm_guid = guid\<rparr>) r"

definition matched_writer_add_with_default_locator :: "GUID \<Rightarrow> Locator list \<Rightarrow> Locator list
    \<Rightarrow> Locator list \<Rightarrow> Locator list \<Rightarrow> int \<Rightarrow> DataWriterQosPolicies \<Rightarrow> Reader
    \<Rightarrow> (Reader \<times> ReaderTimer option) res" where
  "matched_writer_add_with_default_locator guid uni multi duni dmulti max_size qos r =
     (case bm_get (matched_writers r) guid of
        None \<Rightarrow>
          (case dr_is_compatible (r_qos r) qos of
             Inl e \<Rightarrow> Inr (notify_r (RequestedIncompatibleQos e) r, None)
           | Inr _ \<Rightarrow>
               rbind (WriterProxy_new guid uni multi duni dmulti max_size qos) (\<lambda>wp.
                 let r1 = r\<lparr>matched_writers := bm_insert guid wp (matched_writers r),
                            writer_communication_state :=
                              bm_insert guid Initial (writer_communication_state r)\<rparr>;
                     r2 = notify_r (SubscriptionMatched
                       \<lparr>sm_total_count = wrap_s 32 (int (length (matched_writers r1) + length (unmatched_writers r1))),
                        sm_total_count_change = 1, sm_current_count = count32 (matched_writers r1),
                        sm_current_count_change = 1, sm_guid = guid\<rparr>) r1;
                     r3 = liveliness_changed 1 0 guid r2;
                     deadline = deadline_period (fst (dr_deadline (r_qos r)))
                 in Inr (r3, if deadline \<noteq> DURATION_INFINITE
                             then Some (RtDeadline (entity_id (r_guid r)) guid (to_core deadline))
                             else None)))
      | Some _ \<Rightarrow>
          Inr (on_proxy guid (\<lambda>p. p\<lparr>wp_qos := qos, wp_unicast_locator_list := uni,
                 wp_multicast_locator_list := multi, wp_default_unicast_locator_list := duni,
                 wp_default_multicast_locator_list := dmulti, data_max_size_serialized := max_size\<rparr>) r,
               None))"

definition matched_writer_add :: "GUID \<Rightarrow> Locator list \<Rightarrow> Locator list \<Rightarrow> int
    \<Rightarrow> DataWriterQosPolicies \<Rightarrow> Reader \<Rightarrow> Reader res" where
  "matched_writer_add guid uni multi max_size qos r =
     rbind (matched_writer_add_with_default_locator guid uni multi [] [] max_size qos r) (\<lambda>(r', rt). Inr r')"

definition is_writer_match :: "string \<Rightarrow> string \<Rightarrow> Reader \<Rightarrow> bool" where
  "is_writer_match name data_type r \<longleftrightarrow> topic_name (r_topic r) = name \<and> type_desc (r_topic r) = data_type"

definition matched_writer_unmatch :: "GUID \<Rightarrow> Reader \<Rightarrow> Reader" where
  "matched_writer_unmatch guid r =
     (case bm_get (matched_writers r) guid of
        Some wp \<Rightarrow>
          liveliness_changed (- 1) 1 guid
            (r\<lparr>matched_writers := bm_remove guid (matched_writers r),
               unmatched_writers := bm_insert guid wp (unmatched_writers r)\<rparr>)
      | None \<Rightarrow> r)"

definition unmatched_writer_remove :: "GUID \<Rightarrow> Reader \<Rightarrow> Reader" where
  "unmatched_writer_remove guid r =
     (if bm_contains guid (unmatched_writers r)
      then send_sub_unmatch guid
             (r\<lparr>unmatched_writers := bm_remove guid (unmatched_writers r),
                writer_communication_state := bm_remove guid (writer_communication_state r)\<rparr>)
      else r)"

definition matched_writer_remove :: "GUID \<Rightarrow> Reader \<Rightarrow> Reader" where
  "matched_writer_remove guid r =
     (if bm_contains guid (matched_writers r)
      then send_sub_unmatch guid (liveliness_changed (- 1) 1 guid
             (r\<lparr>matched_writers := bm_remove guid (matched_writers r),
                reader_cache := remove_change_from_writer guid (reader_cache r),
                writer_communication_state := bm_remove guid (writer_communication_state r)\<rparr>))
      else r)"

definition delete_writer_proxy :: "GuidPrefix \<Rightarrow> Reader \<Rightarrow> Reader" where
  "delete_writer_proxy prefix r =
     (let r1 = fold matched_writer_remove
                 (filter (\<lambda>k. guid_prefix k = prefix) (bm_keys (matched_writers r))) r
      in fold unmatched_writer_remove
           (filter (\<lambda>k. guid_prefix k = prefix) (bm_keys (unmatched_writers r1))) r1)"

section \<open>Gaps and heartbeats\<close>

definition skip_seq_num :: "GUID \<Rightarrow> SequenceNumber \<Rightarrow> Reader \<Rightarrow> Reader" where
  "skip_seq_num g n r =
     (let r' = on_proxy g (irrelevant_change_set n) r in
      case bm_get (writer_communication_state r') g of
        Some (WaitingFor wl) \<Rightarrow> set_state g (WaitingFor (bs_remove n wl)) r'
      | _ \<Rightarrow> r')"

definition handle_gap :: "GUID \<Rightarrow> Gap \<Rightarrow> Reader \<Rightarrow> Reader res" where
  "handle_gap wg gap r0 =
     (let r = rematch wg r0 in
      case bm_get (matched_writers r) wg of
        None \<Rightarrow> Inr r
      | Some _ \<Rightarrow>
          let r1 = fold (skip_seq_num wg) [gap_start gap..bitmap_base (gap_list gap) - 1] r
          in rbind (sns_set (gap_list gap)) (\<lambda>ns. Inr (fold (skip_seq_num wg) ns r1)))"

definition wp_unicast_ll :: "WriterProxy \<Rightarrow> Locator list option" where
  "wp_unicast_ll p =
     (let ll_u = wp_get_unicast_locator_list p in
      if ll_u = [] then
        let ll_m = wp_get_multicast_locator_list p
        in if ll_m = [] then None else Some ll_m
      else Some ll_u)"

text \<open>The base of the ACKNACK, and what the reader waits for until the writer has answered.\<close>

definition acknack_base :: "GUID \<Rightarrow> WriterProxy \<Rightarrow> Reader \<Rightarrow> (Reader \<times> SequenceNumber) res" where
  "acknack_base g wp r =
     (case missing_changes wp of
        [] \<Rightarrow>
          rbind (i64_add (available_changes_max wp) 1) (\<lambda>base.
            if bm_contains g (writer_communication_state r) then
              rbind (flush_cache (set_state g (Expect base) r)) (\<lambda>(r', some_data).
                Inr (if some_data then notify_r DataAvailable r' else r', base))
            else Inr (r, base))
      | ns \<Rightarrow>
          Inr (if bm_contains g (writer_communication_state r)
               then set_state g (WaitingFor (fold bs_insert ns [])) r else r,
               Min (set ns)))"

definition handle_hb_response_timeout :: "GUID \<Rightarrow> Reader \<Rightarrow> Reader res" where
  "handle_hb_response_timeout wg r =
     (case bm_get (matched_writers r) wg of
        None \<Rightarrow> Inr r
      | Some wp \<Rightarrow>
          rbind (acknack_base wg wp r) (\<lambda>(r1, base).
          rbind (sns_from_vec base (missing_changes wp)) (\<lambda>sn_state.
            case wp_unicast_ll wp of
              None \<Rightarrow> Inr r1
            | Some ll \<Rightarrow>
                rbind (mb_acknack (r_endianness r1) (entity_id wg) (entity_id (r_guid r1))
                         sn_state 1 False
                         (mb_info_dst (r_endianness r1) (guid_prefix (remote_writer_guid wp)) [])) (\<lambda>b.
                  let msg = mb_build (guid_prefix (r_guid r1)) b
                  in Inr (r1\<lparr>r_udp_sender := r_udp_sender r1 @
                            concat (map (\<lambda>loc. send_msg_to_locator loc msg) ll)\<rparr>)))))"

definition respond :: "GUID \<Rightarrow> Reader \<Rightarrow> (Reader \<times> ReaderTimer option) res" where
  "respond wg r =
     (if r_heartbeat_response_delay r = DURATION_ZERO
      then rbind (handle_hb_response_timeout wg r) (\<lambda>r'. Inr (r', None))
      else Inr (r, Some (RtHeartbeat (entity_id (r_guid r)) wg)))"

definition handle_heartbeat :: "GUID \<Rightarrow> u8 \<Rightarrow> Heartbeat \<Rightarrow> Reader \<Rightarrow> (Reader \<times> ReaderTimer option) res" where
  "handle_heartbeat wg hb_flag heartbeat r0 =
     (let r = rematch wg r0 in
      case bm_get (matched_writers r) wg of
        None \<Rightarrow> Inr (r, None)
      | Some _ \<Rightarrow>
          rbind (get_taken_less_than wg (first_sn heartbeat) (reader_cache r)) (\<lambda>(h, taken).
            let r1 = on_proxy wg (\<lambda>wp.
                  lost_changes_update (first_sn heartbeat)
                    (missing_changes_update (first_sn heartbeat) (last_sn heartbeat)
                      (fold (\<lambda>k. wp_remove_cache_state (hk_seq_num k)) taken wp)))
                  (r\<lparr>reader_cache := h\<rparr>)
            in if \<not> flag_contains hb_flag HeartbeatFlag_Final then respond wg r1
               else if \<not> flag_contains hb_flag HeartbeatFlag_Liveliness then
                 (case bm_get (matched_writers r1) wg of
                    Some wp \<Rightarrow> if missing_changes wp = [] then Inr (r1, None) else respond wg r1
                  | None \<Rightarrow> Inr (r1, None))
               else Inr (r1, None)))"

section \<open>Timers and liveliness\<close>

definition notify_reqested_deadline_missed :: "GUID \<Rightarrow> Reader \<Rightarrow> Reader" where
  "notify_reqested_deadline_missed guid r = notify_r (RequestedDeadlineMissed guid) r"

definition heartbeat_response_delay :: "Reader \<Rightarrow> CoreDuration res" where
  "heartbeat_response_delay r =
     CoreDuration_new (wrap_u 64 (dur_seconds (r_heartbeat_response_delay r)))
       (dur_fraction (r_heartbeat_response_delay r))"

definition is_contain_writer :: "GUID \<Rightarrow> Reader \<Rightarrow> bool" where
  "is_contain_writer guid r \<longleftrightarrow> bm_contains guid (matched_writers r) \<or> bm_contains guid (unmatched_writers r)"

definition get_matched_writer_qos :: "GUID \<Rightarrow> Reader \<Rightarrow> DataWriterQosPolicies res" where
  "get_matched_writer_qos guid r =
     (case bm_get (matched_writers r) guid of
        Some wp \<Rightarrow> Inr (wp_qos wp)
      | None \<Rightarrow>
          (case bm_get (unmatched_writers r) guid of
             Some wp \<Rightarrow> Inr (wp_qos wp)
           | None \<Rightarrow> Inl ExplicitPanic))"

text \<open>Whether the lease of a matched writer is over; the clock is read only for a live writer.\<close>

definition writer_lost :: "Timestamp option \<Rightarrow> DiscoveryDB \<Rightarrow> GUID \<times> WriterProxy \<Rightarrow> bool res" where
  "writer_lost now db gp =
     (let wld = lease_duration (fst (dw_liveliness (wp_qos (snd gp)))) in
      if wld = DURATION_INFINITE then Inr False
      else
        (case read_remote_writer (fst gp) db of
           Live la \<Rightarrow> lease_expired now wld la
         | EpLivelinessLost \<Rightarrow> Inr True
         | EpUnknown \<Rightarrow> Inr False))"

definition reader_check_liveliness :: "Timestamp option \<Rightarrow> DiscoveryDB \<Rightarrow> Reader
    \<Rightarrow> (DiscoveryDB \<times> Reader) res" where
  "reader_check_liveliness now db r =
     rbind (rfold (\<lambda>gp to_unmatch. rbind (writer_lost now db gp) (\<lambda>lost.
              Inr (if lost then to_unmatch @ [fst gp] else to_unmatch))) (matched_writers r) [])
       (\<lambda>to_unmatch.
         Inr (fold (\<lambda>g (db, r). (update_remote_writer_state g EpLivelinessLost db, matched_writer_unmatch g r))
           to_unmatch (db, r)))"

definition get_min_remote_writer_lease_duration :: "Reader \<Rightarrow> CoreDuration res" where
  "get_min_remote_writer_lease_duration r =
     (let min_ld = fold (\<lambda>wp m. let wld = lease_duration (fst (dw_liveliness (wp_qos wp)))
                                in if dur_less wld m then wld else m)
           (bm_values (matched_writers r)) DURATION_INFINITE
      in if min_ld = DURATION_INFINITE then CoreDuration_new 10 0
         else CoreDuration_new (wrap_u 64 (dur_seconds min_ld)) (dur_fraction min_ld))"

definition reader_remove_change_if_exist :: "HCKey \<Rightarrow> Reader \<Rightarrow> Reader" where
  "reader_remove_change_if_exist key r =
     r\<lparr>reader_cache := remove_change_if_exist key (reader_cache r)\<rparr>"

end
