(* ===== verification/Umber_ReaderInv.thy ===== *)
theory Umber_ReaderInv
  imports Umber_Reader
begin

text \<open>
  The invariant of the RTPS reader and what its handlers do. \<open>reader_inv\<close> says that the cache is a
  consistent reader cache, that the tables of matched and unmatched writers hold well-formed proxies
  under the GUID of their writer, and that exactly the known writers have a communication state.
\<close>

section \<open>Tables of writer proxies\<close>

definition wproxy_ok :: "GUID \<Rightarrow> WriterProxy \<Rightarrow> bool" where
  "wproxy_ok g p \<longleftrightarrow>
     wp_wf p \<and> remote_writer_guid p = g \<and> list_all (\<lambda>(n, e). n < i64_max) (wp_cache_state p)"

definition proxies_ok :: "(GUID, WriterProxy) btree_map \<Rightarrow> bool" where
  "proxies_ok m \<longleftrightarrow> bm_wf m \<and> list_all (\<lambda>(g, p). wproxy_ok g p) m"

definition state_ok :: "ReaderState \<Rightarrow> bool" where
  "state_ok st \<longleftrightarrow> (case st of WaitingFor wl \<Rightarrow> bs_wf wl | _ \<Rightarrow> True)"

definition reader_inv :: "Reader \<Rightarrow> bool" where
  "reader_inv r \<longleftrightarrow>
     hc_inv (reader_cache r) \<and> hc_type (reader_cache r) = HCReader \<and>
     proxies_ok (matched_writers r) \<and> proxies_ok (unmatched_writers r) \<and>
     bm_wf (writer_communication_state r) \<and>
     list_all (\<lambda>(g, st). state_ok st) (writer_communication_state r) \<and>
     set (bm_keys (writer_communication_state r)) =
       set (bm_keys (matched_writers r)) \<union> set (bm_keys (unmatched_writers r))"

text \<open>The same, with the tables read as functions.\<close>

lemma wproxy_ok_iff:
  "wproxy_ok g p \<longleftrightarrow> wp_wf p \<and> remote_writer_guid p = g \<and> (\<forall>n st. wp_status p n = Some st \<longrightarrow> n < i64_max)"
proof -
  have "list_all (\<lambda>(n, e). n < i64_max) (wp_cache_state p) \<longleftrightarrow>
      (\<forall>n st. wp_status p n = Some st \<longrightarrow> n < i64_max)" if "wp_wf p"
    using list_all_bm_get [OF wp_wfD(1) [OF that], of "\<lambda>n e. n < i64_max"]
    by (auto simp: wp_status_def wp_entry_def)
  then show ?thesis by (auto simp: wproxy_ok_def)
qed

lemma proxies_ok_iff:
  "proxies_ok m \<longleftrightarrow> bm_wf m \<and> (\<forall>g p. bm_get m g = Some p \<longrightarrow> wproxy_ok g p)"
  using list_all_bm_get [of m wproxy_ok] by (auto simp: proxies_ok_def)

lemma proxies_okD: "proxies_ok m \<Longrightarrow> bm_get m g = Some p \<Longrightarrow> wproxy_ok g p"
  by (simp add: proxies_ok_iff)

lemma proxies_ok_Nil [simp, umber_wf]: "proxies_ok []"
  by (simp add: proxies_ok_iff)

lemma proxies_ok_insert [umber_wf]: "proxies_ok m \<Longrightarrow> wproxy_ok g p \<Longrightarrow> proxies_ok (bm_insert g p m)"
  by (simp add: proxies_ok_iff)

lemma proxies_ok_remove [umber_wf]: "proxies_ok m \<Longrightarrow> proxies_ok (bm_remove g m)"
  by (simp add: proxies_ok_iff)

lemma proxies_ok_adjust [umber_wf]:
  "proxies_ok m \<Longrightarrow> (\<And>p. wproxy_ok g p \<Longrightarrow> wproxy_ok g (f p)) \<Longrightarrow> proxies_ok (bm_adjust g f m)"
  by (auto simp: proxies_ok_iff)

lemma reader_inv_iff:
  "reader_inv r \<longleftrightarrow>
     hc_inv (reader_cache r) \<and> hc_type (reader_cache r) = HCReader \<and>
     proxies_ok (matched_writers r) \<and> proxies_ok (unmatched_writers r) \<and>
     bm_wf (writer_communication_state r) \<and>
     (\<forall>g st. bm_get (writer_communication_state r) g = Some st \<longrightarrow> state_ok st) \<and>
     (\<forall>g. bm_get (writer_communication_state r) g = None \<longleftrightarrow>
        bm_get (matched_writers r) g = None \<and> bm_get (unmatched_writers r) g = None)"
proof -
  have "set (bm_keys (writer_communication_state r)) =
      set (bm_keys (matched_writers r)) \<union> set (bm_keys (unmatched_writers r)) \<longleftrightarrow>
    (\<forall>g. bm_get (writer_communication_state r) g = None \<longleftrightarrow>
      bm_get (matched_writers r) g = None \<and> bm_get (unmatched_writers r) g = None)"
    unfolding bm_get_None by (simp add: set_eq_iff) blast
  moreover have "bm_wf (writer_communication_state r) \<Longrightarrow>
      list_all (\<lambda>(g, st). state_ok st) (writer_communication_state r) \<longleftrightarrow>
      (\<forall>g st. bm_get (writer_communication_state r) g = Some st \<longrightarrow> state_ok st)"
    using list_all_bm_get [of "writer_communication_state r" "\<lambda>g. state_ok"] by simp
  ultimately show ?thesis by (auto simp: reader_inv_def)
qed

lemma reader_invD:
  assumes "reader_inv r"
  shows "hc_inv (reader_cache r)" and "hc_type (reader_cache r) = HCReader"
    and "bm_get (matched_writers r) g = Some p \<Longrightarrow> wproxy_ok g p"
    and "bm_get (matched_writers r) g = Some p \<Longrightarrow> \<exists>st. bm_get (writer_communication_state r) g = Some st"
    and "bm_get (writer_communication_state r) g = Some st \<Longrightarrow> state_ok st"
  using assms unfolding reader_inv_iff
  by (auto dest: proxies_okD) (metis option.distinct(1) option.exhaust)

section \<open>Updates that keep the invariant\<close>

lemma reader_inv_cache:
  "reader_inv r \<Longrightarrow> hc_inv h \<Longrightarrow> hc_type h = HCReader \<Longrightarrow> reader_inv (r\<lparr>reader_cache := h\<rparr>)"
  by (simp add: reader_inv_iff)

lemma reader_inv_out [simp]:
  "reader_inv (notify_r s r) = reader_inv r"
  "reader_inv (r\<lparr>r_udp_sender := u\<rparr>) = reader_inv r"
  by (simp_all add: reader_inv_iff notify_r_def)

lemma reader_inv_set_state: "reader_inv r \<Longrightarrow> state_ok st \<Longrightarrow> reader_inv (set_state g st r)"
  by (auto simp: reader_inv_iff set_state_def)

lemma reader_inv_on_proxy:
  assumes "reader_inv r" and "\<And>p. wproxy_ok g p \<Longrightarrow> wproxy_ok g (f p)"
  shows "reader_inv (on_proxy g f r)"
  using assms by (auto simp: reader_inv_iff on_proxy_def intro: proxies_ok_adjust)

lemma reader_inv_rematch: "reader_inv r \<Longrightarrow> reader_inv (rematch g r)"
  by (auto simp: rematch_def liveliness_changed_def reader_inv_iff notify_r_def
      intro: proxies_ok_insert proxies_ok_remove proxies_okD split: option.splits)

text \<open>What the proxy operations keep.\<close>

lemma wproxy_ok_ops:
  assumes "wproxy_ok g p"
  shows "n < i64_max \<Longrightarrow> wproxy_ok g (received_change_set n p)"
    and "n < i64_max \<Longrightarrow> wproxy_ok g (irrelevant_change_set n p)"
    and "wproxy_ok g (lost_changes_update n p)"
    and "l < i64_max \<Longrightarrow> wproxy_ok g (missing_changes_update n l p)"
    and "wproxy_ok g (wp_remove_cache_state n p)"
proof -
  note a = assms [unfolded wproxy_ok_iff]
  from a have wf: "wp_wf p" by simp
  show "n < i64_max \<Longrightarrow> wproxy_ok g (received_change_set n p)"
    using a by (simp add: wproxy_ok_iff received_change_set_spec [OF wf])
  show "n < i64_max \<Longrightarrow> wproxy_ok g (irrelevant_change_set n p)"
    using a by (simp add: wproxy_ok_iff irrelevant_change_set_spec [OF wf])
  show "wproxy_ok g (lost_changes_update n p)"
    using a by (auto simp: wproxy_ok_iff lost_changes_update_spec [OF wf])
  show "l < i64_max \<Longrightarrow> wproxy_ok g (missing_changes_update n l p)"
    using a by (auto simp: wproxy_ok_iff missing_changes_update_spec [OF wf] split: if_splits)
  show "wproxy_ok g (wp_remove_cache_state n p)"
    using a wp.forget_wf [OF wf] by (simp add: wproxy_ok_iff) (simp add: wp_remove_cache_state_def)
qed

section \<open>The handlers keep the invariant\<close>

text \<open>
  The conditions under which adding a change to the cache does not panic: a change that is already
  there has the same data, and there is a change to evict when a best-effort reader is at its limit.
\<close>

definition can_add :: "CacheChange \<Rightarrow> Reader \<Rightarrow> bool" where
  "can_add c r \<longleftrightarrow>
     (case bm_get (changes (reader_cache r)) (change_key c) of
        Some c' \<Rightarrow> data_value c' = data_value c
      | None \<Rightarrow> limit_reached (fst (dr_resource_limits (r_qos r))) (reader_cache r) \<longrightarrow>
          r_is_reliable r \<or> changes (reader_cache r) \<noteq> [])"

lemma add_change_type: "add_change c rel rl hi h = Inr (h', x) \<Longrightarrow> hc_type h' = hc_type h"
  by (auto simp: add_change_def add_known_def evict_oldest_def after_store_def store_change_def Let_def
      rbind_Inr_iff split: option.splits if_splits list.splits HistoryCacheType.splits)

lemma add_to_cache_ok:
  assumes "reader_inv r" and "can_add c r"
  obtains h where "add_to_cache c r = Inr (r\<lparr>reader_cache := h\<rparr>, Inr ())"
    and "reader_inv (r\<lparr>reader_cache := h\<rparr>)"
    and "add_change c (r_is_reliable r) (fst (dr_resource_limits (r_qos r))) (fst (dr_history (r_qos r)))
      (reader_cache r) = Inr (h, Inr ())"
proof -
  note inv = reader_invD(1,2) [OF assms(1)]
  have "ts2key (reader_cache r) \<noteq> []" if "changes (reader_cache r) \<noteq> []"
    using hc_invD(3) [OF inv(1)] that by auto
  then have "\<exists>h. add_change c (r_is_reliable r) (fst (dr_resource_limits (r_qos r)))
      (fst (dr_history (r_qos r))) (reader_cache r) = Inr (h, Inr ())"
    using assms(2) inv(2)
    by (auto simp: can_add_def add_change_def add_known_def evict_oldest_def rbind_Inr_iff
        split: option.splits list.splits)
  then obtain h where h: "add_change c (r_is_reliable r) (fst (dr_resource_limits (r_qos r)))
      (fst (dr_history (r_qos r))) (reader_cache r) = Inr (h, Inr ())" ..
  show ?thesis
    using that [of h] h reader_inv_cache [OF assms(1) add_change_inv [OF inv(1) h]] add_change_type [OF h] inv(2)
    by (simp add: add_to_cache_def)
qed

lemma flush_cache_ok:
  assumes "reader_inv r"
  obtains h where "flush_cache r = Inr (r\<lparr>reader_cache := h\<rparr>, changes (reader_cache r) \<noteq> [])"
    and "reader_inv (r\<lparr>reader_cache := h\<rparr>)"
    and "changes h = changes (reader_cache r)" and "set (ready_key h) = set (bm_keys (changes h))"
proof -
  note inv = reader_invD(1,2) [OF assms(1)]
  let ?h = "(reader_cache r)\<lparr>ready_key := fold bs_insert (bm_keys (changes (reader_cache r))) (ready_key (reader_cache r))\<rparr>"
  have f: "flush (reader_cache r) = Inr (?h, changes (reader_cache r) \<noteq> [])"
    using inv(2) by (simp add: flush_def)
  show ?thesis
    using that [of ?h] f reader_inv_cache [OF assms flush_inv [OF inv(1) f]] inv(2) hc_invD(6) [OF inv(1)]
    by (auto simp: flush_cache_def)
qed

text \<open>Everything the cache holds becomes available to the application.\<close>

definition all_ready :: "Reader \<Rightarrow> bool" where
  "all_ready r \<longleftrightarrow> set (ready_key (reader_cache r)) = set (bm_keys (changes (reader_cache r)))"

lemma release_ok:
  assumes "reader_inv r"
  obtains h where "release r = Inr (notify_r DataAvailable (r\<lparr>reader_cache := h\<rparr>))"
    and "reader_inv (r\<lparr>reader_cache := h\<rparr>)"
    and "changes h = changes (reader_cache r)" and "all_ready (r\<lparr>reader_cache := h\<rparr>)"
proof -
  from flush_cache_ok [OF assms] obtain h where
    "flush_cache r = Inr (r\<lparr>reader_cache := h\<rparr>, changes (reader_cache r) \<noteq> [])"
    "reader_inv (r\<lparr>reader_cache := h\<rparr>)" "changes h = changes (reader_cache r)"
    "set (ready_key h) = set (bm_keys (changes h))" by metis
  then show ?thesis using that [of h] by (simp add: release_def all_ready_def)
qed

lemma all_ready_frame [simp]:
  "all_ready (notify_r s r) = all_ready r"
  "all_ready (set_state g st r) = all_ready r"
  "all_ready (on_proxy g f r) = all_ready r"
  by (simp_all add: all_ready_def notify_r_def set_state_def on_proxy_def)

text \<open>The parts of the reader that the reordering and the proxies do not touch.\<close>

lemma reader_frame [simp]:
  "reader_cache (notify_r s r) = reader_cache r" "reader_cache (set_state g st r) = reader_cache r"
  "reader_cache (on_proxy g f r) = reader_cache r"
  "matched_writers (notify_r s r) = matched_writers r" "matched_writers (set_state g st r) = matched_writers r"
  "matched_writers (on_proxy g f r) = bm_adjust g f (matched_writers r)"
  "unmatched_writers (notify_r s r) = unmatched_writers r" "unmatched_writers (set_state g st r) = unmatched_writers r"
  "unmatched_writers (on_proxy g f r) = unmatched_writers r"
  "writer_communication_state (notify_r s r) = writer_communication_state r"
  "writer_communication_state (on_proxy g f r) = writer_communication_state r"
  "writer_communication_state (set_state g st r) = bm_adjust g (\<lambda>_. st) (writer_communication_state r)"
  "r_qos (notify_r s r) = r_qos r" "r_qos (set_state g st r) = r_qos r" "r_qos (on_proxy g f r) = r_qos r"
  "r_reliability_level (notify_r s r) = r_reliability_level r"
  "r_reliability_level (set_state g st r) = r_reliability_level r"
  "r_reliability_level (on_proxy g f r) = r_reliability_level r"
  "r_guid (notify_r s r) = r_guid r" "r_guid (set_state g st r) = r_guid r" "r_guid (on_proxy g f r) = r_guid r"
  "r_udp_sender (notify_r s r) = r_udp_sender r" "r_udp_sender (set_state g st r) = r_udp_sender r"
  "r_udp_sender (on_proxy g f r) = r_udp_sender r"
  "r_endianness (notify_r s r) = r_endianness r" "r_endianness (set_state g st r) = r_endianness r"
  "r_heartbeat_response_delay (on_proxy g f r) = r_heartbeat_response_delay r"
  by (simp_all add: notify_r_def set_state_def on_proxy_def)

text \<open>
  The state after the receipt of a change, and whether the cache is released: nothing is waited for
  any more, or the change is the expected one.
\<close>

definition next_state :: "SequenceNumber \<Rightarrow> ReaderState \<Rightarrow> ReaderState" where
  "next_state n st =
     (case st of
        Initial \<Rightarrow> Initial
      | WaitingFor wl \<Rightarrow> WaitingFor (bs_remove n wl)
      | Expect m \<Rightarrow> if n = m then Expect (m + 1) else Expect m)"

definition releases :: "SequenceNumber \<Rightarrow> ReaderState \<Rightarrow> bool" where
  "releases n st \<longleftrightarrow>
     (case st of Initial \<Rightarrow> False | WaitingFor wl \<Rightarrow> bs_remove n wl = [] | Expect m \<Rightarrow> n = m)"

lemma advance_state_ok:
  assumes inv: "reader_inv r" and st: "bm_get (writer_communication_state r) g = Some st"
    and n: "0 \<le> n" "n < i64_max"
  obtains r' where "advance_state g n r = Inr r'" and "reader_inv r'"
    and "matched_writers r' = matched_writers r" and "unmatched_writers r' = unmatched_writers r"
    and "writer_communication_state r' = bm_adjust g (\<lambda>_. next_state n st) (writer_communication_state r)"
    and "changes (reader_cache r') = changes (reader_cache r)"
    and "if releases n st then all_ready r' else reader_cache r' = reader_cache r"
    and "r_udp_sender r' = r_udp_sender r"
proof (cases st)
  case Initial
  have "bm_adjust g (\<lambda>_. next_state n st) (writer_communication_state r) = writer_communication_state r"
    using inv st Initial by (intro bm_ext) (auto simp: reader_inv_iff next_state_def)
  then show ?thesis
    using that [of r] inv st Initial by (simp add: advance_state_def releases_def)
next
  case (WaitingFor wl)
  have "bs_wf wl" using reader_invD(5) [OF inv st] WaitingFor by (simp add: state_ok_def)
  then have inv': "reader_inv (set_state g (WaitingFor (bs_remove n wl)) r)"
    by (intro reader_inv_set_state inv) (simp add: state_ok_def)
  from release_ok [OF this] obtain h where h:
    "release (set_state g (WaitingFor (bs_remove n wl)) r) =
      Inr (notify_r DataAvailable ((set_state g (WaitingFor (bs_remove n wl)) r)\<lparr>reader_cache := h\<rparr>))"
    "reader_inv ((set_state g (WaitingFor (bs_remove n wl)) r)\<lparr>reader_cache := h\<rparr>)"
    "changes h = changes (reader_cache r)"
    "all_ready ((set_state g (WaitingFor (bs_remove n wl)) r)\<lparr>reader_cache := h\<rparr>)" by auto
  show ?thesis
    using that h inv' st WaitingFor
    by (cases "bs_remove n wl = []") (simp_all add: advance_state_def releases_def next_state_def)
next
  case (Expect m)
  show ?thesis
  proof (cases "n = m")
    case False
    have "bm_adjust g (\<lambda>_. next_state n st) (writer_communication_state r) = writer_communication_state r"
      using inv st Expect False by (intro bm_ext) (auto simp: reader_inv_iff next_state_def)
    then show ?thesis
      using that [of r] inv st Expect False by (simp add: advance_state_def releases_def)
  next
    case True
    from release_ok [OF inv] obtain h where h:
      "release r = Inr (notify_r DataAvailable (r\<lparr>reader_cache := h\<rparr>))"
      "reader_inv (r\<lparr>reader_cache := h\<rparr>)" "changes h = changes (reader_cache r)"
      "all_ready (r\<lparr>reader_cache := h\<rparr>)" by metis
    have "i64_add m 1 = Inr (m + 1)" using n True by (simp add: in_i64_def i64_max_def)
    then show ?thesis
      using that [of "set_state g (Expect (m + 1)) (notify_r DataAvailable (r\<lparr>reader_cache := h\<rparr>))"]
        h st Expect True reader_inv_set_state [of "notify_r DataAvailable (r\<lparr>reader_cache := h\<rparr>)" "Expect (m + 1)" g]
      by (simp add: advance_state_def releases_def next_state_def state_ok_def i64_add_def)
  qed
qed

lemma add_change_reliable_ok:
  assumes inv: "reader_inv r" and p: "bm_get (matched_writers r) g = Some p"
    and st: "bm_get (writer_communication_state r) g = Some st" and c: "can_add c r"
    and n: "0 \<le> sequence_number c" "sequence_number c < i64_max"
  obtains r' h where "add_change_reliable g c r = Inr r'" and "reader_inv r'"
    and "matched_writers r' = bm_adjust g (received_change_set (sequence_number c)) (matched_writers r)"
    and "writer_communication_state r' =
      bm_adjust g (\<lambda>_. next_state (sequence_number c) st) (writer_communication_state r)"
    and "add_change c (r_is_reliable r) (fst (dr_resource_limits (r_qos r))) (fst (dr_history (r_qos r)))
      (reader_cache r) = Inr (h, Inr ())"
    and "changes (reader_cache r') = changes h"
    and "if releases (sequence_number c) st then all_ready r' else ready_key (reader_cache r') = ready_key h"
proof -
  from add_to_cache_ok [OF inv c] obtain h where h:
    "add_to_cache c r = Inr (r\<lparr>reader_cache := h\<rparr>, Inr ())" "reader_inv (r\<lparr>reader_cache := h\<rparr>)"
    "add_change c (r_is_reliable r) (fst (dr_resource_limits (r_qos r))) (fst (dr_history (r_qos r)))
      (reader_cache r) = Inr (h, Inr ())" by metis
  have st': "bm_get (writer_communication_state (r\<lparr>reader_cache := h\<rparr>)) g = Some st" using st by simp
  obtain r2 where r2:
    "advance_state g (sequence_number c) (r\<lparr>reader_cache := h\<rparr>) = Inr r2" "reader_inv r2"
    "matched_writers r2 = matched_writers (r\<lparr>reader_cache := h\<rparr>)"
    "writer_communication_state r2 = bm_adjust g (\<lambda>_. next_state (sequence_number c) st)
      (writer_communication_state (r\<lparr>reader_cache := h\<rparr>))"
    "changes (reader_cache r2) = changes (reader_cache (r\<lparr>reader_cache := h\<rparr>))"
    "if releases (sequence_number c) st then all_ready r2
     else reader_cache r2 = reader_cache (r\<lparr>reader_cache := h\<rparr>)"
    by (rule advance_state_ok [OF h(2) st' n])
  let ?r = "on_proxy g (received_change_set (sequence_number c)) r2"
  have "reader_inv ?r" using r2(2) n by (intro reader_inv_on_proxy) (auto intro: wproxy_ok_ops)
  show ?thesis
  proof (rule that [of ?r h])
    show "add_change_reliable g c r = Inr ?r" by (simp add: add_change_reliable_def h(1) r2(1))
    show "reader_inv ?r" by fact
    show "if releases (sequence_number c) st then all_ready ?r else ready_key (reader_cache ?r) = ready_key h"
      using r2(6) by (simp split: if_splits)
  qed (simp_all add: r2 h(3))
qed

lemma fold_on_proxy_inv:
  assumes "reader_inv r"
  shows "reader_inv (fold (\<lambda>k. on_proxy (hk_guid k) (wp_remove_cache_state (hk_seq_num k))) ks r)"
  using assms
  by (induction ks arbitrary: r) (auto intro!: reader_inv_on_proxy intro: wproxy_ok_ops)

lemma fold_on_proxy_frame:
  fixes ks :: "HCKey list"
  defines "f \<equiv> fold (\<lambda>k. on_proxy (hk_guid k) (wp_remove_cache_state (hk_seq_num k))) ks"
  shows "reader_cache (f r) = reader_cache r" and "r_qos (f r) = r_qos r"
    and "r_reliability_level (f r) = r_reliability_level r"
    and "writer_communication_state (f r) = writer_communication_state r"
    and "unmatched_writers (f r) = unmatched_writers r"
    and "bm_get (matched_writers (f r)) g =
      map_option (fold (\<lambda>k. wp_remove_cache_state (hk_seq_num k)) (filter (\<lambda>k. hk_guid k = g) ks))
        (bm_get (matched_writers r) g)"
  unfolding f_def
  by (induction ks arbitrary: r) (auto simp: option.map_comp o_def option.map_ident option.map_id)

lemma forget_taken_ok:
  assumes "reader_inv r"
  obtains r' where "forget_taken r = Inr r'" and "reader_inv r'"
    and "reader_cache r' = (reader_cache r)\<lparr>taken_key := []\<rparr>" and "r_qos r' = r_qos r"
    and "r_reliability_level r' = r_reliability_level r"
    and "\<And>g. bm_get (matched_writers r') g =
      map_option (fold (\<lambda>k. wp_remove_cache_state (hk_seq_num k))
        (filter (\<lambda>k. hk_guid k = g) (taken_key (reader_cache r)))) (bm_get (matched_writers r) g)"
proof -
  note inv = reader_invD(1,2) [OF assms]
  let ?h = "(reader_cache r)\<lparr>taken_key := []\<rparr>"
  have g: "get_taken (reader_cache r) = Inr (?h, taken_key (reader_cache r))"
    using inv(2) by (simp add: get_taken_def)
  have "reader_inv (r\<lparr>reader_cache := ?h\<rparr>)"
    using assms get_taken_inv [OF inv(1) g] inv(2) by (intro reader_inv_cache) simp_all
  from fold_on_proxy_inv [OF this] show ?thesis
    using that g by (simp add: forget_taken_def fold_on_proxy_frame)
qed

lemma available_changes_max_bound:
  assumes "wproxy_ok g p"
  shows "0 \<le> available_changes_max p" and "available_changes_max p < i64_max"
proof -
  from assms have wf: "wp_wf p" by (simp add: wproxy_ok_iff)
  have "finite {n. wp_status p n = Some Received \<or> wp_status p n = Some Lost}" (is "finite ?S")
    by (rule finite_subset [of _ "fst ` set (wp_cache_state p)"])
      (auto simp: wp_status_def wp_entry_def intro: bm_get_Some_key)
  moreover have "\<forall>n \<in> ?S. n < i64_max" using assms by (auto simp: wproxy_ok_iff)
  ultimately show "0 \<le> available_changes_max p" "available_changes_max p < i64_max"
    unfolding available_changes_max_spec [OF wf] by (auto simp: i64_max_def)
qed

text \<open>A best-effort reader, after it has forgotten what was taken.\<close>

lemma add_change_best_effort_ok:
  assumes inv: "reader_inv r" and c: "can_add c r" and n: "0 \<le> sequence_number c" "sequence_number c < i64_max"
  obtains r' where "add_change_best_effort g c r = Inr r'" and "reader_inv r'"
proof -
  from forget_taken_ok [OF inv] obtain r1 where r1: "forget_taken r = Inr r1" "reader_inv r1"
    "reader_cache r1 = (reader_cache r)\<lparr>taken_key := []\<rparr>" "r_qos r1 = r_qos r"
    "r_reliability_level r1 = r_reliability_level r" by metis
  have c1: "can_add c r1"
    using c unfolding can_add_def r1(3,4) r_is_reliable_def r1(5) limit_reached_def
    by (simp split: option.splits)
  show ?thesis
  proof (cases "bm_get (matched_writers r1) g")
    case None
    then show ?thesis using that r1(1,2) by (simp add: add_change_best_effort_def)
  next
    case (Some p)
    note ok = reader_invD(3) [OF r1(2) Some]
    have e: "i64_add (available_changes_max p) 1 = Inr (available_changes_max p + 1)"
      using available_changes_max_bound [OF ok] by (simp add: in_i64_def i64_max_def)
    from add_to_cache_ok [OF r1(2) c1] obtain h where h:
      "add_to_cache c r1 = Inr (r1\<lparr>reader_cache := h\<rparr>, Inr ())" "reader_inv (r1\<lparr>reader_cache := h\<rparr>)" by metis
    from release_ok [OF h(2)] obtain h2 where h2:
      "release (r1\<lparr>reader_cache := h\<rparr>) = Inr (notify_r DataAvailable (r1\<lparr>reader_cache := h, reader_cache := h2\<rparr>))"
      "reader_inv (r1\<lparr>reader_cache := h, reader_cache := h2\<rparr>)" by metis
    let ?r2 = "notify_r DataAvailable (r1\<lparr>reader_cache := h, reader_cache := h2\<rparr>)"
    let ?r3 = "on_proxy g (received_change_set (sequence_number c)) ?r2"
    have "reader_inv ?r2" using h2(2) by simp
    then have i3: "reader_inv ?r3" by (rule reader_inv_on_proxy) (use n in \<open>auto intro: wproxy_ok_ops\<close>)
    then have "reader_inv (on_proxy g (lost_changes_update (sequence_number c)) ?r3)"
      by (rule reader_inv_on_proxy) (auto intro: wproxy_ok_ops)
    moreover have "add_change_best_effort g c r = Inr (if available_changes_max p + 1 \<le> sequence_number c
        then if available_changes_max p + 1 < sequence_number c
             then on_proxy g (lost_changes_update (sequence_number c)) ?r3 else ?r3
        else r1)"
      by (simp add: add_change_best_effort_def r1(1) Some e h(1) h2(1) [simplified] Let_def)
    ultimately show ?thesis using that i3 r1(2) by presburger
  qed
qed

lemma reader_add_change_inv:
  assumes inv: "reader_inv r" and c: "can_add c r" and n: "0 \<le> sequence_number c" "sequence_number c < i64_max"
  shows "\<exists>r' rt. reader_add_change prefix c r = Inr (r', rt) \<and> reader_inv r'"
proof -
  let ?g = "GUID prefix (entity_id (writer_guid c))"
  let ?r = "rematch ?g r"
  have i: "reader_inv ?r" by (rule reader_inv_rematch [OF inv])
  have c1: "can_add c ?r"
    using c by (simp add: can_add_def rematch_def r_is_reliable_def liveliness_changed_def split: option.splits)
  show ?thesis
  proof (cases "bm_get (matched_writers ?r) ?g")
    case None
    with i show ?thesis by (simp add: reader_add_change_def Let_def)
  next
    case (Some p)
    from reader_invD(4) [OF i Some] obtain st where "bm_get (writer_communication_state ?r) ?g = Some st" ..
    from add_change_reliable_ok [OF i Some this c1 n] obtain r1 where r1: "add_change_reliable ?g c ?r = Inr r1" "reader_inv r1"
      by metis
    from add_change_best_effort_ok [OF i c1 n, of ?g] obtain r2 where "add_change_best_effort ?g c ?r = Inr r2" "reader_inv r2" .
    with r1 show ?thesis by (simp add: reader_add_change_def Let_def Some)
  qed
qed

text \<open>Gaps.\<close>

lemma skip_seq_num_inv: "reader_inv r \<Longrightarrow> n < i64_max \<Longrightarrow> reader_inv (skip_seq_num g n r)"
proof -
  assume inv: "reader_inv r" and n: "n < i64_max"
  have i: "reader_inv (on_proxy g (irrelevant_change_set n) r)"
    using inv n by (intro reader_inv_on_proxy) (auto intro: wproxy_ok_ops)
  then show ?thesis
    using reader_invD(5) [OF i, of g]
    by (auto simp: skip_seq_num_def Let_def state_ok_def intro!: reader_inv_set_state
        split: option.splits ReaderState.splits)
qed

lemma fold_skip_inv: "reader_inv r \<Longrightarrow> \<forall>n \<in> set ns. n < i64_max \<Longrightarrow> reader_inv (fold (skip_seq_num g) ns r)"
  by (induction ns arbitrary: r) (auto intro: skip_seq_num_inv)

lemma handle_gap_inv:
  assumes "reader_inv r" and "bitmap_base (gap_list gap) \<le> i64_max"
    and "sns_set (gap_list gap) = Inr ns" and "\<forall>n \<in> set ns. n < i64_max"
  shows "\<exists>r'. handle_gap g gap r = Inr r' \<and> reader_inv r'"
proof -
  let ?r1 = "fold (skip_seq_num g) [gap_start gap..bitmap_base (gap_list gap) - 1] (rematch g r)"
  have "reader_inv ?r1" using assms(2) by (intro fold_skip_inv reader_inv_rematch assms(1)) auto
  then have "reader_inv (fold (skip_seq_num g) ns ?r1)" by (rule fold_skip_inv) (rule assms(4))
  with reader_inv_rematch [OF assms(1), of g] show ?thesis
    by (auto simp: handle_gap_def Let_def assms(3) split: option.splits)
qed

section \<open>The answer to a heartbeat\<close>

definition acknack_message :: "Endianness \<Rightarrow> GUID \<Rightarrow> GUID \<Rightarrow> AckNack \<Rightarrow> int \<Rightarrow> Message" where
  "acknack_message e self wg a len =
     mb_build (guid_prefix self) (mb_info_dst e (guid_prefix wg) [] @
       [sub_message ACKNACK (from_enndianness e) len (Entity (ES_AckNack a (from_enndianness e)))])"

text \<open>An ACKNACK fits the 16 bits of its length up to about half a million requested numbers.\<close>

definition span_ok :: "SequenceNumber list \<Rightarrow> bool" where
  "span_ok ns \<longleftrightarrow> (\<forall>n \<in> set ns. n - hd ns < 500000)"

lemma acknack_set:
  assumes "bs_wf ns" and "span_ok ns" and "\<forall>n \<in> set ns. in_i64 n" and "ns \<noteq> [] \<Longrightarrow> base = hd ns"
  obtains s len where "sns_from_vec base ns = Inr s" and "bitmap_base s = base" and "sns_set s = Inr ns"
    and "sns_is_valid s \<longleftrightarrow> 1 \<le> base \<and> (ns = [] \<or> last ns - base < 255)"
    and "\<And>e w rd b. mb_acknack e w rd s 1 False b = Inr (b @ [sub_message ACKNACK (from_enndianness e) len
      (Entity (ES_AckNack \<lparr>an_reader_id = rd, an_writer_id = w, reader_sn_state = s, an_count = 1\<rparr>
        (from_enndianness e)))])"
proof -
  have near: "base \<le> x \<and> x - base < 500000" if "x \<in> set ns" for x
  proof -
    have "base = hd ns" using assms(4) that by (cases ns) auto
    then show ?thesis using that assms(2) bs_wf_hd_le [OF assms(1) that] by (simp add: span_ok_def)
  qed
  have "base \<le> x \<and> x - base < 2 ^ 32 - 1" if "x \<in> set ns" for x using near [OF that] by simp
  from sns_from_vec_inv [OF assms(1) this] obtain s where s: "sns_from_vec base ns = Inr s" "bitmap_base s = base"
    "fv_inv base ns (num_bits s) (bitmap s)" .
  have set: "sns_set s = Inr ns" using s assms by (intro fv_inv_set) auto
  have last: "ns \<noteq> [] \<Longrightarrow> base \<le> last ns \<and> last ns - base < 500000" using near by simp
  have nb: "num_bits s = (if ns = [] then 0 else nat (last ns - base) + 1)"
    and len: "length (bitmap s) = div_ceil32 (num_bits s)" using s(3) by (simp_all add: fv_inv_def)
  have valid: "sns_is_valid s \<longleftrightarrow> 1 \<le> base \<and> (ns = [] \<or> last ns - base < 255)"
    using last s(2) by (auto simp: sns_is_valid_def len nb)
  have "num_bits s \<le> 500000" using last nb by auto
  then have "length (bitmap s) \<le> 15626" by (simp add: len div_ceil32_def)
  then have size: "sns_size s = Inr (12 + int (length (bitmap s)) * 4)"
    and "u16_checked (12 + (12 + int (length (bitmap s)) * 4)) = Inr (24 + int (length (bitmap s)) * 4)"
    by (simp_all add: sns_size_def u16_checked_def wrap_u_def Let_def)
  then have mb: "mb_acknack e w rd s 1 False b = Inr (b @ [sub_message ACKNACK (from_enndianness e) (24 + int (length (bitmap s)) * 4)
      (Entity (ES_AckNack \<lparr>an_reader_id = rd, an_writer_id = w, reader_sn_state = s, an_count = 1\<rparr>
        (from_enndianness e)))])" for e w rd b
    unfolding mb_acknack_def size by (simp add: Let_def)
  show ?thesis by (rule that [OF s(1,2) set valid mb])
qed

lemma Min_hd: "bs_wf ns \<Longrightarrow> ns \<noteq> [] \<Longrightarrow> Min (set ns) = hd ns" for ns :: "int list"
  by (rule Min_eqI) (auto intro: bs_wf_hd_le)

text \<open>
  What a reader requests from a writer: the missing changes, from the least one on, or nothing, from the
  first one not yet available on. The reader then waits for exactly these.
\<close>

definition request_base :: "WriterProxy \<Rightarrow> SequenceNumber" where
  "request_base p = (case missing_changes p of [] \<Rightarrow> available_changes_max p + 1 | n # _ \<Rightarrow> n)"

definition waits_for :: "WriterProxy \<Rightarrow> ReaderState" where
  "waits_for p = (case missing_changes p of [] \<Rightarrow> Expect (available_changes_max p + 1) | ns \<Rightarrow> WaitingFor ns)"

lemma acknack_base_ok:
  assumes inv: "reader_inv r" and p: "bm_get (matched_writers r) g = Some p"
  obtains r' where "acknack_base g p r = Inr (r', request_base p)" and "reader_inv r'"
    and "matched_writers r' = matched_writers r" and "r_guid r' = r_guid r"
    and "r_endianness r' = r_endianness r" and "r_udp_sender r' = r_udp_sender r"
    and "bm_get (writer_communication_state r') g = Some (waits_for p)"
    and "changes (reader_cache r') = changes (reader_cache r)"
    and "if missing_changes p = [] then all_ready r' else reader_cache r' = reader_cache r"
proof -
  note ok = reader_invD(3) [OF inv p]
  note wf = ok [unfolded wproxy_ok_iff, THEN conjunct1]
  note ms = missing_changes_spec(1) [OF wf]
  from reader_invD(4) [OF inv p] obtain st where st: "bm_get (writer_communication_state r) g = Some st" ..
  show ?thesis
  proof (cases "missing_changes p")
    case Nil
    have e: "i64_add (available_changes_max p) 1 = Inr (available_changes_max p + 1)"
      using available_changes_max_bound [OF ok] by (simp add: in_i64_def i64_max_def)
    let ?r = "set_state g (Expect (available_changes_max p + 1)) r"
    have i: "reader_inv ?r" by (rule reader_inv_set_state [OF inv]) (simp add: state_ok_def)
    from flush_cache_ok [OF i] obtain h where h: "flush_cache ?r = Inr (?r\<lparr>reader_cache := h\<rparr>, changes (reader_cache ?r) \<noteq> [])"
      "reader_inv (?r\<lparr>reader_cache := h\<rparr>)" "changes h = changes (reader_cache ?r)"
      "set (ready_key h) = set (bm_keys (changes h))" by metis
    let ?r' = "if changes (reader_cache ?r) \<noteq> [] then notify_r DataAvailable (?r\<lparr>reader_cache := h\<rparr>) else ?r\<lparr>reader_cache := h\<rparr>"
    have "acknack_base g p r = Inr (?r', request_base p)"
      unfolding acknack_base_def Nil list.case e rbind_simps
      by (simp add: st h(1) request_base_def Nil cong: if_cong)
    then show ?thesis
      using h st by (intro that [of ?r']) (simp_all add: Nil waits_for_def all_ready_def)
  next
    case (Cons n ns)
    let ?r = "set_state g (WaitingFor (fold bs_insert (missing_changes p) [])) r"
    have "fold bs_insert (missing_changes p) [] = missing_changes p"
      using ms by (intro bs_wf_unique) (simp_all add: fold_bs_insert)
    then have r: "?r = set_state g (WaitingFor (n # ns)) r" using Cons by simp
    have "reader_inv ?r" unfolding r by (rule reader_inv_set_state [OF inv]) (use ms Cons in \<open>simp add: state_ok_def\<close>)
    moreover have "acknack_base g p r = Inr (?r, request_base p)"
      using st Min_hd [OF ms] Cons by (simp add: acknack_base_def request_base_def)
    ultimately show ?thesis
      using st Cons r by (intro that [of ?r]) (simp_all add: waits_for_def)
  qed
qed

text \<open>The ACKNACK of a reader goes to every locator of the writer.\<close>

definition acknack_sent :: "GUID \<Rightarrow> AckNack \<Rightarrow> WriterProxy \<Rightarrow> Reader \<Rightarrow> Reader \<Rightarrow> bool" where
  "acknack_sent g a p r r' \<longleftrightarrow>
     an_reader_id a = entity_id (r_guid r) \<and> an_writer_id a = entity_id g \<and>
     (\<exists>len. r_udp_sender r' = r_udp_sender r @
        (case wp_unicast_ll p of None \<Rightarrow> []
         | Some ll \<Rightarrow> concat (map (\<lambda>l. send_msg_to_locator l
             (acknack_message (r_endianness r) (r_guid r) g a len)) ll)))"

lemma request_base_hd: "missing_changes p \<noteq> [] \<Longrightarrow> request_base p = hd (missing_changes p)"
  by (simp add: request_base_def split: list.splits)

lemma handle_hb_response_timeout_ok:
  assumes inv: "reader_inv r" and p: "bm_get (matched_writers r) g = Some p"
    and span: "span_ok (missing_changes p)" and low: "\<forall>n \<in> set (missing_changes p). 1 \<le> n"
  obtains r' a where "handle_hb_response_timeout g r = Inr r'" and "reader_inv r'"
    and "acknack_sent g a p r r'"
    and "sns_set (reader_sn_state a) = Inr (missing_changes p)"
    and "bitmap_base (reader_sn_state a) = request_base p"
    and "acknack_is_valid a \<longleftrightarrow> missing_changes p = [] \<or> last (missing_changes p) - request_base p < 255"
    and "bm_get (writer_communication_state r') g = Some (waits_for p)"
    and "matched_writers r' = matched_writers r"
    and "changes (reader_cache r') = changes (reader_cache r)"
    and "if missing_changes p = [] then all_ready r' else reader_cache r' = reader_cache r"
proof -
  note ok = reader_invD(3) [OF inv p]
  note wf = ok [unfolded wproxy_ok_iff, THEN conjunct1]
  note ms = missing_changes_spec [OF wf]
  obtain r1 where r1: "acknack_base g p r = Inr (r1, request_base p)" "reader_inv r1"
    "matched_writers r1 = matched_writers r" "r_guid r1 = r_guid r"
    "r_endianness r1 = r_endianness r" "r_udp_sender r1 = r_udp_sender r"
    "bm_get (writer_communication_state r1) g = Some (waits_for p)"
    "changes (reader_cache r1) = changes (reader_cache r)"
    "if missing_changes p = [] then all_ready r1 else reader_cache r1 = reader_cache r"
    by (rule acknack_base_ok [OF inv p])
  have i64: "\<forall>n \<in> set (missing_changes p). in_i64 n"
    using ok ms(2) low by (fastforce simp: wproxy_ok_iff in_i64_def i64_max_def)
  obtain s len where s: "sns_from_vec (request_base p) (missing_changes p) = Inr s" "bitmap_base s = request_base p"
    "sns_set s = Inr (missing_changes p)"
    "sns_is_valid s \<longleftrightarrow> 1 \<le> request_base p \<and> (missing_changes p = [] \<or> last (missing_changes p) - request_base p < 255)"
    "\<And>e w rd b. mb_acknack e w rd s 1 False b = Inr (b @ [sub_message ACKNACK (from_enndianness e) len
      (Entity (ES_AckNack \<lparr>an_reader_id = rd, an_writer_id = w, reader_sn_state = s, an_count = 1\<rparr>
        (from_enndianness e)))])"
    using acknack_set [OF ms(1) span i64 request_base_hd] by metis
  have base: "1 \<le> request_base p"
    using available_changes_max_bound(1) [OF ok] low by (auto simp: request_base_def split: list.splits)
  let ?a = "\<lparr>an_reader_id = entity_id (r_guid r), an_writer_id = entity_id g, reader_sn_state = s, an_count = 1\<rparr>"
  let ?r' = "case wp_unicast_ll p of None \<Rightarrow> r1 | Some ll \<Rightarrow> r1\<lparr>r_udp_sender := r_udp_sender r1 @
      concat (map (\<lambda>l. send_msg_to_locator l (acknack_message (r_endianness r) (r_guid r) g ?a len)) ll)\<rparr>"
  have g: "remote_writer_guid p = g" using ok by (simp add: wproxy_ok_iff)
  have "handle_hb_response_timeout g r = Inr ?r'"
    by (simp add: handle_hb_response_timeout_def p r1(1,4,5,6) s(1,5) g acknack_message_def split: option.splits)
  moreover have "acknack_sent g ?a p r ?r'"
    unfolding acknack_sent_def by (intro conjI exI [of _ len]) (simp_all add: r1(6) split: option.splits)
  moreover have "acknack_is_valid ?a \<longleftrightarrow> missing_changes p = [] \<or> last (missing_changes p) - request_base p < 255"
    using s(4) base by (simp add: acknack_is_valid_def)
  moreover have "if missing_changes p = [] then all_ready ?r' else reader_cache ?r' = reader_cache r"
    using r1(9) by (simp add: all_ready_def split: option.splits if_splits)
  ultimately show ?thesis
    using r1 s by (intro that [of ?r' ?a]) (simp_all split: option.splits)
qed

text \<open>The proxy of a writer after a heartbeat.\<close>

definition after_heartbeat :: "Heartbeat \<Rightarrow> HCKey list \<Rightarrow> WriterProxy \<Rightarrow> WriterProxy" where
  "after_heartbeat hb taken p =
     lost_changes_update (first_sn hb) (missing_changes_update (first_sn hb) (last_sn hb)
       (fold (\<lambda>k. wp_remove_cache_state (hk_seq_num k)) taken p))"

lemma fold_forget_ok: "wproxy_ok g p \<Longrightarrow> wproxy_ok g (fold (\<lambda>k. wp_remove_cache_state (hk_seq_num k)) ks p)"
  by (induction ks arbitrary: p) (auto intro: wproxy_ok_ops)

lemma after_heartbeat_ok: "wproxy_ok g p \<Longrightarrow> last_sn hb < i64_max \<Longrightarrow> wproxy_ok g (after_heartbeat hb ks p)"
  unfolding after_heartbeat_def by (intro wproxy_ok_ops fold_forget_ok)

lemma fold_forget_status:
  "wp_status (fold (\<lambda>k. wp_remove_cache_state (hk_seq_num k)) ks p) n =
     (if n \<in> hk_seq_num ` set ks then None else wp_status p n)"
  by (induction ks arbitrary: p) auto

lemma handle_heartbeat_ok:
  assumes inv: "reader_inv r" and p: "bm_get (matched_writers (rematch g r)) g = Some p"
    and l: "last_sn hb < i64_max"
  defines "taken \<equiv> filter (\<lambda>k. hk_guid k = g \<and> hk_seq_num k < first_sn hb) (taken_key (reader_cache r))"
  obtains r1 where "reader_inv r1" and "bm_get (matched_writers r1) g = Some (after_heartbeat hb taken p)"
    and "changes (reader_cache r1) = changes (reader_cache r)" and "r_guid r1 = r_guid r"
    and "r_udp_sender r1 = r_udp_sender r" and "r_endianness r1 = r_endianness r"
    and "ready_key (reader_cache r1) = ready_key (reader_cache r)"
    and "r_heartbeat_response_delay r1 = r_heartbeat_response_delay r"
    and "handle_heartbeat g f hb r =
      (if \<not> flag_contains f HeartbeatFlag_Final then respond g r1
       else if \<not> flag_contains f HeartbeatFlag_Liveliness \<and> missing_changes (after_heartbeat hb taken p) \<noteq> []
       then respond g r1 else Inr (r1, None))"
proof -
  let ?r = "rematch g r"
  let ?h = "(reader_cache r)\<lparr>taken_key := filter (\<lambda>k. \<not> (hk_guid k = g \<and> hk_seq_num k < first_sn hb)) (taken_key (reader_cache r))\<rparr>"
  have frame: "reader_cache ?r = reader_cache r" "r_guid ?r = r_guid r" "r_udp_sender ?r = r_udp_sender r"
    "r_endianness ?r = r_endianness r" "r_heartbeat_response_delay ?r = r_heartbeat_response_delay r"
    by (simp_all add: rematch_def liveliness_changed_def notify_r_def split: option.splits)
  note i = reader_inv_rematch [OF inv, of g]
  note hc = reader_invD(1,2) [OF inv]
  have t: "get_taken_less_than g (first_sn hb) (reader_cache ?r) = Inr (?h, taken)"
    using hc(2) by (simp add: get_taken_less_than_def Let_def taken_def frame)
  have "reader_inv (?r\<lparr>reader_cache := ?h\<rparr>)"
    using get_taken_less_than_inv [OF hc(1) t [unfolded frame]] hc(2) by (intro reader_inv_cache i) simp_all
  then have i1: "reader_inv (on_proxy g (after_heartbeat hb taken) (?r\<lparr>reader_cache := ?h\<rparr>))" (is "reader_inv ?r1")
    by (rule reader_inv_on_proxy) (use l in \<open>auto intro: after_heartbeat_ok\<close>)
  have p1: "bm_get (matched_writers ?r1) g = Some (after_heartbeat hb taken p)" using p by simp
  have "handle_heartbeat g f hb r =
      (if \<not> flag_contains f HeartbeatFlag_Final then respond g ?r1
       else if \<not> flag_contains f HeartbeatFlag_Liveliness \<and> missing_changes (after_heartbeat hb taken p) \<noteq> []
       then respond g ?r1 else Inr (?r1, None))"
    using p1 unfolding handle_heartbeat_def Let_def p t after_heartbeat_def [symmetric]
    by (simp add: p t after_heartbeat_def [symmetric])
  with i1 p1 show ?thesis
    by (intro that [of ?r1]) (simp_all add: frame on_proxy_def)
qed

end
