(* ===== verification/Umber_DataReader.thy ===== *)
theory Umber_DataReader
  imports Umber_ReaderInv
begin

text \<open>
  The DDS data reader, \<^verbatim>\<open>src/dds/datareader.rs\<close>, and the subscriber side as a whole: the RTPS reader,
  run by the event loop, and the application's \<^verbatim>\<open>take\<close> work on the same history cache. \<open>reader_step\<close>
  lists what either of them can do; the invariant of the reader holds in every state they reach.
  Deserialization of the user's type is the parameter \<open>deser\<close>.
\<close>

section \<open>Taking samples\<close>

record SampleInfo =
  source_timestamp :: Timestamp

record 'd DataSample =
  sample_data :: 'd
  sample_info :: SampleInfo

record DataReader =
  drd_reader_guid :: GUID
  drd_qos :: DataReaderQosPolicies
  drd_topic :: Topic

definition DataReader_new :: "GUID \<Rightarrow> DataReaderQosPolicies \<Rightarrow> Topic \<Rightarrow> DataReader" where
  "DataReader_new guid qos topic = \<lparr>drd_reader_guid = guid, drd_qos = qos, drd_topic = topic\<rparr>"

definition set_qos_dr :: "DataReaderQosPolicies \<Rightarrow> DataReader \<Rightarrow> DataReader" where
  "set_qos_dr qos d = d\<lparr>drd_qos := qos\<rparr>"

text \<open>One round of the loop of \<^verbatim>\<open>get_data\<close>, and the whole of it.\<close>

definition read_sample :: "(Endianness \<Rightarrow> u8 list \<Rightarrow> 'd option) \<Rightarrow> CacheChange \<Rightarrow> 'd DataSample list
    \<Rightarrow> 'd DataSample list res" where
  "read_sample deser change v =
     (case data_value change of
        None \<Rightarrow> Inr v
      | Some d \<Rightarrow>
          let received_bytes = payload_to_bytes d;
              encapsulation_kind = RepresentationIdentifier (received_bytes ! 0, received_bytes ! 1)
          in rbind (if encapsulation_kind = CDR_LE then Inr LittleEndian
                    else if encapsulation_kind = CDR_BE then Inr BigEndian
                    else Inl ExplicitPanic) (\<lambda>endianness.
               case deser endianness (drop 4 received_bytes) of
                 Some x \<Rightarrow> Inr (v @ [\<lparr>sample_data = x, sample_info = \<lparr>source_timestamp = timestamp change\<rparr>\<rparr>])
               | None \<Rightarrow> Inr v))"

definition get_data :: "(Endianness \<Rightarrow> u8 list \<Rightarrow> 'd option) \<Rightarrow> HistoryCache
    \<Rightarrow> (HistoryCache \<times> 'd DataSample list) res" where
  "get_data deser hc =
     rbind (get_ready_changes hc) (\<lambda>(keys, changes).
     rbind (rfold (read_sample deser) changes []) (\<lambda>v.
       Inr (fold (\<lambda>key. remove_change key True) keys hc, v)))"

section \<open>What take returns\<close>

definition cdr_payload :: "CacheChange \<Rightarrow> bool" where
  "cdr_payload c \<longleftrightarrow>
     (case data_value c of None \<Rightarrow> True
      | Some d \<Rightarrow> representation_identifier d = CDR_LE \<or> representation_identifier d = CDR_BE)"

definition sample_of :: "(Endianness \<Rightarrow> u8 list \<Rightarrow> 'd option) \<Rightarrow> CacheChange \<Rightarrow> 'd DataSample option" where
  "sample_of deser c =
     Option.bind (data_value c) (\<lambda>d.
       map_option (\<lambda>x. \<lparr>sample_data = x, sample_info = \<lparr>source_timestamp = timestamp c\<rparr>\<rparr>)
         (deser (if representation_identifier d = CDR_LE then LittleEndian else BigEndian) (payload_value d)))"

lemma read_sample_eq:
  assumes "cdr_payload c"
  shows "read_sample deser c v = Inr (v @ (case sample_of deser c of Some s \<Rightarrow> [s] | None \<Rightarrow> []))"
proof (cases "data_value c")
  case None
  then show ?thesis by (simp add: read_sample_def sample_of_def)
next
  case (Some d)
  have id: "RepresentationIdentifier (payload_to_bytes d ! 0, payload_to_bytes d ! Suc 0) = representation_identifier d"
    by (cases "representation_identifier d") (simp add: payload_to_bytes_def)
  have body: "drop 4 (payload_to_bytes d) = payload_value d" by (simp add: payload_to_bytes_def)
  show ?thesis
    using assms Some
    by (auto simp: read_sample_def sample_of_def Let_def id body cdr_payload_def split: option.splits)
qed

lemma read_samples_eq:
  assumes "\<forall>c \<in> set cs. cdr_payload c"
  shows "rfold (read_sample deser) cs v = Inr (v @ List.map_filter (sample_of deser) cs)"
  using assms
proof (induction cs arbitrary: v)
  case Nil
  show ?case by (simp add: map_filter_simps)
next
  case (Cons c cs)
  then show ?case by (simp add: read_sample_eq map_filter_simps split: option.splits)
qed

lemma fold_take_keys:
  assumes "hc_type h = HCReader" and "unprocessed_seqnum h = []" and "distinct ks"
    and "\<And>k. k \<in> set ks \<Longrightarrow> bm_get (changes h) k \<noteq> None"
  shows "set (taken_key (fold (\<lambda>k. remove_change k True) ks h)) = set ks \<union> set (taken_key h) \<and>
    set (ready_key (fold (\<lambda>k. remove_change k True) ks h)) = set (ready_key h) - set ks"
  using assms
proof (induction ks arbitrary: h)
  case Nil
  then show ?case by simp
next
  case (Cons k ks)
  have "\<not> pinned h k" using Cons.prems(2) by (simp add: pinned_def)
  moreover obtain c where "bm_get (changes h) k = Some c" using Cons.prems(4) [of k] by auto
  moreover have "bm_get (changes (remove_change k True h)) k' \<noteq> None" if "k' \<in> set ks" for k'
    using that Cons.prems(3) Cons.prems(4) [of k'] by (auto simp: remove_change_changes)
  ultimately have "set (taken_key (remove_change k True h)) = insert k (set (taken_key h))"
    "set (ready_key (remove_change k True h)) = set (ready_key h) - {k}"
    "\<And>k'. k' \<in> set ks \<Longrightarrow> bm_get (changes (remove_change k True h)) k' \<noteq> None"
    using Cons.prems(1) by (auto simp: remove_change_taken remove_change_ready)
  with Cons.IH [of "remove_change k True h"] Cons.prems show ?case by auto
qed

text \<open>What the data reader does to the cache: the keys that are ready are taken.\<close>

lemma get_data_ok:
  assumes inv: "hc_inv h" and t: "hc_type h = HCReader"
    and cdr: "\<forall>k \<in> set (ready_alive h). cdr_payload (the (bm_get (changes h) k))"
  obtains h' where
    "get_data deser h = Inr (h', List.map_filter (\<lambda>k. sample_of deser (the (bm_get (changes h) k))) (ready_alive h))"
    and "hc_inv h'" and "hc_type h' = HCReader"
    and "changes h' = filter (\<lambda>p. fst p \<notin> set (ready_alive h)) (changes h)"
    and "set (taken_key h') = set (ready_alive h) \<union> set (taken_key h)" and "ready_alive h' = []"
proof -
  let ?h = "fold (\<lambda>k. remove_change k True) (ready_alive h) h"
  have u: "unprocessed_seqnum h = []" by (rule hc_invD(11) [OF inv t])
  have there: "bm_get (changes h) k \<noteq> None" if "k \<in> set (ready_alive h)" for k
    using that by (auto simp: ready_alive_def bm_get_None)
  note d = bs_wf_distinct [OF ready_alive_wf [OF inv]]
  have ch: "changes ?h = filter (\<lambda>p. fst p \<notin> set (ready_alive h)) (changes h)"
    using u by (intro fold_remove_changes) (simp add: pinned_def)
  note k = fold_take_keys [OF t u d there]
  have "List.map_filter (sample_of deser) (map (\<lambda>k. the (bm_get (changes h) k)) ks) =
      List.map_filter (\<lambda>k. sample_of deser (the (bm_get (changes h) k))) ks" for ks
    by (induction ks) (simp_all add: map_filter_simps split: option.split)
  moreover have "\<forall>c \<in> set (map (\<lambda>k. the (bm_get (changes h) k)) (ready_alive h)). cdr_payload c" using cdr by simp
  ultimately have "get_data deser h =
      Inr (?h, List.map_filter (\<lambda>k. sample_of deser (the (bm_get (changes h) k))) (ready_alive h))"
    by (simp add: get_data_def get_ready_changes_spec [OF inv] read_samples_eq)
  moreover have "k' \<notin> set (ready_alive ?h)" for k'
  proof
    assume a: "k' \<in> set (ready_alive ?h)"
    then have r: "k' \<in> set (ready_key h) - set (ready_alive h)" using k by (simp add: ready_alive_def)
    from a have "map_option change_kind (bm_get (changes ?h) k') = Some Alive" by (simp add: ready_alive_def)
    then have "map_option change_kind (bm_get (changes h) k') = Some Alive"
      unfolding ch using bm_get_filter_key [of "\<lambda>k. k \<notin> set (ready_alive h)" "changes h" k']
      by (simp split: if_splits)
    with r bm_get_Some_key show False by (fastforce simp: ready_alive_def)
  qed
  then have "ready_alive ?h = []" by (cases "ready_alive ?h") auto
  ultimately show ?thesis using that k ch hc.fold_inv [OF inv] t by simp
qed

section \<open>Every operation keeps the invariant\<close>

lemma add_to_cache_inv: "reader_inv r \<Longrightarrow> add_to_cache c r = Inr (r', x) \<Longrightarrow> reader_inv r'"
  using reader_invD(1,2)
  by (auto simp: add_to_cache_def rbind_Inr_iff dest: add_change_type intro!: reader_inv_cache intro: add_change_inv)

lemma release_inv: "reader_inv r \<Longrightarrow> release r = Inr r' \<Longrightarrow> reader_inv r'"
  by (metis release_ok reader_inv_out(1) sum.inject(2))

lemma advance_state_inv:
  assumes "reader_inv r" and "0 \<le> n" and "n < i64_max" and "advance_state g n r = Inr r'"
  shows "reader_inv r'"
proof (cases "bm_get (writer_communication_state r) g")
  case None
  with assms show ?thesis by (simp add: advance_state_def)
next
  case (Some st)
  from advance_state_ok [OF assms(1) Some assms(2,3)] assms(4) show ?thesis by (metis sum.inject(2))
qed

lemma add_change_reliable_inv:
  assumes "reader_inv r" and "0 \<le> sequence_number c" and "sequence_number c < i64_max"
    and "add_change_reliable g c r = Inr r'"
  shows "reader_inv r'"
proof -
  from assms(4) obtain r1 x where r1: "add_to_cache c r = Inr (r1, x)"
    and rest: "(case x of Inl e \<Rightarrow> Inr r1 | Inr _ \<Rightarrow> rbind (advance_state g (sequence_number c) r1)
      (\<lambda>r2. Inr (on_proxy g (received_change_set (sequence_number c)) r2))) = Inr r'"
    by (auto simp: add_change_reliable_def rbind_Inr_iff)
  note i1 = add_to_cache_inv [OF assms(1) r1]
  show ?thesis
    using rest i1 advance_state_inv [OF i1 assms(2,3)] assms(3)
    by (auto simp: rbind_Inr_iff intro!: reader_inv_on_proxy intro: wproxy_ok_ops split: sum.splits)
qed

lemma add_change_best_effort_inv:
  assumes "reader_inv r" and "0 \<le> sequence_number c" and "sequence_number c < i64_max"
    and "add_change_best_effort g c r = Inr r'"
  shows "reader_inv r'"
proof -
  from forget_taken_ok [OF assms(1)] obtain r1 where r1: "forget_taken r = Inr r1" "reader_inv r1" by metis
  have fin: "reader_inv (on_proxy g (received_change_set (sequence_number c)) r3)"
    "reader_inv (on_proxy g (lost_changes_update (sequence_number c)) (on_proxy g (received_change_set (sequence_number c)) r3))"
    if "add_to_cache c r1 = Inr (r2, x)" "release r2 = Inr r3" for r2 x r3
  proof -
    have "reader_inv r3" using that add_to_cache_inv [OF r1(2)] release_inv by blast
    then show "reader_inv (on_proxy g (received_change_set (sequence_number c)) r3)"
      using assms(3) by (auto intro!: reader_inv_on_proxy intro: wproxy_ok_ops)
    then show "reader_inv (on_proxy g (lost_changes_update (sequence_number c)) (on_proxy g (received_change_set (sequence_number c)) r3))"
      by (auto intro!: reader_inv_on_proxy intro: wproxy_ok_ops)
  qed
  have "b = Inr ()" if "\<forall>e. b \<noteq> Inl e" for b :: "AddChangeErr + unit" using that by (cases b) auto
  then show ?thesis
    using assms(4) r1 fin add_to_cache_inv [OF r1(2)]
    by (auto simp: add_change_best_effort_def rbind_Inr_iff Let_def split: option.splits if_splits sum.splits)
qed

lemma reader_add_change_keeps:
  assumes "reader_inv r" and "0 \<le> sequence_number c" and "sequence_number c < i64_max"
    and "reader_add_change prefix c r = Inr (r', rt)"
  shows "reader_inv r'"
proof -
  let ?g = "GUID prefix (entity_id (writer_guid c))"
  let ?r = "rematch ?g r"
  note i = reader_inv_rematch [OF assms(1), of ?g]
  show ?thesis
  proof (cases "bm_get (matched_writers ?r) ?g")
    case None
    with assms(4) i show ?thesis by (simp add: reader_add_change_def Let_def)
  next
    case (Some p)
    with assms(4) have "add_change_reliable ?g c ?r = Inr r' \<or> add_change_best_effort ?g c ?r = Inr r'"
      by (auto simp: reader_add_change_def Let_def rbind_Inr_iff split: if_splits)
    then show ?thesis
      using add_change_reliable_inv [OF i assms(2,3)] add_change_best_effort_inv [OF i assms(2,3)] by blast
  qed
qed

lemma WriterProxy_new_ok: "WriterProxy_new g uni multi duni dmulti sz qos = Inr p \<Longrightarrow> wproxy_ok g p"
  by (auto simp: WriterProxy_new_def wproxy_ok_def wp_wf_def split: if_splits)

lemma matched_writer_add_keeps:
  assumes inv: "reader_inv r"
    and "matched_writer_add_with_default_locator g uni multi duni dmulti sz qos r = Inr (r', rt)"
  shows "reader_inv r'"
proof (cases "bm_get (matched_writers r) g")
  case None
  show ?thesis
  proof (cases "dr_is_compatible (r_qos r) qos")
    case (Inl e)
    with assms None show ?thesis by (auto simp: matched_writer_add_with_default_locator_def)
  next
    case (Inr u)
    from assms(2) None Inr obtain p where p: "WriterProxy_new g uni multi duni dmulti sz qos = Inr p"
      by (auto simp: matched_writer_add_with_default_locator_def rbind_Inr_iff)
    have "reader_inv (r\<lparr>matched_writers := bm_insert g p (matched_writers r),
        writer_communication_state := bm_insert g Initial (writer_communication_state r)\<rparr>)"
      using inv WriterProxy_new_ok [OF p] by (auto simp: reader_inv_iff state_ok_def intro: proxies_ok_insert)
    with assms(2) None Inr p show ?thesis
      by (auto simp: matched_writer_add_with_default_locator_def Let_def liveliness_changed_def)
  qed
next
  case (Some p)
  with assms show ?thesis
    by (auto simp: matched_writer_add_with_default_locator_def wproxy_ok_def wp_wf_def
        intro!: reader_inv_on_proxy)
qed

text \<open>
  While writers are being deleted, a writer may be known without a communication state; the rest
  of the invariant holds all along.
\<close>

definition reader_tables :: "Reader \<Rightarrow> bool" where
  "reader_tables r \<longleftrightarrow>
     hc_inv (reader_cache r) \<and> hc_type (reader_cache r) = HCReader \<and>
     proxies_ok (matched_writers r) \<and> proxies_ok (unmatched_writers r) \<and>
     bm_wf (writer_communication_state r) \<and>
     (\<forall>g st. bm_get (writer_communication_state r) g = Some st \<longrightarrow> state_ok st)"

lemma remove_change_from_writer_type: "hc_type (remove_change_from_writer g h) = hc_type h"
  by (simp add: remove_change_from_writer_def)

lemmas writer_remove_defs = matched_writer_remove_def unmatched_writer_remove_def send_sub_unmatch_def
  liveliness_changed_def notify_r_def

lemma writer_remove_tables:
  assumes "reader_tables r"
  shows "reader_tables (matched_writer_remove g r)" and "reader_tables (unmatched_writer_remove g r)"
  using assms
  by (auto simp: reader_tables_def writer_remove_defs remove_change_from_writer_type
      intro: proxies_ok_remove remove_change_from_writer_inv)

lemma fold_matched_remove:
  assumes "reader_tables r"
  shows "reader_tables (fold matched_writer_remove ks r) \<and>
    bm_get (matched_writers (fold matched_writer_remove ks r)) g =
      (if g \<in> set ks then None else bm_get (matched_writers r) g) \<and>
    unmatched_writers (fold matched_writer_remove ks r) = unmatched_writers r \<and>
    bm_get (writer_communication_state (fold matched_writer_remove ks r)) g =
      (if g \<in> set ks \<and> bm_get (matched_writers r) g \<noteq> None then None
       else bm_get (writer_communication_state r) g)"
  using assms
proof (induction ks arbitrary: r)
  case Nil
  then show ?case by simp
next
  case (Cons k ks)
  from Cons.IH [OF writer_remove_tables(1) [OF Cons.prems, of k]] show ?case
    by (auto simp: writer_remove_defs)
qed

lemma fold_unmatched_remove:
  assumes "reader_tables r"
  shows "reader_tables (fold unmatched_writer_remove ks r) \<and>
    bm_get (unmatched_writers (fold unmatched_writer_remove ks r)) g =
      (if g \<in> set ks then None else bm_get (unmatched_writers r) g) \<and>
    matched_writers (fold unmatched_writer_remove ks r) = matched_writers r \<and>
    bm_get (writer_communication_state (fold unmatched_writer_remove ks r)) g =
      (if g \<in> set ks \<and> bm_get (unmatched_writers r) g \<noteq> None then None
       else bm_get (writer_communication_state r) g)"
  using assms
proof (induction ks arbitrary: r)
  case Nil
  then show ?case by simp
next
  case (Cons k ks)
  from Cons.IH [OF writer_remove_tables(2) [OF Cons.prems, of k]] show ?case
    by (auto simp: writer_remove_defs)
qed

text \<open>Deleting a participant's writers forgets all of them and no other.\<close>

lemma delete_writer_proxy_ok:
  assumes inv: "reader_inv r"
  shows "reader_inv (delete_writer_proxy pre r)"
    and "bm_get (matched_writers (delete_writer_proxy pre r)) g =
      (if guid_prefix g = pre then None else bm_get (matched_writers r) g)"
    and "bm_get (unmatched_writers (delete_writer_proxy pre r)) g =
      (if guid_prefix g = pre then None else bm_get (unmatched_writers r) g)"
proof -
  let ?ks = "filter (\<lambda>k. guid_prefix k = pre) (bm_keys (matched_writers r))"
  let ?r1 = "fold matched_writer_remove ?ks r"
  let ?us = "filter (\<lambda>k. guid_prefix k = pre) (bm_keys (unmatched_writers ?r1))"
  have t: "reader_tables r" using inv by (simp add: reader_tables_def reader_inv_iff)
  note m = fold_matched_remove [OF t, of ?ks]
  then have t1: "reader_tables ?r1" by blast
  note u = fold_unmatched_remove [OF t1, of ?us]
  have d: "delete_writer_proxy pre r = fold unmatched_writer_remove ?us ?r1"
    by (simp add: delete_writer_proxy_def Let_def)
  have mm: "bm_get (matched_writers (delete_writer_proxy pre r)) g =
      (if guid_prefix g = pre then None else bm_get (matched_writers r) g)" for g
    using m [of g] u [of g] unfolding d by (auto simp: bm_get_None)
  have uu: "bm_get (unmatched_writers (delete_writer_proxy pre r)) g =
      (if guid_prefix g = pre then None else bm_get (unmatched_writers r) g)" for g
    using m [of g] u [of g] unfolding d by (auto simp: bm_get_None)
  have s: "bm_get (writer_communication_state (delete_writer_proxy pre r)) g =
      (if guid_prefix g = pre \<and> (bm_get (matched_writers r) g \<noteq> None \<or> bm_get (unmatched_writers r) g \<noteq> None) then None
       else bm_get (writer_communication_state r) g)" for g
    using m [of g] u [of g] unfolding d by (auto simp: bm_get_None)
  show "bm_get (matched_writers (delete_writer_proxy pre r)) g =
      (if guid_prefix g = pre then None else bm_get (matched_writers r) g)" by (rule mm)
  show "bm_get (unmatched_writers (delete_writer_proxy pre r)) g =
      (if guid_prefix g = pre then None else bm_get (unmatched_writers r) g)" by (rule uu)
  have "reader_tables (delete_writer_proxy pre r)" using u unfolding d by blast
  moreover have "bm_get (writer_communication_state (delete_writer_proxy pre r)) g = None \<longleftrightarrow>
      bm_get (matched_writers (delete_writer_proxy pre r)) g = None \<and>
      bm_get (unmatched_writers (delete_writer_proxy pre r)) g = None" for g
    using inv unfolding mm uu s reader_inv_iff by auto
  ultimately show "reader_inv (delete_writer_proxy pre r)" by (simp add: reader_tables_def reader_inv_iff)
qed

lemma handle_hb_response_timeout_keeps:
  assumes inv: "reader_inv r" and run: "handle_hb_response_timeout g r = Inr r'"
  shows "reader_inv r'"
proof (cases "bm_get (matched_writers r) g")
  case None
  with assms show ?thesis by (simp add: handle_hb_response_timeout_def)
next
  case (Some p)
  from acknack_base_ok [OF inv Some] obtain r1 where "acknack_base g p r = Inr (r1, request_base p)" "reader_inv r1"
    by metis
  with run Some show ?thesis
    by (auto simp: handle_hb_response_timeout_def rbind_Inr_iff Let_def split: option.splits)
qed

lemma respond_keeps: "reader_inv r \<Longrightarrow> respond g r = Inr (r', rt) \<Longrightarrow> reader_inv r'"
  by (auto simp: respond_def rbind_Inr_iff intro: handle_hb_response_timeout_keeps split: if_splits)

lemma handle_heartbeat_keeps:
  assumes inv: "reader_inv r" and l: "last_sn hb < i64_max" and run: "handle_heartbeat g f hb r = Inr (r', rt)"
  shows "reader_inv r'"
proof (cases "bm_get (matched_writers (rematch g r)) g")
  case None
  with run reader_inv_rematch [OF inv, of g] show ?thesis by (simp add: handle_heartbeat_def Let_def)
next
  case (Some p)
  let ?q = "after_heartbeat hb (filter (\<lambda>k. hk_guid k = g \<and> hk_seq_num k < first_sn hb) (taken_key (reader_cache r))) p"
  obtain r1 where r1: "reader_inv r1" "handle_heartbeat g f hb r =
      (if \<not> flag_contains f HeartbeatFlag_Final then respond g r1
       else if \<not> flag_contains f HeartbeatFlag_Liveliness \<and> missing_changes ?q \<noteq> []
       then respond g r1 else Inr (r1, None))"
    by (rule handle_heartbeat_ok [OF inv Some l, of f])
  from run [unfolded r1(2)] have "respond g r1 = Inr (r', rt) \<or> r' = r1" by (simp split: if_splits)
  then show ?thesis using respond_keeps r1(1) by blast
qed

lemma matched_writer_unmatch_keeps: "reader_inv r \<Longrightarrow> reader_inv (matched_writer_unmatch g r)"
  by (auto simp: matched_writer_unmatch_def liveliness_changed_def notify_r_def reader_inv_iff
      intro: proxies_ok_insert proxies_ok_remove proxies_okD split: option.splits)

lemma reader_check_liveliness_keeps:
  assumes "reader_inv r" and "reader_check_liveliness now db r = Inr (db', r')"
  shows "reader_inv r'"
proof -
  let ?f = "fold (\<lambda>g (db, r). (update_remote_writer_state g EpLivelinessLost db, matched_writer_unmatch g r))"
  have f: "reader_inv (snd (?f gs (db, r)))" if "reader_inv r" for gs db r
    using that by (induction gs arbitrary: db r) (auto intro: matched_writer_unmatch_keeps)
  from assms(2) obtain gs where "?f gs (db, r) = (db', r')"
    unfolding reader_check_liveliness_def rbind_Inr_iff by blast
  with f [OF assms(1), of gs db] show ?thesis by simp
qed

lemma get_data_keeps:
  assumes "reader_inv r" and "get_data deser (reader_cache r) = Inr (h, v)"
  shows "reader_inv (r\<lparr>reader_cache := h\<rparr>)"
  using assms reader_invD(1,2) [OF assms(1)]
  by (auto simp: get_data_def rbind_Inr_iff intro!: reader_inv_cache hc.fold_inv)

section \<open>The subscriber\<close>

definition gap_in_range :: "Gap \<Rightarrow> bool" where
  "gap_in_range gap \<longleftrightarrow>
     bitmap_base (gap_list gap) \<le> i64_max \<and>
     (case sns_set (gap_list gap) of Inl _ \<Rightarrow> False | Inr ns \<Rightarrow> list_all (\<lambda>n. n < i64_max) ns)"

text \<open>
  The steps of the reader, each with any arguments: what the message receiver, the timers and the
  discovery do, and \<open>rs_take\<close>, what the application does.
\<close>

inductive reader_step :: "(Endianness \<Rightarrow> u8 list \<Rightarrow> 'd option) \<Rightarrow> Reader \<Rightarrow> Reader \<Rightarrow> bool"
  for deser :: "Endianness \<Rightarrow> u8 list \<Rightarrow> 'd option" where
  rs_data: "0 \<le> sequence_number c \<Longrightarrow> sequence_number c < i64_max \<Longrightarrow>
    reader_add_change prefix c r = Inr (r', rt) \<Longrightarrow> reader_step deser r r'"
| rs_gap: "gap_in_range gap \<Longrightarrow> handle_gap g gap r = Inr r' \<Longrightarrow> reader_step deser r r'"
| rs_heartbeat: "last_sn hb < i64_max \<Longrightarrow> handle_heartbeat g f hb r = Inr (r', t) \<Longrightarrow> reader_step deser r r'"
| rs_response: "handle_hb_response_timeout g r = Inr r' \<Longrightarrow> reader_step deser r r'"
| rs_match: "matched_writer_add_with_default_locator g uni multi duni dmulti sz qos r = Inr (r', t) \<Longrightarrow>
    reader_step deser r r'"
| rs_delete: "reader_step deser r (delete_writer_proxy prefix r)"
| rs_liveliness: "reader_check_liveliness now db r = Inr (db', r') \<Longrightarrow> reader_step deser r r'"
| rs_deadline: "reader_step deser r (notify_reqested_deadline_missed g r)"
| rs_lifespan: "reader_step deser r (reader_remove_change_if_exist k r)"
| rs_take: "get_data deser (reader_cache r) = Inr (h, v) \<Longrightarrow> reader_step deser r (r\<lparr>reader_cache := h\<rparr>)"

inductive reader_reachable :: "(Endianness \<Rightarrow> u8 list \<Rightarrow> 'd option) \<Rightarrow> Reader \<Rightarrow> bool"
  for deser :: "Endianness \<Rightarrow> u8 list \<Rightarrow> 'd option" where
  rr_new: "ri_rhc ri = HistoryCache_new HCReader \<Longrightarrow> reader_reachable deser (Reader_new ri)"
| rr_step: "reader_reachable deser r \<Longrightarrow> reader_step deser r r' \<Longrightarrow> reader_reachable deser r'"

lemma handle_gap_keeps:
  assumes "reader_inv r" and "gap_in_range gap" and "handle_gap g gap r = Inr r'"
  shows "reader_inv r'"
proof -
  from assms(2) obtain ns where "sns_set (gap_list gap) = Inr ns" "\<forall>n \<in> set ns. n < i64_max"
    "bitmap_base (gap_list gap) \<le> i64_max"
    by (auto simp: gap_in_range_def list_all_iff split: sum.splits)
  from handle_gap_inv [OF assms(1) this(3,1,2), of g] assms(3) show ?thesis by auto
qed

lemma reader_step_inv: "reader_step deser r r' \<Longrightarrow> reader_inv r \<Longrightarrow> reader_inv r'"
proof (induction rule: reader_step.induct)
  case (rs_lifespan r k)
  then show ?case
    using reader_invD(1,2) [OF rs_lifespan]
    by (auto simp: reader_remove_change_if_exist_def remove_change_if_exist_def
        intro!: reader_inv_cache remove_change_inv)
qed (auto intro: reader_add_change_keeps handle_gap_keeps handle_heartbeat_keeps handle_hb_response_timeout_keeps
    matched_writer_add_keeps delete_writer_proxy_ok(1) reader_check_liveliness_keeps get_data_keeps
    simp: notify_reqested_deadline_missed_def)

lemma reader_reachable_inv: "reader_reachable deser r \<Longrightarrow> reader_inv r"
proof (induction rule: reader_reachable.induct)
  case (rr_new ri)
  then show ?case using hc_inv_new [of HCReader] by (simp add: Reader_new_def reader_inv_iff HistoryCache_new_def)
next
  case (rr_step r r')
  then show ?case using reader_step_inv by blast
qed

end
