(* ===== verification/Umber_Subscriber.thy ===== *)
theory Umber_Subscriber
  imports Umber_DataReader Umber_WriterNack "HOL-Library.Multiset"
begin

text \<open>
  The properties of the subscriber side: the answer to heartbeats, the receipt of changes and gaps, the
  samples that the application takes, and a round of repair between a writer and a reader.
\<close>

section \<open>Heartbeats\<close>

lemma after_heartbeat_status:
  assumes ok: "wproxy_ok g p"
    and taken: "\<forall>k \<in> set taken. hk_seq_num k < first_sn hb"
  shows "wp_status (after_heartbeat hb taken p) n =
    (if n \<in> hk_seq_num ` set taken then None
     else if n < first_sn hb \<and> wp_status p n \<in> {Some Missing, Some Uuknown} then Some Lost
     else if first_sn hb \<le> n \<and> n \<le> last_sn hb \<and> wp_status p n \<in> {None, Some Uuknown} then Some Missing
     else wp_status p n)"
proof -
  let ?p = "fold (\<lambda>k. wp_remove_cache_state (hk_seq_num k)) taken p"
  have wf: "wp_wf ?p" using fold_forget_ok [OF ok] by (simp add: wproxy_ok_iff)
  note m = missing_changes_update_spec [OF wf, of "first_sn hb" "last_sn hb"]
  have "n \<in> hk_seq_num ` set taken \<Longrightarrow> n < first_sn hb" using taken by auto
  then show ?thesis
    unfolding after_heartbeat_def lost_changes_update_spec [OF m(1)] m(2) fold_forget_status by auto
qed

lemma after_heartbeat_missing:
  assumes ok: "wproxy_ok g p" and taken: "\<forall>k \<in> set taken. hk_seq_num k < first_sn hb"
    and range: "1 \<le> first_sn hb" "last_sn hb < i64_max" "last_sn hb - first_sn hb < 500000"
    and known: "\<forall>n. wp_status p n = Some Missing \<longrightarrow> n \<le> last_sn hb"
  defines "ns \<equiv> missing_changes (after_heartbeat hb taken p)"
  shows "bs_wf ns"
    and "n \<in> set ns \<longleftrightarrow> first_sn hb \<le> n \<and> n \<le> last_sn hb \<and> wp_status p n \<in> {None, Some Uuknown, Some Missing}"
    and "span_ok ns" and "\<forall>n \<in> set ns. 1 \<le> n"
proof -
  have "wp_wf (after_heartbeat hb taken p)" using after_heartbeat_ok [OF ok range(2)] by (simp add: wproxy_ok_iff)
  note ms = missing_changes_spec [OF this, folded ns_def]
  show "bs_wf ns" by (rule ms(1))
  have out: "n \<in> hk_seq_num ` set taken \<Longrightarrow> n < first_sn hb" for n using taken by auto
  have mem: "n \<in> set ns \<longleftrightarrow> first_sn hb \<le> n \<and> n \<le> last_sn hb \<and>
      wp_status p n \<in> {None, Some Uuknown, Some Missing}" for n
    unfolding ms(2) after_heartbeat_status [OF ok taken] using known out [of n] by auto
  then show "n \<in> set ns \<longleftrightarrow> first_sn hb \<le> n \<and> n \<le> last_sn hb \<and> wp_status p n \<in> {None, Some Uuknown, Some Missing}" .
  show "\<forall>n \<in> set ns. 1 \<le> n" using mem range(1) by auto
  have "hd ns \<in> set ns" if "n \<in> set ns" for n using that by (cases ns) auto
  with mem range(3) show "span_ok ns" unfolding span_ok_def by fastforce
qed

lemma handle_heartbeat_total:
  assumes inv: "reader_inv r" and p: "bm_get (matched_writers (rematch g r)) g = Some p"
    and range: "1 \<le> first_sn hb" "last_sn hb < i64_max" "last_sn hb - first_sn hb < 500000"
    and known: "\<forall>n. wp_status p n = Some Missing \<longrightarrow> n \<le> last_sn hb"
  shows "\<exists>r' rt. handle_heartbeat g f hb r = Inr (r', rt)"
proof -
  let ?t = "filter (\<lambda>k. hk_guid k = g \<and> hk_seq_num k < first_sn hb) (taken_key (reader_cache r))"
  let ?q = "after_heartbeat hb ?t p"
  note ok = reader_invD(3) [OF reader_inv_rematch [OF inv] p]
  note ms = after_heartbeat_missing [OF ok _ range known, of ?t, simplified]
  obtain r1 where r1: "reader_inv r1" "bm_get (matched_writers r1) g = Some ?q"
    "handle_heartbeat g f hb r = (if \<not> flag_contains f HeartbeatFlag_Final then respond g r1
       else if \<not> flag_contains f HeartbeatFlag_Liveliness \<and> missing_changes ?q \<noteq> []
       then respond g r1 else Inr (r1, None))"
    by (rule handle_heartbeat_ok [OF inv p range(2), of f])
  obtain r2 where "handle_hb_response_timeout g r1 = Inr r2"
    by (rule handle_hb_response_timeout_ok [OF r1(1,2) ms(3,4)])
  then have "\<exists>r' rt. respond g r1 = Inr (r', rt)" by (simp add: respond_def)
  then show ?thesis by (simp add: r1(3))
qed

lemma heartbeat_request:
  assumes inv: "reader_inv r" and p: "bm_get (matched_writers (rematch g r)) g = Some p"
    and flag: "\<not> flag_contains f HeartbeatFlag_Final" and delay: "r_heartbeat_response_delay r = DURATION_ZERO"
    and range: "1 \<le> first_sn hb" "last_sn hb < i64_max" "last_sn hb - first_sn hb < 500000"
    and known: "\<forall>n. wp_status p n = Some Missing \<longrightarrow> n \<le> last_sn hb"
  shows "\<exists>r' q a ns. handle_heartbeat g f hb r = Inr (r', None) \<and> reader_inv r' \<and>
    bm_get (matched_writers r') g = Some q \<and> acknack_sent g a q r r' \<and>
    sns_set (reader_sn_state a) = Inr ns \<and> sorted_wrt (<) ns \<and>
    (\<forall>n. n \<in> set ns \<longleftrightarrow> first_sn hb \<le> n \<and> n \<le> last_sn hb \<and>
      wp_status p n \<in> {None, Some Uuknown, Some Missing}) \<and>
    bitmap_base (reader_sn_state a) = (if ns = [] then available_changes_max q + 1 else hd ns) \<and>
    (acknack_is_valid a \<longleftrightarrow> ns = [] \<or> last ns - hd ns < 255) \<and>
    bm_get (writer_communication_state r') g =
      Some (if ns = [] then Expect (available_changes_max q + 1) else WaitingFor ns) \<and>
    missing_changes q = ns \<and>
    (\<forall>n. first_sn hb \<le> n \<and> n \<le> last_sn hb \<longrightarrow> wp_status q n = (if n \<in> set ns then Some Missing else wp_status p n)) \<and>
    changes (reader_cache r') = changes (reader_cache r) \<and> (ns = [] \<longrightarrow> all_ready r')"
proof -
  let ?t = "filter (\<lambda>k. hk_guid k = g \<and> hk_seq_num k < first_sn hb) (taken_key (reader_cache r))"
  let ?q = "after_heartbeat hb ?t p"
  note ok = reader_invD(3) [OF reader_inv_rematch [OF inv] p]
  note q = after_heartbeat_status [OF ok, of ?t hb]
  obtain r1 where r1: "reader_inv r1" "bm_get (matched_writers r1) g = Some ?q"
    "changes (reader_cache r1) = changes (reader_cache r)" "r_guid r1 = r_guid r"
    "r_udp_sender r1 = r_udp_sender r" "r_endianness r1 = r_endianness r"
    "r_heartbeat_response_delay r1 = r_heartbeat_response_delay r"
    "handle_heartbeat g f hb r = (if \<not> flag_contains f HeartbeatFlag_Final then respond g r1
       else if \<not> flag_contains f HeartbeatFlag_Liveliness \<and> missing_changes ?q \<noteq> []
       then respond g r1 else Inr (r1, None))"
    by (rule handle_heartbeat_ok [OF inv p range(2), of f])
  note ms = after_heartbeat_missing [OF ok _ range known, of ?t, simplified]
  obtain r' a where r': "handle_hb_response_timeout g r1 = Inr r'" "reader_inv r'" "acknack_sent g a ?q r1 r'"
    "sns_set (reader_sn_state a) = Inr (missing_changes ?q)" "bitmap_base (reader_sn_state a) = request_base ?q"
    "acknack_is_valid a \<longleftrightarrow> missing_changes ?q = [] \<or> last (missing_changes ?q) - request_base ?q < 255"
    "bm_get (writer_communication_state r') g = Some (waits_for ?q)" "matched_writers r' = matched_writers r1"
    "changes (reader_cache r') = changes (reader_cache r1)"
    "if missing_changes ?q = [] then all_ready r' else reader_cache r' = reader_cache r1"
    by (rule handle_hb_response_timeout_ok [OF r1(1,2) ms(3,4)])
  have "handle_heartbeat g f hb r = Inr (r', None)"
    using flag delay r1(7) r'(1) by (simp add: r1(8) respond_def)
  moreover have "acknack_sent g a ?q r r'" using r'(3) unfolding acknack_sent_def r1(4,5,6) .
  moreover have "request_base ?q = (if missing_changes ?q = [] then available_changes_max ?q + 1 else hd (missing_changes ?q))"
    "waits_for ?q = (if missing_changes ?q = [] then Expect (available_changes_max ?q + 1) else WaitingFor (missing_changes ?q))"
    by (simp_all add: request_base_def waits_for_def split: list.splits)
  moreover have "wp_status ?q n = (if n \<in> set (missing_changes ?q) then Some Missing else wp_status p n)"
    if "first_sn hb \<le> n \<and> n \<le> last_sn hb" for n
    unfolding ms(2) after_heartbeat_status [OF ok, of ?t hb n, simplified] using that by auto
  ultimately show ?thesis
    using r' r1(2,3) ms(1,2)
    by (intro exI [of _ r'] exI [of _ ?q] exI [of _ a] exI [of _ "missing_changes ?q"])
      (simp add: bs_wf_def split: if_splits)
qed

text \<open>
  C14. The answer of a reader without response delay (the default) to a heartbeat of a writer it knows that asks for one,
  spans fewer than half a million changes and is not older than what the reader misses (no missing number is above its last
  one). The reader asks for exactly the changes
  that the writer has, as announced by the heartbeat, and that it has not received: the ACKNACK it
  sends to every locator of the list it prefers for the writer (unicast, else multicast) decodes to the
  increasing list of these, and starts at the
  first of them. It waits for these and, when there are none, releases all it has to the application.
  A receiver accepts the ACKNACK as valid exactly when the requested changes span fewer than 256 numbers.
\<close>

theorem heartbeat_answered:
  assumes inv: "reader_inv r" and p: "bm_get (matched_writers (rematch g r)) g = Some p"
    and flag: "\<not> flag_contains f HeartbeatFlag_Final" and delay: "r_heartbeat_response_delay r = DURATION_ZERO"
    and range: "1 \<le> first_sn hb" "last_sn hb < i64_max" "last_sn hb - first_sn hb < 500000"
    and known: "\<forall>n. wp_status p n = Some Missing \<longrightarrow> n \<le> last_sn hb"
  shows "\<exists>r' q a ns. handle_heartbeat g f hb r = Inr (r', None) \<and> reader_inv r' \<and>
    bm_get (matched_writers r') g = Some q \<and> acknack_sent g a q r r' \<and>
    sns_set (reader_sn_state a) = Inr ns \<and> sorted_wrt (<) ns \<and>
    (\<forall>n. n \<in> set ns \<longleftrightarrow> first_sn hb \<le> n \<and> n \<le> last_sn hb \<and>
      wp_status p n \<in> {None, Some Uuknown, Some Missing}) \<and>
    bitmap_base (reader_sn_state a) = (if ns = [] then available_changes_max q + 1 else hd ns) \<and>
    (acknack_is_valid a \<longleftrightarrow> ns = [] \<or> last ns - hd ns < 255) \<and>
    bm_get (writer_communication_state r') g =
      Some (if ns = [] then Expect (available_changes_max q + 1) else WaitingFor ns) \<and>
    missing_changes q = ns \<and>
    (\<forall>n. first_sn hb \<le> n \<and> n \<le> last_sn hb \<longrightarrow> wp_status q n = (if n \<in> set ns then Some Missing else wp_status p n)) \<and>
    changes (reader_cache r') = changes (reader_cache r) \<and> (ns = [] \<longrightarrow> all_ready r')"
  using assms by (rule heartbeat_request)

definition ex_keep_all :: DataReaderQosPolicies where
  "ex_keep_all = ex_reader_qos\<lparr>dr_history := (\<lparr>history_kind = KeepAll, history_depth = 1\<rparr>, True)\<rparr>"

definition ex_reader :: "(SequenceNumber, ChangeFromWriter) btree_map \<Rightarrow> ReaderState \<Rightarrow> HistoryCache \<Rightarrow> Reader" where
  "ex_reader cs st h =
     (Reader_new \<lparr>ri_guid = ex_reader_guid, ri_reliability_level = Reliable, ri_unicast_locator_list = [],
        ri_multicast_locator_list = [], ri_expectsinline_qos = False, ri_heartbeat_response_delay = DURATION_ZERO,
        ri_rhc = h, ri_topic = ex_topic, ri_qos = ex_keep_all\<rparr>)
     \<lparr>matched_writers := [(ex_guid, ex_writer_proxy cs)], writer_communication_state := [(ex_guid, st)]\<rparr>"

lemma ex_reader_sel [simp]:
  "r_guid (ex_reader cs st h) = ex_reader_guid" "reader_cache (ex_reader cs st h) = h"
  "matched_writers (ex_reader cs st h) = [(ex_guid, ex_writer_proxy cs)]"
  "unmatched_writers (ex_reader cs st h) = []"
  "writer_communication_state (ex_reader cs st h) = [(ex_guid, st)]"
  "r_heartbeat_response_delay (ex_reader cs st h) = DURATION_ZERO" "r_udp_sender (ex_reader cs st h) = []"
  "r_qos (ex_reader cs st h) = ex_keep_all" "r_is_reliable (ex_reader cs st h)"
  by (simp_all add: ex_reader_def Reader_new_def r_is_reliable_def)

lemma ex_reader_rematch [simp]: "rematch g (ex_reader cs st h) = ex_reader cs st h"
  by (simp add: rematch_def)

lemma ex_reader_inv:
  assumes "hc_inv h" and "hc_type h = HCReader" and "state_ok st"
    and "bm_wf cs" and "list_all (\<lambda>(n, e). cfw_seq_num e = n \<and> n < i64_max) cs"
  shows "reader_inv (ex_reader cs st h)"
  using assms
  by (auto simp: reader_inv_def proxies_ok_def wproxy_ok_def wp_wf_def ex_writer_proxy_def bm_wf_def bs_wf_def list_all_iff)

lemma ex_writer_proxy_status: "wp_status (ex_writer_proxy cs) n = map_option cfw_status (bm_get cs n)"
  by (simp add: wp_status_def wp_entry_def ex_writer_proxy_def)

definition ex_cfw :: "SequenceNumber \<Rightarrow> ChangeFromWriterStatusKind \<Rightarrow> ChangeFromWriter" where
  "ex_cfw n st = \<lparr>cfw_seq_num = n, cfw_is_relevant = True, cfw_status = st\<rparr>"

text \<open>A reader that has change 1 of a writer and hears that the writer has the changes 1 to 3.\<close>

theorem heartbeat_answered_witness:
  "let r = ex_reader [(1, ex_cfw 1 Received)] Initial (HistoryCache_new HCReader);
       hb = ex_heartbeat\<lparr>first_sn := 1, last_sn := 3\<rparr>
   in \<exists>r' q a. handle_heartbeat ex_guid 1 hb r = Inr (r', None) \<and>
     bm_get (matched_writers r') ex_guid = Some q \<and> acknack_sent ex_guid a q r r' \<and>
     sns_set (reader_sn_state a) = Inr [2, 3] \<and> bitmap_base (reader_sn_state a) = 2 \<and> acknack_is_valid a \<and>
     bm_get (writer_communication_state r') ex_guid = Some (WaitingFor [2, 3])"
proof -
  let ?cs = "[(1, ex_cfw 1 Received)]"
  let ?r = "ex_reader ?cs Initial (HistoryCache_new HCReader)"
  let ?hb = "ex_heartbeat\<lparr>first_sn := 1, last_sn := 3\<rparr>"
  have inv: "reader_inv ?r"
    using hc_inv_new [of HCReader]
    by (intro ex_reader_inv) (simp_all add: HistoryCache_new_def state_ok_def bm_wf_def bs_wf_def ex_cfw_def i64_max_def)
  have p: "bm_get (matched_writers (rematch ex_guid ?r)) ex_guid = Some (ex_writer_proxy ?cs)" by simp
  have st: "wp_status (ex_writer_proxy ?cs) n = (if n = 1 then Some Received else None)" for n
    by (simp add: ex_writer_proxy_status ex_cfw_def)
  have pre: "\<not> flag_contains (1 :: u8) HeartbeatFlag_Final" "r_heartbeat_response_delay ?r = DURATION_ZERO"
    "1 \<le> first_sn ?hb" "last_sn ?hb < i64_max" "last_sn ?hb - first_sn ?hb < 500000"
    "\<forall>n. wp_status (ex_writer_proxy ?cs) n = Some Missing \<longrightarrow> n \<le> last_sn ?hb"
    by (simp_all add: flag_contains_def flag_defs st i64_max_def)
  from heartbeat_answered [OF inv p pre] obtain r' q a ns where
    h: "handle_heartbeat ex_guid 1 ?hb ?r = Inr (r', None)"
    "bm_get (matched_writers r') ex_guid = Some q" "acknack_sent ex_guid a q ?r r'"
    "sns_set (reader_sn_state a) = Inr ns" "sorted_wrt (<) ns"
    "\<forall>n. n \<in> set ns \<longleftrightarrow> first_sn ?hb \<le> n \<and> n \<le> last_sn ?hb \<and>
      wp_status (ex_writer_proxy ?cs) n \<in> {None, Some Uuknown, Some Missing}"
    "bitmap_base (reader_sn_state a) = (if ns = [] then available_changes_max q + 1 else hd ns)"
    "acknack_is_valid a \<longleftrightarrow> ns = [] \<or> last ns - hd ns < 255"
    "bm_get (writer_communication_state r') ex_guid =
      Some (if ns = [] then Expect (available_changes_max q + 1) else WaitingFor ns)"
    by (elim exE conjE) (rule that; assumption)
  have "n \<in> set ns \<longleftrightarrow> n = 2 \<or> n = 3" for n
    using h(6) [rule_format, of n, unfolded st] by (cases "n = 1") (simp_all, presburger)
  then have "set ns = set [2, 3]" by (simp add: set_eq_iff)
  then have "ns = [2, 3]" using h(5) by (intro strict_sorted_equal) simp_all
  with h show ?thesis by (auto simp: Let_def)
qed

section \<open>Receiving changes\<close>

lemma fold_remove_ready: "set (ready_key (fold (\<lambda>k. remove_change k t) ks h)) \<subseteq> set (ready_key h)"
proof (induction ks arbitrary: h)
  case (Cons k ks)
  from Cons [of "remove_change k t h"] show ?case by (auto simp: remove_change_ready split: if_splits)
qed simp

lemma keep_last_ready: "set (ready_key (keep_last hi h)) \<subseteq> set (ready_key h)"
  by (simp add: keep_last_def fold_remove_ready)

text \<open>A reliable reader's cache after a change has been added to it.\<close>

lemma reliable_add:
  assumes "hc_type h = HCReader" and "add_change c True rl hi h = Inr (h', x)"
  shows "set (ready_key h') \<subseteq> set (ready_key h)"
    and "changes h' = (if bm_get (changes h) (change_key c) \<noteq> None \<or> limit_reached rl h then changes h
      else changes (keep_last hi (store_change c h)))"
  using assms keep_last_ready [of hi "store_change c h"]
  by (auto simp: add_change_def add_known_def after_store_def rbind_Inr_iff Let_def store_change_def
      split: option.splits if_splits HistoryCacheType.splits)

lemma keep_all: "history_kind hi = KeepAll \<Longrightarrow> keep_last hi h = h"
  by (simp add: keep_last_def)

text \<open>
  C15. A reliable KEEP_ALL reader that receives a change, with a number in range, of a writer that it knows, where a
  cached change of the same key has the same data: the change is marked as received and
  no other change of the writer is touched. A change that is new is stored; at the limit
  of the reader's resources it is dropped although it is marked as received, so it is never requested
  again. The application sees nothing new unless this was the last change the reader waited for, or
  the one it expected; then all that is in the cache becomes available.
\<close>

theorem reliable_receive:
  assumes inv: "reader_inv r" and rel: "r_is_reliable r"
    and g: "g = GUID prefix (entity_id (writer_guid c))"
    and p: "bm_get (matched_writers (rematch g r)) g = Some p"
    and st: "bm_get (writer_communication_state r) g = Some st" and c: "can_add c r"
    and n: "0 \<le> sequence_number c" "sequence_number c < i64_max"
    and hist: "history_kind (fst (dr_history (r_qos r))) = KeepAll"
  shows "\<exists>r' rt q. reader_add_change prefix c r = Inr (r', rt) \<and> reader_inv r' \<and>
    bm_get (matched_writers r') g = Some q \<and> wp_status q = (wp_status p)(sequence_number c \<mapsto> Received) \<and>
    bm_get (writer_communication_state r') g = Some (next_state (sequence_number c) st) \<and>
    changes (reader_cache r') =
      (if bm_get (changes (reader_cache r)) (change_key c) \<noteq> None \<or>
          limit_reached (fst (dr_resource_limits (r_qos r))) (reader_cache r)
       then changes (reader_cache r) else bm_insert (change_key c) c (changes (reader_cache r))) \<and>
    (if releases (sequence_number c) st then all_ready r'
     else set (ready_key (reader_cache r')) \<subseteq> set (ready_key (reader_cache r)))"
proof -
  let ?r = "rematch g r"
  have f: "reader_cache ?r = reader_cache r" "r_qos ?r = r_qos r" "r_is_reliable ?r"
    "writer_communication_state ?r = writer_communication_state r"
    using rel by (simp_all add: rematch_def liveliness_changed_def r_is_reliable_def split: option.splits)
  note i = reader_inv_rematch [OF inv, of g]
  have st': "bm_get (writer_communication_state ?r) g = Some st" using st f by simp
  have c': "can_add c ?r" using c f rel by (simp add: can_add_def split: option.splits)
  obtain r' h where r': "add_change_reliable g c ?r = Inr r'" "reader_inv r'"
    "matched_writers r' = bm_adjust g (received_change_set (sequence_number c)) (matched_writers ?r)"
    "writer_communication_state r' =
      bm_adjust g (\<lambda>_. next_state (sequence_number c) st) (writer_communication_state ?r)"
    "add_change c (r_is_reliable ?r) (fst (dr_resource_limits (r_qos ?r))) (fst (dr_history (r_qos ?r)))
      (reader_cache ?r) = Inr (h, Inr ())"
    "changes (reader_cache r') = changes h"
    "if releases (sequence_number c) st then all_ready r' else ready_key (reader_cache r') = ready_key h"
    by (rule add_change_reliable_ok [OF i p st' c' n])
  from r'(5) f have "add_change c True (fst (dr_resource_limits (r_qos r))) (fst (dr_history (r_qos r)))
      (reader_cache r) = Inr (h, Inr ())" by simp
  note h = reliable_add [OF reader_invD(2) [OF inv] this]
  have "reader_add_change prefix c r = Inr (r', some_timers (change_timers g c p ?r))"
    using r'(1) f(3) p by (simp add: reader_add_change_def Let_def g [symmetric])
  moreover have "wp_status (received_change_set (sequence_number c) p) = (wp_status p)(sequence_number c \<mapsto> Received)"
    using reader_invD(3) [OF i p] by (simp add: wproxy_ok_iff received_change_set_spec)
  moreover have "if releases (sequence_number c) st then all_ready r'
      else set (ready_key (reader_cache r')) \<subseteq> set (ready_key (reader_cache r))"
    using r'(7) h(1) by (simp split: if_splits)
  ultimately show ?thesis
    using r'(2) p st'
    by (intro exI [of _ r'] exI [of _ "some_timers (change_timers g c p ?r)"]
        exI [of _ "received_change_set (sequence_number c) p"])
      (simp add: r'(3,4,6) h(2) keep_all [OF hist] store_change_def Let_def)
qed

text \<open>The reader waits for the changes 2 and 3 and receives 3, which is stored but not released.\<close>

theorem reliable_receive_witness:
  "let r = ex_reader [(2, ex_cfw 2 Missing), (3, ex_cfw 3 Missing)] (WaitingFor [2, 3]) (HistoryCache_new HCReader)
   in \<exists>r' rt. reader_add_change (guid_prefix ex_guid) (ex_change 3) r = Inr (r', rt) \<and>
     bm_get (writer_communication_state r') ex_guid = Some (WaitingFor [2]) \<and>
     changes (reader_cache r') = [(HCKey ex_guid 3, ex_change 3)] \<and> ready_key (reader_cache r') = []"
proof -
  let ?cs = "[(2, ex_cfw 2 Missing), (3, ex_cfw 3 Missing)]"
  let ?r = "ex_reader ?cs (WaitingFor [2, 3]) (HistoryCache_new HCReader)"
  have inv: "reader_inv ?r"
    using hc_inv_new [of HCReader]
    by (intro ex_reader_inv) (simp_all add: HistoryCache_new_def state_ok_def bm_wf_def bs_wf_def ex_cfw_def i64_max_def)
  have g: "ex_guid = GUID (guid_prefix ex_guid) (entity_id (writer_guid (ex_change 3)))"
    by (simp add: ex_guid_def ex_change_def)
  have p: "bm_get (matched_writers (rematch ex_guid ?r)) ex_guid = Some (ex_writer_proxy ?cs)"
    and st: "bm_get (writer_communication_state ?r) ex_guid = Some (WaitingFor [2, 3])" by simp_all
  have nl: "\<not> limit_reached (fst (dr_resource_limits (r_qos ?r))) (reader_cache ?r)"
    by (simp add: ex_keep_all_def ex_reader_qos_def datareader_build_def DataReaderQosBuilder_new_def
        decide_value_def limit_reached_def default_resource_limits_def)
  have c: "can_add (ex_change 3) ?r" using nl by (simp add: can_add_def HistoryCache_new_def)
  have n: "0 \<le> sequence_number (ex_change 3)" "sequence_number (ex_change 3) < i64_max"
    by (simp_all add: ex_change_def i64_max_def)
  have hist: "history_kind (fst (dr_history (r_qos ?r))) = KeepAll" by (simp add: ex_keep_all_def)
  have r: "releases (sequence_number (ex_change 3)) (WaitingFor [2, 3]) = False"
    and nx: "next_state (sequence_number (ex_change 3)) (WaitingFor [2, 3]) = WaitingFor [2]"
    by (simp_all add: releases_def next_state_def bs_remove_def ex_change_def)
  have k: "change_key (ex_change 3) = HCKey ex_guid 3" by (simp add: change_key_def ex_change_def)
  show ?thesis
    using reliable_receive [OF inv ex_reader_sel(9) g p st c n hist] nl
    by (auto simp: Let_def r nx k HistoryCache_new_def)
qed

section \<open>Gaps\<close>

definition no_longer_waits :: "SequenceNumber list \<Rightarrow> ReaderState \<Rightarrow> ReaderState" where
  "no_longer_waits ns st = (case st of WaitingFor wl \<Rightarrow> WaitingFor (filter (\<lambda>n. n \<notin> set ns) wl) | _ \<Rightarrow> st)"

lemma skip_lookup:
  "reader_cache (skip_seq_num g n r) = reader_cache r"
  "bm_get (matched_writers (skip_seq_num g n r)) g = map_option (irrelevant_change_set n) (bm_get (matched_writers r) g)"
  "bm_get (writer_communication_state (skip_seq_num g n r)) g =
    map_option (no_longer_waits [n]) (bm_get (writer_communication_state r) g)"
  by (auto simp: skip_seq_num_def Let_def no_longer_waits_def bs_remove_def
      split: option.splits ReaderState.splits)

lemma no_longer_waits_Nil [simp]: "no_longer_waits [] st = st"
  by (simp add: no_longer_waits_def split: ReaderState.splits)

lemma no_longer_waits_Cons: "no_longer_waits ns (no_longer_waits [n] st) = no_longer_waits (n # ns) st"
  by (auto simp: no_longer_waits_def split: ReaderState.splits intro: filter_cong)

lemma fold_skip_lookup:
  "reader_cache (fold (skip_seq_num g) ns r) = reader_cache r \<and>
   bm_get (matched_writers (fold (skip_seq_num g) ns r)) g =
     map_option (fold irrelevant_change_set ns) (bm_get (matched_writers r) g) \<and>
   bm_get (writer_communication_state (fold (skip_seq_num g) ns r)) g =
     map_option (no_longer_waits ns) (bm_get (writer_communication_state r) g)"
proof (induction ns arbitrary: r)
  case Nil
  show ?case by (simp add: option.map_id option.map_ident)
next
  case (Cons n ns)
  show ?case by (simp add: Cons skip_lookup option.map_comp o_def no_longer_waits_Cons)
qed

lemma fold_irrelevant_status:
  assumes "wp_wf p"
  shows "wp_wf (fold irrelevant_change_set ns p) \<and>
    wp_status (fold irrelevant_change_set ns p) n = (if n \<in> set ns then Some Received else wp_status p n)"
  using assms
proof (induction ns arbitrary: p)
  case (Cons m ns)
  note f = irrelevant_change_set_spec [OF Cons.prems, of m]
  from Cons.IH [OF f(1)] show ?case by (auto simp: f(2))
qed simp

text \<open>
  C17. A gap announced by a matched writer: every number of the gap counts as received, so it is not
  requested and not waited for any more, and no other number is touched. Nothing is released to the
  application, even when the reader now waits for nothing.
\<close>

theorem gap_skips:
  assumes inv: "reader_inv r" and p: "bm_get (matched_writers (rematch g r)) g = Some p"
    and st: "bm_get (writer_communication_state r) g = Some st"
    and range: "bitmap_base (gap_list gap) \<le> i64_max" "sns_set (gap_list gap) = Inr ns" "\<forall>n \<in> set ns. n < i64_max"
  shows "\<exists>r' q. handle_gap g gap r = Inr r' \<and> reader_inv r' \<and> reader_cache r' = reader_cache r \<and>
    bm_get (matched_writers r') g = Some q \<and>
    (\<forall>n. wp_status q n = (if gap_start gap \<le> n \<and> n < bitmap_base (gap_list gap) \<or> n \<in> set ns
      then Some Received else wp_status p n)) \<and>
    bm_get (writer_communication_state r') g =
      Some (no_longer_waits ([gap_start gap..bitmap_base (gap_list gap) - 1] @ ns) st)"
proof -
  let ?all = "[gap_start gap..bitmap_base (gap_list gap) - 1] @ ns"
  let ?r' = "fold (skip_seq_num g) ?all (rematch g r)"
  have f: "reader_cache (rematch g r) = reader_cache r"
    "writer_communication_state (rematch g r) = writer_communication_state r"
    by (simp_all add: rematch_def liveliness_changed_def split: option.splits)
  have run: "handle_gap g gap r = Inr ?r'" by (simp add: handle_gap_def Let_def p range(2))
  with handle_gap_inv [OF inv range, of g] have "reader_inv ?r'" by simp
  moreover have "wp_wf p" using reader_invD(3) [OF reader_inv_rematch [OF inv] p] by (simp add: wproxy_ok_iff)
  note s = fold_irrelevant_status [OF this, of ?all]
  ultimately show ?thesis
    using run st
    by (intro exI [of _ ?r'] exI [of _ "fold irrelevant_change_set ?all p"])
      (simp add: fold_skip_lookup f p s del: fold_append)
qed

theorem gap_skips_witness:
  "let r = ex_reader [(2, ex_cfw 2 Missing), (5, ex_cfw 5 Missing)] (WaitingFor [2, 5]) (HistoryCache_new HCReader);
       gap = \<lparr>gap_reader_id = entity_id ex_reader_guid, gap_writer_id = entity_id ex_guid, gap_start = 1,
              gap_list = \<lparr>bitmap_base = 4, num_bits = 0, bitmap = []\<rparr>, gap_start_gsn = None, gap_end_gsn = None\<rparr>
   in \<exists>r' q. handle_gap ex_guid gap r = Inr r' \<and> bm_get (matched_writers r') ex_guid = Some q \<and>
     wp_status q 2 = Some Received \<and> wp_status q 5 = Some Missing \<and>
     bm_get (writer_communication_state r') ex_guid = Some (WaitingFor [5])"
proof -
  let ?cs = "[(2, ex_cfw 2 Missing), (5, ex_cfw 5 Missing)]"
  let ?r = "ex_reader ?cs (WaitingFor [2, 5]) (HistoryCache_new HCReader)"
  let ?gap = "\<lparr>gap_reader_id = entity_id ex_reader_guid, gap_writer_id = entity_id ex_guid, gap_start = 1,
      gap_list = \<lparr>bitmap_base = 4, num_bits = 0, bitmap = []\<rparr>, gap_start_gsn = None, gap_end_gsn = None\<rparr>"
  have inv: "reader_inv ?r"
    using hc_inv_new [of HCReader]
    by (intro ex_reader_inv) (simp_all add: HistoryCache_new_def state_ok_def bm_wf_def bs_wf_def ex_cfw_def i64_max_def)
  have p: "bm_get (matched_writers (rematch ex_guid ?r)) ex_guid = Some (ex_writer_proxy ?cs)"
    and st: "bm_get (writer_communication_state ?r) ex_guid = Some (WaitingFor [2, 5])" by simp_all
  have range: "bitmap_base (gap_list ?gap) \<le> i64_max" "sns_set (gap_list ?gap) = Inr []"
    "\<forall>n \<in> set []. n < i64_max" by (simp_all add: i64_max_def sns_set_def)
  have s: "wp_status (ex_writer_proxy ?cs) 5 = Some Missing" by (simp add: ex_writer_proxy_status ex_cfw_def)
  show ?thesis
    using gap_skips [OF inv p st range] s by (auto simp: Let_def no_longer_waits_def)
qed

section \<open>Taking samples\<close>

text \<open>
  C16. The application's \<^verbatim>\<open>take\<close>, when the payloads that have been released have plain CDR encoding (it panics on any
  other): it returns the samples of the released changes, in the order of their keys (by sequence number, then by
  writer GUID), leaves out those without data and those
  that cannot be deserialized, and removes all of them from the cache and nothing else. The keys are
  remembered as taken; taking again returns nothing.
\<close>

theorem take_once:
  assumes "hc_inv h" and "hc_type h = HCReader"
    and "\<forall>k \<in> set (ready_alive h). cdr_payload (the (bm_get (changes h) k))"
  shows "\<exists>h'. get_data deser h =
      Inr (h', List.map_filter (\<lambda>k. sample_of deser (the (bm_get (changes h) k))) (ready_alive h)) \<and>
    sorted_wrt (<) (ready_alive h) \<and> hc_inv h' \<and>
    changes h' = filter (\<lambda>p. fst p \<notin> set (ready_alive h)) (changes h) \<and>
    set (taken_key h') = set (ready_alive h) \<union> set (taken_key h) \<and>
    get_data deser h' = Inr (h', [])"
proof -
  from get_data_ok [OF assms, of deser] obtain h' where h':
    "get_data deser h = Inr (h', List.map_filter (\<lambda>k. sample_of deser (the (bm_get (changes h) k))) (ready_alive h))"
    "hc_inv h'" "changes h' = filter (\<lambda>p. fst p \<notin> set (ready_alive h)) (changes h)"
    "set (taken_key h') = set (ready_alive h) \<union> set (taken_key h)" "ready_alive h' = []" by metis
  moreover have "get_data deser h' = Inr (h', [])"
    using get_ready_changes_spec [OF h'(2)] h'(5) by (simp add: get_data_def)
  ultimately show ?thesis using ready_alive_wf [OF assms(1)] by (auto simp: bs_wf_def)
qed

definition ex_ready_cache :: HistoryCache where
  "ex_ready_cache = (store_change (ex_change 2) (store_change (ex_change 1) (HistoryCache_new HCReader)))
     \<lparr>ready_key := [HCKey ex_guid 1]\<rparr>"

lemma ex_ready_cache_sel:
  "changes ex_ready_cache = [(HCKey ex_guid 1, ex_change 1), (HCKey ex_guid 2, ex_change 2)]"
  "hc_type ex_ready_cache = HCReader" "ready_key ex_ready_cache = [HCKey ex_guid 1]" "taken_key ex_ready_cache = []"
  by (simp_all add: ex_ready_cache_def store_change_def change_key_def ex_change_def HistoryCache_new_def less_HCKey_def Let_def)

lemma ex_ready_cache_inv: "hc_inv ex_ready_cache"
proof -
  have 1: "hc_inv (store_change (ex_change 1) (HistoryCache_new HCReader))" (is "hc_inv ?h")
    by (intro store_change_inv hc_inv_new) (simp add: HistoryCache_new_def)
  have "bm_get (changes ?h) (change_key (ex_change 2)) = None"
    by (simp add: store_change_def change_key_def ex_change_def HistoryCache_new_def Let_def)
  from store_change_inv [OF 1 this] have "hc_inv (store_change (ex_change 2) ?h)" .
  then show ?thesis
    unfolding ex_ready_cache_def
    by (intro ready_inv) (simp_all add: bs_wf_def store_change_def change_key_def ex_change_def HistoryCache_new_def Let_def)
qed

text \<open>Two changes are cached, one of which has been released; samples are the bytes of the payload.\<close>

theorem take_once_witness:
  "\<exists>h'. get_data (\<lambda>e bs. Some bs) ex_ready_cache =
      Inr (h', [\<lparr>sample_data = [7], sample_info = \<lparr>source_timestamp = timestamp (ex_change 1)\<rparr>\<rparr>]) \<and>
    changes h' = [(HCKey ex_guid 2, ex_change 2)] \<and> get_data (\<lambda>e bs. Some bs) h' = Inr (h', [])"
proof -
  have ra: "ready_alive ex_ready_cache = [HCKey ex_guid 1]"
    by (simp add: ready_alive_def ex_ready_cache_sel ex_change_def)
  have cdr: "\<forall>k \<in> set (ready_alive ex_ready_cache). cdr_payload (the (bm_get (changes ex_ready_cache) k))"
    by (simp add: ra ex_ready_cache_sel cdr_payload_def ex_change_def ex_payload_def)
  have s: "sample_of (\<lambda>e bs. Some bs) (ex_change 1) =
      Some \<lparr>sample_data = [7], sample_info = \<lparr>source_timestamp = timestamp (ex_change 1)\<rparr>\<rparr>"
    by (simp add: sample_of_def ex_change_def ex_payload_def)
  from take_once [OF ex_ready_cache_inv ex_ready_cache_sel(2) cdr, of "\<lambda>e bs. Some bs"] obtain h' where
    "get_data (\<lambda>e bs. Some bs) ex_ready_cache = Inr (h', List.map_filter
      (\<lambda>k. sample_of (\<lambda>e bs. Some bs) (the (bm_get (changes ex_ready_cache) k))) (ready_alive ex_ready_cache))"
    "changes h' = filter (\<lambda>p. fst p \<notin> set (ready_alive ex_ready_cache)) (changes ex_ready_cache)"
    "get_data (\<lambda>e bs. Some bs) h' = Inr (h', [])" by blast
  then show ?thesis by (auto simp: ra ex_ready_cache_sel map_filter_simps s)
qed

section \<open>Unknown writers\<close>

text \<open>
  What a reader that does not know a writer does with its messages: data, gaps, heartbeats and the
  response timer change nothing and send nothing. Asking for the QoS of such a writer panics.
\<close>

theorem unknown_writer_ignored:
  assumes "\<not> is_contain_writer g r"
  shows "(\<forall>c. GUID prefix (entity_id (writer_guid c)) = g \<longrightarrow> reader_add_change prefix c r = Inr (r, None)) \<and>
    handle_gap g gap r = Inr r \<and> handle_heartbeat g f hb r = Inr (r, None) \<and>
    handle_hb_response_timeout g r = Inr r \<and> get_matched_writer_qos g r = Inl ExplicitPanic"
  using assms
  by (auto simp: is_contain_writer_def reader_add_change_def rematch_def handle_gap_def handle_heartbeat_def
      handle_hb_response_timeout_def get_matched_writer_qos_def Let_def)

theorem unknown_writer_ignored_witness:
  "let r = ex_reader [] Initial (HistoryCache_new HCReader)
   in \<not> is_contain_writer ex_reader_guid r \<and> handle_heartbeat ex_reader_guid 1 ex_heartbeat r = Inr (r, None) \<and>
     get_matched_writer_qos ex_reader_guid r = Inl ExplicitPanic"
proof -
  have "\<not> is_contain_writer ex_reader_guid (ex_reader [] Initial (HistoryCache_new HCReader))"
    by (simp add: is_contain_writer_def ex_guid_def ex_reader_guid_def)
  from unknown_writer_ignored [OF this] this show ?thesis by (simp add: Let_def)
qed

section \<open>Safety\<close>

text \<open>
  C4. The subscriber side is safe. In every state that data, gaps and heartbeats with sequence numbers in range,
  the timers, the discovery and the application's \<^verbatim>\<open>take\<close> can produce, in any order, the invariant of
  the reader holds; so exactly the known writers have a communication state. From such a state these are processed
  without a panic: a change with a number in range, if a cached change of the same key has the same
  data and the reader is not a best-effort one with an empty cache that counts as full (a limit of
  one sample); a gap in range; a heartbeat of a known writer that starts at 1 or later, spans fewer than half
  a million changes, and is not older than what the reader misses (no missing number is above its last one); and
  \<^verbatim>\<open>take\<close> when the payloads that are ready have plain CDR encoding.
\<close>

theorem subscriber_safe:
  assumes reach: "reader_reachable deser r"
  shows "reader_inv r \<and> (\<forall>g. is_contain_writer g r \<longleftrightarrow> bm_contains g (writer_communication_state r)) \<and>
    (\<forall>c. can_add c r \<longrightarrow> 0 \<le> sequence_number c \<longrightarrow> sequence_number c < i64_max \<longrightarrow>
      (\<exists>r' rt. reader_add_change prefix c r = Inr (r', rt) \<and> reader_reachable deser r')) \<and>
    (\<forall>g gap. gap_in_range gap \<longrightarrow> (\<exists>r'. handle_gap g gap r = Inr r' \<and> reader_reachable deser r')) \<and>
    (\<forall>g p f hb. bm_get (matched_writers (rematch g r)) g = Some p \<longrightarrow> 1 \<le> first_sn hb \<longrightarrow> last_sn hb < i64_max \<longrightarrow>
      last_sn hb - first_sn hb < 500000 \<longrightarrow> (\<forall>n. wp_status p n = Some Missing \<longrightarrow> n \<le> last_sn hb) \<longrightarrow>
      (\<exists>r' rt. handle_heartbeat g f hb r = Inr (r', rt) \<and> reader_reachable deser r')) \<and>
    ((\<forall>k \<in> set (ready_alive (reader_cache r)). cdr_payload (the (bm_get (changes (reader_cache r)) k))) \<longrightarrow>
      (\<exists>h v. get_data deser (reader_cache r) = Inr (h, v) \<and> reader_reachable deser (r\<lparr>reader_cache := h\<rparr>)))"
  (is "_ \<and> ?keys \<and> ?data \<and> ?gap \<and> ?hb \<and> ?take")
proof -
  note inv = reader_reachable_inv [OF reach]
  note step = rr_step [OF reach]
  have "?keys" using inv by (simp add: is_contain_writer_def reader_inv_iff)
  moreover have ?data using reader_add_change_inv [OF inv] by (metis rs_data step)
  moreover have ?gap
  proof (intro allI impI)
    fix g gap assume gap: "gap_in_range gap"
    then obtain ns where "sns_set (gap_list gap) = Inr ns" "\<forall>n \<in> set ns. n < i64_max"
      "bitmap_base (gap_list gap) \<le> i64_max"
      by (auto simp: gap_in_range_def list_all_iff split: sum.splits)
    from handle_gap_inv [OF inv this(3,1,2), of g] gap
    show "\<exists>r'. handle_gap g gap r = Inr r' \<and> reader_reachable deser r'" by (metis rs_gap step)
  qed
  moreover have ?hb using handle_heartbeat_total [OF inv] by (metis rs_heartbeat step)
  moreover have ?take
  proof
    assume "\<forall>k \<in> set (ready_alive (reader_cache r)). cdr_payload (the (bm_get (changes (reader_cache r)) k))"
    from get_data_ok [OF reader_invD(1,2) [OF inv] this, of deser]
    show "\<exists>h v. get_data deser (reader_cache r) = Inr (h, v) \<and> reader_reachable deser (r\<lparr>reader_cache := h\<rparr>)"
      by (metis rs_take step)
  qed
  ultimately show ?thesis using inv by blast
qed

definition ex_new_reader :: Reader where
  "ex_new_reader = Reader_new \<lparr>ri_guid = ex_reader_guid, ri_reliability_level = Reliable,
     ri_unicast_locator_list = [], ri_multicast_locator_list = [], ri_expectsinline_qos = False,
     ri_heartbeat_response_delay = DURATION_ZERO, ri_rhc = HistoryCache_new HCReader, ri_topic = ex_topic,
     ri_qos = ex_keep_all\<rparr>"

theorem subscriber_safe_witness:
  "reader_reachable (\<lambda>e bs. Some bs) ex_new_reader \<and>
   (\<exists>r' rt. reader_add_change (guid_prefix ex_guid) (ex_change 1) ex_new_reader = Inr (r', rt) \<and>
     reader_reachable (\<lambda>e bs. Some bs) r')"
proof -
  have r: "reader_reachable (\<lambda>e bs. Some bs) ex_new_reader"
    unfolding ex_new_reader_def by (rule rr_new) simp
  have c: "can_add (ex_change 1) ex_new_reader" "0 \<le> sequence_number (ex_change 1)" "sequence_number (ex_change 1) < i64_max"
    by (simp_all add: can_add_def ex_new_reader_def Reader_new_def HistoryCache_new_def r_is_reliable_def ex_change_def i64_max_def)
  from subscriber_safe [OF r] c r show ?thesis by blast
qed

section \<open>A round of repair\<close>

text \<open>What the handlers of data and heartbeats leave alone.\<close>

definition same_setup :: "Reader \<Rightarrow> Reader \<Rightarrow> bool" where
  "same_setup r r' \<longleftrightarrow> unmatched_writers r' = unmatched_writers r \<and> r_qos r' = r_qos r \<and>
     r_reliability_level r' = r_reliability_level r \<and> r_guid r' = r_guid r \<and>
     r_heartbeat_response_delay r' = r_heartbeat_response_delay r"

lemma same_setup_simps [simp]:
  "same_setup r r" "same_setup r (r'\<lparr>reader_cache := h\<rparr>) = same_setup r r'"
  "same_setup r (notify_r s r') = same_setup r r'" "same_setup r (set_state g st r') = same_setup r r'"
  "same_setup r (on_proxy g f r') = same_setup r r'" "same_setup r (r'\<lparr>r_udp_sender := u\<rparr>) = same_setup r r'"
  "same_setup (r\<lparr>reader_cache := h\<rparr>) r' = same_setup r r'"
  "same_setup (notify_r s r) r' = same_setup r r'" "same_setup (set_state g st r) r' = same_setup r r'"
  "same_setup (on_proxy g f r) r' = same_setup r r'"
  by (simp_all add: same_setup_def notify_r_def set_state_def on_proxy_def)

lemma no_error_unit: "\<forall>e. x \<noteq> Inl e \<Longrightarrow> x = Inr ()"
  by (cases x) simp_all

lemma flush_cache_setup: "flush_cache r = Inr (r', b) \<Longrightarrow> same_setup r r'"
  by (auto simp: flush_cache_def rbind_Inr_iff)

lemma release_setup: "release r = Inr r' \<Longrightarrow> same_setup r r'"
  by (auto simp: release_def rbind_Inr_iff dest: flush_cache_setup)

lemma same_setup_trans: "same_setup r r' \<Longrightarrow> same_setup r' r'' \<Longrightarrow> same_setup r r''"
  by (simp add: same_setup_def)

lemma advance_state_setup: "advance_state g n r = Inr r' \<Longrightarrow> same_setup r r'"
  by (auto simp: advance_state_def rbind_Inr_iff Let_def dest!: release_setup intro: same_setup_trans
     split: option.splits ReaderState.splits if_splits)

lemma add_change_reliable_setup: "add_change_reliable g c r = Inr r' \<Longrightarrow> same_setup r r'"
  by (auto simp: add_change_reliable_def add_to_cache_def rbind_Inr_iff dest!: advance_state_setup no_error_unit
     split: sum.splits)

lemma acknack_base_setup: "acknack_base g p r = Inr (r', b) \<Longrightarrow> same_setup r r'"
  by (auto simp: acknack_base_def rbind_Inr_iff dest!: flush_cache_setup intro: same_setup_trans
     split: list.splits if_splits)

lemma handle_hb_response_timeout_setup: "handle_hb_response_timeout g r = Inr r' \<Longrightarrow> same_setup r r'"
  by (auto simp: handle_hb_response_timeout_def rbind_Inr_iff Let_def dest!: acknack_base_setup 
     split: option.splits)

lemma handle_heartbeat_setup: "handle_heartbeat g f hb r = Inr (r', rt) \<Longrightarrow> same_setup (rematch g r) r'"
  by (auto simp: handle_heartbeat_def respond_def rbind_Inr_iff Let_def dest!: handle_hb_response_timeout_setup intro: same_setup_trans
     split: option.splits if_splits)

text \<open>The receipt of several changes, one after the other.\<close>

definition receive_all :: "GuidPrefix \<Rightarrow> CacheChange list \<Rightarrow> Reader \<Rightarrow> Reader res" where
  "receive_all prefix cs r = rfold (\<lambda>c r. rbind (reader_add_change prefix c r) (\<lambda>(r', rt). Inr r')) cs r"

definition unlimited :: "Reader \<Rightarrow> bool" where
  "unlimited r \<longleftrightarrow> r_is_reliable r \<and> history_kind (fst (dr_history (r_qos r))) = KeepAll \<and>
     max_samples (fst (dr_resource_limits (r_qos r))) = LENGTH_UNLIMITED"

lemma receive_one:
  assumes inv: "reader_inv r" and u: "unlimited r" and p: "bm_get (matched_writers r) g = Some p"
    and un: "bm_get (unmatched_writers r) g = None"
    and st: "bm_get (writer_communication_state r) g = Some (WaitingFor wl)"
    and c: "writer_guid c = g" "0 \<le> sequence_number c" "sequence_number c < i64_max"
    and new: "bm_get (changes (reader_cache r)) (change_key c) = None"
  obtains r' rt where "reader_add_change (guid_prefix g) c r = Inr (r', rt)" and "reader_inv r'" and "unlimited r'"
    and "bm_get (matched_writers r') g = Some (received_change_set (sequence_number c) p)"
    and "bm_get (unmatched_writers r') g = None"
    and "bm_get (writer_communication_state r') g = Some (WaitingFor (bs_remove (sequence_number c) wl))"
    and "changes (reader_cache r') = bm_insert (change_key c) c (changes (reader_cache r))"
    and "bs_remove (sequence_number c) wl = [] \<longrightarrow> all_ready r'"
proof -
  have g: "GUID (guid_prefix g) (entity_id (writer_guid c)) = g" using c(1) by (cases g) simp
  have re: "rematch g r = r" using un by (simp add: rematch_def)
  have nl: "\<not> limit_reached (fst (dr_resource_limits (r_qos r))) (reader_cache r)"
    using u by (simp add: unlimited_def limit_reached_def)
  have add: "can_add c r" using nl new by (simp add: can_add_def)
  obtain r' h where r': "add_change_reliable g c r = Inr r'" "reader_inv r'"
    "matched_writers r' = bm_adjust g (received_change_set (sequence_number c)) (matched_writers r)"
    "writer_communication_state r' =
      bm_adjust g (\<lambda>_. next_state (sequence_number c) (WaitingFor wl)) (writer_communication_state r)"
    "add_change c (r_is_reliable r) (fst (dr_resource_limits (r_qos r))) (fst (dr_history (r_qos r)))
      (reader_cache r) = Inr (h, Inr ())"
    "changes (reader_cache r') = changes h"
    "if releases (sequence_number c) (WaitingFor wl) then all_ready r' else ready_key (reader_cache r') = ready_key h"
    by (rule add_change_reliable_ok [OF inv p st add c(2,3)])
  have rel: "r_is_reliable r" "history_kind (fst (dr_history (r_qos r))) = KeepAll" using u by (simp_all add: unlimited_def)
  note s = add_change_reliable_setup [OF r'(1), unfolded same_setup_def]
  have "changes h = bm_insert (change_key c) c (changes (reader_cache r))"
    using reliable_add(2) [OF reader_invD(2) [OF inv], of c _ _ h] r'(5) new nl rel(1)
    by (simp add: keep_all [OF rel(2)] store_change_def Let_def)
  moreover have "reader_add_change (guid_prefix g) c r = Inr (r', some_timers (change_timers g c p r))"
    by (simp add: reader_add_change_def Let_def g re p rel(1) r'(1))
  ultimately show ?thesis
    using r' s u un p st
    by (intro that [of r' "some_timers (change_timers g c p r)"])
      (simp_all add: next_state_def releases_def unlimited_def r_is_reliable_def split: if_splits)
qed

definition comes_from :: "GUID \<Rightarrow> HistoryCache \<Rightarrow> CacheChange \<Rightarrow> bool" where
  "comes_from g h c \<longleftrightarrow> writer_guid c = g \<and> 0 \<le> sequence_number c \<and> sequence_number c < i64_max \<and>
     bm_get (changes h) (change_key c) = None"

lemma receive_all_ok:
  assumes "reader_inv r" and "unlimited r" and "bm_get (matched_writers r) g = Some p"
    and "bm_get (unmatched_writers r) g = None"
    and "bm_get (writer_communication_state r) g = Some (WaitingFor wl)"
    and "\<forall>c \<in> set cs. comes_from g (reader_cache r) c" and "distinct (map sequence_number cs)"
  shows "\<exists>r' q. receive_all (guid_prefix g) cs r = Inr r' \<and> reader_inv r' \<and>
    bm_get (matched_writers r') g = Some q \<and> wp_wf q \<and>
    (\<forall>n. wp_status q n = (if n \<in> sequence_number ` set cs then Some Received else wp_status p n)) \<and>
    bm_get (writer_communication_state r') g = Some (WaitingFor (filter (\<lambda>n. n \<notin> sequence_number ` set cs) wl)) \<and>
    (\<forall>k. bm_get (changes (reader_cache r')) k =
      (case find (\<lambda>c. change_key c = k) cs of Some c \<Rightarrow> Some c | None \<Rightarrow> bm_get (changes (reader_cache r)) k)) \<and>
    (cs \<noteq> [] \<and> filter (\<lambda>n. n \<notin> sequence_number ` set cs) wl = [] \<longrightarrow> all_ready r')"
  using assms
proof (induction cs arbitrary: r p wl)
  case Nil
  have "wp_wf p" using reader_invD(3) [OF Nil.prems(1,3)] by (simp add: wproxy_ok_iff)
  with Nil show ?case by (simp add: receive_all_def)
next
  case (Cons c cs)
  have c: "writer_guid c = g" "0 \<le> sequence_number c" "sequence_number c < i64_max"
    "bm_get (changes (reader_cache r)) (change_key c) = None"
    using Cons.prems(6) by (simp_all add: comes_from_def)
  obtain r1 rt where r1: "reader_add_change (guid_prefix g) c r = Inr (r1, rt)" "reader_inv r1" "unlimited r1"
    "bm_get (matched_writers r1) g = Some (received_change_set (sequence_number c) p)"
    "bm_get (unmatched_writers r1) g = None"
    "bm_get (writer_communication_state r1) g = Some (WaitingFor (bs_remove (sequence_number c) wl))"
    "changes (reader_cache r1) = bm_insert (change_key c) c (changes (reader_cache r))"
    "bs_remove (sequence_number c) wl = [] \<longrightarrow> all_ready r1"
    by (rule receive_one [OF Cons.prems(1-5) c])
  have key: "change_key c' \<noteq> change_key c" if "c' \<in> set cs" for c'
    using that Cons.prems(7) by (auto simp: change_key_def image_iff)
  then have new: "\<forall>c' \<in> set cs. comes_from g (reader_cache r1) c'"
    using Cons.prems(6) by (simp add: comes_from_def r1(7))
  have d: "distinct (map sequence_number cs)" using Cons.prems(7) by simp
  have "wp_wf p" using reader_invD(3) [OF Cons.prems(1,3)] by (simp add: wproxy_ok_iff)
  note recv = received_change_set_spec(2) [OF this, of "sequence_number c"]
  have wl: "filter (\<lambda>n. n \<notin> sequence_number ` set cs) (bs_remove (sequence_number c) wl) =
      filter (\<lambda>n. n \<notin> sequence_number ` set (c # cs)) wl"
    by (auto simp: bs_remove_def intro: filter_cong)
  have run: "receive_all (guid_prefix g) (c # cs) r = receive_all (guid_prefix g) cs r1"
    by (simp add: receive_all_def r1(1))
  have find: "find (\<lambda>c'. change_key c' = change_key c) cs = None" using key by (simp add: find_None_iff)
  from Cons.IH [OF r1(2,3,4,5,6) new d] obtain r' q where r': "receive_all (guid_prefix g) cs r1 = Inr r'"
    "reader_inv r'" "bm_get (matched_writers r') g = Some q" "wp_wf q"
    "\<forall>n. wp_status q n = (if n \<in> sequence_number ` set cs then Some Received
      else wp_status (received_change_set (sequence_number c) p) n)"
    "bm_get (writer_communication_state r') g = Some (WaitingFor (filter (\<lambda>n. n \<notin> sequence_number ` set (c # cs)) wl))"
    "\<forall>k. bm_get (changes (reader_cache r')) k = (case find (\<lambda>c. change_key c = k) cs of Some c \<Rightarrow> Some c
      | None \<Rightarrow> bm_get (changes (reader_cache r1)) k)"
    "cs \<noteq> [] \<and> filter (\<lambda>n. n \<notin> sequence_number ` set (c # cs)) wl = [] \<longrightarrow> all_ready r'"
    unfolding wl by blast
  have "all_ready r'" if "filter (\<lambda>n. n \<notin> sequence_number ` set (c # cs)) wl = []"
  proof (cases "cs = []")
    case True
    with r'(1) have "r' = r1" by (simp add: receive_all_def)
    with r1(8) that wl True show ?thesis by simp
  qed (use r'(8) that in blast)
  moreover have "bm_get (changes (reader_cache r')) k = (case find (\<lambda>c. change_key c = k) (c # cs) of Some c \<Rightarrow> Some c
      | None \<Rightarrow> bm_get (changes (reader_cache r)) k)" for k
    using r'(7) find by (auto simp: r1(7) split: option.splits)
  ultimately show ?case
    using r'(2-6) recv unfolding run r'(1) by (intro exI [of _ r'] exI [of _ q]) auto
qed

lemma rematch_unmatched: "bm_get (unmatched_writers (rematch g r)) g = None"
  by (simp add: rematch_def liveliness_changed_def split: option.splits)

lemma short_list: "bs_wf ns \<Longrightarrow> \<forall>n \<in> set ns. a \<le> n \<and> n \<le> l \<Longrightarrow> l - a < 255 \<Longrightarrow> length ns \<le> 255" for a l :: int
proof -
  assume "bs_wf ns" and b: "\<forall>n \<in> set ns. a \<le> n \<and> n \<le> l" and s: "l - a < 255"
  then have "length ns = card (set ns)" by (simp add: bs_wf_distinct distinct_card)
  also have "\<dots> \<le> card {a..l}" using b by (intro card_mono) auto
  finally show ?thesis using s by simp
qed

text \<open>The first half of the round: the reader asks and the writer answers.\<close>

lemma repair_request:
  assumes w: "writer_inv w" "bm_get (matched_readers w) (r_guid r) = Some rp"
    and idle: "an_state w = Waiting" "w_nack_response_delay w = DURATION_ZERO"
    and count: "hb_counter w + int (length (rp_cache_state rp)) + 255 < 2 ^ 31"
    and r: "reader_inv r" "bm_get (matched_writers (rematch (w_guid w) r)) (w_guid w) = Some p"
    and flag: "\<not> flag_contains f HeartbeatFlag_Final" and delay: "r_heartbeat_response_delay r = DURATION_ZERO"
    and range: "1 \<le> first_sn hb" "last_sn hb < i64_max" "last_sn hb - first_sn hb < 255"
    and known: "\<forall>n. wp_status p n = Some Missing \<longrightarrow> n \<le> last_sn hb"
    and ns: "bs_wf ns" "ns \<noteq> []" "\<forall>n. n \<in> set ns \<longleftrightarrow> first_sn hb \<le> n \<and> n \<le> last_sn hb \<and>
      wp_status p n \<in> {None, Some Uuknown, Some Missing}"
  obtains r1 q a w1 where "handle_heartbeat (w_guid w) f hb r = Inr (r1, None)" and "reader_inv r1"
    and "bm_get (matched_writers r1) (w_guid w) = Some q" and "acknack_sent (w_guid w) a q r r1" and "acknack_is_valid a"
    and "changes (reader_cache r1) = changes (reader_cache r)"
    and "bm_get (writer_communication_state r1) (w_guid w) = Some (WaitingFor ns)" and "missing_changes q = ns"
    and "\<forall>n. first_sn hb \<le> n \<and> n \<le> last_sn hb \<longrightarrow> wp_status q n = (if n \<in> set ns then Some Missing else wp_status p n)"
    and "handle_acknack now a (r_guid r) w = Inr (w1, None)" and "writer_inv w1"
    and "\<forall>n \<in> set ns. \<forall>c. (\<forall>e. rp_entry rp n = Some e \<longrightarrow> cfr_is_relevant e) \<longrightarrow>
      get_change (w_guid w) n (writer_cache w) = Some c \<longrightarrow>
      get_change (w_guid w) n (writer_cache w1) = Some c \<and>
      (\<forall>ll l. destination (w_guid w) rp = Some ll \<longrightarrow> l \<in> set ll \<longrightarrow>
        data_sent now (w_guid w) c (r_guid r) l (w_udp_sender w1))"
proof -
  have span: "last_sn hb - first_sn hb < 500000" using range(3) by simp
  obtain r1 q a ns' where h: "handle_heartbeat (w_guid w) f hb r = Inr (r1, None)" "reader_inv r1"
    "bm_get (matched_writers r1) (w_guid w) = Some q" "acknack_sent (w_guid w) a q r r1"
    "sns_set (reader_sn_state a) = Inr ns'" "sorted_wrt (<) ns'"
    "\<forall>n. n \<in> set ns' \<longleftrightarrow> first_sn hb \<le> n \<and> n \<le> last_sn hb \<and> wp_status p n \<in> {None, Some Uuknown, Some Missing}"
    "bitmap_base (reader_sn_state a) = (if ns' = [] then available_changes_max q + 1 else hd ns')"
    "acknack_is_valid a \<longleftrightarrow> ns' = [] \<or> last ns' - hd ns' < 255"
    "bm_get (writer_communication_state r1) (w_guid w) =
      Some (if ns' = [] then Expect (available_changes_max q + 1) else WaitingFor ns')"
    "changes (reader_cache r1) = changes (reader_cache r)" "missing_changes q = ns'"
    "\<forall>n. first_sn hb \<le> n \<and> n \<le> last_sn hb \<longrightarrow> wp_status q n = (if n \<in> set ns' then Some Missing else wp_status p n)"
    using heartbeat_request [OF r flag delay range(1,2) span known] by blast
  have eq: "ns' = ns" using h(6,7) ns by (intro bs_wf_unique) (auto simp: bs_wf_def)
  note b = h(8) [unfolded eq] and ns3 = ns(3) [rule_format]
  have hd: "hd ns \<in> set ns" and last: "last ns \<in> set ns" using ns(2) by auto
  have base: "1 \<le> hd ns" "hd ns \<le> i64_max" using hd ns3 [of "hd ns"] range by linarith+
  have in_range: "\<forall>n \<in> set ns. hd ns \<le> n \<and> n < i64_max" using ns3 range(2) bs_wf_hd_le [OF ns(1)] by fastforce
  have "length ns \<le> 255" using ns3 range(3) by (intro short_list [OF ns(1)]) auto
  then have cnt: "hb_counter w + int (length (rp_cache_state rp)) + int (length ns) < 2 ^ 31" using count by simp
  have "last ns \<le> last_sn hb" "first_sn hb \<le> hd ns" using ns3 hd last by simp_all
  then have valid: "acknack_is_valid a" using h(9) eq range(3) by simp
  have bb: "hd ns = bitmap_base (reader_sn_state a)" using b ns(2) by simp
  from acknack_handled [OF w idle bb base h(5) [unfolded eq] in_range cnt, of now] obtain w1 where
    "handle_acknack now a (r_guid r) w = Inr (w1, None)" "writer_inv w1"
    "\<forall>n \<in> set ns. \<forall>c. (\<forall>e. rp_entry rp n = Some e \<longrightarrow> cfr_is_relevant e) \<longrightarrow>
      get_change (w_guid w) n (writer_cache w) = Some c \<longrightarrow>
      get_change (w_guid w) n (writer_cache w1) = Some c \<and>
      (\<forall>ll l. destination (w_guid w) rp = Some ll \<longrightarrow> l \<in> set ll \<longrightarrow>
        data_sent now (w_guid w) c (r_guid r) l (w_udp_sender w1))" by blast
  then show ?thesis using that h(1-4) valid h(10-13) ns(2) unfolding eq by simp
qed

text \<open>The second half: the requested changes arrive.\<close>

lemma repair_receipt:
  assumes r: "reader_inv r" "unlimited r" "bm_get (matched_writers r) g = Some q" "bm_get (unmatched_writers r) g = None"
    "bm_get (writer_communication_state r) g = Some (WaitingFor (missing_changes q))"
    and some: "missing_changes q \<noteq> []"
    and cs: "mset (map sequence_number cs) = mset (missing_changes q)" "\<forall>c \<in> set cs. comes_from g (reader_cache r) c"
  shows "\<exists>r' q'. receive_all (guid_prefix g) cs r = Inr r' \<and> bm_get (matched_writers r') g = Some q' \<and>
    (\<forall>n. wp_status q' n = (if n \<in> set (missing_changes q) then Some Received else wp_status q n)) \<and>
    missing_changes q' = [] \<and> all_ready r' \<and>
    (\<forall>c \<in> set cs. bm_get (changes (reader_cache r')) (change_key c) = Some c)"
proof -
  have "wp_wf q" using reader_invD(3) [OF r(1,3)] by (simp add: wproxy_ok_iff)
  note m = missing_changes_spec [OF this]
  have d: "distinct (map sequence_number cs)"
    using bs_wf_distinct [OF m(1)] mset_eq_imp_distinct_iff [OF cs(1)] by simp
  have seqs: "sequence_number ` set cs = set (missing_changes q)" using mset_eq_setD [OF cs(1)] by simp
  obtain r' q' where r': "receive_all (guid_prefix g) cs r = Inr r'" "bm_get (matched_writers r') g = Some q'" "wp_wf q'"
    "\<forall>n. wp_status q' n = (if n \<in> sequence_number ` set cs then Some Received else wp_status q n)"
    "\<forall>k. bm_get (changes (reader_cache r')) k =
      (case find (\<lambda>c. change_key c = k) cs of Some c \<Rightarrow> Some c | None \<Rightarrow> bm_get (changes (reader_cache r)) k)"
    "cs \<noteq> [] \<and> filter (\<lambda>n. n \<notin> sequence_number ` set cs) (missing_changes q) = [] \<longrightarrow> all_ready r'"
    using receive_all_ok [OF r cs(2) d] by blast
  have "all_ready r'" using r'(6) some seqs by (auto simp: filter_empty_conv)
  moreover have "n \<notin> set (missing_changes q')" for n
    using missing_changes_spec(2) [OF r'(3), of n] r'(4) m(2) [of n] by (simp add: seqs split: if_splits)
  then have "missing_changes q' = []" by (cases "missing_changes q'") auto
  moreover have "find (\<lambda>c'. change_key c' = change_key c) cs = Some c" if "c \<in> set cs" for c
    using that d by (induction cs) (auto simp: change_key_def image_iff)
  ultimately show ?thesis using r'(1,2,4,5) unfolding seqs by (intro exI [of _ r'] exI [of _ q']) simp
qed



end
