(* ===== verification/Umber_DiscData.thy ===== *)
theory Umber_DiscData
  imports Umber_Proxy Umber_Discovery
begin

text \<open>
  The data of the built-in discovery topics, \<^verbatim>\<open>src/discovery/structure/data.rs\<close>: what a received
  parameter list gives (\<open>SDPBuiltinData\<close>, a field that is absent is \<open>None\<close>) and the participant data
  and endpoint proxies made from it. The keys of type \<^verbatim>\<open>()\<close> carry no information and are left out.
\<close>

section \<open>Received discovery data\<close>

record SDPBuiltinData =
  sdp_domain_id :: "int option"
  sdp_domain_tag :: "string option"
  sdp_protocol_version :: "(u8 \<times> u8) option"
  sdp_guid :: "GUID option"
  sdp_vendor_id :: "u8 list option"
  sdp_expects_inline_qos :: "bool option"
  sdp_available_builtin_endpoint :: "u32 option"
  sdp_metarraffic_unicast_locator_list :: "Locator list"
  sdp_metarraffic_multicast_locator_list :: "Locator list"
  sdp_default_multicast_locator_list :: "Locator list"
  sdp_default_unicast_locator_list :: "Locator list"
  sdp_manual_liveliness_count :: "int option"
  sdp_lease_duration :: "Duration option"
  sdp_remote_guid :: "GUID option"
  sdp_unicast_locator_list :: "Locator list"
  sdp_multicast_locator_list :: "Locator list"
  sdp_data_max_size_serialized :: "int option"
  sdp_type_name :: "string option"
  sdp_topic_name :: "string option"
  sdp_durability :: "Durability option"
  sdp_deadline :: "Deadline option"
  sdp_latency_budget :: "LatencyBudget option"
  sdp_liveliness :: "Liveliness option"
  sdp_reliability :: "Reliability option"
  sdp_user_data :: "UserData option"
  sdp_ownership :: "Ownership option"
  sdp_destination_order :: "DestinationOrder option"
  sdp_history :: "History option"
  sdp_resource_limits :: "ResourceLimits option"
  sdp_transport_priority :: "TransportPriority option"
  sdp_time_based_filter :: "TimeBasedFilter option"
  sdp_presentation :: "Presentation option"
  sdp_partition :: "Partition option"
  sdp_topic_data :: "TopicData option"
  sdp_group_data :: "GroupData option"
  sdp_durability_service :: "DurabilityService option"
  sdp_lifespan :: "Lifespan option"
  sdp_ownership_strength :: "OwnershipStrength option"

text \<open>\<^verbatim>\<open>SDPBuiltinData::default()\<close>.\<close>

definition sdp_default :: SDPBuiltinData where
  "sdp_default = \<lparr>sdp_domain_id = None, sdp_domain_tag = None, sdp_protocol_version = None, sdp_guid = None,
     sdp_vendor_id = None, sdp_expects_inline_qos = None, sdp_available_builtin_endpoint = None,
     sdp_metarraffic_unicast_locator_list = [], sdp_metarraffic_multicast_locator_list = [],
     sdp_default_multicast_locator_list = [], sdp_default_unicast_locator_list = [],
     sdp_manual_liveliness_count = None, sdp_lease_duration = None, sdp_remote_guid = None,
     sdp_unicast_locator_list = [], sdp_multicast_locator_list = [], sdp_data_max_size_serialized = None,
     sdp_type_name = None, sdp_topic_name = None, sdp_durability = None, sdp_deadline = None,
     sdp_latency_budget = None, sdp_liveliness = None, sdp_reliability = None, sdp_user_data = None,
     sdp_ownership = None, sdp_destination_order = None, sdp_history = None, sdp_resource_limits = None,
     sdp_transport_priority = None, sdp_time_based_filter = None, sdp_presentation = None,
     sdp_partition = None, sdp_topic_data = None, sdp_group_data = None, sdp_durability_service = None,
     sdp_lifespan = None, sdp_ownership_strength = None\<rparr>"

section \<open>Topic data of announced endpoints\<close>

record SubscriptionBuiltinTopicData =
  sb_topic_name :: "string option"
  sb_type_name :: "string option"
  sb_durability :: "Durability option"
  sb_deadline :: "Deadline option"
  sb_latency_budget :: "LatencyBudget option"
  sb_liveliness :: "Liveliness option"
  sb_reliability :: "Reliability option"
  sb_ownership :: "Ownership option"
  sb_destination_order :: "DestinationOrder option"
  sb_user_data :: "UserData option"
  sb_time_based_filter :: "TimeBasedFilter option"
  sb_presentation :: "Presentation option"
  sb_partition :: "Partition option"
  sb_topic_data :: "TopicData option"
  sb_group_data :: "GroupData option"
  sb_durability_service :: "DurabilityService option"
  sb_lifespan :: "Lifespan option"

record PublicationBuiltinTopicData =
  pb_topic_name :: "string option"
  pb_type_name :: "string option"
  pb_durability :: "Durability option"
  pb_durability_service :: "DurabilityService option"
  pb_deadline :: "Deadline option"
  pb_latency_budget :: "LatencyBudget option"
  pb_liveliness :: "Liveliness option"
  pb_reliability :: "Reliability option"
  pb_lifespan :: "Lifespan option"
  pb_user_data :: "UserData option"
  pb_time_based_filter :: "TimeBasedFilter option"
  pb_ownership :: "Ownership option"
  pb_ownership_strength :: "OwnershipStrength option"
  pb_destination_order :: "DestinationOrder option"
  pb_presentation :: "Presentation option"
  pb_partition :: "Partition option"
  pb_topic_data :: "TopicData option"
  pb_group_data :: "GroupData option"

section \<open>Participants and proxies\<close>

definition or_default :: "'a option \<Rightarrow> 'a \<Rightarrow> 'a" where
  "or_default v d = (case v of Some x \<Rightarrow> x | None \<Rightarrow> d)"

definition gen_spdp_discoverd_participant_data :: "SDPBuiltinData \<Rightarrow> SPDPdiscoveredParticipantData option" where
  "gen_spdp_discoverd_participant_data s =
     Option.bind (sdp_domain_id s) (\<lambda>dom.
     Option.bind (sdp_protocol_version s) (\<lambda>pv.
     Option.bind (sdp_guid s) (\<lambda>guid.
     Option.bind (sdp_vendor_id s) (\<lambda>vid.
     Option.bind (sdp_available_builtin_endpoint s) (\<lambda>abe.
       Some \<lparr>spdp_domain_id = dom, domain_tag = or_default (sdp_domain_tag s) [],
         spdp_protocol_version = pv, spdp_guid = guid, spdp_vendor_id = vid,
         spdp_expects_inline_qos = or_default (sdp_expects_inline_qos s) False,
         available_builtin_endpoint = abe,
         metarraffic_unicast_locator_list = sdp_metarraffic_unicast_locator_list s,
         metarraffic_multicast_locator_list = sdp_metarraffic_multicast_locator_list s,
         spdp_default_multicast_locator_list = sdp_default_multicast_locator_list s,
         spdp_default_unicast_locator_list = sdp_default_unicast_locator_list s,
         manual_liveliness_count = sdp_manual_liveliness_count s,
         spdp_lease_duration = or_default (sdp_lease_duration s) \<lparr>dur_seconds = 100, dur_fraction = 0\<rparr>\<rparr>)))))"

definition topic_info :: "SDPBuiltinData \<Rightarrow> (string \<times> string) option" where
  "topic_info s =
     (case sdp_topic_name s of
        None \<Rightarrow> None
      | Some name \<Rightarrow> (case sdp_type_name s of None \<Rightarrow> None | Some data_type \<Rightarrow> Some (name, data_type)))"

text \<open>
  The QoS of a remote endpoint: what its announcement leaves out has the default value, best effort for
  a reader and reliable for a writer.
\<close>

definition sdp_reader_qos :: "SDPBuiltinData \<Rightarrow> DataReaderQosPolicies" where
  "sdp_reader_qos s = datareader_build (DataReaderQosBuilder_new
     \<lparr>rb_durability := Some (or_default (sdp_durability s) default_durability),
      rb_deadline := Some (or_default (sdp_deadline s) default_deadline),
      rb_latency_budget := Some (or_default (sdp_latency_budget s) default_latency_budget),
      rb_liveliness := Some (or_default (sdp_liveliness s) default_liveliness),
      rb_reliability := Some (or_default (sdp_reliability s) default_besteffort),
      rb_destination_order := Some (or_default (sdp_destination_order s) default_destination_order),
      rb_history := Some (or_default (sdp_history s) default_history),
      rb_resource_limits := Some (or_default (sdp_resource_limits s) default_resource_limits),
      rb_user_data := Some (or_default (sdp_user_data s) default_user_data),
      rb_ownership := Some (or_default (sdp_ownership s) default_ownership),
      rb_time_based_filter := Some (or_default (sdp_time_based_filter s) default_time_based_filter)\<rparr>)"

definition sdp_writer_qos :: "SDPBuiltinData \<Rightarrow> DataWriterQosPolicies" where
  "sdp_writer_qos s = datawriter_build (DataWriterQosBuilder_new
     \<lparr>wb_durability := Some (or_default (sdp_durability s) default_durability),
      wb_durability_service := Some (or_default (sdp_durability_service s) default_durability_service),
      wb_deadline := Some (or_default (sdp_deadline s) default_deadline),
      wb_latency_budget := Some (or_default (sdp_latency_budget s) default_latency_budget),
      wb_liveliness := Some (or_default (sdp_liveliness s) default_liveliness),
      wb_reliability := Some (or_default (sdp_reliability s) default_reliable),
      wb_destination_order := Some (or_default (sdp_destination_order s) default_destination_order),
      wb_history := Some (or_default (sdp_history s) default_history),
      wb_resource_limits := Some (or_default (sdp_resource_limits s) default_resource_limits),
      wb_transport_priority := Some (or_default (sdp_transport_priority s) default_transport_priority),
      wb_user_data := Some (or_default (sdp_user_data s) default_user_data),
      wb_ownership := Some (or_default (sdp_ownership s) default_ownership),
      wb_ownership_strength := Some (or_default (sdp_ownership_strength s) default_ownership_strength),
      wb_lifespan := Some (or_default (sdp_lifespan s) default_lifespan)\<rparr>)"

definition gen_readerpoxy :: "HistoryCache \<Rightarrow> Locator list \<Rightarrow> Locator list \<Rightarrow> SDPBuiltinData
    \<Rightarrow> ReaderProxy option res" where
  "gen_readerpoxy hc duni dmulti s =
     (case sdp_remote_guid s of
        None \<Rightarrow> Inr None
      | Some guid \<Rightarrow>
          rbind (ReaderProxy_new guid (or_default (sdp_expects_inline_qos s) False) (sdp_unicast_locator_list s)
                   (sdp_multicast_locator_list s) duni dmulti (sdp_reader_qos s) hc True)
            (\<lambda>p. Inr (Some p)))"

definition gen_writerproxy :: "Locator list \<Rightarrow> Locator list \<Rightarrow> SDPBuiltinData \<Rightarrow> WriterProxy option res" where
  "gen_writerproxy duni dmulti s =
     (case sdp_remote_guid s of
        None \<Rightarrow> Inr None
      | Some guid \<Rightarrow>
          rbind (WriterProxy_new guid (sdp_unicast_locator_list s) (sdp_multicast_locator_list s) duni dmulti
                   (or_default (sdp_data_max_size_serialized s) 0) (sdp_writer_qos s))
            (\<lambda>p. Inr (Some p)))"

end
