(* ===== verification/Umber_Receiver.thy ===== *)
theory Umber_Receiver
  imports Umber_WriterNack Umber_DataReader Umber_DiscData
begin

text \<open>
  The message receiver: \<^verbatim>\<open>src/message/message_receiver.rs\<close>. It dispatches the submessages of a packet to
  the writers and readers of the participant and to the discovery data base.

  The state is the receiver together with the maps of writers and readers that the event loop lends
  it. A handler returns \<open>Inl\<close> of a \<open>MessageError\<close> for \<^verbatim>\<open>Err\<close>; the texts of the errors, which are only
  logged, are left out. The decoders of the wire format are the fields of \<open>Wire\<close>, and \<open>now\<close> is the clock.
\<close>

section \<open>State\<close>

datatype MessageError = MsgError | MsgWarn

record MessageReceiver =
  domain_id :: int
  own_guid_prefix :: GuidPrefix
  source_version :: "u8 \<times> u8"
  source_vendor_id :: "u8 list"
  source_guid_prefix :: GuidPrefix
  dest_guid_prefix :: GuidPrefix
  unicast_reply_locator_list :: "Locator list"
  multicast_reply_locator_list :: "Locator list"
  wlp_timer_sender :: "EntityId list"
  have_timestamp :: bool
  mr_timestamp :: Timestamp
  spdp_data :: SerializedPayload
  disc_db :: DiscoveryDB

record Wire =
  read_message :: "u8 list \<Rightarrow> Message option res"
  read_sdp :: "Endianness \<Rightarrow> u8 list \<Rightarrow> SDPBuiltinData option res"
  read_participant_message :: "Endianness \<Rightarrow> u8 list \<Rightarrow> ParticipantMessageData option res"

record RecvState =
  mr :: MessageReceiver
  ws :: "(EntityId, Writer) btree_map"
  rs :: "(EntityId, Reader) btree_map"

type_synonym 'a handled = "(RecvState \<times> (MessageError + 'a)) res"

definition MessageReceiver_new :: "GuidPrefix \<Rightarrow> int \<Rightarrow> DiscoveryDB \<Rightarrow> SerializedPayload \<Rightarrow> MessageReceiver" where
  "MessageReceiver_new prefix dom_id db payload =
     \<lparr>domain_id = dom_id, own_guid_prefix = prefix, source_version = PROTOCOLVERSION,
      source_vendor_id = [0, 0], source_guid_prefix = prefix_UNKNOW, dest_guid_prefix = prefix_UNKNOW,
      unicast_reply_locator_list = [Locator_INVALID], multicast_reply_locator_list = [Locator_INVALID],
      wlp_timer_sender = [], have_timestamp = False, mr_timestamp = TIME_INVALID, spdp_data = payload,
      disc_db = db\<rparr>"

definition reset :: "MessageReceiver \<Rightarrow> MessageReceiver" where
  "reset m = m\<lparr>source_version := PROTOCOLVERSION, source_vendor_id := [0, 0],
     source_guid_prefix := prefix_UNKNOW, dest_guid_prefix := prefix_UNKNOW,
     unicast_reply_locator_list := [], multicast_reply_locator_list := [], have_timestamp := False,
     mr_timestamp := TIME_INVALID\<rparr>"

definition on_db :: "(DiscoveryDB \<Rightarrow> DiscoveryDB) \<Rightarrow> RecvState \<Rightarrow> RecvState" where
  "on_db f s = s\<lparr>mr := (mr s)\<lparr>disc_db := f (disc_db (mr s))\<rparr>\<rparr>"

definition put_reader :: "EntityId \<Rightarrow> Reader \<Rightarrow> RecvState \<Rightarrow> RecvState" where
  "put_reader eid r s = s\<lparr>rs := bm_adjust eid (\<lambda>_. r) (rs s)\<rparr>"

definition put_writer :: "EntityId \<Rightarrow> Writer \<Rightarrow> RecvState \<Rightarrow> RecvState" where
  "put_writer eid w s = s\<lparr>ws := bm_adjust eid (\<lambda>_. w) (ws s)\<rparr>"

definition own_message :: "RecvState \<Rightarrow> bool" where
  "own_message s \<longleftrightarrow>
     source_guid_prefix (mr s) = own_guid_prefix (mr s) \<and> dest_guid_prefix (mr s) \<noteq> prefix_UNKNOW"

section \<open>Interpreter submessages\<close>

definition set_reply :: "Locator list \<Rightarrow> Locator list option \<Rightarrow> bool \<Rightarrow> MessageReceiver
    \<Rightarrow> MessageReceiver \<times> (MessageError + unit)" where
  "set_reply uni multi flag m =
     (let m1 = m\<lparr>unicast_reply_locator_list := uni\<rparr> in
      if flag then
        (case multi of
           Some ll \<Rightarrow> (m1\<lparr>multicast_reply_locator_list := ll\<rparr>, Inr ())
         | None \<Rightarrow> (m1, Inl MsgWarn))
      else (m1\<lparr>multicast_reply_locator_list := []\<rparr>, Inr ()))"

fun handle_interpreter_submessage :: "InterpreterSubmessage \<Rightarrow> MessageReceiver
    \<Rightarrow> MessageReceiver \<times> (MessageError + unit)" where
  "handle_interpreter_submessage (IS_InfoReply ir flags) m =
     set_reply (ir_unicast_locator_list ir) (ir_multicast_locator_list ir)
       (flag_contains flags InfoReplyFlag_Multicast) m"
| "handle_interpreter_submessage (IS_InfoReplyIp4 ir flags) m =
     set_reply (ir_unicast_locator_list ir) (ir_multicast_locator_list ir)
       (flag_contains flags InfoReplyIp4Flag_Multicast) m"
| "handle_interpreter_submessage (IS_InfoTimestamp ts flags) m =
     (if \<not> flag_contains flags InfoTimestampFlag_Invalidate then
        (case ts of
           Some t \<Rightarrow> (m\<lparr>have_timestamp := True, mr_timestamp := t\<rparr>, Inr ())
         | None \<Rightarrow> (m\<lparr>have_timestamp := True\<rparr>, Inl MsgWarn))
      else (m\<lparr>have_timestamp := False\<rparr>, Inr ()))"
| "handle_interpreter_submessage (IS_InfoSource is flags) m =
     (m\<lparr>source_guid_prefix := is_guid_prefix is, source_version := is_protocol_version is,
        source_vendor_id := is_vendor_id is, unicast_reply_locator_list := [],
        multicast_reply_locator_list := [], have_timestamp := False\<rparr>, Inr ())"
| "handle_interpreter_submessage (IS_InfoDestination prefix flags) m =
     (m\<lparr>dest_guid_prefix := prefix\<rparr>, Inr ())"

section \<open>Acknowledgements\<close>

text \<open>The timer that the writer asks for is dropped by the caller.\<close>

definition handle_acknack_submsg :: "Timestamp option \<Rightarrow> AckNack \<Rightarrow> RecvState \<Rightarrow> unit handled" where
  "handle_acknack_submsg now a s =
     (if own_message s then Inr (s, Inr ())
      else if bitmap_base (reader_sn_state a) = 0 \<and> num_bits (reader_sn_state a) = 0 then Inr (s, Inr ())
      else if \<not> acknack_is_valid a then Inr (s, Inl MsgWarn)
      else
        (case bm_get (ws s) (an_writer_id a) of
           None \<Rightarrow> Inr (s, Inr ())
         | Some w \<Rightarrow>
             rbind (handle_acknack now a (GUID (source_guid_prefix (mr s)) (an_reader_id a)) w)
               (\<lambda>(w', wt). Inr (put_writer (an_writer_id a) w' s, Inr ()))))"

section \<open>Gaps and heartbeats\<close>

definition deliver_gap :: "GUID \<Rightarrow> Gap \<Rightarrow> EntityId \<Rightarrow> RecvState \<Rightarrow> RecvState res" where
  "deliver_gap wg gap eid s =
     (case bm_get (rs s) eid of
        None \<Rightarrow> Inr s
      | Some r \<Rightarrow> rbind (handle_gap wg gap r) (\<lambda>r'. Inr (put_reader eid r' s)))"

definition knows :: "GUID \<Rightarrow> RecvState \<Rightarrow> EntityId \<Rightarrow> bool" where
  "knows wg s eid = (case bm_get (rs s) eid of Some r \<Rightarrow> is_contain_writer wg r | None \<Rightarrow> False)"

definition handle_gap_submsg :: "Gap \<Rightarrow> u8 \<Rightarrow> RecvState \<Rightarrow> unit handled" where
  "handle_gap_submsg gap flag s =
     (if own_message s then Inr (s, Inr ())
      else
        let wg = GUID (source_guid_prefix (mr s)) (gap_writer_id gap) in
        rbind (gap_is_valid flag gap) (\<lambda>valid.
          if \<not> valid then Inr (s, Inl MsgWarn)
          else if gap_reader_id gap = eid_UNKNOW then
            rbind (rfold (\<lambda>eid s. if knows wg s eid then deliver_gap wg gap eid s else Inr s) (bm_keys (rs s)) s)
              (\<lambda>s'. Inr (s', Inr ()))
          else rbind (deliver_gap wg gap (gap_reader_id gap) s) (\<lambda>s'. Inr (s', Inr ()))))"

definition deliver_heartbeat :: "Timestamp \<Rightarrow> GUID \<Rightarrow> u8 \<Rightarrow> Heartbeat \<Rightarrow> EntityId \<Rightarrow> Reader \<Rightarrow> RecvState
    \<Rightarrow> RecvState res" where
  "deliver_heartbeat ts wg flag hb eid r s =
     rbind (handle_heartbeat wg flag hb r) (\<lambda>(r', rt).
       let s' = put_reader eid r' s in
       if flag_contains flag HeartbeatFlag_Liveliness then
         rbind (get_matched_writer_qos wg r') (\<lambda>qos.
           Inr (on_db (write_remote_writer wg ts (liveliness_kind (fst (dw_liveliness qos)))) s'))
       else Inr s')"

text \<open>One reader; what happens when it does not exist depends on the branch.\<close>

definition heartbeat_to :: "Timestamp \<Rightarrow> GUID \<Rightarrow> u8 \<Rightarrow> Heartbeat \<Rightarrow> RecvState res \<Rightarrow> EntityId \<Rightarrow> RecvState
    \<Rightarrow> RecvState res" where
  "heartbeat_to ts wg flag hb absent eid s =
     (case bm_get (rs s) eid of
        Some r \<Rightarrow> deliver_heartbeat ts wg flag hb eid r s
      | None \<Rightarrow> absent)"

definition heartbeat_if_known :: "Timestamp \<Rightarrow> GUID \<Rightarrow> u8 \<Rightarrow> Heartbeat \<Rightarrow> EntityId \<Rightarrow> RecvState \<Rightarrow> RecvState res" where
  "heartbeat_if_known ts wg flag hb eid s =
     (if knows wg s eid then heartbeat_to ts wg flag hb (Inr s) eid s else Inr s)"

definition handle_heartbeat_submsg :: "Timestamp option \<Rightarrow> Heartbeat \<Rightarrow> u8 \<Rightarrow> RecvState \<Rightarrow> unit handled" where
  "handle_heartbeat_submsg now hb flag s =
     (if own_message s then Inr (s, Inr ())
      else
        let wg = GUID (source_guid_prefix (mr s)) (hb_writer_id hb) in
        rbind (heartbeat_is_valid flag hb) (\<lambda>valid.
          if \<not> valid then Inr (s, Inl MsgWarn)
          else
            rbind (unwrap now) (\<lambda>ts.
            rbind
              (if hb_reader_id hb = eid_UNKNOW then
                 if hb_writer_id hb = SEDP_BUILTIN_PUBLICATIONS_ANNOUNCER
                 then heartbeat_to ts wg flag hb (Inl Unreachable) SEDP_BUILTIN_PUBLICATIONS_DETECTOR s
                 else if hb_writer_id hb = SEDP_BUILTIN_SUBSCRIPTIONS_ANNOUNCER
                 then heartbeat_to ts wg flag hb (Inl Unreachable) SEDP_BUILTIN_SUBSCRIPTIONS_DETECTOR s
                 else rfold (heartbeat_if_known ts wg flag hb) (bm_keys (rs s)) s
               else heartbeat_to ts wg flag hb (Inr s) (hb_reader_id hb) s)
              (\<lambda>s'. Inr (s', Inr ())))))"

section \<open>Discovery of participants\<close>

definition PUBLICATIONS_ANNOUNCER_bit :: u32 where "PUBLICATIONS_ANNOUNCER_bit = push_bit 2 1"
definition PUBLICATIONS_DETECTOR_bit :: u32 where "PUBLICATIONS_DETECTOR_bit = push_bit 3 1"
definition SUBSCRIPTIONS_ANNOUNCER_bit :: u32 where "SUBSCRIPTIONS_ANNOUNCER_bit = push_bit 4 1"
definition SUBSCRIPTIONS_DETECTOR_bit :: u32 where "SUBSCRIPTIONS_DETECTOR_bit = push_bit 5 1"
definition PARTICIPANT_MESSAGE_DATA_WRITER_bit :: u32 where "PARTICIPANT_MESSAGE_DATA_WRITER_bit = push_bit 10 1"
definition PARTICIPANT_MESSAGE_DATA_READER_bit :: u32 where "PARTICIPANT_MESSAGE_DATA_READER_bit = push_bit 11 1"

definition endpoint_contains :: "u32 \<Rightarrow> u32 \<Rightarrow> bool" where
  "endpoint_contains set_bits b \<longleftrightarrow> set_bits AND b = b"

text \<open>
  The two kinds of block of \<^verbatim>\<open>handle_participant_discovery\<close>: a remote built-in reader is matched to a
  local built-in writer, a remote built-in writer to a local built-in reader.
\<close>

definition match_remote_reader :: "u32 \<Rightarrow> EntityId \<Rightarrow> EntityId \<Rightarrow> DataReaderQosPolicies
    \<Rightarrow> SPDPdiscoveredParticipantData \<Rightarrow> RecvState \<Rightarrow> RecvState res" where
  "match_remote_reader b remote local qos d s =
     (if endpoint_contains (available_builtin_endpoint d) b then
        (case bm_get (ws s) local of
           Some w \<Rightarrow>
             rbind (matched_reader_add (GUID (guid_prefix (spdp_guid d)) remote) (spdp_expects_inline_qos d)
                      (metarraffic_unicast_locator_list d) (metarraffic_multicast_locator_list d) qos w)
               (\<lambda>w'. Inr (put_writer local w' s))
         | None \<Rightarrow> Inr s)
      else Inr s)"

definition match_remote_writer :: "u32 \<Rightarrow> EntityId \<Rightarrow> EntityId \<Rightarrow> DataWriterQosPolicies
    \<Rightarrow> SPDPdiscoveredParticipantData \<Rightarrow> RecvState \<Rightarrow> RecvState res" where
  "match_remote_writer b remote local qos d s =
     (if endpoint_contains (available_builtin_endpoint d) b then
        (case bm_get (rs s) local of
           Some r \<Rightarrow>
             rbind (matched_writer_add (GUID (guid_prefix (spdp_guid d)) remote)
                      (metarraffic_unicast_locator_list d) (metarraffic_multicast_locator_list d) 0 qos r)
               (\<lambda>r'. Inr (put_reader local r' s))
         | None \<Rightarrow> Inr s)
      else Inr s)"

definition remote_reader_qos :: "Reliability \<Rightarrow> DataReaderQosBuilder \<Rightarrow> DataReaderQosPolicies" where
  "remote_reader_qos rel b =
     datareader_build (b\<lparr>rb_reliability := Some rel, rb_durability := Some TransientLocal\<rparr>)"

definition remote_writer_qos :: "DataWriterQosBuilder \<Rightarrow> DataWriterQosPolicies" where
  "remote_writer_qos b =
     datawriter_build (b\<lparr>wb_reliability := Some default_reliable, wb_durability := Some TransientLocal\<rparr>)"

definition keep_one :: History where
  "keep_one = \<lparr>history_kind = KeepLast, history_depth = 1\<rparr>"

definition handle_participant_discovery :: "SPDPdiscoveredParticipantData \<Rightarrow> RecvState \<Rightarrow> RecvState res" where
  "handle_participant_discovery d s =
     (if spdp_domain_id d \<noteq> domain_id (mr s) then Inr s
      else
        rbind (match_remote_reader PUBLICATIONS_DETECTOR_bit SEDP_BUILTIN_PUBLICATIONS_DETECTOR
                 SEDP_BUILTIN_PUBLICATIONS_ANNOUNCER
                 (remote_reader_qos default_besteffort DataReaderQosBuilder_new) d s) (\<lambda>s1.
        rbind (match_remote_writer PUBLICATIONS_ANNOUNCER_bit SEDP_BUILTIN_PUBLICATIONS_ANNOUNCER
                 SEDP_BUILTIN_PUBLICATIONS_DETECTOR (remote_writer_qos DataWriterQosBuilder_new) d s1) (\<lambda>s2.
        rbind (match_remote_reader SUBSCRIPTIONS_DETECTOR_bit SEDP_BUILTIN_SUBSCRIPTIONS_DETECTOR
                 SEDP_BUILTIN_SUBSCRIPTIONS_ANNOUNCER
                 (remote_reader_qos default_reliable DataReaderQosBuilder_new) d s2) (\<lambda>s3.
        rbind (match_remote_writer SUBSCRIPTIONS_ANNOUNCER_bit SEDP_BUILTIN_SUBSCRIPTIONS_ANNOUNCER
                 SEDP_BUILTIN_SUBSCRIPTIONS_DETECTOR (remote_writer_qos DataWriterQosBuilder_new) d s3) (\<lambda>s4.
        rbind (match_remote_reader PARTICIPANT_MESSAGE_DATA_READER_bit P2P_BUILTIN_PARTICIPANT_MESSAGE_READER
                 P2P_BUILTIN_PARTICIPANT_MESSAGE_WRITER (remote_reader_qos default_reliable
                   (DataReaderQosBuilder_new\<lparr>rb_history := Some keep_one\<rparr>)) d s4) (\<lambda>s5.
          match_remote_writer PARTICIPANT_MESSAGE_DATA_WRITER_bit P2P_BUILTIN_PARTICIPANT_MESSAGE_WRITER
            P2P_BUILTIN_PARTICIPANT_MESSAGE_READER
            (remote_writer_qos (DataWriterQosBuilder_new\<lparr>wb_history := Some keep_one\<rparr>)) d s5))))))"

text \<open>The encapsulation of a built-in payload: anything but the four CDR kinds panics.\<close>

definition payload_endianness :: "SerializedPayload \<Rightarrow> Endianness res" where
  "payload_endianness d =
     (let bytes = payload_to_bytes d; kd = RepresentationIdentifier (bytes ! 0, bytes ! 1)
      in if kd = CDR_LE then Inr LittleEndian
         else if kd = CDR_BE then Inr BigEndian
         else if kd = PL_CDR_LE then Inr LittleEndian
         else if kd = PL_CDR_BE then Inr BigEndian
         else Inl ExplicitPanic)"

text \<open>What the four handlers of built-in data begin with: no payload and undecodable bytes are errors.\<close>

definition decode_payload :: "(Endianness \<Rightarrow> u8 list \<Rightarrow> 'a option res) \<Rightarrow> Data \<Rightarrow> (MessageError + 'a) res" where
  "decode_payload dec data =
     (case serialized_payload data of
        None \<Rightarrow> Inr (Inl MsgWarn)
      | Some sp \<Rightarrow>
          rbind (payload_endianness sp) (\<lambda>e.
          rbind (dec e (drop 4 (payload_to_bytes sp))) (\<lambda>x.
            case x of Some v \<Rightarrow> Inr (Inr v) | None \<Rightarrow> Inr (Inl MsgError))))"

definition spdp_reply_locators :: "SPDPdiscoveredParticipantData \<Rightarrow> Locator list res" where
  "spdp_reply_locators d =
     (if metarraffic_unicast_locator_list d \<noteq> [] then Inr (metarraffic_unicast_locator_list d)
      else if spdp_default_unicast_locator_list d \<noteq> [] then Inr (spdp_default_unicast_locator_list d)
      else new_list_from_multi_ipv4 7400 [[239, 255, 0, 1]])"

text \<open>A participant that was not known is answered with the own data, sent directly to it.\<close>

definition spdp_reply :: "Timestamp option \<Rightarrow> SPDPdiscoveredParticipantData \<Rightarrow> RecvState \<Rightarrow> RecvState res" where
  "spdp_reply now d s =
     rbind (spdp_reply_locators d) (\<lambda>ll.
       case bm_get (ws s) SPDP_BUILTIN_PARTICIPANT_ANNOUNCER of
         Some w \<Rightarrow>
           rbind (send_builtin_data_for_loc now (spdp_data (mr s)) ll w)
             (\<lambda>w'. Inr (put_writer SPDP_BUILTIN_PARTICIPANT_ANNOUNCER w' s))
       | None \<Rightarrow> Inr s)"

definition handle_spdp_data :: "Wire \<Rightarrow> Timestamp option \<Rightarrow> Data \<Rightarrow> RecvState \<Rightarrow> unit handled" where
  "handle_spdp_data wr now data s =
     rbind (decode_payload (read_sdp wr) data) (\<lambda>x.
       case x of
         Inl e \<Rightarrow> Inr (s, Inl e)
       | Inr sdp \<Rightarrow>
           (case gen_spdp_discoverd_participant_data sdp of
              None \<Rightarrow> Inr (s, Inl MsgWarn)
            | Some d \<Rightarrow>
                if domain_id (mr s) \<noteq> spdp_domain_id d then Inr (s, Inl MsgWarn)
                else
                  let p = write_participant (guid_prefix (spdp_guid d)) (or_default now TIME_INVALID) d (disc_db (mr s));
                      s1 = on_db (\<lambda>_. fst p) s
                  in rbind (if snd p then Inr s1 else spdp_reply now d s1) (\<lambda>s2.
                     rbind (handle_participant_discovery d s2) (\<lambda>s3. Inr (s3, Inr ())))))"

section \<open>Discovery of endpoints\<close>

text \<open>
  The loop over the readers that may match a remote writer. A reader whose topic has the other kind ends
  the whole handler: the second component is \<open>False\<close>.
\<close>

fun match_readers :: "WriterProxy \<Rightarrow> string \<Rightarrow> string \<Rightarrow> EntityId list \<Rightarrow> RecvState \<Rightarrow> (RecvState \<times> bool) res" where
  "match_readers wp topic data_type [] s = Inr (s, True)"
| "match_readers wp topic data_type (eid # eids) s =
     (case bm_get (rs s) eid of
        None \<Rightarrow> match_readers wp topic data_type eids s
      | Some r \<Rightarrow>
          if is_writer_match topic data_type r then
            if (case eid_topic_kind (entity_id (remote_writer_guid wp)) of
                  Some tk \<Rightarrow> r_topic_kind r \<noteq> tk | None \<Rightarrow> False)
            then Inr (s, False)
            else
              rbind (matched_writer_add_with_default_locator (remote_writer_guid wp)
                       (wp_unicast_locator_list wp) (wp_multicast_locator_list wp)
                       (wp_default_unicast_locator_list wp) (wp_default_multicast_locator_list wp)
                       (data_max_size_serialized wp) (wp_qos wp) r) (\<lambda>(r', rt).
                let s1 = put_reader eid r' s
                in match_readers wp topic data_type eids
                     (s1\<lparr>mr := (mr s1)\<lparr>wlp_timer_sender := wlp_timer_sender (mr s1) @ [eid]\<rparr>\<rparr>))
          else match_readers wp topic data_type eids s)"

fun match_writers :: "ReaderProxy \<Rightarrow> string \<Rightarrow> string \<Rightarrow> EntityId list \<Rightarrow> RecvState \<Rightarrow> (RecvState \<times> bool) res" where
  "match_writers rp topic data_type [] s = Inr (s, True)"
| "match_writers rp topic data_type (eid # eids) s =
     (case bm_get (ws s) eid of
        None \<Rightarrow> match_writers rp topic data_type eids s
      | Some w \<Rightarrow>
          if is_reader_match topic data_type w then
            if (case eid_topic_kind (entity_id (remote_reader_guid rp)) of
                  Some tk \<Rightarrow> w_topic_kind w \<noteq> tk | None \<Rightarrow> False)
            then Inr (s, False)
            else
              rbind (matched_reader_add_with_default_locator (remote_reader_guid rp)
                       (expects_inline_qos rp) (rp_unicast_locator_list rp) (rp_multicast_locator_list rp)
                       (rp_default_unicast_locator_list rp) (rp_default_multicast_locator_list rp)
                       (rp_qos rp) w) (\<lambda>w'. match_writers rp topic data_type eids (put_writer eid w' s))
          else match_writers rp topic data_type eids s)"

text \<open>The end of the handlers of built-in data: the change goes to the built-in reader.\<close>

definition add_to_builtin :: "EntityId \<Rightarrow> CacheChange \<Rightarrow> RecvState \<Rightarrow> unit handled" where
  "add_to_builtin eid change s =
     (case bm_get (rs s) eid of
        None \<Rightarrow> Inr (s, Inl MsgError)
      | Some r \<Rightarrow>
          rbind (reader_add_change (source_guid_prefix (mr s)) change r)
            (\<lambda>(r', rt). Inr (put_reader eid r' s, Inr ())))"

definition handle_sedp_w_data :: "Wire \<Rightarrow> Data \<Rightarrow> CacheChange \<Rightarrow> Timestamp \<Rightarrow> RecvState \<Rightarrow> unit handled" where
  "handle_sedp_w_data wr data change ts s =
     rbind (decode_payload (read_sdp wr) data) (\<lambda>x.
       case x of
         Inl e \<Rightarrow> Inr (s, Inl e)
       | Inr sdp \<Rightarrow>
           (case read_participant_data (source_guid_prefix (mr s)) (disc_db (mr s)) of
              None \<Rightarrow> Inr (s, Inl MsgWarn)
            | Some pd \<Rightarrow>
                rbind (gen_writerproxy (spdp_default_unicast_locator_list pd)
                         (spdp_default_multicast_locator_list pd) sdp) (\<lambda>p.
                  case p of
                    None \<Rightarrow> Inr (s, Inl MsgWarn)
                  | Some wp \<Rightarrow>
                      (case topic_info sdp of
                         None \<Rightarrow> Inr (s, Inl MsgWarn)
                       | Some (topic, data_type) \<Rightarrow>
                           let s1 = on_db (write_remote_writer (remote_writer_guid wp) ts
                                      (liveliness_kind (fst (dw_liveliness (wp_qos wp))))) s
                           in rbind (match_readers wp topic data_type (bm_keys (rs s1)) s1) (\<lambda>(s2, all).
                                if all then add_to_builtin SEDP_BUILTIN_PUBLICATIONS_DETECTOR change s2
                                else Inr (s2, Inr ()))))))"

definition handle_sedp_r_data :: "Wire \<Rightarrow> Data \<Rightarrow> CacheChange \<Rightarrow> RecvState \<Rightarrow> unit handled" where
  "handle_sedp_r_data wr data change s =
     rbind (decode_payload (read_sdp wr) data) (\<lambda>x.
       case x of
         Inl e \<Rightarrow> Inr (s, Inl e)
       | Inr sdp \<Rightarrow>
           (case read_participant_data (source_guid_prefix (mr s)) (disc_db (mr s)) of
              None \<Rightarrow> Inr (s, Inl MsgWarn)
            | Some pd \<Rightarrow>
                rbind (gen_readerpoxy (HistoryCache_new HCDummy) (spdp_default_unicast_locator_list pd)
                         (spdp_default_multicast_locator_list pd) sdp) (\<lambda>p.
                  case p of
                    None \<Rightarrow> Inr (s, Inl MsgWarn)
                  | Some rp \<Rightarrow>
                      (case topic_info sdp of
                         None \<Rightarrow> Inr (s, Inl MsgWarn)
                       | Some (topic, data_type) \<Rightarrow>
                           rbind (match_writers rp topic data_type (bm_keys (ws s)) s) (\<lambda>(s1, all).
                             if all then add_to_builtin SEDP_BUILTIN_SUBSCRIPTIONS_DETECTOR change s1
                             else Inr (s1, Inr ()))))))"

definition handle_participant_message :: "Wire \<Rightarrow> Data \<Rightarrow> CacheChange \<Rightarrow> Timestamp \<Rightarrow> RecvState \<Rightarrow> unit handled" where
  "handle_participant_message wr data change ts s =
     rbind (decode_payload (read_participant_message wr) data) (\<lambda>x.
       case x of
         Inl e \<Rightarrow> Inr (s, Inl e)
       | Inr pm \<Rightarrow>
           if read_participant_data (source_guid_prefix (mr s)) (disc_db (mr s)) = None
           then Inr (s, Inl MsgWarn)
           else
             let update = (\<lambda>kd. on_db (update_liveliness_with_guid_prefix_with_kind (pmd_guid_prefix pm) ts kd) s);
                 s1 = (if pmd_kind pm = AUTOMATIC_LIVELINESS_UPDATE then update Automatic
                       else if pmd_kind pm = MANUAL_LIVELINESS_UPDATE then update ManualByParticipant
                       else s)
             in add_to_builtin P2P_BUILTIN_PARTICIPANT_MESSAGE_READER change s1)"

section \<open>Data and dispatch\<close>

definition some_list :: "'a list \<Rightarrow> 'a list option" where
  "some_list xs = (if xs = [] then None else Some xs)"

definition no_timers :: "unit handled \<Rightarrow> ReaderTimer list option handled" where
  "no_timers x = rbind x (\<lambda>(s, res). Inr (s, case res of Inl e \<Rightarrow> Inl e | Inr _ \<Rightarrow> Inr None))"

definition deliver_data :: "GUID \<Rightarrow> CacheChange \<Rightarrow> Timestamp \<Rightarrow> EntityId \<Rightarrow> RecvState \<times> ReaderTimer list
    \<Rightarrow> (RecvState \<times> ReaderTimer list) res" where
  "deliver_data wg change ts eid st =
     (case bm_get (rs (fst st)) eid of
        None \<Rightarrow> Inr st
      | Some r \<Rightarrow>
          if is_contain_writer wg r then
            rbind (reader_add_change (source_guid_prefix (mr (fst st))) change r) (\<lambda>(r', rt).
            rbind (get_matched_writer_qos wg r') (\<lambda>qos.
              Inr (on_db (write_remote_writer wg ts (liveliness_kind (fst (dw_liveliness qos))))
                     (put_reader eid r' (fst st)),
                   snd st @ or_default rt [])))
          else Inr st)"

definition received_change :: "Timestamp \<Rightarrow> Data \<Rightarrow> RecvState \<Rightarrow> CacheChange" where
  "received_change ts data s =
     \<lparr>change_kind = Alive, writer_guid = GUID (source_guid_prefix (mr s)) (data_writer_id data),
      sequence_number = writer_sn data, timestamp = ts, data_value = serialized_payload data,
      instance_handle = InstantHandle\<rparr>"

definition deliver_user_data :: "Timestamp \<Rightarrow> Data \<Rightarrow> RecvState \<Rightarrow> ReaderTimer list option handled" where
  "deliver_user_data ts data s =
     rbind (rfold (deliver_data (GUID (source_guid_prefix (mr s)) (data_writer_id data)) (received_change ts data s) ts)
              (if data_reader_id data = eid_UNKNOW then bm_keys (rs s) else [data_reader_id data]) (s, []))
       (\<lambda>(s', rtv). Inr (s', Inr (some_list rtv)))"

definition dispatch_data :: "Wire \<Rightarrow> Timestamp option \<Rightarrow> Timestamp \<Rightarrow> Data \<Rightarrow> RecvState
    \<Rightarrow> ReaderTimer list option handled" where
  "dispatch_data wr now ts data s =
     (let change = received_change ts data s;
          from_or_to = (\<lambda>w r. data_writer_id data = w \<or> data_reader_id data = r)
      in if from_or_to SPDP_BUILTIN_PARTICIPANT_ANNOUNCER SPDP_BUILTIN_PARTICIPANT_DETECTOR
         then no_timers (handle_spdp_data wr now data s)
         else if from_or_to SEDP_BUILTIN_PUBLICATIONS_ANNOUNCER SEDP_BUILTIN_PUBLICATIONS_DETECTOR
         then no_timers (handle_sedp_w_data wr data change ts s)
         else if from_or_to SEDP_BUILTIN_SUBSCRIPTIONS_ANNOUNCER SEDP_BUILTIN_SUBSCRIPTIONS_DETECTOR
         then no_timers (handle_sedp_r_data wr data change s)
         else if from_or_to P2P_BUILTIN_PARTICIPANT_MESSAGE_WRITER P2P_BUILTIN_PARTICIPANT_MESSAGE_READER
         then no_timers (handle_participant_message wr data change ts s)
         else deliver_user_data ts data s)"

definition handle_data_submsg :: "Wire \<Rightarrow> Timestamp option \<Rightarrow> Data \<Rightarrow> u8 \<Rightarrow> RecvState \<Rightarrow> ReaderTimer list option handled" where
  "handle_data_submsg wr now data flag s =
     (if own_message s then Inr (s, Inr None)
      else if writer_sn data < 0 \<or> writer_sn data = SEQUENCENUMBER_UNKNOWN then Inr (s, Inl MsgWarn)
      else if flag_contains flag DataFlag_InlineQos then Inr (s, Inl MsgWarn)
      else rbind (unwrap now) (\<lambda>ts. dispatch_data wr now ts data s))"

text \<open>Fragments are not supported.\<close>

fun handle_entity_submessage :: "Wire \<Rightarrow> Timestamp option \<Rightarrow> EntitySubmessage \<Rightarrow> RecvState
    \<Rightarrow> ReaderTimer list option handled" where
  "handle_entity_submessage wr now (ES_AckNack a flags) s = no_timers (handle_acknack_submsg now a s)"
| "handle_entity_submessage wr now (ES_Data d flags) s = handle_data_submsg wr now d flags s"
| "handle_entity_submessage wr now (ES_DataFrag d flags) s = Inr (s, Inl MsgWarn)"
| "handle_entity_submessage wr now (ES_Gap g flags) s = no_timers (handle_gap_submsg g flags s)"
| "handle_entity_submessage wr now (ES_HeartBeat h flags) s = no_timers (handle_heartbeat_submsg now h flags s)"
| "handle_entity_submessage wr now (ES_HeartbeatFrag h flags) s = Inr (s, Inl MsgWarn)"
| "handle_entity_submessage wr now (ES_NackFrag n flags) s = Inr (s, Inl MsgWarn)"

text \<open>The loop over the submessages stops at the first error.\<close>

fun handle_submessages :: "Wire \<Rightarrow> Timestamp option \<Rightarrow> SubMessage list \<Rightarrow> RecvState \<Rightarrow> ReaderTimer list
    \<Rightarrow> (RecvState \<times> ReaderTimer list) res" where
  "handle_submessages wr now [] s rtv = Inr (s, rtv)"
| "handle_submessages wr now (m # ms) s rtv =
     (case sub_body m of
        Entity e \<Rightarrow>
          rbind (handle_entity_submessage wr now e s) (\<lambda>(s', res).
            case res of
              Inl err \<Rightarrow> Inr (s', rtv)
            | Inr rt \<Rightarrow> handle_submessages wr now ms s' (rtv @ or_default rt []))
      | Interpreter i \<Rightarrow>
          (case handle_interpreter_submessage i (mr s) of
             (m', Inl err) \<Rightarrow> Inr (s\<lparr>mr := m'\<rparr>, rtv)
           | (m', Inr _) \<Rightarrow> handle_submessages wr now ms (s\<lparr>mr := m'\<rparr>) rtv))"

definition handle_parsed_packet :: "Wire \<Rightarrow> Timestamp option \<Rightarrow> Message \<Rightarrow> RecvState
    \<Rightarrow> (RecvState \<times> ReaderTimer list option) res" where
  "handle_parsed_packet wr now msg s =
     (let m = (reset (mr s))\<lparr>dest_guid_prefix := own_guid_prefix (mr s),
                              source_guid_prefix := header_guid_prefix (header msg)\<rparr>
      in rbind (handle_submessages wr now (submessages msg) (s\<lparr>mr := m\<rparr>) [])
           (\<lambda>(s', rtv). Inr (s', some_list rtv)))"

definition RTPS_magic :: "u8 list" where "RTPS_magic = [0x52, 0x54, 0x50, 0x53]"
definition DDSPING :: "u8 list" where "DDSPING = [0x44, 0x44, 0x53, 0x50, 0x49, 0x4e, 0x47]"

definition packet_ignored :: "u8 list \<Rightarrow> bool" where
  "packet_ignored bytes \<longleftrightarrow> length bytes < 16 \<or> take 4 bytes \<noteq> RTPS_magic \<or> length bytes < 20"

definition handle_packet :: "Wire \<Rightarrow> Timestamp option \<Rightarrow> u8 list list \<Rightarrow> RecvState
    \<Rightarrow> (RecvState \<times> ReaderTimer list option) res" where
  "handle_packet wr now packets s =
     rbind (rfold (\<lambda>bytes (s, rtv).
              if packet_ignored bytes then Inr (s, rtv)
              else
                rbind (read_message wr bytes) (\<lambda>m.
                  case m of
                    None \<Rightarrow> Inr (s, rtv)
                  | Some msg \<Rightarrow>
                      rbind (handle_parsed_packet wr now msg s) (\<lambda>(s', rt). Inr (s', rtv @ or_default rt []))))
              packets (s, []))
       (\<lambda>(s', rtv). Inr (s', some_list rtv))"

end
