(* ===== verification/Umber_ReceiverInv.thy ===== *)
theory Umber_ReceiverInv
  imports Umber_DataWriter Umber_Subscriber Umber_Receiver
begin

text \<open>
  What a packet does to the state of the participant: every handler of the message receiver keeps the
  invariants of the writers, of the readers and of the discovery data base, and user data is delivered
  to the readers that know its writer.
\<close>

section \<open>What every handler keeps\<close>

text \<open>
  No writer or reader appears or disappears; a writer or reader that satisfies its invariant still
  does, a writer keeps its identity and the samples it has not processed, and stores nothing new.
\<close>

definition proceeds :: "RecvState \<Rightarrow> RecvState \<Rightarrow> bool" where
  "proceeds s s' \<longleftrightarrow>
     bm_keys (ws s') = bm_keys (ws s) \<and> bm_keys (rs s') = bm_keys (rs s) \<and>
     (\<forall>eid w. bm_get (ws s) eid = Some w \<longrightarrow> writer_inv w \<longrightarrow>
       (\<exists>w'. bm_get (ws s') eid = Some w' \<and> evolves w w')) \<and>
     (\<forall>eid r. bm_get (rs s) eid = Some r \<longrightarrow> reader_inv r \<longrightarrow>
       (\<exists>r'. bm_get (rs s') eid = Some r' \<and> reader_inv r')) \<and>
     (db_inv (disc_db (mr s)) \<longrightarrow> db_inv (disc_db (mr s')))"

lemma proceeds_refl [simp]: "proceeds s s"
  by (simp add: proceeds_def evolves_refl)

lemma proceeds_trans:
  assumes 1: "proceeds s t" and 2: "proceeds t u"
  shows "proceeds s u"
  unfolding proceeds_def
proof (intro conjI allI impI)
  fix eid w assume "bm_get (ws s) eid = Some w" "writer_inv w"
  with 1 obtain v where v: "bm_get (ws t) eid = Some v" "evolves w v" unfolding proceeds_def by blast
  with 2 evolves_inv obtain x where "bm_get (ws u) eid = Some x" "evolves v x" unfolding proceeds_def by blast
  with v(2) evolves_trans show "\<exists>x. bm_get (ws u) eid = Some x \<and> evolves w x" by blast
next
  fix eid r assume "bm_get (rs s) eid = Some r" "reader_inv r"
  with 1 2 show "\<exists>r'. bm_get (rs u) eid = Some r' \<and> reader_inv r'" unfolding proceeds_def by blast
qed (use 1 2 in \<open>simp_all add: proceeds_def\<close>)

lemma proceeds_receiver [simp]:
  "disc_db m = disc_db (mr s) \<Longrightarrow> proceeds s (s\<lparr>mr := m\<rparr>)"
  by (simp add: proceeds_def evolves_refl)

lemma proceeds_put_writer:
  assumes "bm_get (ws s) eid = Some w" and "writer_inv w \<Longrightarrow> evolves w w'"
  shows "proceeds s (put_writer eid w' s)"
  using assms by (auto simp: proceeds_def put_writer_def evolves_refl)

lemma proceeds_put_reader:
  assumes "bm_get (rs s) eid = Some r" and "reader_inv r \<Longrightarrow> reader_inv r'"
  shows "proceeds s (put_reader eid r' s)"
  using assms by (auto simp: proceeds_def put_reader_def evolves_refl)

lemma proceeds_db:
  assumes "db_inv (disc_db (mr s)) \<Longrightarrow> db_inv (f (disc_db (mr s)))"
  shows "proceeds s (on_db f s)"
  using assms by (auto simp: proceeds_def on_db_def evolves_refl)

lemma refresh_writers_inv:
  assumes "db_inv db"
  shows "db_inv (refresh_writers P ts db)"
proof -
  have "bm_wf m \<Longrightarrow> bm_wf (fold (\<lambda>x. bm_insert (fst x) (Live ts, snd x)) xs m)"
    for xs and m :: "(GUID, EndpointState \<times> LivelinessQosKind) btree_map"
    by (induction xs arbitrary: m) simp_all
  with assms show ?thesis by (simp add: db_inv_def refresh_writers_def case_prod_beta')
qed

lemma write_remote_writer_inv: "db_inv db \<Longrightarrow> db_inv (write_remote_writer g ts k db)"
  unfolding write_remote_writer_def update_liveliness_with_guid_prefix_def Let_def
  by (auto intro!: refresh_writers_inv) (simp_all add: db_inv_def)

lemma write_participant_inv: "db_inv db \<Longrightarrow> db_inv (fst (write_participant p ts d db))"
  by (simp add: db_inv_def write_participant_def)

lemma update_liveliness_inv: "db_inv db \<Longrightarrow> db_inv (update_liveliness_with_guid_prefix_with_kind p ts k db)"
  by (simp add: update_liveliness_with_guid_prefix_with_kind_def refresh_writers_inv)

lemma proceeds_writer_live: "proceeds s t \<Longrightarrow> proceeds s (on_db (write_remote_writer g ts k) t)"
  by (erule proceeds_trans) (rule proceeds_db, erule write_remote_writer_inv)

section \<open>The handlers\<close>

lemma interpreter_db:
  "handle_interpreter_submessage i m = (m', x) \<Longrightarrow> disc_db m' = disc_db m"
  by (induction i m rule: handle_interpreter_submessage.induct)
    (auto simp: set_reply_def Let_def split: if_splits option.splits)

lemma acknack_proceeds:
  assumes "acknack_in_range a" and "handle_acknack_submsg now a s = Inr (s', x)"
  shows "proceeds s s'"
  using assms
  by (auto simp: handle_acknack_submsg_def rbind_Inr_iff intro!: proceeds_put_writer
      intro: handle_acknack_evolves split: if_splits option.splits)

lemma deliver_gap_proceeds:
  assumes "gap_in_range gap" and "deliver_gap wg gap eid s = Inr s'"
  shows "proceeds s s'"
  using assms
  by (auto simp: deliver_gap_def rbind_Inr_iff intro!: proceeds_put_reader
      intro: handle_gap_keeps split: option.splits)

lemma rfold_proceeds:
  assumes run: "rfold f xs s = Inr t" and step: "\<And>x u v. f x u = Inr v \<Longrightarrow> proceeds u v"
  shows "proceeds s t"
  using run by (rule rfold_invariant) (auto dest: step elim: proceeds_trans)

lemma gap_proceeds:
  assumes g: "gap_in_range gap" and run: "handle_gap_submsg gap flag s = Inr (s', x)"
  shows "proceeds s s'"
proof -
  let ?wg = "GUID (source_guid_prefix (mr s)) (gap_writer_id gap)"
  let ?f = "\<lambda>eid s. if knows ?wg s eid then deliver_gap ?wg gap eid s else Inr s"
  have step: "proceeds u v" if "?f eid u = Inr v" for eid u v
    using that deliver_gap_proceeds [OF g] by (auto split: if_splits)
  have fold: "rfold ?f ks s = Inr t \<Longrightarrow> proceeds s t" for ks t
    by (erule rfold_proceeds) (erule step)
  from run show ?thesis
    by (auto simp: handle_gap_submsg_def Let_def rbind_Inr_iff intro: deliver_gap_proceeds [OF g] fold
        split: if_splits)
qed

lemma deliver_heartbeat_proceeds:
  assumes l: "last_sn hb < i64_max" and r: "bm_get (rs s) eid = Some r"
    and run: "deliver_heartbeat ts wg flag hb eid r s = Inr s'"
  shows "proceeds s s'"
proof -
  from run obtain r' rt where h: "handle_heartbeat wg flag hb r = Inr (r', rt)"
    and s': "s' = put_reader eid r' s \<or> (\<exists>k. s' = on_db (write_remote_writer wg ts k) (put_reader eid r' s))"
    by (auto simp: deliver_heartbeat_def rbind_Inr_iff Let_def split: if_splits)
  have "proceeds s (put_reader eid r' s)"
    using proceeds_put_reader [OF r] handle_heartbeat_keeps [OF _ l h] by blast
  with s' proceeds_writer_live show ?thesis by blast
qed

lemma heartbeat_to_proceeds:
  assumes "last_sn hb < i64_max" and "heartbeat_to ts wg flag hb absent eid s = Inr s'"
    and "absent = Inr s \<or> absent = Inl Unreachable"
  shows "proceeds s s'"
  using assms by (auto simp: heartbeat_to_def intro: deliver_heartbeat_proceeds split: option.splits)

lemma heartbeat_proceeds:
  assumes l: "last_sn hb < i64_max" and run: "handle_heartbeat_submsg now hb flag s = Inr (s', x)"
  shows "proceeds s s'"
proof -
  have step: "proceeds u v" if "heartbeat_if_known ts wg flag hb eid u = Inr v" for ts wg eid u v
    using that heartbeat_to_proceeds [OF l] by (auto simp: heartbeat_if_known_def split: if_splits)
  have fold: "rfold (heartbeat_if_known ts wg flag hb) ks s = Inr t \<Longrightarrow> proceeds s t" for ts wg ks t
    by (erule rfold_proceeds) (erule step)
  from run show ?thesis
    by (auto simp: handle_heartbeat_submsg_def Let_def rbind_Inr_iff intro: heartbeat_to_proceeds [OF l] fold
        split: if_splits)
qed

lemma match_remote_reader_proceeds:
  "match_remote_reader b remote local qos d s = Inr s' \<Longrightarrow> proceeds s s'"
  by (auto simp: match_remote_reader_def matched_reader_add_def rbind_Inr_iff intro!: proceeds_put_writer
      intro: matched_reader_add_evolves split: if_splits option.splits)

lemma match_remote_writer_proceeds:
  "match_remote_writer b remote local qos d s = Inr s' \<Longrightarrow> proceeds s s'"
  by (auto simp: match_remote_writer_def matched_writer_add_def rbind_Inr_iff intro!: proceeds_put_reader
      intro: matched_writer_add_keeps split: if_splits option.splits)

lemma participant_discovery_proceeds:
  assumes "handle_participant_discovery d s = Inr s'"
  shows "proceeds s s'"
proof (cases "spdp_domain_id d \<noteq> domain_id (mr s)")
  case False
  with assms show ?thesis
    unfolding handle_participant_discovery_def if_not_P [OF False]
    by (elim rbind_Inr_E)
      (drule match_remote_reader_proceeds match_remote_writer_proceeds | (erule proceeds_trans)+ | rule proceeds_refl)+
qed (use assms in \<open>simp add: handle_participant_discovery_def\<close>)

lemma spdp_reply_proceeds: "spdp_reply now d s = Inr s' \<Longrightarrow> proceeds s s'"
  by (auto simp: spdp_reply_def rbind_Inr_iff intro!: proceeds_put_writer intro: send_builtin_data_evolves
      split: option.splits)

lemma spdp_proceeds:
  assumes "handle_spdp_data wr now data s = Inr (s', x)"
  shows "proceeds s s'"
proof -
  have "proceeds s s2" if "t = on_db (\<lambda>_. fst (write_participant p ts d (disc_db (mr s)))) s"
    "(if known then Inr t else spdp_reply now d t) = Inr s1" "handle_participant_discovery d s1 = Inr s2"
    for t p ts d known s1 s2
  proof -
    have "proceeds s t" unfolding that(1) by (rule proceeds_db) (rule write_participant_inv)
    moreover have "proceeds t s1" using that(2) spdp_reply_proceeds by (auto split: if_splits)
    ultimately show ?thesis using participant_discovery_proceeds [OF that(3)] by (blast intro: proceeds_trans)
  qed
  note known = this
  from assms show ?thesis
    unfolding handle_spdp_data_def Let_def
    by (elim rbind_Inr_E) (auto elim!: rbind_Inr_E intro!: known [OF refl]
      split: sum.split_asm option.split_asm if_split_asm)
qed

lemma match_readers_proceeds:
  "match_readers wp topic data_type eids s = Inr (s', b) \<Longrightarrow> proceeds s s'"
proof (induction eids arbitrary: s)
  case (Cons eid eids)
  show ?case
  proof (cases "bm_get (rs s) eid")
    case None
    with Cons show ?thesis by simp
  next
    case (Some r)
    have add: "proceeds s ((put_reader eid r' s)\<lparr>mr := (mr (put_reader eid r' s))\<lparr>wlp_timer_sender := l\<rparr>\<rparr>)"
      if "matched_writer_add_with_default_locator (remote_writer_guid wp)
            (wp_unicast_locator_list wp) (wp_multicast_locator_list wp)
            (wp_default_unicast_locator_list wp) (wp_default_multicast_locator_list wp)
            (data_max_size_serialized wp) (wp_qos wp) r = Inr (r', rt)" for r' rt l
      using matched_writer_add_keeps [OF _ that]
      by (intro proceeds_trans [OF proceeds_put_reader [OF Some] proceeds_receiver]) simp_all
    from Cons.prems Some show ?thesis
      by (auto simp: rbind_Inr_iff Let_def dest!: Cons.IH add elim: proceeds_trans split: if_splits)
  qed
qed simp

lemma match_writers_proceeds:
  "match_writers rp topic data_type eids s = Inr (s', b) \<Longrightarrow> proceeds s s'"
proof (induction eids arbitrary: s)
  case (Cons eid eids)
  show ?case
  proof (cases "bm_get (ws s) eid")
    case None
    with Cons show ?thesis by simp
  next
    case (Some w)
    have add: "proceeds s (put_writer eid w' s)"
      if "matched_reader_add_with_default_locator (remote_reader_guid rp)
           (expects_inline_qos rp) (rp_unicast_locator_list rp) (rp_multicast_locator_list rp)
           (rp_default_unicast_locator_list rp) (rp_default_multicast_locator_list rp)
           (rp_qos rp) w = Inr w'" for w'
      using matched_reader_add_evolves [OF _ that] by (intro proceeds_put_writer [OF Some])
    from Cons.prems Some show ?thesis
      by (auto simp: rbind_Inr_iff Let_def dest!: Cons.IH add elim: proceeds_trans split: if_splits)
  qed
qed simp

lemma add_to_builtin_proceeds:
  assumes "0 \<le> sequence_number c" and "sequence_number c < i64_max" and "add_to_builtin eid c s = Inr (s', x)"
  shows "proceeds s s'"
  using assms
  by (auto simp: add_to_builtin_def rbind_Inr_iff intro!: proceeds_put_reader
      intro: reader_add_change_keeps split: option.splits)

lemma sedp_w_proceeds:
  assumes c: "0 \<le> sequence_number c" "sequence_number c < i64_max"
    and run: "handle_sedp_w_data wr data c ts s = Inr (s', x)"
  shows "proceeds s s'"
proof -
  have found: "proceeds s s'" if "match_readers wp topic data_type ks (on_db (write_remote_writer g ts k) s) = Inr (t, b)"
    "(if b then add_to_builtin eid c t else Inr (t, Inr ())) = Inr (s', x)" for wp topic data_type ks g k t b eid
  proof -
    have "proceeds s t"
      using proceeds_writer_live [OF proceeds_refl] match_readers_proceeds [OF that(1)] by (rule proceeds_trans)
    moreover have "proceeds t s'" using that(2) add_to_builtin_proceeds [OF c] by (auto split: if_splits)
    ultimately show ?thesis by (rule proceeds_trans)
  qed
  from run show ?thesis
    unfolding handle_sedp_w_data_def Let_def
    by (elim rbind_Inr_E) (auto elim!: rbind_Inr_E intro: found
      split: sum.split_asm option.split_asm prod.split_asm)
qed

lemma sedp_r_proceeds:
  assumes c: "0 \<le> sequence_number c" "sequence_number c < i64_max"
    and run: "handle_sedp_r_data wr data c s = Inr (s', x)"
  shows "proceeds s s'"
proof -
  have found: "proceeds s s'" if "match_writers rp topic data_type ks s = Inr (t, b)"
    "(if b then add_to_builtin eid c t else Inr (t, Inr ())) = Inr (s', x)" for rp topic data_type ks t b eid
  proof -
    have "proceeds t s'" using that(2) add_to_builtin_proceeds [OF c] by (auto split: if_splits)
    with match_writers_proceeds [OF that(1)] show ?thesis by (rule proceeds_trans)
  qed
  from run show ?thesis
    unfolding handle_sedp_r_data_def Let_def
    by (elim rbind_Inr_E) (auto elim!: rbind_Inr_E intro: found
      split: sum.split_asm option.split_asm prod.split_asm)
qed

lemma participant_message_proceeds:
  assumes c: "0 \<le> sequence_number c" "sequence_number c < i64_max"
    and run: "handle_participant_message wr data c ts s = Inr (s', x)"
  shows "proceeds s s'"
proof -
  have add: "proceeds s t \<Longrightarrow> add_to_builtin eid c t = Inr (s', x) \<Longrightarrow> proceeds s s'" for t eid
    using add_to_builtin_proceeds [OF c] proceeds_trans by blast
  from run show ?thesis
    unfolding handle_participant_message_def Let_def
    by (elim rbind_Inr_E) (auto elim!: add [rotated] intro!: proceeds_db update_liveliness_inv
      split: sum.split_asm if_split_asm)
qed

lemma deliver_data_proceeds:
  assumes c: "0 \<le> sequence_number c" "sequence_number c < i64_max"
    and run: "deliver_data wg c ts eid st = Inr st'"
  shows "proceeds (fst st) (fst st')"
proof (cases "bm_get (rs (fst st)) eid")
  case None
  with run show ?thesis by (simp add: deliver_data_def)
next
  case (Some r)
  show ?thesis
  proof (cases "is_contain_writer wg r")
    case True
    from run Some True obtain r' rt k where
      add: "reader_add_change (source_guid_prefix (mr (fst st))) c r = Inr (r', rt)"
      and "fst st' = on_db (write_remote_writer wg ts k) (put_reader eid r' (fst st))"
      by (auto simp: deliver_data_def rbind_Inr_iff)
    with proceeds_writer_live [OF proceeds_put_reader [OF Some]] reader_add_change_keeps [OF _ c add]
    show ?thesis by auto
  qed (use run Some in \<open>simp add: deliver_data_def\<close>)
qed

lemma no_timers_proceeds:
  assumes "no_timers m = Inr (s', x)" and "\<And>y. m = Inr (s', y) \<Longrightarrow> proceeds s s'"
  shows "proceeds s s'"
  using assms by (auto simp: no_timers_def rbind_Inr_iff)

lemma deliver_user_data_proceeds:
  assumes c: "0 \<le> writer_sn data" "writer_sn data < i64_max" and run: "deliver_user_data ts data s = Inr (s', x)"
  shows "proceeds s s'"
proof -
  let ?f = "deliver_data (GUID (source_guid_prefix (mr s)) (data_writer_id data)) (received_change ts data s) ts"
  from run obtain eids rtv where "rfold ?f eids (s, []) = Inr (s', rtv)"
    by (auto simp: deliver_user_data_def rbind_Inr_iff)
  then have "proceeds s (fst (s', rtv))"
  proof (rule rfold_invariant)
    fix eid st st' assume "proceeds s (fst st)" "?f eid st = Inr st'"
    with c deliver_data_proceeds show "proceeds s (fst st')"
      by (metis proceeds_trans received_change_def CacheChange.select_convs(3))
  qed simp
  then show ?thesis by simp
qed

lemma dispatch_data_proceeds:
  assumes "0 \<le> writer_sn data" and "writer_sn data < i64_max" and "dispatch_data wr now ts data s = Inr (s', x)"
  shows "proceeds s s'"
proof -
  have "0 \<le> sequence_number (received_change ts data s)" "sequence_number (received_change ts data s) < i64_max"
    using assms by (simp_all add: received_change_def)
  with assms show ?thesis
    by (auto simp: dispatch_data_def Let_def elim!: no_timers_proceeds intro: spdp_proceeds sedp_w_proceeds
        sedp_r_proceeds participant_message_proceeds deliver_user_data_proceeds split: if_split_asm)
qed

lemma data_proceeds:
  assumes "writer_sn data < i64_max" and "handle_data_submsg wr now data flag s = Inr (s', x)"
  shows "proceeds s s'"
  using assms
  by (auto simp: handle_data_submsg_def rbind_Inr_iff not_less intro: dispatch_data_proceeds split: if_split_asm)

section \<open>A packet keeps the invariants\<close>

text \<open>
  What a decoded submessage is assumed to satisfy: no sequence number is the greatest one, which no writer
  uses, the numbers that a set lists are not below its base.
\<close>

fun entity_in_range :: "EntitySubmessage \<Rightarrow> bool" where
  "entity_in_range (ES_AckNack a flags) = acknack_in_range a"
| "entity_in_range (ES_Data d flags) = (writer_sn d < i64_max)"
| "entity_in_range (ES_Gap g flags) = gap_in_range g"
| "entity_in_range (ES_HeartBeat h flags) = (last_sn h < i64_max)"
| "entity_in_range _ = True"

definition in_range :: "SubMessage \<Rightarrow> bool" where
  "in_range m = (case sub_body m of Entity e \<Rightarrow> entity_in_range e | Interpreter i \<Rightarrow> True)"

lemma entity_proceeds:
  assumes "entity_in_range e" and "handle_entity_submessage wr now e s = Inr (s', x)"
  shows "proceeds s s'"
  using assms
  by (cases e) (auto elim!: no_timers_proceeds intro: acknack_proceeds data_proceeds gap_proceeds heartbeat_proceeds)

lemma submessages_proceed:
  assumes "list_all in_range ms" and "handle_submessages wr now ms s rtv = Inr (s', rtv')"
  shows "proceeds s s'"
  using assms
proof (induction ms arbitrary: s rtv)
  case (Cons m ms)
  show ?case
  proof (cases "sub_body m")
    case (Entity e)
    with Cons.prems obtain t y where t: "handle_entity_submessage wr now e s = Inr (t, y)" "proceeds s t"
      by (auto simp: rbind_Inr_iff in_range_def dest: entity_proceeds)
    with Cons Entity show ?thesis by (cases y) (auto elim: proceeds_trans)
  next
    case (Interpreter i)
    obtain m' y where i: "handle_interpreter_submessage i (mr s) = (m', y)" by fastforce
    then have "proceeds s (s\<lparr>mr := m'\<rparr>)" by (simp add: interpreter_db)
    with Cons Interpreter i show ?thesis by (cases y) (auto elim: proceeds_trans)
  qed
qed simp

lemma parsed_packet_proceeds:
  assumes "list_all in_range (submessages msg)" and "handle_parsed_packet wr now msg s = Inr (s', x)"
  shows "proceeds s s'"
proof -
  let ?s = "s\<lparr>mr := (reset (mr s))\<lparr>dest_guid_prefix := own_guid_prefix (mr s),
    source_guid_prefix := header_guid_prefix (header msg)\<rparr>\<rparr>"
  have "proceeds s ?s" by (simp add: reset_def)
  moreover from assms have "proceeds ?s s'"
    by (auto simp: handle_parsed_packet_def Let_def rbind_Inr_iff dest: submessages_proceed)
  ultimately show ?thesis by (rule proceeds_trans)
qed

section \<open>User data reaches the readers that know its writer\<close>

text \<open>A change adds no writer to a reader and removes none.\<close>

lemma states_frame:
  "add_to_cache c r = Inr (r', x) \<Longrightarrow> writer_communication_state r' = writer_communication_state r"
  "flush_cache r = Inr (r', b) \<Longrightarrow> writer_communication_state r' = writer_communication_state r"
  "release r = Inr r' \<Longrightarrow> writer_communication_state r' = writer_communication_state r"
  "forget_taken r = Inr r' \<Longrightarrow> writer_communication_state r' = writer_communication_state r"
proof -
  show fl: "flush_cache r = Inr (r', b) \<Longrightarrow> writer_communication_state r' = writer_communication_state r" for r r' b
    by (auto simp: flush_cache_def rbind_Inr_iff)
  show "add_to_cache c r = Inr (r', x) \<Longrightarrow> writer_communication_state r' = writer_communication_state r"
    by (auto simp: add_to_cache_def rbind_Inr_iff)
  show "release r = Inr r' \<Longrightarrow> writer_communication_state r' = writer_communication_state r"
    by (auto simp: release_def rbind_Inr_iff notify_r_def dest: fl)
  have "writer_communication_state (fold (\<lambda>key. on_proxy (hk_guid key) (wp_remove_cache_state (hk_seq_num key))) ks r) =
      writer_communication_state r" for ks r
    by (induction ks arbitrary: r) (simp_all add: on_proxy_def)
  then show "forget_taken r = Inr r' \<Longrightarrow> writer_communication_state r' = writer_communication_state r"
    by (auto simp: forget_taken_def rbind_Inr_iff)
qed

lemma advance_state_keys:
  "advance_state g n r = Inr r' \<Longrightarrow>
    bm_keys (writer_communication_state r') = bm_keys (writer_communication_state r)"
  by (auto simp: advance_state_def rbind_Inr_iff Let_def set_state_def dest!: states_frame(3)
      split: option.splits ReaderState.splits if_splits)

lemma add_change_keys:
  assumes "reader_add_change prefix c r = Inr (r', rt)"
  shows "bm_keys (writer_communication_state r') = bm_keys (writer_communication_state r)"
proof -
  let ?g = "GUID prefix (entity_id (writer_guid c))"
  have rel: "bm_keys (writer_communication_state v) = bm_keys (writer_communication_state u)"
    if "add_change_reliable g c u = Inr v" for g u v
    using that by (auto simp: add_change_reliable_def rbind_Inr_iff on_proxy_def
        dest!: states_frame(1) advance_state_keys no_error_unit split: sum.splits)
  have be: "bm_keys (writer_communication_state v) = bm_keys (writer_communication_state u)"
    if "add_change_best_effort g c u = Inr v" for g u v
    using that unfolding add_change_best_effort_def Let_def
    by (elim rbind_Inr_E) (auto simp: on_proxy_def elim!: rbind_Inr_E dest!: states_frame
      split: option.split_asm sum.split_asm if_split_asm prod.split_asm)
  have "writer_communication_state (rematch ?g r) = writer_communication_state r"
    by (simp add: rematch_def liveliness_changed_def split: option.splits)
  with assms show ?thesis
    by (auto simp: reader_add_change_def Let_def rbind_Inr_iff dest: rel be split: option.splits if_splits)
qed

lemma knows_writer_iff:
  assumes "reader_inv r"
  shows "is_contain_writer g r \<longleftrightarrow> g \<in> set (bm_keys (writer_communication_state r))"
  using assms by (auto simp: is_contain_writer_def reader_inv_def bm_get_None)

lemma add_change_knows:
  assumes "reader_inv r" and "reader_inv r'" and "reader_add_change prefix c r = Inr (r', rt)"
  shows "is_contain_writer g r' = is_contain_writer g r"
  using add_change_keys [OF assms(3)] by (simp add: knows_writer_iff assms)

text \<open>
  What the delivery of a change \<open>c\<close> of the writer \<open>wg\<close> to the readers \<open>E\<close> does: exactly those of them that know
  the writer process the change, nothing else happens to readers and writers, and the writer counts as
  alive from \<open>ts\<close> on if some reader knows it.
\<close>

definition delivered :: "GUID \<Rightarrow> CacheChange \<Rightarrow> Timestamp \<Rightarrow> EntityId set \<Rightarrow> RecvState \<Rightarrow> RecvState \<Rightarrow> bool" where
  "delivered wg c ts E s s' \<longleftrightarrow>
     ws s' = ws s \<and> source_guid_prefix (mr s') = source_guid_prefix (mr s) \<and>
     (\<forall>eid. bm_get (rs s) eid = None \<longrightarrow> bm_get (rs s') eid = None) \<and>
     (\<forall>eid r. bm_get (rs s) eid = Some r \<longrightarrow>
       (if eid \<in> E \<and> is_contain_writer wg r
        then \<exists>r' rt. reader_add_change (source_guid_prefix (mr s)) c r = Inr (r', rt) \<and>
               bm_get (rs s') eid = Some r' \<and> reader_inv r'
        else bm_get (rs s') eid = Some r)) \<and>
     (if \<exists>eid \<in> E. knows wg s eid
      then \<exists>k. bm_get (remote_writer_data (disc_db (mr s'))) wg = Some (Live ts, k)
      else disc_db (mr s') = disc_db (mr s))"

lemma write_remote_writer_live:
  "\<exists>k'. bm_get (remote_writer_data (write_remote_writer wg ts k db)) wg = Some (Live ts, k')"
proof -
  have "\<exists>k'. bm_get (fold (\<lambda>x. bm_insert (fst x) (Live ts, snd x)) xs m) wg = Some (Live ts, k')"
    if "\<exists>k'. bm_get m wg = Some (Live ts, k')" for xs and m :: "(GUID, EndpointState \<times> LivelinessQosKind) btree_map"
    using that by (induction xs arbitrary: m) auto
  then show ?thesis
    by (simp add: write_remote_writer_def Let_def update_liveliness_with_guid_prefix_def refresh_writers_def
        case_prod_beta')
qed

lemma deliver_data_step:
  assumes r: "\<And>r. bm_get (rs s) eid = Some r \<Longrightarrow> reader_inv r \<and> (is_contain_writer wg r \<longrightarrow> can_add c r)"
    and c: "0 \<le> sequence_number c" "sequence_number c < i64_max"
  shows "\<exists>s' rtv'. deliver_data wg c ts eid (s, rtv) = Inr (s', rtv') \<and> delivered wg c ts {eid} s s'"
proof (cases "knows wg s eid")
  case False
  then have "deliver_data wg c ts eid (s, rtv) = Inr (s, rtv)"
    by (simp add: knows_def deliver_data_def split: option.splits)
  with False show ?thesis by (auto simp: delivered_def knows_def)
next
  case True
  then obtain x where x: "bm_get (rs s) eid = Some x" "is_contain_writer wg x"
    by (auto simp: knows_def split: option.splits)
  with r have inv: "reader_inv x" "can_add c x" by auto
  from reader_add_change_inv [OF inv c] obtain r' rt where
    r': "reader_add_change (source_guid_prefix (mr s)) c x = Inr (r', rt)" "reader_inv r'" by blast
  from add_change_knows [OF inv(1) r'(2,1)] x(2) obtain qos where q: "get_matched_writer_qos wg r' = Inr qos"
    by (force simp: is_contain_writer_def get_matched_writer_qos_def split: option.splits)
  let ?s = "on_db (write_remote_writer wg ts (liveliness_kind (fst (dw_liveliness qos)))) (put_reader eid r' s)"
  have "deliver_data wg c ts eid (s, rtv) = Inr (?s, rtv @ or_default rt [])"
    by (simp add: deliver_data_def x r' q)
  moreover have "delivered wg c ts {eid} s ?s"
    using True x r' write_remote_writer_live [of wg ts "liveliness_kind (fst (dw_liveliness qos))" "disc_db (mr s)"]
    by (auto simp: delivered_def on_db_def put_reader_def)
  ultimately show ?thesis by blast
qed

lemma deliveredD:
  assumes "delivered wg c ts E s s'"
  shows "ws s' = ws s" and "source_guid_prefix (mr s') = source_guid_prefix (mr s)"
    and "bm_get (rs s) eid = None \<Longrightarrow> bm_get (rs s') eid = None"
    and "bm_get (rs s) eid = Some r \<Longrightarrow> eid \<in> E \<Longrightarrow> is_contain_writer wg r \<Longrightarrow>
      \<exists>r' rt. reader_add_change (source_guid_prefix (mr s)) c r = Inr (r', rt) \<and>
        bm_get (rs s') eid = Some r' \<and> reader_inv r'"
    and "eid \<notin> E \<Longrightarrow> bm_get (rs s') eid = bm_get (rs s) eid"
    and "bm_get (rs s) eid = Some r \<Longrightarrow> \<not> is_contain_writer wg r \<Longrightarrow> bm_get (rs s') eid = Some r"
    and "\<exists>eid \<in> E. knows wg s eid \<Longrightarrow> \<exists>k. bm_get (remote_writer_data (disc_db (mr s'))) wg = Some (Live ts, k)"
    and "\<not> (\<exists>eid \<in> E. knows wg s eid) \<Longrightarrow> disc_db (mr s') = disc_db (mr s)"
proof -
  show "eid \<notin> E \<Longrightarrow> bm_get (rs s') eid = bm_get (rs s) eid"
    using assms by (cases "bm_get (rs s) eid") (simp_all add: delivered_def)
  show "bm_get (rs s) eid = Some r \<Longrightarrow> eid \<in> E \<Longrightarrow> is_contain_writer wg r \<Longrightarrow>
      \<exists>r' rt. reader_add_change (source_guid_prefix (mr s)) c r = Inr (r', rt) \<and>
        bm_get (rs s') eid = Some r' \<and> reader_inv r'"
    using assms unfolding delivered_def by presburger
qed (use assms in \<open>simp_all add: delivered_def\<close>)

lemma delivered_trans:
  assumes 1: "delivered wg c ts A s t" and 2: "delivered wg c ts B t u" and d: "A \<inter> B = {}"
  shows "delivered wg c ts (A \<union> B) s u"
proof -
  have "knows wg t eid = knows wg s eid" if "eid \<in> B" for eid
  proof -
    from that d have "eid \<notin> A" by blast
    then show ?thesis by (simp add: knows_def deliveredD(5) [OF 1])
  qed
  then have k: "(\<exists>eid \<in> B. knows wg t eid) = (\<exists>eid \<in> B. knows wg s eid)" by blast
  have "\<exists>r' rt. reader_add_change (source_guid_prefix (mr s)) c r = Inr (r', rt) \<and>
      bm_get (rs u) eid = Some r' \<and> reader_inv r'"
    if r: "bm_get (rs s) eid = Some r" "eid \<in> A \<union> B" "is_contain_writer wg r" for eid r
  proof (cases "eid \<in> A")
    case True
    with d have "bm_get (rs u) eid = bm_get (rs t) eid" using deliveredD(5) [OF 2] by blast
    with deliveredD(4) [OF 1 r(1) True r(3)] show ?thesis by simp
  next
    case False
    with r deliveredD(5) [OF 1] have "bm_get (rs t) eid = Some r" "eid \<in> B" by auto
    with deliveredD(4) [OF 2 this r(3)] deliveredD(2) [OF 1] show ?thesis by simp
  qed
  moreover have "bm_get (rs u) eid = Some r"
    if r: "bm_get (rs s) eid = Some r" "\<not> (eid \<in> A \<union> B \<and> is_contain_writer wg r)" for eid r
    using r deliveredD(5,6) [OF 1] deliveredD(5,6) [OF 2] by (cases "eid \<in> A \<union> B") auto
  moreover have "if \<exists>eid \<in> A \<union> B. knows wg s eid
      then \<exists>k. bm_get (remote_writer_data (disc_db (mr u))) wg = Some (Live ts, k)
      else disc_db (mr u) = disc_db (mr s)"
    using deliveredD(7,8) [OF 1] deliveredD(7,8) [OF 2] k by (simp add: bex_Un) metis
  ultimately show ?thesis
    using deliveredD(1-3) [OF 1] deliveredD(1-3) [OF 2] by (simp add: delivered_def)
qed

lemma deliver_all:
  assumes c: "0 \<le> sequence_number c" "sequence_number c < i64_max" and "distinct eids"
    and "\<And>eid r. eid \<in> set eids \<Longrightarrow> bm_get (rs s) eid = Some r \<Longrightarrow>
      reader_inv r \<and> (is_contain_writer wg r \<longrightarrow> can_add c r)"
  shows "\<exists>s' rtv'. rfold (deliver_data wg c ts) eids (s, rtv) = Inr (s', rtv') \<and> delivered wg c ts (set eids) s s'"
  using assms(3,4)
proof (induction eids arbitrary: s rtv)
  case Nil
  then show ?case by (simp add: delivered_def)
next
  case (Cons eid eids)
  have "reader_inv r \<and> (is_contain_writer wg r \<longrightarrow> can_add c r)" if "bm_get (rs s) eid = Some r" for r
    using Cons.prems(2) [of eid r] that by simp
  from deliver_data_step [where s = s and eid = eid and ts = ts and rtv = rtv, OF this c] obtain t l where
    t: "deliver_data wg c ts eid (s, rtv) = Inr (t, l)" "delivered wg c ts {eid} s t" by blast
  have "bm_get (rs t) e = bm_get (rs s) e" if "e \<noteq> eid" for e
    using t(2) that by (cases "bm_get (rs s) e") (auto simp: delivered_def)
  with Cons.prems have "\<And>e r. e \<in> set eids \<Longrightarrow> bm_get (rs t) e = Some r \<Longrightarrow>
      reader_inv r \<and> (is_contain_writer wg r \<longrightarrow> can_add c r)" by (metis distinct.simps(2) list.set_intros(2))
  moreover have "distinct eids" "{eid} \<inter> set eids = {}" using Cons.prems(1) by simp_all
  ultimately obtain s' rtv' where
    "rfold (deliver_data wg c ts) eids (t, l) = Inr (s', rtv')" "delivered wg c ts (set eids) t s'"
    using Cons.IH [of t l] by blast
  with t(1) delivered_trans [OF t(2) this(2) \<open>{eid} \<inter> set eids = {}\<close>] show ?case by simp
qed

text \<open>The entity identifiers of user endpoints: not those of the built-in ones.\<close>

definition user_data :: "Data \<Rightarrow> bool" where
  "user_data d \<longleftrightarrow>
     data_writer_id d \<notin> {SPDP_BUILTIN_PARTICIPANT_ANNOUNCER, SEDP_BUILTIN_PUBLICATIONS_ANNOUNCER,
       SEDP_BUILTIN_SUBSCRIPTIONS_ANNOUNCER, P2P_BUILTIN_PARTICIPANT_MESSAGE_WRITER} \<and>
     data_reader_id d \<notin> {SPDP_BUILTIN_PARTICIPANT_DETECTOR, SEDP_BUILTIN_PUBLICATIONS_DETECTOR,
       SEDP_BUILTIN_SUBSCRIPTIONS_DETECTOR, P2P_BUILTIN_PARTICIPANT_MESSAGE_READER}"

lemma user_data_handled:
  assumes wf: "bm_wf (rs s)" and inv: "\<forall>eid r. bm_get (rs s) eid = Some r \<longrightarrow> reader_inv r"
    and user: "user_data d" and foreign: "\<not> own_message s" and plain: "\<not> flag_contains flag DataFlag_InlineQos"
    and sn: "0 \<le> writer_sn d" "writer_sn d < i64_max"
    and wg: "wg = GUID (source_guid_prefix (mr s)) (data_writer_id d)"
    and room: "\<forall>eid r. bm_get (rs s) eid = Some r \<longrightarrow> is_contain_writer wg r \<longrightarrow> can_add (received_change ts d s) r"
  shows "\<exists>s' rtv. handle_data_submsg wr (Some ts) d flag s = Inr (s', Inr rtv) \<and>
    delivered wg (received_change ts d s) ts {eid. data_reader_id d = eid_UNKNOW \<or> eid = data_reader_id d} s s'"
proof -
  let ?c = "received_change ts d s"
  let ?eids = "if data_reader_id d = eid_UNKNOW then bm_keys (rs s) else [data_reader_id d]"
  let ?E = "{eid. data_reader_id d = eid_UNKNOW \<or> eid = data_reader_id d}"
  have c: "0 \<le> sequence_number ?c" "sequence_number ?c < i64_max" using sn by (simp_all add: received_change_def)
  have "distinct ?eids" using bm_wf_distinct [OF wf] by simp
  from deliver_all [OF c this, of s wg ts "[]"] inv room obtain s' rtv where
    run: "rfold (deliver_data wg ?c ts) ?eids (s, []) = Inr (s', rtv)" and del: "delivered wg ?c ts (set ?eids) s s'"
    by blast
  have k: "knows wg s eid \<Longrightarrow> eid \<in> fst ` set (rs s)" for eid
    by (auto simp: knows_def dest: bm_get_Some_key split: option.splits)
  have "delivered wg ?c ts ?E s s' = delivered wg ?c ts (set ?eids) s s'"
  proof (cases "data_reader_id d = eid_UNKNOW")
    case True
    then have "(\<exists>eid \<in> ?E. knows wg s eid) = (\<exists>eid \<in> set ?eids. knows wg s eid)" using k by auto
    moreover have "bm_get (rs s) eid = Some r \<Longrightarrow> (eid \<in> ?E) = (eid \<in> set ?eids)" for eid r
      using True by (auto dest: bm_get_Some_key)
    ultimately show ?thesis unfolding delivered_def by (simp cong: imp_cong)
  qed (simp add: delivered_def)
  moreover have "handle_data_submsg wr (Some ts) d flag s = Inr (s', Inr (some_list rtv))"
    using user foreign plain sn run
    by (simp add: handle_data_submsg_def dispatch_data_def user_data_def deliver_user_data_def wg unwrap_def
        SEQUENCENUMBER_UNKNOWN_def wrap_s_def del: if_split)
  ultimately show ?thesis using del by blast
qed

end
