(* ===== verification/Umber_Participant.thy ===== *)
theory Umber_Participant
  imports Umber_ReceiverInv
begin

text \<open>
  The properties of the message receiver: packets keep the invariants of the participant, user data is
  delivered to the readers that know its writer, a heartbeat can end the process.
\<close>

section \<open>Packets keep the invariants\<close>

lemma packets_proceed:
  assumes "\<forall>bytes \<in> set packets. \<forall>msg. read_message wr bytes = Inr (Some msg) \<longrightarrow>
      list_all in_range (submessages msg)"
    and "handle_packet wr now packets s = Inr (s', rtv)"
  shows "proceeds s s'"
proof -
  let ?f = "\<lambda>bytes (s, rtv). if packet_ignored bytes then Inr (s, rtv)
      else rbind (read_message wr bytes) (\<lambda>m. case m of None \<Rightarrow> Inr (s, rtv) | Some msg \<Rightarrow>
        rbind (handle_parsed_packet wr now msg s) (\<lambda>(s', rt). Inr (s', rtv @ or_default rt [])))"
  from assms(2) obtain v where "rfold ?f packets (s, []) = Inr (s', v)"
    by (auto simp: handle_packet_def rbind_Inr_iff)
  then have "proceeds s (fst (s', v))"
  proof (rule rfold_invariant)
    fix bytes st st' assume b: "bytes \<in> set packets" and st: "proceeds s (fst st)" "?f bytes st = Inr st'"
    obtain u l where u: "st = (u, l)" by fastforce
    from st(2) have "fst st' = u \<or> (\<exists>msg rt. read_message wr bytes = Inr (Some msg) \<and>
        handle_parsed_packet wr now msg u = Inr (fst st', rt))"
      unfolding u by (auto elim!: rbind_Inr_E split: if_split_asm option.split_asm)
    with st(1) u parsed_packet_proceeds assms(1) b show "proceeds s (fst st')"
      by (metis fst_conv proceeds_trans)
  qed simp
  then show ?thesis by simp
qed

text \<open>
  C11. Whatever packets arrive, in any number, of any content whose sequence numbers are in range, and
  whatever the parsers of the wire format make of them: if their processing does not panic, no writer or
  reader of the participant appears or disappears, every writer and every reader that satisfied its
  invariant still does, no sample that the application wrote is lost before the writer has processed
  it, and the tables of the discovery data base stay ordered.
\<close>

theorem packets_keep_invariants:
  assumes range: "\<forall>bytes \<in> set packets. \<forall>msg. read_message wr bytes = Inr (Some msg) \<longrightarrow>
      list_all in_range (submessages msg)"
    and run: "handle_packet wr now packets s = Inr (s', rtv)"
  shows "bm_keys (ws s') = bm_keys (ws s) \<and> bm_keys (rs s') = bm_keys (rs s) \<and>
    (\<forall>eid w. bm_get (ws s) eid = Some w \<longrightarrow> writer_inv w \<longrightarrow>
      (\<exists>w'. bm_get (ws s') eid = Some w' \<and> writer_inv w' \<and> w_guid w' = w_guid w \<and>
        unprocessed_seqnum (writer_cache w') = unprocessed_seqnum (writer_cache w))) \<and>
    (\<forall>eid r. bm_get (rs s) eid = Some r \<longrightarrow> reader_inv r \<longrightarrow>
      (\<exists>r'. bm_get (rs s') eid = Some r' \<and> reader_inv r')) \<and>
    (db_inv (disc_db (mr s)) \<longrightarrow> db_inv (disc_db (mr s')))"
  using packets_proceed [OF range run] unfolding proceeds_def evolves_def by blast

text \<open>A participant with one reader; its parsers know one message.\<close>

definition ex_receiver :: MessageReceiver where
  "ex_receiver = (MessageReceiver_new (guid_prefix ex_reader_guid) 0 DiscoveryDB_new (ex_payload 0))
     \<lparr>source_guid_prefix := guid_prefix ex_guid, dest_guid_prefix := guid_prefix ex_reader_guid\<rparr>"

definition ex_node :: RecvState where
  "ex_node = \<lparr>mr = ex_receiver, ws = [],
     rs = [(entity_id ex_reader_guid, ex_reader [] Initial (HistoryCache_new HCReader))]\<rparr>"

definition ex_data :: Data where
  "ex_data = \<lparr>data_reader_id = eid_UNKNOW, data_writer_id = entity_id ex_guid, writer_sn = 1, inline_qos = None,
     serialized_payload = Some (ex_payload 7)\<rparr>"

definition ex_now :: Timestamp where "ex_now = \<lparr>ts_seconds = 9, ts_fraction = 0\<rparr>"

definition ex_packet :: "EntitySubmessage \<Rightarrow> Message" where
  "ex_packet e = \<lparr>header = Header_new (guid_prefix ex_guid),
     submessages = [\<lparr>sub_header = \<lparr>submessage_id = 0x15, sub_flags = 1, submessage_length = 0\<rparr>, sub_body = Entity e\<rparr>]\<rparr>"

definition ex_wire :: "EntitySubmessage \<Rightarrow> Wire" where
  "ex_wire e = \<lparr>read_message = (\<lambda>bytes. Inr (if length bytes = 20 then Some (ex_packet e) else None)),
     read_sdp = (\<lambda>en bytes. Inr None), read_participant_message = (\<lambda>en bytes. Inr None)\<rparr>"

lemma ex_packet_submessages:
  "submessages (ex_packet e) = \<lparr>sub_header = \<lparr>submessage_id = 0x15, sub_flags = 1, submessage_length = 0\<rparr>, sub_body = Entity e\<rparr> # []"
  "sub_body \<lparr>sub_header = h, sub_body = Entity e\<rparr> = Entity e"
  by (simp_all add: ex_packet_def)

lemma ex_reader_knows: "is_contain_writer g (ex_reader cs st h) \<longleftrightarrow> g = ex_guid"
  by (simp add: is_contain_writer_def)

lemma ex_reader_ok: "reader_inv (ex_reader [] Initial (HistoryCache_new HCReader))"
  using hc_inv_new [of HCReader]
  by (intro ex_reader_inv) (simp_all add: HistoryCache_new_def state_ok_def)

lemma ex_node_simps [simp]:
  "rs ex_node = [(entity_id ex_reader_guid, ex_reader [] Initial (HistoryCache_new HCReader))]"
  "ws ex_node = []" "mr ex_node = ex_receiver"
  by (simp_all add: ex_node_def)

lemma ex_node_ok:
  "bm_wf (rs ex_node)" "\<forall>eid r. bm_get (rs ex_node) eid = Some r \<longrightarrow> reader_inv r"
  "user_data ex_data" "0 \<le> writer_sn ex_data" "writer_sn ex_data < i64_max"
  "\<forall>eid r. bm_get (rs ex_node) eid = Some r \<longrightarrow> is_contain_writer ex_guid r \<longrightarrow>
     can_add (received_change ts ex_data s) r"
  using ex_reader_ok
  by (auto simp: bm_wf_def bs_wf_def user_data_def ex_data_def i64_max_def can_add_def
      HistoryCache_new_def ex_guid_def entity_id_defs entity_kind_defs split: if_splits)

lemma ex_not_own: "\<not> own_message ex_node" "\<not> flag_contains 4 DataFlag_InlineQos"
  by (simp_all add: own_message_def ex_receiver_def MessageReceiver_new_def ex_guid_def ex_reader_guid_def)
    (simp add: flag_contains_def DataFlag_InlineQos_def)

definition ex_bytes :: "u8 list" where "ex_bytes = RTPS_magic @ replicate 16 0"

lemma ex_packet_handled:
  "\<exists>s' rtv. handle_packet (ex_wire (ES_Data ex_data 4)) (Some ex_now) [ex_bytes] ex_node = Inr (s', rtv)"
proof -
  let ?s = "ex_node\<lparr>mr := (reset ex_receiver)\<lparr>dest_guid_prefix := guid_prefix ex_reader_guid,
    source_guid_prefix := guid_prefix ex_guid\<rparr>\<rparr>"
  have own: "\<not> own_message ?s"
    by (simp add: own_message_def reset_def ex_receiver_def MessageReceiver_new_def ex_guid_def ex_reader_guid_def)
  have rs: "rs ?s = rs ex_node" by simp
  have g: "ex_guid = GUID (source_guid_prefix (mr ?s)) (data_writer_id ex_data)"
    by (simp add: ex_data_def ex_guid_def)
  from user_data_handled [OF ex_node_ok(1,2,3) [folded rs] own ex_not_own(2) ex_node_ok(4,5) g
      ex_node_ok(6) [folded rs], of "ex_wire (ES_Data ex_data 4)" ex_now]
  obtain s' rtv where "handle_data_submsg (ex_wire (ES_Data ex_data 4)) (Some ex_now) ex_data 4 ?s = Inr (s', Inr rtv)"
    by blast
  then have "handle_parsed_packet (ex_wire (ES_Data ex_data 4)) (Some ex_now) (ex_packet (ES_Data ex_data 4)) ex_node =
      Inr (s', some_list (or_default rtv []))"
    by (simp add: handle_parsed_packet_def Let_def ex_packet_def Header_new_def ex_receiver_def MessageReceiver_new_def
        reset_def)
  then show ?thesis
    by (simp add: handle_packet_def packet_ignored_def ex_bytes_def RTPS_magic_def ex_wire_def)
qed

theorem packets_keep_invariants_witness:
  "\<exists>s' rtv r'. handle_packet (ex_wire (ES_Data ex_data 4)) (Some ex_now) [ex_bytes] ex_node = Inr (s', rtv) \<and>
     bm_get (rs s') (entity_id ex_reader_guid) = Some r' \<and> reader_inv r' \<and> db_inv (disc_db (mr s'))"
proof -
  from ex_packet_handled obtain s' rtv where
    run: "handle_packet (ex_wire (ES_Data ex_data 4)) (Some ex_now) [ex_bytes] ex_node = Inr (s', rtv)" by blast
  have range: "\<forall>bytes \<in> set [ex_bytes]. \<forall>msg. read_message (ex_wire (ES_Data ex_data 4)) bytes = Inr (Some msg) \<longrightarrow>
      list_all in_range (submessages msg)"
    by (simp add: ex_wire_def ex_packet_def in_range_def ex_data_def i64_max_def)
  have "db_inv (disc_db (mr ex_node))"
    by (simp add: ex_receiver_def MessageReceiver_new_def DiscoveryDB_new_def db_inv_def)
  moreover have "bm_get (rs ex_node) (entity_id ex_reader_guid) = Some (ex_reader [] Initial (HistoryCache_new HCReader))"
    by simp
  ultimately show ?thesis using packets_keep_invariants [OF range run] run ex_reader_ok by blast
qed

section \<open>Delivery of user data\<close>

text \<open>
  C12. User data reaches the readers that know its writer. A DATA submessage of another participant, for a
  user endpoint and without inline QoS (with inline QoS the receiver refuses it), is processed without a panic, if
  every reader that knows the writer can take the change. Exactly the addressed readers that know the writer process the change,
  stamped with the time of its arrival; all other readers and all writers are as before. If there is such a reader the writer
  counts as alive from that time; if there is none the discovery data base is untouched.
\<close>

theorem data_delivered:
  assumes wf: "bm_wf (rs s)" and inv: "\<forall>eid r. bm_get (rs s) eid = Some r \<longrightarrow> reader_inv r"
    and user: "user_data d" and foreign: "\<not> own_message s" and plain: "\<not> flag_contains flag DataFlag_InlineQos"
    and sn: "0 \<le> writer_sn d" "writer_sn d < i64_max"
    and wg: "wg = GUID (source_guid_prefix (mr s)) (data_writer_id d)"
    and c: "c = received_change ts d s"
    and room: "\<forall>eid r. bm_get (rs s) eid = Some r \<longrightarrow> is_contain_writer wg r \<longrightarrow> can_add c r"
  shows "\<exists>s' rtv. handle_data_submsg wr (Some ts) d flag s = Inr (s', Inr rtv) \<and> ws s' = ws s \<and>
    (\<forall>eid r. bm_get (rs s) eid = Some r \<longrightarrow>
      (if (data_reader_id d = eid_UNKNOW \<or> data_reader_id d = eid) \<and> is_contain_writer wg r
       then \<exists>r' rt. reader_add_change (source_guid_prefix (mr s)) c r = Inr (r', rt) \<and>
              bm_get (rs s') eid = Some r' \<and> reader_inv r'
       else bm_get (rs s') eid = Some r)) \<and>
    (if \<exists>eid. (data_reader_id d = eid_UNKNOW \<or> data_reader_id d = eid) \<and> knows wg s eid
     then \<exists>k. bm_get (remote_writer_data (disc_db (mr s'))) wg = Some (Live ts, k)
     else disc_db (mr s') = disc_db (mr s))"
proof -
  let ?E = "{eid. data_reader_id d = eid_UNKNOW \<or> eid = data_reader_id d}"
  from user_data_handled [OF wf inv user foreign plain sn wg room [unfolded c], of wr] obtain s' rtv where
    run: "handle_data_submsg wr (Some ts) d flag s = Inr (s', Inr rtv)" and del: "delivered wg c ts ?E s s'"
    unfolding c by blast
  have E: "(data_reader_id d = eid_UNKNOW \<or> data_reader_id d = eid) \<longleftrightarrow> eid \<in> ?E" for eid by auto
  show ?thesis
    unfolding E using run del unfolding delivered_def Bex_def by blast
qed

theorem data_delivered_witness:
  "\<exists>s' rtv k r' rt. handle_data_submsg (ex_wire (ES_Data ex_data 4)) (Some ex_now) ex_data 4 ex_node = Inr (s', Inr rtv) \<and>
     reader_add_change (guid_prefix ex_guid) (received_change ex_now ex_data ex_node)
       (ex_reader [] Initial (HistoryCache_new HCReader)) = Inr (r', rt) \<and>
     bm_get (rs s') (entity_id ex_reader_guid) = Some r' \<and> reader_inv r' \<and>
     bm_get (remote_writer_data (disc_db (mr s'))) ex_guid = Some (Live ex_now, k)"
proof -
  have g: "ex_guid = GUID (source_guid_prefix (mr ex_node)) (data_writer_id ex_data)"
    by (simp add: ex_data_def ex_receiver_def ex_guid_def)
  have src: "source_guid_prefix ex_receiver = guid_prefix ex_guid" by (simp add: ex_receiver_def)
  have "knows ex_guid ex_node (entity_id ex_reader_guid)" "data_reader_id ex_data = eid_UNKNOW"
    by (simp_all add: knows_def is_contain_writer_def ex_data_def)
  note k = this
  from data_delivered [OF ex_node_ok(1,2,3) ex_not_own ex_node_ok(4,5) g refl ex_node_ok(6),
      of "ex_wire (ES_Data ex_data 4)" ex_now] obtain s' rtv where
    1: "handle_data_submsg (ex_wire (ES_Data ex_data 4)) (Some ex_now) ex_data 4 ex_node = Inr (s', Inr rtv)"
    and 2: "\<forall>eid r. bm_get (rs ex_node) eid = Some r \<longrightarrow>
      (if (data_reader_id ex_data = eid_UNKNOW \<or> data_reader_id ex_data = eid) \<and> is_contain_writer ex_guid r
       then \<exists>r' rt. reader_add_change (source_guid_prefix (mr ex_node)) (received_change ex_now ex_data ex_node) r =
              Inr (r', rt) \<and> bm_get (rs s') eid = Some r' \<and> reader_inv r'
       else bm_get (rs s') eid = Some r)"
    and 3: "if \<exists>eid. (data_reader_id ex_data = eid_UNKNOW \<or> data_reader_id ex_data = eid) \<and> knows ex_guid ex_node eid
     then \<exists>k. bm_get (remote_writer_data (disc_db (mr s'))) ex_guid = Some (Live ex_now, k)
     else disc_db (mr s') = disc_db (mr ex_node)" by blast
  from 2 [rule_format, of "entity_id ex_reader_guid" "ex_reader [] Initial (HistoryCache_new HCReader)"] k
  have "\<exists>r' rt. reader_add_change (guid_prefix ex_guid) (received_change ex_now ex_data ex_node)
       (ex_reader [] Initial (HistoryCache_new HCReader)) = Inr (r', rt) \<and>
     bm_get (rs s') (entity_id ex_reader_guid) = Some r' \<and> reader_inv r'"
    by (simp add: src ex_reader_knows)
  moreover from 3 k have "\<exists>k. bm_get (remote_writer_data (disc_db (mr s'))) ex_guid = Some (Live ex_now, k)"
    by (auto split: if_splits)
  ultimately show ?thesis using 1 by blast
qed

section \<open>A heartbeat that ends the process\<close>

text \<open>
  C19. A packet of any other participant can end the process. When its first submessage is a valid
  HEARTBEAT with the Liveliness flag, addressed to an existing reader that does not know the writer, the
  receiver asks that reader for the QoS of the writer, which panics.
\<close>

theorem heartbeat_crash:
  assumes first: "submessages msg = m # ms" "sub_body m = Entity (ES_HeartBeat hb flag)"
    and foreign: "header_guid_prefix (header msg) \<noteq> own_guid_prefix (mr s)"
    and valid: "heartbeat_is_valid flag hb = Inr True" and flag: "flag_contains flag HeartbeatFlag_Liveliness"
    and reader: "hb_reader_id hb \<noteq> eid_UNKNOW" "bm_get (rs s) (hb_reader_id hb) = Some r"
    and unknown: "\<not> is_contain_writer (GUID (header_guid_prefix (header msg)) (hb_writer_id hb)) r"
  shows "handle_parsed_packet wr (Some ts) msg s = Inl ExplicitPanic"
proof -
  let ?g = "GUID (header_guid_prefix (header msg)) (hb_writer_id hb)"
  have "handle_heartbeat ?g flag hb r = Inr (r, None)" "get_matched_writer_qos ?g r = Inl ExplicitPanic"
    using unknown by (auto simp: is_contain_writer_def handle_heartbeat_def rematch_def get_matched_writer_qos_def Let_def)
  with assms show ?thesis
    by (simp add: handle_parsed_packet_def own_message_def no_timers_def handle_heartbeat_submsg_def
        heartbeat_to_def deliver_heartbeat_def unwrap_def Let_def reset_def)
qed

definition ex_crash :: Heartbeat where
  "ex_crash = ex_heartbeat\<lparr>hb_reader_id := entity_id ex_reader_guid, hb_writer_id := eid_UNKNOW, first_sn := 1, last_sn := 1\<rparr>"

theorem heartbeat_crash_witness:
  "handle_parsed_packet (ex_wire (ES_HeartBeat ex_crash 4)) (Some ex_now) (ex_packet (ES_HeartBeat ex_crash 4))
     ex_node = Inl ExplicitPanic"
  by (rule heartbeat_crash [OF ex_packet_submessages, where r = "ex_reader [] Initial (HistoryCache_new HCReader)"])
    (simp_all add: i64_sub_def in_i64_def i64_max_def i64_min_def ex_packet_def Header_new_def ex_receiver_def MessageReceiver_new_def ex_crash_def
      heartbeat_is_valid_def flag_contains_def HeartbeatFlag_Liveliness_def HeartbeatFlag_GroupInfo_def
      ex_reader_knows ex_guid_def ex_reader_guid_def entity_id_defs entity_kind_defs)

end
