(* ===== verification/Umber_Wire.thy ===== *)
theory Umber_Wire
  imports Umber_Message
begin

text \<open>
  The byte encoding of RTPS messages: \<^verbatim>\<open>Message::new\<close> and the \<^verbatim>\<open>Writable\<close> implementations of
  \<^verbatim>\<open>src/message.rs\<close>, \<^verbatim>\<open>src/message/submessage.rs\<close>, \<^verbatim>\<open>src/message/submessage/element.rs\<close> and
  \<^verbatim>\<open>src/message/submessage/element/\<close>.

  The crate \<^verbatim>\<open>speedy\<close> is the parameter \<open>Speedy\<close>: how it lays out a 16-bit and a 32-bit integer
  for an endianness, its default context, the readers of the optional fields and of the
  locator lists that it derives, the check of a string's encoding and its reader of a string (the
  value with the number of bytes read). What its documentation promises of them is \<open>speedy_ok\<close>. A derived
  implementation reads and writes the fields in the order of their declaration. A reader
  takes the remaining bytes and returns a value with the rest, \<open>None\<close> for a \<^verbatim>\<open>speedy::Error\<close>, or
  a panic. \<^verbatim>\<open>Bytes::slice\<close>, \<^verbatim>\<open>split_to\<close> and \<^verbatim>\<open>split_off\<close> panic out of bounds.
\<close>

section \<open>The serialisation library\<close>

record Speedy =
  default_ctx :: Endianness
  enc16 :: "Endianness \<Rightarrow> u16 \<Rightarrow> u8 \<times> u8"
  dec16 :: "Endianness \<Rightarrow> u8 \<times> u8 \<Rightarrow> u16"
  enc32 :: "Endianness \<Rightarrow> u32 \<Rightarrow> u8 \<times> u8 \<times> u8 \<times> u8"
  dec32 :: "Endianness \<Rightarrow> u8 \<times> u8 \<times> u8 \<times> u8 \<Rightarrow> u32"
  get_opt_sn :: "Endianness \<Rightarrow> u8 list \<Rightarrow> (SequenceNumber option \<times> u8 list) option"
  get_opt_digest :: "Endianness \<Rightarrow> u8 list \<Rightarrow> (u8 list option \<times> u8 list) option"
  get_info_reply :: "Endianness \<Rightarrow> u8 list \<Rightarrow> (InfoReply \<times> u8 list) option"
  put_info_reply :: "Endianness \<Rightarrow> InfoReply \<Rightarrow> u8 list"
  utf8_valid :: "u8 list \<Rightarrow> bool"
  get_string :: "Endianness \<Rightarrow> u8 list \<Rightarrow> (string \<times> nat) option"

text \<open>
  The integers are read back as they were written, the default context is little endian, a
  little-endian integer begins with its low half, and a field marked \<^verbatim>\<open>default_on_eof\<close> is
  \<^verbatim>\<open>None\<close> at the end of the input.
\<close>

definition speedy_ok :: "Speedy \<Rightarrow> bool" where
  "speedy_ok S \<longleftrightarrow> default_ctx S = LittleEndian \<and>
     (\<forall>e w. dec16 S e (enc16 S e w) = w) \<and> (\<forall>e w. dec32 S e (enc32 S e w) = w) \<and>
     (\<forall>w. enc16 S LittleEndian (ucast w) =
        (fst (enc32 S LittleEndian w), fst (snd (enc32 S LittleEndian w)))) \<and>
     (\<forall>e. get_opt_sn S e [] = Some (None, [])) \<and> (\<forall>e. get_opt_digest S e [] = Some (None, []))"

section \<open>Readers and writers\<close>

type_synonym 'a read = "u8 list \<Rightarrow> ('a \<times> u8 list) option res"

definition obind :: "'a option res \<Rightarrow> ('a \<Rightarrow> 'b option res) \<Rightarrow> 'b option res" where
  "obind m f = rbind m (\<lambda>r. case r of None \<Rightarrow> Inr None | Some v \<Rightarrow> f v)"

definition rd_bind :: "'a read \<Rightarrow> ('a \<Rightarrow> 'b read) \<Rightarrow> 'b read" where
  "rd_bind p f bs = obind (p bs) (\<lambda>(v, rest). f v rest)"

definition rd_ok :: "'a \<Rightarrow> 'a read" where
  "rd_ok v bs = Inr (Some (v, bs))"

definition rd_lift :: "(u8 list \<Rightarrow> ('a \<times> u8 list) option) \<Rightarrow> 'a read" where
  "rd_lift g bs = Inr (g bs)"

text \<open>\<^verbatim>\<open>read_from_buffer\<close>: the bytes after the value are ignored.\<close>

definition read_from_buffer :: "'a read \<Rightarrow> u8 list \<Rightarrow> 'a option res" where
  "read_from_buffer p bs = obind (p bs) (\<lambda>(v, rest). Inr (Some v))"

definition put16 :: "Speedy \<Rightarrow> Endianness \<Rightarrow> u16 \<Rightarrow> u8 list" where
  "put16 S e w = (case enc16 S e w of (a, b) \<Rightarrow> [a, b])"

definition put32 :: "Speedy \<Rightarrow> Endianness \<Rightarrow> u32 \<Rightarrow> u8 list" where
  "put32 S e w = (case enc32 S e w of (a, b, c, d) \<Rightarrow> [a, b, c, d])"

definition read_u16 :: "Speedy \<Rightarrow> Endianness \<Rightarrow> u16 read" where
  "read_u16 S e bs =
     Inr (case bs of a # b # rest \<Rightarrow> Some (dec16 S e (a, b), rest) | _ \<Rightarrow> None)"

definition read_u32 :: "Speedy \<Rightarrow> Endianness \<Rightarrow> u32 read" where
  "read_u32 S e bs =
     Inr (case bs of a # b # c # d # rest \<Rightarrow> Some (dec32 S e (a, b, c, d), rest) | _ \<Rightarrow> None)"

definition read_array :: "nat \<Rightarrow> u8 list read" where
  "read_array n bs = Inr (if n \<le> length bs then Some (take n bs, drop n bs) else None)"

fun read_words :: "Speedy \<Rightarrow> Endianness \<Rightarrow> nat \<Rightarrow> u32 list read" where
  "read_words S e 0 = rd_ok []"
| "read_words S e (Suc n) =
     rd_bind (read_u32 S e) (\<lambda>w. rd_bind (read_words S e n) (\<lambda>ws. rd_ok (w # ws)))"

section \<open>The elements\<close>

definition read_entity_id :: "EntityId read" where
  "read_entity_id bs =
     Inr (case bs of a # b # c # d # rest \<Rightarrow> Some (EntityId (a, b, c) (EntityKind d), rest)
          | _ \<Rightarrow> None)"

definition write_entity_id :: "EntityId \<Rightarrow> u8 list" where
  "write_entity_id i =
     (case entity_key i of (a, b, c) \<Rightarrow> [a, b, c, kind_value (entity_kind i)])"

definition read_sn :: "Speedy \<Rightarrow> Endianness \<Rightarrow> SequenceNumber read" where
  "read_sn S e = rd_bind (read_u32 S e) (\<lambda>high. rd_bind (read_u32 S e) (\<lambda>low bs.
     rbind (sn_read (sint high, uint low)) (\<lambda>sn. rd_ok sn bs)))"

definition write_sn :: "Speedy \<Rightarrow> Endianness \<Rightarrow> SequenceNumber \<Rightarrow> u8 list" where
  "write_sn S e sn =
     (case sn_write sn of (high, low) \<Rightarrow> put32 S e (word_of_int high) @ put32 S e (word_of_int low))"

text \<open>
  \<^verbatim>\<open>NumberSet\<close>: the number of words is \<^verbatim>\<open>num_bits.div_ceil(32)\<close>; writing one whose bitmap has
  another length is an error.
\<close>

definition read_number_set :: "Speedy \<Rightarrow> Endianness \<Rightarrow> 'n read \<Rightarrow> 'n NumberSet read" where
  "read_number_set S e rd = rd_bind rd (\<lambda>base. rd_bind (read_u32 S e) (\<lambda>nb.
     rd_bind (read_words S e (div_ceil32 (unat nb))) (\<lambda>bm.
       rd_ok \<lparr>bitmap_base = base, num_bits = unat nb, bitmap = bm\<rparr>)))"

definition write_number_set :: "Speedy \<Rightarrow> Endianness \<Rightarrow> ('n \<Rightarrow> u8 list) \<Rightarrow> 'n NumberSet
    \<Rightarrow> u8 list option" where
  "write_number_set S e wr s =
     (if length (bitmap s) = div_ceil32 (num_bits s)
      then Some (wr (bitmap_base s) @ put32 S e (word_of_nat (num_bits s)) @
                 concat (map (put32 S e) (bitmap s)))
      else None)"

definition read_timestamp :: "Speedy \<Rightarrow> Endianness \<Rightarrow> Timestamp read" where
  "read_timestamp S e = rd_bind (read_u32 S e) (\<lambda>s. rd_bind (read_u32 S e) (\<lambda>f.
     rd_ok \<lparr>ts_seconds = uint s, ts_fraction = uint f\<rparr>))"

definition write_timestamp :: "Speedy \<Rightarrow> Endianness \<Rightarrow> Timestamp \<Rightarrow> u8 list" where
  "write_timestamp S e t =
     put32 S e (word_of_int (ts_seconds t)) @ put32 S e (word_of_int (ts_fraction t))"

definition PID_SENTINEL :: u16 where "PID_SENTINEL = 0x0001"

text \<open>
  A parameter list is read up to the sentinel identifier. A negative length becomes a huge
  \<^verbatim>\<open>usize\<close>, which is more than any buffer holds.
\<close>

function read_parameter_list :: "Speedy \<Rightarrow> Endianness \<Rightarrow> u8 list \<Rightarrow> (ParameterList \<times> u8 list) option" where
  "read_parameter_list S e bs =
     (case bs of
        a # b # bs1 \<Rightarrow>
          if dec16 S e (a, b) = PID_SENTINEL then Some ([], bs1)
          else
            (case bs1 of
               c # d # bs2 \<Rightarrow>
                 let len = sint (dec16 S e (c, d)) in
                 if len < 0 \<or> int (length bs2) < len then None
                 else
                   (case read_parameter_list S e (drop (nat len) bs2) of
                      None \<Rightarrow> None
                    | Some (ps, rest) \<Rightarrow>
                        Some (\<lparr>parameter_id = dec16 S e (a, b),
                               parameter_value = take (nat len) bs2\<rparr> # ps, rest))
             | _ \<Rightarrow> None)
      | _ \<Rightarrow> None)"
  by pat_completeness auto
termination by (relation "measure (\<lambda>(S, e, bs). length bs)") auto

fun write_parameters :: "Speedy \<Rightarrow> Endianness \<Rightarrow> ParameterList \<Rightarrow> u8 list" where
  "write_parameters S e [] = []"
| "write_parameters S e (p # ps) =
     (let len = length (parameter_value p); pad = pad_len len
      in put16 S e (parameter_id p) @ put16 S e (word_of_nat (len + pad)) @
         parameter_value p @ replicate pad 0 @ write_parameters S e ps)"

definition write_parameter_list :: "Speedy \<Rightarrow> Endianness \<Rightarrow> ParameterList \<Rightarrow> u8 list" where
  "write_parameter_list S e ps = write_parameters S e ps @ put32 S e 0x00000001"

section \<open>The submessages\<close>

definition read_acknack :: "Speedy \<Rightarrow> Endianness \<Rightarrow> AckNack read" where
  "read_acknack S e = rd_bind read_entity_id (\<lambda>rid. rd_bind read_entity_id (\<lambda>wid.
     rd_bind (read_number_set S e (read_sn S e)) (\<lambda>st. rd_bind (read_u32 S e) (\<lambda>c.
       rd_ok \<lparr>an_reader_id = rid, an_writer_id = wid, reader_sn_state = st, an_count = sint c\<rparr>))))"

definition write_acknack :: "Speedy \<Rightarrow> Endianness \<Rightarrow> AckNack \<Rightarrow> u8 list option" where
  "write_acknack S e a =
     map_option (\<lambda>st. write_entity_id (an_reader_id a) @ write_entity_id (an_writer_id a) @ st @
                       put32 S e (word_of_int (an_count a)))
       (write_number_set S e (write_sn S e) (reader_sn_state a))"

definition read_heartbeat :: "Speedy \<Rightarrow> Endianness \<Rightarrow> Heartbeat read" where
  "read_heartbeat S e = rd_bind read_entity_id (\<lambda>rid. rd_bind read_entity_id (\<lambda>wid.
     rd_bind (read_sn S e) (\<lambda>fsn. rd_bind (read_sn S e) (\<lambda>lsn. rd_bind (read_u32 S e) (\<lambda>c.
     rd_bind (rd_lift (get_opt_sn S e)) (\<lambda>cg. rd_bind (rd_lift (get_opt_sn S e)) (\<lambda>fg.
     rd_bind (rd_lift (get_opt_sn S e)) (\<lambda>lg. rd_bind (rd_lift (get_opt_digest S e)) (\<lambda>w.
     rd_bind (rd_lift (get_opt_digest S e)) (\<lambda>sw.
       rd_ok \<lparr>hb_reader_id = rid, hb_writer_id = wid, first_sn = fsn, last_sn = lsn,
              hb_count = sint c, current_gsn = cg, first_gsn = fg, last_gsn = lg,
              writer_set = w, secure_writer_set = sw\<rparr>))))))))))"

definition write_opt :: "('a \<Rightarrow> u8 list) \<Rightarrow> 'a option \<Rightarrow> u8 list" where
  "write_opt wr v = (case v of Some x \<Rightarrow> wr x | None \<Rightarrow> [])"

definition write_heartbeat :: "Speedy \<Rightarrow> Endianness \<Rightarrow> Heartbeat \<Rightarrow> u8 list" where
  "write_heartbeat S e h =
     write_entity_id (hb_reader_id h) @ write_entity_id (hb_writer_id h) @
     write_sn S e (first_sn h) @ write_sn S e (last_sn h) @ put32 S e (word_of_int (hb_count h)) @
     write_opt (write_sn S e) (current_gsn h) @ write_opt (write_sn S e) (first_gsn h) @
     write_opt (write_sn S e) (last_gsn h) @ write_opt (\<lambda>d. d) (writer_set h) @
     write_opt (\<lambda>d. d) (secure_writer_set h)"

definition read_gap :: "Speedy \<Rightarrow> Endianness \<Rightarrow> Gap read" where
  "read_gap S e = rd_bind read_entity_id (\<lambda>rid. rd_bind read_entity_id (\<lambda>wid.
     rd_bind (read_sn S e) (\<lambda>start. rd_bind (read_number_set S e (read_sn S e)) (\<lambda>lst.
     rd_bind (rd_lift (get_opt_sn S e)) (\<lambda>gs. rd_bind (rd_lift (get_opt_sn S e)) (\<lambda>ge.
       rd_ok \<lparr>gap_reader_id = rid, gap_writer_id = wid, gap_start = start, gap_list = lst,
              gap_start_gsn = gs, gap_end_gsn = ge\<rparr>))))))"

definition write_gap :: "Speedy \<Rightarrow> Endianness \<Rightarrow> Gap \<Rightarrow> u8 list option" where
  "write_gap S e g =
     map_option (\<lambda>lst. write_entity_id (gap_reader_id g) @ write_entity_id (gap_writer_id g) @
                        write_sn S e (gap_start g) @ lst @
                        write_opt (write_sn S e) (gap_start_gsn g) @
                        write_opt (write_sn S e) (gap_end_gsn g))
       (write_number_set S e (write_sn S e) (gap_list g))"

definition read_heartbeat_frag :: "Speedy \<Rightarrow> Endianness \<Rightarrow> HeartbeatFrag read" where
  "read_heartbeat_frag S e = rd_bind read_entity_id (\<lambda>rid. rd_bind read_entity_id (\<lambda>wid.
     rd_bind (read_sn S e) (\<lambda>sn. rd_bind (read_u32 S e) (\<lambda>f. rd_bind (read_u32 S e) (\<lambda>c.
       rd_ok \<lparr>hbf_reader_id = rid, hbf_writer_id = wid, hbf_writer_sn = sn,
              last_fragment_num = uint f, hbf_count = sint c\<rparr>)))))"

definition write_heartbeat_frag :: "Speedy \<Rightarrow> Endianness \<Rightarrow> HeartbeatFrag \<Rightarrow> u8 list" where
  "write_heartbeat_frag S e h =
     write_entity_id (hbf_reader_id h) @ write_entity_id (hbf_writer_id h) @
     write_sn S e (hbf_writer_sn h) @ put32 S e (word_of_int (last_fragment_num h)) @
     put32 S e (word_of_int (hbf_count h))"

definition read_nack_frag :: "Speedy \<Rightarrow> Endianness \<Rightarrow> NackFrag read" where
  "read_nack_frag S e = rd_bind read_entity_id (\<lambda>rid. rd_bind read_entity_id (\<lambda>wid.
     rd_bind (read_sn S e) (\<lambda>sn.
     rd_bind (read_number_set S e (rd_bind (read_u32 S e) (\<lambda>n. rd_ok (unat n)))) (\<lambda>st.
     rd_bind (read_u32 S e) (\<lambda>c.
       rd_ok \<lparr>nf_reader_id = rid, nf_writer_id = wid, nf_writer_sn = sn,
              fragment_number_state = st, nf_count = sint c\<rparr>)))))"

definition write_nack_frag :: "Speedy \<Rightarrow> Endianness \<Rightarrow> NackFrag \<Rightarrow> u8 list option" where
  "write_nack_frag S e n =
     map_option (\<lambda>st. write_entity_id (nf_reader_id n) @ write_entity_id (nf_writer_id n) @
                       write_sn S e (nf_writer_sn n) @ st @ put32 S e (word_of_int (nf_count n)))
       (write_number_set S e (\<lambda>f. put32 S e (word_of_nat f)) (fragment_number_state n))"

definition read_info_source :: "Speedy \<Rightarrow> Endianness \<Rightarrow> InfoSource read" where
  "read_info_source S e = rd_bind (read_u32 S e) (\<lambda>u. rd_bind (read_array 2) (\<lambda>v.
     rd_bind (read_array 2) (\<lambda>vid. rd_bind (read_array 12) (\<lambda>p.
       rd_ok \<lparr>is_unused = sint u, is_protocol_version = (v ! 0, v ! 1), is_vendor_id = vid,
              is_guid_prefix = p\<rparr>))))"

definition write_info_source :: "Speedy \<Rightarrow> Endianness \<Rightarrow> InfoSource \<Rightarrow> u8 list" where
  "write_info_source S e i =
     put32 S e (word_of_int (is_unused i)) @
     [fst (is_protocol_version i), snd (is_protocol_version i)] @ is_vendor_id i @ is_guid_prefix i"

section \<open>DATA and DATA_FRAG\<close>

text \<open>The accesses to a \<^verbatim>\<open>Bytes\<close> buffer that panic out of bounds.\<close>

definition slice_from :: "nat \<Rightarrow> u8 list \<Rightarrow> u8 list res" where
  "slice_from n buf = (if n \<le> length buf then Inr (drop n buf) else Inl IndexOutOfBounds)"

definition split_to :: "nat \<Rightarrow> u8 list \<Rightarrow> (u8 list \<times> u8 list) res" where
  "split_to n buf = (if n \<le> length buf then Inr (take n buf, drop n buf) else Inl IndexOutOfBounds)"

definition read_at :: "u8 list \<Rightarrow> nat \<Rightarrow> 'a read \<Rightarrow> 'a option res" where
  "read_at buf n p = rbind (slice_from n buf) (read_from_buffer p)"

definition u16_sub :: "u16 \<Rightarrow> nat \<Rightarrow> nat res" where
  "u16_sub w k = (if unat w < k then Inl ArithOverflow else Inr (unat w - k))"

text \<open>
  The inline QoS: the position moves by the length of the list written out again, which
  differs from what was read when a value was not padded.
\<close>

definition read_inline_qos :: "Speedy \<Rightarrow> Endianness \<Rightarrow> bool \<Rightarrow> u8 list \<Rightarrow> nat
    \<Rightarrow> (ParameterList option \<times> nat) option res" where
  "read_inline_qos S e present buf pos =
     (if present then
        obind (read_at buf pos (rd_lift (read_parameter_list S e))) (\<lambda>ps.
          Inr (Some (Some ps, pos + length (write_parameter_list S e ps))))
      else Inr (Some (None, pos)))"

definition payload_at :: "u8 list \<Rightarrow> nat \<Rightarrow> (io_error + SerializedPayload) res" where
  "payload_at buf pos = rbind (slice_from pos buf) payload_from_bytes"

definition flag_endianness :: "u8 \<Rightarrow> Endianness" where
  "flag_endianness flags = (if flag_contains flags 1 then LittleEndian else BigEndian)"

definition deserialize_data :: "Speedy \<Rightarrow> u8 list \<Rightarrow> u8 \<Rightarrow> Data option res" where
  "deserialize_data S buf flags =
     (let e = flag_endianness flags in
      obind (read_at buf 0 (read_u16 S e)) (\<lambda>_.
      obind (read_at buf 2 (read_u16 S e)) (\<lambda>octets_to_inline_qos.
      obind (read_at buf 4 read_entity_id) (\<lambda>rid.
      obind (read_at buf 8 read_entity_id) (\<lambda>wid.
      obind (read_at buf 12 (read_sn S e)) (\<lambda>sn.
      rbind (u16_sub octets_to_inline_qos 16) (\<lambda>extra_octets.
      obind (read_inline_qos S e (flag_contains flags DataFlag_InlineQos) buf (20 + extra_octets))
        (\<lambda>(qos, pos).
      obind (if flag_contains flags DataFlag_Data \<or> flag_contains flags DataFlag_Key
             then rbind (payload_at buf pos) (\<lambda>p.
                    Inr (case p of Inl _ \<Rightarrow> None | Inr v \<Rightarrow> Some (Some v)))
             else Inr (Some None)) (\<lambda>payload.
        Inr (Some \<lparr>data_reader_id = rid, data_writer_id = wid, writer_sn = sn, inline_qos = qos,
                   serialized_payload = payload\<rparr>))))))))))"

definition write_data :: "Speedy \<Rightarrow> Endianness \<Rightarrow> Data \<Rightarrow> u8 list" where
  "write_data S e d =
     put16 S e 0 @ put16 S e 16 @ write_entity_id (data_reader_id d) @
     write_entity_id (data_writer_id d) @ write_sn S e (writer_sn d) @
     write_opt (write_parameter_list S e) (inline_qos d) @
     write_opt payload_to_bytes (serialized_payload d)"

text \<open>The payload of a fragment is unwrapped: one that is too small panics.\<close>

definition deserialize_data_frag :: "Speedy \<Rightarrow> u8 list \<Rightarrow> u8 \<Rightarrow> DataFrag option res" where
  "deserialize_data_frag S buf flags =
     (let e = flag_endianness flags in
      obind (read_at buf 0 (read_u16 S e)) (\<lambda>_.
      obind (read_at buf 2 (read_u16 S e)) (\<lambda>octets_to_inline_qos.
      obind (read_at buf 4 read_entity_id) (\<lambda>rid.
      obind (read_at buf 8 read_entity_id) (\<lambda>wid.
      obind (read_at buf 12 (read_sn S e)) (\<lambda>sn.
      obind (read_at buf 20 (read_u32 S e)) (\<lambda>start.
      obind (read_at buf 24 (read_u16 S e)) (\<lambda>frags.
      obind (read_at buf 26 (read_u16 S e)) (\<lambda>fsize.
      obind (read_at buf 28 (read_u32 S e)) (\<lambda>dsize.
      rbind (u16_sub octets_to_inline_qos 28) (\<lambda>extra_octets.
      obind (read_inline_qos S e (flag_contains flags 0b0010) buf (32 + extra_octets))
        (\<lambda>(qos, pos).
      rbind (payload_at buf pos) (\<lambda>p.
        case p of
          Inl _ \<Rightarrow> Inl UnwrapNone
        | Inr payload \<Rightarrow>
            Inr (Some \<lparr>df_reader_id = rid, df_writer_id = wid, df_writer_sn = sn,
                       fragment_starting_num = uint start, fragments_in_submessage = uint frags,
                       data_size = uint dsize, fragment_size = uint fsize, df_inline_qos = qos,
                       df_serialized_payload = payload\<rparr>))))))))))))))"

definition write_data_frag :: "Speedy \<Rightarrow> Endianness \<Rightarrow> DataFrag \<Rightarrow> u8 list res" where
  "write_data_frag S e d =
     (if df_inline_qos d \<noteq> None \<and> df_inline_qos d \<noteq> Some [] then Inl Unimplemented
      else Inr (put16 S e 0 @ put16 S e 24 @ write_entity_id (df_reader_id d) @
                write_entity_id (df_writer_id d) @ write_sn S e (df_writer_sn d) @
                put32 S e (word_of_int (fragment_starting_num d)) @
                put16 S e (word_of_int (fragments_in_submessage d)) @
                put16 S e (word_of_int (fragment_size d)) @
                put32 S e (word_of_int (data_size d)) @
                payload_to_bytes (df_serialized_payload d)))"

section \<open>Messages\<close>

definition read_submessage_header :: "Speedy \<Rightarrow> Endianness \<Rightarrow> SubMessageHeader read" where
  "read_submessage_header S e = rd_bind (read_array 2) (\<lambda>v. rd_bind (read_u16 S e) (\<lambda>len.
     rd_ok \<lparr>submessage_id = v ! 0, sub_flags = v ! 1, submessage_length = uint len\<rparr>))"

definition write_submessage_header :: "Speedy \<Rightarrow> Endianness \<Rightarrow> SubMessageHeader \<Rightarrow> u8 list" where
  "write_submessage_header S e h =
     [submessage_id h, sub_flags h] @ put16 S e (word_of_int (submessage_length h))"

definition read_header :: "Header read" where
  "read_header = rd_bind (read_array 4) (\<lambda>p. rd_bind (read_array 2) (\<lambda>v.
     rd_bind (read_array 2) (\<lambda>vid. rd_bind (read_array 12) (\<lambda>prefix.
       rd_ok \<lparr>protocol = p, version = (v ! 0, v ! 1), vendor_id = vid,
              header_guid_prefix = prefix\<rparr>))))"

definition write_header :: "Header \<Rightarrow> u8 list" where
  "write_header h =
     protocol h @ [fst (version h), snd (version h)] @ vendor_id h @ header_guid_prefix h"

text \<open>\<^verbatim>\<open>write_to\<close> of a submessage body, a submessage and a message.\<close>

fun write_entity :: "Speedy \<Rightarrow> Endianness \<Rightarrow> EntitySubmessage \<Rightarrow> u8 list option res" where
  "write_entity S e (ES_AckNack s _) = Inr (write_acknack S e s)"
| "write_entity S e (ES_Data s _) = Inr (Some (write_data S e s))"
| "write_entity S e (ES_DataFrag s _) = rbind (write_data_frag S e s) (\<lambda>bs. Inr (Some bs))"
| "write_entity S e (ES_Gap s _) = Inr (write_gap S e s)"
| "write_entity S e (ES_HeartBeat s _) = Inr (Some (write_heartbeat S e s))"
| "write_entity S e (ES_HeartbeatFrag s _) = Inr (Some (write_heartbeat_frag S e s))"
| "write_entity S e (ES_NackFrag s _) = Inr (write_nack_frag S e s)"

fun write_interpreter :: "Speedy \<Rightarrow> Endianness \<Rightarrow> InterpreterSubmessage \<Rightarrow> u8 list" where
  "write_interpreter S e (IS_InfoSource s _) = write_info_source S e s"
| "write_interpreter S e (IS_InfoDestination p _) = p"
| "write_interpreter S e (IS_InfoReply s _) = put_info_reply S e s"
| "write_interpreter S e (IS_InfoReplyIp4 s _) = put_info_reply S e s"
| "write_interpreter S e (IS_InfoTimestamp s _) = write_opt (write_timestamp S e) s"

definition write_submessage :: "Speedy \<Rightarrow> Endianness \<Rightarrow> SubMessage \<Rightarrow> u8 list option res" where
  "write_submessage S e m =
     obind (case sub_body m of
              Entity b \<Rightarrow> write_entity S e b
            | Interpreter b \<Rightarrow> Inr (Some (write_interpreter S e b))) (\<lambda>body.
       Inr (Some (write_submessage_header S e (sub_header m) @ body)))"

fun write_submessages :: "Speedy \<Rightarrow> Endianness \<Rightarrow> SubMessage list \<Rightarrow> u8 list option res" where
  "write_submessages S e [] = Inr (Some [])"
| "write_submessages S e (m # ms) =
     obind (write_submessage S e m) (\<lambda>bs. obind (write_submessages S e ms) (\<lambda>rest.
       Inr (Some (bs @ rest))))"

definition write_message :: "Speedy \<Rightarrow> Endianness \<Rightarrow> Message \<Rightarrow> u8 list option res" where
  "write_message S e m =
     obind (write_submessages S e (submessages m)) (\<lambda>bs. Inr (Some (write_header (header m) @ bs)))"

text \<open>
  One round of the loop of \<^verbatim>\<open>Message::new\<close>. \<open>Failed\<close> is the early return with an error,
  \<open>Skipped\<close> the \<^verbatim>\<open>continue\<close> of the kinds without a body. \<^verbatim>\<open>from_bits_truncate\<close> keeps the bits
  that the flag type of the submessage has.
\<close>

datatype parsed = Failed | Skipped | Parsed SubMessageBody

definition parsed_as :: "('a \<Rightarrow> SubMessageBody) \<Rightarrow> 'a option res \<Rightarrow> parsed res" where
  "parsed_as f m = rbind m (\<lambda>r. Inr (case r of None \<Rightarrow> Failed | Some v \<Rightarrow> Parsed (f v)))"

definition parse_body :: "Speedy \<Rightarrow> SubMessageHeader \<Rightarrow> u8 list \<Rightarrow> parsed res" where
  "parse_body S h body =
     (let e = get_endian h; f = sub_flags h in
      case get_submessagekind h of
        DATA \<Rightarrow> parsed_as (\<lambda>d. Entity (ES_Data d (f AND 0b11111)))
                  (deserialize_data S body (f AND 0b11111))
      | DATA_FRAG \<Rightarrow> parsed_as (\<lambda>d. Entity (ES_DataFrag d (f AND 0b1111)))
                       (deserialize_data_frag S body (f AND 0b1111))
      | HEARTBEAT \<Rightarrow> parsed_as (\<lambda>h. Entity (ES_HeartBeat h (f AND 0b1111)))
                       (read_from_buffer (read_heartbeat S e) body)
      | HEARTBEAT_FRAG \<Rightarrow> parsed_as (\<lambda>h. Entity (ES_HeartbeatFrag h (f AND 0b1)))
                            (read_from_buffer (read_heartbeat_frag S e) body)
      | GAP \<Rightarrow> parsed_as (\<lambda>g. Entity (ES_Gap g (f AND 0b11)))
                 (read_from_buffer (read_gap S e) body)
      | ACKNACK \<Rightarrow> parsed_as (\<lambda>a. Entity (ES_AckNack a (f AND 0b11)))
                     (read_from_buffer (read_acknack S e) body)
      | NACK_FRAG \<Rightarrow> parsed_as (\<lambda>n. Entity (ES_NackFrag n (f AND 0b1)))
                       (read_from_buffer (read_nack_frag S e) body)
      | INFO_SRC \<Rightarrow> parsed_as (\<lambda>i. Interpreter (IS_InfoSource i (f AND 0b1)))
                      (read_from_buffer (read_info_source S e) body)
      | INFO_DST \<Rightarrow> parsed_as (\<lambda>p. Interpreter (IS_InfoDestination p (f AND 0b1)))
                      (read_from_buffer (read_array 12) body)
      | INFO_TS \<Rightarrow> (if flag_contains (f AND 0b11) InfoTimestampFlag_Invalidate
                     then Inr (Parsed (Interpreter (IS_InfoTimestamp None (f AND 0b11))))
                     else parsed_as (\<lambda>t. Interpreter (IS_InfoTimestamp (Some t) (f AND 0b11)))
                            (read_from_buffer (read_timestamp S e) body))
      | INFO_REPLY \<Rightarrow> parsed_as (\<lambda>i. Interpreter (IS_InfoReply i (f AND 0b11)))
                        (read_from_buffer (rd_lift (get_info_reply S e)) body)
      | INFO_REPLY_IP4 \<Rightarrow> parsed_as (\<lambda>i. Interpreter (IS_InfoReplyIp4 i (f AND 0b11)))
                            (read_from_buffer (rd_lift (get_info_reply S e)) body)
      | _ \<Rightarrow> Inr Skipped)"

definition body_length :: "SubMessageHeader \<Rightarrow> u8 list \<Rightarrow> nat" where
  "body_length h buf =
     (if submessage_length h = 0
      then (if get_submessagekind h = PAD \<or> get_submessagekind h = INFO_TS then 0 else length buf)
      else nat (submessage_length h))"

text \<open>The header is read in the default context, whatever endianness its flags announce.\<close>

definition next_submessage :: "Speedy \<Rightarrow> u8 list \<Rightarrow> (SubMessageHeader \<times> parsed \<times> u8 list) option res" where
  "next_submessage S buf =
     rbind (split_to 4 buf) (\<lambda>(hbuf, buf).
       obind (read_from_buffer (read_submessage_header S (default_ctx S)) hbuf) (\<lambda>h.
         rbind (split_to (body_length h buf) buf) (\<lambda>(body, rest).
           rbind (parse_body S h body) (\<lambda>p. Inr (Some (h, p, rest))))))"

lemma obind_simps [simp]:
  "obind (Inl e) f = Inl e"
  "obind (Inr None) f = Inr None"
  "obind (Inr (Some v)) f = f v"
  by (simp_all add: obind_def)

lemma obind_Inr_E:
  assumes "obind m f = Inr (Some y)"
  obtains x where "m = Inr (Some x)" and "f x = Inr (Some y)"
  using assms by (cases m) (auto simp: obind_def split: option.split_asm)

text \<open>Every round consumes at least the four bytes of a header, so the loop ends.\<close>

lemma next_submessage_shrinks:
  assumes "next_submessage S buf = Inr (Some (h, p, rest))"
  shows "length rest + 4 \<le> length buf"
  using assms unfolding next_submessage_def split_to_def
  by (auto elim!: rbind_Inr_E obind_Inr_E split: if_split_asm)

function parse_submessages :: "Speedy \<Rightarrow> u8 list \<Rightarrow> SubMessage list \<Rightarrow> SubMessage list option res" where
  "parse_submessages S buf acc =
     (if buf = [] then Inr (Some acc)
      else
        (case next_submessage S buf of
           Inl p \<Rightarrow> Inl p
         | Inr None \<Rightarrow> Inr None
         | Inr (Some (h, Failed, rest)) \<Rightarrow> Inr None
         | Inr (Some (h, Skipped, rest)) \<Rightarrow> parse_submessages S rest acc
         | Inr (Some (h, Parsed b, rest)) \<Rightarrow>
             parse_submessages S rest (acc @ [\<lparr>sub_header = h, sub_body = b\<rparr>])))"
  by pat_completeness auto
termination
  by (relation "measure (\<lambda>(S, buf, acc). length buf)") (auto dest!: next_submessage_shrinks)

declare parse_submessages.simps [simp del]
declare read_parameter_list.simps [simp del]

definition Message_new :: "Speedy \<Rightarrow> u8 list \<Rightarrow> Message option res" where
  "Message_new S buf =
     rbind (split_to 20 buf) (\<lambda>(hbuf, body).
       obind (read_from_buffer read_header hbuf) (\<lambda>hdr.
         obind (parse_submessages S body []) (\<lambda>ms.
           Inr (Some \<lparr>header = hdr, submessages = ms\<rparr>))))"

section \<open>Reading back what was written\<close>

lemma length_put [simp]: "length (put16 S e w) = 2" "length (put32 S e v) = 4"
  by (simp_all add: put16_def put32_def split: prod.split)

lemma length_write_entity_id [simp]: "length (write_entity_id i) = 4"
  by (simp add: write_entity_id_def split: prod.split)

lemma length_write_sn [simp]: "length (write_sn S e sn) = 8"
  by (simp add: write_sn_def split: prod.split)

lemma rd_ok_apply [simp]: "rd_bind (rd_ok v) f = f v" "rd_ok v bs = Inr (Some (v, bs))"
  by (simp_all add: rd_bind_def rd_ok_def fun_eq_iff)

lemma rd_bind_assoc [simp]: "rd_bind (rd_bind p f) g = rd_bind p (\<lambda>v. rd_bind (f v) g)"
proof
  fix bs
  show "rd_bind (rd_bind p f) g bs = rd_bind p (\<lambda>v. rd_bind (f v) g) bs"
    by (cases "p bs") (auto simp: rd_bind_def obind_def split: option.split prod.split)
qed

text \<open>The contract of a reader on the bytes of a value: it returns the value and the rest.\<close>

definition reads :: "'a read \<Rightarrow> u8 list \<Rightarrow> 'a \<Rightarrow> bool" where
  "reads p w v \<longleftrightarrow> (\<forall>rest. p (w @ rest) = Inr (Some (v, rest)))"

lemma rd_head: "reads p w v \<Longrightarrow> rd_bind p f (w @ rest) = f v rest"
  by (simp add: reads_def rd_bind_def)

lemma rd_last: "reads p w v \<Longrightarrow> rd_bind p f w = f v []"
  using rd_head [of p w v f "[]"] by simp

lemma reads_at_end: "reads p w v \<Longrightarrow> p w = Inr (Some (v, []))"
  unfolding reads_def by (metis append_Nil2)

lemma reads_buffer: "reads p w v \<Longrightarrow> read_from_buffer p (w @ rest) = Inr (Some v)"
  by (simp add: reads_def read_from_buffer_def)

lemma reads_buffer_end: "reads p w v \<Longrightarrow> read_from_buffer p w = Inr (Some v)"
  by (simp add: reads_at_end read_from_buffer_def)

lemma reads_u16 [simp]: "speedy_ok S \<Longrightarrow> reads (read_u16 S e) (put16 S e w) w"
  unfolding put16_def read_u16_def speedy_ok_def reads_def
  by (cases "enc16 S e w") (auto, metis)

lemma reads_u32 [simp]: "speedy_ok S \<Longrightarrow> reads (read_u32 S e) (put32 S e w) w"
  unfolding put32_def read_u32_def speedy_ok_def reads_def
  by (cases "enc32 S e w") (auto, metis)

lemma reads_entity_id [simp]: "reads read_entity_id (write_entity_id i) i"
proof (cases i)
  case (EntityId k v)
  then show ?thesis
    by (cases k; cases v) (simp add: write_entity_id_def read_entity_id_def reads_def)
qed

lemma reads_array [simp]: "length bs = n \<Longrightarrow> reads (read_array n) bs bs"
  by (simp add: read_array_def reads_def)

lemmas rd_prim [simp] = rd_head [OF reads_u16] rd_head [OF reads_u32] rd_head [OF reads_entity_id]
  rd_head [OF reads_array] rd_last [OF reads_u16] rd_last [OF reads_u32]
  rd_last [OF reads_entity_id] rd_last [OF reads_array]
  reads_buffer [OF reads_u16] reads_buffer [OF reads_u32] reads_buffer [OF reads_entity_id]
  reads_buffer_end [OF reads_array]

definition in_i32 :: "int \<Rightarrow> bool" where "in_i32 x \<longleftrightarrow> - (2 ^ 31) \<le> x \<and> x < 2 ^ 31"
definition in_u32 :: "int \<Rightarrow> bool" where "in_u32 x \<longleftrightarrow> 0 \<le> x \<and> x < 2 ^ 32"

lemma sint_of_int32 [simp]: "in_i32 x \<Longrightarrow> sint (word_of_int x :: u32) = x"
  by (simp add: in_i32_def sint_sbintrunc' signed_take_bit_int_eq_self)

lemma uint_of_int32 [simp]: "in_u32 x \<Longrightarrow> uint (word_of_int x :: u32) = x"
  by (simp add: in_u32_def uint_word_of_int)

lemma sn_halves:
  assumes "in_i64 sn"
  shows "sn_write sn = (sn div 2 ^ 32, sn mod 2 ^ 32)" and "in_i32 (sn div 2 ^ 32)"
    and "in_u32 (sn mod 2 ^ 32)" and "sn_read (sn div 2 ^ 32, sn mod 2 ^ 32) = Inr sn"
proof -
  show hi: "in_i32 (sn div 2 ^ 32)"
    using assms by (auto simp: in_i64_def in_i32_def)
  show "in_u32 (sn mod 2 ^ 32)" by (simp add: in_u32_def)
  have "wrap_s 32 (sn div 2 ^ 32) = sn div 2 ^ 32"
    using hi by (intro wrap_s_id) (auto simp: in_i32_def)
  then show "sn_write sn = (sn div 2 ^ 32, sn mod 2 ^ 32)"
    by (simp only: sn_write_def wrap_u_def)
  have "wrap_s 64 (sn div 2 ^ 32 * 2 ^ 32) = sn div 2 ^ 32 * 2 ^ 32"
    using hi by (intro wrap_s_id) (auto simp: in_i32_def)
  moreover have "sn div 2 ^ 32 * 2 ^ 32 + sn mod 2 ^ 32 = sn" by (rule div_mult_mod_eq)
  ultimately show "sn_read (sn div 2 ^ 32, sn mod 2 ^ 32) = Inr sn"
    using assms by (simp only: sn_read_def prod.case i64_add_def if_True)
qed

lemma reads_sn [simp]:
  "speedy_ok S \<Longrightarrow> in_i64 sn \<Longrightarrow> reads (read_sn S e) (write_sn S e sn) sn"
  by (simp add: reads_def read_sn_def write_sn_def sn_halves [simplified])

lemma reads_words [simp]:
  assumes "speedy_ok S"
  shows "reads (read_words S e (length ws)) (concat (map (put32 S e) ws)) ws"
proof (induction ws)
  case Nil
  then show ?case by (simp add: reads_def)
next
  case (Cons w ws)
  show ?case using assms by (simp add: reads_def rd_head [OF Cons])
qed

lemmas rd_sn [simp] = rd_head [OF reads_sn] rd_last [OF reads_sn] reads_buffer [OF reads_sn]
  reads_buffer_end [OF reads_sn]
  rd_head [OF reads_words] rd_last [OF reads_words]

definition set_typed :: "'n NumberSet \<Rightarrow> bool" where
  "set_typed s \<longleftrightarrow> num_bits s < 2 ^ 32 \<and> length (bitmap s) = div_ceil32 (num_bits s)"

definition sns_typed :: "SequenceNumberSet \<Rightarrow> bool" where
  "sns_typed s \<longleftrightarrow> in_i64 (bitmap_base s) \<and> set_typed s"

definition sns_bytes :: "Speedy \<Rightarrow> Endianness \<Rightarrow> SequenceNumberSet \<Rightarrow> u8 list" where
  "sns_bytes S e s = write_sn S e (bitmap_base s) @ put32 S e (word_of_nat (num_bits s)) @
     concat (map (put32 S e) (bitmap s))"

lemma write_sns [simp]: "sns_typed s \<Longrightarrow> write_number_set S e (write_sn S e) s = Some (sns_bytes S e s)"
  by (simp add: write_number_set_def sns_typed_def set_typed_def sns_bytes_def)

lemma reads_sns [simp]:
  assumes "speedy_ok S" and "sns_typed s"
  shows "reads (read_number_set S e (read_sn S e)) (sns_bytes S e s) s"
proof -
  from assms have nb: "unat (word_of_nat (num_bits s) :: u32) = num_bits s"
    by (simp add: sns_typed_def set_typed_def unat_of_nat take_bit_nat_eq_self)
  from assms have len: "div_ceil32 (num_bits s) = length (bitmap s)"
    and base: "in_i64 (bitmap_base s)"
    by (simp_all add: sns_typed_def set_typed_def)
  show ?thesis
    using assms(1) base by (simp add: reads_def sns_bytes_def
        read_number_set_def nb len)
qed

lemmas rd_sns [simp] = rd_head [OF reads_sns] rd_last [OF reads_sns]

lemma length_sns_bytes [simp]: "length (sns_bytes S e s) = 12 + 4 * length (bitmap s)"
proof -
  have "length (concat (map (put32 S e) ws)) = 4 * length ws" for ws by (induction ws) simp_all
  then show ?thesis by (simp add: sns_bytes_def)
qed

lemma reads_timestamp [simp]:
  "speedy_ok S \<Longrightarrow> ts_wf t \<Longrightarrow> reads (read_timestamp S e) (write_timestamp S e t) t"
  by (simp add: reads_def read_timestamp_def write_timestamp_def ts_wf_def in_u32_def)

lemma reads_acknack:
  assumes "speedy_ok S" and "sns_typed (reader_sn_state a)" and "in_i32 (an_count a)"
    and "write_acknack S e a = Some bs"
  shows "reads (read_acknack S e) bs a"
  using assms by (auto simp: write_acknack_def read_acknack_def reads_def)

lemma read_gap_write:
  assumes "speedy_ok S" and "in_i64 (gap_start g)" and "sns_typed (gap_list g)"
    and "gap_start_gsn g = None" and "gap_end_gsn g = None" and "write_gap S e g = Some bs"
  shows "read_from_buffer (read_gap S e) bs = Inr (Some g)"
proof -
  from assms(1) have eof: "get_opt_sn S e [] = Some (None, [])" by (simp add: speedy_ok_def)
  show ?thesis
    using assms by (auto simp: write_gap_def read_gap_def write_opt_def read_from_buffer_def
        rd_lift_def eof rd_bind_def [of "rd_lift _"])
qed

lemma read_heartbeat_write:
  assumes "speedy_ok S" and "in_i64 (first_sn h)" and "in_i64 (last_sn h)" and "in_i32 (hb_count h)"
    and "current_gsn h = None" and "first_gsn h = None" and "last_gsn h = None"
    and "writer_set h = None" and "secure_writer_set h = None"
  shows "read_from_buffer (read_heartbeat S e) (write_heartbeat S e h) = Inr (Some h)"
proof -
  from assms(1) have eof: "get_opt_sn S e [] = Some (None, [])" "get_opt_digest S e [] = Some (None, [])"
    by (simp_all add: speedy_ok_def)
  show ?thesis
    using assms by (simp add: write_heartbeat_def read_heartbeat_def write_opt_def
        read_from_buffer_def rd_lift_def eof rd_bind_def [of "rd_lift _"])
qed

lemma drop_put [simp]:
  "2 \<le> n \<Longrightarrow> drop n (put16 S e w @ r) = drop (n - 2) r"
  "4 \<le> n \<Longrightarrow> drop n (write_entity_id i @ r) = drop (n - 4) r"
  "8 \<le> n \<Longrightarrow> drop n (write_sn S e sn @ r) = drop (n - 8) r"
  "8 \<le> n \<Longrightarrow> drop n (write_sn S e sn) = []"
  by simp_all

definition payload_typed :: "SerializedPayload option \<Rightarrow> bool" where
  "payload_typed p = (case p of None \<Rightarrow> True
     | Some v \<Rightarrow> payload_value v \<noteq> [] \<and> length (payload_value v) < 2 ^ 16 - 24)"

lemma payload_back:
  "payload_value v \<noteq> [] \<Longrightarrow> payload_from_bytes (payload_to_bytes v) = Inr (Inr v)"
  by (simp add: payload_from_bytes_def payload_to_bytes_def)

lemma deserialize_data_write:
  assumes "speedy_ok S" and "in_i64 (writer_sn d)" and "inline_qos d = None"
    and "payload_typed (serialized_payload d)" and "\<not> flag_contains f DataFlag_InlineQos"
    and "(flag_contains f DataFlag_Data \<or> flag_contains f DataFlag_Key) = (serialized_payload d \<noteq> None)"
  shows "deserialize_data S (write_data S (flag_endianness f) d) f = Inr (Some d)"
proof -
  let ?e = "flag_endianness f"
  have len: "20 \<le> length (write_data S ?e d)" by (simp add: write_data_def)
  show ?thesis
  proof (cases "serialized_payload d")
    case None
    with assms len show ?thesis
      by (simp add: deserialize_data_def write_data_def write_opt_def read_at_def slice_from_def
          u16_sub_def read_inline_qos_def)
  next
    case (Some v)
    with assms len show ?thesis
      by (auto simp: deserialize_data_def write_data_def write_opt_def read_at_def slice_from_def
          u16_sub_def read_inline_qos_def payload_at_def payload_back payload_typed_def)
  qed
qed

section \<open>Messages that the builder makes\<close>

text \<open>
  What arrives of a submessage: an INFO_TS whose flag says that it has no time is read without
  the invalid time that the builder puts into its body.
\<close>

definition received :: "SubMessage \<Rightarrow> SubMessage" where
  "received m = (case sub_body m of
     Interpreter (IS_InfoTimestamp _ f) \<Rightarrow>
       if flag_contains f InfoTimestampFlag_Invalidate
       then m\<lparr>sub_body := Interpreter (IS_InfoTimestamp None f)\<rparr> else m
   | _ \<Rightarrow> m)"

definition framed :: "Speedy \<Rightarrow> SubMessage \<Rightarrow> bool" where
  "framed S m \<longleftrightarrow> (\<exists>bytes. write_submessage S LittleEndian m = Inr (Some bytes) \<and> bytes \<noteq> [] \<and>
     (\<forall>rest. next_submessage S (bytes @ rest) =
        Inr (Some (sub_header (received m), Parsed (sub_body (received m)), rest))))"

lemma framed_intro:
  assumes "speedy_ok S"
    and "(case sub_body m of Entity b \<Rightarrow> write_entity S LittleEndian b
          | Interpreter b \<Rightarrow> Inr (Some (write_interpreter S LittleEndian b))) = Inr (Some body)"
    and "submessage_length (sub_header m) = int (length body)"
    and "0 < length body" and "length body < 2 ^ 16"
    and "sub_header (received m) = sub_header m"
    and "parse_body S (sub_header m) body = Inr (Parsed (sub_body (received m)))"
  shows "framed S m"
proof -
  let ?h = "sub_header m"
  let ?hb = "write_submessage_header S LittleEndian ?h"
  have w: "write_submessage S LittleEndian m = Inr (Some (?hb @ body))"
    by (simp add: write_submessage_def assms(2))
  have d: "default_ctx S = LittleEndian" using assms(1) by (simp add: speedy_ok_def)
  have "uint (word_of_int (submessage_length ?h) :: u16) = submessage_length ?h"
    using assms(3,5) by (simp add: unsigned_of_nat take_bit_nat_eq_self)
  then have h: "read_from_buffer (read_submessage_header S LittleEndian) ?hb = Inr (Some ?h)"
    using assms(1)
    by (simp add: read_from_buffer_def read_submessage_header_def write_submessage_header_def
        rd_head [OF reads_array, of "[_, _]", simplified])
  have l: "length ?hb = 4" by (simp add: write_submessage_header_def)
  have bl: "body_length ?h (body @ rest) = length body" for rest
    using assms(3,4) by (simp add: body_length_def)
  have "next_submessage S ((?hb @ body) @ rest) =
      Inr (Some (sub_header (received m), Parsed (sub_body (received m)), rest))" for rest
    by (simp add: next_submessage_def split_to_def l d h bl assms(6,7))
  with w l show ?thesis unfolding framed_def by (intro exI [of _ "?hb @ body"]) auto
qed

lemma parse_framed:
  assumes "list_all (framed S) ms"
  shows "\<exists>bytes. write_submessages S LittleEndian ms = Inr (Some bytes) \<and>
    parse_submessages S bytes acc = Inr (Some (acc @ map received ms))"
  using assms
proof (induction ms arbitrary: acc)
  case Nil
  then show ?case by (simp add: parse_submessages.simps)
next
  case (Cons m ms)
  from Cons.prems obtain b where b: "write_submessage S LittleEndian m = Inr (Some b)" "b \<noteq> []"
    "\<And>rest. next_submessage S (b @ rest) =
       Inr (Some (sub_header (received m), Parsed (sub_body (received m)), rest))"
    by (auto simp: framed_def)
  from Cons.IH [of "acc @ [received m]"] Cons.prems obtain bs where
    bs: "write_submessages S LittleEndian ms = Inr (Some bs)"
    "parse_submessages S bs (acc @ [received m]) = Inr (Some ((acc @ [received m]) @ map received ms))"
    by auto
  from b bs show ?case
    by (cases "received m") (auto simp: parse_submessages.simps [of S "b @ bs"])
qed

text \<open>
  The messages that a sequence of calls of the builder makes, each with arguments of their Rust
  types. A payload and a bitmap leave room for the submessage in its 16-bit length.
\<close>

inductive built :: "MessageBuilder \<Rightarrow> bool" where
  built_new: "built []"
| built_info_ts: "built b \<Longrightarrow> (\<forall>t. ts = Some t \<longrightarrow> ts_wf t) \<Longrightarrow> built (mb_info_ts LittleEndian ts b)"
| built_info_dst: "built b \<Longrightarrow> prefix_wf p \<Longrightarrow> built (mb_info_dst LittleEndian p b)"
| built_acknack: "built b \<Longrightarrow> sns_typed st \<Longrightarrow> in_i32 c \<Longrightarrow> length (bitmap st) < 2 ^ 16 \<Longrightarrow>
    mb_acknack LittleEndian wid rid st c final b = Inr b' \<Longrightarrow> built b'"
| built_heartbeat: "built b \<Longrightarrow> in_i64 fsn \<Longrightarrow> in_i64 lsn \<Longrightarrow> in_i32 c \<Longrightarrow>
    built (mb_heartbeat LittleEndian live wid rid fsn lsn c final b)"
| built_data: "built b \<Longrightarrow> in_i64 (sequence_number cc) \<Longrightarrow> payload_typed (data_value cc) \<Longrightarrow>
    built (mb_data LittleEndian wid rid cc b)"
| built_gap: "built b \<Longrightarrow> in_i64 start \<Longrightarrow> sns_typed lst \<Longrightarrow> length (bitmap lst) < 2 ^ 16 \<Longrightarrow>
    mb_gap LittleEndian wid rid start lst b = Inr b' \<Longrightarrow> built b'"

lemmas wire_unfold = sub_message_def received_def parse_body_def get_submessagekind_def
  get_endian_def from_enndianness_def flag_defs flag_contains_def parsed_as_def

lemma framed_info_ts:
  assumes "speedy_ok S" and "\<forall>t. ts = Some t \<longrightarrow> ts_wf t" and "list_all (framed S) b"
  shows "list_all (framed S) (mb_info_ts LittleEndian ts b)"
proof -
  have inv: "ts_wf TIME_INVALID" by (simp add: ts_wf_def TIME_INVALID_def)
  have len: "length (write_timestamp S LittleEndian t) = 8" for t by (simp add: write_timestamp_def)
  have buf: "read_from_buffer (read_timestamp S LittleEndian) (write_timestamp S LittleEndian t) =
      Inr (Some t)" if "ts_wf t" for t
    by (rule reads_buffer_end) (simp add: assms(1) that)
  show ?thesis
  proof (cases ts)
    case None
    have "framed S (sub_message INFO_TS 3 8 (Interpreter (IS_InfoTimestamp (Some TIME_INVALID) 3)))"
      by (rule framed_intro [OF assms(1), where body = "write_timestamp S LittleEndian TIME_INVALID"])
        (simp_all add: write_opt_def len wire_unfold)
    then show ?thesis using assms(3) None
      by (simp add: mb_info_ts_def from_enndianness_def flag_defs)
  next
    case (Some t)
    then have "framed S (sub_message INFO_TS 1 8 (Interpreter (IS_InfoTimestamp (Some t) 1)))"
      using assms(2)
      by (intro framed_intro [OF assms(1), where body = "write_timestamp S LittleEndian t"])
        (simp_all add: write_opt_def len buf wire_unfold)
    then show ?thesis using assms(3) Some
      by (simp add: mb_info_ts_def from_enndianness_def)
  qed
qed

lemma framed_info_dst:
  assumes "speedy_ok S" and "prefix_wf p" and "list_all (framed S) b"
  shows "list_all (framed S) (mb_info_dst LittleEndian p b)"
proof -
  have "framed S (sub_message INFO_DST 1 12 (Interpreter (IS_InfoDestination p 1)))"
    using assms(2) by (intro framed_intro [OF assms(1), where body = p])
      (simp_all add: prefix_wf_def wire_unfold)
  then show ?thesis using assms(3) by (simp add: mb_info_dst_def from_enndianness_def)
qed

lemma sns_size_typed:
  assumes "sns_size s = Inr sz" and "u16_checked (k + sz) = Inr len" and "sns_typed s" and "0 \<le> k"
    and "length (bitmap s) < 2 ^ 16"
  shows "len = k + 12 + 4 * int (length (bitmap s))" and "len < 2 ^ 16"
  using assms by (auto simp: sns_size_def u16_checked_def wrap_u_def Let_def split: if_split_asm)

lemma framed_acknack:
  assumes "speedy_ok S" and "sns_typed st" and "in_i32 c" and "list_all (framed S) b"
    and "length (bitmap st) < 2 ^ 16"
    and "mb_acknack LittleEndian wid rid st c final b = Inr b'"
  shows "list_all (framed S) b'"
proof -
  let ?a = "\<lparr>an_reader_id = rid, an_writer_id = wid, reader_sn_state = st, an_count = c\<rparr>"
  let ?f = "if final then 3 else 1 :: u8"
  from assms(6) obtain sz len where sz: "sns_size st = Inr sz" "u16_checked (12 + sz) = Inr len"
    and b': "b' = b @ [sub_message ACKNACK ?f len (Entity (ES_AckNack ?a ?f))]"
    by (auto simp: mb_acknack_def from_enndianness_def flag_defs Let_def elim!: rbind_Inr_E)
  note len = sns_size_typed [OF sz assms(2) _ assms(5), simplified]
  obtain bs where bs: "write_acknack S LittleEndian ?a = Some bs"
    using assms(2) by (simp add: write_acknack_def)
  then have l: "int (length bs) = len"
    using assms(2) len by (auto simp: write_acknack_def)
  have "read_from_buffer (read_acknack S LittleEndian) bs = Inr (Some ?a)"
    by (rule reads_buffer_end, rule reads_acknack [OF assms(1) _ _ bs]) (simp_all add: assms)
  then have "framed S (sub_message ACKNACK ?f len (Entity (ES_AckNack ?a ?f)))"
    using bs l len by (intro framed_intro [OF assms(1), where body = bs])
      (auto simp: wire_unfold)
  with assms(4) b' show ?thesis by simp
qed

lemma framed_gap:
  assumes "speedy_ok S" and "sns_typed lst" and "in_i64 start" and "list_all (framed S) b"
    and "length (bitmap lst) < 2 ^ 16"
    and "mb_gap LittleEndian wid rid start lst b = Inr b'"
  shows "list_all (framed S) b'"
proof -
  let ?g = "\<lparr>gap_reader_id = rid, gap_writer_id = wid, gap_start = start, gap_list = lst,
    gap_start_gsn = None, gap_end_gsn = None\<rparr>"
  from assms(6) obtain sz len where sz: "sns_size lst = Inr sz" "u16_checked (16 + sz) = Inr len"
    and b': "b' = b @ [sub_message GAP 1 len (Entity (ES_Gap ?g 1))]"
    by (auto simp: mb_gap_def from_enndianness_def elim!: rbind_Inr_E)
  note len = sns_size_typed [OF sz assms(2) _ assms(5), simplified]
  obtain bs where bs: "write_gap S LittleEndian ?g = Some bs"
    using assms(2) by (simp add: write_gap_def)
  then have l: "int (length bs) = len"
    using assms(2) len by (auto simp: write_gap_def write_opt_def)
  have "read_from_buffer (read_gap S LittleEndian) bs = Inr (Some ?g)"
    by (rule read_gap_write [OF assms(1) _ _ _ _ bs]) (simp_all add: assms)
  then have "framed S (sub_message GAP 1 len (Entity (ES_Gap ?g 1)))"
    using bs l len by (intro framed_intro [OF assms(1), where body = bs])
      (auto simp: wire_unfold)
  with assms(4) b' show ?thesis by simp
qed

lemma framed_heartbeat:
  assumes "speedy_ok S" and "in_i64 fsn" and "in_i64 lsn" and "in_i32 c" and "list_all (framed S) b"
  shows "list_all (framed S) (mb_heartbeat LittleEndian live wid rid fsn lsn c final b)"
proof -
  let ?h = "\<lparr>hb_reader_id = rid, hb_writer_id = wid, first_sn = fsn, last_sn = lsn, hb_count = c,
    current_gsn = None, first_gsn = None, last_gsn = None, writer_set = None,
    secure_writer_set = None\<rparr>"
  let ?f = "(if live then if final then 7 else 5 else if final then 3 else 1) :: u8"
  have "read_from_buffer (read_heartbeat S LittleEndian) (write_heartbeat S LittleEndian ?h) =
      Inr (Some ?h)"
    by (rule read_heartbeat_write) (simp_all add: assms)
  moreover have "length (write_heartbeat S LittleEndian ?h) = 28"
    by (simp add: write_heartbeat_def write_opt_def)
  ultimately have "framed S (sub_message HEARTBEAT ?f 28 (Entity (ES_HeartBeat ?h ?f)))"
    by (intro framed_intro [OF assms(1), where body = "write_heartbeat S LittleEndian ?h"])
      (auto simp: wire_unfold)
  moreover have "mb_heartbeat LittleEndian live wid rid fsn lsn c final b =
      b @ [sub_message HEARTBEAT ?f 28 (Entity (ES_HeartBeat ?h ?f))]"
    by (simp add: mb_heartbeat_def from_enndianness_def flag_defs)
  ultimately show ?thesis using assms(5) by simp
qed

lemma framed_data:
  assumes "speedy_ok S" and "in_i64 (sequence_number cc)" and "payload_typed (data_value cc)"
    and "list_all (framed S) b"
  shows "list_all (framed S) (mb_data LittleEndian wid rid cc b)"
proof -
  let ?d = "\<lparr>data_reader_id = rid, data_writer_id = wid, writer_sn = sequence_number cc,
    inline_qos = None, serialized_payload = data_value cc\<rparr>"
  let ?f = "(if data_value cc = None then 1 else 5) :: u8"
  let ?bs = "write_data S LittleEndian ?d"
  let ?len = "int (length ?bs)"
  have e: "flag_endianness ?f = LittleEndian" by (simp add: flag_endianness_def flag_contains_def)
  have l: "?len = 20 + (case data_value cc of None \<Rightarrow> 0 | Some p \<Rightarrow> 4 + int (length (payload_value p)))"
    by (simp add: write_data_def write_opt_def payload_to_bytes_def split: option.split)
  with assms(3) have small: "?len < 2 ^ 16" "0 < ?len"
    by (auto simp: payload_typed_def split: option.split)
  have "deserialize_data S (write_data S (flag_endianness ?f) ?d) ?f = Inr (Some ?d)"
    by (rule deserialize_data_write) (auto simp: assms flag_contains_def flag_defs)
  then have "deserialize_data S ?bs ?f = Inr (Some ?d)" by (simp only: e)
  then have "framed S (sub_message DATA ?f ?len (Entity (ES_Data ?d ?f)))"
    using small by (intro framed_intro [OF assms(1), where body = ?bs]) (auto simp: wire_unfold)
  moreover have "wrap_u 16 ?len = ?len" by (rule wrap_u_id) (use small in auto)
  then have "mb_data LittleEndian wid rid cc b = b @ [sub_message DATA ?f ?len (Entity (ES_Data ?d ?f))]"
    unfolding l by (cases "data_value cc") (simp_all add: mb_data_def from_enndianness_def flag_defs)
  ultimately show ?thesis using assms(4) by simp
qed

lemma built_framed: "built b \<Longrightarrow> speedy_ok S \<Longrightarrow> list_all (framed S) b"
proof (induction rule: built.induct)
  case built_new
  show ?case by simp
next
  case built_info_ts
  then show ?case by (simp add: framed_info_ts)
next
  case built_info_dst
  then show ?case by (simp add: framed_info_dst)
next
  case built_acknack
  then show ?case using framed_acknack by blast
next
  case built_heartbeat
  then show ?case by (simp add: framed_heartbeat)
next
  case built_data
  then show ?case by (simp add: framed_data)
next
  case built_gap
  then show ?case using framed_gap by blast
qed

lemma built_message_roundtrip:
  assumes "speedy_ok S" and "built b" and "prefix_wf prefix"
  shows "\<exists>bytes. write_message S LittleEndian (mb_build prefix b) = Inr (Some bytes) \<and>
    Message_new S bytes = Inr (Some (mb_build prefix (map received b)))"
proof -
  from parse_framed [OF built_framed [OF assms(2,1)]] obtain bs where
    bs: "write_submessages S LittleEndian b = Inr (Some bs)"
    "parse_submessages S bs [] = Inr (Some (map received b))" by (metis append_Nil)
  let ?h = "Header_new prefix"
  have l: "length (write_header ?h) = 20" using assms(3)
    by (simp add: write_header_def Header_new_def prefix_wf_def vendor_THIS_IMPLEMENTATION_def)
  have "read_from_buffer read_header (write_header ?h) = Inr (Some ?h)" using assms(3)
    by (simp add: read_header_def write_header_def Header_new_def read_from_buffer_def
        read_array_def rd_bind_def prefix_wf_def vendor_THIS_IMPLEMENTATION_def PROTOCOLVERSION_def)
  with bs l show ?thesis
    by (simp add: write_message_def mb_build_def Message_new_def split_to_def)
qed

text \<open>
  C10. The wire format. A little-endian message is made by a sequence of builder calls with values in the ranges of their
  types, sequence-number sets that fit, and changes without data or with a payload of 1 to 65511 bytes (\<open>built\<close>; the
  parser refuses an empty payload, and a longer one wraps the 16 bits of the body length).
  Serialising the message and parsing the bytes gives the same message back: the header, every
  submessage in its order with its kind, flags and length, and every field. The one difference
  is an INFO_TS sent without a time, which is read without one.
\<close>

theorem message_roundtrip:
  assumes "speedy_ok S" and "built b" and "prefix_wf prefix"
  shows "\<exists>bytes. write_message S LittleEndian (mb_build prefix b) = Inr (Some bytes) \<and>
    Message_new S bytes = Inr (Some (mb_build prefix (map received b)))"
  by (rule built_message_roundtrip [OF assms])

text \<open>The library's documented layout: the integers by their bytes, options by a tag byte.\<close>

definition byte_of :: "nat \<Rightarrow> 'a::len word \<Rightarrow> u8" where
  "byte_of i w = ucast (drop_bit (8 * i) w)"

definition ref_speedy :: Speedy where
  "ref_speedy = \<lparr>default_ctx = LittleEndian,
     enc16 = (\<lambda>e w. case e of LittleEndian \<Rightarrow> (byte_of 0 w, byte_of 1 w)
                    | BigEndian \<Rightarrow> (byte_of 1 w, byte_of 0 w)),
     dec16 = (\<lambda>e (a, b). case e of LittleEndian \<Rightarrow> ucast a OR push_bit 8 (ucast b)
                         | BigEndian \<Rightarrow> ucast b OR push_bit 8 (ucast a)),
     enc32 = (\<lambda>e w. case e of LittleEndian \<Rightarrow> (byte_of 0 w, byte_of 1 w, byte_of 2 w, byte_of 3 w)
                    | BigEndian \<Rightarrow> (byte_of 3 w, byte_of 2 w, byte_of 1 w, byte_of 0 w)),
     dec32 = (\<lambda>e (a, b, c, d). case e of
         LittleEndian \<Rightarrow> ucast a OR push_bit 8 (ucast b) OR push_bit 16 (ucast c) OR push_bit 24 (ucast d)
       | BigEndian \<Rightarrow> ucast d OR push_bit 8 (ucast c) OR push_bit 16 (ucast b) OR push_bit 24 (ucast a)),
     get_opt_sn = (\<lambda>e bs. case bs of [] \<Rightarrow> Some (None, [])
       | t # rest \<Rightarrow> if t = 0 then Some (None, rest) else None),
     get_opt_digest = (\<lambda>e bs. case bs of [] \<Rightarrow> Some (None, [])
       | t # rest \<Rightarrow> if t = 0 then Some (None, rest) else None),
     get_info_reply = (\<lambda>e bs. None), put_info_reply = (\<lambda>e i. []),
     utf8_valid = list_all (\<lambda>b. b < 128), get_string = (\<lambda>e bs. None)\<rparr>"

lemma bytes16: "ucast (byte_of 0 w) OR push_bit 8 (ucast (byte_of 1 w)) = (w :: u16)"
  by (rule bit_word_eqI) (auto simp: byte_of_def bit_simps)

lemma bytes32:
  "ucast (byte_of 0 w) OR push_bit 8 (ucast (byte_of 1 w)) OR push_bit 16 (ucast (byte_of 2 w)) OR
   push_bit 24 (ucast (byte_of 3 w)) = (w :: u32)"
proof (rule bit_word_eqI)
  fix n assume "n < LENGTH(32)"
  then show "bit (ucast (byte_of 0 w) OR push_bit 8 (ucast (byte_of 1 w)) OR
      push_bit 16 (ucast (byte_of 2 w)) OR push_bit 24 (ucast (byte_of 3 w)) :: u32) n = bit w n"
    by (cases "24 \<le> n"; cases "16 \<le> n") (auto simp: byte_of_def bit_simps)
qed

lemma byte_of_low: "i < 2 \<Longrightarrow> byte_of i (ucast w :: u16) = byte_of i (w :: u32)"
  by (rule bit_word_eqI) (auto simp: byte_of_def bit_simps)

lemma ref_speedy_ok: "speedy_ok ref_speedy"
  by (simp add: speedy_ok_def ref_speedy_def bytes16 [simplified] bytes32 [simplified] byte_of_low split: Endianness.split)

definition ex_built :: MessageBuilder where
  "ex_built = mb_heartbeat LittleEndian False (entity_id ex_guid) eid_UNKNOW 1 1 0 True
     (mb_data LittleEndian (entity_id ex_guid) eid_UNKNOW (ex_change 1)
       (mb_info_ts LittleEndian None []))"

lemma ex_built_ok: "built ex_built"
  unfolding ex_built_def
  by (intro built_heartbeat built_data built_info_ts built_new)
    (simp_all add: in_i64_def in_i32_def ex_change_def payload_typed_def ex_payload_def)

theorem message_roundtrip_witness:
  "\<exists>bytes. write_message ref_speedy LittleEndian (mb_build (guid_prefix ex_guid) ex_built) = Inr (Some bytes) \<and>
     Message_new ref_speedy bytes = Inr (Some (mb_build (guid_prefix ex_guid) (map received ex_built)))"
  by (rule message_roundtrip [OF ref_speedy_ok ex_built_ok]) (simp add: prefix_wf_def ex_guid_def)

section \<open>Truncated packets\<close>

lemma header_always_read:
  assumes "length hdr = 20"
  shows "\<exists>h. read_from_buffer read_header hdr = Inr (Some h)"
  using assms by (simp add: read_from_buffer_def read_header_def rd_bind_def read_array_def)

text \<open>\<^verbatim>\<open>Message::new\<close> panics in \<^verbatim>\<open>split_to\<close> when the packet ends within a submessage.\<close>

lemma truncated_message_panics:
  assumes "length hdr = 20"
  shows "(0 < length tail \<and> length tail < 4 \<longrightarrow>
      Message_new S (hdr @ tail) = Inl IndexOutOfBounds) \<and>
    (length body < unat (dec16 S (default_ctx S) (c, d)) \<longrightarrow>
      Message_new S (hdr @ [kind, flags, c, d] @ body) = Inl IndexOutOfBounds)"
proof -
  obtain h where h: "read_from_buffer read_header hdr = Inr (Some h)"
    using header_always_read [OF assms] by blast
  have new: "Message_new S (hdr @ rest) = obind (parse_submessages S rest []) (\<lambda>ms.
      Inr (Some \<lparr>header = h, submessages = ms\<rparr>))" for rest
    using assms by (simp add: Message_new_def split_to_def h)
  have "next_submessage S tail = Inl IndexOutOfBounds" if "length tail < 4"
    using that by (simp add: next_submessage_def split_to_def)
  moreover have "next_submessage S ([kind, flags, c, d] @ body) = Inl IndexOutOfBounds"
    if "length body < unat (dec16 S (default_ctx S) (c, d))"
  proof -
    have "uint (dec16 S (default_ctx S) (c, d)) \<noteq> 0" using that
      by (metis less_nat_zero_code unsigned_eq_0_iff)
    with that show ?thesis
      by (simp add: next_submessage_def split_to_def read_submessage_header_def
          read_from_buffer_def rd_bind_def read_array_def read_u16_def body_length_def)
  qed
  ultimately show ?thesis
    using new [of tail] new [of "[kind, flags, c, d] @ body"]
    by (auto simp: parse_submessages.simps)
qed

end
