(* ===== verification/Umber_QosWire.thy ===== *)
theory Umber_QosWire
  imports Umber_Wire
begin

text \<open>
  The byte encoding of the QoS policies: the \<^verbatim>\<open>Readable\<close> and \<^verbatim>\<open>Writable\<close> implementations of the
  module \<^verbatim>\<open>policy\<close> of \<^verbatim>\<open>src/dds/qos.rs\<close>, of \<^verbatim>\<open>Duration\<close>, \<^verbatim>\<open>GUID\<close> and \<^verbatim>\<open>Locator\<close>, and
  of \<^verbatim>\<open>Property\<close> in \<^verbatim>\<open>src/discovery/structure/data.rs\<close>. A Rust \<^verbatim>\<open>String\<close> is the list of its
  bytes as characters.
\<close>

section \<open>Primitive values\<close>

definition read_i32 :: "Speedy \<Rightarrow> Endianness \<Rightarrow> int read" where
  "read_i32 S e = rd_bind (read_u32 S e) (\<lambda>w. rd_ok (sint w))"

definition put_i32 :: "Speedy \<Rightarrow> Endianness \<Rightarrow> int \<Rightarrow> u8 list" where
  "put_i32 S e x = put32 S e (word_of_int x)"

definition read_u8 :: "u8 read" where
  "read_u8 bs = Inr (case bs of [] \<Rightarrow> None | b # rest \<Rightarrow> Some (b, rest))"

definition skip_bytes :: "nat \<Rightarrow> unit read" where
  "skip_bytes n bs = Inr (if n \<le> length bs then Some ((), drop n bs) else None)"

text \<open>An enum is a number; one that names no variant is an error.\<close>

definition read_enum :: "Speedy \<Rightarrow> Endianness \<Rightarrow> (int \<Rightarrow> 'a option) \<Rightarrow> 'a read" where
  "read_enum S e f = rd_bind (read_i32 S e) (\<lambda>val bs. Inr (map_option (\<lambda>v. (v, bs)) (f val)))"

definition string_of_bytes :: "u8 list \<Rightarrow> string" where
  "string_of_bytes = map (\<lambda>b. char_of (unat b))"

definition bytes_of_string :: "string \<Rightarrow> u8 list" where
  "bytes_of_string = map (\<lambda>c. word_of_nat (of_char c))"

definition read_string :: "Speedy \<Rightarrow> nat \<Rightarrow> string read" where
  "read_string S n = rd_bind (read_array n) (\<lambda>bytes bs.
     Inr (if utf8_valid S bytes then Some (string_of_bytes bytes, bs) else None))"

text \<open>
  A string with its length, a null character and padding, as a partition and a property read it:
  the length minus one is taken as a \<^verbatim>\<open>usize\<close>, which makes a length below one an error.
\<close>

definition read_cdr_string :: "Speedy \<Rightarrow> Endianness \<Rightarrow> string read" where
  "read_cdr_string S e = rd_bind (read_i32 S e) (\<lambda>len.
     if len = - (2 ^ 31) then (\<lambda>_. Inl ArithOverflow)
     else if len < 1 then (\<lambda>_. Inr None)
     else rd_bind (read_string S (nat (len - 1))) (\<lambda>s. rd_bind read_u8 (\<lambda>_.
            rd_bind (skip_bytes (pad_len (nat len))) (\<lambda>_. rd_ok s))))"

definition write_cdr_string :: "Speedy \<Rightarrow> Endianness \<Rightarrow> string \<Rightarrow> u8 list" where
  "write_cdr_string S e s =
     (let len = length s + 1
      in put_i32 S e (int len) @ bytes_of_string s @ [0] @ replicate (pad_len len) 0)"

definition read_duration :: "Speedy \<Rightarrow> Endianness \<Rightarrow> Duration read" where
  "read_duration S e = rd_bind (read_i32 S e) (\<lambda>s. rd_bind (read_u32 S e) (\<lambda>f.
     rd_ok \<lparr>dur_seconds = s, dur_fraction = uint f\<rparr>))"

definition write_duration :: "Speedy \<Rightarrow> Endianness \<Rightarrow> Duration \<Rightarrow> u8 list" where
  "write_duration S e d = put_i32 S e (dur_seconds d) @ put32 S e (word_of_int (dur_fraction d))"

definition read_guid :: "GUID read" where
  "read_guid = rd_bind (read_array 12) (\<lambda>p. rd_bind read_entity_id (\<lambda>i. rd_ok (GUID p i)))"

definition write_guid :: "GUID \<Rightarrow> u8 list" where
  "write_guid g = guid_prefix g @ write_entity_id (entity_id g)"

definition write_locator :: "Speedy \<Rightarrow> Endianness \<Rightarrow> Locator \<Rightarrow> u8 list" where
  "write_locator S e l =
     put_i32 S e (loc_kind l) @ put32 S e (word_of_int (loc_port l)) @ loc_address l"

section \<open>Policies\<close>

definition read_durability :: "Speedy \<Rightarrow> Endianness \<Rightarrow> Durability read" where
  "read_durability S e = read_enum S e durability_read"
definition write_durability :: "Speedy \<Rightarrow> Endianness \<Rightarrow> Durability \<Rightarrow> u8 list" where
  "write_durability S e v = put_i32 S e (durability_repr v)"

definition read_ownership :: "Speedy \<Rightarrow> Endianness \<Rightarrow> Ownership read" where
  "read_ownership S e = read_enum S e ownership_read"
definition write_ownership :: "Speedy \<Rightarrow> Endianness \<Rightarrow> Ownership \<Rightarrow> u8 list" where
  "write_ownership S e v = put_i32 S e (ownership_repr v)"

definition read_liveliness_kind :: "Speedy \<Rightarrow> Endianness \<Rightarrow> LivelinessQosKind read" where
  "read_liveliness_kind S e = read_enum S e liveliness_read"
definition write_liveliness_kind :: "Speedy \<Rightarrow> Endianness \<Rightarrow> LivelinessQosKind \<Rightarrow> u8 list" where
  "write_liveliness_kind S e v = put_i32 S e (liveliness_repr v)"

definition read_reliability_kind :: "Speedy \<Rightarrow> Endianness \<Rightarrow> ReliabilityQosKind read" where
  "read_reliability_kind S e = read_enum S e reliability_read"
definition write_reliability_kind :: "Speedy \<Rightarrow> Endianness \<Rightarrow> ReliabilityQosKind \<Rightarrow> u8 list" where
  "write_reliability_kind S e v = put_i32 S e (reliability_repr v)"

definition read_destination_order :: "Speedy \<Rightarrow> Endianness \<Rightarrow> DestinationOrder read" where
  "read_destination_order S e = read_enum S e destination_order_read"
definition write_destination_order :: "Speedy \<Rightarrow> Endianness \<Rightarrow> DestinationOrder \<Rightarrow> u8 list" where
  "write_destination_order S e v = put_i32 S e (destination_order_repr v)"

definition read_history_kind :: "Speedy \<Rightarrow> Endianness \<Rightarrow> HistoryQosKind read" where
  "read_history_kind S e = read_enum S e history_read"
definition write_history_kind :: "Speedy \<Rightarrow> Endianness \<Rightarrow> HistoryQosKind \<Rightarrow> u8 list" where
  "write_history_kind S e v = put_i32 S e (history_repr v)"

definition read_access_scope :: "Speedy \<Rightarrow> Endianness \<Rightarrow> PresentationQosAccessScopeKind read" where
  "read_access_scope S e = read_enum S e access_scope_read"
definition write_access_scope :: "Speedy \<Rightarrow> Endianness \<Rightarrow> PresentationQosAccessScopeKind \<Rightarrow> u8 list" where
  "write_access_scope S e v = put_i32 S e (access_scope_repr v)"

definition read_durability_service :: "Speedy \<Rightarrow> Endianness \<Rightarrow> DurabilityService read" where
  "read_durability_service S e = rd_bind (read_duration S e) (\<lambda>d.
     rd_bind (read_history_kind S e) (\<lambda>k. rd_bind (read_i32 S e) (\<lambda>depth.
     rd_bind (read_i32 S e) (\<lambda>ms. rd_bind (read_i32 S e) (\<lambda>mi. rd_bind (read_i32 S e) (\<lambda>mpi.
       rd_ok \<lparr>service_cleanup_delay = d, ds_history_kind = k, ds_history_depth = depth,
              ds_max_samples = ms, ds_max_instance = mi, ds_max_samples_per_instanse = mpi\<rparr>))))))"

definition write_durability_service :: "Speedy \<Rightarrow> Endianness \<Rightarrow> DurabilityService \<Rightarrow> u8 list" where
  "write_durability_service S e v =
     write_duration S e (service_cleanup_delay v) @ write_history_kind S e (ds_history_kind v) @
     put_i32 S e (ds_history_depth v) @ put_i32 S e (ds_max_samples v) @
     put_i32 S e (ds_max_instance v) @ put_i32 S e (ds_max_samples_per_instanse v)"

text \<open>The reader of a presentation leaves the padding that the writer appends.\<close>

definition read_presentation :: "Speedy \<Rightarrow> Endianness \<Rightarrow> Presentation read" where
  "read_presentation S e = rd_bind (read_access_scope S e) (\<lambda>k. rd_bind read_u8 (\<lambda>c.
     rd_bind read_u8 (\<lambda>ord. rd_ok \<lparr>access_scope = k, coherent_access = (c = 1), ordered_access = (ord = 1)\<rparr>)))"

definition write_presentation :: "Speedy \<Rightarrow> Endianness \<Rightarrow> Presentation \<Rightarrow> u8 list" where
  "write_presentation S e v =
     write_access_scope S e (access_scope v) @ [if coherent_access v then 1 else 0] @
     [if ordered_access v then 1 else 0] @ put16 S e 0"

definition read_deadline :: "Speedy \<Rightarrow> Endianness \<Rightarrow> Deadline read" where
  "read_deadline S e = rd_bind (read_duration S e) (\<lambda>d. rd_ok (Deadline d))"
definition write_deadline :: "Speedy \<Rightarrow> Endianness \<Rightarrow> Deadline \<Rightarrow> u8 list" where
  "write_deadline S e v = write_duration S e (deadline_period v)"

definition read_latency_budget :: "Speedy \<Rightarrow> Endianness \<Rightarrow> LatencyBudget read" where
  "read_latency_budget S e = rd_bind (read_duration S e) (\<lambda>d. rd_ok (LatencyBudget d))"
definition write_latency_budget :: "Speedy \<Rightarrow> Endianness \<Rightarrow> LatencyBudget \<Rightarrow> u8 list" where
  "write_latency_budget S e v = write_duration S e (latency_duration v)"

definition read_ownership_strength :: "Speedy \<Rightarrow> Endianness \<Rightarrow> OwnershipStrength read" where
  "read_ownership_strength S e = rd_bind (read_i32 S e) (\<lambda>v. rd_ok (OwnershipStrength v))"
definition write_ownership_strength :: "Speedy \<Rightarrow> Endianness \<Rightarrow> OwnershipStrength \<Rightarrow> u8 list" where
  "write_ownership_strength S e v = put_i32 S e (strength_value v)"

definition read_liveliness :: "Speedy \<Rightarrow> Endianness \<Rightarrow> Liveliness read" where
  "read_liveliness S e = rd_bind (read_liveliness_kind S e) (\<lambda>k. rd_bind (read_duration S e) (\<lambda>d.
     rd_ok \<lparr>liveliness_kind = k, lease_duration = d\<rparr>))"
definition write_liveliness :: "Speedy \<Rightarrow> Endianness \<Rightarrow> Liveliness \<Rightarrow> u8 list" where
  "write_liveliness S e v =
     write_liveliness_kind S e (liveliness_kind v) @ write_duration S e (lease_duration v)"

definition read_time_based_filter :: "Speedy \<Rightarrow> Endianness \<Rightarrow> TimeBasedFilter read" where
  "read_time_based_filter S e = rd_bind (read_duration S e) (\<lambda>d. rd_ok (TimeBasedFilter d))"
definition write_time_based_filter :: "Speedy \<Rightarrow> Endianness \<Rightarrow> TimeBasedFilter \<Rightarrow> u8 list" where
  "write_time_based_filter S e v = write_duration S e (minimun_separation v)"

definition read_reliability :: "Speedy \<Rightarrow> Endianness \<Rightarrow> Reliability read" where
  "read_reliability S e = rd_bind (read_reliability_kind S e) (\<lambda>k. rd_bind (read_duration S e) (\<lambda>d.
     rd_ok \<lparr>reliability_kind = k, max_bloking_time = d\<rparr>))"
definition write_reliability :: "Speedy \<Rightarrow> Endianness \<Rightarrow> Reliability \<Rightarrow> u8 list" where
  "write_reliability S e v =
     write_reliability_kind S e (reliability_kind v) @ write_duration S e (max_bloking_time v)"

definition read_history :: "Speedy \<Rightarrow> Endianness \<Rightarrow> History read" where
  "read_history S e = rd_bind (read_history_kind S e) (\<lambda>k. rd_bind (read_i32 S e) (\<lambda>d.
     rd_ok \<lparr>history_kind = k, history_depth = d\<rparr>))"
definition write_history :: "Speedy \<Rightarrow> Endianness \<Rightarrow> History \<Rightarrow> u8 list" where
  "write_history S e v = write_history_kind S e (history_kind v) @ put_i32 S e (history_depth v)"

definition read_resource_limits :: "Speedy \<Rightarrow> Endianness \<Rightarrow> ResourceLimits read" where
  "read_resource_limits S e = rd_bind (read_i32 S e) (\<lambda>ms. rd_bind (read_i32 S e) (\<lambda>mi.
     rd_bind (read_i32 S e) (\<lambda>mpi.
       rd_ok \<lparr>max_samples = ms, max_instance = mi, max_samples_per_instanse = mpi\<rparr>)))"
definition write_resource_limits :: "Speedy \<Rightarrow> Endianness \<Rightarrow> ResourceLimits \<Rightarrow> u8 list" where
  "write_resource_limits S e v =
     put_i32 S e (max_samples v) @ put_i32 S e (max_instance v) @
     put_i32 S e (max_samples_per_instanse v)"

definition read_lifespan :: "Speedy \<Rightarrow> Endianness \<Rightarrow> Lifespan read" where
  "read_lifespan S e = rd_bind (read_duration S e) (\<lambda>d. rd_ok (Lifespan d))"
definition write_lifespan :: "Speedy \<Rightarrow> Endianness \<Rightarrow> Lifespan \<Rightarrow> u8 list" where
  "write_lifespan S e v = write_duration S e (lifespan_duration v)"

text \<open>\<^verbatim>\<open>Vec::with_capacity\<close> panics on the huge capacity that a negative count becomes.\<close>

fun read_names :: "Speedy \<Rightarrow> Endianness \<Rightarrow> nat \<Rightarrow> string list read" where
  "read_names S e 0 = rd_ok []"
| "read_names S e (Suc n) = rd_bind (read_cdr_string S e) (\<lambda>s.
     rd_bind (read_names S e n) (\<lambda>ss. rd_ok (s # ss)))"

definition read_partition :: "Speedy \<Rightarrow> Endianness \<Rightarrow> Partition read" where
  "read_partition S e = rd_bind (read_i32 S e) (\<lambda>n.
     if n < 0 then (\<lambda>_. Inl ExplicitPanic)
     else rd_bind (read_names S e (nat n)) (\<lambda>names. rd_ok (Partition names)))"

definition write_partition :: "Speedy \<Rightarrow> Endianness \<Rightarrow> Partition \<Rightarrow> u8 list" where
  "write_partition S e v =
     put_i32 S e (int (length (partition_name v))) @
     concat (map (write_cdr_string S e) (partition_name v))"

definition write_octets :: "Speedy \<Rightarrow> Endianness \<Rightarrow> u8 list \<Rightarrow> u8 list" where
  "write_octets S e bytes =
     put32 S e (word_of_nat (length bytes)) @ bytes @ replicate (pad_len (length bytes)) 0"

definition read_user_data :: "Speedy \<Rightarrow> Endianness \<Rightarrow> UserData read" where
  "read_user_data S e = rd_bind (read_u32 S e) (\<lambda>n. rd_bind (read_array (unat n)) (\<lambda>v.
     rd_bind (skip_bytes (pad_len (unat n))) (\<lambda>_. rd_ok (UserData v))))"
definition write_user_data :: "Speedy \<Rightarrow> Endianness \<Rightarrow> UserData \<Rightarrow> u8 list" where
  "write_user_data S e v = write_octets S e (user_value v)"

text \<open>\<^verbatim>\<open>serialized_size\<close> computes in \<^verbatim>\<open>u16\<close>.\<close>

definition user_data_serialized_size :: "UserData \<Rightarrow> int res" where
  "user_data_serialized_size v =
     (let length = length (user_value v) in
      rbind (u16_checked (4 + wrap_u 16 (int length))) (\<lambda>n. u16_checked (n + int (pad_len length))))"

text \<open>The readers of topic data and group data take a 16-bit length, their writers a 32-bit one.\<close>

definition read_topic_data :: "Speedy \<Rightarrow> Endianness \<Rightarrow> TopicData read" where
  "read_topic_data S e = rd_bind (read_u16 S e) (\<lambda>n. rd_bind (read_array (unat n)) (\<lambda>v.
     rd_bind (skip_bytes (pad_len (unat n))) (\<lambda>_. rd_ok (TopicData v))))"
definition write_topic_data :: "Speedy \<Rightarrow> Endianness \<Rightarrow> TopicData \<Rightarrow> u8 list" where
  "write_topic_data S e v = write_octets S e (topic_value v)"

definition read_group_data :: "Speedy \<Rightarrow> Endianness \<Rightarrow> GroupData read" where
  "read_group_data S e = rd_bind (read_u16 S e) (\<lambda>n. rd_bind (read_array (unat n)) (\<lambda>v.
     rd_bind (skip_bytes (pad_len (unat n))) (\<lambda>_. rd_ok (GroupData v))))"
definition write_group_data :: "Speedy \<Rightarrow> Endianness \<Rightarrow> GroupData \<Rightarrow> u8 list" where
  "write_group_data S e v = write_octets S e (group_value v)"

definition read_transport_priority :: "Speedy \<Rightarrow> Endianness \<Rightarrow> TransportPriority read" where
  "read_transport_priority S e = rd_bind (read_i32 S e) (\<lambda>v. rd_ok (TransportPriority v))"
definition write_transport_priority :: "Speedy \<Rightarrow> Endianness \<Rightarrow> TransportPriority \<Rightarrow> u8 list" where
  "write_transport_priority S e v = put_i32 S e (priority_value v)"

definition read_property :: "Speedy \<Rightarrow> Endianness \<Rightarrow> (string \<times> string) read" where
  "read_property S e = rd_bind (read_cdr_string S e) (\<lambda>n. rd_bind (read_cdr_string S e) (\<lambda>v. rd_ok (n, v)))"

definition write_property :: "Speedy \<Rightarrow> Endianness \<Rightarrow> string \<times> string \<Rightarrow> u8 list" where
  "write_property S e p = write_cdr_string S e (fst p) @ write_cdr_string S e (snd p)"

section \<open>Reading back what was written\<close>

lemma reads_i32 [simp]: "speedy_ok S \<Longrightarrow> in_i32 x \<Longrightarrow> reads (read_i32 S e) (put_i32 S e x) x"
  by (simp add: reads_def read_i32_def put_i32_def)

lemma reads_u8 [simp]: "reads read_u8 [b] b"
  by (simp add: reads_def read_u8_def)

lemma reads_skip [simp]: "length bs = n \<Longrightarrow> reads (skip_bytes n) bs ()"
  by (simp add: reads_def skip_bytes_def)

lemmas rd_basic [simp] = rd_head [OF reads_i32] rd_last [OF reads_i32]
  rd_head [OF reads_u8, simplified] rd_head [OF reads_skip] rd_last [OF reads_skip]

lemma reads_enum:
  assumes "speedy_ok S" and "in_i32 n" and "f n = Some v"
  shows "reads (read_enum S e f) (put_i32 S e n) v"
  using assms by (simp add: reads_def read_enum_def)

lemma enum_small [simp]: "in_i32 0" "in_i32 1" "in_i32 2" "in_i32 (Suc 0)"
  by (simp_all add: in_i32_def)

lemma reads_durability [simp]:
  "speedy_ok S \<Longrightarrow> reads (read_durability S e) (write_durability S e v) v"
  unfolding read_durability_def write_durability_def
  by (cases v) (auto intro!: reads_enum simp: durability_read_def)

lemma reads_ownership [simp]: "speedy_ok S \<Longrightarrow> reads (read_ownership S e) (write_ownership S e v) v"
  unfolding read_ownership_def write_ownership_def
  by (cases v) (auto intro!: reads_enum simp: ownership_read_def)

text \<open>The kind of liveliness that arrives is not the one that was sent when it is manual.\<close>

fun arriving_kind :: "LivelinessQosKind \<Rightarrow> LivelinessQosKind" where
  "arriving_kind Automatic = Automatic"
| "arriving_kind ManualByParticipant = ManualByTopic"
| "arriving_kind ManualByTopic = ManualByParticipant"

lemma reads_liveliness_kind [simp]:
  "speedy_ok S \<Longrightarrow> reads (read_liveliness_kind S e) (write_liveliness_kind S e v) (arriving_kind v)"
  unfolding read_liveliness_kind_def write_liveliness_kind_def
  by (cases v) (auto intro!: reads_enum simp: liveliness_read_def)

lemma reads_reliability_kind [simp]:
  "speedy_ok S \<Longrightarrow> reads (read_reliability_kind S e) (write_reliability_kind S e v) v"
  unfolding read_reliability_kind_def write_reliability_kind_def
  by (cases v) (auto intro!: reads_enum simp: reliability_read_def)

lemma reads_destination_order [simp]:
  "speedy_ok S \<Longrightarrow> reads (read_destination_order S e) (write_destination_order S e v) v"
  unfolding read_destination_order_def write_destination_order_def
  by (cases v) (auto intro!: reads_enum simp: destination_order_read_def)

lemma reads_history_kind [simp]:
  "speedy_ok S \<Longrightarrow> reads (read_history_kind S e) (write_history_kind S e v) v"
  unfolding read_history_kind_def write_history_kind_def
  by (cases v) (auto intro!: reads_enum simp: history_read_def)

lemma reads_access_scope [simp]:
  "speedy_ok S \<Longrightarrow> reads (read_access_scope S e) (write_access_scope S e v) v"
  unfolding read_access_scope_def write_access_scope_def
  by (cases v) (auto intro!: reads_enum simp: access_scope_read_def)

lemmas rd_kinds [simp] = rd_head [OF reads_liveliness_kind] rd_head [OF reads_reliability_kind]
  rd_head [OF reads_history_kind] rd_head [OF reads_access_scope]

lemma dur_wf_ranges: "dur_wf d \<Longrightarrow> in_i32 (dur_seconds d)" "dur_wf d \<Longrightarrow> in_u32 (dur_fraction d)"
  by (simp_all add: dur_wf_def in_i32_def in_u32_def)

lemma reads_duration [simp]:
  "speedy_ok S \<Longrightarrow> dur_wf d \<Longrightarrow> reads (read_duration S e) (write_duration S e d) d"
  by (simp add: reads_def read_duration_def write_duration_def dur_wf_ranges)

lemmas rd_duration [simp] = rd_head [OF reads_duration] rd_last [OF reads_duration]

lemma reads_guid [simp]: "prefix_wf (guid_prefix g) \<Longrightarrow> reads read_guid (write_guid g) g"
  by (simp add: reads_def read_guid_def write_guid_def prefix_wf_def)

text \<open>The types of the policies' fields.\<close>

definition limits_typed :: "ResourceLimits \<Rightarrow> bool" where
  "limits_typed v \<longleftrightarrow> in_i32 (max_samples v) \<and> in_i32 (max_instance v) \<and> in_i32 (max_samples_per_instanse v)"

definition service_typed :: "DurabilityService \<Rightarrow> bool" where
  "service_typed v \<longleftrightarrow> dur_wf (service_cleanup_delay v) \<and> in_i32 (ds_history_depth v) \<and>
     in_i32 (ds_max_samples v) \<and> in_i32 (ds_max_instance v) \<and> in_i32 (ds_max_samples_per_instanse v)"

lemma reads_durability_service [simp]:
  "speedy_ok S \<Longrightarrow> service_typed v \<Longrightarrow>
   reads (read_durability_service S e) (write_durability_service S e v) v"
  by (simp add: reads_def read_durability_service_def write_durability_service_def service_typed_def)

lemma reads_durations [simp]:
  "speedy_ok S \<Longrightarrow> dur_wf (deadline_period a) \<Longrightarrow> reads (read_deadline S e) (write_deadline S e a) a"
  "speedy_ok S \<Longrightarrow> dur_wf (latency_duration b) \<Longrightarrow>
     reads (read_latency_budget S e) (write_latency_budget S e b) b"
  "speedy_ok S \<Longrightarrow> dur_wf (lifespan_duration c) \<Longrightarrow> reads (read_lifespan S e) (write_lifespan S e c) c"
  "speedy_ok S \<Longrightarrow> dur_wf (minimun_separation d) \<Longrightarrow>
     reads (read_time_based_filter S e) (write_time_based_filter S e d) d"
  by (simp_all add: reads_def read_deadline_def write_deadline_def read_latency_budget_def
      write_latency_budget_def read_lifespan_def write_lifespan_def read_time_based_filter_def
      write_time_based_filter_def)

lemma reads_numbers [simp]:
  "speedy_ok S \<Longrightarrow> in_i32 (strength_value a) \<Longrightarrow>
     reads (read_ownership_strength S e) (write_ownership_strength S e a) a"
  "speedy_ok S \<Longrightarrow> in_i32 (priority_value b) \<Longrightarrow>
     reads (read_transport_priority S e) (write_transport_priority S e b) b"
  "speedy_ok S \<Longrightarrow> in_i32 (history_depth c) \<Longrightarrow> reads (read_history S e) (write_history S e c) c"
  "speedy_ok S \<Longrightarrow> limits_typed d \<Longrightarrow> reads (read_resource_limits S e) (write_resource_limits S e d) d"
  by (simp_all add: reads_def read_ownership_strength_def write_ownership_strength_def
      read_transport_priority_def write_transport_priority_def read_history_def write_history_def
      read_resource_limits_def write_resource_limits_def limits_typed_def)

lemma reads_reliability [simp]:
  "speedy_ok S \<Longrightarrow> dur_wf (max_bloking_time v) \<Longrightarrow>
   reads (read_reliability S e) (write_reliability S e v) v"
  by (simp add: reads_def read_reliability_def write_reliability_def)

lemma reads_liveliness [simp]:
  "speedy_ok S \<Longrightarrow> dur_wf (lease_duration v) \<Longrightarrow>
   reads (read_liveliness S e) (write_liveliness S e v) (v\<lparr>liveliness_kind := arriving_kind (liveliness_kind v)\<rparr>)"
  by (simp add: reads_def read_liveliness_def write_liveliness_def)

lemma reads_user_data [simp]:
  assumes "speedy_ok S" and "length (user_value v) < 2 ^ 32"
  shows "reads (read_user_data S e) (write_user_data S e v) v"
proof -
  have "unat (word_of_nat (length (user_value v)) :: u32) = length (user_value v)"
    using assms(2) by (simp add: unat_of_nat take_bit_nat_eq_self)
  with assms show ?thesis
    by (simp add: reads_def read_user_data_def write_user_data_def write_octets_def)
qed

end
