(* ===== verification/Umber_DiscWire.thy ===== *)
theory Umber_DiscWire
  imports Umber_QosWire Umber_DiscData Umber_Writer
begin

text \<open>
  The byte encoding of the discovery data, \<^verbatim>\<open>src/discovery/structure/data.rs\<close> and the \<^verbatim>\<open>Writable\<close>
  implementations of the proxies in \<^verbatim>\<open>src/structure/proxy.rs\<close>: the parameter lists in which a
  participant announces itself and its endpoints, and the reader \<open>SDPBuiltinData_read\<close> of all of
  them. The parameter identifiers are those of \<^verbatim>\<open>src/structure/parameter_id.rs\<close>.
\<close>

section \<open>Parameter identifiers\<close>

definition PID_DOMAIN_ID :: u16 where "PID_DOMAIN_ID = 0x000f"
definition PID_DOMAIN_TAG :: u16 where "PID_DOMAIN_TAG = 0x4014"
definition PID_ENTITY_NAME :: u16 where "PID_ENTITY_NAME = 0x0062"
definition PID_PROTOCOL_VERSION :: u16 where "PID_PROTOCOL_VERSION = 0x0015"
definition PID_PARTICIPANT_GUID :: u16 where "PID_PARTICIPANT_GUID = 0x0050"
definition PID_VENDOR_ID :: u16 where "PID_VENDOR_ID = 0x0016"
definition PID_EXPECTS_INLINE_QOS :: u16 where "PID_EXPECTS_INLINE_QOS = 0x0043"
definition PID_BUILTIN_ENDPOINT_SET :: u16 where "PID_BUILTIN_ENDPOINT_SET = 0x0058"
definition PID_METATRAFFIC_UNICAST_LOCATOR :: u16 where "PID_METATRAFFIC_UNICAST_LOCATOR = 0x0032"
definition PID_METATRAFFIC_MULTICAST_LOCATOR :: u16 where "PID_METATRAFFIC_MULTICAST_LOCATOR = 0x0033"
definition PID_DEFAULT_UNICAST_LOCATOR :: u16 where "PID_DEFAULT_UNICAST_LOCATOR = 0x0031"
definition PID_DEFAULT_MULTICAST_LOCATOR :: u16 where "PID_DEFAULT_MULTICAST_LOCATOR = 0x0048"
definition PID_PARTICIPANT_MANUAL_LIVELINESS_COUNT :: u16 where "PID_PARTICIPANT_MANUAL_LIVELINESS_COUNT = 0x0034"
definition PID_PARTICIPANT_LEASE_DURATION :: u16 where "PID_PARTICIPANT_LEASE_DURATION = 0x0002"
definition PID_ENDPOINT_GUID :: u16 where "PID_ENDPOINT_GUID = 0x005a"
definition PID_UNICAST_LOCATOR :: u16 where "PID_UNICAST_LOCATOR = 0x002f"
definition PID_MULTICAST_LOCATOR :: u16 where "PID_MULTICAST_LOCATOR = 0x0030"
definition PID_TYPE_MAX_SIZE_SERIALIZED :: u16 where "PID_TYPE_MAX_SIZE_SERIALIZED = 0x0060"
definition PID_TYPE_NAME :: u16 where "PID_TYPE_NAME = 0x0007"
definition PID_TOPIC_NAME :: u16 where "PID_TOPIC_NAME = 0x0005"
definition PID_DURABILITY :: u16 where "PID_DURABILITY = 0x001d"
definition PID_DEADLINE :: u16 where "PID_DEADLINE = 0x0023"
definition PID_LATENCY_BUDGET :: u16 where "PID_LATENCY_BUDGET = 0x0027"
definition PID_LIVELINESS :: u16 where "PID_LIVELINESS = 0x001b"
definition PID_RELIABILITY :: u16 where "PID_RELIABILITY = 0x001a"
definition PID_USER_DATA :: u16 where "PID_USER_DATA = 0x002c"
definition PID_OWNERSHIP :: u16 where "PID_OWNERSHIP = 0x001f"
definition PID_DESTINATION_ORDER :: u16 where "PID_DESTINATION_ORDER = 0x0025"
definition PID_HISTORY :: u16 where "PID_HISTORY = 0x0040"
definition PID_RESOURCE_LIMITS :: u16 where "PID_RESOURCE_LIMITS = 0x0041"
definition PID_TRANSPORT_PRIORITY :: u16 where "PID_TRANSPORT_PRIORITY = 0x0049"
definition PID_TIME_BASED_FILTER :: u16 where "PID_TIME_BASED_FILTER = 0x0004"
definition PID_PRESENTATION :: u16 where "PID_PRESENTATION = 0x0021"
definition PID_PARTITION :: u16 where "PID_PARTITION = 0x0029"
definition PID_TOPIC_DATA :: u16 where "PID_TOPIC_DATA = 0x002e"
definition PID_GROUP_DATA :: u16 where "PID_GROUP_DATA = 0x002d"
definition PID_DURABILITY_SERVICE :: u16 where "PID_DURABILITY_SERVICE = 0x001e"
definition PID_LIFESPAN :: u16 where "PID_LIFESPAN = 0x002b"
definition PID_OWNERSHIP_STRENGTH :: u16 where "PID_OWNERSHIP_STRENGTH = 0x0006"
definition PID_PROPERTY_LIST :: u16 where "PID_PROPERTY_LIST = 0x0059"

lemmas pid_defs = PID_SENTINEL_def PID_DOMAIN_ID_def PID_DOMAIN_TAG_def PID_ENTITY_NAME_def
  PID_PROTOCOL_VERSION_def PID_PARTICIPANT_GUID_def PID_VENDOR_ID_def PID_EXPECTS_INLINE_QOS_def
  PID_BUILTIN_ENDPOINT_SET_def PID_METATRAFFIC_UNICAST_LOCATOR_def
  PID_METATRAFFIC_MULTICAST_LOCATOR_def PID_DEFAULT_UNICAST_LOCATOR_def
  PID_DEFAULT_MULTICAST_LOCATOR_def PID_PARTICIPANT_MANUAL_LIVELINESS_COUNT_def
  PID_PARTICIPANT_LEASE_DURATION_def PID_ENDPOINT_GUID_def PID_UNICAST_LOCATOR_def
  PID_MULTICAST_LOCATOR_def PID_TYPE_MAX_SIZE_SERIALIZED_def PID_TYPE_NAME_def PID_TOPIC_NAME_def
  PID_DURABILITY_def PID_DEADLINE_def PID_LATENCY_BUDGET_def PID_LIVELINESS_def
  PID_RELIABILITY_def PID_USER_DATA_def PID_OWNERSHIP_def PID_DESTINATION_ORDER_def
  PID_HISTORY_def PID_RESOURCE_LIMITS_def PID_TRANSPORT_PRIORITY_def PID_TIME_BASED_FILTER_def
  PID_PRESENTATION_def PID_PARTITION_def PID_TOPIC_DATA_def PID_GROUP_DATA_def
  PID_DURABILITY_SERVICE_def PID_LIFESPAN_def PID_OWNERSHIP_STRENGTH_def PID_PROPERTY_LIST_def

section \<open>Reading discovery data\<close>

definition read_locator :: "Speedy \<Rightarrow> Endianness \<Rightarrow> Locator read" where
  "read_locator S e = rd_bind (read_i32 S e) (\<lambda>kind. rd_bind (read_u32 S e) (\<lambda>port.
     rd_bind (read_array 16) (\<lambda>address bs.
       rbind (Locator_new kind (uint port) address) (\<lambda>l. rd_ok l bs))))"

text \<open>A topic or type name: a length of zero overflows; the encoding is not checked.\<close>

definition read_name :: "Speedy \<Rightarrow> Endianness \<Rightarrow> string read" where
  "read_name S e = rd_bind (read_u32 S e) (\<lambda>len.
     if len = 0 then (\<lambda>_. Inl ArithOverflow)
     else rd_bind (read_array (unat len - 1)) (\<lambda>bytes.
            rd_bind (skip_bytes (1 + pad_len (unat len))) (\<lambda>_. rd_ok (string_of_bytes bytes))))"

definition read_value_string :: "Speedy \<Rightarrow> Endianness \<Rightarrow> string read" where
  "read_value_string S e bs = Inr (map_option (\<lambda>(s, n). (s, drop n bs)) (get_string S e bs))"

fun read_properties :: "Speedy \<Rightarrow> Endianness \<Rightarrow> nat \<Rightarrow> unit read" where
  "read_properties S e 0 = rd_ok ()"
| "read_properties S e (Suc n) = rd_bind (read_property S e) (\<lambda>_. read_properties S e n)"

text \<open>The parameters, in the order of the match; one that is not known is skipped by its length.\<close>

definition read_sdp_parameter :: "Speedy \<Rightarrow> Endianness \<Rightarrow> u16 \<Rightarrow> u16 \<Rightarrow> SDPBuiltinData
    \<Rightarrow> SDPBuiltinData read" where
  "read_sdp_parameter S e pid len d =
     (if pid = PID_DOMAIN_ID then
         rd_bind (read_u16 S e) (\<lambda>v. rd_bind (skip_bytes 2) (\<lambda>_. rd_ok (d\<lparr>sdp_domain_id := Some (uint v)\<rparr>)))
      else if pid = PID_DOMAIN_TAG then
         rd_bind (read_value_string S e) (\<lambda>v. rd_ok (d\<lparr>sdp_domain_tag := Some v\<rparr>))
      else if pid = PID_ENTITY_NAME then
         rd_bind (read_name S e) (\<lambda>_. rd_ok d)
      else if pid = PID_PROTOCOL_VERSION then
         rd_bind (read_array 2) (\<lambda>v. rd_bind (skip_bytes 2) (\<lambda>_.
            rd_ok (d\<lparr>sdp_protocol_version := Some (v ! 0, v ! 1)\<rparr>)))
      else if pid = PID_PARTICIPANT_GUID then
         rd_bind (read_guid) (\<lambda>v. rd_ok (d\<lparr>sdp_guid := Some v\<rparr>))
      else if pid = PID_VENDOR_ID then
         rd_bind (read_array 2) (\<lambda>v. rd_bind (skip_bytes 2) (\<lambda>_. rd_ok (d\<lparr>sdp_vendor_id := Some v\<rparr>)))
      else if pid = PID_EXPECTS_INLINE_QOS then
         rd_bind read_u8 (\<lambda>flag.
            if flag = 1 \<or> flag = 0
            then rd_bind (skip_bytes 3) (\<lambda>_. rd_ok (d\<lparr>sdp_expects_inline_qos := Some (flag = 1)\<rparr>))
            else (\<lambda>_. Inl AssertFailed))
      else if pid = PID_BUILTIN_ENDPOINT_SET then
         rd_bind (read_u32 S e) (\<lambda>bits.
            rd_ok (d\<lparr>sdp_available_builtin_endpoint := Some (bits AND 0x3fffffff)\<rparr>))
      else if pid = PID_METATRAFFIC_UNICAST_LOCATOR then
         rd_bind (read_locator S e) (\<lambda>l. rd_ok (d\<lparr>sdp_metarraffic_unicast_locator_list := sdp_metarraffic_unicast_locator_list d @ [l]\<rparr>))
      else if pid = PID_METATRAFFIC_MULTICAST_LOCATOR then
         rd_bind (read_locator S e) (\<lambda>l. rd_ok (d\<lparr>sdp_metarraffic_multicast_locator_list := sdp_metarraffic_multicast_locator_list d @ [l]\<rparr>))
      else if pid = PID_DEFAULT_UNICAST_LOCATOR then
         rd_bind (read_locator S e) (\<lambda>l. rd_ok (d\<lparr>sdp_default_unicast_locator_list := sdp_default_unicast_locator_list d @ [l]\<rparr>))
      else if pid = PID_DEFAULT_MULTICAST_LOCATOR then
         rd_bind (read_locator S e) (\<lambda>l. rd_ok (d\<lparr>sdp_default_multicast_locator_list := sdp_default_multicast_locator_list d @ [l]\<rparr>))
      else if pid = PID_PARTICIPANT_MANUAL_LIVELINESS_COUNT then
         rd_bind (read_i32 S e) (\<lambda>v. rd_ok (d\<lparr>sdp_manual_liveliness_count := Some v\<rparr>))
      else if pid = PID_PARTICIPANT_LEASE_DURATION then
         rd_bind (read_duration S e) (\<lambda>v. rd_ok (d\<lparr>sdp_lease_duration := Some v\<rparr>))
      else if pid = PID_ENDPOINT_GUID then
         rd_bind (read_guid) (\<lambda>v. rd_ok (d\<lparr>sdp_remote_guid := Some v\<rparr>))
      else if pid = PID_UNICAST_LOCATOR then
         rd_bind (read_locator S e) (\<lambda>l. rd_ok (d\<lparr>sdp_unicast_locator_list := sdp_unicast_locator_list d @ [l]\<rparr>))
      else if pid = PID_MULTICAST_LOCATOR then
         rd_bind (read_locator S e) (\<lambda>l. rd_ok (d\<lparr>sdp_multicast_locator_list := sdp_multicast_locator_list d @ [l]\<rparr>))
      else if pid = PID_TYPE_MAX_SIZE_SERIALIZED then
         rd_bind (read_i32 S e) (\<lambda>v. rd_ok (d\<lparr>sdp_data_max_size_serialized := Some v\<rparr>))
      else if pid = PID_TYPE_NAME then
         rd_bind (read_name S e) (\<lambda>v. rd_ok (d\<lparr>sdp_type_name := Some v\<rparr>))
      else if pid = PID_TOPIC_NAME then
         rd_bind (read_name S e) (\<lambda>v. rd_ok (d\<lparr>sdp_topic_name := Some v\<rparr>))
      else if pid = PID_DURABILITY then
         rd_bind (read_durability S e) (\<lambda>v. rd_ok (d\<lparr>sdp_durability := Some v\<rparr>))
      else if pid = PID_DEADLINE then
         rd_bind (read_deadline S e) (\<lambda>v. rd_ok (d\<lparr>sdp_deadline := Some v\<rparr>))
      else if pid = PID_LATENCY_BUDGET then
         rd_bind (read_latency_budget S e) (\<lambda>v. rd_ok (d\<lparr>sdp_latency_budget := Some v\<rparr>))
      else if pid = PID_LIVELINESS then
         rd_bind (read_liveliness S e) (\<lambda>v. rd_ok (d\<lparr>sdp_liveliness := Some v\<rparr>))
      else if pid = PID_RELIABILITY then
         rd_bind (read_reliability S e) (\<lambda>v. rd_ok (d\<lparr>sdp_reliability := Some v\<rparr>))
      else if pid = PID_USER_DATA then
         rd_bind (read_user_data S e) (\<lambda>v. rd_ok (d\<lparr>sdp_user_data := Some v\<rparr>))
      else if pid = PID_OWNERSHIP then
         rd_bind (read_ownership S e) (\<lambda>v. rd_ok (d\<lparr>sdp_ownership := Some v\<rparr>))
      else if pid = PID_DESTINATION_ORDER then
         rd_bind (read_destination_order S e) (\<lambda>v. rd_ok (d\<lparr>sdp_destination_order := Some v\<rparr>))
      else if pid = PID_HISTORY then
         rd_bind (read_history S e) (\<lambda>v. rd_ok (d\<lparr>sdp_history := Some v\<rparr>))
      else if pid = PID_RESOURCE_LIMITS then
         rd_bind (read_resource_limits S e) (\<lambda>v. rd_ok (d\<lparr>sdp_resource_limits := Some v\<rparr>))
      else if pid = PID_TRANSPORT_PRIORITY then
         rd_bind (read_transport_priority S e) (\<lambda>v. rd_ok (d\<lparr>sdp_transport_priority := Some v\<rparr>))
      else if pid = PID_TIME_BASED_FILTER then
         rd_bind (read_time_based_filter S e) (\<lambda>v. rd_ok (d\<lparr>sdp_time_based_filter := Some v\<rparr>))
      else if pid = PID_PRESENTATION then
         rd_bind (read_presentation S e) (\<lambda>v. rd_bind (skip_bytes 2) (\<lambda>_.
            rd_ok (d\<lparr>sdp_presentation := Some v\<rparr>)))
      else if pid = PID_PARTITION then
         rd_bind (read_partition S e) (\<lambda>v. rd_ok (d\<lparr>sdp_partition := Some v\<rparr>))
      else if pid = PID_TOPIC_DATA then
         rd_bind (read_topic_data S e) (\<lambda>v. rd_ok (d\<lparr>sdp_topic_data := Some v\<rparr>))
      else if pid = PID_GROUP_DATA then
         rd_bind (read_group_data S e) (\<lambda>v. rd_ok (d\<lparr>sdp_group_data := Some v\<rparr>))
      else if pid = PID_DURABILITY_SERVICE then
         rd_bind (read_durability_service S e) (\<lambda>v. rd_ok (d\<lparr>sdp_durability_service := Some v\<rparr>))
      else if pid = PID_LIFESPAN then
         rd_bind (read_lifespan S e) (\<lambda>v. rd_ok (d\<lparr>sdp_lifespan := Some v\<rparr>))
      else if pid = PID_OWNERSHIP_STRENGTH then
         rd_bind (read_ownership_strength S e) (\<lambda>v. rd_ok (d\<lparr>sdp_ownership_strength := Some v\<rparr>))
      else if pid = PID_PROPERTY_LIST then
         rd_bind (read_u32 S e) (\<lambda>n. rd_bind (read_properties S e (unat n)) (\<lambda>_. rd_ok d))
      else rd_bind (skip_bytes (unat len)) (\<lambda>_. rd_ok d))"

text \<open>A reader never returns more bytes than it was given.\<close>

definition shrinks :: "'a read \<Rightarrow> bool" where
  "shrinks p \<longleftrightarrow> (\<forall>bs v rest. p bs = Inr (Some (v, rest)) \<longrightarrow> length rest \<le> length bs)"

named_theorems shrink \<open>readers that do not add input\<close>

lemma shrinks_D: "shrinks p \<Longrightarrow> p bs = Inr (Some (v, rest)) \<Longrightarrow> length rest \<le> length bs"
  by (auto simp: shrinks_def)

lemma shrinks_bind [shrink]: "shrinks p \<Longrightarrow> (\<And>v. shrinks (f v)) \<Longrightarrow> shrinks (rd_bind p f)"
  unfolding shrinks_def rd_bind_def by (auto elim!: obind_Inr_E) (meson le_trans)

lemma shrinks_prim [shrink]:
  "shrinks (rd_ok v)" "shrinks (\<lambda>_. Inl p)" "shrinks (\<lambda>_. Inr None)"
  "shrinks (read_u16 S e)" "shrinks (read_u32 S e)" "shrinks (read_array n)" "shrinks read_entity_id"
  "shrinks read_u8" "shrinks (skip_bytes n)" "shrinks (read_value_string S e)"
  by (auto simp: shrinks_def read_u16_def read_u32_def read_array_def read_entity_id_def read_u8_def
      skip_bytes_def read_value_string_def split: list.split_asm if_split_asm)

lemma shrinks_if [shrink]: "shrinks p \<Longrightarrow> shrinks q \<Longrightarrow> shrinks (if b then p else q)"
  by simp

lemma shrinks_check [shrink]: "shrinks (\<lambda>bs. Inr (if b then Some (v, bs) else None))"
  "shrinks (\<lambda>bs. Inr (map_option (\<lambda>v. (v, bs)) x))" "shrinks (\<lambda>bs. rbind m (\<lambda>l. rd_ok l bs))"
  by (auto simp: shrinks_def elim!: rbind_Inr_E split: if_split_asm)

lemma shrinks_i32 [shrink]: "shrinks (read_i32 S e)"
  unfolding read_i32_def by (intro shrink)

lemma shrinks_enum [shrink]: "shrinks (read_enum S e f)"
  unfolding read_enum_def by (intro shrink)

lemma shrinks_string [shrink]: "shrinks (read_string S n)" "shrinks (read_cdr_string S e)"
  unfolding read_cdr_string_def read_string_def by (intro shrink)+

lemma shrinks_duration [shrink]: "shrinks (read_duration S e)" "shrinks read_guid" "shrinks (read_locator S e)"
  unfolding read_duration_def read_guid_def read_locator_def by (intro shrink)+

lemma shrinks_kinds [shrink]:
  "shrinks (read_durability S e)" "shrinks (read_ownership S e)" "shrinks (read_liveliness_kind S e)"
  "shrinks (read_reliability_kind S e)" "shrinks (read_destination_order S e)"
  "shrinks (read_history_kind S e)" "shrinks (read_access_scope S e)"
  unfolding read_durability_def read_ownership_def read_liveliness_kind_def read_reliability_kind_def
    read_destination_order_def read_history_kind_def read_access_scope_def by (intro shrink)+

lemma shrinks_lists [shrink]: "shrinks (read_names S e n)" "shrinks (read_properties S e n)"
proof -
  show "shrinks (read_names S e n)" by (induction n) (simp_all only: read_names.simps shrink)
  have "shrinks (read_property S e)" unfolding read_property_def by (intro shrink)
  then show "shrinks (read_properties S e n)" by (induction n) (simp_all only: read_properties.simps shrink)
qed

lemma shrinks_policies [shrink]:
  "shrinks (read_durability_service S e)" "shrinks (read_presentation S e)" "shrinks (read_deadline S e)"
  "shrinks (read_latency_budget S e)" "shrinks (read_ownership_strength S e)" "shrinks (read_liveliness S e)"
  "shrinks (read_time_based_filter S e)" "shrinks (read_reliability S e)" "shrinks (read_history S e)"
  "shrinks (read_resource_limits S e)" "shrinks (read_lifespan S e)" "shrinks (read_partition S e)"
  "shrinks (read_user_data S e)" "shrinks (read_topic_data S e)" "shrinks (read_group_data S e)"
  "shrinks (read_transport_priority S e)" "shrinks (read_name S e)"
  unfolding read_durability_service_def read_presentation_def read_deadline_def read_latency_budget_def
    read_ownership_strength_def read_liveliness_def read_time_based_filter_def read_reliability_def
    read_history_def read_resource_limits_def read_lifespan_def read_partition_def read_user_data_def
    read_topic_data_def read_group_data_def read_transport_priority_def read_name_def
  by (intro shrink)+

lemma shrinks_parameter: "shrinks (read_sdp_parameter S e pid len d)"
  unfolding read_sdp_parameter_def by (intro shrink)

text \<open>The loop over the parameters, up to the sentinel. A padding identifier has no length.\<close>

function read_sdp_parameters :: "Speedy \<Rightarrow> Endianness \<Rightarrow> SDPBuiltinData \<Rightarrow> SDPBuiltinData read" where
  "read_sdp_parameters S e d bs =
     (case read_u16 S e bs of
        Inr (Some (pid, bs1)) \<Rightarrow>
          if pid = 0 then read_sdp_parameters S e d bs1
          else
            (case read_u16 S e bs1 of
               Inr (Some (len, bs2)) \<Rightarrow>
                 if pid = PID_SENTINEL then Inr (Some (d, bs2))
                 else
                   (case read_sdp_parameter S e pid len d bs2 of
                      Inr (Some (d', bs3)) \<Rightarrow> read_sdp_parameters S e d' bs3
                    | Inr None \<Rightarrow> Inr None
                    | Inl p \<Rightarrow> Inl p)
             | _ \<Rightarrow> Inr None)
      | _ \<Rightarrow> Inr None)"
  by pat_completeness auto
termination
proof (relation "measure (\<lambda>(S, e, d, bs). length bs)", goal_cases)
  case 1
  show ?case by simp
next
  case 2
  then show ?case by (auto simp: read_u16_def split: list.split_asm)
next
  case 3
  then show ?case by (auto simp: read_u16_def dest!: shrinks_D [OF shrinks_parameter] split: list.split_asm)
qed

declare read_sdp_parameters.simps [simp del]

text \<open>\<^verbatim>\<open>read_from\<close>: the domain is zero when it is not announced.\<close>

definition SDPBuiltinData_read :: "Speedy \<Rightarrow> Endianness \<Rightarrow> u8 list \<Rightarrow> SDPBuiltinData option res" where
  "SDPBuiltinData_read S e = read_from_buffer (read_sdp_parameters S e (sdp_default\<lparr>sdp_domain_id := Some 0\<rparr>))"

section \<open>Writing discovery data\<close>

definition write_parameter :: "Speedy \<Rightarrow> Endianness \<Rightarrow> u16 \<Rightarrow> u16 \<Rightarrow> u8 list \<Rightarrow> u8 list" where
  "write_parameter S e pid len body = put16 S e pid @ put16 S e len @ body"

definition write_locators :: "Speedy \<Rightarrow> Endianness \<Rightarrow> u16 \<Rightarrow> Locator list \<Rightarrow> u8 list" where
  "write_locators S e pid ls = concat (map (\<lambda>l. write_parameter S e pid 24 (write_locator S e l)) ls)"

definition write_sentinel :: "Speedy \<Rightarrow> Endianness \<Rightarrow> u8 list" where
  "write_sentinel S e = put16 S e PID_SENTINEL @ put16 S e 0"

definition write_flag :: "bool \<Rightarrow> u8 list" where
  "write_flag b = [if b then 1 else 0] @ replicate 3 0"

text \<open>The announcement of a participant. The domain tag is not written.\<close>

definition write_spdp :: "Speedy \<Rightarrow> Endianness \<Rightarrow> SPDPdiscoveredParticipantData \<Rightarrow> u8 list" where
  "write_spdp S e d =
     write_parameter S e PID_DOMAIN_ID 4 (put32 S e (word_of_int (spdp_domain_id d))) @
     write_parameter S e PID_PROTOCOL_VERSION 4
       ([fst (spdp_protocol_version d), snd (spdp_protocol_version d)] @ put16 S e 0) @
     write_parameter S e PID_VENDOR_ID 4 ([spdp_vendor_id d ! 0, spdp_vendor_id d ! 1] @ put16 S e 0) @
     write_parameter S e PID_EXPECTS_INLINE_QOS 4 (write_flag (spdp_expects_inline_qos d)) @
     write_parameter S e PID_PARTICIPANT_GUID 16 (write_guid (spdp_guid d)) @
     write_locators S e PID_METATRAFFIC_UNICAST_LOCATOR (metarraffic_unicast_locator_list d) @
     write_locators S e PID_METATRAFFIC_MULTICAST_LOCATOR (metarraffic_multicast_locator_list d) @
     write_locators S e PID_DEFAULT_UNICAST_LOCATOR (spdp_default_unicast_locator_list d) @
     write_locators S e PID_DEFAULT_MULTICAST_LOCATOR (spdp_default_multicast_locator_list d) @
     write_parameter S e PID_BUILTIN_ENDPOINT_SET 4 (put32 S e (available_builtin_endpoint d)) @
     write_parameter S e PID_PARTICIPANT_LEASE_DURATION 8 (write_duration S e (spdp_lease_duration d)) @
     (case manual_liveliness_count d of
        None \<Rightarrow> []
      | Some c \<Rightarrow> write_parameter S e PID_PARTICIPANT_MANUAL_LIVELINESS_COUNT 4 (put_i32 S e c)) @
     write_sentinel S e"

text \<open>The announcement of a reader or a writer: its proxy, then the type and the topic name.\<close>

definition write_reader_proxy :: "Speedy \<Rightarrow> Endianness \<Rightarrow> ReaderProxy \<Rightarrow> u8 list res" where
  "write_reader_proxy S e p =
     (let q = rp_qos p in
      rbind (user_data_serialized_size (fst (dr_user_data q))) (\<lambda>ulen.
      Inr (write_parameter S e PID_ENDPOINT_GUID 16 (write_guid (remote_reader_guid p)) @
           write_parameter S e PID_EXPECTS_INLINE_QOS 4 (write_flag (expects_inline_qos p)) @
           write_locators S e PID_UNICAST_LOCATOR (rp_unicast_locator_list p) @
           write_locators S e PID_MULTICAST_LOCATOR (rp_multicast_locator_list p) @
           write_parameter S e PID_DURABILITY 4 (write_durability S e (fst (dr_durability q))) @
           write_parameter S e PID_DEADLINE 8 (write_deadline S e (fst (dr_deadline q))) @
           write_parameter S e PID_LATENCY_BUDGET 8 (write_latency_budget S e (fst (dr_latency_budget q))) @
           write_parameter S e PID_LIVELINESS 12 (write_liveliness S e (fst (dr_liveliness q))) @
           write_parameter S e PID_RELIABILITY 12 (write_reliability S e (fst (dr_reliability q))) @
           write_parameter S e PID_DESTINATION_ORDER 4
             (write_destination_order S e (fst (dr_destination_order q))) @
           write_parameter S e PID_HISTORY 8 (write_history S e (fst (dr_history q))) @
           write_parameter S e PID_RESOURCE_LIMITS 12
             (write_resource_limits S e (fst (dr_resource_limits q))) @
           write_parameter S e PID_USER_DATA (word_of_int ulen) (write_user_data S e (fst (dr_user_data q))) @
           write_parameter S e PID_OWNERSHIP 4 (write_ownership S e (fst (dr_ownership q))) @
           write_parameter S e PID_TIME_BASED_FILTER 8
             (write_time_based_filter S e (fst (dr_time_based_filter q))))))"

definition write_writer_proxy :: "Speedy \<Rightarrow> Endianness \<Rightarrow> WriterProxy \<Rightarrow> u8 list res" where
  "write_writer_proxy S e p =
     (let q = wp_qos p in
      rbind (user_data_serialized_size (fst (dw_user_data q))) (\<lambda>ulen.
      Inr (write_parameter S e PID_ENDPOINT_GUID 16 (write_guid (remote_writer_guid p)) @
           write_locators S e PID_UNICAST_LOCATOR (wp_unicast_locator_list p) @
           write_locators S e PID_MULTICAST_LOCATOR (wp_multicast_locator_list p) @
           write_parameter S e PID_TYPE_MAX_SIZE_SERIALIZED 4 (put_i32 S e (data_max_size_serialized p)) @
           write_parameter S e PID_DURABILITY 4 (write_durability S e (fst (dw_durability q))) @
           write_parameter S e PID_DURABILITY_SERVICE 28
             (write_durability_service S e (fst (dw_durability_service q))) @
           write_parameter S e PID_DEADLINE 8 (write_deadline S e (fst (dw_deadline q))) @
           write_parameter S e PID_LATENCY_BUDGET 8 (write_latency_budget S e (fst (dw_latency_budget q))) @
           write_parameter S e PID_LIVELINESS 12 (write_liveliness S e (fst (dw_liveliness q))) @
           write_parameter S e PID_RELIABILITY 12 (write_reliability S e (fst (dw_reliability q))) @
           write_parameter S e PID_DESTINATION_ORDER 4
             (write_destination_order S e (fst (dw_destination_order q))) @
           write_parameter S e PID_HISTORY 8 (write_history S e (fst (dw_history q))) @
           write_parameter S e PID_RESOURCE_LIMITS 12
             (write_resource_limits S e (fst (dw_resource_limits q))) @
           write_parameter S e PID_TRANSPORT_PRIORITY 4
             (write_transport_priority S e (fst (dw_transport_priority q))) @
           write_parameter S e PID_LIFESPAN 8 (write_lifespan S e (fst (dw_lifespan q))) @
           write_parameter S e PID_USER_DATA (word_of_int ulen) (write_user_data S e (fst (dw_user_data q))) @
           write_parameter S e PID_OWNERSHIP 4 (write_ownership S e (fst (dw_ownership q))) @
           write_parameter S e PID_OWNERSHIP_STRENGTH 4
             (write_ownership_strength S e (fst (dw_ownership_strength q))))))"

text \<open>The lengths of a name are computed in \<^verbatim>\<open>u16\<close>: \<^verbatim>\<open>len() as u16\<close>, then plus four, plus one.\<close>

definition write_name :: "Speedy \<Rightarrow> Endianness \<Rightarrow> u16 \<Rightarrow> string \<Rightarrow> u8 list res" where
  "write_name S e pid s =
     (let str_len = wrap_u 16 (int (length s)) in
      rbind (u16_checked (str_len + 4 + 1)) (\<lambda>cdr_str_len.
      let pad = (4 - nat cdr_str_len mod 4) mod 4 in
      rbind (u16_checked (cdr_str_len + int pad)) (\<lambda>param_len.
      Inr (write_parameter S e pid (word_of_int param_len)
             (put32 S e (word_of_int (str_len + 1)) @ bytes_of_string s @ [0] @ replicate pad 0)))))"

definition write_opt_name :: "Speedy \<Rightarrow> Endianness \<Rightarrow> u16 \<Rightarrow> string option \<Rightarrow> u8 list res" where
  "write_opt_name S e pid s = (case s of None \<Rightarrow> Inr [] | Some n \<Rightarrow> write_name S e pid n)"

text \<open>Of the topic data only the type name and the topic name are written.\<close>

definition write_names :: "Speedy \<Rightarrow> Endianness \<Rightarrow> string option \<Rightarrow> string option \<Rightarrow> u8 list res" where
  "write_names S e ty_name to_name =
     rbind (write_opt_name S e PID_TYPE_NAME ty_name) (\<lambda>a.
     rbind (write_opt_name S e PID_TOPIC_NAME to_name) (\<lambda>b. Inr (a @ b)))"

definition write_subscription_data :: "Speedy \<Rightarrow> Endianness \<Rightarrow> SubscriptionBuiltinTopicData \<Rightarrow> u8 list res" where
  "write_subscription_data S e t = write_names S e (sb_type_name t) (sb_topic_name t)"

definition write_publication_data :: "Speedy \<Rightarrow> Endianness \<Rightarrow> PublicationBuiltinTopicData \<Rightarrow> u8 list res" where
  "write_publication_data S e t = write_names S e (pb_type_name t) (pb_topic_name t)"

definition write_discovered_reader :: "Speedy \<Rightarrow> Endianness \<Rightarrow> ReaderProxy \<Rightarrow> SubscriptionBuiltinTopicData
    \<Rightarrow> u8 list res" where
  "write_discovered_reader S e p t =
     rbind (write_reader_proxy S e p) (\<lambda>a. rbind (write_subscription_data S e t) (\<lambda>b.
       Inr (a @ b @ write_sentinel S e)))"

definition write_discovered_writer :: "Speedy \<Rightarrow> Endianness \<Rightarrow> WriterProxy \<Rightarrow> PublicationBuiltinTopicData
    \<Rightarrow> u8 list res" where
  "write_discovered_writer S e p t =
     rbind (write_writer_proxy S e p) (\<lambda>a. rbind (write_publication_data S e t) (\<lambda>b.
       Inr (a @ b @ write_sentinel S e)))"

section \<open>Liveliness messages\<close>

definition read_participant_message_data :: "Speedy \<Rightarrow> Endianness \<Rightarrow> ParticipantMessageData read" where
  "read_participant_message_data S e = rd_bind (read_array 12) (\<lambda>prefix. rd_bind (read_array 4) (\<lambda>kind.
     rd_bind (read_u32 S e) (\<lambda>n. rd_bind (read_array (unat n)) (\<lambda>data.
     rd_bind (skip_bytes (pad_len (unat n))) (\<lambda>_.
       rd_ok \<lparr>pmd_guid_prefix = prefix, pmd_kind = ParticipantMessageKind kind, pmd_data = data\<rparr>)))))"

definition write_participant_message_data :: "Speedy \<Rightarrow> Endianness \<Rightarrow> ParticipantMessageData \<Rightarrow> u8 list" where
  "write_participant_message_data S e m =
     pmd_guid_prefix m @ pmk_value (pmd_kind m) @ write_octets S e (pmd_data m)"

section \<open>Announcements are read back\<close>

lemma reads_map: "reads p w v \<Longrightarrow> reads (rd_bind p (\<lambda>v. rd_ok (f v))) w (f v)"
  by (auto simp: reads_def rd_bind_def)

text \<open>
  What a group of parameters does to the data that the reader collects: the parameters are
  consumed and \<open>d\<close> becomes \<open>d'\<close>.
\<close>

definition carries :: "Speedy \<Rightarrow> u8 list \<Rightarrow> SDPBuiltinData \<Rightarrow> SDPBuiltinData \<Rightarrow> bool" where
  "carries S w d d' \<longleftrightarrow> (\<forall>rest. read_sdp_parameters S LittleEndian d (w @ rest) =
     read_sdp_parameters S LittleEndian d' rest)"

lemma carries_append: "carries S w d d' \<Longrightarrow> carries S w' d' d'' \<Longrightarrow> carries S (w @ w') d d''"
  by (simp add: carries_def)

lemma carries_Nil: "carries S [] d d"
  by (simp add: carries_def)

lemma read_u16_put: "speedy_ok S \<Longrightarrow> read_u16 S e (put16 S e w @ rest) = Inr (Some (w, rest))"
  using reads_u16 [of S e w] by (simp add: reads_def)

lemma carries_parameter:
  assumes "speedy_ok S" and "pid \<noteq> 0" and "pid \<noteq> PID_SENTINEL"
    and "reads (read_sdp_parameter S LittleEndian pid len d) body d'"
  shows "carries S (write_parameter S LittleEndian pid len body) d d'"
  using assms by (simp add: carries_def write_parameter_def reads_def
      read_sdp_parameters.simps [of S _ d] read_u16_put)

lemma read_sentinel:
  "speedy_ok S \<Longrightarrow> read_sdp_parameters S e d (write_sentinel S e) = Inr (Some (d, []))"
  using read_u16_put [of S e 0 "[]"]
  by (simp add: write_sentinel_def read_sdp_parameters.simps [of S e d] read_u16_put PID_SENTINEL_def)

lemma parameter_cases:
 "read_sdp_parameter S e PID_DOMAIN_ID len d = rd_bind (read_u16 S e) (\<lambda>v. rd_bind (skip_bytes 2) (\<lambda>_. rd_ok (d\<lparr>sdp_domain_id := Some (uint v)\<rparr>)))"
  "read_sdp_parameter S e PID_PROTOCOL_VERSION len d = rd_bind (read_array 2) (\<lambda>v. rd_bind (skip_bytes 2) (\<lambda>_. rd_ok (d\<lparr>sdp_protocol_version := Some (v ! 0, v ! 1)\<rparr>)))"
  "read_sdp_parameter S e PID_PARTICIPANT_GUID len d = rd_bind (read_guid) (\<lambda>v. rd_ok (d\<lparr>sdp_guid := Some v\<rparr>))"
  "read_sdp_parameter S e PID_VENDOR_ID len d = rd_bind (read_array 2) (\<lambda>v. rd_bind (skip_bytes 2) (\<lambda>_. rd_ok (d\<lparr>sdp_vendor_id := Some v\<rparr>)))"
  "read_sdp_parameter S e PID_EXPECTS_INLINE_QOS len d = rd_bind read_u8 (\<lambda>flag. if flag = 1 \<or> flag = 0 then rd_bind (skip_bytes 3) (\<lambda>_. rd_ok (d\<lparr>sdp_expects_inline_qos := Some (flag = 1)\<rparr>)) else (\<lambda>_. Inl AssertFailed))"
  "read_sdp_parameter S e PID_BUILTIN_ENDPOINT_SET len d = rd_bind (read_u32 S e) (\<lambda>bits. rd_ok (d\<lparr>sdp_available_builtin_endpoint := Some (bits AND 0x3fffffff)\<rparr>))"
  "read_sdp_parameter S e PID_METATRAFFIC_UNICAST_LOCATOR len d = rd_bind (read_locator S e) (\<lambda>l. rd_ok (d\<lparr>sdp_metarraffic_unicast_locator_list := sdp_metarraffic_unicast_locator_list d @ [l]\<rparr>))"
  "read_sdp_parameter S e PID_METATRAFFIC_MULTICAST_LOCATOR len d = rd_bind (read_locator S e) (\<lambda>l. rd_ok (d\<lparr>sdp_metarraffic_multicast_locator_list := sdp_metarraffic_multicast_locator_list d @ [l]\<rparr>))"
  "read_sdp_parameter S e PID_DEFAULT_UNICAST_LOCATOR len d = rd_bind (read_locator S e) (\<lambda>l. rd_ok (d\<lparr>sdp_default_unicast_locator_list := sdp_default_unicast_locator_list d @ [l]\<rparr>))"
  "read_sdp_parameter S e PID_DEFAULT_MULTICAST_LOCATOR len d = rd_bind (read_locator S e) (\<lambda>l. rd_ok (d\<lparr>sdp_default_multicast_locator_list := sdp_default_multicast_locator_list d @ [l]\<rparr>))"
  "read_sdp_parameter S e PID_PARTICIPANT_MANUAL_LIVELINESS_COUNT len d = rd_bind (read_i32 S e) (\<lambda>v. rd_ok (d\<lparr>sdp_manual_liveliness_count := Some v\<rparr>))"
  "read_sdp_parameter S e PID_PARTICIPANT_LEASE_DURATION len d = rd_bind (read_duration S e) (\<lambda>v. rd_ok (d\<lparr>sdp_lease_duration := Some v\<rparr>))"
  "read_sdp_parameter S e PID_ENDPOINT_GUID len d = rd_bind (read_guid) (\<lambda>v. rd_ok (d\<lparr>sdp_remote_guid := Some v\<rparr>))"
  "read_sdp_parameter S e PID_UNICAST_LOCATOR len d = rd_bind (read_locator S e) (\<lambda>l. rd_ok (d\<lparr>sdp_unicast_locator_list := sdp_unicast_locator_list d @ [l]\<rparr>))"
  "read_sdp_parameter S e PID_MULTICAST_LOCATOR len d = rd_bind (read_locator S e) (\<lambda>l. rd_ok (d\<lparr>sdp_multicast_locator_list := sdp_multicast_locator_list d @ [l]\<rparr>))"
  "read_sdp_parameter S e PID_TYPE_MAX_SIZE_SERIALIZED len d = rd_bind (read_i32 S e) (\<lambda>v. rd_ok (d\<lparr>sdp_data_max_size_serialized := Some v\<rparr>))"
  "read_sdp_parameter S e PID_TYPE_NAME len d = rd_bind (read_name S e) (\<lambda>v. rd_ok (d\<lparr>sdp_type_name := Some v\<rparr>))"
  "read_sdp_parameter S e PID_TOPIC_NAME len d = rd_bind (read_name S e) (\<lambda>v. rd_ok (d\<lparr>sdp_topic_name := Some v\<rparr>))"
  "read_sdp_parameter S e PID_DURABILITY len d = rd_bind (read_durability S e) (\<lambda>v. rd_ok (d\<lparr>sdp_durability := Some v\<rparr>))"
  "read_sdp_parameter S e PID_DEADLINE len d = rd_bind (read_deadline S e) (\<lambda>v. rd_ok (d\<lparr>sdp_deadline := Some v\<rparr>))"
  "read_sdp_parameter S e PID_LATENCY_BUDGET len d = rd_bind (read_latency_budget S e) (\<lambda>v. rd_ok (d\<lparr>sdp_latency_budget := Some v\<rparr>))"
  "read_sdp_parameter S e PID_LIVELINESS len d = rd_bind (read_liveliness S e) (\<lambda>v. rd_ok (d\<lparr>sdp_liveliness := Some v\<rparr>))"
  "read_sdp_parameter S e PID_RELIABILITY len d = rd_bind (read_reliability S e) (\<lambda>v. rd_ok (d\<lparr>sdp_reliability := Some v\<rparr>))"
  "read_sdp_parameter S e PID_USER_DATA len d = rd_bind (read_user_data S e) (\<lambda>v. rd_ok (d\<lparr>sdp_user_data := Some v\<rparr>))"
  "read_sdp_parameter S e PID_OWNERSHIP len d = rd_bind (read_ownership S e) (\<lambda>v. rd_ok (d\<lparr>sdp_ownership := Some v\<rparr>))"
  "read_sdp_parameter S e PID_DESTINATION_ORDER len d = rd_bind (read_destination_order S e) (\<lambda>v. rd_ok (d\<lparr>sdp_destination_order := Some v\<rparr>))"
  "read_sdp_parameter S e PID_HISTORY len d = rd_bind (read_history S e) (\<lambda>v. rd_ok (d\<lparr>sdp_history := Some v\<rparr>))"
  "read_sdp_parameter S e PID_RESOURCE_LIMITS len d = rd_bind (read_resource_limits S e) (\<lambda>v. rd_ok (d\<lparr>sdp_resource_limits := Some v\<rparr>))"
  "read_sdp_parameter S e PID_TRANSPORT_PRIORITY len d = rd_bind (read_transport_priority S e) (\<lambda>v. rd_ok (d\<lparr>sdp_transport_priority := Some v\<rparr>))"
  "read_sdp_parameter S e PID_TIME_BASED_FILTER len d = rd_bind (read_time_based_filter S e) (\<lambda>v. rd_ok (d\<lparr>sdp_time_based_filter := Some v\<rparr>))"
  "read_sdp_parameter S e PID_DURABILITY_SERVICE len d = rd_bind (read_durability_service S e) (\<lambda>v. rd_ok (d\<lparr>sdp_durability_service := Some v\<rparr>))"
  "read_sdp_parameter S e PID_LIFESPAN len d = rd_bind (read_lifespan S e) (\<lambda>v. rd_ok (d\<lparr>sdp_lifespan := Some v\<rparr>))"
  "read_sdp_parameter S e PID_OWNERSHIP_STRENGTH len d = rd_bind (read_ownership_strength S e) (\<lambda>v. rd_ok (d\<lparr>sdp_ownership_strength := Some v\<rparr>))"
  unfolding read_sdp_parameter_def pid_defs by simp_all

lemma parameter_ids:
  "PID_DOMAIN_ID \<noteq> 0" "PID_DOMAIN_ID \<noteq> PID_SENTINEL"
  "PID_DOMAIN_TAG \<noteq> 0" "PID_DOMAIN_TAG \<noteq> PID_SENTINEL"
  "PID_ENTITY_NAME \<noteq> 0" "PID_ENTITY_NAME \<noteq> PID_SENTINEL"
  "PID_PROTOCOL_VERSION \<noteq> 0" "PID_PROTOCOL_VERSION \<noteq> PID_SENTINEL"
  "PID_PARTICIPANT_GUID \<noteq> 0" "PID_PARTICIPANT_GUID \<noteq> PID_SENTINEL"
  "PID_VENDOR_ID \<noteq> 0" "PID_VENDOR_ID \<noteq> PID_SENTINEL"
  "PID_EXPECTS_INLINE_QOS \<noteq> 0" "PID_EXPECTS_INLINE_QOS \<noteq> PID_SENTINEL"
  "PID_BUILTIN_ENDPOINT_SET \<noteq> 0" "PID_BUILTIN_ENDPOINT_SET \<noteq> PID_SENTINEL"
  "PID_METATRAFFIC_UNICAST_LOCATOR \<noteq> 0" "PID_METATRAFFIC_UNICAST_LOCATOR \<noteq> PID_SENTINEL"
  "PID_METATRAFFIC_MULTICAST_LOCATOR \<noteq> 0" "PID_METATRAFFIC_MULTICAST_LOCATOR \<noteq> PID_SENTINEL"
  "PID_DEFAULT_UNICAST_LOCATOR \<noteq> 0" "PID_DEFAULT_UNICAST_LOCATOR \<noteq> PID_SENTINEL"
  "PID_DEFAULT_MULTICAST_LOCATOR \<noteq> 0" "PID_DEFAULT_MULTICAST_LOCATOR \<noteq> PID_SENTINEL"
  "PID_PARTICIPANT_MANUAL_LIVELINESS_COUNT \<noteq> 0" "PID_PARTICIPANT_MANUAL_LIVELINESS_COUNT \<noteq> PID_SENTINEL"
  "PID_PARTICIPANT_LEASE_DURATION \<noteq> 0" "PID_PARTICIPANT_LEASE_DURATION \<noteq> PID_SENTINEL"
  "PID_ENDPOINT_GUID \<noteq> 0" "PID_ENDPOINT_GUID \<noteq> PID_SENTINEL"
  "PID_UNICAST_LOCATOR \<noteq> 0" "PID_UNICAST_LOCATOR \<noteq> PID_SENTINEL"
  "PID_MULTICAST_LOCATOR \<noteq> 0" "PID_MULTICAST_LOCATOR \<noteq> PID_SENTINEL"
  "PID_TYPE_MAX_SIZE_SERIALIZED \<noteq> 0" "PID_TYPE_MAX_SIZE_SERIALIZED \<noteq> PID_SENTINEL"
  "PID_TYPE_NAME \<noteq> 0" "PID_TYPE_NAME \<noteq> PID_SENTINEL"
  "PID_TOPIC_NAME \<noteq> 0" "PID_TOPIC_NAME \<noteq> PID_SENTINEL"
  "PID_DURABILITY \<noteq> 0" "PID_DURABILITY \<noteq> PID_SENTINEL"
  "PID_DEADLINE \<noteq> 0" "PID_DEADLINE \<noteq> PID_SENTINEL"
  "PID_LATENCY_BUDGET \<noteq> 0" "PID_LATENCY_BUDGET \<noteq> PID_SENTINEL"
  "PID_LIVELINESS \<noteq> 0" "PID_LIVELINESS \<noteq> PID_SENTINEL"
  "PID_RELIABILITY \<noteq> 0" "PID_RELIABILITY \<noteq> PID_SENTINEL"
  "PID_USER_DATA \<noteq> 0" "PID_USER_DATA \<noteq> PID_SENTINEL"
  "PID_OWNERSHIP \<noteq> 0" "PID_OWNERSHIP \<noteq> PID_SENTINEL"
  "PID_DESTINATION_ORDER \<noteq> 0" "PID_DESTINATION_ORDER \<noteq> PID_SENTINEL"
  "PID_HISTORY \<noteq> 0" "PID_HISTORY \<noteq> PID_SENTINEL"
  "PID_RESOURCE_LIMITS \<noteq> 0" "PID_RESOURCE_LIMITS \<noteq> PID_SENTINEL"
  "PID_TRANSPORT_PRIORITY \<noteq> 0" "PID_TRANSPORT_PRIORITY \<noteq> PID_SENTINEL"
  "PID_TIME_BASED_FILTER \<noteq> 0" "PID_TIME_BASED_FILTER \<noteq> PID_SENTINEL"
  "PID_PRESENTATION \<noteq> 0" "PID_PRESENTATION \<noteq> PID_SENTINEL"
  "PID_PARTITION \<noteq> 0" "PID_PARTITION \<noteq> PID_SENTINEL"
  "PID_TOPIC_DATA \<noteq> 0" "PID_TOPIC_DATA \<noteq> PID_SENTINEL"
  "PID_GROUP_DATA \<noteq> 0" "PID_GROUP_DATA \<noteq> PID_SENTINEL"
  "PID_DURABILITY_SERVICE \<noteq> 0" "PID_DURABILITY_SERVICE \<noteq> PID_SENTINEL"
  "PID_LIFESPAN \<noteq> 0" "PID_LIFESPAN \<noteq> PID_SENTINEL"
  "PID_OWNERSHIP_STRENGTH \<noteq> 0" "PID_OWNERSHIP_STRENGTH \<noteq> PID_SENTINEL"
  "PID_PROPERTY_LIST \<noteq> 0" "PID_PROPERTY_LIST \<noteq> PID_SENTINEL"
  by (simp_all add: pid_defs)

lemma carries_guid:
  "speedy_ok S \<Longrightarrow> prefix_wf (guid_prefix v) \<Longrightarrow> carries S (write_parameter S LittleEndian PID_PARTICIPANT_GUID n (write_guid v)) d
     (d\<lparr>sdp_guid := Some v\<rparr>)"
  by (rule carries_parameter) (simp_all add: parameter_ids parameter_cases, rule reads_map, simp)

lemma carries_manual_liveliness_count:
  "speedy_ok S \<Longrightarrow> in_i32 v \<Longrightarrow> carries S (write_parameter S LittleEndian PID_PARTICIPANT_MANUAL_LIVELINESS_COUNT n (put_i32 S LittleEndian v)) d
     (d\<lparr>sdp_manual_liveliness_count := Some v\<rparr>)"
  by (rule carries_parameter) (simp_all add: parameter_ids parameter_cases, rule reads_map, simp)

lemma carries_lease_duration:
  "speedy_ok S \<Longrightarrow> dur_wf v \<Longrightarrow> carries S (write_parameter S LittleEndian PID_PARTICIPANT_LEASE_DURATION n (write_duration S LittleEndian v)) d
     (d\<lparr>sdp_lease_duration := Some v\<rparr>)"
  by (rule carries_parameter) (simp_all add: parameter_ids parameter_cases, rule reads_map, simp)

lemma carries_remote_guid:
  "speedy_ok S \<Longrightarrow> prefix_wf (guid_prefix v) \<Longrightarrow> carries S (write_parameter S LittleEndian PID_ENDPOINT_GUID n (write_guid v)) d
     (d\<lparr>sdp_remote_guid := Some v\<rparr>)"
  by (rule carries_parameter) (simp_all add: parameter_ids parameter_cases, rule reads_map, simp)

lemma carries_data_max_size_serialized:
  "speedy_ok S \<Longrightarrow> in_i32 v \<Longrightarrow> carries S (write_parameter S LittleEndian PID_TYPE_MAX_SIZE_SERIALIZED n (put_i32 S LittleEndian v)) d
     (d\<lparr>sdp_data_max_size_serialized := Some v\<rparr>)"
  by (rule carries_parameter) (simp_all add: parameter_ids parameter_cases, rule reads_map, simp)

lemma carries_durability:
  "speedy_ok S \<Longrightarrow> carries S (write_parameter S LittleEndian PID_DURABILITY n (write_durability S LittleEndian v)) d
     (d\<lparr>sdp_durability := Some v\<rparr>)"
  by (rule carries_parameter) (simp_all add: parameter_ids parameter_cases, rule reads_map, simp)

lemma carries_deadline:
  "speedy_ok S \<Longrightarrow> dur_wf (deadline_period v) \<Longrightarrow> carries S (write_parameter S LittleEndian PID_DEADLINE n (write_deadline S LittleEndian v)) d
     (d\<lparr>sdp_deadline := Some v\<rparr>)"
  by (rule carries_parameter) (simp_all add: parameter_ids parameter_cases, rule reads_map, simp)

lemma carries_latency_budget:
  "speedy_ok S \<Longrightarrow> dur_wf (latency_duration v) \<Longrightarrow> carries S (write_parameter S LittleEndian PID_LATENCY_BUDGET n (write_latency_budget S LittleEndian v)) d
     (d\<lparr>sdp_latency_budget := Some v\<rparr>)"
  by (rule carries_parameter) (simp_all add: parameter_ids parameter_cases, rule reads_map, simp)

lemma carries_liveliness:
  "speedy_ok S \<Longrightarrow> dur_wf (lease_duration v) \<Longrightarrow> carries S (write_parameter S LittleEndian PID_LIVELINESS n (write_liveliness S LittleEndian v)) d
     (d\<lparr>sdp_liveliness := Some (v\<lparr>liveliness_kind := arriving_kind (liveliness_kind v)\<rparr>)\<rparr>)"
  by (rule carries_parameter) (simp_all add: parameter_ids parameter_cases, rule reads_map, simp)

lemma carries_reliability:
  "speedy_ok S \<Longrightarrow> dur_wf (max_bloking_time v) \<Longrightarrow> carries S (write_parameter S LittleEndian PID_RELIABILITY n (write_reliability S LittleEndian v)) d
     (d\<lparr>sdp_reliability := Some v\<rparr>)"
  by (rule carries_parameter) (simp_all add: parameter_ids parameter_cases, rule reads_map, simp)

lemma carries_user_data:
  "speedy_ok S \<Longrightarrow> length (user_value v) < 2 ^ 32 \<Longrightarrow> carries S (write_parameter S LittleEndian PID_USER_DATA n (write_user_data S LittleEndian v)) d
     (d\<lparr>sdp_user_data := Some v\<rparr>)"
  by (rule carries_parameter) (simp_all add: parameter_ids parameter_cases, rule reads_map, simp)

lemma carries_ownership:
  "speedy_ok S \<Longrightarrow> carries S (write_parameter S LittleEndian PID_OWNERSHIP n (write_ownership S LittleEndian v)) d
     (d\<lparr>sdp_ownership := Some v\<rparr>)"
  by (rule carries_parameter) (simp_all add: parameter_ids parameter_cases, rule reads_map, simp)

lemma carries_destination_order:
  "speedy_ok S \<Longrightarrow> carries S (write_parameter S LittleEndian PID_DESTINATION_ORDER n (write_destination_order S LittleEndian v)) d
     (d\<lparr>sdp_destination_order := Some v\<rparr>)"
  by (rule carries_parameter) (simp_all add: parameter_ids parameter_cases, rule reads_map, simp)

lemma carries_history:
  "speedy_ok S \<Longrightarrow> in_i32 (history_depth v) \<Longrightarrow> carries S (write_parameter S LittleEndian PID_HISTORY n (write_history S LittleEndian v)) d
     (d\<lparr>sdp_history := Some v\<rparr>)"
  by (rule carries_parameter) (simp_all add: parameter_ids parameter_cases, rule reads_map, simp)

lemma carries_resource_limits:
  "speedy_ok S \<Longrightarrow> limits_typed v \<Longrightarrow> carries S (write_parameter S LittleEndian PID_RESOURCE_LIMITS n (write_resource_limits S LittleEndian v)) d
     (d\<lparr>sdp_resource_limits := Some v\<rparr>)"
  by (rule carries_parameter) (simp_all add: parameter_ids parameter_cases, rule reads_map, simp)

lemma carries_transport_priority:
  "speedy_ok S \<Longrightarrow> in_i32 (priority_value v) \<Longrightarrow> carries S (write_parameter S LittleEndian PID_TRANSPORT_PRIORITY n (write_transport_priority S LittleEndian v)) d
     (d\<lparr>sdp_transport_priority := Some v\<rparr>)"
  by (rule carries_parameter) (simp_all add: parameter_ids parameter_cases, rule reads_map, simp)

lemma carries_time_based_filter:
  "speedy_ok S \<Longrightarrow> dur_wf (minimun_separation v) \<Longrightarrow> carries S (write_parameter S LittleEndian PID_TIME_BASED_FILTER n (write_time_based_filter S LittleEndian v)) d
     (d\<lparr>sdp_time_based_filter := Some v\<rparr>)"
  by (rule carries_parameter) (simp_all add: parameter_ids parameter_cases, rule reads_map, simp)

lemma carries_durability_service:
  "speedy_ok S \<Longrightarrow> service_typed v \<Longrightarrow> carries S (write_parameter S LittleEndian PID_DURABILITY_SERVICE n (write_durability_service S LittleEndian v)) d
     (d\<lparr>sdp_durability_service := Some v\<rparr>)"
  by (rule carries_parameter) (simp_all add: parameter_ids parameter_cases, rule reads_map, simp)

lemma carries_lifespan:
  "speedy_ok S \<Longrightarrow> dur_wf (lifespan_duration v) \<Longrightarrow> carries S (write_parameter S LittleEndian PID_LIFESPAN n (write_lifespan S LittleEndian v)) d
     (d\<lparr>sdp_lifespan := Some v\<rparr>)"
  by (rule carries_parameter) (simp_all add: parameter_ids parameter_cases, rule reads_map, simp)

lemma carries_ownership_strength:
  "speedy_ok S \<Longrightarrow> in_i32 (strength_value v) \<Longrightarrow> carries S (write_parameter S LittleEndian PID_OWNERSHIP_STRENGTH n (write_ownership_strength S LittleEndian v)) d
     (d\<lparr>sdp_ownership_strength := Some v\<rparr>)"
  by (rule carries_parameter) (simp_all add: parameter_ids parameter_cases, rule reads_map, simp)

text \<open>
  A 16-bit domain written as 32 bits is read as 16 bits and padding: in the little-endian layout the
  low half comes first.
\<close>

lemma put32_halves:
  assumes "speedy_ok S"
  shows "\<exists>p. put32 S LittleEndian w = put16 S LittleEndian (ucast w) @ p \<and> length p = 2"
proof -
  obtain a b c d where w: "enc32 S LittleEndian w = (a, b, c, d)" by (metis prod.exhaust)
  then have "enc16 S LittleEndian (ucast w) = (a, b)" using assms by (simp add: speedy_ok_def)
  with w show ?thesis by (simp add: put32_def put16_def)
qed

lemma carries_domain_id:
  assumes "speedy_ok S" and "0 \<le> v" and "v < 2 ^ 16"
  shows "carries S (write_parameter S LittleEndian PID_DOMAIN_ID n (put32 S LittleEndian (word_of_int v))) d
     (d\<lparr>sdp_domain_id := Some v\<rparr>)"
proof -
  have "uint (ucast (word_of_int v :: u32) :: u16) = v"
    using assms(2,3) by (simp add: uint_word_of_int unsigned_ucast_eq take_bit_int_eq_self)
  then show ?thesis
    using put32_halves [OF assms(1), of "word_of_int v"] assms(1)
    by (intro carries_parameter) (auto simp: parameter_ids parameter_cases reads_def)
qed

lemma carries_flag:
  "speedy_ok S \<Longrightarrow> carries S (write_parameter S LittleEndian PID_EXPECTS_INLINE_QOS n (write_flag v)) d
     (d\<lparr>sdp_expects_inline_qos := Some v\<rparr>)"
  by (rule carries_parameter)
    (simp_all add: parameter_ids parameter_cases reads_def write_flag_def rd_head [OF reads_skip, of "[_, _, _]", simplified]
      numeral_3_eq_3)

lemma carries_version:
  "speedy_ok S \<Longrightarrow> carries S (write_parameter S LittleEndian PID_PROTOCOL_VERSION n
     ([fst v, snd v] @ put16 S LittleEndian 0)) d (d\<lparr>sdp_protocol_version := Some v\<rparr>)"
  by (rule carries_parameter)
    (simp_all add: parameter_ids parameter_cases reads_def rd_head [OF reads_array, of "[_, _]", simplified])

lemma carries_vendor:
  assumes "speedy_ok S" and "length v = 2"
  shows "carries S (write_parameter S LittleEndian PID_VENDOR_ID n
     ([v ! 0, v ! 1] @ put16 S LittleEndian 0)) d (d\<lparr>sdp_vendor_id := Some v\<rparr>)"
proof -
  have v: "[v ! 0, v ! 1] = v" using assms(2) by (cases v; cases "tl v") auto
  show ?thesis unfolding v using assms
    by (intro carries_parameter) (simp_all add: parameter_ids parameter_cases reads_def)
qed

lemma carries_endpoints:
  "speedy_ok S \<Longrightarrow> v AND 0x3fffffff = v \<Longrightarrow>
   carries S (write_parameter S LittleEndian PID_BUILTIN_ENDPOINT_SET n (put32 S LittleEndian v)) d
     (d\<lparr>sdp_available_builtin_endpoint := Some v\<rparr>)"
  by (rule carries_parameter) (simp_all add: parameter_ids parameter_cases reads_def)

text \<open>A locator that \<^verbatim>\<open>Locator::new\<close> accepts, with its fields in their types.\<close>

definition locator_typed :: "Locator \<Rightarrow> bool" where
  "locator_typed l \<longleftrightarrow> in_i32 (loc_kind l) \<and> in_u32 (loc_port l) \<and> length (loc_address l) = 16 \<and>
     Locator_new (loc_kind l) (loc_port l) (loc_address l) = Inr l"

lemma reads_locator:
  "speedy_ok S \<Longrightarrow> locator_typed l \<Longrightarrow> reads (read_locator S e) (write_locator S e l) l"
  by (simp add: reads_def read_locator_def write_locator_def locator_typed_def)

lemma carries_locators:
  assumes "speedy_ok S" and "list_all locator_typed ls"
    and "pid \<noteq> 0" and "pid \<noteq> PID_SENTINEL"
    and step: "\<And>d. read_sdp_parameter S LittleEndian pid 24 d =
      rd_bind (read_locator S LittleEndian) (\<lambda>l. rd_ok (push [l] d))"
    and push: "\<And>d. push [] d = d" "\<And>l ls d. push ls (push [l] d) = push (l # ls) d"
  shows "carries S (write_locators S LittleEndian pid ls) d (push ls d)"
  using assms(2)
proof (induction ls arbitrary: d)
  case Nil
  then show ?case by (simp add: write_locators_def carries_Nil push)
next
  case (Cons l ls)
  have "reads (rd_bind (read_locator S LittleEndian) (\<lambda>l. rd_ok (push [l] d)))
      (write_locator S LittleEndian l) (push [l] d)"
    using Cons.prems assms(1) by (intro reads_map) (simp add: reads_locator)
  then have "carries S (write_parameter S LittleEndian pid 24 (write_locator S LittleEndian l)) d (push [l] d)"
    using assms(1,3,4) by (intro carries_parameter) (simp_all add: step)
  from carries_append [OF this Cons.IH] Cons.prems show ?case
    by (simp add: write_locators_def push)
qed

lemma carries_metarraffic_unicast_locator_list:
  assumes "speedy_ok S" and "list_all locator_typed ls"
  shows "carries S (write_locators S LittleEndian PID_METATRAFFIC_UNICAST_LOCATOR ls) d
    (d\<lparr>sdp_metarraffic_unicast_locator_list := sdp_metarraffic_unicast_locator_list d @ ls\<rparr>)"
  by (rule carries_locators [OF assms, where push = "\<lambda>ls d. d\<lparr>sdp_metarraffic_unicast_locator_list := sdp_metarraffic_unicast_locator_list d @ ls\<rparr>"])
    (simp_all add: parameter_ids parameter_cases)

lemma carries_metarraffic_multicast_locator_list:
  assumes "speedy_ok S" and "list_all locator_typed ls"
  shows "carries S (write_locators S LittleEndian PID_METATRAFFIC_MULTICAST_LOCATOR ls) d
    (d\<lparr>sdp_metarraffic_multicast_locator_list := sdp_metarraffic_multicast_locator_list d @ ls\<rparr>)"
  by (rule carries_locators [OF assms, where push = "\<lambda>ls d. d\<lparr>sdp_metarraffic_multicast_locator_list := sdp_metarraffic_multicast_locator_list d @ ls\<rparr>"])
    (simp_all add: parameter_ids parameter_cases)

lemma carries_default_unicast_locator_list:
  assumes "speedy_ok S" and "list_all locator_typed ls"
  shows "carries S (write_locators S LittleEndian PID_DEFAULT_UNICAST_LOCATOR ls) d
    (d\<lparr>sdp_default_unicast_locator_list := sdp_default_unicast_locator_list d @ ls\<rparr>)"
  by (rule carries_locators [OF assms, where push = "\<lambda>ls d. d\<lparr>sdp_default_unicast_locator_list := sdp_default_unicast_locator_list d @ ls\<rparr>"])
    (simp_all add: parameter_ids parameter_cases)

lemma carries_default_multicast_locator_list:
  assumes "speedy_ok S" and "list_all locator_typed ls"
  shows "carries S (write_locators S LittleEndian PID_DEFAULT_MULTICAST_LOCATOR ls) d
    (d\<lparr>sdp_default_multicast_locator_list := sdp_default_multicast_locator_list d @ ls\<rparr>)"
  by (rule carries_locators [OF assms, where push = "\<lambda>ls d. d\<lparr>sdp_default_multicast_locator_list := sdp_default_multicast_locator_list d @ ls\<rparr>"])
    (simp_all add: parameter_ids parameter_cases)

lemma carries_unicast_locator_list:
  assumes "speedy_ok S" and "list_all locator_typed ls"
  shows "carries S (write_locators S LittleEndian PID_UNICAST_LOCATOR ls) d
    (d\<lparr>sdp_unicast_locator_list := sdp_unicast_locator_list d @ ls\<rparr>)"
  by (rule carries_locators [OF assms, where push = "\<lambda>ls d. d\<lparr>sdp_unicast_locator_list := sdp_unicast_locator_list d @ ls\<rparr>"])
    (simp_all add: parameter_ids parameter_cases)

lemma carries_multicast_locator_list:
  assumes "speedy_ok S" and "list_all locator_typed ls"
  shows "carries S (write_locators S LittleEndian PID_MULTICAST_LOCATOR ls) d
    (d\<lparr>sdp_multicast_locator_list := sdp_multicast_locator_list d @ ls\<rparr>)"
  by (rule carries_locators [OF assms, where push = "\<lambda>ls d. d\<lparr>sdp_multicast_locator_list := sdp_multicast_locator_list d @ ls\<rparr>"])
    (simp_all add: parameter_ids parameter_cases)

text \<open>The same as rewrite rules of the reader.\<close>

lemmas carries_all = carries_guid carries_manual_liveliness_count carries_lease_duration
  carries_remote_guid carries_data_max_size_serialized carries_durability carries_deadline
  carries_latency_budget carries_liveliness carries_reliability carries_user_data
  carries_ownership carries_destination_order carries_history carries_resource_limits
  carries_transport_priority carries_time_based_filter carries_durability_service carries_lifespan
  carries_ownership_strength carries_domain_id carries_flag carries_version carries_vendor
  carries_endpoints carries_metarraffic_unicast_locator_list
  carries_metarraffic_multicast_locator_list carries_default_unicast_locator_list
  carries_default_multicast_locator_list carries_unicast_locator_list
  carries_multicast_locator_list

lemmas sdp_steps = carries_all [unfolded carries_def, rule_format]

section \<open>Participants\<close>

definition spdp_typed :: "SPDPdiscoveredParticipantData \<Rightarrow> bool" where
  "spdp_typed d \<longleftrightarrow> 0 \<le> spdp_domain_id d \<and> spdp_domain_id d < 2 ^ 16 \<and> length (spdp_vendor_id d) = 2 \<and>
     prefix_wf (guid_prefix (spdp_guid d)) \<and> available_builtin_endpoint d AND 0x3fffffff = available_builtin_endpoint d \<and>
     list_all locator_typed (metarraffic_unicast_locator_list d) \<and>
     list_all locator_typed (metarraffic_multicast_locator_list d) \<and>
     list_all locator_typed (spdp_default_unicast_locator_list d) \<and>
     list_all locator_typed (spdp_default_multicast_locator_list d) \<and>
     (\<forall>c. manual_liveliness_count d = Some c \<longrightarrow> in_i32 c) \<and> dur_wf (spdp_lease_duration d)"

definition spdp_received :: "SPDPdiscoveredParticipantData \<Rightarrow> SDPBuiltinData" where
  "spdp_received d = sdp_default\<lparr>sdp_domain_id := Some (spdp_domain_id d),
     sdp_protocol_version := Some (spdp_protocol_version d), sdp_vendor_id := Some (spdp_vendor_id d),
     sdp_expects_inline_qos := Some (spdp_expects_inline_qos d), sdp_guid := Some (spdp_guid d),
     sdp_metarraffic_unicast_locator_list := metarraffic_unicast_locator_list d,
     sdp_metarraffic_multicast_locator_list := metarraffic_multicast_locator_list d,
     sdp_default_unicast_locator_list := spdp_default_unicast_locator_list d,
     sdp_default_multicast_locator_list := spdp_default_multicast_locator_list d,
     sdp_available_builtin_endpoint := Some (available_builtin_endpoint d),
     sdp_lease_duration := Some (spdp_lease_duration d),
     sdp_manual_liveliness_count := manual_liveliness_count d\<rparr>"

lemma spdp_read_write:
  assumes "speedy_ok S" and "spdp_typed d"
  shows "SDPBuiltinData_read S LittleEndian (write_spdp S LittleEndian d) = Inr (Some (spdp_received d))"
  using assms unfolding SDPBuiltinData_read_def read_from_buffer_def write_spdp_def spdp_typed_def spdp_received_def
  by (cases "manual_liveliness_count d")
    (simp_all add: sdp_steps [simplified] read_sentinel sdp_default_def)

end
