(* ===== verification/Umber_Announce.thy ===== *)
theory Umber_Announce
  imports Umber_DiscWire
begin

text \<open>
  What a participant learns from the announcements of another: the data of the participant
  (SPDP) and of its writers and readers (SEDP), written by one side as in
  \<^verbatim>\<open>src/discovery/structure/data.rs\<close> and \<^verbatim>\<open>src/structure/proxy.rs\<close>, read and turned into participant
  data and proxies by the other.
\<close>

section \<open>Names\<close>

lemma string_bytes_inverse [simp]: "string_of_bytes (bytes_of_string s) = s"
proof -
  have "char_of (unat (word_of_nat (of_char c) :: u8)) = c" for c
    using of_char_mod_256 [of c, where ?'a = nat] by (simp add: unat_of_nat take_bit_eq_mod)
  then show ?thesis by (simp add: string_of_bytes_def bytes_of_string_def comp_def)
qed

lemma length_bytes_of_string [simp]: "length (bytes_of_string s) = length s"
  by (simp add: bytes_of_string_def)

definition name_typed :: "string \<Rightarrow> bool" where
  "name_typed s \<longleftrightarrow> length s < 2 ^ 16 - 8"

definition name_body :: "Speedy \<Rightarrow> string \<Rightarrow> u8 list" where
  "name_body S s = put32 S LittleEndian (word_of_nat (length s + 1)) @ bytes_of_string s @ [0] @
     replicate (pad_len (length s + 1)) 0"

lemma write_name_body:
  assumes "name_typed s"
  shows "\<exists>n. write_name S LittleEndian pid s = Inr (write_parameter S LittleEndian pid n (name_body S s))"
proof -
  have w: "wrap_u 16 (int (length s)) = int (length s)"
    using assms by (intro wrap_u_id) (auto simp: name_typed_def)
  have pad: "(4 - nat (int (length s) + 4 + 1) mod 4) mod 4 = pad_len (length s + 1)"
  proof -
    have "(5 + length s) mod 4 = Suc (length s) mod 4" by presburger
    then show ?thesis by (simp add: pad_len_def nat_add_distrib)
  qed
  have c: "u16_checked (int (length s) + 4 + 1) = Inr (int (length s) + 4 + 1)"
    "u16_checked (int (length s) + 4 + 1 + int (pad_len (length s + 1))) =
       Inr (int (length s) + 4 + 1 + int (pad_len (length s + 1)))"
    using assms pad_len_small [of "length s + 1"] by (auto simp: u16_checked_def name_typed_def)
  have k: "(word_of_int (int (length s) + 1) :: u32) = word_of_nat (length s + 1)"
    by simp
  show ?thesis
    unfolding write_name_def Let_def w c rbind_simps pad name_body_def k by (rule exI, rule refl)
qed

lemma reads_name:
  assumes "speedy_ok S" and "name_typed s"
  shows "reads (read_name S LittleEndian) (name_body S s) s"
proof -
  define k :: u32 where "k = word_of_nat (length s + 1)"
  have n: "unat k = Suc (length s)"
    using assms(2) unfolding k_def name_typed_def unat_of_nat by (simp add: take_bit_nat_eq_self)
  then have nz: "k \<noteq> 0" by auto
  have "read_name S LittleEndian (name_body S s @ rest) = Inr (Some (s, rest))" for rest
    unfolding name_body_def k_def [symmetric] using assms(1) nz
    by (simp add: read_name_def n) (simp add: rd_bind_def skip_bytes_def)
  then show ?thesis by (simp add: reads_def)
qed

lemma carries_type_name:
  assumes "speedy_ok S" and "name_typed s"
  shows "carries S (write_parameter S LittleEndian PID_TYPE_NAME n (name_body S s)) d (d\<lparr>sdp_type_name := Some s\<rparr>)"
  by (rule carries_parameter [OF assms(1)])
    (simp_all add: parameter_ids parameter_cases, rule reads_map, rule reads_name [OF assms])

lemma carries_topic_name:
  assumes "speedy_ok S" and "name_typed s"
  shows "carries S (write_parameter S LittleEndian PID_TOPIC_NAME n (name_body S s)) d (d\<lparr>sdp_topic_name := Some s\<rparr>)"
  by (rule carries_parameter [OF assms(1)])
    (simp_all add: parameter_ids parameter_cases, rule reads_map, rule reads_name [OF assms])

lemmas name_steps = carries_type_name [unfolded carries_def, rule_format]
  carries_topic_name [unfolded carries_def, rule_format]

lemma write_names_body:
  assumes "name_typed ty" and "name_typed tn"
  shows "\<exists>n m. write_names S LittleEndian (Some ty) (Some tn) =
    Inr (write_parameter S LittleEndian PID_TYPE_NAME n (name_body S ty) @
         write_parameter S LittleEndian PID_TOPIC_NAME m (name_body S tn))"
proof -
  obtain n m where "write_name S LittleEndian PID_TYPE_NAME ty =
      Inr (write_parameter S LittleEndian PID_TYPE_NAME n (name_body S ty))"
    "write_name S LittleEndian PID_TOPIC_NAME tn =
      Inr (write_parameter S LittleEndian PID_TOPIC_NAME m (name_body S tn))"
    using write_name_body [OF assms(1)] write_name_body [OF assms(2)] by blast
  then have "write_names S LittleEndian (Some ty) (Some tn) =
    Inr (write_parameter S LittleEndian PID_TYPE_NAME n (name_body S ty) @
         write_parameter S LittleEndian PID_TOPIC_NAME m (name_body S tn))"
    by (simp add: write_names_def write_opt_name_def)
  then show ?thesis by blast
qed

lemma user_data_size:
  assumes "length (user_value v) < 2 ^ 16 - 8"
  shows "\<exists>n. user_data_serialized_size v = Inr n"
proof -
  have "wrap_u 16 (int (length (user_value v))) = int (length (user_value v))"
    using assms by (intro wrap_u_id) auto
  then show ?thesis
    using assms pad_len_small [of "length (user_value v)"]
    by (auto simp: user_data_serialized_size_def u16_checked_def Let_def)
qed

section \<open>Writers\<close>

text \<open>The QoS of a proxy with every field in its Rust type, its user data short enough for a parameter.\<close>

definition writer_qos_typed :: "DataWriterQosPolicies \<Rightarrow> bool" where
  "writer_qos_typed q \<longleftrightarrow> service_typed (fst (dw_durability_service q)) \<and> dur_wf (deadline_period (fst (dw_deadline q))) \<and>
     dur_wf (latency_duration (fst (dw_latency_budget q))) \<and> dur_wf (lease_duration (fst (dw_liveliness q))) \<and>
     dur_wf (max_bloking_time (fst (dw_reliability q))) \<and> in_i32 (history_depth (fst (dw_history q))) \<and>
     limits_typed (fst (dw_resource_limits q)) \<and> in_i32 (priority_value (fst (dw_transport_priority q))) \<and>
     dur_wf (lifespan_duration (fst (dw_lifespan q))) \<and> length (user_value (fst (dw_user_data q))) < 2 ^ 16 - 8 \<and>
     in_i32 (strength_value (fst (dw_ownership_strength q)))"

definition writer_proxy_typed :: "WriterProxy \<Rightarrow> bool" where
  "writer_proxy_typed p \<longleftrightarrow> prefix_wf (guid_prefix (remote_writer_guid p)) \<and>
     list_all locator_typed (wp_unicast_locator_list p) \<and> list_all locator_typed (wp_multicast_locator_list p) \<and>
     in_i32 (data_max_size_serialized p) \<and> writer_qos_typed (wp_qos p)"

text \<open>What the reader of the announcement collects.\<close>

definition writer_received :: "WriterProxy \<Rightarrow> string \<Rightarrow> string \<Rightarrow> SDPBuiltinData" where
  "writer_received p ty tn = (let q = wp_qos p; l = fst (dw_liveliness q) in
     sdp_default\<lparr>sdp_domain_id := Some 0, sdp_remote_guid := Some (remote_writer_guid p),
       sdp_unicast_locator_list := wp_unicast_locator_list p,
       sdp_multicast_locator_list := wp_multicast_locator_list p,
       sdp_data_max_size_serialized := Some (data_max_size_serialized p),
       sdp_durability := Some (fst (dw_durability q)),
       sdp_durability_service := Some (fst (dw_durability_service q)),
       sdp_deadline := Some (fst (dw_deadline q)), sdp_latency_budget := Some (fst (dw_latency_budget q)),
       sdp_liveliness := Some (l\<lparr>liveliness_kind := arriving_kind (liveliness_kind l)\<rparr>),
       sdp_reliability := Some (fst (dw_reliability q)),
       sdp_destination_order := Some (fst (dw_destination_order q)), sdp_history := Some (fst (dw_history q)),
       sdp_resource_limits := Some (fst (dw_resource_limits q)),
       sdp_transport_priority := Some (fst (dw_transport_priority q)),
       sdp_lifespan := Some (fst (dw_lifespan q)), sdp_user_data := Some (fst (dw_user_data q)),
       sdp_ownership := Some (fst (dw_ownership q)),
       sdp_ownership_strength := Some (fst (dw_ownership_strength q)),
       sdp_type_name := Some ty, sdp_topic_name := Some tn\<rparr>)"

lemma writer_read_write:
  assumes "speedy_ok S" and "writer_proxy_typed p" and "name_typed ty" and "name_typed tn"
    and "pb_type_name t = Some ty" and "pb_topic_name t = Some tn"
  shows "\<exists>bytes. write_discovered_writer S LittleEndian p t = Inr bytes \<and>
    SDPBuiltinData_read S LittleEndian bytes = Inr (Some (writer_received p ty tn))"
proof -
  obtain u where u: "user_data_serialized_size (fst (dw_user_data (wp_qos p))) = Inr u"
    using user_data_size assms(2) by (fastforce simp: writer_proxy_typed_def writer_qos_typed_def)
  obtain n m where nm: "write_names S LittleEndian (Some ty) (Some tn) =
      Inr (write_parameter S LittleEndian PID_TYPE_NAME n (name_body S ty) @
         write_parameter S LittleEndian PID_TOPIC_NAME m (name_body S tn))"
    using write_names_body [OF assms(3,4)] by blast
  from assms(2) have "length (user_value (fst (dw_user_data (wp_qos p)))) < 2 ^ 32"
    by (simp add: writer_proxy_typed_def writer_qos_typed_def)
  then show ?thesis
    using assms(1-4)
    by (simp add: write_discovered_writer_def write_writer_proxy_def write_publication_data_def assms(5,6) u nm Let_def
        SDPBuiltinData_read_def read_from_buffer_def writer_proxy_typed_def writer_qos_typed_def
        sdp_steps name_steps read_sentinel writer_received_def sdp_default_def)
qed

section \<open>Readers\<close>

definition reader_qos_typed :: "DataReaderQosPolicies \<Rightarrow> bool" where
  "reader_qos_typed q \<longleftrightarrow> dur_wf (deadline_period (fst (dr_deadline q))) \<and>
     dur_wf (latency_duration (fst (dr_latency_budget q))) \<and> dur_wf (lease_duration (fst (dr_liveliness q))) \<and>
     dur_wf (max_bloking_time (fst (dr_reliability q))) \<and> in_i32 (history_depth (fst (dr_history q))) \<and>
     limits_typed (fst (dr_resource_limits q)) \<and> length (user_value (fst (dr_user_data q))) < 2 ^ 16 - 8 \<and>
     dur_wf (minimun_separation (fst (dr_time_based_filter q)))"

definition reader_proxy_typed :: "ReaderProxy \<Rightarrow> bool" where
  "reader_proxy_typed p \<longleftrightarrow> prefix_wf (guid_prefix (remote_reader_guid p)) \<and>
     list_all locator_typed (rp_unicast_locator_list p) \<and> list_all locator_typed (rp_multicast_locator_list p) \<and>
     reader_qos_typed (rp_qos p)"

definition reader_received :: "ReaderProxy \<Rightarrow> string \<Rightarrow> string \<Rightarrow> SDPBuiltinData" where
  "reader_received p ty tn = (let q = rp_qos p; l = fst (dr_liveliness q) in
     sdp_default\<lparr>sdp_domain_id := Some 0, sdp_remote_guid := Some (remote_reader_guid p),
       sdp_expects_inline_qos := Some (expects_inline_qos p),
       sdp_unicast_locator_list := rp_unicast_locator_list p,
       sdp_multicast_locator_list := rp_multicast_locator_list p,
       sdp_durability := Some (fst (dr_durability q)),
       sdp_deadline := Some (fst (dr_deadline q)), sdp_latency_budget := Some (fst (dr_latency_budget q)),
       sdp_liveliness := Some (l\<lparr>liveliness_kind := arriving_kind (liveliness_kind l)\<rparr>),
       sdp_reliability := Some (fst (dr_reliability q)),
       sdp_destination_order := Some (fst (dr_destination_order q)), sdp_history := Some (fst (dr_history q)),
       sdp_resource_limits := Some (fst (dr_resource_limits q)), sdp_user_data := Some (fst (dr_user_data q)),
       sdp_ownership := Some (fst (dr_ownership q)),
       sdp_time_based_filter := Some (fst (dr_time_based_filter q)),
       sdp_type_name := Some ty, sdp_topic_name := Some tn\<rparr>)"

lemma reader_read_write:
  assumes "speedy_ok S" and "reader_proxy_typed p" and "name_typed ty" and "name_typed tn"
    and "sb_type_name t = Some ty" and "sb_topic_name t = Some tn"
  shows "\<exists>bytes. write_discovered_reader S LittleEndian p t = Inr bytes \<and>
    SDPBuiltinData_read S LittleEndian bytes = Inr (Some (reader_received p ty tn))"
proof -
  obtain u where u: "user_data_serialized_size (fst (dr_user_data (rp_qos p))) = Inr u"
    using user_data_size assms(2) by (fastforce simp: reader_proxy_typed_def reader_qos_typed_def)
  obtain n m where nm: "write_names S LittleEndian (Some ty) (Some tn) =
      Inr (write_parameter S LittleEndian PID_TYPE_NAME n (name_body S ty) @
         write_parameter S LittleEndian PID_TOPIC_NAME m (name_body S tn))"
    using write_names_body [OF assms(3,4)] by blast
  from assms(2) have "length (user_value (fst (dr_user_data (rp_qos p)))) < 2 ^ 32"
    by (simp add: reader_proxy_typed_def reader_qos_typed_def)
  then show ?thesis
    using assms(1-4)
    by (simp add: write_discovered_reader_def write_reader_proxy_def write_subscription_data_def assms(5,6) u nm Let_def
        SDPBuiltinData_read_def read_from_buffer_def reader_proxy_typed_def reader_qos_typed_def
        sdp_steps name_steps read_sentinel reader_received_def sdp_default_def)
qed

section \<open>Topics\<close>

text \<open>\<^verbatim>\<open>pub_builtin_topic_data\<close> and \<^verbatim>\<open>sub_builtin_topic_data\<close> of a topic.\<close>

definition pub_builtin_topic_data :: "Topic \<Rightarrow> PublicationBuiltinTopicData" where
  "pub_builtin_topic_data t = (let q = topic_qos t in
     \<lparr>pb_topic_name = Some (topic_name t), pb_type_name = Some (type_desc t),
      pb_durability = Some (fst (tq_durability q)), pb_durability_service = None,
      pb_deadline = Some (fst (tq_deadline q)), pb_latency_budget = Some (fst (tq_latency_budget q)),
      pb_liveliness = Some (fst (tq_liveliness q)), pb_reliability = Some (fst (tq_reliability q)),
      pb_lifespan = Some (fst (tq_lifespan q)), pb_user_data = None, pb_time_based_filter = None,
      pb_ownership = Some (fst (tq_ownership q)), pb_ownership_strength = None,
      pb_destination_order = Some (fst (tq_destination_order q)), pb_presentation = None,
      pb_partition = None, pb_topic_data = None, pb_group_data = None\<rparr>)"

definition sub_builtin_topic_data :: "Topic \<Rightarrow> SubscriptionBuiltinTopicData" where
  "sub_builtin_topic_data t = (let q = topic_qos t in
     \<lparr>sb_topic_name = Some (topic_name t), sb_type_name = Some (type_desc t),
      sb_durability = Some (fst (tq_durability q)), sb_deadline = None,
      sb_latency_budget = Some (fst (tq_latency_budget q)), sb_liveliness = None,
      sb_reliability = Some (fst (tq_reliability q)), sb_ownership = Some (fst (tq_ownership q)),
      sb_destination_order = Some (fst (tq_destination_order q)), sb_user_data = None,
      sb_time_based_filter = None, sb_presentation = None, sb_partition = None, sb_topic_data = None,
      sb_group_data = None, sb_durability_service = None, sb_lifespan = Some (fst (tq_lifespan q))\<rparr>)"

section \<open>Properties\<close>

text \<open>
  C23. A participant is known to others as it announced itself: reading its announcement gives its
  data back, with every field and every locator, except for the domain tag, which is not sent and
  is taken as empty.
\<close>

theorem participant_announced:
  assumes "speedy_ok S" and "spdp_typed d"
  shows "\<exists>sd. SDPBuiltinData_read S LittleEndian (write_spdp S LittleEndian d) = Inr (Some sd) \<and>
    gen_spdp_discoverd_participant_data sd = Some (d\<lparr>domain_tag := []\<rparr>)"
  using spdp_read_write [OF assms]
  by (simp add: gen_spdp_discoverd_participant_data_def spdp_received_def sdp_default_def or_default_def)

lemma writer_received_qos:
  fixes p ty tn
  defines "q \<equiv> sdp_writer_qos (writer_received p ty tn)"
  shows "fst (dw_durability q) = fst (dw_durability (wp_qos p))" "fst (dw_deadline q) = fst (dw_deadline (wp_qos p))"
    "fst (dw_latency_budget q) = fst (dw_latency_budget (wp_qos p))" "fst (dw_ownership q) = fst (dw_ownership (wp_qos p))"
    "fst (dw_reliability q) = fst (dw_reliability (wp_qos p))" "fst (dw_history q) = fst (dw_history (wp_qos p))"
    "fst (dw_destination_order q) = fst (dw_destination_order (wp_qos p))" "fst (dw_lifespan q) = fst (dw_lifespan (wp_qos p))"
    "fst (dw_liveliness q) = (fst (dw_liveliness (wp_qos p)))
       \<lparr>liveliness_kind := arriving_kind (liveliness_kind (fst (dw_liveliness (wp_qos p))))\<rparr>"
  unfolding q_def
  by (simp_all add: sdp_writer_qos_def datawriter_build_def decide_value_def writer_received_def Let_def or_default_def
      DataWriterQosBuilder_new_def)

lemma writer_received_proxy:
  "topic_info (writer_received p ty tn) = Some (tn, ty)"
  "wp_unicast_locator_list p \<noteq> [] \<or> duni \<noteq> [] \<longrightarrow> gen_writerproxy duni dmulti (writer_received p ty tn) =
     Inr (Some \<lparr>remote_writer_guid = remote_writer_guid p, wp_unicast_locator_list = wp_unicast_locator_list p,
       wp_multicast_locator_list = wp_multicast_locator_list p, wp_default_unicast_locator_list = duni,
       wp_default_multicast_locator_list = dmulti, data_max_size_serialized = data_max_size_serialized p,
       wp_qos = sdp_writer_qos (writer_received p ty tn), wp_cache_state = []\<rparr>)"
  by (simp add: topic_info_def writer_received_def Let_def)
    (auto simp: gen_writerproxy_def WriterProxy_new_def writer_received_def Let_def or_default_def sdp_default_def)

lemma writer_received_compatible:
  "liveliness_kind (fst (dw_liveliness (wp_qos p))) = Automatic \<longrightarrow>
     (\<forall>rq. dr_is_compatible rq (sdp_writer_qos (writer_received p ty tn)) = dr_is_compatible rq (wp_qos p))"
  by (simp add: dr_is_compatible_def writer_received_qos liveliness_is_compatible_def)

text \<open>
  C24. A writer is matched as it was announced. Reading the announcement of a writer with its topic gives
  the topic and type name back and, when there is a locator to reach it, a proxy with its GUID, its locators
  and its size limit; every policy that the matching tests is the announced one, so that a reader
  finds it compatible exactly when it would find the writer's own QoS compatible. The exception is
  the kind of liveliness: only the automatic kind arrives as it was sent, the two manual kinds
  are exchanged.
\<close>

theorem writer_announced:
  assumes "speedy_ok S" and "writer_proxy_typed p" and "name_typed (type_desc t)" and "name_typed (topic_name t)"
  shows "\<exists>bytes sd q. write_discovered_writer S LittleEndian p (pub_builtin_topic_data t) = Inr bytes \<and>
    SDPBuiltinData_read S LittleEndian bytes = Inr (Some sd) \<and> topic_info sd = Some (topic_name t, type_desc t) \<and>
    (wp_unicast_locator_list p \<noteq> [] \<or> duni \<noteq> [] \<longrightarrow> gen_writerproxy duni dmulti sd =
      Inr (Some \<lparr>remote_writer_guid = remote_writer_guid p, wp_unicast_locator_list = wp_unicast_locator_list p,
        wp_multicast_locator_list = wp_multicast_locator_list p, wp_default_unicast_locator_list = duni,
        wp_default_multicast_locator_list = dmulti, data_max_size_serialized = data_max_size_serialized p,
        wp_qos = q, wp_cache_state = []\<rparr>)) \<and>
    fst (dw_history q) = fst (dw_history (wp_qos p)) \<and> fst (dw_lifespan q) = fst (dw_lifespan (wp_qos p)) \<and>
    liveliness_kind (fst (dw_liveliness q)) = arriving_kind (liveliness_kind (fst (dw_liveliness (wp_qos p)))) \<and>
    (liveliness_kind (fst (dw_liveliness (wp_qos p))) = Automatic \<longrightarrow>
      (\<forall>rq. dr_is_compatible rq q = dr_is_compatible rq (wp_qos p)))"
proof -
  let ?sd = "writer_received p (type_desc t) (topic_name t)"
  have "pb_type_name (pub_builtin_topic_data t) = Some (type_desc t)"
    "pb_topic_name (pub_builtin_topic_data t) = Some (topic_name t)"
    by (simp_all add: pub_builtin_topic_data_def Let_def)
  moreover have "liveliness_kind (fst (dw_liveliness (sdp_writer_qos ?sd))) =
      arriving_kind (liveliness_kind (fst (dw_liveliness (wp_qos p))))"
    by (simp add: writer_received_qos)
  ultimately show ?thesis
    using writer_read_write [OF assms] writer_received_qos(6,8) [of p "type_desc t" "topic_name t"]
      writer_received_proxy(1) [of p "type_desc t" "topic_name t"]
      writer_received_proxy(2) [of p duni dmulti "type_desc t" "topic_name t"]
      writer_received_compatible [of p "type_desc t" "topic_name t"] by blast
qed

text \<open>
  C25. A reader is matched as it was announced: the same for the announcement of a reader and the test
  that a writer applies to it.
\<close>

theorem reader_announced:
  assumes "speedy_ok S" and "reader_proxy_typed p" and "name_typed (type_desc t)" and "name_typed (topic_name t)"
  shows "\<exists>bytes sd. write_discovered_reader S LittleEndian p (sub_builtin_topic_data t) = Inr bytes \<and>
    SDPBuiltinData_read S LittleEndian bytes = Inr (Some sd) \<and> topic_info sd = Some (topic_name t, type_desc t) \<and>
    sdp_remote_guid sd = Some (remote_reader_guid p) \<and> sdp_expects_inline_qos sd = Some (expects_inline_qos p) \<and>
    sdp_unicast_locator_list sd = rp_unicast_locator_list p \<and>
    sdp_multicast_locator_list sd = rp_multicast_locator_list p \<and>
    fst (dr_history (sdp_reader_qos sd)) = fst (dr_history (rp_qos p)) \<and>
    liveliness_kind (fst (dr_liveliness (sdp_reader_qos sd))) =
      arriving_kind (liveliness_kind (fst (dr_liveliness (rp_qos p)))) \<and>
    (liveliness_kind (fst (dr_liveliness (rp_qos p))) = Automatic \<longrightarrow>
      (\<forall>wq. dw_is_compatible wq (sdp_reader_qos sd) = dw_is_compatible wq (rp_qos p)))"
proof -
  let ?sd = "reader_received p (type_desc t) (topic_name t)"
  let ?q = "sdp_reader_qos ?sd"
  have q: "fst (dr_durability ?q) = fst (dr_durability (rp_qos p))" "fst (dr_deadline ?q) = fst (dr_deadline (rp_qos p))"
    "fst (dr_latency_budget ?q) = fst (dr_latency_budget (rp_qos p))" "fst (dr_ownership ?q) = fst (dr_ownership (rp_qos p))"
    "fst (dr_reliability ?q) = fst (dr_reliability (rp_qos p))" "fst (dr_history ?q) = fst (dr_history (rp_qos p))"
    "fst (dr_destination_order ?q) = fst (dr_destination_order (rp_qos p))"
    "fst (dr_liveliness ?q) = (fst (dr_liveliness (rp_qos p)))
       \<lparr>liveliness_kind := arriving_kind (liveliness_kind (fst (dr_liveliness (rp_qos p))))\<rparr>"
    by (simp_all add: sdp_reader_qos_def datareader_build_def decide_value_def reader_received_def Let_def or_default_def
        DataReaderQosBuilder_new_def)
  have "liveliness_kind (fst (dr_liveliness (rp_qos p))) = Automatic \<longrightarrow>
      (\<forall>wq. dw_is_compatible wq ?q = dw_is_compatible wq (rp_qos p))"
    by (simp add: dw_is_compatible_def q liveliness_is_compatible_def)
  moreover have "liveliness_kind (fst (dr_liveliness ?q)) =
      arriving_kind (liveliness_kind (fst (dr_liveliness (rp_qos p))))"
    by (simp add: q)
  moreover have "topic_info ?sd = Some (topic_name t, type_desc t)" "sdp_remote_guid ?sd = Some (remote_reader_guid p)"
    "sdp_expects_inline_qos ?sd = Some (expects_inline_qos p)"
    "sdp_unicast_locator_list ?sd = rp_unicast_locator_list p"
    "sdp_multicast_locator_list ?sd = rp_multicast_locator_list p"
    by (simp_all add: topic_info_def reader_received_def Let_def)
  moreover have "sb_type_name (sub_builtin_topic_data t) = Some (type_desc t)"
    "sb_topic_name (sub_builtin_topic_data t) = Some (topic_name t)"
    by (simp_all add: sub_builtin_topic_data_def Let_def)
  ultimately show ?thesis using reader_read_write [OF assms] q(6) by blast
qed

text \<open>Witnesses: the participant, a writer and a reader of the examples with their default QoS.\<close>

definition ex_spdp :: SPDPdiscoveredParticipantData where
  "ex_spdp = \<lparr>spdp_domain_id = 0, domain_tag = ''test'', spdp_protocol_version = PROTOCOLVERSION, spdp_guid = ex_guid,
     spdp_vendor_id = vendor_THIS_IMPLEMENTATION, spdp_expects_inline_qos = False, available_builtin_endpoint = 0xc3f,
     metarraffic_unicast_locator_list = [new_from_ipv4 7410 [127, 0, 0, 1]], metarraffic_multicast_locator_list = [],
     spdp_default_multicast_locator_list = [], spdp_default_unicast_locator_list = [new_from_ipv4 7411 [127, 0, 0, 1]],
     manual_liveliness_count = Some 3, spdp_lease_duration = \<lparr>dur_seconds = 100, dur_fraction = 0\<rparr>\<rparr>"

lemma ex_locator_typed: "0 \<le> port \<Longrightarrow> port < 2 ^ 32 \<Longrightarrow> locator_typed (new_from_ipv4 port [127, 0, 0, 1])"
  by (simp add: locator_typed_def new_from_ipv4_def in_i32_def in_u32_def KIND_UDPV4_def Locator_new_def)

theorem participant_announced_witness:
  "\<exists>sd. SDPBuiltinData_read ref_speedy LittleEndian (write_spdp ref_speedy LittleEndian ex_spdp) = Inr (Some sd) \<and>
     gen_spdp_discoverd_participant_data sd = Some (ex_spdp\<lparr>domain_tag := []\<rparr>)"
  by (rule participant_announced [OF ref_speedy_ok])
    (simp add: spdp_typed_def ex_spdp_def vendor_THIS_IMPLEMENTATION_def prefix_wf_def ex_guid_def ex_locator_typed
      in_i32_def dur_wf_def)

definition ex_announced_writer :: WriterProxy where
  "ex_announced_writer = \<lparr>remote_writer_guid = ex_guid, wp_unicast_locator_list = [new_from_ipv4 7411 [127, 0, 0, 1]],
     wp_multicast_locator_list = [], wp_default_unicast_locator_list = [], wp_default_multicast_locator_list = [],
     data_max_size_serialized = 0, wp_qos = ex_writer_qos, wp_cache_state = []\<rparr>"

definition ex_announced_topic :: Topic where
  "ex_announced_topic = \<lparr>topic_name = ''Square'', type_desc = ''ShapeType'',
     topic_qos = topic_build TopicQosBuilder_new, topic_kind = WithKey\<rparr>"

lemmas qos_values = datawriter_build_def datareader_build_def DataWriterQosBuilder_new_def DataReaderQosBuilder_new_def
  decide_value_def default_durability_service_def default_deadline_def default_latency_budget_def
  default_liveliness_def default_reliable_def default_besteffort_def default_history_def default_resource_limits_def
  default_transport_priority_def default_lifespan_def default_user_data_def default_ownership_strength_def
  default_time_based_filter_def DURATION_ZERO_def DURATION_INFINITE_def LENGTH_UNLIMITED_def

lemma default_blocking_typed: "dur_wf (from_millis 100)"
  using fraction_in_u32 [of 100 1000] by (simp add: dur_wf_def from_millis_def tdiv_def wrap_s_def)

theorem writer_announced_witness:
  "\<exists>bytes sd. write_discovered_writer ref_speedy LittleEndian ex_announced_writer
       (pub_builtin_topic_data ex_announced_topic) = Inr bytes \<and>
     SDPBuiltinData_read ref_speedy LittleEndian bytes = Inr (Some sd) \<and>
     topic_info sd = Some (''Square'', ''ShapeType'')"
proof -
  have "writer_proxy_typed ex_announced_writer"
    using default_blocking_typed
    by (simp add: writer_proxy_typed_def writer_qos_typed_def ex_announced_writer_def ex_writer_qos_def qos_values
        prefix_wf_def ex_guid_def ex_locator_typed in_i32_def service_typed_def limits_typed_def dur_wf_def [of "Duration.make _ _"]
        dur_wf_def [of "\<lparr>dur_seconds = _, dur_fraction = _\<rparr>"])
  moreover have "name_typed (type_desc ex_announced_topic)" "name_typed (topic_name ex_announced_topic)"
    "topic_name ex_announced_topic = ''Square''" "type_desc ex_announced_topic = ''ShapeType''"
    by (simp_all add: name_typed_def ex_announced_topic_def)
  ultimately show ?thesis using writer_announced [OF ref_speedy_ok] by metis
qed

definition ex_announced_reader :: ReaderProxy where
  "ex_announced_reader = (ex_reader_proxy [])\<lparr>rp_unicast_locator_list := [new_from_ipv4 7411 [127, 0, 0, 1]]\<rparr>"

theorem reader_announced_witness:
  "\<exists>bytes sd. write_discovered_reader ref_speedy LittleEndian ex_announced_reader
       (sub_builtin_topic_data ex_announced_topic) = Inr bytes \<and>
     SDPBuiltinData_read ref_speedy LittleEndian bytes = Inr (Some sd) \<and>
     topic_info sd = Some (''Square'', ''ShapeType'')"
proof -
  have "reader_proxy_typed ex_announced_reader"
    using default_blocking_typed
    by (simp add: reader_proxy_typed_def reader_qos_typed_def ex_announced_reader_def ex_reader_proxy_def
        ex_reader_qos_def qos_values prefix_wf_def ex_reader_guid_def ex_locator_typed in_i32_def limits_typed_def
        dur_wf_def [of "\<lparr>dur_seconds = _, dur_fraction = _\<rparr>"])
  moreover have "name_typed (type_desc ex_announced_topic)" "name_typed (topic_name ex_announced_topic)"
    "topic_name ex_announced_topic = ''Square''" "type_desc ex_announced_topic = ''ShapeType''"
    by (simp_all add: name_typed_def ex_announced_topic_def)
  ultimately show ?thesis using reader_announced [OF ref_speedy_ok] by metis
qed

section \<open>Announcements that end the process\<close>

lemma rd_panic [simp]: "rd_bind (\<lambda>_. Inl p) f bs = Inl p"
  by (simp add: rd_bind_def)

lemma read_parameter_panics:
  assumes "speedy_ok S" and "pid \<noteq> 0" and "pid \<noteq> PID_SENTINEL"
    and "\<And>d. read_sdp_parameter S e pid len d body = Inl p"
  shows "SDPBuiltinData_read S e (write_parameter S e pid len body) = Inl p"
  using assms by (simp add: SDPBuiltinData_read_def read_from_buffer_def write_parameter_def
      read_sdp_parameters.simps [of S e] read_u16_put)

text \<open>
  C22. Discovery data of any participant can end the process. A topic name of length zero, an inline-QoS flag
  that is neither zero nor one, a UDP locator whose first twelve bytes are not zero and a partition with a
  negative count each make the reader of the announcement panic instead of returning an error,
  whatever follows them.
\<close>

theorem announcement_panics:
  assumes "speedy_ok S"
  shows "SDPBuiltinData_read S e (write_parameter S e PID_TOPIC_NAME n (put32 S e 0 @ rest)) = Inl ArithOverflow \<and>
    (flag \<noteq> 0 \<longrightarrow> flag \<noteq> 1 \<longrightarrow>
      SDPBuiltinData_read S e (write_parameter S e PID_EXPECTS_INLINE_QOS n (flag # rest)) = Inl AssertFailed) \<and>
    (length address = 16 \<longrightarrow> take 12 address \<noteq> replicate 12 0 \<longrightarrow>
      SDPBuiltinData_read S e (write_parameter S e PID_UNICAST_LOCATOR n
        (put_i32 S e KIND_UDPV4 @ put32 S e port @ address @ rest)) = Inl AssertFailed) \<and>
    (in_i32 c \<longrightarrow> c < 0 \<longrightarrow>
      SDPBuiltinData_read S e (write_parameter S e PID_PARTITION n (put_i32 S e c @ rest)) = Inl ExplicitPanic)"
proof (intro conjI impI)
  show "SDPBuiltinData_read S e (write_parameter S e PID_TOPIC_NAME n (put32 S e 0 @ rest)) = Inl ArithOverflow"
    using assms by (intro read_parameter_panics) (simp_all add: parameter_ids parameter_cases read_name_def)
  assume "flag \<noteq> 0" "flag \<noteq> 1"
  then show "SDPBuiltinData_read S e (write_parameter S e PID_EXPECTS_INLINE_QOS n (flag # rest)) = Inl AssertFailed"
    using assms by (intro read_parameter_panics) (simp_all add: parameter_ids parameter_cases)
next
  assume "length address = 16" "take 12 address \<noteq> replicate 12 0"
  then show "SDPBuiltinData_read S e (write_parameter S e PID_UNICAST_LOCATOR n
        (put_i32 S e KIND_UDPV4 @ put32 S e port @ address @ rest)) = Inl AssertFailed"
    using assms by (intro read_parameter_panics)
      (simp_all add: parameter_ids parameter_cases read_locator_def KIND_UDPV4_def Locator_new_def)
next
  assume "in_i32 c" "c < 0"
  moreover have "read_sdp_parameter S e PID_PARTITION len d =
      rd_bind (read_partition S e) (\<lambda>v. rd_ok (d\<lparr>sdp_partition := Some v\<rparr>))" for len d
    unfolding read_sdp_parameter_def pid_defs by simp
  ultimately show "SDPBuiltinData_read S e (write_parameter S e PID_PARTITION n (put_i32 S e c @ rest)) = Inl ExplicitPanic"
    using assms by (intro read_parameter_panics) (simp_all add: parameter_ids read_partition_def)
qed

theorem announcement_panics_witness:
  "SDPBuiltinData_read ref_speedy BigEndian
     (write_parameter ref_speedy BigEndian PID_EXPECTS_INLINE_QOS 4 [2, 0, 0, 0]) = Inl AssertFailed \<and>
   SDPBuiltinData_read ref_speedy BigEndian
     (write_parameter ref_speedy BigEndian PID_PARTITION 4 (put_i32 ref_speedy BigEndian (- 1))) = Inl ExplicitPanic"
  using announcement_panics [OF ref_speedy_ok, of BigEndian 4 "[0, 0, 0]" 2 "[]" 0 "- 1"]
    announcement_panics [OF ref_speedy_ok, of BigEndian 4 "[]" 2 "[]" 0 "- 1"]
  by (simp add: in_i32_def)

end
