(* ===== verification/Umber_Packets.thy ===== *)
theory Umber_Packets
  imports Umber_Participant Umber_Announce
begin

text \<open>
  Messages between two participants, as bytes: the message that a writer builds is serialised
  (\<^verbatim>\<open>Umber_Wire\<close>), received by another participant as a packet and processed by its message
  receiver (\<^verbatim>\<open>Umber_Receiver\<close>), whose parsers are now those of the wire format (\<open>wire_of\<close>).
\<close>

definition wire_of :: "Speedy \<Rightarrow> Wire" where
  "wire_of S = \<lparr>read_message = Message_new S, read_sdp = SDPBuiltinData_read S,
     read_participant_message = (\<lambda>e. read_from_buffer (read_participant_message_data S e))\<rparr>"

section \<open>One packet\<close>

lemma handle_one_packet:
  assumes "\<not> packet_ignored bytes" and "read_message wr bytes = Inr (Some msg)"
    and "handle_parsed_packet wr now msg s = Inr (s', rt)"
  shows "handle_packet wr now [bytes] s = Inr (s', some_list (or_default rt []))"
  using assms by (simp add: handle_packet_def)

lemma written_not_ignored:
  assumes "write_message S e (mb_build prefix b) = Inr (Some bytes)" and "prefix_wf prefix"
  shows "\<not> packet_ignored bytes"
  using assms by (auto simp: write_message_def mb_build_def write_header_def Header_new_def RTPS_magic_def
      packet_ignored_def prefix_wf_def vendor_THIS_IMPLEMENTATION_def elim!: obind_Inr_E)

lemma data_msg_built:
  assumes "\<forall>t. now = Some t \<longrightarrow> ts_wf t" and "in_i64 (sequence_number cc)" and "payload_typed (data_value cc)"
  shows "built (mb_data LittleEndian wid reid cc (mb_info_ts LittleEndian now []))"
  using assms by (intro built_data built_info_ts built_new)

text \<open>The state in which the receiver meets the DATA submessage of such a message.\<close>

definition at_data :: "Timestamp option \<Rightarrow> GuidPrefix \<Rightarrow> RecvState \<Rightarrow> RecvState" where
  "at_data sent prefix s =
     (let m = (reset (mr s))\<lparr>dest_guid_prefix := own_guid_prefix (mr s), source_guid_prefix := prefix\<rparr>
      in s\<lparr>mr := (case sent of Some t \<Rightarrow> m\<lparr>have_timestamp := True, mr_timestamp := t\<rparr>
                  | None \<Rightarrow> m\<lparr>have_timestamp := False\<rparr>)\<rparr>)"

lemma at_data_simps [simp]:
  "ws (at_data sent p s) = ws s" "rs (at_data sent p s) = rs s"
  "source_guid_prefix (mr (at_data sent p s)) = p"
  "own_guid_prefix (mr (at_data sent p s)) = own_guid_prefix (mr s)"
  "disc_db (mr (at_data sent p s)) = disc_db (mr s)"
  by (simp_all add: at_data_def reset_def Let_def split: option.split)

definition wire_data :: "EntityId \<Rightarrow> EntityId \<Rightarrow> CacheChange \<Rightarrow> Data" where
  "wire_data wid reid cc = \<lparr>data_reader_id = reid, data_writer_id = wid, writer_sn = sequence_number cc,
     inline_qos = None, serialized_payload = data_value cc\<rparr>"

lemma data_msg_handled:
  assumes "handle_data_submsg wr now (wire_data (entity_id self) reid cc)
      (if data_value cc = None then 1 else 5) (at_data sent (guid_prefix self) s) = Inr (s', Inr rt)"
  shows "handle_parsed_packet wr now (mb_build (guid_prefix self)
      (map received (mb_data LittleEndian (entity_id self) reid cc (mb_info_ts LittleEndian sent [])))) s =
    Inr (s', some_list (or_default rt []))"
proof -
  have data: "mb_data LittleEndian (entity_id self) reid cc b = b @ [sub_message DATA
      (if data_value cc = None then 1 else 5)
      (wrap_u 16 (20 + (case data_value cc of None \<Rightarrow> 0 | Some p \<Rightarrow> 4 + int (length (payload_value p)))))
      (Entity (ES_Data (wire_data (entity_id self) reid cc) (if data_value cc = None then 1 else 5)))]" for b
    by (cases "data_value cc") (simp_all add: mb_data_def wire_data_def from_enndianness_def flag_defs)
  show ?thesis
    using assms
    by (cases sent) (simp_all add: data mb_info_ts_def sub_message_def received_def mb_build_def
        handle_parsed_packet_def Header_new_def at_data_def Let_def from_enndianness_def flag_defs
        flag_contains_def)
qed

section \<open>A sample from a writer to the readers of another participant\<close>

definition arrived :: "Timestamp \<Rightarrow> GUID \<Rightarrow> CacheChange \<Rightarrow> CacheChange" where
  "arrived ts self cc = \<lparr>change_kind = Alive, writer_guid = self, sequence_number = sequence_number cc,
     timestamp = ts, data_value = data_value cc, instance_handle = InstantHandle\<rparr>"

lemma received_wire_data:
  "received_change ts (wire_data (entity_id self) reid cc) (at_data sent (guid_prefix self) s) = arrived ts self cc"
  by (simp add: received_change_def wire_data_def arrived_def)

text \<open>
  C9. A sample crosses the network unchanged. A writer of user data sends a change that has no data, or a
  payload of 1 to 65511 bytes; the message, serialised, is received as a packet by another participant and processed there at a time
  \<open>ts\<close>, where every reader that knows the writer can take the change (\<open>can_add\<close>: no cached change of the same key has
  other data, and it is not an empty best-effort cache that counts as full). Every addressed reader that knows the
  writer then receives a change with the writer's GUID, the sequence number and exactly the data of
  the change that was sent; the processing does not panic, the reader keeps its invariant, and every other reader and
  every writer of that participant is as before.
\<close>

theorem sample_crosses_network:
  assumes lib: "speedy_ok S"
    and sent: "\<forall>t. now = Some t \<longrightarrow> ts_wf t" "payload_typed (data_value cc)" "prefix_wf (guid_prefix self)"
    and sn: "0 \<le> sequence_number cc" "sequence_number cc < i64_max"
    and user: "user_data (wire_data (entity_id self) reid cc)"
    and foreign: "guid_prefix self \<noteq> own_guid_prefix (mr s)"
    and wf: "bm_wf (rs s)" and inv: "\<forall>eid r. bm_get (rs s) eid = Some r \<longrightarrow> reader_inv r"
    and room: "\<forall>eid r. bm_get (rs s) eid = Some r \<longrightarrow> is_contain_writer self r \<longrightarrow> can_add (arrived ts self cc) r"
  shows "\<exists>bytes s' rtv. write_message S LittleEndian (data_msg now self reid cc) = Inr (Some bytes) \<and>
    handle_packet (wire_of S) (Some ts) [bytes] s = Inr (s', rtv) \<and> ws s' = ws s \<and>
    (\<forall>eid r. bm_get (rs s) eid = Some r \<longrightarrow>
      (if (reid = eid_UNKNOW \<or> reid = eid) \<and> is_contain_writer self r
       then \<exists>r' rt. reader_add_change (guid_prefix self) (arrived ts self cc) r = Inr (r', rt) \<and>
              bm_get (rs s') eid = Some r' \<and> reader_inv r'
       else bm_get (rs s') eid = Some r))"
proof -
  let ?wr = "wire_of S"
  let ?b = "mb_data LittleEndian (entity_id self) reid cc (mb_info_ts LittleEndian now [])"
  let ?d = "wire_data (entity_id self) reid cc" and ?s = "at_data now (guid_prefix self) s"
  let ?f = "if data_value cc = None then 1 else 5 :: u8"
  have "in_i64 (sequence_number cc)" using sn by (simp add: in_i64_def i64_max_def)
  with sent have built: "built ?b" by (intro data_msg_built)
  from built_message_roundtrip [OF lib built sent(3)] obtain bytes where
    bytes: "write_message S LittleEndian (mb_build (guid_prefix self) ?b) = Inr (Some bytes)"
    "read_message ?wr bytes = Inr (Some (mb_build (guid_prefix self) (map received ?b)))"
    by (auto simp: wire_of_def)
  have own: "\<not> own_message ?s" using foreign by (simp add: own_message_def)
  have plain: "\<not> flag_contains ?f DataFlag_InlineQos"
    by (simp add: flag_contains_def DataFlag_InlineQos_def)
  have d: "0 \<le> writer_sn ?d" "writer_sn ?d < i64_max" "data_reader_id ?d = reid"
    using sn by (simp_all add: wire_data_def)
  have g: "self = GUID (source_guid_prefix (mr ?s)) (data_writer_id ?d)" by (simp add: wire_data_def)
  from user_data_handled [OF _ _ user own plain d(1,2) g, of ts ?wr] wf inv room obtain s' rt where
    run: "handle_data_submsg ?wr (Some ts) ?d ?f ?s = Inr (s', Inr rt)" and
    del: "delivered self (arrived ts self cc) ts {eid. reid = eid_UNKNOW \<or> eid = reid} ?s s'"
    unfolding received_wire_data d(3) at_data_simps by blast
  from handle_one_packet [OF written_not_ignored [OF bytes(1) sent(3)] bytes(2) data_msg_handled [OF run]]
  have "\<exists>rtv. handle_packet ?wr (Some ts) [bytes] s = Inr (s', rtv)" by blast
  moreover have E: "(reid = eid_UNKNOW \<or> reid = eid) \<longleftrightarrow> eid \<in> {eid. reid = eid_UNKNOW \<or> eid = reid}" for eid
    by auto
  ultimately show ?thesis
    using bytes(1) del unfolding data_msg_def delivered_def at_data_simps E by blast
qed

theorem sample_crosses_network_witness:
  "\<exists>bytes s' rtv r' rt.
     write_message ref_speedy LittleEndian (data_msg (Some ex_now) ex_guid eid_UNKNOW (ex_change 1)) =
       Inr (Some bytes) \<and>
     handle_packet (wire_of ref_speedy) (Some ex_now) [bytes] ex_node = Inr (s', rtv) \<and>
     reader_add_change (guid_prefix ex_guid) (arrived ex_now ex_guid (ex_change 1))
       (ex_reader [] Initial (HistoryCache_new HCReader)) = Inr (r', rt) \<and>
     bm_get (rs s') (entity_id ex_reader_guid) = Some r'"
proof -
  let ?r = "ex_reader [] Initial (HistoryCache_new HCReader)"
  have now: "\<forall>t. Some ex_now = Some t \<longrightarrow> ts_wf t" by (simp add: ts_wf_def ex_now_def)
  have p: "payload_typed (data_value (ex_change 1))" "prefix_wf (guid_prefix ex_guid)"
    "0 \<le> sequence_number (ex_change 1)" "sequence_number (ex_change 1) < i64_max"
    by (simp_all add: payload_typed_def ex_change_def ex_payload_def prefix_wf_def ex_guid_def i64_max_def)
  have u: "user_data (wire_data (entity_id ex_guid) eid_UNKNOW (ex_change 1))"
    by (simp add: user_data_def wire_data_def ex_guid_def entity_id_defs entity_kind_defs)
  have f: "guid_prefix ex_guid \<noteq> own_guid_prefix (mr ex_node)"
    by (simp add: ex_receiver_def MessageReceiver_new_def ex_guid_def ex_reader_guid_def)
  have room: "\<forall>eid r. bm_get (rs ex_node) eid = Some r \<longrightarrow> is_contain_writer ex_guid r \<longrightarrow>
      can_add (arrived ex_now ex_guid (ex_change 1)) r"
    by (auto simp: can_add_def HistoryCache_new_def split: if_splits)
  from sample_crosses_network [OF ref_speedy_ok now p u f ex_node_ok(1,2) room] obtain bytes s' rtv where
    1: "write_message ref_speedy LittleEndian (data_msg (Some ex_now) ex_guid eid_UNKNOW (ex_change 1)) = Inr (Some bytes)"
    "handle_packet (wire_of ref_speedy) (Some ex_now) [bytes] ex_node = Inr (s', rtv)"
    and 2: "\<forall>eid r. bm_get (rs ex_node) eid = Some r \<longrightarrow>
      (if (eid_UNKNOW = eid_UNKNOW \<or> eid_UNKNOW = eid) \<and> is_contain_writer ex_guid r
       then \<exists>r' rt. reader_add_change (guid_prefix ex_guid) (arrived ex_now ex_guid (ex_change 1)) r = Inr (r', rt) \<and>
              bm_get (rs s') eid = Some r' \<and> reader_inv r'
       else bm_get (rs s') eid = Some r)" by blast
  from 2 [rule_format, of "entity_id ex_reader_guid" ?r]
  have "\<exists>r' rt. reader_add_change (guid_prefix ex_guid) (arrived ex_now ex_guid (ex_change 1)) ?r = Inr (r', rt) \<and>
      bm_get (rs s') (entity_id ex_reader_guid) = Some r'"
    by (auto simp: ex_reader_knows)
  with 1 show ?thesis by blast
qed

section \<open>Truncated packets\<close>

text \<open>
  C21. A truncated packet ends the process. If a packet has the twenty bytes of an RTPS header and then one to
  three bytes, or a submessage header that announces a longer body than the packet has, the receiver
  panics in \<^verbatim>\<open>split_to\<close>, whatever its state and whatever packets come after.
\<close>

theorem truncated_packet_crash:
  assumes "length hdr = 20" and "take 4 hdr = RTPS_magic"
  shows "(0 < length tail \<and> length tail < 4 \<longrightarrow>
      handle_packet (wire_of S) now ((hdr @ tail) # packets) s = Inl IndexOutOfBounds) \<and>
    (length body < unat (dec16 S (default_ctx S) (c, d)) \<longrightarrow>
      handle_packet (wire_of S) now ((hdr @ [kind, flags, c, d] @ body) # packets) s = Inl IndexOutOfBounds)"
proof -
  have "\<not> packet_ignored (hdr @ rest)" for rest using assms by (simp add: packet_ignored_def)
  with truncated_message_panics [OF assms(1)] show ?thesis by (simp add: handle_packet_def wire_of_def)
qed

theorem truncated_packet_crash_witness:
  "handle_packet (wire_of ref_speedy) None [RTPS_magic @ replicate 16 0 @ [1]] ex_node = Inl IndexOutOfBounds \<and>
   handle_packet (wire_of ref_speedy) None [RTPS_magic @ replicate 16 0 @ [0x15, 1, 8, 0] @ [0]] ex_node =
     Inl IndexOutOfBounds"
proof -
  have h: "length (RTPS_magic @ replicate 16 0) = 20" "take 4 (RTPS_magic @ replicate 16 0) = RTPS_magic"
    by (simp_all add: RTPS_magic_def)
  have "unat (dec16 ref_speedy (default_ctx ref_speedy) (8, 0)) = 8" by (simp add: ref_speedy_def)
  then show ?thesis
    using truncated_packet_crash [OF h, where tail = "[1]" and S = ref_speedy and now = None and packets = "[]"
        and s = ex_node and body = "[0]" and c = 8 and d = 0 and kind = "0x15" and flags = 1]
    by simp
qed

end
