(* ===== verification/Umber_EventLoop.thy ===== *)
theory Umber_EventLoop
  imports Umber_Packets
begin

text \<open>
  The event loop of a participant: \<^verbatim>\<open>src/dds/event_loop.rs\<close> and \<^verbatim>\<open>src/dds/tokens.rs\<close>. It owns the RTPS
  writers and readers, the message receiver and the timers.

  The channels are lists. The timers of \<^verbatim>\<open>mio_extras\<close> are not modelled: \<open>el_timers\<close> is the list of all requests made
  to them, a \<^verbatim>\<open>Timeout\<close> is the position of the request that returned it, and what the library and the
  sockets give back when a token fires is the argument \<open>Polled\<close>: the clock, the datagrams, the
  states of the timeouts that have fired, and which timeouts can still be cancelled.
\<close>

section \<open>Tokens\<close>

type_synonym Token = "64 word"

datatype TokenDec = ReservedToken Token | EntityToken EntityId

definition decode :: "Token \<Rightarrow> TokenDec" where
  "decode token =
     (if 0x40 \<le> token \<and> token < 0x60 then ReservedToken token else EntityToken (from_usize token))"

definition PTB :: Token where "PTB = 0x40"
definition ADD_WRITER_TOKEN :: Token where "ADD_WRITER_TOKEN = PTB + 0x1"
definition ADD_READER_TOKEN :: Token where "ADD_READER_TOKEN = PTB + 0x3"
definition DISCOVERY_UNI_TOKEN :: Token where "DISCOVERY_UNI_TOKEN = PTB + 0x5"
definition DISCOVERY_MULTI_TOKEN :: Token where "DISCOVERY_MULTI_TOKEN = PTB + 0x6"
definition SPDP_SEND_TIMER :: Token where "SPDP_SEND_TIMER = PTB + 0x8"
definition USERTRAFFIC_UNI_TOKEN :: Token where "USERTRAFFIC_UNI_TOKEN = PTB + 0x9"
definition USERTRAFFIC_MULTI_TOKEN :: Token where "USERTRAFFIC_MULTI_TOKEN = PTB + 0xA"
definition DISCOVERY_DB_UPDATE :: Token where "DISCOVERY_DB_UPDATE = PTB + 0xB"
definition WRITER_HEARTBEAT_TIMER :: Token where "WRITER_HEARTBEAT_TIMER = PTB + 0xF"
definition READER_HEARTBEAT_TIMER :: Token where "READER_HEARTBEAT_TIMER = PTB + 0x11"
definition DISC_WRITER_ADD :: Token where "DISC_WRITER_ADD = PTB + 0x12"
definition DISC_READER_ADD :: Token where "DISC_READER_ADD = PTB + 0x13"
definition WRITER_NACK_TIMER :: Token where "WRITER_NACK_TIMER = PTB + 0x15"
definition PARTICIPANT_MESSAGE_READER :: Token where "PARTICIPANT_MESSAGE_READER = PTB + 0x16"
definition WRITER_LIVELINESS_CHECK_TIMER :: Token where "WRITER_LIVELINESS_CHECK_TIMER = PTB + 0x17"
definition ASSERT_AUTOMATIC_LIVELINESS_TIMER :: Token where "ASSERT_AUTOMATIC_LIVELINESS_TIMER = PTB + 0x18"
definition SET_WLP_TIMER :: Token where "SET_WLP_TIMER = PTB + 0x19"
definition PARTICIPANT_LIVELINESS_TIMER :: Token where "PARTICIPANT_LIVELINESS_TIMER = PTB + 0x1A"
definition PARTICIPANT_MESSAGE_CMD_RECEIVER :: Token where "PARTICIPANT_MESSAGE_CMD_RECEIVER = PTB + 0x1B"
definition CHECK_MANUAL_LIVELINESS_TIMER :: Token where "CHECK_MANUAL_LIVELINESS_TIMER = PTB + 0x1C"
definition WRITER_DEADLINE_TIMER :: Token where "WRITER_DEADLINE_TIMER = PTB + 0x1D"
definition READER_DEADLINE_TIMER :: Token where "READER_DEADLINE_TIMER = PTB + 0x1E"
definition READER_LIFESPAN_TIMER :: Token where "READER_LIFESPAN_TIMER = PTB + 0x1F"

lemmas token_defs =
  PTB_def ADD_WRITER_TOKEN_def ADD_READER_TOKEN_def DISCOVERY_UNI_TOKEN_def DISCOVERY_MULTI_TOKEN_def
  SPDP_SEND_TIMER_def USERTRAFFIC_UNI_TOKEN_def USERTRAFFIC_MULTI_TOKEN_def DISCOVERY_DB_UPDATE_def
  WRITER_HEARTBEAT_TIMER_def READER_HEARTBEAT_TIMER_def DISC_WRITER_ADD_def DISC_READER_ADD_def
  WRITER_NACK_TIMER_def PARTICIPANT_MESSAGE_READER_def WRITER_LIVELINESS_CHECK_TIMER_def
  ASSERT_AUTOMATIC_LIVELINESS_TIMER_def SET_WLP_TIMER_def PARTICIPANT_LIVELINESS_TIMER_def
  PARTICIPANT_MESSAGE_CMD_RECEIVER_def CHECK_MANUAL_LIVELINESS_TIMER_def WRITER_DEADLINE_TIMER_def
  READER_DEADLINE_TIMER_def READER_LIFESPAN_TIMER_def

section \<open>State\<close>

type_synonym DiscoveredWriterData = "WriterProxy \<times> PublicationBuiltinTopicData"
type_synonym DiscoveredReaderData = "ReaderProxy \<times> SubscriptionBuiltinTopicData"

datatype DiscoveryDBUpdateNotifier = DeleteParticipant GuidPrefix

text \<open>The states of the timers, one constructor for each timer, and the requests made to them.\<close>

datatype TimerState =
    WriterHb EntityId
  | ReaderHb EntityId GUID
  | ReaderDeadline EntityId GUID CoreDuration
  | ReaderLifespan EntityId HCKey
  | WriterNack EntityId GUID
  | WriterDeadline EntityId CoreDuration
  | Wlp EntityId
  | AssertLive
  | CheckLive "GUID list"

type_synonym Timeout = nat

datatype TimerReq = SetTimeout CoreDuration TimerState | CancelTimeout Timeout

record EventLoop =
  el_domain_id :: int
  el_guid_prefix :: GuidPrefix
  el_sockets :: "Token list"
  el_recv :: RecvState
  create_writer_receiver :: "WriterIngredients list"
  create_reader_receiver :: "ReaderIngredients list"
  notify_new_writer_sender :: "(EntityId \<times> DiscoveredWriterData) list"
  notify_new_reader_sender :: "(EntityId \<times> DiscoveredReaderData) list"
  el_timers :: "TimerReq list"
  reader_deadline_timeout :: "(EntityId \<times> GUID, Timeout) btree_map"
  writer_deadline_timeout :: "(EntityId, Timeout) btree_map"
  wlp_timeouts :: "(EntityId, Timeout) btree_map"
  check_liveliness_timer_to :: "(CoreDuration \<times> Timeout) option"
  discdb_update_receiver :: "DiscoveryDBUpdateNotifier list"

datatype RecvResult = Datagram "u8 list" | RecvWouldBlock | RecvFailed

record Polled =
  clock :: "Timestamp option"
  cancellable :: "Timeout \<Rightarrow> bool"
  incoming :: "RecvResult list"
  fired :: "TimerState list"
  writer_cmds :: "WriterCmd list"

definition el_writers :: "EventLoop \<Rightarrow> (EntityId, Writer) btree_map" where
  "el_writers el = ws (el_recv el)"

definition el_readers :: "EventLoop \<Rightarrow> (EntityId, Reader) btree_map" where
  "el_readers el = rs (el_recv el)"

definition el_db :: "EventLoop \<Rightarrow> DiscoveryDB" where
  "el_db el = disc_db (mr (el_recv el))"

definition on_recv :: "(RecvState \<Rightarrow> RecvState) \<Rightarrow> EventLoop \<Rightarrow> EventLoop" where
  "on_recv f el = el\<lparr>el_recv := f (el_recv el)\<rparr>"

text \<open>\<^verbatim>\<open>set_timeout\<close>, which returns a handle, and \<^verbatim>\<open>cancel_timeout\<close>.\<close>

definition set_timeout :: "CoreDuration \<Rightarrow> TimerState \<Rightarrow> EventLoop \<Rightarrow> EventLoop" where
  "set_timeout d st el = el\<lparr>el_timers := el_timers el @ [SetTimeout d st]\<rparr>"

definition next_timeout :: "EventLoop \<Rightarrow> Timeout" where
  "next_timeout el = length (el_timers el)"

definition cancel_timeout :: "Timeout \<Rightarrow> EventLoop \<Rightarrow> EventLoop" where
  "cancel_timeout to el = el\<lparr>el_timers := el_timers el @ [CancelTimeout to]\<rparr>"

section \<open>Setting timers\<close>

definition set_reader_timer :: "Timestamp option \<Rightarrow> ReaderTimer \<Rightarrow> EventLoop \<Rightarrow> EventLoop res" where
  "set_reader_timer now rt el =
     (case rt of
        RtHeartbeat reid wg \<Rightarrow>
          (case bm_get (el_readers el) reid of
             Some r \<Rightarrow> rbind (heartbeat_response_delay r) (\<lambda>d. Inr (set_timeout d (ReaderHb reid wg) el))
           | None \<Rightarrow> Inr el)
      | RtDeadline reid wg d \<Rightarrow>
          let el1 = (case bm_get (reader_deadline_timeout el) (reid, wg) of
                       Some to \<Rightarrow> cancel_timeout to el
                     | None \<Rightarrow> el)
          in Inr ((set_timeout d (ReaderDeadline reid wg d) el1)
               \<lparr>reader_deadline_timeout := bm_insert (reid, wg) (next_timeout el1) (reader_deadline_timeout el1)\<rparr>)
      | RtLifespan reid key ts lifespan \<Rightarrow>
          rbind (unwrap now) (\<lambda>t. rbind (ts_add ts lifespan) (\<lambda>end.
            Inr (set_timeout (ts_sub end t) (ReaderLifespan reid key) el))))"

definition handle_set_reader_timer :: "Timestamp option \<Rightarrow> ReaderTimer list \<Rightarrow> EventLoop \<Rightarrow> EventLoop res" where
  "handle_set_reader_timer now rts el = rfold (set_reader_timer now) rts el"

definition set_writer_timer :: "WriterTimer \<Rightarrow> EventLoop \<Rightarrow> EventLoop res" where
  "set_writer_timer wt el =
     (case wt of
        TNack weid rg \<Rightarrow>
          (case bm_get (el_writers el) weid of
             Some w \<Rightarrow> rbind (nack_response_delay w) (\<lambda>d. Inr (set_timeout d (WriterNack weid rg) el))
           | None \<Rightarrow> Inr el)
      | TDeadline weid d \<Rightarrow>
          let el1 = (case bm_get (writer_deadline_timeout el) weid of
                       Some to \<Rightarrow> cancel_timeout to el
                     | None \<Rightarrow> el)
          in Inr ((set_timeout d (WriterDeadline weid d) el1)
               \<lparr>writer_deadline_timeout := bm_insert weid (next_timeout el1) (writer_deadline_timeout el1)\<rparr>))"

definition handle_set_writer_timer :: "WriterTimer list \<Rightarrow> EventLoop \<Rightarrow> EventLoop res" where
  "handle_set_writer_timer wts el = rfold set_writer_timer wts el"

section \<open>New endpoints\<close>

definition sedp_data_w :: "Writer \<Rightarrow> DiscoveredWriterData res" where
  "sedp_data_w w =
     rbind (WriterProxy_new (w_guid w) (w_unicast_locator_list w) (w_multicast_locator_list w) [] []
              (w_data_max_size_serialized w) (w_qos w))
       (\<lambda>proxy. Inr (proxy, pub_builtin_topic_data (w_topic w)))"

definition sedp_data_r :: "Reader \<Rightarrow> DiscoveredReaderData res" where
  "sedp_data_r r =
     rbind (ReaderProxy_new (r_guid r) (expectsinline_qos r) (r_unicast_locator_list r)
              (r_multicast_locator_list r) [] [] (r_qos r) (HistoryCache_new HCDummy) True)
       (\<lambda>proxy. Inr (proxy, sub_builtin_topic_data (r_topic r)))"

definition spdp_reader_qos :: DataReaderQosPolicies where
  "spdp_reader_qos =
     datareader_build (DataReaderQosBuilder_new\<lparr>rb_reliability := Some default_besteffort\<rparr>)"

text \<open>The announcer of participants sends to the well-known multicast address.\<close>

definition add_spdp_reader :: "int \<Rightarrow> Writer \<Rightarrow> Writer res" where
  "add_spdp_reader dom_id w =
     (if entity_id (w_guid w) = SPDP_BUILTIN_PARTICIPANT_ANNOUNCER
      then rbind (spdp_multicast_port dom_id) (\<lambda>port.
             matched_reader_add guid_UNKNOW False [] [new_from_ipv4 port [239, 255, 0, 1]] spdp_reader_qos w)
      else Inr w)"

text \<open>
  The writers whose liveliness is asserted by the application share one timer: the list of their
  GUIDs is its state, half the shortest lease its period. \<^verbatim>\<open>cancel_timeout\<close> gives the list back only
  if the timeout can still be cancelled.
\<close>

definition cancelled_list :: "(Timeout \<Rightarrow> bool) \<Rightarrow> Timeout \<Rightarrow> EventLoop \<Rightarrow> GUID list option" where
  "cancelled_list can to el =
     (if can to \<and> to < length (el_timers el) then
        (case el_timers el ! to of SetTimeout d (CheckLive gs) \<Rightarrow> Some gs | _ \<Rightarrow> None)
      else None)"

definition core_min :: "CoreDuration \<Rightarrow> CoreDuration \<Rightarrow> CoreDuration" where
  "core_min a b = (if core_less b a then b else a)"

definition watch_list :: "CoreDuration \<Rightarrow> GUID list \<Rightarrow> EventLoop \<Rightarrow> EventLoop" where
  "watch_list d gs el =
     (set_timeout d (CheckLive gs) el)\<lparr>check_liveliness_timer_to := Some (d, next_timeout el)\<rparr>"

definition watch_manual_writer :: "(Timeout \<Rightarrow> bool) \<Rightarrow> Writer \<Rightarrow> EventLoop \<Rightarrow> EventLoop" where
  "watch_manual_writer can w el =
     (let lv = fst (dw_liveliness (w_qos w)); ld = lease_duration lv in
      if liveliness_kind lv = Automatic \<or> ld = DURATION_INFINITE then el
      else
        (case check_liveliness_timer_to el of
           Some (d, to) \<Rightarrow>
             (case cancelled_list can to el of
                Some gs \<Rightarrow> watch_list (core_min d (to_core (dur_half ld))) (gs @ [w_guid w]) (cancel_timeout to el)
              | None \<Rightarrow> cancel_timeout to el)
         | None \<Rightarrow> watch_list (to_core (dur_half ld)) [w_guid w] el))"

definition builtin_writer_id :: "EntityId \<Rightarrow> bool" where
  "builtin_writer_id eid \<longleftrightarrow>
     eid = SPDP_BUILTIN_PARTICIPANT_ANNOUNCER \<or> eid = SEDP_BUILTIN_PUBLICATIONS_ANNOUNCER \<or>
     eid = SEDP_BUILTIN_SUBSCRIPTIONS_ANNOUNCER \<or> eid = P2P_BUILTIN_PARTICIPANT_MESSAGE_WRITER"

definition builtin_reader_id :: "EntityId \<Rightarrow> bool" where
  "builtin_reader_id eid \<longleftrightarrow>
     eid = SPDP_BUILTIN_PARTICIPANT_DETECTOR \<or> eid = SEDP_BUILTIN_PUBLICATIONS_DETECTOR \<or>
     eid = SEDP_BUILTIN_SUBSCRIPTIONS_DETECTOR \<or> eid = P2P_BUILTIN_PARTICIPANT_MESSAGE_READER"

definition announce_writer :: "Writer \<Rightarrow> EventLoop \<Rightarrow> EventLoop res" where
  "announce_writer w el =
     (if builtin_writer_id (entity_id (w_guid w)) then Inr el
      else rbind (sedp_data_w w) (\<lambda>d.
        Inr (el\<lparr>notify_new_writer_sender := notify_new_writer_sender el @ [(entity_id (w_guid w), d)]\<rparr>)))"

definition announce_reader :: "Reader \<Rightarrow> EventLoop \<Rightarrow> EventLoop res" where
  "announce_reader r el =
     (if builtin_reader_id (entity_id (r_guid r)) then Inr el
      else rbind (sedp_data_r r) (\<lambda>d.
        Inr (el\<lparr>notify_new_reader_sender := notify_new_reader_sender el @ [(entity_id (r_guid r), d)]\<rparr>)))"

definition writer_seen_alive :: "Timestamp \<Rightarrow> GUID \<Rightarrow> Writer \<Rightarrow> EventLoop \<Rightarrow> EventLoop" where
  "writer_seen_alive t g w =
     on_recv (on_db (write_local_writer g t (liveliness_kind (fst (dw_liveliness (w_qos w))))))"

definition insert_writer :: "Writer \<Rightarrow> EventLoop \<Rightarrow> EventLoop" where
  "insert_writer w = on_recv (\<lambda>s. s\<lparr>ws := bm_insert (entity_id (w_guid w)) w (ws s)\<rparr>)"

definition insert_reader :: "Reader \<Rightarrow> EventLoop \<Rightarrow> EventLoop" where
  "insert_reader r = on_recv (\<lambda>s. s\<lparr>rs := bm_insert (entity_id (r_guid r)) r (rs s)\<rparr>)"

definition set_heartbeat_timer :: "Writer \<Rightarrow> EventLoop \<Rightarrow> EventLoop res" where
  "set_heartbeat_timer w el =
     rbind (heartbeat_period w) (\<lambda>d. Inr (set_timeout d (WriterHb (entity_id (w_guid w))) el))"

definition register_writer :: "Timestamp option \<Rightarrow> (Timeout \<Rightarrow> bool) \<Rightarrow> WriterIngredients \<Rightarrow> EventLoop
    \<Rightarrow> EventLoop res" where
  "register_writer now can wi el =
     rbind (Writer_new now wi) (\<lambda>(w0, wt).
     rbind (case wt of Some t \<Rightarrow> handle_set_writer_timer [t] el | None \<Rightarrow> Inr el) (\<lambda>el1.
     rbind (add_spdp_reader (el_domain_id el) w0) (\<lambda>w.
     rbind (if w_is_reliable w then set_heartbeat_timer w el1 else Inr el1) (\<lambda>el2.
     rbind (announce_writer w (watch_manual_writer can w el2)) (\<lambda>el3.
     rbind (unwrap now) (\<lambda>t.
       Inr (insert_writer w (writer_seen_alive t (w_guid w) w el3))))))))"

definition register_reader :: "ReaderIngredients \<Rightarrow> EventLoop \<Rightarrow> EventLoop res" where
  "register_reader ri el =
     (let r = Reader_new ri in
      rbind (announce_reader r el) (\<lambda>el1. Inr (insert_reader r el1)))"

record BuiltinEndpointsIngredients =
  spdp_builtin_participant_writer_ing :: WriterIngredients
  sedp_builtin_pub_writer_ing :: WriterIngredients
  sedp_builtin_pub_reader_ing :: ReaderIngredients
  sedp_builtin_sub_writer_ing :: WriterIngredients
  sedp_builtin_sub_reader_ing :: ReaderIngredients
  p2p_builtin_participant_msg_writer_ing :: WriterIngredients
  p2p_builtin_participant_msg_reader_ing :: ReaderIngredients

definition register_builtin_endpoints :: "Timestamp option \<Rightarrow> (Timeout \<Rightarrow> bool)
    \<Rightarrow> BuiltinEndpointsIngredients \<Rightarrow> EventLoop \<Rightarrow> EventLoop res" where
  "register_builtin_endpoints now can be el =
     rbind (register_writer now can (spdp_builtin_participant_writer_ing be) el) (\<lambda>el1.
     rbind (register_writer now can (sedp_builtin_pub_writer_ing be) el1) (\<lambda>el2.
     rbind (register_reader (sedp_builtin_pub_reader_ing be) el2) (\<lambda>el3.
     rbind (register_writer now can (sedp_builtin_sub_writer_ing be) el3) (\<lambda>el4.
     rbind (register_reader (sedp_builtin_sub_reader_ing be) el4) (\<lambda>el5.
     rbind (register_writer now can (p2p_builtin_participant_msg_writer_ing be) el5) (\<lambda>el6.
       register_reader (p2p_builtin_participant_msg_reader_ing be) el6))))))"

definition ASSERT_LIVELINESS_PERIOD :: CoreDuration where
  "ASSERT_LIVELINESS_PERIOD = \<lparr>core_secs = 10, core_nanos = 0\<rparr>"

definition EventLoop_new :: "Timestamp option \<Rightarrow> (Timeout \<Rightarrow> bool) \<Rightarrow> int \<Rightarrow> GuidPrefix \<Rightarrow> Token list
    \<Rightarrow> GuidPrefix \<Rightarrow> DiscoveryDB \<Rightarrow> SerializedPayload \<Rightarrow> BuiltinEndpointsIngredients \<Rightarrow> EventLoop res" where
  "EventLoop_new now can dom_id prefix sockets participant_guidprefix db spdp_payload be =
     register_builtin_endpoints now can be
       \<lparr>el_domain_id = dom_id, el_guid_prefix = prefix, el_sockets = sockets,
        el_recv = \<lparr>mr = MessageReceiver_new participant_guidprefix dom_id db spdp_payload, ws = [], rs = []\<rparr>,
        create_writer_receiver = [], create_reader_receiver = [], notify_new_writer_sender = [],
        notify_new_reader_sender = [], el_timers = [SetTimeout ASSERT_LIVELINESS_PERIOD AssertLive],
        reader_deadline_timeout = [], writer_deadline_timeout = [], wlp_timeouts = [],
        check_liveliness_timer_to = None, discdb_update_receiver = []\<rparr>"

section \<open>Sockets\<close>

text \<open>\<^verbatim>\<open>receiv_packet\<close> reads until the socket would block; any other error panics.\<close>

fun receiv_packet :: "RecvResult list \<Rightarrow> u8 list list res" where
  "receiv_packet [] = Inr []"
| "receiv_packet (Datagram bytes # rest) = rbind (receiv_packet rest) (\<lambda>packets. Inr (bytes # packets))"
| "receiv_packet (RecvWouldBlock # rest) = Inr []"
| "receiv_packet (RecvFailed # rest) = Inl ExplicitPanic"

definition handle_socket :: "Wire \<Rightarrow> Polled \<Rightarrow> Token \<Rightarrow> EventLoop \<Rightarrow> EventLoop res" where
  "handle_socket wr p token el =
     (if token \<in> set (el_sockets el) then
        rbind (receiv_packet (incoming p)) (\<lambda>packets.
        rbind (handle_packet wr (clock p) packets (el_recv el)) (\<lambda>(s, rtv).
          let el1 = el\<lparr>el_recv := s\<rparr> in
          case rtv of
            Some rts \<Rightarrow> handle_set_reader_timer (clock p) rts el1
          | None \<Rightarrow> Inr el1))
      else Inr el)"

section \<open>Timers that fire\<close>

definition put_reader_at :: "EntityId \<Rightarrow> Reader \<Rightarrow> EventLoop \<Rightarrow> EventLoop" where
  "put_reader_at eid r = on_recv (put_reader eid r)"

definition put_writer_at :: "EntityId \<Rightarrow> Writer \<Rightarrow> EventLoop \<Rightarrow> EventLoop" where
  "put_writer_at eid w = on_recv (put_writer eid w)"

definition writer_heartbeat_fired :: "Timestamp option \<Rightarrow> TimerState \<Rightarrow> EventLoop \<Rightarrow> EventLoop res" where
  "writer_heartbeat_fired now st el =
     (case st of
        WriterHb eid \<Rightarrow>
          (case bm_get (el_writers el) eid of
             Some w0 \<Rightarrow> rbind (send_heart_beat now False w0) (\<lambda>w. set_heartbeat_timer w (put_writer_at eid w el))
           | None \<Rightarrow> Inr el)
      | _ \<Rightarrow> Inr el)"

definition reader_deadline_fired :: "TimerState \<Rightarrow> EventLoop \<Rightarrow> EventLoop res" where
  "reader_deadline_fired st el =
     (case st of
        ReaderDeadline reid wg d \<Rightarrow>
          (case bm_get (el_readers el) reid of
             Some r \<Rightarrow>
               let el1 = put_reader_at reid (notify_reqested_deadline_missed wg r) el
               in Inr ((set_timeout d (ReaderDeadline reid wg d) el1)
                    \<lparr>reader_deadline_timeout := bm_insert (reid, wg) (next_timeout el1) (reader_deadline_timeout el1)\<rparr>)
           | None \<Rightarrow> Inl Unreachable)
      | _ \<Rightarrow> Inr el)"

definition reader_lifespan_fired :: "TimerState \<Rightarrow> EventLoop \<Rightarrow> EventLoop res" where
  "reader_lifespan_fired st el =
     (case st of
        ReaderLifespan reid key \<Rightarrow>
          (case bm_get (el_readers el) reid of
             Some r \<Rightarrow> Inr (put_reader_at reid (reader_remove_change_if_exist key r) el)
           | None \<Rightarrow> Inl Unreachable)
      | _ \<Rightarrow> Inr el)"

definition writer_deadline_fired :: "TimerState \<Rightarrow> EventLoop \<Rightarrow> EventLoop res" where
  "writer_deadline_fired st el =
     (case st of
        WriterDeadline eid d \<Rightarrow>
          (case bm_get (el_writers el) eid of
             Some w \<Rightarrow>
               let el1 = put_writer_at eid (notify_offered_deadline_missed w) el
               in Inr ((set_timeout d (WriterDeadline eid d) el1)
                    \<lparr>writer_deadline_timeout := bm_insert eid (next_timeout el1) (writer_deadline_timeout el1)\<rparr>)
           | None \<Rightarrow> Inl Unreachable)
      | _ \<Rightarrow> Inr el)"

text \<open>A reader checks the leases of its writers and sets the timer of its next check.\<close>

definition check_reader :: "Timestamp option \<Rightarrow> EntityId \<Rightarrow> Reader \<Rightarrow> EventLoop \<Rightarrow> (Reader \<times> EventLoop) res" where
  "check_reader now eid r el =
     rbind (reader_check_liveliness now (el_db el) r) (\<lambda>(db, r').
       Inr (r', put_reader_at eid r' (on_recv (on_db (\<lambda>_. db)) el)))"

definition set_wlp_timer :: "EntityId \<Rightarrow> CoreDuration \<Rightarrow> EventLoop \<Rightarrow> EventLoop" where
  "set_wlp_timer eid d el =
     (set_timeout d (Wlp eid) el)\<lparr>wlp_timeouts := bm_insert eid (next_timeout el) (wlp_timeouts el)\<rparr>"

definition wlp_fired :: "Timestamp option \<Rightarrow> TimerState \<Rightarrow> EventLoop \<Rightarrow> EventLoop res" where
  "wlp_fired now st el =
     (case st of
        Wlp eid \<Rightarrow>
          (case bm_get (el_readers el) eid of
             Some r \<Rightarrow>
               rbind (check_reader now eid r el) (\<lambda>(r', el1).
               rbind (get_min_remote_writer_lease_duration r') (\<lambda>d.
                 Inr (set_wlp_timer (entity_id (r_guid r')) d el1)))
           | None \<Rightarrow> Inr el)
      | _ \<Rightarrow> Inr el)"

definition set_wlp :: "Timestamp option \<Rightarrow> EntityId \<Rightarrow> EventLoop \<Rightarrow> EventLoop res" where
  "set_wlp now reid el =
     (case bm_get (el_readers el) reid of
        Some r \<Rightarrow>
          rbind (get_min_remote_writer_lease_duration r) (\<lambda>min_ld.
          rbind (case bm_get (wlp_timeouts el) (entity_id (r_guid r)) of
                   Some to \<Rightarrow> rbind (check_reader now reid r (cancel_timeout to el)) (\<lambda>(r', el1). Inr el1)
                 | None \<Rightarrow> Inr el) (\<lambda>el2.
            Inr (set_wlp_timer (entity_id (r_guid r)) min_ld el2)))
      | None \<Rightarrow> Inr el)"

definition drain_wlp :: "Timestamp option \<Rightarrow> EventLoop \<Rightarrow> EventLoop res" where
  "drain_wlp now el =
     rfold (set_wlp now) (wlp_timer_sender (mr (el_recv el)))
       (on_recv (\<lambda>s. s\<lparr>mr := (mr s)\<lparr>wlp_timer_sender := []\<rparr>\<rparr>) el)"

definition assert_automatic :: "Timestamp option \<Rightarrow> EntityId \<Rightarrow> EventLoop \<Rightarrow> EventLoop res" where
  "assert_automatic now eid el =
     (case bm_get (el_writers el) eid of
        None \<Rightarrow> Inr el
      | Some w \<Rightarrow>
          (case read_local_writer (w_guid w) (el_db el) of
             Live ts \<Rightarrow>
               let duration = ts_sub (or_default now TIME_INVALID) ts;
                   lv = fst (dw_liveliness (w_qos w))
               in if liveliness_kind lv \<noteq> Automatic \<or> lease_duration lv = DURATION_INFINITE then Inr el
                  else if core_less (to_core (dur_half (lease_duration lv))) duration then
                    rbind (assert_liveliness now w) (\<lambda>w'. rbind (unwrap now) (\<lambda>t.
                      Inr (writer_seen_alive t (w_guid w') w' (put_writer_at eid w' el))))
                  else Inr el
           | _ \<Rightarrow> Inr el))"

definition assert_liveliness_fired :: "Timestamp option \<Rightarrow> EventLoop \<Rightarrow> EventLoop res" where
  "assert_liveliness_fired now el =
     rbind (rfold (assert_automatic now) (bm_keys (el_writers el)) el) (\<lambda>el1.
       Inr (set_timeout ASSERT_LIVELINESS_PERIOD AssertLive el1))"

definition check_writer :: "Timestamp option \<Rightarrow> GUID \<Rightarrow> EventLoop \<Rightarrow> EventLoop res" where
  "check_writer now wg el =
     (case bm_get (el_writers el) (entity_id wg) of
        Some w \<Rightarrow> rbind (check_liveliness_w now w) (\<lambda>w'. Inr (put_writer_at (entity_id wg) w' el))
      | None \<Rightarrow> Inr el)"

definition check_liveliness_fired :: "Timestamp option \<Rightarrow> TimerState \<Rightarrow> EventLoop \<Rightarrow> EventLoop res" where
  "check_liveliness_fired now st el =
     (case st of
        CheckLive wgs \<Rightarrow>
          rbind (rfold (check_writer now) wgs el) (\<lambda>el1.
          rbind (unwrap (check_liveliness_timer_to el1)) (\<lambda>(d, to).
            Inr (watch_list d wgs el1)))
      | _ \<Rightarrow> Inr el)"

definition reader_heartbeat_fired :: "TimerState \<Rightarrow> EventLoop \<Rightarrow> EventLoop res" where
  "reader_heartbeat_fired st el =
     (case st of
        ReaderHb reid wg \<Rightarrow>
          (case bm_get (el_readers el) reid of
             Some r \<Rightarrow> rbind (handle_hb_response_timeout wg r) (\<lambda>r'. Inr (put_reader_at reid r' el))
           | None \<Rightarrow> Inr el)
      | _ \<Rightarrow> Inr el)"

definition writer_nack_fired :: "Timestamp option \<Rightarrow> TimerState \<Rightarrow> EventLoop \<Rightarrow> EventLoop res" where
  "writer_nack_fired now st el =
     (case st of
        WriterNack weid rg \<Rightarrow>
          (case bm_get (el_writers el) weid of
             Some w \<Rightarrow> rbind (handle_nack_response_timeout now rg w) (\<lambda>w'. Inr (put_writer_at weid w' el))
           | None \<Rightarrow> Inr el)
      | _ \<Rightarrow> Inr el)"

section \<open>Participants that leave, commands, dispatch\<close>

definition remove_discoverd_participant :: "GuidPrefix \<Rightarrow> EventLoop \<Rightarrow> EventLoop" where
  "remove_discoverd_participant prefix =
     on_recv (\<lambda>s. s\<lparr>rs := map (\<lambda>(eid, r). (eid, delete_writer_proxy prefix r)) (rs s),
                   ws := map (\<lambda>(eid, w). (eid, delete_reader_proxy prefix w)) (ws s)\<rparr>)"

definition handle_discdb_update :: "EventLoop \<Rightarrow> EventLoop" where
  "handle_discdb_update el =
     fold (\<lambda>u. case u of DeleteParticipant prefix \<Rightarrow> remove_discoverd_participant prefix)
       (discdb_update_receiver el) (el\<lparr>discdb_update_receiver := []\<rparr>)"

definition handle_entity_event :: "Polled \<Rightarrow> EntityId \<Rightarrow> EventLoop \<Rightarrow> EventLoop res" where
  "handle_entity_event p eid el =
     (if is_writer eid then
        (case bm_get (el_writers el) eid of
           Some w0 \<Rightarrow>
             rbind (unwrap (clock p)) (\<lambda>t.
               let el1 = writer_seen_alive t (GUID (el_guid_prefix el) eid) w0 el in
               rbind (handle_writer_cmd (clock p) (writer_cmds p) w0) (\<lambda>(w, wtv).
                 handle_set_writer_timer wtv (put_writer_at eid w el1)))
         | None \<Rightarrow> Inr el)
      else Inl Unreachable)"

definition drain_writers :: "Polled \<Rightarrow> EventLoop \<Rightarrow> EventLoop res" where
  "drain_writers p el =
     rfold (register_writer (clock p) (cancellable p)) (create_writer_receiver el)
       (el\<lparr>create_writer_receiver := []\<rparr>)"

definition drain_readers :: "EventLoop \<Rightarrow> EventLoop res" where
  "drain_readers el =
     rfold register_reader (create_reader_receiver el) (el\<lparr>create_reader_receiver := []\<rparr>)"

definition handle_reserved :: "Wire \<Rightarrow> Polled \<Rightarrow> Token \<Rightarrow> EventLoop \<Rightarrow> EventLoop res" where
  "handle_reserved wr p token el =
     (if token = DISCOVERY_MULTI_TOKEN \<or> token = DISCOVERY_UNI_TOKEN then handle_socket wr p token el
      else if token = USERTRAFFIC_MULTI_TOKEN \<or> token = USERTRAFFIC_UNI_TOKEN then handle_socket wr p token el
      else if token = ADD_WRITER_TOKEN then drain_writers p el
      else if token = ADD_READER_TOKEN then drain_readers el
      else if token = DISCOVERY_DB_UPDATE then Inr (handle_discdb_update el)
      else if token = WRITER_HEARTBEAT_TIMER then rfold (writer_heartbeat_fired (clock p)) (fired p) el
      else if token = READER_DEADLINE_TIMER then rfold reader_deadline_fired (fired p) el
      else if token = READER_LIFESPAN_TIMER then rfold reader_lifespan_fired (fired p) el
      else if token = WRITER_DEADLINE_TIMER then rfold writer_deadline_fired (fired p) el
      else if token = WRITER_LIVELINESS_CHECK_TIMER then rfold (wlp_fired (clock p)) (fired p) el
      else if token = ASSERT_AUTOMATIC_LIVELINESS_TIMER then assert_liveliness_fired (clock p) el
      else if token = CHECK_MANUAL_LIVELINESS_TIMER then rfold (check_liveliness_fired (clock p)) (fired p) el
      else if token = READER_HEARTBEAT_TIMER then rfold reader_heartbeat_fired (fired p) el
      else if token = WRITER_NACK_TIMER then rfold (writer_nack_fired (clock p)) (fired p) el
      else if token = SET_WLP_TIMER then drain_wlp (clock p) el
      else Inr el)"

definition handle_event :: "Wire \<Rightarrow> Polled \<Rightarrow> Token \<Rightarrow> EventLoop \<Rightarrow> EventLoop res" where
  "handle_event wr p token el =
     (case decode token of
        ReservedToken t \<Rightarrow> handle_reserved wr p t el
      | EntityToken eid \<Rightarrow> handle_entity_event p eid el)"

end
