(* ===== verification/Umber_Identity.thy ===== *)
theory Umber_Identity
  imports Umber_EventLoop
begin

text \<open>
  Endpoints keep their identity: no operation of a writer or reader changes its GUID, reliability,
  QoS or topic, and no packet changes which writers and readers a participant has. The timers that the
  receiver asks for belong to readers of the participant.
\<close>

section \<open>Writers\<close>

definition w_fixed :: "Writer \<Rightarrow> GUID \<times> ReliabilityQosKind \<times> DataWriterQosPolicies \<times> Topic" where
  "w_fixed w = (w_guid w, w_reliability_level w, w_qos w, w_topic w)"

definition r_fixed :: "Reader \<Rightarrow> GUID \<times> ReliabilityQosKind \<times> DataReaderQosPolicies \<times> Topic" where
  "r_fixed r = (r_guid r, r_reliability_level r, r_qos r, r_topic r)"

text \<open>What the event loop leaves as it is: also the times at which samples were added last.\<close>

definition w_kept :: "Writer \<Rightarrow> (GUID \<times> ReliabilityQosKind \<times> DataWriterQosPolicies \<times> Topic) \<times> (GUID, Timestamp) btree_map" where
  "w_kept w = (w_fixed w, last_added (writer_cache w))"

lemma w_kept_D: "w_kept w' = w_kept w \<Longrightarrow> w_fixed w' = w_fixed w"
  by (simp add: w_kept_def)

named_theorems fixed \<open>what operations on endpoints leave as it is\<close>

lemma w_kept_updates [simp]:
  "last_added h = last_added (writer_cache w) \<Longrightarrow> w_kept (w\<lparr>writer_cache := h\<rparr>) = w_kept w"
  "w_kept (w\<lparr>matched_readers := m\<rparr>) = w_kept w"
  "w_kept (w\<lparr>total_matched_readers := t\<rparr>) = w_kept w" "w_kept (w\<lparr>an_state := a\<rparr>) = w_kept w"
  "w_kept (w\<lparr>is_alive := b\<rparr>) = w_kept w" "w_kept (w\<lparr>hb_counter := c\<rparr>) = w_kept w"
  "w_kept (w\<lparr>w_unmatch_count := c\<rparr>) = w_kept w" "w_kept (w\<lparr>w_udp_sender := u\<rparr>) = w_kept w"
  "w_kept (w\<lparr>participant_msg_cmd_sender := q\<rparr>) = w_kept w"
  "w_kept (w\<lparr>writer_state_notifier := n\<rparr>) = w_kept w"
  by (auto simp: w_kept_def w_fixed_def)

lemma get_unprocessed_last_added: "get_unprocessed h = Inr (h', ns) \<Longrightarrow> last_added h' = last_added h"
  by (auto simp: get_unprocessed_def split: if_splits)

lemma w_kept_basic [simp]:
  "w_kept (map_readers f w) = w_kept w" "w_kept (notify_w s w) = w_kept w" "w_kept (emit l m w) = w_kept w"
  "w_kept (drop_if_best_effort n w) = w_kept w" "w_kept (remove_acked_key k w) = w_kept w"
  by (simp_all add: map_readers_def notify_w_def emit_def drop_if_best_effort_def remove_acked_key_def)

lemma fold_keeps_fixed:
  assumes "\<And>x w. fx (f x w) = fx w"
  shows "fx (fold f xs w) = fx w"
  using assms by (induction xs arbitrary: w) simp_all

lemma rfold_fixed:
  assumes "rfold f xs w = Inr w'" and "\<And>x w w'. f x w = Inr w' \<Longrightarrow> fx w' = fx w"
  shows "fx w' = fx w"
  using assms(1) by (rule rfold_invariant) (auto dest: assms(2))

lemma w_kept_folds [simp]:
  "w_kept (emit_data now c rls w) = w_kept w" "w_kept (emit_heartbeats now lv a b n rls w) = w_kept w"
  "w_kept (fold remove_acked_key ks w) = w_kept w" "w_kept (fold (\<lambda>l. emit l m) ls w) = w_kept w"
  by (auto simp: emit_data_def emit_heartbeats_def intro: fold_keeps_fixed)

lemma w_kept_register [simp]: "w_kept (register_unprocessed ns w) = w_kept w"
  unfolding register_unprocessed_def by (rule fold_keeps_fixed) auto

lemma remove_acked_changes_fixed [fixed]: "remove_acked_changes b w = Inr w' \<Longrightarrow> w_kept w' = w_kept w"
  by (auto simp: remove_acked_changes_def rbind_Inr_iff Let_def split: if_splits)

lemma send_heart_beat_fixed [fixed]: "send_heart_beat now lv w = Inr w' \<Longrightarrow> w_kept w' = w_kept w"
  by (auto simp: send_heart_beat_def rbind_Inr_iff Let_def split: if_splits dest!: remove_acked_changes_fixed)

lemma emit_gaps_fixed [fixed]: "emit_gaps nx w = Inr w' \<Longrightarrow> w_kept w' = w_kept w"
  unfolding emit_gaps_def by (erule rfold_fixed) (auto simp: rbind_Inr_iff)

lemma send_data_step_fixed [fixed]: "send_data_step now nx w = Inr w' \<Longrightarrow> w_kept w' = w_kept w"
  by (auto simp: send_data_step_def split: option.splits)

lemma send_gap_step_fixed [fixed]: "send_gap_step nx w = Inr w' \<Longrightarrow> w_kept w' = w_kept w"
  by (auto simp: send_gap_step_def rbind_Inr_iff dest: fixed)

lemma resend_step_fixed [fixed]: "resend_step now nx w = Inr w' \<Longrightarrow> w_kept w' = w_kept w"
  by (auto simp: resend_step_def rbind_Inr_iff Let_def split: option.split_asm if_split_asm)

lemma rfold_w_kept [fixed]:
  "rfold (send_data_step now) xs w = Inr w' \<Longrightarrow> w_kept w' = w_kept w"
  "rfold send_gap_step xs w = Inr w' \<Longrightarrow> w_kept w' = w_kept w"
  "rfold (resend_step now) xs w = Inr w' \<Longrightarrow> w_kept w' = w_kept w"
  "rfold emit_gaps xs w = Inr w' \<Longrightarrow> w_kept w' = w_kept w"
  by (erule rfold_fixed; erule fixed)+

lemma send_unsent_fixed [fixed]: "send_unsent now w = Inr w' \<Longrightarrow> w_kept w' = w_kept w"
  by (auto simp: send_unsent_def rbind_Inr_iff dest!: fixed)

lemma handle_write_data_cmd_fixed [fixed]:
  "handle_write_data_cmd now w = Inr (w', t) \<Longrightarrow> w_kept w' = w_kept w"
  by (auto simp: handle_write_data_cmd_def Let_def get_unprocessed_last_added elim!: rbind_Inr_E
      split: list.split_asm if_split_asm dest!: fixed)

lemma handle_nack_response_timeout_fixed [fixed]:
  "handle_nack_response_timeout now g w = Inr w' \<Longrightarrow> w_kept w' = w_kept w"
  by (auto simp: handle_nack_response_timeout_def rbind_Inr_iff Let_def split: option.split_asm dest!: fixed)

lemma handle_acknack_fixed [fixed]: "handle_acknack now a g w = Inr (w', t) \<Longrightarrow> w_kept w' = w_kept w"
  by (cases "an_state w") (auto simp: handle_acknack_def Let_def elim!: rbind_Inr_E
      split: option.split_asm if_split_asm dest!: fixed)

lemma matched_reader_add_fixed [fixed]:
  "matched_reader_add_with_default_locator g inl uni multi duni dmulti qos w = Inr w' \<Longrightarrow> w_kept w' = w_kept w"
  "matched_reader_add g inl uni multi qos w = Inr w' \<Longrightarrow> w_kept w' = w_kept w"
  by (auto simp: matched_reader_add_def matched_reader_add_with_default_locator_def rbind_Inr_iff Let_def
      split: option.splits sum.splits)

lemma send_builtin_data_fixed [fixed]: "send_builtin_data_for_loc now d ls w = Inr w' \<Longrightarrow> w_kept w' = w_kept w"
  by (auto simp: send_builtin_data_for_loc_def rbind_Inr_iff Let_def)

lemma matched_reader_remove_fixed [simp]: "w_kept (matched_reader_remove g w) = w_kept w"
  by (simp add: matched_reader_remove_def Let_def)

lemma delete_reader_proxy_fixed [simp]: "w_kept (delete_reader_proxy p w) = w_kept w"
  unfolding delete_reader_proxy_def by (rule fold_keeps_fixed) simp

lemma assert_liveliness_fixed [fixed]: "assert_liveliness now w = Inr w' \<Longrightarrow> w_kept w' = w_kept w"
  by (auto simp: assert_liveliness_def rbind_Inr_iff Let_def split: if_splits option.splits)

lemma check_liveliness_w_fixed [fixed]: "check_liveliness_w now w = Inr w' \<Longrightarrow> w_kept w' = w_kept w"
  by (auto simp: check_liveliness_w_def rbind_Inr_iff Let_def split: if_splits option.splits)

lemma assert_liveliness_manually_fixed [fixed]:
  "assert_liveliness_manually now w = Inr w' \<Longrightarrow> w_kept w' = w_kept w"
  by (auto simp: assert_liveliness_manually_def dest!: fixed)

lemma handle_writer_cmd_fixed [fixed]:
  assumes "handle_writer_cmd now cmds w = Inr (w', t)"
  shows "w_kept w' = w_kept w"
proof -
  have "w_kept (fst (w', t)) = w_kept (fst (w, [] :: WriterTimer list))"
    using assms unfolding handle_writer_cmd_def
    by (rule rfold_fixed [where fx = "\<lambda>x. w_kept (fst x)"])
      (auto simp: rbind_Inr_iff split: WriterCmd.splits dest!: fixed)
  then show ?thesis by simp
qed

section \<open>Readers\<close>

lemma r_fixed_updates [simp]:
  "r_fixed (r\<lparr>reader_cache := h\<rparr>) = r_fixed r" "r_fixed (r\<lparr>matched_writers := m\<rparr>) = r_fixed r"
  "r_fixed (r\<lparr>unmatched_writers := m\<rparr>) = r_fixed r" "r_fixed (r\<lparr>writer_communication_state := c\<rparr>) = r_fixed r"
  "r_fixed (r\<lparr>r_udp_sender := u\<rparr>) = r_fixed r" "r_fixed (r\<lparr>reader_state_notifier := n\<rparr>) = r_fixed r"
  by (simp_all add: r_fixed_def)

lemma r_fixed_basic [simp]:
  "r_fixed (notify_r s r) = r_fixed r" "r_fixed (set_state g st r) = r_fixed r" "r_fixed (on_proxy g f r) = r_fixed r"
  "r_fixed (liveliness_changed a b g r) = r_fixed r" "r_fixed (send_sub_unmatch g r) = r_fixed r"
  "r_fixed (rematch g r) = r_fixed r" "r_fixed (skip_seq_num g n r) = r_fixed r"
  "r_fixed (matched_writer_unmatch g r) = r_fixed r" "r_fixed (matched_writer_remove g r) = r_fixed r"
  "r_fixed (unmatched_writer_remove g r) = r_fixed r" "r_fixed (notify_reqested_deadline_missed g r) = r_fixed r"
  "r_fixed (reader_remove_change_if_exist k r) = r_fixed r"
  by (simp_all add: notify_r_def set_state_def on_proxy_def liveliness_changed_def send_sub_unmatch_def rematch_def
      skip_seq_num_def matched_writer_unmatch_def matched_writer_remove_def unmatched_writer_remove_def
      notify_reqested_deadline_missed_def reader_remove_change_if_exist_def Let_def
      split: option.split ReaderState.split)

lemma delete_writer_proxy_fixed [simp]: "r_fixed (delete_writer_proxy p r) = r_fixed r"
  unfolding delete_writer_proxy_def Let_def by (simp add: fold_keeps_fixed [where fx = r_fixed])

lemma release_fixed [fixed]: "release r = Inr r' \<Longrightarrow> r_fixed r' = r_fixed r"
  by (auto simp: release_def flush_cache_def rbind_Inr_iff)

lemma advance_state_fixed [fixed]: "advance_state g n r = Inr r' \<Longrightarrow> r_fixed r' = r_fixed r"
  by (auto simp: advance_state_def Let_def elim!: rbind_Inr_E
      split: option.split_asm ReaderState.split_asm if_split_asm dest!: fixed)

lemma forget_taken_fixed [fixed]: "forget_taken r = Inr r' \<Longrightarrow> r_fixed r' = r_fixed r"
  by (auto simp: forget_taken_def rbind_Inr_iff fold_keeps_fixed [where fx = r_fixed])

lemma reader_add_change_fixed [fixed]: "reader_add_change p c r = Inr (r', rt) \<Longrightarrow> r_fixed r' = r_fixed r"
  by (auto simp: reader_add_change_def add_change_reliable_def add_change_best_effort_def add_to_cache_def Let_def
      elim!: rbind_Inr_E split: option.split_asm if_split_asm sum.split_asm dest!: fixed)

lemma handle_gap_fixed [fixed]: "handle_gap g gap r = Inr r' \<Longrightarrow> r_fixed r' = r_fixed r"
  by (auto simp: handle_gap_def Let_def fold_keeps_fixed [where fx = r_fixed] elim!: rbind_Inr_E split: option.split_asm)

lemma handle_hb_response_timeout_fixed [fixed]:
  "handle_hb_response_timeout g r = Inr r' \<Longrightarrow> r_fixed r' = r_fixed r"
  by (auto simp: handle_hb_response_timeout_def acknack_base_def flush_cache_def Let_def elim!: rbind_Inr_E
      split: option.split_asm list.split_asm if_split_asm)

lemma handle_heartbeat_fixed [fixed]: "handle_heartbeat g f hb r = Inr (r', t) \<Longrightarrow> r_fixed r' = r_fixed r"
  by (auto simp: handle_heartbeat_def respond_def Let_def elim!: rbind_Inr_E
      split: option.split_asm if_split_asm dest!: fixed)

lemma matched_writer_add_fixed [fixed]:
  "matched_writer_add_with_default_locator g uni multi duni dmulti sz qos r = Inr (r', t) \<Longrightarrow> r_fixed r' = r_fixed r"
  "matched_writer_add g uni multi sz qos r = Inr r' \<Longrightarrow> r_fixed r' = r_fixed r"
  by (auto simp: matched_writer_add_def matched_writer_add_with_default_locator_def Let_def elim!: rbind_Inr_E
      split: option.split_asm sum.split_asm)

lemma reader_check_liveliness_fixed [fixed]:
  assumes "reader_check_liveliness now db r = Inr (db', r')"
  shows "r_fixed r' = r_fixed r"
proof -
  let ?f = "\<lambda>g (db, r). (update_remote_writer_state g EpLivelinessLost db, matched_writer_unmatch g r)"
  from assms obtain gs where "fold ?f gs (db, r) = (db', r')"
    by (auto simp: reader_check_liveliness_def elim!: rbind_Inr_E)
  moreover have "r_fixed (snd (fold ?f gs (db, r))) = r_fixed (snd (db, r))"
    by (rule fold_keeps_fixed) auto
  ultimately show ?thesis by simp
qed

section \<open>The message receiver\<close>

text \<open>The readers and writers of a participant, as far as packets cannot change them.\<close>

definition who :: "RecvState \<Rightarrow> (EntityId \<Rightarrow> (GUID \<times> ReliabilityQosKind \<times> DataReaderQosPolicies \<times> Topic) option) \<times>
    (EntityId \<Rightarrow> ((GUID \<times> ReliabilityQosKind \<times> DataWriterQosPolicies \<times> Topic) \<times> (GUID, Timestamp) btree_map) option)" where
  "who s = (\<lambda>eid. map_option r_fixed (bm_get (rs s) eid), \<lambda>eid. map_option w_kept (bm_get (ws s) eid))"

lemma who_simps [simp]:
  "who (s\<lparr>mr := m\<rparr>) = who s" "who (on_db f s) = who s"
  by (simp_all add: who_def on_db_def)

lemma who_put:
  "bm_get (rs s) eid = Some r \<Longrightarrow> r_fixed r' = r_fixed r \<Longrightarrow> who (put_reader eid r' s) = who s"
  "bm_get (ws s) eid = Some w \<Longrightarrow> w_kept w' = w_kept w \<Longrightarrow> who (put_writer eid w' s) = who s"
  by (auto simp: who_def put_reader_def put_writer_def)

lemma who_acknack [fixed]: "handle_acknack_submsg now a s = Inr (s', x) \<Longrightarrow> who s' = who s"
  by (auto simp: handle_acknack_submsg_def elim!: rbind_Inr_E split: if_split_asm option.split_asm
      simp: who_put dest!: fixed)

lemma who_deliver_gap [fixed]: "deliver_gap g gap eid s = Inr s' \<Longrightarrow> who s' = who s"
  by (auto simp: deliver_gap_def elim!: rbind_Inr_E split: option.split_asm simp: who_put dest!: fixed)

lemma who_gap [fixed]:
  assumes "handle_gap_submsg gap f s = Inr (s', x)"
  shows "who s' = who s"
proof -
  have "rfold (\<lambda>eid s. if knows wg s eid then deliver_gap wg gap eid s else Inr s) ks s = Inr t \<Longrightarrow> who t = who s"
    for wg ks t by (erule rfold_fixed) (auto split: if_split_asm dest: fixed)
  with assms show ?thesis
    by (auto simp: handle_gap_submsg_def Let_def elim!: rbind_Inr_E split: if_split_asm dest: fixed)
qed

lemma who_heartbeat_to [fixed]:
  "heartbeat_to ts wg f hb (Inr s) eid s = Inr s' \<Longrightarrow> who s' = who s"
  "heartbeat_to ts wg f hb (Inl e) eid s = Inr s' \<Longrightarrow> who s' = who s"
  by (auto simp: heartbeat_to_def deliver_heartbeat_def Let_def elim!: rbind_Inr_E
      split: option.split_asm if_split_asm simp: who_put dest!: fixed)

lemma who_heartbeat [fixed]:
  assumes "handle_heartbeat_submsg now hb f s = Inr (s', x)"
  shows "who s' = who s"
proof -
  have "rfold (heartbeat_if_known ts wg f hb) ks s = Inr t \<Longrightarrow> who t = who s" for ts wg ks t
    by (erule rfold_fixed) (auto simp: heartbeat_if_known_def split: if_split_asm dest: fixed)
  with assms show ?thesis
    by (auto simp: handle_heartbeat_submsg_def Let_def elim!: rbind_Inr_E split: if_split_asm
        dest!: who_heartbeat_to)
qed

lemma who_match_remote [fixed]:
  "match_remote_reader b re l rq d s = Inr s' \<Longrightarrow> who s' = who s"
  "match_remote_writer b re l wq d s = Inr s' \<Longrightarrow> who s' = who s"
  by (auto simp: match_remote_reader_def match_remote_writer_def elim!: rbind_Inr_E
      split: if_split_asm option.split_asm simp: who_put dest!: fixed)

lemma who_participant_discovery [fixed]: "handle_participant_discovery d s = Inr s' \<Longrightarrow> who s' = who s"
  by (auto simp: handle_participant_discovery_def elim!: rbind_Inr_E split: if_split_asm dest!: who_match_remote)

lemma who_spdp_reply [fixed]: "spdp_reply now d s = Inr s' \<Longrightarrow> who s' = who s"
  by (auto simp: spdp_reply_def elim!: rbind_Inr_E split: option.split_asm simp: who_put dest!: fixed)

lemma who_spdp [fixed]: "handle_spdp_data wr now d s = Inr (s', x) \<Longrightarrow> who s' = who s"
  by (auto simp: handle_spdp_data_def Let_def elim!: rbind_Inr_E
      split: sum.split_asm option.split_asm if_split_asm dest!: who_spdp_reply who_participant_discovery)

lemma who_match_readers [fixed]: "match_readers wp t d eids s = Inr (s', x) \<Longrightarrow> who s' = who s"
proof (induction eids arbitrary: s)
  case (Cons eid eids)
  from Cons.prems show ?case
    by (auto simp: Let_def who_put elim!: rbind_Inr_E split: option.split_asm if_split_asm
        dest!: Cons.IH dest!: fixed)
qed simp

lemma who_match_writers [fixed]: "match_writers rp t d eids s = Inr (s', x) \<Longrightarrow> who s' = who s"
proof (induction eids arbitrary: s)
  case (Cons eid eids)
  from Cons.prems show ?case
    by (auto simp: Let_def who_put elim!: rbind_Inr_E split: option.split_asm if_split_asm
        dest!: Cons.IH dest!: fixed)
qed simp

lemma who_add_to_builtin [fixed]: "add_to_builtin eid c s = Inr (s', x) \<Longrightarrow> who s' = who s"
  by (auto simp: add_to_builtin_def elim!: rbind_Inr_E split: option.split_asm simp: who_put dest!: fixed)

lemma who_sedp [fixed]:
  "handle_sedp_w_data wr d c ts s = Inr (s', x) \<Longrightarrow> who s' = who s"
  "handle_sedp_r_data wr d c s = Inr (s', x) \<Longrightarrow> who s' = who s"
  "handle_participant_message wr d c ts s = Inr (s', x) \<Longrightarrow> who s' = who s"
  by (auto simp: handle_sedp_w_data_def handle_sedp_r_data_def handle_participant_message_def Let_def
      elim!: rbind_Inr_E split: sum.split_asm option.split_asm if_split_asm
      dest!: who_match_readers who_match_writers who_add_to_builtin)

text \<open>Every endpoint is stored under its own identifier; a timer belongs to a reader.\<close>

definition keyed :: "RecvState \<Rightarrow> bool" where
  "keyed s \<longleftrightarrow> (\<forall>eid r. bm_get (rs s) eid = Some r \<longrightarrow> entity_id (r_guid r) = eid) \<and>
     (\<forall>eid w. bm_get (ws s) eid = Some w \<longrightarrow> entity_id (w_guid w) = eid)"

fun timer_reader :: "ReaderTimer \<Rightarrow> EntityId" where
  "timer_reader (RtHeartbeat eid g) = eid"
| "timer_reader (RtDeadline eid g d) = eid"
| "timer_reader (RtLifespan eid k t d) = eid"

definition own_timers :: "RecvState \<Rightarrow> ReaderTimer list \<Rightarrow> bool" where
  "own_timers s rts \<longleftrightarrow> (\<forall>rt \<in> set rts. bm_get (rs s) (timer_reader rt) \<noteq> None)"

lemma own_timers_simps [simp]:
  "own_timers s []" "own_timers s (xs @ ys) \<longleftrightarrow> own_timers s xs \<and> own_timers s ys"
  "own_timers s (or_default (some_list xs) []) \<longleftrightarrow> own_timers s xs" "own_timers s (or_default None [])"
  by (auto simp: own_timers_def some_list_def or_default_def)

lemma who_own_timers: "who s' = who s \<Longrightarrow> own_timers s' rts = own_timers s rts"
proof -
  assume "who s' = who s"
  then have "map_option r_fixed (bm_get (rs s') e) = map_option r_fixed (bm_get (rs s) e)" for e
    by (simp add: who_def fun_eq_iff)
  then have "bm_get (rs s') e = None \<longleftrightarrow> bm_get (rs s) e = None" for e
    by (metis option.map_disc_iff)
  then show ?thesis by (simp add: own_timers_def)
qed

lemma who_keyed: "who s' = who s \<Longrightarrow> keyed s' = keyed s"
proof -
  have *: "keyed s \<longleftrightarrow> (\<forall>eid x. fst (who s) eid = Some x \<longrightarrow> entity_id (fst x) = eid) \<and>
      (\<forall>eid x. snd (who s) eid = Some x \<longrightarrow> entity_id (fst (fst x)) = eid)" for s
    by (auto simp: keyed_def who_def r_fixed_def w_kept_def w_fixed_def)
  assume "who s' = who s"
  then show ?thesis unfolding * by simp
qed

lemma add_change_timers:
  "reader_add_change p c r = Inr (r', rt) \<Longrightarrow> x \<in> set (or_default rt []) \<Longrightarrow> timer_reader x = entity_id (r_guid r)"
proof -
  have *: "r_guid (rematch g r) = r_guid r" for g using r_fixed_basic(6) [of g r] by (simp add: r_fixed_def)
  show "reader_add_change p c r = Inr (r', rt) \<Longrightarrow> x \<in> set (or_default rt []) \<Longrightarrow> timer_reader x = entity_id (r_guid r)"
    by (auto simp: reader_add_change_def Let_def some_timers_def change_timers_def or_default_def * elim!: rbind_Inr_E
        split: option.split_asm if_split_asm)
qed

lemma deliver_data_timers:
  assumes "deliver_data wg c ts eid st = Inr st'" and "keyed (fst st)" and "own_timers (fst st) (snd st)"
  shows "who (fst st') = who (fst st) \<and> own_timers (fst st') (snd st')"
proof (cases "\<exists>r. bm_get (rs (fst st)) eid = Some r \<and> is_contain_writer wg r")
  case True
  then obtain r where r: "bm_get (rs (fst st)) eid = Some r" "is_contain_writer wg r" by blast
  with assms(1) obtain r' rt f where a: "reader_add_change (source_guid_prefix (mr (fst st))) c r = Inr (r', rt)"
    and st': "st' = (on_db f (put_reader eid r' (fst st)), snd st @ or_default rt [])"
    by (auto simp: deliver_data_def elim!: rbind_Inr_E)
  have w: "who (fst st') = who (fst st)" using r(1) reader_add_change_fixed [OF a] by (simp add: st' who_put)
  have "entity_id (r_guid r) = eid" using assms(2) r(1) by (simp add: keyed_def)
  then have "own_timers (fst st) (or_default rt [])"
    using add_change_timers [OF a] r(1) by (auto simp: own_timers_def)
  then show ?thesis using w assms(3) by (simp add: who_own_timers [OF w]) (simp add: st')
next
  case False
  then show ?thesis using assms by (auto simp: deliver_data_def split: option.split_asm)
qed

text \<open>A handler is orderly: the endpoints stay, and its timers belong to readers of the participant.\<close>

definition orderly :: "RecvState \<Rightarrow> RecvState \<Rightarrow> MessageError + ReaderTimer list option \<Rightarrow> bool" where
  "orderly s s' x \<longleftrightarrow> who s' = who s \<and> (\<forall>rtv. x = Inr rtv \<longrightarrow> own_timers s (or_default rtv []))"

lemma orderly_same [simp]: "orderly s s (Inr None)" "orderly s s (Inl e)"
  by (simp_all add: orderly_def)

lemma user_data_orderly:
  assumes run: "deliver_user_data ts d s = Inr (s', x)" and k: "keyed s"
  shows "orderly s s' x"
proof -
  from run obtain l ks wg c where f: "rfold (deliver_data wg c ts) ks (s, []) = Inr (s', l)" and l: "x = Inr (some_list l)"
    by (auto simp: deliver_user_data_def elim!: rbind_Inr_E)
  from f have "who (fst (s', l)) = who s \<and> own_timers (fst (s', l)) (snd (s', l))"
  proof (rule rfold_invariant)
    fix x st st' assume "who (fst st) = who s \<and> own_timers (fst st) (snd st)" "deliver_data wg c ts x st = Inr st'"
    then show "who (fst st') = who s \<and> own_timers (fst st') (snd st')"
      using deliver_data_timers who_keyed k by metis
  qed simp
  with who_own_timers [of s' s l] show ?thesis by (simp add: l orderly_def)
qed

lemma no_timers_orderly:
  assumes "no_timers m = Inr (s', x)" and "\<And>y. m = Inr (s', y) \<Longrightarrow> who s' = who s"
  shows "orderly s s' x"
  using assms by (auto simp: no_timers_def orderly_def elim!: rbind_Inr_E split: sum.split_asm)

lemma dispatch_data_orderly:
  assumes "dispatch_data wr now ts d s = Inr (s', x)" and "keyed s"
  shows "orderly s s' x"
proof -
  let ?c = "received_change ts d s"
  from assms(1) consider "no_timers (handle_spdp_data wr now d s) = Inr (s', x)"
    | "no_timers (handle_sedp_w_data wr d ?c ts s) = Inr (s', x)"
    | "no_timers (handle_sedp_r_data wr d ?c s) = Inr (s', x)"
    | "no_timers (handle_participant_message wr d ?c ts s) = Inr (s', x)"
    | "deliver_user_data ts d s = Inr (s', x)"
    unfolding dispatch_data_def Let_def by (auto split: if_split_asm)
  then show ?thesis
    by cases (erule no_timers_orderly, erule fixed, (erule no_timers_orderly, erule fixed)+,
      erule user_data_orderly, rule assms(2))
qed

lemma data_orderly:
  assumes "handle_data_submsg wr now d f s = Inr (s', x)" and "keyed s"
  shows "orderly s s' x"
proof -
  from assms(1) have "s' = s \<and> (x = Inr None \<or> x = Inl MsgWarn) \<or> (\<exists>ts. dispatch_data wr now ts d s = Inr (s', x))"
    by (auto simp: handle_data_submsg_def elim!: rbind_Inr_E split: if_split_asm)
  then show ?thesis using dispatch_data_orderly [OF _ assms(2)] by auto
qed

lemma entity_orderly:
  assumes "handle_entity_submessage wr now e s = Inr (s', x)" and "keyed s"
  shows "orderly s s' x"
proof -
  have "orderly s s' x" if "no_timers m = Inr (s', x)" "\<And>y. m = Inr (s', y) \<Longrightarrow> who s' = who s" for m
    using that by (rule no_timers_orderly)
  with assms show ?thesis
    by (cases e) (auto intro: data_orderly who_acknack who_gap who_heartbeat)
qed

lemma submessages_orderly:
  assumes "handle_submessages wr now ms s rtv = Inr (s', rtv')" and "keyed s"
  shows "who s' = who s \<and> (own_timers s rtv \<longrightarrow> own_timers s rtv')"
  using assms
proof (induction ms arbitrary: s rtv)
  case (Cons m ms)
  show ?case
  proof (cases "sub_body m")
    case (Entity e)
    with Cons.prems(1) obtain t x where t: "handle_entity_submessage wr now e s = Inr (t, x)"
      and rest: "(case x of Inl err \<Rightarrow> Inr (t, rtv) | Inr rt \<Rightarrow> handle_submessages wr now ms t (rtv @ or_default rt [])) =
        Inr (s', rtv')"
      by (auto elim!: rbind_Inr_E)
    note ord = entity_orderly [OF t Cons.prems(2), unfolded orderly_def]
    then have k: "keyed t" using who_keyed Cons.prems(2) by blast
    show ?thesis
    proof (cases x)
      case (Inr rt)
      with rest have "handle_submessages wr now ms t (rtv @ or_default rt []) = Inr (s', rtv')" by simp
      from Cons.IH [OF this k] ord Inr who_own_timers [of t s] show ?thesis by auto
    qed (use rest ord in auto)
  next
    case (Interpreter i)
    obtain m' x where i: "handle_interpreter_submessage i (mr s) = (m', x)" by fastforce
    have k: "keyed (s\<lparr>mr := m'\<rparr>)" using who_keyed [of "s\<lparr>mr := m'\<rparr>" s] Cons.prems(2) by simp
    show ?thesis
    proof (cases x)
      case (Inr u)
      with Cons.prems(1) Interpreter i have "handle_submessages wr now ms (s\<lparr>mr := m'\<rparr>) rtv = Inr (s', rtv')" by simp
      from Cons.IH [OF this k] show ?thesis by (simp add: own_timers_def)
    qed (use Cons.prems(1) Interpreter i in auto)
  qed
qed simp

lemma packets_orderly:
  assumes run: "handle_packet wr now packets s = Inr (s', rtv)" and k: "keyed s"
  shows "who s' = who s \<and> own_timers s' (or_default rtv [])"
proof -
  let ?f = "\<lambda>bytes (s, rtv). if packet_ignored bytes then Inr (s, rtv)
      else rbind (read_message wr bytes) (\<lambda>m. case m of None \<Rightarrow> Inr (s, rtv) | Some msg \<Rightarrow>
        rbind (handle_parsed_packet wr now msg s) (\<lambda>(s', rt). Inr (s', rtv @ or_default rt [])))"
  from run obtain l where f: "rfold ?f packets (s, []) = Inr (s', l)" and l: "rtv = some_list l"
    by (auto simp: handle_packet_def rbind_Inr_iff)
  have parsed: "who u' = who u \<and> own_timers u (or_default rt [])"
    if "handle_parsed_packet wr now msg u = Inr (u', rt)" "keyed u" for msg u u' rt
  proof -
    from that(1) obtain m v where "handle_submessages wr now (submessages msg) (u\<lparr>mr := m\<rparr>) [] = Inr (u', v)"
      and v: "rt = some_list v"
      by (auto simp: handle_parsed_packet_def Let_def elim!: rbind_Inr_E)
    from submessages_orderly [OF this(1)] who_keyed [of "u\<lparr>mr := m\<rparr>" u] that(2)
      who_own_timers [of "u\<lparr>mr := m\<rparr>" u v] show ?thesis by (simp add: v)
  qed
  from f have "who (fst (s', l)) = who s \<and> own_timers s (snd (s', l))"
  proof (rule rfold_invariant)
    fix b st st' assume st: "who (fst st) = who s \<and> own_timers s (snd st)" "?f b st = Inr st'"
    obtain u v where u: "st = (u, v)" by fastforce
    have "keyed u" using st(1) who_keyed [of u s] k by (simp add: u)
    with st(2) parsed [of _ u] st(1) who_own_timers [of u s] show "who (fst st') = who s \<and> own_timers s (snd st')"
      unfolding u by (fastforce elim!: rbind_Inr_E split: if_split_asm option.split_asm)
  qed simp
  with who_own_timers [of s' s l] show ?thesis by (simp add: l)
qed

end
