(* ===== verification/Umber_LoopInv.thy ===== *)
theory Umber_LoopInv
  imports Umber_Identity
begin

text \<open>
  The invariant of the event loop and its preservation by every event. \<open>recv_inv\<close> collects the
  invariants of the endpoints and of the discovery data base, \<open>loop_ok\<close> adds that every timer that was
  set belongs to an endpoint that exists.
\<close>

section \<open>Endpoints and data base\<close>

definition recv_inv :: "RecvState \<Rightarrow> bool" where
  "recv_inv s \<longleftrightarrow> bm_wf (ws s) \<and> bm_wf (rs s) \<and> db_inv (disc_db (mr s)) \<and> keyed s \<and>
     (\<forall>eid w. bm_get (ws s) eid = Some w \<longrightarrow> w_is_reliable w \<longrightarrow> writer_inv w) \<and>
     (\<forall>eid r. bm_get (rs s) eid = Some r \<longrightarrow> reader_inv r)"

lemma w_fixed_D:
  assumes "w_fixed w' = w_fixed w"
  shows "w_guid w' = w_guid w" and "w_is_reliable w' = w_is_reliable w" and "w_qos w' = w_qos w"
  using assms by (auto simp: w_fixed_def w_is_reliable_def)

lemma r_fixed_D: "r_fixed r' = r_fixed r \<Longrightarrow> r_guid r' = r_guid r"
  by (simp add: r_fixed_def)

lemma recv_invD:
  assumes "recv_inv s"
  shows "keyed s" and "db_inv (disc_db (mr s))"
    and "bm_get (ws s) eid = Some w \<Longrightarrow> w_is_reliable w \<Longrightarrow> writer_inv w"
    and "bm_get (ws s) eid = Some w \<Longrightarrow> entity_id (w_guid w) = eid"
    and "bm_get (rs s) eid = Some r \<Longrightarrow> reader_inv r"
    and "bm_get (rs s) eid = Some r \<Longrightarrow> entity_id (r_guid r) = eid"
  using assms by (auto simp: recv_inv_def keyed_def)

lemma recv_put_writer:
  assumes "recv_inv s" and "bm_get (ws s) eid = Some w" and "w_fixed w' = w_fixed w"
    and "writer_inv w \<Longrightarrow> writer_inv w'"
  shows "recv_inv (put_writer eid w' s)"
  using assms w_fixed_D [OF assms(3)] by (auto simp: recv_inv_def put_writer_def keyed_def)

lemma recv_put_reader:
  assumes "recv_inv s" and "bm_get (rs s) eid = Some r" and "r_fixed r' = r_fixed r"
    and "reader_inv r \<Longrightarrow> reader_inv r'"
  shows "recv_inv (put_reader eid r' s)"
  using assms r_fixed_D [OF assms(3)] by (auto simp: recv_inv_def put_reader_def keyed_def)

lemma recv_on_db:
  assumes "recv_inv s" and "db_inv (disc_db (mr s)) \<Longrightarrow> db_inv (f (disc_db (mr s)))"
  shows "recv_inv (on_db f s)"
  using assms by (auto simp: recv_inv_def on_db_def keyed_def)

lemma recv_mr: "recv_inv s \<Longrightarrow> disc_db m = disc_db (mr s) \<Longrightarrow> recv_inv (s\<lparr>mr := m\<rparr>)"
  by (auto simp: recv_inv_def keyed_def)

lemma recv_proceeds:
  assumes inv: "recv_inv s" and pr: "proceeds s s'" and wh: "who s' = who s"
  shows "recv_inv s'"
proof -
  have keys: "bm_keys (ws s') = bm_keys (ws s)" "bm_keys (rs s') = bm_keys (rs s)" using pr by (auto simp: proceeds_def)
  have "writer_inv w'" if w': "bm_get (ws s') eid = Some w'" "w_is_reliable w'" for eid w'
  proof -
    from wh have "map_option w_kept (bm_get (ws s') eid) = map_option w_kept (bm_get (ws s) eid)"
      by (simp add: who_def fun_eq_iff)
    with w'(1) obtain w where w: "bm_get (ws s) eid = Some w" "w_fixed w' = w_fixed w"
      by (auto simp: map_option_eq_Some w_kept_def dest: sym)
    with w'(2) inv have "writer_inv w" using w_fixed_D(2) recv_invD(3) by metis
    with pr w(1) w'(1) show ?thesis unfolding proceeds_def by (metis evolves_inv option.inject)
  qed
  moreover have "reader_inv r'" if r': "bm_get (rs s') eid = Some r'" for eid r'
  proof -
    from wh have "map_option r_fixed (bm_get (rs s') eid) = map_option r_fixed (bm_get (rs s) eid)"
      by (simp add: who_def fun_eq_iff)
    with r' obtain r where "bm_get (rs s) eid = Some r" by (auto simp: map_option_eq_Some dest: sym)
    with recv_invD(5) [OF inv] pr r' show ?thesis unfolding proceeds_def by (metis option.inject)
  qed
  moreover have "bm_wf (ws s')" "bm_wf (rs s')" using inv keys by (simp_all add: recv_inv_def bm_wf_def)
  moreover have "keyed s'" using who_keyed [OF wh] recv_invD(1) [OF inv] by simp
  moreover have "db_inv (disc_db (mr s'))" using pr recv_invD(2) [OF inv] by (simp add: proceeds_def)
  ultimately show ?thesis unfolding recv_inv_def by blast
qed

text \<open>The cache of a writer knows when the writer was last active: since \<^verbatim>\<open>Writer::new\<close>.\<close>

definition stamped :: "Writer \<Rightarrow> bool" where
  "stamped w \<longleftrightarrow> get_last_added_ts (w_guid w) (writer_cache w) \<noteq> None"

lemma w_kept_stamped: "w_kept w' = w_kept w \<Longrightarrow> stamped w' = stamped w"
  by (simp add: w_kept_def w_fixed_def stamped_def get_last_added_ts_def)

section \<open>Timers\<close>

definition timer_fits :: "EntityId set \<Rightarrow> EntityId set \<Rightarrow> bool \<Rightarrow> TimerState \<Rightarrow> bool" where
  "timer_fits R W watching st \<longleftrightarrow>
     (case st of
        ReaderDeadline eid g d \<Rightarrow> eid \<in> R
      | ReaderLifespan eid k \<Rightarrow> eid \<in> R
      | WriterDeadline eid d \<Rightarrow> eid \<in> W
      | CheckLive gs \<Rightarrow> watching
      | _ \<Rightarrow> True)"

definition timers_fit :: "EntityId set \<Rightarrow> EntityId set \<Rightarrow> bool \<Rightarrow> TimerReq list \<Rightarrow> bool" where
  "timers_fit R W watching ts \<longleftrightarrow> (\<forall>d st. SetTimeout d st \<in> set ts \<longrightarrow> timer_fits R W watching st)"

lemma timer_fits_simps [simp]:
  "timer_fits R W c (WriterHb e)" "timer_fits R W c (ReaderHb e g)" "timer_fits R W c (WriterNack e g)"
  "timer_fits R W c (Wlp e)" "timer_fits R W c AssertLive"
  "timer_fits R W c (ReaderDeadline e g d) \<longleftrightarrow> e \<in> R" "timer_fits R W c (ReaderLifespan e k) \<longleftrightarrow> e \<in> R"
  "timer_fits R W c (WriterDeadline e d) \<longleftrightarrow> e \<in> W" "timer_fits R W c (CheckLive gs) \<longleftrightarrow> c"
  by (simp_all add: timer_fits_def)

lemma timers_fit_simps [simp]:
  "timers_fit R W c []" "timers_fit R W c (xs @ ys) \<longleftrightarrow> timers_fit R W c xs \<and> timers_fit R W c ys"
  "timers_fit R W c [SetTimeout d st] \<longleftrightarrow> timer_fits R W c st" "timers_fit R W c [CancelTimeout to]"
  by (auto simp: timers_fit_def)

lemma timer_fits_mono: "timer_fits R W c st \<Longrightarrow> R \<subseteq> R' \<Longrightarrow> W \<subseteq> W' \<Longrightarrow> (c \<longrightarrow> c') \<Longrightarrow> timer_fits R' W' c' st"
  by (cases st) auto

lemma timers_fit_mono: "timers_fit R W c ts \<Longrightarrow> R \<subseteq> R' \<Longrightarrow> W \<subseteq> W' \<Longrightarrow> (c \<longrightarrow> c') \<Longrightarrow> timers_fit R' W' c' ts"
  unfolding timers_fit_def using timer_fits_mono by blast

text \<open>
  The ingredients of an endpoint come with the cache it shares with the application, which may already
  have written to it.
\<close>

definition fresh_writer :: "WriterIngredients \<Rightarrow> bool" where
  "fresh_writer wi \<longleftrightarrow> (wi_reliability_level wi = Reliable \<longrightarrow> cache_ok (wi_guid wi) (wi_whc wi))"

definition fresh_reader :: "ReaderIngredients \<Rightarrow> bool" where
  "fresh_reader ri \<longleftrightarrow> hc_inv (ri_rhc ri) \<and> hc_type (ri_rhc ri) = HCReader"

text \<open>
  The endpoints in the table \<open>E\<close> are there, as they were registered, and no new endpoint takes the
  identifier of one of them. While an endpoint is being registered its timers are set before it is stored: \<open>W\<close>.
\<close>

type_synonym w_identity = "GUID \<times> ReliabilityQosKind \<times> DataWriterQosPolicies \<times> Topic"

definition wi_fixed :: "WriterIngredients \<Rightarrow> w_identity" where
  "wi_fixed wi = (wi_guid wi, wi_reliability_level wi, wi_qos wi, wi_topic wi)"

type_synonym r_identity = "GUID \<times> ReliabilityQosKind \<times> DataReaderQosPolicies \<times> Topic"

definition ri_fixed :: "ReaderIngredients \<Rightarrow> r_identity" where
  "ri_fixed ri = (ri_guid ri, ri_reliability_level ri, ri_qos ri, ri_topic ri)"

record Table =
  tw :: "EntityId \<rightharpoonup> w_identity"
  tr :: "EntityId \<rightharpoonup> r_identity"

definition established :: "Table \<Rightarrow> EventLoop \<Rightarrow> bool" where
  "established E el \<longleftrightarrow> (\<forall>eid x. tw E eid = Some x \<longrightarrow> map_option w_fixed (bm_get (el_writers el) eid) = Some x) \<and>
     (\<forall>eid x. tr E eid = Some x \<longrightarrow> map_option r_fixed (bm_get (el_readers el) eid) = Some x) \<and>
     list_all (\<lambda>wi. tw E (entity_id (wi_guid wi)) = None) (create_writer_receiver el) \<and>
     list_all (\<lambda>ri. tr E (entity_id (ri_guid ri)) = None) (create_reader_receiver el)"

definition loop_ok :: "Table \<Rightarrow> EntityId set \<Rightarrow> EventLoop \<Rightarrow> bool" where
  "loop_ok E W el \<longleftrightarrow> recv_inv (el_recv el) \<and> established E el \<and>
     timers_fit (dom (bm_get (el_readers el))) (dom (bm_get (el_writers el)) \<union> W)
       (check_liveliness_timer_to el \<noteq> None) (el_timers el) \<and>
     (\<forall>eid w. bm_get (el_writers el) eid = Some w \<longrightarrow> stamped w) \<and>
     list_all fresh_writer (create_writer_receiver el) \<and> list_all fresh_reader (create_reader_receiver el)"

definition loop_inv :: "Table \<Rightarrow> EventLoop \<Rightarrow> bool" where
  "loop_inv E el \<longleftrightarrow> loop_ok E {} el"

lemma el_simps [simp]:
  "el_recv (set_timeout d st el) = el_recv el" "el_recv (cancel_timeout to el) = el_recv el"
  "el_recv (on_recv f el) = f (el_recv el)"
  "check_liveliness_timer_to (set_timeout d st el) = check_liveliness_timer_to el"
  "check_liveliness_timer_to (cancel_timeout to el) = check_liveliness_timer_to el"
  "check_liveliness_timer_to (on_recv f el) = check_liveliness_timer_to el"
  "el_timers (set_timeout d st el) = el_timers el @ [SetTimeout d st]"
  "el_timers (cancel_timeout to el) = el_timers el @ [CancelTimeout to]" "el_timers (on_recv f el) = el_timers el"
  "el_guid_prefix (on_recv f el) = el_guid_prefix el"
  "create_writer_receiver (set_timeout d st el) = create_writer_receiver el"
  "create_writer_receiver (cancel_timeout to el) = create_writer_receiver el"
  "create_writer_receiver (on_recv f el) = create_writer_receiver el"
  "create_reader_receiver (set_timeout d st el) = create_reader_receiver el"
  "create_reader_receiver (cancel_timeout to el) = create_reader_receiver el"
  "create_reader_receiver (on_recv f el) = create_reader_receiver el"
  by (simp_all add: set_timeout_def cancel_timeout_def on_recv_def)

lemma loop_ok_set_timeout:
  "loop_ok E W (set_timeout d st el) \<longleftrightarrow> loop_ok E W el \<and>
     timer_fits (dom (bm_get (el_readers el))) (dom (bm_get (el_writers el)) \<union> W)
       (check_liveliness_timer_to el \<noteq> None) st"
  by (auto simp: loop_ok_def established_def el_readers_def el_writers_def)

lemma loop_ok_simps [simp]:
  "loop_ok E W (cancel_timeout to el) = loop_ok E W el"
  "loop_ok E W (el\<lparr>reader_deadline_timeout := a\<rparr>) = loop_ok E W el"
  "loop_ok E W (el\<lparr>writer_deadline_timeout := b\<rparr>) = loop_ok E W el"
  "loop_ok E W (el\<lparr>wlp_timeouts := c\<rparr>) = loop_ok E W el"
  "loop_ok E W (el\<lparr>notify_new_writer_sender := nw\<rparr>) = loop_ok E W el"
  "loop_ok E W (el\<lparr>notify_new_reader_sender := nr\<rparr>) = loop_ok E W el"
  "loop_ok E W (el\<lparr>discdb_update_receiver := du\<rparr>) = loop_ok E W el"
  by (simp_all add: loop_ok_def established_def el_readers_def el_writers_def)

lemma loop_ok_drained:
  "loop_ok E W el \<Longrightarrow> loop_ok E W (el\<lparr>create_writer_receiver := []\<rparr>)"
  "loop_ok E W el \<Longrightarrow> loop_ok E W (el\<lparr>create_reader_receiver := []\<rparr>)"
  by (simp_all add: loop_ok_def established_def el_readers_def el_writers_def)

lemma loop_ok_recv: "loop_ok E W el \<Longrightarrow> recv_inv (el_recv el)"
  by (simp add: loop_ok_def)

lemma same_dom:
  assumes "\<And>eid. map_option f (m eid) = map_option f (m' eid)"
  shows "dom m = dom m'"
proof -
  have "m eid = None \<longleftrightarrow> m' eid = None" for eid using assms [of eid] by (cases "m eid"; cases "m' eid") auto
  then show ?thesis by (auto simp: dom_def)
qed

lemma same_kept:
  assumes "map_option w_kept x' = map_option w_kept x"
  shows "map_option w_fixed x' = map_option w_fixed x" and "x' = Some w' \<Longrightarrow> \<exists>w. x = Some w \<and> stamped w' = stamped w"
proof -
  have *: "map_option w_fixed y = map_option fst (map_option w_kept y)" for y
    by (cases y) (simp_all add: w_kept_def)
  show "map_option w_fixed x' = map_option w_fixed x" unfolding * assms ..
  assume "x' = Some w'"
  with assms obtain w where "x = Some w" "w_kept w' = w_kept w" by (cases x) auto
  with w_kept_stamped show "\<exists>w. x = Some w \<and> stamped w' = stamped w" by blast
qed

lemma loop_ok_recv_like:
  assumes "loop_ok E W el" and "recv_inv (el_recv el) \<Longrightarrow> recv_inv s"
    and same_r: "\<And>eid. map_option r_fixed (bm_get (rs s) eid) = map_option r_fixed (bm_get (rs (el_recv el)) eid)"
    and same: "\<And>eid. map_option w_fixed (bm_get (ws s) eid) = map_option w_fixed (bm_get (ws (el_recv el)) eid)"
    and stamps: "\<And>eid w. bm_get (ws s) eid = Some w \<Longrightarrow> stamped w"
  shows "loop_ok E W (el\<lparr>el_recv := s\<rparr>)"
proof -
  have "dom (bm_get (ws s)) = dom (bm_get (ws (el_recv el)))" by (rule same_dom) (rule same)
  moreover have "dom (bm_get (rs s)) = dom (bm_get (rs (el_recv el)))" by (rule same_dom) (rule same_r)
  ultimately show ?thesis using assms by (simp add: loop_ok_def established_def el_readers_def el_writers_def)
qed

lemma loop_ok_on_recv:
  assumes "loop_ok E W el" and "recv_inv (el_recv el) \<Longrightarrow> recv_inv (f (el_recv el))"
    and same_r: "\<And>eid. map_option r_fixed (bm_get (rs (f (el_recv el))) eid) = map_option r_fixed (bm_get (rs (el_recv el)) eid)"
    and same: "\<And>eid. map_option w_kept (bm_get (ws (f (el_recv el))) eid) = map_option w_kept (bm_get (ws (el_recv el)) eid)"
  shows "loop_ok E W (on_recv f el)"
proof -
  have "stamped w" if "bm_get (ws (f (el_recv el))) eid = Some w" for eid w
    using same_kept(2) [OF same that] assms(1) by (auto simp: loop_ok_def el_writers_def)
  then show ?thesis
    unfolding on_recv_def using assms(1,2) same_r same_kept(1) [OF same] by (intro loop_ok_recv_like)
qed

lemma loop_ok_put_writer:
  assumes "loop_ok E W el" and "bm_get (el_writers el) eid = Some w" and "w_fixed w' = w_fixed w"
    and "writer_inv w \<Longrightarrow> writer_inv w'" and "stamped w \<Longrightarrow> stamped w'"
  shows "loop_ok E W (put_writer_at eid w' el)"
  unfolding put_writer_at_def on_recv_def
proof (rule loop_ok_recv_like [OF assms(1)])
  show "recv_inv (el_recv el) \<Longrightarrow> recv_inv (put_writer eid w' (el_recv el))"
    by (rule recv_put_writer [OF _ assms(2) [unfolded el_writers_def] assms(3,4)])
qed (use assms(1,2,3,5) in \<open>auto simp: put_writer_def el_writers_def loop_ok_def split: if_split_asm\<close>)

lemma loop_ok_put_kept:
  assumes "loop_ok E W el" and "bm_get (el_writers el) eid = Some w" and "w_kept w' = w_kept w"
    and "writer_inv w \<Longrightarrow> writer_inv w'"
  shows "loop_ok E W (put_writer_at eid w' el)"
  using loop_ok_put_writer [OF assms(1,2) w_kept_D [OF assms(3)] assms(4)] w_kept_stamped [OF assms(3)] by blast

lemma loop_ok_put_reader:
  assumes "loop_ok E W el" and "bm_get (el_readers el) eid = Some r" and "r_fixed r' = r_fixed r"
    and "reader_inv r \<Longrightarrow> reader_inv r'"
  shows "loop_ok E W (put_reader_at eid r' el)"
  unfolding put_reader_at_def
proof (rule loop_ok_on_recv [OF assms(1)])
  show "recv_inv (el_recv el) \<Longrightarrow> recv_inv (put_reader eid r' (el_recv el))"
    by (rule recv_put_reader [OF _ assms(2) [unfolded el_readers_def] assms(3,4)])
qed (use assms(2,3) in \<open>auto simp: put_reader_def el_readers_def\<close>)

lemma write_local_writer_inv: "db_inv db \<Longrightarrow> db_inv (write_local_writer g ts k db)"
  unfolding write_local_writer_def update_liveliness_with_guid_prefix_def Let_def
  by (auto intro!: refresh_writers_inv) (simp_all add: db_inv_def)

lemma loop_ok_db: "loop_ok E W el \<Longrightarrow> (\<And>db. db_inv db \<Longrightarrow> db_inv (f db)) \<Longrightarrow> loop_ok E W (on_recv (on_db f) el)"
  by (erule loop_ok_on_recv) (erule recv_on_db, simp, simp_all add: on_db_def)

lemma loop_ok_alive: "loop_ok E W el \<Longrightarrow> loop_ok E W (writer_seen_alive t g w el)"
  unfolding writer_seen_alive_def by (erule loop_ok_db) (rule write_local_writer_inv)

lemma el_get_simps [simp]:
  "el_readers (set_timeout d st el) = el_readers el" "el_writers (set_timeout d st el) = el_writers el"
  "el_readers (cancel_timeout to el) = el_readers el" "el_writers (cancel_timeout to el) = el_writers el"
  "el_readers (on_recv (on_db f) el) = el_readers el" "el_writers (on_recv (on_db f) el) = el_writers el"
  "el_readers (writer_seen_alive t g w el) = el_readers el" "el_writers (writer_seen_alive t g w el) = el_writers el"
  "el_readers (put_writer_at eid w el) = el_readers el" "el_writers (put_reader_at eid r el) = el_writers el"
  "el_readers (put_reader_at eid r el) = bm_adjust eid (\<lambda>_. r) (el_readers el)"
  "el_writers (put_writer_at eid w el) = bm_adjust eid (\<lambda>_. w) (el_writers el)"
  by (simp_all add: el_readers_def el_writers_def writer_seen_alive_def put_writer_at_def put_reader_at_def
      put_writer_def put_reader_def on_db_def)

section \<open>The handlers\<close>

lemma rfold_loop_ok:
  assumes "rfold f xs el = Inr el'" and "loop_ok E W el"
    and "\<And>x el el'. x \<in> set xs \<Longrightarrow> loop_ok E W el \<Longrightarrow> f x el = Inr el' \<Longrightarrow> loop_ok E W el'"
  shows "loop_ok E W el'"
  using assms by (rule rfold_invariant)

lemma set_reader_timer_ok:
  assumes "set_reader_timer now rt el = Inr el'" and "loop_ok E W el"
    and "bm_get (el_readers el) (timer_reader rt) \<noteq> None"
  shows "loop_ok E W el' \<and> el_readers el' = el_readers el"
  using assms
  by (cases rt) (auto simp: set_reader_timer_def loop_ok_set_timeout Let_def el_readers_def elim!: rbind_Inr_E
      split: option.split_asm)

lemma handle_set_reader_timer_ok:
  assumes "handle_set_reader_timer now rts el = Inr el'" and "loop_ok E W el"
    and "\<forall>rt \<in> set rts. bm_get (el_readers el) (timer_reader rt) \<noteq> None"
  shows "loop_ok E W el'"
proof -
  have step: "loop_ok E W v \<and> el_readers v = el_readers el"
    if "rt \<in> set rts" "loop_ok E W u \<and> el_readers u = el_readers el" "set_reader_timer now rt u = Inr v" for rt u v
    using set_reader_timer_ok [OF that(3), of E W] that(1,2) assms(3) by simp
  from assms(1) [unfolded handle_set_reader_timer_def]
  have "loop_ok E W el' \<and> el_readers el' = el_readers el"
    by (rule rfold_invariant) (use assms(2) in simp, rule step)
  then show ?thesis by simp
qed

text \<open>The fields of the event loop that timers do not touch.\<close>

definition el_rest :: "EventLoop \<Rightarrow> RecvState \<times> WriterIngredients list \<times> ReaderIngredients list" where
  "el_rest el = (el_recv el, create_writer_receiver el, create_reader_receiver el)"

lemma el_rest_simps [simp]:
  "el_rest (set_timeout d st el) = el_rest el" "el_rest (cancel_timeout to el) = el_rest el"
  "el_rest (el\<lparr>reader_deadline_timeout := a\<rparr>) = el_rest el" "el_rest (el\<lparr>writer_deadline_timeout := b\<rparr>) = el_rest el"
  "el_rest (el\<lparr>wlp_timeouts := c\<rparr>) = el_rest el" "el_rest (el\<lparr>check_liveliness_timer_to := ck\<rparr>) = el_rest el"
  "el_rest (el\<lparr>notify_new_writer_sender := nw\<rparr>) = el_rest el" "el_rest (el\<lparr>notify_new_reader_sender := nr\<rparr>) = el_rest el"
  by (simp_all add: el_rest_def set_timeout_def cancel_timeout_def)

lemma el_rest_writers: "el_rest u = el_rest v \<Longrightarrow> el_writers u = el_writers v"
  by (simp add: el_rest_def el_writers_def)

lemma set_writer_timer_ok:
  assumes "set_writer_timer wt el = Inr el'" and "loop_ok E W el"
    and "\<And>e d. wt = TDeadline e d \<Longrightarrow> e \<in> dom (bm_get (el_writers el)) \<union> W"
  shows "loop_ok E W el' \<and> el_rest el' = el_rest el"
proof (cases wt)
  case (TNack e g)
  with assms show ?thesis
    by (auto simp: set_writer_timer_def loop_ok_set_timeout elim!: rbind_Inr_E split: option.split_asm)
next
  case (TDeadline e d)
  with assms show ?thesis
    by (auto simp: set_writer_timer_def loop_ok_set_timeout Let_def split: option.split_asm)
qed

lemma handle_set_writer_timer_ok:
  assumes "handle_set_writer_timer wts el = Inr el'" and "loop_ok E W el"
    and "\<And>e d. TDeadline e d \<in> set wts \<Longrightarrow> e \<in> dom (bm_get (el_writers el)) \<union> W"
  shows "loop_ok E W el' \<and> el_rest el' = el_rest el"
proof -
  have step: "loop_ok E W v \<and> el_rest v = el_rest el"
    if "wt \<in> set wts" "loop_ok E W u \<and> el_rest u = el_rest el" "set_writer_timer wt u = Inr v" for wt u v
  proof -
    have "el_writers u = el_writers el" using that(2) by (intro el_rest_writers) simp
    then have "e \<in> dom (bm_get (el_writers u)) \<union> W" if "wt = TDeadline e d" for e d
      using assms(3) [of e d] \<open>wt \<in> set wts\<close> that by simp
    with set_writer_timer_ok [OF that(3), of E W] that(2) show ?thesis by simp
  qed
  from assms(1) [unfolded handle_set_writer_timer_def] show ?thesis
    by (rule rfold_invariant) (use assms(2) in simp, rule step)
qed

lemma receiv_packet_datagrams:
  "receiv_packet res = Inr packets \<Longrightarrow> set packets \<subseteq> {bytes. Datagram bytes \<in> set res}"
  by (induction res arbitrary: packets rule: receiv_packet.induct) (auto elim!: rbind_Inr_E)

lemma handle_socket_ok:
  assumes ok: "loop_ok E W el" and run: "handle_socket wr p token el = Inr el'"
    and range: "\<And>bytes msg. Datagram bytes \<in> set (incoming p) \<Longrightarrow> read_message wr bytes = Inr (Some msg) \<Longrightarrow>
      list_all in_range (submessages msg)"
  shows "loop_ok E W el'"
proof (cases "token \<in> set (el_sockets el)")
  case True
  with run obtain packets s rtv where pk: "receiv_packet (incoming p) = Inr packets"
    and h: "handle_packet wr (clock p) packets (el_recv el) = Inr (s, rtv)"
    and rest: "(case rtv of Some rts \<Rightarrow> handle_set_reader_timer (clock p) rts (el\<lparr>el_recv := s\<rparr>)
      | None \<Rightarrow> Inr (el\<lparr>el_recv := s\<rparr>)) = Inr el'"
    by (auto simp: handle_socket_def Let_def elim!: rbind_Inr_E)
  with receiv_packet_datagrams [OF pk] range have "\<forall>bytes \<in> set packets. \<forall>msg. read_message wr bytes = Inr (Some msg) \<longrightarrow>
      list_all in_range (submessages msg)" by blast
  note pr = packets_proceed [OF this h] packets_orderly [OF h recv_invD(1) [OF loop_ok_recv [OF ok]]]
  then have "recv_inv s" using recv_proceeds loop_ok_recv [OF ok] by blast
  moreover have "map_option w_kept (bm_get (ws s) eid) = map_option w_kept (bm_get (ws (el_recv el)) eid)"
    "map_option r_fixed (bm_get (rs s) eid) = map_option r_fixed (bm_get (rs (el_recv el)) eid)" for eid
    using pr(2) unfolding who_def fun_eq_iff prod.inject by blast+
  ultimately have "loop_ok E W (el\<lparr>el_recv := s\<rparr>)"
    using loop_ok_on_recv [OF ok, of "\<lambda>_. s"] by (simp add: on_recv_def)
  moreover have "\<forall>rt \<in> set rts. bm_get (el_readers (el\<lparr>el_recv := s\<rparr>)) (timer_reader rt) \<noteq> None" if "rtv = Some rts" for rts
    using pr(2) that by (simp add: own_timers_def el_readers_def or_default_def)
  ultimately show ?thesis
    using rest handle_set_reader_timer_ok by (auto split: option.split_asm)
qed (use ok run in \<open>auto simp: handle_socket_def\<close>)

lemma set_heartbeat_timer_ok: "set_heartbeat_timer w el = Inr el' \<Longrightarrow> loop_ok E W el \<Longrightarrow> loop_ok E W el' \<and> el_rest el' = el_rest el"
  by (auto simp: set_heartbeat_timer_def loop_ok_set_timeout elim!: rbind_Inr_E)

lemma writer_heartbeat_fired_ok:
  assumes "loop_ok E W el" and "writer_heartbeat_fired now st el = Inr el'"
  shows "loop_ok E W el'"
proof (cases "\<exists>eid w. st = WriterHb eid \<and> bm_get (el_writers el) eid = Some w")
  case True
  then obtain eid w where w: "st = WriterHb eid" "bm_get (el_writers el) eid = Some w" by blast
  with assms(2) obtain w' where "send_heart_beat now False w = Inr w'"
    "set_heartbeat_timer w' (put_writer_at eid w' el) = Inr el'"
    by (auto simp: writer_heartbeat_fired_def elim!: rbind_Inr_E)
  moreover from this have "loop_ok E W (put_writer_at eid w' el)"
    by (intro loop_ok_put_kept [OF assms(1) w(2)]) (auto intro: fixed evolves_inv send_heart_beat_evolves)
  ultimately show ?thesis using set_heartbeat_timer_ok by blast
qed (use assms in \<open>auto simp: writer_heartbeat_fired_def split: TimerState.split_asm option.split_asm\<close>)

lemma reader_deadline_fired_ok:
  assumes "loop_ok E W el" and "reader_deadline_fired st el = Inr el'"
  shows "loop_ok E W el'"
proof -
  have "loop_ok E W (put_reader_at eid (notify_reqested_deadline_missed g r) el)"
    if "bm_get (el_readers el) eid = Some r" for eid g r
    by (intro loop_ok_put_reader [OF assms(1) that]) (auto simp: notify_reqested_deadline_missed_def)
  with assms show ?thesis
    by (auto simp: reader_deadline_fired_def Let_def loop_ok_set_timeout
        split: TimerState.split_asm option.split_asm)
qed

lemma reader_lifespan_fired_ok:
  assumes "loop_ok E W el" and "reader_lifespan_fired st el = Inr el'"
  shows "loop_ok E W el'"
proof -
  have "reader_inv (reader_remove_change_if_exist k r)" if "reader_inv r" for k r
    using reader_step_inv [OF rs_lifespan that] .
  with assms show ?thesis
    by (auto simp: reader_lifespan_fired_def intro!: loop_ok_put_reader split: TimerState.split_asm option.split_asm)
qed

lemma writer_deadline_fired_ok:
  assumes "loop_ok E W el" and "writer_deadline_fired st el = Inr el'"
  shows "loop_ok E W el'"
proof -
  have "loop_ok E W (put_writer_at eid (notify_offered_deadline_missed w) el)"
    if "bm_get (el_writers el) eid = Some w" for eid w
    using evolves_inv [OF writer_action_evolves [OF wa_deadline]]
    by (intro loop_ok_put_kept [OF assms(1) that]) (auto simp: notify_offered_deadline_missed_def)
  with assms show ?thesis
    by (auto simp: writer_deadline_fired_def Let_def loop_ok_set_timeout
        split: TimerState.split_asm option.split_asm)
qed

lemma update_remote_writer_state_inv: "db_inv db \<Longrightarrow> db_inv (update_remote_writer_state g st db)"
  by (simp add: db_inv_def update_remote_writer_state_def)

lemma reader_check_liveliness_db:
  assumes "reader_check_liveliness now db r = Inr (db', r')" and "db_inv db"
  shows "db_inv db'"
proof -
  let ?f = "\<lambda>g (db, r). (update_remote_writer_state g EpLivelinessLost db, matched_writer_unmatch g r)"
  from assms(1) obtain gs where "fold ?f gs (db, r) = (db', r')"
    by (auto simp: reader_check_liveliness_def elim!: rbind_Inr_E)
  moreover have *: "db_inv (fst x) \<Longrightarrow> db_inv (fst (fold ?f gs x))" for x
    by (induction gs arbitrary: x) (auto simp: update_remote_writer_state_inv)
  ultimately show ?thesis using assms(2) * [of "(db, r)"] by simp
qed

lemma check_reader_ok:
  assumes "loop_ok E W el" and "bm_get (el_readers el) eid = Some r" and "check_reader now eid r el = Inr (r', el')"
  shows "loop_ok E W el' \<and> el_readers el' = bm_adjust eid (\<lambda>_. r') (el_readers el) \<and> r_guid r' = r_guid r"
proof -
  from assms(3) obtain db where c: "reader_check_liveliness now (el_db el) r = Inr (db, r')"
    and el': "el' = put_reader_at eid r' (on_recv (on_db (\<lambda>_. db)) el)"
    by (auto simp: check_reader_def elim!: rbind_Inr_E)
  have "db_inv (el_db el)" using assms(1) recv_invD(2) [OF loop_ok_recv] by (simp add: el_db_def)
  from reader_check_liveliness_db [OF c this] have "loop_ok E W (on_recv (on_db (\<lambda>_. db)) el)"
    using assms(1) by (intro loop_ok_db)
  then have "loop_ok E W el'"
    unfolding el' by (rule loop_ok_put_reader [where r = r])
      (use assms(2) c in \<open>auto intro: fixed reader_check_liveliness_keeps\<close>)
  then show ?thesis using r_fixed_D [OF reader_check_liveliness_fixed [OF c]] by (simp add: el')
qed

lemma set_wlp_timer_ok [simp]: "loop_ok E W (set_wlp_timer eid d el) = loop_ok E W el"
  by (simp add: set_wlp_timer_def loop_ok_set_timeout)

lemma wlp_fired_ok:
  assumes "loop_ok E W el" and "wlp_fired now st el = Inr el'"
  shows "loop_ok E W el'"
proof (cases "el' = el")
  case False
  with assms(2) obtain eid r r' u d where r: "bm_get (el_readers el) eid = Some r"
    "check_reader now eid r el = Inr (r', u)" "el' = set_wlp_timer (entity_id (r_guid r')) d u"
    by (auto simp: wlp_fired_def elim!: rbind_Inr_E split: TimerState.split_asm option.split_asm)
  from check_reader_ok [OF assms(1) r(1,2)] show ?thesis by (simp add: r(3))
qed (use assms in simp)

lemma set_wlp_ok:
  assumes "loop_ok E W el" and "set_wlp now eid el = Inr el'"
  shows "loop_ok E W el'"
proof -
  have "loop_ok E W el1"
    if "bm_get (el_readers el) eid = Some r" "check_reader now eid r (cancel_timeout to el) = Inr (r', el1)" for r to r' el1
    using check_reader_ok [of E W "cancel_timeout to el", OF _ _ that(2)] that(1) assms(1) by simp
  with assms show ?thesis
    by (auto simp: set_wlp_def elim!: rbind_Inr_E split: option.split_asm)
qed

lemma drain_wlp_ok:
  assumes "loop_ok E W el" and "drain_wlp now el = Inr el'"
  shows "loop_ok E W el'"
proof -
  have "loop_ok E W (on_recv (\<lambda>s. s\<lparr>mr := (mr s)\<lparr>wlp_timer_sender := []\<rparr>\<rparr>) el)"
    using assms(1) by (rule loop_ok_on_recv) (simp_all add: recv_mr)
  from rfold_loop_ok [OF assms(2) [unfolded drain_wlp_def] this set_wlp_ok] show ?thesis .
qed

lemma assert_automatic_ok:
  assumes "loop_ok E W el" and "assert_automatic now eid el = Inr el'"
  shows "loop_ok E W el'"
proof (cases "el' = el")
  case False
  with assms(2) obtain w w' t where w: "bm_get (el_writers el) eid = Some w" "assert_liveliness now w = Inr w'"
    "el' = writer_seen_alive t (w_guid w') w' (put_writer_at eid w' el)"
    by (auto simp: assert_automatic_def Let_def elim!: rbind_Inr_E
        split: option.split_asm EndpointState.split_asm if_split_asm)
  then show ?thesis
    using evolves_inv [OF assert_liveliness_evolves] assert_liveliness_fixed
    by (auto intro!: loop_ok_alive loop_ok_put_kept [OF assms(1) w(1)])
qed (use assms in simp)

lemma assert_liveliness_fired_ok:
  assumes "loop_ok E W el" and "assert_liveliness_fired now el = Inr el'"
  shows "loop_ok E W el'"
proof -
  from assms(2) obtain u where "rfold (assert_automatic now) (bm_keys (el_writers el)) el = Inr u"
    and el': "el' = set_timeout ASSERT_LIVELINESS_PERIOD AssertLive u"
    by (auto simp: assert_liveliness_fired_def elim!: rbind_Inr_E)
  from rfold_loop_ok [OF this(1) assms(1) assert_automatic_ok] show ?thesis
    by (simp add: el' loop_ok_set_timeout)
qed

lemma check_writer_ok:
  assumes "loop_ok E W el" and "check_writer now g el = Inr el'"
  shows "loop_ok E W el'"
proof (cases "bm_get (el_writers el) (entity_id g)")
  case (Some w)
  with assms(2) obtain w' where w': "check_liveliness_w now w = Inr w'" "el' = put_writer_at (entity_id g) w' el"
    by (auto simp: check_writer_def elim!: rbind_Inr_E)
  show ?thesis
    unfolding w'(2) using evolves_inv [OF check_liveliness_w_evolves [OF _ w'(1)]]
    by (intro loop_ok_put_kept [OF assms(1) Some check_liveliness_w_fixed [OF w'(1)]])
qed (use assms in \<open>simp add: check_writer_def\<close>)

lemma watch_list_ok: "loop_ok E W el \<Longrightarrow> loop_ok E W (watch_list d gs el)"
  unfolding loop_ok_def watch_list_def
  by (auto simp: established_def el_readers_def el_writers_def set_timeout_def elim: timers_fit_mono)

lemma check_liveliness_fired_ok:
  assumes "loop_ok E W el" and "check_liveliness_fired now st el = Inr el'"
  shows "loop_ok E W el'"
proof (cases "\<exists>gs. st = CheckLive gs")
  case True
  then obtain gs u d where "rfold (check_writer now) gs el = Inr u" and el': "el' = watch_list d gs u"
    using assms(2) by (auto simp: check_liveliness_fired_def elim!: rbind_Inr_E)
  from rfold_loop_ok [OF this(1) assms(1) check_writer_ok] show ?thesis by (simp add: el' watch_list_ok)
qed (use assms in \<open>auto simp: check_liveliness_fired_def split: TimerState.split_asm\<close>)

lemma reader_heartbeat_fired_ok:
  assumes "loop_ok E W el" and "reader_heartbeat_fired st el = Inr el'"
  shows "loop_ok E W el'"
proof (cases "el' = el")
  case False
  with assms(2) obtain eid r g r' where r: "bm_get (el_readers el) eid = Some r"
    "handle_hb_response_timeout g r = Inr r'" "el' = put_reader_at eid r' el"
    by (auto simp: reader_heartbeat_fired_def elim!: rbind_Inr_E split: TimerState.split_asm option.split_asm)
  show ?thesis
    unfolding r(3) using handle_hb_response_timeout_keeps [OF _ r(2)]
    by (intro loop_ok_put_reader [OF assms(1) r(1) handle_hb_response_timeout_fixed [OF r(2)]])
qed (use assms in simp)

lemma writer_nack_fired_ok:
  assumes "loop_ok E W el" and "writer_nack_fired now st el = Inr el'"
  shows "loop_ok E W el'"
proof (cases "el' = el")
  case False
  with assms(2) obtain eid w g w' where w: "bm_get (el_writers el) eid = Some w"
    "handle_nack_response_timeout now g w = Inr w'" "el' = put_writer_at eid w' el"
    by (auto simp: writer_nack_fired_def elim!: rbind_Inr_E split: TimerState.split_asm option.split_asm)
  show ?thesis
    unfolding w(3) using evolves_inv [OF handle_nack_response_timeout_evolves [OF _ w(2)]]
    by (intro loop_ok_put_kept [OF assms(1) w(1) handle_nack_response_timeout_fixed [OF w(2)]])
qed (use assms in simp)

lemma dom_map_snd: "dom (bm_get (map (\<lambda>(k, v). (k, f k v)) m)) = dom (bm_get m)"
  by (auto simp: dom_def)

lemma remove_discoverd_participant_ok:
  assumes "loop_ok E W el"
  shows "loop_ok E W (remove_discoverd_participant prefix el)"
  unfolding remove_discoverd_participant_def
proof (rule loop_ok_on_recv [OF assms])
  let ?s = "el_recv el"
  let ?s' = "?s\<lparr>rs := map (\<lambda>(eid, r). (eid, delete_writer_proxy prefix r)) (rs ?s),
    ws := map (\<lambda>(eid, w). (eid, delete_reader_proxy prefix w)) (ws ?s)\<rparr>"
  assume inv: "recv_inv ?s"
  have w: "w_is_reliable (delete_reader_proxy prefix w) = w_is_reliable w"
    "w_guid (delete_reader_proxy prefix w) = w_guid w" for w
    using w_fixed_D [OF w_kept_D [OF delete_reader_proxy_fixed]] by simp_all
  have r: "r_guid (delete_writer_proxy prefix r) = r_guid r" for r
    using r_fixed_D [OF delete_writer_proxy_fixed] .
  show "recv_inv ?s'"
    using inv evolves_inv [OF delete_reader_proxy_evolves] delete_writer_proxy_ok(1)
    by (auto simp: recv_inv_def keyed_def w r bm_map_snd_wf)
qed (simp_all add: dom_map_snd option.map_comp comp_def)

lemma handle_discdb_update_ok: "loop_ok E W el \<Longrightarrow> loop_ok E W (handle_discdb_update el)"
proof -
  have "loop_ok E W u \<Longrightarrow> loop_ok E W (fold (\<lambda>x. case x of DeleteParticipant prefix \<Rightarrow> remove_discoverd_participant prefix) xs u)"
    for xs u
    by (induction xs arbitrary: u)
      (auto simp: remove_discoverd_participant_ok split: DiscoveryDBUpdateNotifier.split)
  then show "loop_ok E W el \<Longrightarrow> ?thesis" by (simp add: handle_discdb_update_def)
qed

lemma handle_writer_cmd_keeps:
  assumes "handle_writer_cmd now cmds w = Inr (w', wtv)"
  shows "writer_inv w \<longrightarrow> writer_inv w'" and "TDeadline e d \<in> set wtv \<Longrightarrow> e = entity_id (w_guid w)"
proof -
  let ?P = "\<lambda>(v, ts). w_kept v = w_kept w \<and> (writer_inv w \<longrightarrow> writer_inv v) \<and>
    (\<forall>e d. TDeadline e d \<in> set ts \<longrightarrow> e = entity_id (w_guid w))"
  have data: "w_kept v' = w_kept v \<and> (writer_inv v \<longrightarrow> writer_inv v') \<and>
      (\<forall>e d. t = Some (TDeadline e d) \<longrightarrow> e = entity_id (w_guid v))"
    if "handle_write_data_cmd now v = Inr (v', t)" for v v' t
  proof -
    have "\<forall>e d. t = Some (TDeadline e d) \<longrightarrow> e = entity_id (w_guid v)"
      using that by (auto simp: handle_write_data_cmd_def Let_def deadline_timer_def elim!: rbind_Inr_E
          split: list.split_asm if_split_asm)
    then show ?thesis using handle_write_data_cmd_fixed [OF that] handle_write_data_cmd_frame(1) [OF _ that] by blast
  qed
  have man: "w_kept v' = w_kept v \<and> (writer_inv v \<longrightarrow> writer_inv v')" if "assert_liveliness_manually now v = Inr v'" for v v'
    using assert_liveliness_manually_fixed [OF that] evolves_inv [OF assert_liveliness_manually_evolves [OF _ that]] by blast
  from assms have "?P (w', wtv)"
    unfolding handle_writer_cmd_def
  proof (rule rfold_invariant)
    fix c st st' assume st: "?P st"
      and run: "(\<lambda>cmd (w, wtv). case cmd of
         WriteData \<Rightarrow> rbind (handle_write_data_cmd now w)
           (\<lambda>(w', wt). Inr (w', wtv @ (case wt of Some t \<Rightarrow> [t] | None \<Rightarrow> [])))
       | AssertLiveliness \<Rightarrow> rbind (assert_liveliness_manually now w) (\<lambda>w'. Inr (w', wtv))) c st = Inr st'"
    obtain v ts where v: "st = (v, ts)" by fastforce
    show "?P st'"
    proof (cases c)
      case WriteData
      with run v obtain v' t where "handle_write_data_cmd now v = Inr (v', t)"
        and st': "st' = (v', ts @ (case t of Some t \<Rightarrow> [t] | None \<Rightarrow> []))" by (auto elim!: rbind_Inr_E)
      from data [OF this(1)] st w_fixed_D(1) [OF w_kept_D, of v w] show ?thesis unfolding st' v by (auto split: option.split)
    next
      case AssertLiveliness
      with run v obtain v' where "assert_liveliness_manually now v = Inr v'" "st' = (v', ts)" by (auto elim!: rbind_Inr_E)
      with man st show ?thesis unfolding v by auto
    qed
  qed simp
  then show "writer_inv w \<longrightarrow> writer_inv w'" and "TDeadline e d \<in> set wtv \<Longrightarrow> e = entity_id (w_guid w)" by auto
qed

lemma handle_entity_event_ok:
  assumes ok: "loop_ok E W el" and run: "handle_entity_event p eid el = Inr el'"
  shows "loop_ok E W el'"
proof (cases "bm_get (el_writers el) eid")
  case None
  then show ?thesis using assms by (auto simp: handle_entity_event_def split: if_split_asm)
next
  case (Some w0)
  with run obtain t w wtv where h: "handle_writer_cmd (clock p) (writer_cmds p) w0 = Inr (w, wtv)"
    and el': "handle_set_writer_timer wtv (put_writer_at eid w (writer_seen_alive t (GUID (el_guid_prefix el) eid) w0 el)) = Inr el'"
    by (auto simp: handle_entity_event_def Let_def elim!: rbind_Inr_E split: if_split_asm)
  let ?u = "put_writer_at eid w (writer_seen_alive t (GUID (el_guid_prefix el) eid) w0 el)"
  have u: "loop_ok E W ?u"
    using Some handle_writer_cmd_fixed [OF h] handle_writer_cmd_keeps(1) [OF h]
    by (intro loop_ok_put_kept [where w = w0] loop_ok_alive ok) auto
  have "entity_id (w_guid w0) = eid" using recv_invD(4) [OF loop_ok_recv [OF ok]] Some by (simp add: el_writers_def)
  then have "e \<in> dom (bm_get (el_writers ?u)) \<union> W" if "TDeadline e d \<in> set wtv" for e d
    using handle_writer_cmd_keeps(2) [OF h that] Some by auto
  with handle_set_writer_timer_ok [OF el' u] show ?thesis by blast
qed

section \<open>New endpoints\<close>

lemma Writer_new_inv:
  assumes "fresh_writer wi" and "Writer_new now wi = Inr (w, t)"
  shows "w_is_reliable w \<longrightarrow> writer_inv w" and "w_guid w = wi_guid wi"
    and "t = Some (TDeadline e d) \<Longrightarrow> e = entity_id (w_guid w)" and "stamped w"
proof -
  from assms(2) obtain h where h: "add_empty_change now (wi_guid wi) (wi_whc wi) = Inr h"
    and w: "writer_cache w = h" "w_guid w = wi_guid wi" "matched_readers w = []" "an_state w = Waiting"
    and t: "t = deadline_timer (wi_guid wi) (wi_qos wi)"
    by (auto simp: Writer_new_def elim!: rbind_Inr_E)
  have "cache_ok (w_guid w) h" if "wi_reliability_level wi = Reliable"
    using assms(1) that add_empty_change_fields [OF h] add_empty_change_inv [OF _ h]
    by (simp add: fresh_writer_def cache_ok_def w get_change_def)
  moreover have "w_reliability_level w = wi_reliability_level wi"
    using assms(2) by (auto simp: Writer_new_def elim!: rbind_Inr_E)
  ultimately show "w_is_reliable w \<longrightarrow> writer_inv w"
    using w by (auto simp: w_is_reliable_def split: ReliabilityQosKind.splits intro!: writer_invI)
  show "w_guid w = wi_guid wi" by (rule w)
  show "stamped w"
    using h by (auto simp: stamped_def w add_empty_change_def get_last_added_ts_def split: option.split_asm)
  show "t = Some (TDeadline e d) \<Longrightarrow> e = entity_id (w_guid w)"
    by (auto simp: t deadline_timer_def w Let_def split: if_split_asm)
qed

lemma add_spdp_reader_inv:
  assumes "add_spdp_reader dom_id w = Inr w'"
  shows "w_kept w' = w_kept w" and "writer_inv w \<longrightarrow> writer_inv w'"
  using assms matched_reader_add_fixed(2) evolves_inv [OF matched_reader_add_evolves]
  by (auto simp: add_spdp_reader_def matched_reader_add_def elim!: rbind_Inr_E split: if_split_asm dest: fixed)

lemma watch_manual_writer_ok: "loop_ok E W el \<Longrightarrow> loop_ok E W (watch_manual_writer can w el)"
  by (auto simp: watch_manual_writer_def Let_def watch_list_ok split: option.split)

lemma announce_ok:
  "announce_writer w el = Inr el' \<Longrightarrow> loop_ok E W el \<Longrightarrow> loop_ok E W el'"
  "announce_reader r el = Inr el' \<Longrightarrow> loop_ok E W el \<Longrightarrow> loop_ok E W el'"
  by (auto simp: announce_writer_def announce_reader_def elim!: rbind_Inr_E split: if_split_asm)

lemma insert_writer_ok:
  assumes ok: "loop_ok E {entity_id (w_guid w)} el" and w: "w_is_reliable w \<longrightarrow> writer_inv w" "stamped w"
    and new: "tw E (entity_id (w_guid w)) = None"
  shows "loop_ok E {} (insert_writer w el)"
proof -
  let ?s = "el_recv el" and ?e = "entity_id (w_guid w)"
  have "recv_inv (?s\<lparr>ws := bm_insert ?e w (ws ?s)\<rparr>)"
    using loop_ok_recv [OF ok] w by (auto simp: recv_inv_def keyed_def)
  moreover have "timers_fit (dom (bm_get (rs ?s))) (insert ?e (dom (bm_get (ws ?s)))) (check_liveliness_timer_to el \<noteq> None) (el_timers el)"
    using ok by (simp add: loop_ok_def el_readers_def el_writers_def)
  moreover have "established E (insert_writer w el)"
    using ok new by (auto simp: loop_ok_def established_def insert_writer_def el_writers_def el_readers_def)
  ultimately show ?thesis using ok w(2) by (simp add: loop_ok_def insert_writer_def el_readers_def el_writers_def)
qed

lemma insert_reader_ok:
  assumes ok: "loop_ok E {} el" and r: "reader_inv r" and new: "tr E (entity_id (r_guid r)) = None"
  shows "loop_ok E {} (insert_reader r el)"
proof -
  let ?s = "el_recv el" and ?e = "entity_id (r_guid r)"
  have "recv_inv (?s\<lparr>rs := bm_insert ?e r (rs ?s)\<rparr>)"
    using loop_ok_recv [OF ok] r by (auto simp: recv_inv_def keyed_def)
  moreover have "timers_fit (insert ?e (dom (bm_get (rs ?s)))) (dom (bm_get (ws ?s))) (check_liveliness_timer_to el \<noteq> None) (el_timers el)"
    using ok by (auto simp: loop_ok_def el_readers_def el_writers_def elim: timers_fit_mono)
  moreover have "established E (insert_reader r el)"
    using ok new by (auto simp: loop_ok_def established_def insert_reader_def el_writers_def el_readers_def)
  ultimately show ?thesis using ok by (simp add: loop_ok_def insert_reader_def el_readers_def el_writers_def)
qed

lemma register_writer_ok:
  assumes ok: "loop_ok E {} el" and fresh: "fresh_writer wi" and free: "tw E (entity_id (wi_guid wi)) = None" and run: "register_writer now can wi el = Inr el'"
  shows "loop_ok E {} el'"
proof -
  from run obtain w0 wt el1 w el2 el3 t where new: "Writer_new now wi = Inr (w0, wt)"
    and 1: "(case wt of Some t \<Rightarrow> handle_set_writer_timer [t] el | None \<Rightarrow> Inr el) = Inr el1"
    and w: "add_spdp_reader (el_domain_id el) w0 = Inr w"
    and 2: "(if w_is_reliable w then set_heartbeat_timer w el1 else Inr el1) = Inr el2"
    and 3: "announce_writer w (watch_manual_writer can w el2) = Inr el3"
    and el': "el' = insert_writer w (writer_seen_alive t (w_guid w) w el3)"
    unfolding register_writer_def by (auto elim!: rbind_Inr_E)
  note w0 = Writer_new_inv [OF fresh new]
  note fx = w_fixed_D [OF w_kept_D [OF add_spdp_reader_inv(1) [OF w]]] w_kept_stamped [OF add_spdp_reader_inv(1) [OF w]]
  let ?W = "{entity_id (w_guid w)}"
  have "loop_ok E ?W el" using ok by (auto simp: loop_ok_def elim: timers_fit_mono)
  then have "loop_ok E ?W el1"
    using 1 handle_set_writer_timer_ok [of "[the wt]" el el1 E ?W] w0(3) fx(1) by (auto split: option.split_asm)
  then have "loop_ok E ?W el2" using 2 set_heartbeat_timer_ok by (auto split: if_split_asm)
  then have "loop_ok E ?W el3" using announce_ok(1) [OF 3] watch_manual_writer_ok by blast
  then show ?thesis
    unfolding el' using w0(1,2,4) fx add_spdp_reader_inv(2) [OF w] free by (intro insert_writer_ok loop_ok_alive) auto
qed

text \<open>A writer that was registered is established.\<close>

lemma register_writer_fields:
  assumes run: "register_writer now can wi el = Inr el'"
  shows "create_writer_receiver el' = create_writer_receiver el" and "create_reader_receiver el' = create_reader_receiver el"
    and "map_option w_fixed (bm_get (el_writers el') (entity_id (wi_guid wi))) = Some (wi_fixed wi)"
proof -
  from run obtain w0 wt el1 w el2 el3 t where new: "Writer_new now wi = Inr (w0, wt)"
    and 1: "(case wt of Some t \<Rightarrow> handle_set_writer_timer [t] el | None \<Rightarrow> Inr el) = Inr el1"
    and w: "add_spdp_reader (el_domain_id el) w0 = Inr w"
    and 2: "(if w_is_reliable w then set_heartbeat_timer w el1 else Inr el1) = Inr el2"
    and 3: "announce_writer w (watch_manual_writer can w el2) = Inr el3"
    and el': "el' = insert_writer w (writer_seen_alive t (w_guid w) w el3)"
    unfolding register_writer_def by (auto elim!: rbind_Inr_E)
  have "w_fixed w0 = wi_fixed wi"
    using new by (auto simp: Writer_new_def w_fixed_def wi_fixed_def elim!: rbind_Inr_E)
  with w_kept_D [OF add_spdp_reader_inv(1) [OF w]] have f: "w_fixed w = wi_fixed wi" by simp
  then have "w_guid w = wi_guid wi" by (simp add: w_fixed_def wi_fixed_def)
  with f show "map_option w_fixed (bm_get (el_writers el') (entity_id (wi_guid wi))) = Some (wi_fixed wi)"
    by (simp add: el' insert_writer_def el_writers_def)
  have set1: "create_writer_receiver el1 = create_writer_receiver el" "create_reader_receiver el1 = create_reader_receiver el"
    using 1 by (auto simp: handle_set_writer_timer_def set_writer_timer_def Let_def elim!: rbind_Inr_E
        split: option.split_asm WriterTimer.split_asm)
  have "create_writer_receiver (watch_manual_writer can w el2) = create_writer_receiver el2"
    "create_reader_receiver (watch_manual_writer can w el2) = create_reader_receiver el2"
    by (auto simp: watch_manual_writer_def watch_list_def Let_def split: option.split)
  then show "create_writer_receiver el' = create_writer_receiver el" "create_reader_receiver el' = create_reader_receiver el"
    using 2 3 set1 by (auto simp: el' insert_writer_def writer_seen_alive_def set_heartbeat_timer_def announce_writer_def
        elim!: rbind_Inr_E split: if_split_asm)
qed

lemma register_writer_enters:
  assumes ok: "loop_ok E {} el" and fresh: "fresh_writer wi" and free: "tw E (entity_id (wi_guid wi)) = None"
    and none: "create_writer_receiver el = []" and run: "register_writer now can wi el = Inr el'"
  shows "loop_ok (E\<lparr>tw := (tw E)(entity_id (wi_guid wi) \<mapsto> wi_fixed wi)\<rparr>) {} el'"
  using register_writer_ok [OF ok fresh free run] register_writer_fields [OF run] none
  by (auto simp: loop_ok_def established_def)

lemma register_reader_fields:
  assumes "register_reader ri el = Inr el'"
  shows "create_writer_receiver el' = create_writer_receiver el" and "create_reader_receiver el' = create_reader_receiver el"
    and "map_option r_fixed (bm_get (el_readers el') (entity_id (ri_guid ri))) = Some (ri_fixed ri)"
  using assms
  by (auto simp: register_reader_def Let_def insert_reader_def announce_reader_def el_readers_def Reader_new_def
      r_fixed_def ri_fixed_def elim!: rbind_Inr_E split: if_split_asm)

lemma register_reader_ok:
  assumes "loop_ok E {} el" and "fresh_reader ri" and "tr E (entity_id (ri_guid ri)) = None"
    and "register_reader ri el = Inr el'"
  shows "loop_ok E {} el'"
proof -
  have "reader_inv (Reader_new ri)" using assms(2) by (simp add: fresh_reader_def Reader_new_def reader_inv_iff)
  moreover have "tr E (entity_id (r_guid (Reader_new ri))) = None" using assms(3) by (simp add: Reader_new_def)
  ultimately show ?thesis
    using assms(1,4)
    by (auto simp: register_reader_def Let_def elim!: rbind_Inr_E intro!: insert_reader_ok dest: announce_ok(2))
qed

lemma register_reader_enters:
  assumes ok: "loop_ok E {} el" and fresh: "fresh_reader ri" and free: "tr E (entity_id (ri_guid ri)) = None"
    and none: "create_reader_receiver el = []" and run: "register_reader ri el = Inr el'"
  shows "loop_ok (E\<lparr>tr := (tr E)(entity_id (ri_guid ri) \<mapsto> ri_fixed ri)\<rparr>) {} el'"
  using register_reader_ok [OF ok fresh free run] register_reader_fields [OF run] none
  by (auto simp: loop_ok_def established_def)

lemma drain_ok:
  assumes "loop_inv E el"
  shows "drain_writers p el = Inr el' \<Longrightarrow> loop_ok E {} el'" and "drain_readers el = Inr el' \<Longrightarrow> loop_ok E {} el'"
proof -
  have ok: "loop_ok E {} el" and new: "\<forall>wi \<in> set (create_writer_receiver el). fresh_writer wi \<and> tw E (entity_id (wi_guid wi)) = None"
    "\<forall>ri \<in> set (create_reader_receiver el). fresh_reader ri \<and> tr E (entity_id (ri_guid ri)) = None"
    using assms by (simp_all add: loop_inv_def loop_ok_def established_def list_all_iff)
  show "drain_writers p el = Inr el' \<Longrightarrow> loop_ok E {} el'"
    unfolding drain_writers_def
    by (erule rfold_loop_ok [OF _ loop_ok_drained(1) [OF ok]]) (use new(1) register_writer_ok in blast)
  show "drain_readers el = Inr el' \<Longrightarrow> loop_ok E {} el'"
    unfolding drain_readers_def
    by (erule rfold_loop_ok [OF _ loop_ok_drained(2) [OF ok]]) (use new(2) register_reader_ok in blast)
qed

section \<open>What a timer handler can fail with\<close>

text \<open>
  With a clock that works, the handlers of the timers fail at most with an arithmetic overflow: no writer is
  without a time of its last activity, and the liveliness check finds its period.
\<close>

definition overflows_only :: "'a res \<Rightarrow> bool" where
  "overflows_only m \<longleftrightarrow> (\<forall>e. m = Inl e \<longrightarrow> e = ArithOverflow)"

lemma overflows_only_simps [simp]: "overflows_only (Inr x)" "overflows_only (Inl e) \<longleftrightarrow> e = ArithOverflow"
  by (simp_all add: overflows_only_def)

lemma overflows_only_bind [intro!]:
  "overflows_only m \<Longrightarrow> (\<And>x. m = Inr x \<Longrightarrow> overflows_only (f x)) \<Longrightarrow> overflows_only (rbind m f)"
  by (cases m) (auto simp: rbind_def)

lemma overflows_only_basic [simp]:
  "overflows_only (i32_inc c)" "overflows_only (i64_sub a b)" "overflows_only (CoreDuration_new s n)"
  "overflows_only (lease_expired (Some t) d ts)"
  by (simp_all add: i32_inc_def i64_sub_def CoreDuration_new_def lease_expired_def unwrap_def Let_def)

lemma overflows_only_rfold:
  assumes "P s" and "\<And>x s. P s \<Longrightarrow> overflows_only (f x s)" and "\<And>x s s'. P s \<Longrightarrow> f x s = Inr s' \<Longrightarrow> P s'"
  shows "overflows_only (rfold f xs s)"
  using assms(1) by (induction xs arbitrary: s) (auto intro!: overflows_only_bind assms(2) dest: assms(3))

lemma send_heart_beat_overflows: "overflows_only (send_heart_beat now lv w)"
proof -
  have "overflows_only (remove_acked_changes b v)" for b v
    by (auto simp: remove_acked_changes_def split: Durability.split)
  then show ?thesis by (auto simp: send_heart_beat_def Let_def intro!: overflows_only_bind)
qed

lemma writer_heartbeat_overflows: "overflows_only (writer_heartbeat_fired now st el)"
  by (auto simp: writer_heartbeat_fired_def send_heart_beat_overflows set_heartbeat_timer_def heartbeat_period_def split: TimerState.split option.split)

lemma wlp_fired_overflows: "overflows_only (wlp_fired (Some t) st el)"
proof -
  have "overflows_only (rfold (\<lambda>gp xs. rbind (writer_lost (Some t) db gp) (\<lambda>lost. Inr (if lost then xs @ [fst gp] else xs))) ps [])" for db ps
    by (rule overflows_only_rfold [where P = "\<lambda>_. True"])
      (auto simp: writer_lost_def Let_def split: EndpointState.split)
  then have "overflows_only (check_reader (Some t) eid r el)" for eid r
    unfolding check_reader_def reader_check_liveliness_def by (intro overflows_only_bind) (auto split: prod.split)
  then show ?thesis
    by (auto simp: wlp_fired_def get_min_remote_writer_lease_duration_def Let_def split: TimerState.split option.split)
qed

lemma check_liveliness_fired_overflows:
  assumes "\<And>gs. st = CheckLive gs \<Longrightarrow> check_liveliness_timer_to el \<noteq> None"
  shows "overflows_only (check_liveliness_fired (Some t) st el)"
proof -
  have step: "overflows_only (check_writer (Some t) g u)" for g u
    by (auto simp: check_writer_def check_liveliness_w_def Let_def split: option.split)
  have keep: "check_writer (Some t) g u = Inr v \<Longrightarrow> check_liveliness_timer_to v = check_liveliness_timer_to u" for g u v
    by (auto simp: check_writer_def put_writer_at_def elim!: rbind_Inr_E split: option.split_asm)
  have "rfold (check_writer (Some t)) xs u = Inr v \<Longrightarrow> check_liveliness_timer_to v = check_liveliness_timer_to u" for xs u v
    by (erule rfold_invariant) (simp_all add: keep)
  with assms show ?thesis
    using overflows_only_rfold [of "\<lambda>_. True" el "check_writer (Some t)", OF _ step]
    by (auto simp: check_liveliness_fired_def unwrap_def split: TimerState.split)
qed

lemma assert_liveliness_fired_total:
  assumes "loop_ok E W el"
  shows "\<exists>el'. assert_liveliness_fired (Some t) el = Inr el'"
proof -
  have a: "\<exists>w'. assert_liveliness (Some t) w = Inr w'" if "stamped w" for w
    using that by (auto simp: assert_liveliness_def lease_expired_def unwrap_def stamped_def Let_def)
  have "\<exists>v. assert_automatic (Some t) eid u = Inr v" if "loop_ok E W u" for eid u
  proof (cases "bm_get (el_writers u) eid")
    case (Some w)
    with that have "stamped w" by (auto simp: loop_ok_def)
    from a [OF this] Some show ?thesis
      by (auto simp: assert_automatic_def unwrap_def Let_def split: EndpointState.split)
  qed (simp add: assert_automatic_def)
  then have "\<exists>v. rfold (assert_automatic (Some t)) (bm_keys (el_writers el)) el = Inr v \<and> loop_ok E W v"
    using assert_automatic_ok by (intro rfold_total [where P = "loop_ok E W"] assms) blast
  then show ?thesis by (auto simp: assert_liveliness_fired_def)
qed

section \<open>All events\<close>

text \<open>
  The library returns only states of timeouts that were set, and the packets have sequence numbers in
  range.
\<close>

definition polled_ok :: "Wire \<Rightarrow> Polled \<Rightarrow> EventLoop \<Rightarrow> bool" where
  "polled_ok wr p el \<longleftrightarrow>
     (\<forall>st \<in> set (fired p). \<exists>d. SetTimeout d st \<in> set (el_timers el)) \<and>
     (\<forall>bytes msg. Datagram bytes \<in> set (incoming p) \<longrightarrow> read_message wr bytes = Inr (Some msg) \<longrightarrow>
       list_all in_range (submessages msg))"

lemma handle_event_inv:
  assumes inv: "loop_inv E el" and p: "polled_ok wr p el" and run: "handle_event wr p token el = Inr el'"
  shows "loop_inv E el'"
proof -
  have ok: "loop_ok E {} el" using inv by (simp add: loop_inv_def)
  have rf: "rfold f xs el = Inr el' \<Longrightarrow> (\<And>x u v. loop_ok E {} u \<Longrightarrow> f x u = Inr v \<Longrightarrow> loop_ok E {} v) \<Longrightarrow> loop_ok E {} el'"
    for f :: "TimerState \<Rightarrow> EventLoop \<Rightarrow> EventLoop res" and xs
    using rfold_loop_ok [OF _ ok] by blast
  have sock: "handle_socket wr p t el = Inr el' \<Longrightarrow> loop_ok E {} el'" for t
    using handle_socket_ok [OF ok] p unfolding polled_ok_def by blast
  have fires:
    "rfold (writer_heartbeat_fired now) xs el = Inr el' \<Longrightarrow> loop_ok E {} el'"
    "rfold reader_deadline_fired xs el = Inr el' \<Longrightarrow> loop_ok E {} el'"
    "rfold reader_lifespan_fired xs el = Inr el' \<Longrightarrow> loop_ok E {} el'"
    "rfold writer_deadline_fired xs el = Inr el' \<Longrightarrow> loop_ok E {} el'"
    "rfold (wlp_fired now) xs el = Inr el' \<Longrightarrow> loop_ok E {} el'"
    "rfold (check_liveliness_fired now) xs el = Inr el' \<Longrightarrow> loop_ok E {} el'"
    "rfold reader_heartbeat_fired xs el = Inr el' \<Longrightarrow> loop_ok E {} el'"
    "rfold (writer_nack_fired now) xs el = Inr el' \<Longrightarrow> loop_ok E {} el'"
    for now xs
    by (erule rf, erule (1) writer_heartbeat_fired_ok reader_deadline_fired_ok reader_lifespan_fired_ok writer_deadline_fired_ok wlp_fired_ok check_liveliness_fired_ok reader_heartbeat_fired_ok writer_nack_fired_ok)+
  have db: "Inr (handle_discdb_update el) = (Inr el' :: EventLoop res) \<Longrightarrow> loop_ok E {} el'"
    and same: "Inr el = (Inr el' :: EventLoop res) \<Longrightarrow> loop_ok E {} el'"
    using handle_discdb_update_ok [OF ok] ok by auto
  have "loop_ok E {} el'" if "handle_reserved wr p t el = Inr el'" for t
    using that unfolding handle_reserved_def
    by (simp only: split: if_split_asm)
      (erule sock fires drain_ok [OF inv] db same drain_wlp_ok [OF ok] assert_liveliness_fired_ok [OF ok])+
  with run handle_entity_event_ok [OF ok] show ?thesis
    by (auto simp: handle_event_def loop_inv_def split: TokenDec.split_asm)
qed

end
