(* ===== verification/Umber_Entities.thy ===== *)
theory Umber_Entities
  imports Umber_LoopInv
begin

text \<open>
  The factories of the DDS interface: the participant with its configuration and its sockets
  (\<^verbatim>\<open>src/dds/participant.rs\<close>), publishers and subscribers (\<^verbatim>\<open>src/dds/publisher.rs\<close>,
  \<^verbatim>\<open>src/dds/subscriber.rs\<close>), topics (\<^verbatim>\<open>src/dds/topic.rs\<close>), and the built-in endpoints of
  \<^verbatim>\<open>src/discovery.rs\<close>.

  What the operating system and the random generator return is the argument \<open>Host\<close>. A handle to the
  participant is the participant itself; an operation that changes it returns the new one. A
  channel to the event loop is the list of what was sent.
\<close>

section \<open>QoS of the factories\<close>

datatype EntityFactory = EntityFactory (autoenable_created_entites: bool)

definition default_entity_factory :: EntityFactory where
  "default_entity_factory = EntityFactory True"

definition default_presentation :: Presentation where
  "default_presentation = \<lparr>access_scope = InstanceScope, coherent_access = False, ordered_access = False\<rparr>"

definition default_partition :: Partition where
  "default_partition = Partition [[]]"

definition default_group_data :: GroupData where
  "default_group_data = GroupData []"

text \<open>The argument of every \<^verbatim>\<open>create\<close> method: the default of the factory, or policies of the caller's own.\<close>

datatype 'p qos_choice = QosDefault | QosPolicies 'p

record DomainParticipantQosPolicies =
  pp_user_data :: UserData
  pp_entity_factory :: EntityFactory

record DomainParticipantQosBuilder =
  ppb_user_data :: "UserData option"
  ppb_entity_factory :: "EntityFactory option"

definition domain_participant_build :: "DomainParticipantQosBuilder \<Rightarrow> DomainParticipantQosPolicies" where
  "domain_participant_build b =
     \<lparr>pp_user_data = or_default (ppb_user_data b) default_user_data,
      pp_entity_factory = or_default (ppb_entity_factory b) default_entity_factory\<rparr>"

record PublisherQosPolicies =
  pq_presentation :: Presentation
  pq_partition :: Partition
  pq_group_data :: GroupData
  pq_entity_factory :: EntityFactory

record PublisherQosBuilder =
  pqb_presentation :: "Presentation option"
  pqb_partition :: "Partition option"
  pqb_group_data :: "GroupData option"
  pqb_entity_factory :: "EntityFactory option"

definition PublisherQosBuilder_new :: PublisherQosBuilder where
  "PublisherQosBuilder_new =
     \<lparr>pqb_presentation = None, pqb_partition = None, pqb_group_data = None, pqb_entity_factory = None\<rparr>"

definition publisher_build :: "PublisherQosBuilder \<Rightarrow> PublisherQosPolicies" where
  "publisher_build b =
     \<lparr>pq_presentation = or_default (pqb_presentation b) default_presentation,
      pq_partition = or_default (pqb_partition b) default_partition,
      pq_group_data = or_default (pqb_group_data b) default_group_data,
      pq_entity_factory = or_default (pqb_entity_factory b) default_entity_factory\<rparr>"

record SubscriberQosPolicies =
  sq_presentation :: Presentation
  sq_partition :: Partition
  sq_group_data :: GroupData
  sq_entity_factory :: EntityFactory

record SubscriberQosBuilder =
  sqb_presentation :: "Presentation option"
  sqb_partition :: "Partition option"
  sqb_group_data :: "GroupData option"
  sqb_entity_factory :: "EntityFactory option"

definition SubscriberQosBuilder_new :: SubscriberQosBuilder where
  "SubscriberQosBuilder_new =
     \<lparr>sqb_presentation = None, sqb_partition = None, sqb_group_data = None, sqb_entity_factory = None\<rparr>"

definition subscriber_build :: "SubscriberQosBuilder \<Rightarrow> SubscriberQosPolicies" where
  "subscriber_build b =
     \<lparr>sq_presentation = or_default (sqb_presentation b) default_presentation,
      sq_partition = or_default (sqb_partition b) default_partition,
      sq_group_data = or_default (sqb_group_data b) default_group_data,
      sq_entity_factory = or_default (sqb_entity_factory b) default_entity_factory\<rparr>"

section \<open>Configuration\<close>

definition core_secs_only :: "int \<Rightarrow> CoreDuration" where
  "core_secs_only s = \<lparr>core_secs = s, core_nanos = 0\<rparr>"

definition DEFAULT_PARTICIPANT_MESSAGE_PERIOD :: CoreDuration where
  "DEFAULT_PARTICIPANT_MESSAGE_PERIOD = core_secs_only 3"
definition DEFAULT_LEASE_DURATION :: CoreDuration where
  "DEFAULT_LEASE_DURATION = core_secs_only 20"
definition DEFAULT_HEARTBEAT_PERIOD :: CoreDuration where
  "DEFAULT_HEARTBEAT_PERIOD = core_secs_only 2"
definition DEFAULT_NACK_RESPONSE_DELAY :: CoreDuration where
  "DEFAULT_NACK_RESPONSE_DELAY = core_secs_only 0"
definition DEFAULT_HEARTBEAT_RESPONSE_DELAY :: CoreDuration where
  "DEFAULT_HEARTBEAT_RESPONSE_DELAY = core_secs_only 0"

record ParticipantConfig =
  participant_message_period :: CoreDuration
  cfg_lease_duration :: CoreDuration
  cfg_heartbeat_period :: CoreDuration
  cfg_nack_response_delay :: CoreDuration
  cfg_heartbeat_response_delay :: CoreDuration

definition ParticipantConfig_default :: ParticipantConfig where
  "ParticipantConfig_default =
     \<lparr>participant_message_period = DEFAULT_PARTICIPANT_MESSAGE_PERIOD,
      cfg_lease_duration = DEFAULT_LEASE_DURATION,
      cfg_heartbeat_period = DEFAULT_HEARTBEAT_PERIOD,
      cfg_nack_response_delay = DEFAULT_NACK_RESPONSE_DELAY,
      cfg_heartbeat_response_delay = DEFAULT_HEARTBEAT_RESPONSE_DELAY\<rparr>"

record ParticipantConfigBuilder =
  cb_participant_message_period :: "CoreDuration option"
  cb_lease_duration :: "CoreDuration option"
  cb_heartbeat_period :: "CoreDuration option"
  cb_nack_response_delay :: "CoreDuration option"
  cb_heartbeat_response_delay :: "CoreDuration option"

definition ParticipantConfigBuilder_new :: ParticipantConfigBuilder where
  "ParticipantConfigBuilder_new =
     \<lparr>cb_participant_message_period = None, cb_lease_duration = None, cb_heartbeat_period = None,
      cb_nack_response_delay = None, cb_heartbeat_response_delay = None\<rparr>"

definition config_build :: "ParticipantConfigBuilder \<Rightarrow> ParticipantConfig res" where
  "config_build b =
     (let period = or_default (cb_participant_message_period b) DEFAULT_PARTICIPANT_MESSAGE_PERIOD;
          lease = or_default (cb_lease_duration b) DEFAULT_LEASE_DURATION
      in if \<not> core_less period lease then Inl ExplicitPanic
         else Inr \<lparr>participant_message_period = period, cfg_lease_duration = lease,
           cfg_heartbeat_period = or_default (cb_heartbeat_period b) DEFAULT_HEARTBEAT_PERIOD,
           cfg_nack_response_delay = or_default (cb_nack_response_delay b) DEFAULT_NACK_RESPONSE_DELAY,
           cfg_heartbeat_response_delay =
             or_default (cb_heartbeat_response_delay b) DEFAULT_HEARTBEAT_RESPONSE_DELAY\<rparr>)"

section \<open>The host\<close>

datatype IpAddr = V4 "u8 list" | V6 "u8 list"

record Interface =
  is_loopback :: bool
  if_ip :: IpAddr

record Host =
  if_addrs :: "Interface list option"
  can_bind_unicast :: "int \<Rightarrow> bool"
  can_bind_multicast :: "int \<Rightarrow> bool"
  can_send :: bool
  random_bytes :: "u8 list"

definition get_local_interfaces :: "Host \<Rightarrow> IpAddr list" where
  "get_local_interfaces host =
     (case if_addrs host of
        Some local_interface \<Rightarrow> map if_ip (filter (\<lambda>s. \<not> is_loopback s) local_interface)
      | None \<Rightarrow> [V4 [127, 0, 0, 1]])"

definition ipv4_of :: "IpAddr \<Rightarrow> u8 list option" where
  "ipv4_of n = (case n of V4 a \<Rightarrow> Some a | V6 _ \<Rightarrow> None)"

text \<open>The interfaces a participant uses when the caller names none.\<close>

definition choose_interfaces :: "Host \<Rightarrow> u8 list list \<Rightarrow> u8 list list res" where
  "choose_interfaces host network_interfaces =
     (if network_interfaces = [] then
        (case List.map_filter ipv4_of (get_local_interfaces host) of
           [] \<Rightarrow> Inl ExplicitPanic
         | a # _ \<Rightarrow> Inr [a])
      else Inr network_interfaces)"

section \<open>Participants\<close>

record DomainParticipantInner =
  dp_domain_id :: int
  dp_participant_id :: int
  my_guid :: GUID
  entity_key_generator :: u32
  default_publisher_qos :: PublisherQosPolicies
  default_subscriber_qos :: SubscriberQosPolicies
  default_topic_qos :: TopicQosPolicies
  participant_config :: ParticipantConfig
  network_interfaces :: "u8 list list"
  dp_spdp_data :: SPDPdiscoveredParticipantData
  serialized_spdp_data :: SerializedPayload

text \<open>The search for a free participant identifier.\<close>

function find_participant_id :: "(int \<Rightarrow> bool) \<Rightarrow> int \<Rightarrow> int \<Rightarrow> int option res" where
  "find_participant_id free dom_id participant_id =
     (if participant_id < 120 then
        rbind (spdp_unicast_port dom_id participant_id) (\<lambda>port.
          if free port then Inr (Some participant_id)
          else find_participant_id free dom_id (participant_id + 1))
      else Inr None)"
  by pat_completeness auto
termination
  by (relation "measure (\<lambda>(free, dom_id, participant_id). nat (120 - participant_id))") auto

declare find_participant_id.simps [simp del]

definition bind_multicast :: "Host \<Rightarrow> int \<Rightarrow> unit res" where
  "bind_multicast host port = (if can_bind_multicast host port then Inr () else Inl ExplicitPanic)"

definition bind_usertraffic :: "Host \<Rightarrow> int \<Rightarrow> unit res" where
  "bind_usertraffic host port = (if can_bind_unicast host port then Inr () else Inl UnwrapNone)"

definition MULTICAST_GROUP :: "u8 list" where
  "MULTICAST_GROUP = [239, 255, 0, 1]"

text \<open>The built-in endpoints every participant announces: bits 0 to 5, 10 and 11.\<close>

definition BUILTIN_ENDPOINTS :: u32 where
  "BUILTIN_ENDPOINTS = 0xC3F"

definition own_spdp_data :: "int \<Rightarrow> int \<Rightarrow> GUID \<Rightarrow> u8 list list \<Rightarrow> ParticipantConfig
    \<Rightarrow> SPDPdiscoveredParticipantData res" where
  "own_spdp_data dom_id participant_id guid nics config =
     rbind (spdp_unicast_port dom_id participant_id) (\<lambda>spdp_uni.
     rbind (new_list_from_multi_ipv4 spdp_uni nics) (\<lambda>meta_uni.
     rbind (spdp_multicast_port dom_id) (\<lambda>spdp_multi.
     rbind (usertraffic_unicast_port dom_id participant_id) (\<lambda>user_uni.
     rbind (new_list_from_multi_ipv4 user_uni nics) (\<lambda>default_uni.
     rbind (usertraffic_multicast_port dom_id) (\<lambda>user_multi.
       Inr \<lparr>spdp_domain_id = dom_id, domain_tag = ''todo'', spdp_protocol_version = PROTOCOLVERSION,
         spdp_guid = guid, spdp_vendor_id = vendor_THIS_IMPLEMENTATION, spdp_expects_inline_qos = False,
         available_builtin_endpoint = BUILTIN_ENDPOINTS,
         metarraffic_unicast_locator_list = meta_uni,
         metarraffic_multicast_locator_list = [new_from_ipv4 spdp_multi MULTICAST_GROUP],
         spdp_default_multicast_locator_list = [new_from_ipv4 user_multi MULTICAST_GROUP],
         spdp_default_unicast_locator_list = default_uni,
         manual_liveliness_count = Some 0,
         spdp_lease_duration = from_core (cfg_lease_duration config)\<rparr>))))))"

definition DomainParticipantInner_new :: "Speedy \<Rightarrow> Host \<Rightarrow> int \<Rightarrow> u8 list list \<Rightarrow> ParticipantConfig
    \<Rightarrow> (DomainParticipantInner \<times> Token list) res" where
  "DomainParticipantInner_new S host dom_id nics config =
     rbind (spdp_multicast_port dom_id) (\<lambda>spdp_multi.
     rbind (bind_multicast host spdp_multi) (\<lambda>_.
     rbind (usertraffic_multicast_port dom_id) (\<lambda>user_multi.
     rbind (bind_multicast host user_multi) (\<lambda>_.
     rbind (find_participant_id (can_bind_unicast host) dom_id 0) (\<lambda>discovery_uni.
     rbind (unwrap discovery_uni) (\<lambda>participant_id.
     rbind (usertraffic_unicast_port dom_id participant_id) (\<lambda>user_uni.
     rbind (bind_usertraffic host user_uni) (\<lambda>_.
     rbind (if can_send host then Inr () else Inl UnwrapNone) (\<lambda>_.
     rbind (own_spdp_data dom_id participant_id (new_participant_guid (random_bytes host)) nics config) (\<lambda>spdp.
     rbind (new_from_cdr_data (\<lambda>e. write_spdp S e spdp) PL_CDR_LE) (\<lambda>serialized.
       Inr (\<lparr>dp_domain_id = dom_id, dp_participant_id = participant_id,
              my_guid = new_participant_guid (random_bytes host), entity_key_generator = 0x0300,
              default_publisher_qos = publisher_build PublisherQosBuilder_new,
              default_subscriber_qos = subscriber_build SubscriberQosBuilder_new,
              default_topic_qos = topic_build TopicQosBuilder_new,
              participant_config = config, network_interfaces = nics, dp_spdp_data = spdp,
              serialized_spdp_data = serialized\<rparr>,
            [DISCOVERY_UNI_TOKEN, DISCOVERY_MULTI_TOKEN, USERTRAFFIC_UNI_TOKEN, USERTRAFFIC_MULTI_TOKEN]))))))))))))"

text \<open>The entity key is the low three bytes of a counter.\<close>

definition gen_entity_key :: "DomainParticipantInner \<Rightarrow> (u8 \<times> u8 \<times> u8) \<times> DomainParticipantInner" where
  "gen_entity_key dp =
     (let k = entity_key_generator dp
      in ((ucast (drop_bit 16 k), ucast (drop_bit 8 k), ucast k), dp\<lparr>entity_key_generator := k + 1\<rparr>))"

definition set_default_publisher_qos :: "PublisherQosPolicies \<Rightarrow> DomainParticipantInner \<Rightarrow> DomainParticipantInner" where
  "set_default_publisher_qos qos dp = dp\<lparr>default_publisher_qos := qos\<rparr>"

definition set_default_subscriber_qos :: "SubscriberQosPolicies \<Rightarrow> DomainParticipantInner \<Rightarrow> DomainParticipantInner" where
  "set_default_subscriber_qos qos dp = dp\<lparr>default_subscriber_qos := qos\<rparr>"

definition set_default_topic_qos :: "TopicQosPolicies \<Rightarrow> DomainParticipantInner \<Rightarrow> DomainParticipantInner" where
  "set_default_topic_qos qos dp = dp\<lparr>default_topic_qos := qos\<rparr>"

section \<open>Topics\<close>

definition or_factory_default :: "'p qos_choice \<Rightarrow> 'p \<Rightarrow> 'p" where
  "or_factory_default q dflt = (case q of QosDefault \<Rightarrow> dflt | QosPolicies p \<Rightarrow> p)"

definition Topic_new_builtin :: "string \<Rightarrow> string \<Rightarrow> TopicKind \<Rightarrow> TopicQosPolicies \<Rightarrow> Topic" where
  "Topic_new_builtin name type_name kind qos =
     \<lparr>topic_name = name, type_desc = type_name, topic_qos = qos, topic_kind = kind\<rparr>"

text \<open>\<^verbatim>\<open>D::type_name()\<close> and \<^verbatim>\<open>D::is_with_key()\<close> of the data type are arguments.\<close>

definition Topic_new :: "string \<Rightarrow> bool \<Rightarrow> string \<Rightarrow> TopicQosPolicies \<Rightarrow> Topic" where
  "Topic_new type_name is_with_key name qos =
     \<lparr>topic_name = name, type_desc = type_name, topic_qos = qos,
      topic_kind = (if is_with_key then WithKey else NoKey)\<rparr>"

definition create_topic :: "string \<Rightarrow> bool \<Rightarrow> string \<Rightarrow> TopicQosPolicies qos_choice
    \<Rightarrow> DomainParticipantInner \<Rightarrow> Topic" where
  "create_topic type_name is_with_key name qos dp =
     Topic_new type_name is_with_key name (or_factory_default qos (default_topic_qos dp))"

definition create_builtin_topic :: "string \<Rightarrow> string \<Rightarrow> TopicKind \<Rightarrow> TopicQosPolicies qos_choice
    \<Rightarrow> DomainParticipantInner \<Rightarrow> Topic" where
  "create_builtin_topic name type_name kind qos dp =
     Topic_new_builtin name type_name kind (or_factory_default qos (default_topic_qos dp))"

section \<open>Publishers and data writers\<close>

record Publisher =
  pub_guid :: GUID
  pub_qos :: PublisherQosPolicies
  default_dw_qos :: DataWriterQosPolicies

definition Publisher_new :: "GUID \<Rightarrow> PublisherQosPolicies \<Rightarrow> Publisher" where
  "Publisher_new guid qos =
     \<lparr>pub_guid = guid, pub_qos = qos, default_dw_qos = datawriter_build DataWriterQosBuilder_new\<rparr>"

definition set_qos_pub :: "PublisherQosPolicies \<Rightarrow> Publisher \<Rightarrow> Publisher" where
  "set_qos_pub qos p = p\<lparr>pub_qos := qos\<rparr>"

definition set_default_datawriter_qos :: "DataWriterQosPolicies \<Rightarrow> Publisher \<Rightarrow> Publisher" where
  "set_default_datawriter_qos qos p = p\<lparr>default_dw_qos := qos\<rparr>"

definition create_publisher :: "PublisherQosPolicies qos_choice \<Rightarrow> DomainParticipantInner
    \<Rightarrow> Publisher \<times> DomainParticipantInner" where
  "create_publisher qos dp =
     (let (key, dp') = gen_entity_key dp
      in (Publisher_new (GUID (guid_prefix (my_guid dp)) (EntityId key PUBLISHER))
            (or_factory_default qos (default_publisher_qos dp)), dp'))"

definition effective_dw_qos :: "DataWriterQosPolicies qos_choice \<Rightarrow> Topic \<Rightarrow> Publisher \<Rightarrow> DataWriterQosPolicies" where
  "effective_dw_qos qos topic p =
     (case qos of
        QosDefault \<Rightarrow> default_dw_qos p
      | QosPolicies q \<Rightarrow> dw_combine (dw_combine (to_datawriter_qos (topic_qos topic)) (default_dw_qos p)) q)"

definition create_datawriter_with_entityid :: "DataWriterQosPolicies qos_choice \<Rightarrow> Topic \<Rightarrow> Publisher
    \<Rightarrow> EntityId \<Rightarrow> DomainParticipantInner \<Rightarrow> (DataWriter \<times> WriterIngredients) res" where
  "create_datawriter_with_entityid qos topic p eid dp =
     (let dw_qos = effective_dw_qos qos topic p;
          reliability_level = reliability_kind (fst (dw_reliability dw_qos));
          config = participant_config dp;
          guid = GUID (guid_prefix (my_guid dp)) eid
      in rbind (usertraffic_unicast_port (dp_domain_id dp) (dp_participant_id dp)) (\<lambda>uni_port.
         rbind (new_list_from_multi_ipv4 uni_port (network_interfaces dp)) (\<lambda>uni.
         rbind (usertraffic_multicast_port (dp_domain_id dp)) (\<lambda>multi_port.
           Inr (DataWriter_new guid dw_qos topic,
             \<lparr>wi_guid = guid, wi_reliability_level = reliability_level, wi_unicast_locator_list = uni,
              wi_multicast_locator_list = [new_from_ipv4 multi_port MULTICAST_GROUP], wi_push_mode = True,
              wi_heartbeat_period =
                (case reliability_level of
                   Reliable \<Rightarrow> from_core (cfg_heartbeat_period config)
                 | BestEffort \<Rightarrow> DURATION_ZERO),
              wi_nack_response_delay = from_core (cfg_nack_response_delay config),
              wi_nack_suppression_duration = DURATION_ZERO, wi_data_max_size_serialized = 0,
              wi_whc = HistoryCache_new HCWriter, wi_topic = topic, wi_qos = dw_qos\<rparr>)))))"

definition create_datawriter :: "DataWriterQosPolicies qos_choice \<Rightarrow> Topic \<Rightarrow> Publisher \<Rightarrow> DomainParticipantInner
    \<Rightarrow> WriterIngredients list \<Rightarrow> (DataWriter \<times> DomainParticipantInner \<times> WriterIngredients list) res" where
  "create_datawriter qos topic p dp create_writer_sender =
     (let kind = (case topic_kind topic of
                    WithKey \<Rightarrow> WRITER_WITH_KEY_USER_DEFIND | NoKey \<Rightarrow> WRITER_NO_KEY_USER_DEFIND);
          (key, dp') = gen_entity_key dp
      in rbind (create_datawriter_with_entityid qos topic p (EntityId key kind) dp') (\<lambda>(dw, w_ing).
           Inr (dw, dp', create_writer_sender @ [w_ing])))"

section \<open>Subscribers and data readers\<close>

record Subscriber =
  sub_guid :: GUID
  sub_qos :: SubscriberQosPolicies
  default_dr_qos :: DataReaderQosPolicies

definition Subscriber_new :: "GUID \<Rightarrow> SubscriberQosPolicies \<Rightarrow> Subscriber" where
  "Subscriber_new guid qos =
     \<lparr>sub_guid = guid, sub_qos = qos, default_dr_qos = datareader_build DataReaderQosBuilder_new\<rparr>"

definition set_qos_sub :: "SubscriberQosPolicies \<Rightarrow> Subscriber \<Rightarrow> Subscriber" where
  "set_qos_sub qos s = s\<lparr>sub_qos := qos\<rparr>"

definition set_default_datareader_qos :: "DataReaderQosPolicies \<Rightarrow> Subscriber \<Rightarrow> Subscriber" where
  "set_default_datareader_qos qos s = s\<lparr>default_dr_qos := qos\<rparr>"

definition create_subscriber :: "SubscriberQosPolicies qos_choice \<Rightarrow> DomainParticipantInner
    \<Rightarrow> Subscriber \<times> DomainParticipantInner" where
  "create_subscriber qos dp =
     (let (key, dp') = gen_entity_key dp
      in (Subscriber_new (GUID (guid_prefix (my_guid dp)) (EntityId key SUBSCRIBER))
            (or_factory_default qos (default_subscriber_qos dp)), dp'))"

definition effective_dr_qos :: "DataReaderQosPolicies qos_choice \<Rightarrow> Topic \<Rightarrow> Subscriber \<Rightarrow> DataReaderQosPolicies" where
  "effective_dr_qos qos topic s =
     (case qos of
        QosDefault \<Rightarrow> default_dr_qos s
      | QosPolicies q \<Rightarrow> dr_combine (dr_combine (to_datareader_qos (topic_qos topic)) (default_dr_qos s)) q)"

definition create_datareader_with_entityid :: "DataReaderQosPolicies qos_choice \<Rightarrow> Topic \<Rightarrow> Subscriber
    \<Rightarrow> EntityId \<Rightarrow> DomainParticipantInner \<Rightarrow> (DataReader \<times> ReaderIngredients) res" where
  "create_datareader_with_entityid qos topic s eid dp =
     (let dr_qos = effective_dr_qos qos topic s;
          guid = GUID (guid_prefix (my_guid dp)) eid
      in rbind (usertraffic_unicast_port (dp_domain_id dp) (dp_participant_id dp)) (\<lambda>uni_port.
         rbind (new_list_from_multi_ipv4 uni_port (network_interfaces dp)) (\<lambda>uni.
         rbind (usertraffic_multicast_port (dp_domain_id dp)) (\<lambda>multi_port.
           Inr (DataReader_new guid dr_qos topic,
             \<lparr>ri_guid = guid, ri_reliability_level = reliability_kind (fst (dr_reliability dr_qos)),
              ri_unicast_locator_list = uni,
              ri_multicast_locator_list = [new_from_ipv4 multi_port MULTICAST_GROUP],
              ri_expectsinline_qos = False,
              ri_heartbeat_response_delay = from_core (cfg_heartbeat_response_delay (participant_config dp)),
              ri_rhc = HistoryCache_new HCReader, ri_topic = topic, ri_qos = dr_qos\<rparr>)))))"

definition create_datareader :: "DataReaderQosPolicies qos_choice \<Rightarrow> Topic \<Rightarrow> Subscriber \<Rightarrow> DomainParticipantInner
    \<Rightarrow> ReaderIngredients list \<Rightarrow> (DataReader \<times> DomainParticipantInner \<times> ReaderIngredients list) res" where
  "create_datareader qos topic s dp create_reader_sender =
     (let kind = (case topic_kind topic of
                    WithKey \<Rightarrow> READER_WITH_KEY_USER_DEFIND | NoKey \<Rightarrow> READER_NO_KEY_USER_DEFIND);
          (key, dp') = gen_entity_key dp
      in rbind (create_datareader_with_entityid qos topic s (EntityId key kind) dp') (\<lambda>(dr, r_ing).
           Inr (dr, dp', create_reader_sender @ [r_ing])))"

end
