(* ===== verification/Umber_Node.thy ===== *)
theory Umber_Node
  imports Umber_Entities
begin

text \<open>
  The discovery thread (\<^verbatim>\<open>src/discovery.rs\<close>) and a whole participant: \<open>Node\<close> is the participant's record,
  its event loop and its discovery thread, which share the discovery data base, the channels and the caches of
  the built-in writers; \<open>nd_cmds\<close> holds the commands in the channels of the writers.

  The discovery thread is a function of what its poll returns: the clock and the messages that
  the writers have sent it. A write waits while the cache is full: the result \<open>None\<close> says that the thread does
  not get past the write.
\<close>

section \<open>Built-in endpoints\<close>

record BuiltinEndpoints =
  be_publisher :: Publisher
  be_subscriber :: Subscriber
  spdp_builtin_participant_writer :: DataWriter
  sedp_builtin_pub_writer :: DataWriter
  sedp_builtin_pub_reader :: DataReader
  sedp_builtin_sub_writer :: DataWriter
  sedp_builtin_sub_reader :: DataReader
  p2p_builtin_participant_msg_writer :: DataWriter
  p2p_builtin_participant_msg_reader :: DataReader

definition spdp_writer_qos :: DataWriterQosPolicies where
  "spdp_writer_qos = datawriter_build (DataWriterQosBuilder_new\<lparr>wb_reliability := Some default_besteffort\<rparr>)"

definition sedp_writer_qos :: DataWriterQosPolicies where
  "sedp_writer_qos =
     datawriter_build (DataWriterQosBuilder_new\<lparr>wb_reliability := Some default_reliable,
       wb_history := Some \<lparr>history_kind = KeepAll, history_depth = 0\<rparr>\<rparr>)"

definition sedp_reader_qos :: DataReaderQosPolicies where
  "sedp_reader_qos = datareader_build (DataReaderQosBuilder_new\<lparr>rb_reliability := Some default_reliable\<rparr>)"

definition sedp_topic_qos :: TopicQosPolicies where
  "sedp_topic_qos =
     topic_build (TopicQosBuilder_new\<lparr>tb_reliability := Some default_reliable, tb_durability := Some TransientLocal\<rparr>)"

definition p2p_topic_qos :: TopicQosPolicies where
  "p2p_topic_qos =
     topic_build (TopicQosBuilder_new\<lparr>tb_reliability := Some default_reliable, tb_durability := Some TransientLocal,
       tb_history := Some \<lparr>history_kind = KeepLast, history_depth = 1\<rparr>\<rparr>)"

definition create_builtin_endpoints :: "DomainParticipantInner
    \<Rightarrow> (BuiltinEndpoints \<times> BuiltinEndpointsIngredients \<times> DomainParticipantInner) res" where
  "create_builtin_endpoints dp0 =
     (let (p, dp1) = create_publisher QosDefault dp0;
          (s, dp) = create_subscriber QosDefault dp1;
          spdp_topic = create_builtin_topic ''DCPSParticipant'' ''SPDPDiscoveredParticipantData'' WithKey QosDefault dp;
          pub_topic = create_builtin_topic ''DCPSPublication'' ''PublicationBuiltinTopicData'' WithKey
            (QosPolicies sedp_topic_qos) dp;
          sub_topic = create_builtin_topic ''DCPSSucscription'' ''SubscriptionBuiltinTopicData'' WithKey
            (QosPolicies sedp_topic_qos) dp;
          p2p_topic = create_builtin_topic ''DCPSParticipantMessage'' ''ParticipantMessageData'' WithKey
            (QosPolicies p2p_topic_qos) dp
      in rbind (create_datawriter_with_entityid (QosPolicies spdp_writer_qos) spdp_topic p
                  SPDP_BUILTIN_PARTICIPANT_ANNOUNCER dp) (\<lambda>(spdp_w, spdp_w_ing).
         rbind (create_datawriter_with_entityid (QosPolicies sedp_writer_qos) pub_topic p
                  SEDP_BUILTIN_PUBLICATIONS_ANNOUNCER dp) (\<lambda>(pub_w, pub_w_ing).
         rbind (create_datareader_with_entityid (QosPolicies sedp_reader_qos) pub_topic s
                  SEDP_BUILTIN_PUBLICATIONS_DETECTOR dp) (\<lambda>(pub_r, pub_r_ing).
         rbind (create_datawriter_with_entityid (QosPolicies sedp_writer_qos) sub_topic p
                  SEDP_BUILTIN_SUBSCRIPTIONS_ANNOUNCER dp) (\<lambda>(sub_w, sub_w_ing).
         rbind (create_datareader_with_entityid (QosPolicies sedp_reader_qos) sub_topic s
                  SEDP_BUILTIN_SUBSCRIPTIONS_DETECTOR dp) (\<lambda>(sub_r, sub_r_ing).
         rbind (create_datawriter_with_entityid (QosPolicies (default_dw_qos p)) p2p_topic p
                  P2P_BUILTIN_PARTICIPANT_MESSAGE_WRITER dp) (\<lambda>(p2p_w, p2p_w_ing).
         rbind (create_datareader_with_entityid (QosPolicies (default_dr_qos s)) p2p_topic s
                  P2P_BUILTIN_PARTICIPANT_MESSAGE_READER dp) (\<lambda>(p2p_r, p2p_r_ing).
           Inr (\<lparr>be_publisher = p, be_subscriber = s, spdp_builtin_participant_writer = spdp_w,
                  sedp_builtin_pub_writer = pub_w, sedp_builtin_pub_reader = pub_r,
                  sedp_builtin_sub_writer = sub_w, sedp_builtin_sub_reader = sub_r,
                  p2p_builtin_participant_msg_writer = p2p_w, p2p_builtin_participant_msg_reader = p2p_r\<rparr>,
                \<lparr>spdp_builtin_participant_writer_ing = spdp_w_ing,
                  sedp_builtin_pub_writer_ing = pub_w_ing, sedp_builtin_pub_reader_ing = pub_r_ing,
                  sedp_builtin_sub_writer_ing = sub_w_ing, sedp_builtin_sub_reader_ing = sub_r_ing,
                  p2p_builtin_participant_msg_writer_ing = p2p_w_ing,
                  p2p_builtin_participant_msg_reader_ing = p2p_r_ing\<rparr>, dp)))))))))"

section \<open>The discovery thread\<close>

datatype DiscTimer = SpdpSend CoreDuration | ParticipantLivelinessCheck CoreDuration

record Discovery =
  dc_endpoints :: BuiltinEndpoints
  self_spdp_data :: SerializedPayload
  dc_timers :: "DiscTimer list"
  local_writers_data :: "(EntityId, DiscoveredWriterData) btree_map"
  local_readers_data :: "(EntityId, DiscoveredReaderData) btree_map"

definition Discovery_new :: "BuiltinEndpoints \<Rightarrow> SerializedPayload \<Rightarrow> Discovery" where
  "Discovery_new be payload =
     \<lparr>dc_endpoints = be, self_spdp_data = payload,
      dc_timers = [SpdpSend (core_secs_only 3), ParticipantLivelinessCheck (core_secs_only 5)],
      local_writers_data = [], local_readers_data = []\<rparr>"

record Node =
  nd_dp :: DomainParticipantInner
  nd_loop :: EventLoop
  nd_disc :: Discovery
  nd_cmds :: "(EntityId, WriterCmd list) btree_map"

definition cmds_of :: "EntityId \<Rightarrow> Node \<Rightarrow> WriterCmd list" where
  "cmds_of eid n = or_default (bm_get (nd_cmds n) eid) []"

definition send_cmd :: "EntityId \<Rightarrow> WriterCmd \<Rightarrow> Node \<Rightarrow> Node" where
  "send_cmd eid c n = n\<lparr>nd_cmds := bm_insert eid (cmds_of eid n @ [c]) (nd_cmds n)\<rparr>"

type_synonym 'a run = "'a option res"

definition run_bind :: "'a run \<Rightarrow> ('a \<Rightarrow> 'b run) \<Rightarrow> 'b run" where
  "run_bind m f = rbind m (\<lambda>x. case x of Some a \<Rightarrow> f a | None \<Rightarrow> Inr None)"

definition run_of :: "'a res \<Rightarrow> 'a run" where
  "run_of m = rbind m (\<lambda>a. Inr (Some a))"

fun run_fold :: "('x \<Rightarrow> 'a \<Rightarrow> 'a run) \<Rightarrow> 'x list \<Rightarrow> 'a \<Rightarrow> 'a run" where
  "run_fold f [] a = Inr (Some a)"
| "run_fold f (x # xs) a = run_bind (f x a) (run_fold f xs)"

text \<open>\<^verbatim>\<open>writer_data_to_hc\<close> of a built-in data writer, whose cache is that of the RTPS writer.\<close>

definition writer_data_to_hc :: "Timestamp \<Rightarrow> SerializedPayload \<Rightarrow> bool \<Rightarrow> DataWriter \<Rightarrow> Node
    \<Rightarrow> (DataWriter \<times> Node) run" where
  "writer_data_to_hc ts payload inc_seq_num dw n =
     rbind (advance_seq_num inc_seq_num dw) (\<lambda>dw'.
       let eid = entity_id (dwr_writer_guid dw') in
       case bm_get (el_writers (nd_loop n)) eid of
         None \<Rightarrow> Inr None
       | Some w \<Rightarrow>
           rbind (add_change (a_change ts payload dw') (dwr_is_reliable dw')
                    (fst (dw_resource_limits (dwr_qos dw'))) (fst (dw_history (dwr_qos dw'))) (writer_cache w))
             (\<lambda>(cache, write_res).
               case write_res of
                 Inr _ \<Rightarrow> Inr (Some (dw', send_cmd eid WriteData
                   (n\<lparr>nd_loop := put_writer_at eid (w\<lparr>writer_cache := cache\<rparr>) (nd_loop n)\<rparr>)))
               | Inl (WouldBlock t) \<Rightarrow> Inr None))"

definition write_serialized_builtin_data :: "Timestamp option \<Rightarrow> SerializedPayload \<Rightarrow> bool \<Rightarrow> DataWriter \<Rightarrow> Node
    \<Rightarrow> (DataWriter \<times> Node) run" where
  "write_serialized_builtin_data now payload inc_seq_num dw n =
     run_bind (run_of (unwrap now)) (\<lambda>ts. writer_data_to_hc ts payload inc_seq_num dw n)"

text \<open>The serialised form of the data, which may itself panic, is the argument \<open>bytes\<close>.\<close>

definition write_builtin_data :: "Timestamp option \<Rightarrow> u8 list res \<Rightarrow> bool \<Rightarrow> DataWriter \<Rightarrow> Node
    \<Rightarrow> (DataWriter \<times> Node) run" where
  "write_builtin_data now bytes inc_seq_num dw n =
     run_bind (run_of (unwrap now)) (\<lambda>ts.
     run_bind (run_of (rbind bytes (\<lambda>b. new_from_cdr_data (\<lambda>_. b) PL_CDR_LE))) (\<lambda>payload.
       writer_data_to_hc ts payload inc_seq_num dw n))"

definition dw_write :: "Timestamp option \<Rightarrow> u8 list res \<Rightarrow> DataWriter \<Rightarrow> Node \<Rightarrow> (DataWriter \<times> Node) run" where
  "dw_write now bytes dw n =
     run_bind (run_of (unwrap now)) (\<lambda>ts.
     run_bind (run_of (rbind bytes (\<lambda>b. new_from_cdr_data (\<lambda>_. b) CDR_LE))) (\<lambda>payload.
       writer_data_to_hc ts payload True dw n))"

definition on_endpoints :: "(BuiltinEndpoints \<Rightarrow> BuiltinEndpoints) \<Rightarrow> Node \<Rightarrow> Node" where
  "on_endpoints f n = n\<lparr>nd_disc := (nd_disc n)\<lparr>dc_endpoints := f (dc_endpoints (nd_disc n))\<rparr>\<rparr>"

definition disc_timer :: "DiscTimer \<Rightarrow> Node \<Rightarrow> Node" where
  "disc_timer t n = n\<lparr>nd_disc := (nd_disc n)\<lparr>dc_timers := dc_timers (nd_disc n) @ [t]\<rparr>\<rparr>"

definition spdp_send :: "Timestamp option \<Rightarrow> Node \<Rightarrow> Node run" where
  "spdp_send now n =
     run_bind (write_serialized_builtin_data now (self_spdp_data (nd_disc n)) False
                 (spdp_builtin_participant_writer (dc_endpoints (nd_disc n))) n) (\<lambda>(dw, n').
       Inr (Some (disc_timer (SpdpSend (participant_message_period (participant_config (nd_dp n'))))
         (on_endpoints (\<lambda>be. be\<lparr>spdp_builtin_participant_writer := dw\<rparr>) n'))))"

definition send_participant_message :: "Speedy \<Rightarrow> Timestamp option \<Rightarrow> ParticipantMessageCmd \<Rightarrow> Node \<Rightarrow> Node run" where
  "send_participant_message S now cmd n =
     (case cmd of SendData data \<Rightarrow>
        run_bind (dw_write now (Inr (write_participant_message_data S LittleEndian data))
                    (p2p_builtin_participant_msg_writer (dc_endpoints (nd_disc n))) n) (\<lambda>(dw, n').
          Inr (Some (on_endpoints (\<lambda>be. be\<lparr>p2p_builtin_participant_msg_writer := dw\<rparr>) n'))))"

definition participant_liveliness_check :: "Timestamp option \<Rightarrow> Node \<Rightarrow> Node" where
  "participant_liveliness_check now n =
     (let el = nd_loop n;
          (db, next_duration, lost) = check_participant_liveliness (or_default now TIME_INVALID) (el_db el);
          el' = (on_recv (on_db (\<lambda>_. db)) el)
            \<lparr>discdb_update_receiver := discdb_update_receiver el @ map DeleteParticipant lost\<rparr>
      in disc_timer (ParticipantLivelinessCheck next_duration) (n\<lparr>nd_loop := el'\<rparr>))"

definition announce_new_writer :: "Speedy \<Rightarrow> Timestamp option \<Rightarrow> EntityId \<times> DiscoveredWriterData \<Rightarrow> Node \<Rightarrow> Node run" where
  "announce_new_writer S now x n =
     (case x of (eid, proxy, data) \<Rightarrow>
        run_bind (write_builtin_data now (write_discovered_writer S LittleEndian proxy data) True
                    (sedp_builtin_pub_writer (dc_endpoints (nd_disc n))) n) (\<lambda>(dw, n').
          let n'' = on_endpoints (\<lambda>be. be\<lparr>sedp_builtin_pub_writer := dw\<rparr>) n'
          in Inr (Some (n''\<lparr>nd_disc := (nd_disc n'')
               \<lparr>local_writers_data := bm_insert eid (proxy, data) (local_writers_data (nd_disc n''))\<rparr>\<rparr>))))"

definition announce_new_reader :: "Speedy \<Rightarrow> Timestamp option \<Rightarrow> EntityId \<times> DiscoveredReaderData \<Rightarrow> Node \<Rightarrow> Node run" where
  "announce_new_reader S now x n =
     (case x of (eid, proxy, data) \<Rightarrow>
        run_bind (write_builtin_data now (write_discovered_reader S LittleEndian proxy data) True
                    (sedp_builtin_sub_writer (dc_endpoints (nd_disc n))) n) (\<lambda>(dw, n').
          let n'' = on_endpoints (\<lambda>be. be\<lparr>sedp_builtin_sub_writer := dw\<rparr>) n'
          in Inr (Some (n''\<lparr>nd_disc := (nd_disc n'')
               \<lparr>local_readers_data := bm_insert eid (proxy, data) (local_readers_data (nd_disc n''))\<rparr>\<rparr>))))"

text \<open>One event of \<^verbatim>\<open>discovery_loop\<close>; \<open>msgs\<close> is what has arrived from the writers.\<close>

definition handle_discovery :: "Speedy \<Rightarrow> Timestamp option \<Rightarrow> ParticipantMessageCmd list \<Rightarrow> Token \<Rightarrow> Node \<Rightarrow> Node run" where
  "handle_discovery S now msgs token n =
     (case decode token of
        ReservedToken t \<Rightarrow>
          if t = SPDP_SEND_TIMER then spdp_send now n
          else if t = PARTICIPANT_MESSAGE_CMD_RECEIVER then run_fold (send_participant_message S now) msgs n
          else if t = PARTICIPANT_MESSAGE_READER then Inr (Some n)
          else if t = PARTICIPANT_LIVELINESS_TIMER then Inr (Some (participant_liveliness_check now n))
          else if t = DISC_WRITER_ADD then
            run_fold (announce_new_writer S now) (notify_new_writer_sender (nd_loop n))
              (n\<lparr>nd_loop := (nd_loop n)\<lparr>notify_new_writer_sender := []\<rparr>\<rparr>)
          else if t = DISC_READER_ADD then
            run_fold (announce_new_reader S now) (notify_new_reader_sender (nd_loop n))
              (n\<lparr>nd_loop := (nd_loop n)\<lparr>notify_new_reader_sender := []\<rparr>\<rparr>)
          else Inl Unimplemented
      | EntityToken eid \<Rightarrow> if is_reader eid then Inl Unimplemented else Inl Unreachable)"

section \<open>Creating a participant\<close>

definition DomainParticipant_new :: "Speedy \<Rightarrow> Host \<Rightarrow> Timestamp option \<Rightarrow> (Timeout \<Rightarrow> bool) \<Rightarrow> int \<Rightarrow> u8 list list
    \<Rightarrow> ParticipantConfig option \<Rightarrow> Node res" where
  "DomainParticipant_new S host now can dom_id interfaces config =
     rbind (choose_interfaces host interfaces) (\<lambda>nics.
     rbind (DomainParticipantInner_new S host dom_id nics (or_default config ParticipantConfig_default)) (\<lambda>(dp0, sockets).
     rbind (create_builtin_endpoints dp0) (\<lambda>(be, be_ing, dp).
     rbind (EventLoop_new now can dom_id (guid_prefix (my_guid dp)) sockets (guid_prefix (my_guid dp))
              DiscoveryDB_new (serialized_spdp_data dp) be_ing) (\<lambda>el.
       Inr \<lparr>nd_dp = dp, nd_loop = el, nd_disc = Discovery_new be (serialized_spdp_data dp), nd_cmds = []\<rparr>))))"

end
