(* ===== verification/Umber_Creation.thy ===== *)
theory Umber_Creation
  imports Umber_Node
begin

text \<open>
  What the creation of a participant and of its entities gives: unique entity identifiers, the
  QoS in force, an event loop with all built-in endpoints that satisfies its invariant.
\<close>

section \<open>Entity keys\<close>

definition key_of :: "u32 \<Rightarrow> u8 \<times> u8 \<times> u8" where
  "key_of k = (ucast (drop_bit 16 k), ucast (drop_bit 8 k), ucast k)"

fun gen_keys :: "nat \<Rightarrow> DomainParticipantInner \<Rightarrow> (u8 \<times> u8 \<times> u8) list \<times> DomainParticipantInner" where
  "gen_keys 0 dp = ([], dp)"
| "gen_keys (Suc n) dp =
     (let (k, dp1) = gen_entity_key dp; (ks, dp2) = gen_keys n dp1 in (k # ks, dp2))"

lemma key_of_eq: "key_of a = key_of b \<longleftrightarrow> take_bit 24 a = take_bit 24 b"
proof
  assume "key_of a = key_of b"
  then have e: "bit (drop_bit 16 a) i = bit (drop_bit 16 b) i" "bit (drop_bit 8 a) i = bit (drop_bit 8 b) i"
    "bit a i = bit b i" if "i < 8" for i
    using that by (auto simp: key_of_def bit_eq_iff bit_ucast_iff)
  show "take_bit 24 a = take_bit 24 b"
  proof (rule bit_eqI)
    fix i :: nat
    consider "i < 8" | "8 \<le> i" "i < 16" | "16 \<le> i" "i < 24" | "24 \<le> i" by linarith
    then show "bit (take_bit 24 a) i = bit (take_bit 24 b) i"
      using e(3) [of i] e(2) [of "i - 8"] e(1) [of "i - 16"]
      by cases (auto simp: bit_take_bit_iff bit_drop_bit_eq)
  qed
next
  assume e: "take_bit 24 a = take_bit 24 b"
  have "bit a i = bit b i" if "i < 24" for i
    using arg_cong [OF e, of "\<lambda>w. bit w i"] that by (simp add: bit_take_bit_iff)
  then show "key_of a = key_of b"
    by (auto simp: key_of_def bit_eq_iff bit_ucast_iff bit_drop_bit_eq)
qed

lemma gen_keys_map:
  "fst (gen_keys n dp) = map (\<lambda>i. key_of (entity_key_generator dp + of_nat i)) [0..<n]"
proof (induction n arbitrary: dp)
  case (Suc n)
  have "fst (gen_keys (Suc n) dp) = key_of (entity_key_generator dp) # fst (gen_keys n (snd (gen_entity_key dp)))"
    by (simp add: gen_entity_key_def Let_def key_of_def split: prod.split)
  also have "\<dots> = key_of (entity_key_generator dp) #
      map (\<lambda>i. key_of (entity_key_generator dp + of_nat (Suc i))) [0..<n]"
    using Suc.IH [of "snd (gen_entity_key dp)"] by (simp add: gen_entity_key_def Let_def ac_simps)
  also have "\<dots> = map (\<lambda>i. key_of (entity_key_generator dp + of_nat i)) [0..<Suc n]"
    by (simp add: upt_conv_Cons map_Suc_upt [symmetric] comp_def del: upt_Suc)
  finally show ?case .
qed simp

lemma key_of_offset: "key_of (g + of_nat i) = key_of (g + of_nat j) \<longleftrightarrow> i mod 2 ^ 24 = j mod 2 ^ 24"
proof -
  have u: "unat (take_bit 24 (g + of_nat k)) = (unat g + k) mod 2 ^ 24" for k
    unfolding unsigned_take_bit_eq
    by (simp add: unat_word_ariths(1) unat_of_nat take_bit_eq_mod mod_mod_cancel mod_simps)
  have "int ((unat g + i) mod 2 ^ 24) = int ((unat g + j) mod 2 ^ 24) \<longleftrightarrow> int (i mod 2 ^ 24) = int (j mod 2 ^ 24)"
    unfolding zmod_int of_nat_power of_nat_numeral by (simp add: mod_eq_dvd_iff)
  then show ?thesis unfolding key_of_eq word_unat_eq_iff u by simp
qed

text \<open>
  C31. Entity identifiers are unique. The keys that a participant generates one after the other are pairwise
  different exactly up to the first 2^24 of them; of a new participant, whose counter starts at 0x300,
  the first 2^24 - 0x300 keys are no key of a built-in entity, so that no publisher, subscriber, writer or reader
  it creates takes the identifier of another one.
\<close>

theorem entity_keys_unique:
  "(distinct (fst (gen_keys n dp)) \<longleftrightarrow> n \<le> 2 ^ 24) \<and>
   (entity_key_generator dp = 0x300 \<longrightarrow> n \<le> 2 ^ 24 - 0x300 \<longrightarrow>
     (\<forall>e. is_builtin e \<longrightarrow> entity_key e \<notin> set (fst (gen_keys n dp))))"
proof (intro conjI impI allI)
  let ?g = "entity_key_generator dp"
  show "distinct (fst (gen_keys n dp)) \<longleftrightarrow> n \<le> 2 ^ 24"
  proof
    show "n \<le> 2 ^ 24" if "distinct (fst (gen_keys n dp))"
    proof (rule ccontr)
      assume "\<not> n \<le> 2 ^ 24"
      then have m: "0 \<in> set [0..<n]" "2 ^ 24 \<in> set [0..<n]" by simp_all
      have "inj_on (\<lambda>i. key_of (?g + of_nat i)) (set [0..<n])"
        using that unfolding gen_keys_map distinct_map by blast
      moreover have "key_of (?g + of_nat 0) = key_of (?g + of_nat (2 ^ 24))" unfolding key_of_offset by simp
      ultimately have "(0 :: nat) = 2 ^ 24" using m by (rule inj_onD)
      then show False by simp
    qed
    show "distinct (fst (gen_keys n dp))" if "n \<le> 2 ^ 24"
      unfolding gen_keys_map distinct_map using that by (auto simp: inj_on_def key_of_offset)
  qed
  fix e
  assume "?g = 0x300" and n: "n \<le> 2 ^ 24 - 0x300" and e: "is_builtin e"
  then have ks: "set (fst (gen_keys n dp)) = (\<lambda>i. key_of (0 + of_nat (0x300 + i))) ` {0..<n}"
    by (simp add: gen_keys_map)
  have "\<exists>j < 0x300. entity_key e = key_of (0 + of_nat j)"
    using e unfolding is_builtin_def entity_id_defs
    by (auto simp: key_of_def intro: exI [of _ "0x2"] exI [of _ "0x3"] exI [of _ "0x4"] exI [of _ "0x100"] exI [of _ "0x200"])
  then obtain j where j: "j < 0x300" "entity_key e = key_of (0 + of_nat j)" by blast
  show "entity_key e \<notin> set (fst (gen_keys n dp))"
    unfolding ks j(2) image_iff key_of_offset using j(1) n by auto
qed

definition ex_dp :: DomainParticipantInner where
  "ex_dp =
     \<lparr>dp_domain_id = 0, dp_participant_id = 1, my_guid = new_participant_guid [1, 2, 3, 4, 5, 6, 7, 8, 9, 10, 11, 12],
      entity_key_generator = 0x300, default_publisher_qos = publisher_build PublisherQosBuilder_new,
      default_subscriber_qos = subscriber_build SubscriberQosBuilder_new,
      default_topic_qos = topic_build TopicQosBuilder_new, participant_config = ParticipantConfig_default,
      network_interfaces = [[10, 0, 0, 2]], dp_spdp_data = ex_spdp, serialized_spdp_data = ex_payload 0\<rparr>"

lemma ex_nic: "[10, 0, 0, 2 :: u8] \<noteq> replicate 4 0" "replicate 4 0 \<notin> set [[10, 0, 0, 2 :: u8]]"
  by (simp_all add: numeral_eq_Suc)

theorem entity_keys_unique_witness:
  "distinct (fst (gen_keys 1000 ex_dp)) \<and>
   entity_key SEDP_BUILTIN_PUBLICATIONS_ANNOUNCER \<notin> set (fst (gen_keys 1000 ex_dp))"
  using entity_keys_unique [of 1000 ex_dp] by (simp add: ex_dp_def is_builtin_def entity_id_defs)

section \<open>Data writers and data readers\<close>

lemma fresh_new:
  "wi_whc wi = HistoryCache_new HCWriter \<Longrightarrow> fresh_writer wi"
  "ri_rhc ri = HistoryCache_new HCReader \<Longrightarrow> fresh_reader ri"
  using hc_inv_new [of HCWriter] hc_inv_new [of HCReader]
  by (simp_all add: fresh_writer_def fresh_reader_def cache_ok_def HistoryCache_new_def)

lemma create_datawriter_with_entityid_fields:
  assumes "create_datawriter_with_entityid qos topic p eid dp = Inr (dw, wi)"
  shows "dw = DataWriter_new (GUID (guid_prefix (my_guid dp)) eid) (effective_dw_qos qos topic p) topic"
    and "wi_fixed wi = (GUID (guid_prefix (my_guid dp)) eid,
      reliability_kind (fst (dw_reliability (effective_dw_qos qos topic p))), effective_dw_qos qos topic p, topic)"
    and "fresh_writer wi" and "wi_guid wi = GUID (guid_prefix (my_guid dp)) eid"
    and "wi_heartbeat_period wi = (if reliability_kind (fst (dw_reliability (effective_dw_qos qos topic p))) = Reliable
      then from_core (cfg_heartbeat_period (participant_config dp)) else DURATION_ZERO)"
  using assms
  by (auto simp: create_datawriter_with_entityid_def Let_def wi_fixed_def elim!: rbind_Inr_E intro!: fresh_new
      split: ReliabilityQosKind.split)

lemma create_datareader_with_entityid_fields:
  assumes "create_datareader_with_entityid qos topic s eid dp = Inr (dr, ri)"
  shows "dr = DataReader_new (GUID (guid_prefix (my_guid dp)) eid) (effective_dr_qos qos topic s) topic"
    and "ri_guid ri = GUID (guid_prefix (my_guid dp)) eid" and "ri_qos ri = effective_dr_qos qos topic s"
    and "ri_reliability_level ri = reliability_kind (fst (dr_reliability (effective_dr_qos qos topic s)))"
    and "ri_topic ri = topic" and "fresh_reader ri"
  using assms
  by (auto simp: create_datareader_with_entityid_def Let_def elim!: rbind_Inr_E intro!: fresh_new)

text \<open>The value that was set last on the way from the topic over the factory to the caller.\<close>

definition chosen :: "'p \<times> bool \<Rightarrow> 'p \<times> bool \<Rightarrow> 'p \<times> bool \<Rightarrow> 'p" where
  "chosen topic factory caller = (if snd caller then fst caller else if snd factory then fst factory else fst topic)"

lemma combine_chosen:
  "fst (combine_policy (combine_policy t f) c) = chosen t f c"
  "fst (combine_reliability (combine_reliability t' f') c') = chosen t' f' c'"
  by (auto simp: combine_policy_def combine_reliability_def chosen_def)


definition ex_durable :: DataWriterQosPolicies where
  "ex_durable = datawriter_build (DataWriterQosBuilder_new\<lparr>wb_durability := Some TransientLocal\<rparr>)"

lemma ex_datawriter:
  "\<exists>dw dp' sent. create_datawriter (QosPolicies ex_durable) ex_topic (fst (create_publisher QosDefault ex_dp))
       (snd (create_publisher QosDefault ex_dp)) [] = Inr (dw, dp', sent) \<and>
     entity_id (dwr_writer_guid dw) = EntityId (0, 3, 1) WRITER_WITH_KEY_USER_DEFIND"
  by (simp add: create_datawriter_def create_datawriter_with_entityid_def create_publisher_def gen_entity_key_def ex_dp_def
      Let_def ex_topic_def DataWriter_new_def usertraffic_unicast_port_def usertraffic_multicast_port_def u16_checked_def ex_nic)


section \<open>The event loop with the built-in endpoints\<close>

text \<open>The identities of the built-in writers of a participant and of its built-in readers.\<close>

definition w_table :: "WriterIngredients list \<Rightarrow> EntityId \<rightharpoonup> w_identity" where
  "w_table wis = map_of (map (\<lambda>wi. (entity_id (wi_guid wi), wi_fixed wi)) wis)"

definition r_table :: "ReaderIngredients list \<Rightarrow> EntityId \<rightharpoonup> r_identity" where
  "r_table ris = map_of (map (\<lambda>ri. (entity_id (ri_guid ri), ri_fixed ri)) ris)"

definition builtin_writers :: "BuiltinEndpointsIngredients \<Rightarrow> WriterIngredients list" where
  "builtin_writers be = [p2p_builtin_participant_msg_writer_ing be, sedp_builtin_sub_writer_ing be,
     sedp_builtin_pub_writer_ing be, spdp_builtin_participant_writer_ing be]"

definition builtin_readers :: "BuiltinEndpointsIngredients \<Rightarrow> ReaderIngredients list" where
  "builtin_readers be = [p2p_builtin_participant_msg_reader_ing be, sedp_builtin_sub_reader_ing be,
     sedp_builtin_pub_reader_ing be]"

lemma table_Cons:
  "w_table (wi # wis) = (w_table wis)(entity_id (wi_guid wi) \<mapsto> wi_fixed wi)"
  "r_table (ri # ris) = (r_table ris)(entity_id (ri_guid ri) \<mapsto> ri_fixed ri)"
  by (simp_all add: w_table_def r_table_def)

lemma table_None:
  "w_table wis e = None \<longleftrightarrow> e \<notin> (\<lambda>wi. entity_id (wi_guid wi)) ` set wis"
  "r_table ris e = None \<longleftrightarrow> e \<notin> (\<lambda>ri. entity_id (ri_guid ri)) ` set ris"
  by (simp_all add: w_table_def r_table_def map_of_eq_None_iff image_image)

definition registered_ok :: "WriterIngredients list \<Rightarrow> ReaderIngredients list \<Rightarrow> EventLoop \<Rightarrow> bool" where
  "registered_ok wis ris el \<longleftrightarrow> loop_ok \<lparr>tw = w_table wis, tr = r_table ris\<rparr> {} el \<and>
     create_writer_receiver el = [] \<and> create_reader_receiver el = []"

lemma register_next_writer:
  assumes "registered_ok wis ris el" and "register_writer now can wi el = Inr el'"
    and "fresh_writer wi" and "entity_id (wi_guid wi) \<notin> (\<lambda>wi. entity_id (wi_guid wi)) ` set wis"
  shows "registered_ok (wi # wis) ris el'"
  using register_writer_enters [of "\<lparr>tw = w_table wis, tr = r_table ris\<rparr>" el wi now can el']
    register_writer_fields(1,2) [OF assms(2)] assms
  by (simp add: table_Cons table_None registered_ok_def)

lemma register_next_reader:
  assumes "registered_ok wis ris el" and "register_reader ri el = Inr el'"
    and "fresh_reader ri" and "entity_id (ri_guid ri) \<notin> (\<lambda>ri. entity_id (ri_guid ri)) ` set ris"
  shows "registered_ok wis (ri # ris) el'"
  using register_reader_enters [of "\<lparr>tw = w_table wis, tr = r_table ris\<rparr>" el ri el']
    register_reader_fields(1,2) [OF assms(2)] assms
  by (simp add: table_Cons table_None registered_ok_def)

lemma register_builtin_endpoints_ok:
  assumes el: "registered_ok [] [] el"
    and w: "list_all fresh_writer (builtin_writers be)" "distinct (map (\<lambda>wi. entity_id (wi_guid wi)) (builtin_writers be))"
    and r: "list_all fresh_reader (builtin_readers be)" "distinct (map (\<lambda>ri. entity_id (ri_guid ri)) (builtin_readers be))"
    and run: "register_builtin_endpoints now can be el = Inr el'"
  shows "registered_ok (builtin_writers be) (builtin_readers be) el'"
proof -
  from run obtain a b c d e f where
    1: "register_writer now can (spdp_builtin_participant_writer_ing be) el = Inr a"
    and 2: "register_writer now can (sedp_builtin_pub_writer_ing be) a = Inr b"
    and 3: "register_reader (sedp_builtin_pub_reader_ing be) b = Inr c"
    and 4: "register_writer now can (sedp_builtin_sub_writer_ing be) c = Inr d"
    and 5: "register_reader (sedp_builtin_sub_reader_ing be) d = Inr e"
    and 6: "register_writer now can (p2p_builtin_participant_msg_writer_ing be) e = Inr f"
    and 7: "register_reader (p2p_builtin_participant_msg_reader_ing be) f = Inr el'"
    unfolding register_builtin_endpoints_def by (auto elim!: rbind_Inr_E)
  note n = register_next_reader [OF register_next_writer [OF register_next_reader [OF register_next_writer [OF
    register_next_reader [OF register_next_writer [OF register_next_writer [OF el 1] 2] 3] 4] 5] 6] 7]
  show ?thesis unfolding builtin_writers_def builtin_readers_def
    using w r by (intro n) (auto simp: builtin_writers_def builtin_readers_def)
qed

lemma EventLoop_new_ok:
  assumes "EventLoop_new now can dom_id prefix sockets p db payload be = Inr el" and "db_inv db"
    and w: "list_all fresh_writer (builtin_writers be)" "distinct (map (\<lambda>wi. entity_id (wi_guid wi)) (builtin_writers be))"
    and r: "list_all fresh_reader (builtin_readers be)" "distinct (map (\<lambda>ri. entity_id (ri_guid ri)) (builtin_readers be))"
  shows "loop_inv \<lparr>tw = w_table (builtin_writers be), tr = r_table (builtin_readers be)\<rparr> el"
proof -
  let ?el = "\<lparr>el_domain_id = dom_id, el_guid_prefix = prefix, el_sockets = sockets,
    el_recv = \<lparr>mr = MessageReceiver_new p dom_id db payload, ws = [], rs = []\<rparr>,
    create_writer_receiver = [], create_reader_receiver = [], notify_new_writer_sender = [],
    notify_new_reader_sender = [], el_timers = [SetTimeout ASSERT_LIVELINESS_PERIOD AssertLive],
    reader_deadline_timeout = [], writer_deadline_timeout = [], wlp_timeouts = [],
    check_liveliness_timer_to = None, discdb_update_receiver = []\<rparr> :: EventLoop"
  have "registered_ok [] [] ?el"
    using assms(2) by (simp add: registered_ok_def loop_ok_def recv_inv_def keyed_def established_def el_readers_def
        el_writers_def MessageReceiver_new_def bm_wf_def w_table_def r_table_def)
  from register_builtin_endpoints_ok [OF this w r assms(1) [unfolded EventLoop_new_def]] show ?thesis
    by (simp add: loop_inv_def registered_ok_def)
qed

definition dw_identity :: "DataWriter \<Rightarrow> w_identity" where
  "dw_identity dw =
     (dwr_writer_guid dw, reliability_kind (fst (dw_reliability (dwr_qos dw))), dwr_qos dw, dwr_topic dw)"

definition builtin_dws :: "BuiltinEndpoints \<Rightarrow> DataWriter list" where
  "builtin_dws be = [p2p_builtin_participant_msg_writer be, sedp_builtin_sub_writer be,
     sedp_builtin_pub_writer be, spdp_builtin_participant_writer be]"

definition dr_identity :: "DataReader \<Rightarrow> r_identity" where
  "dr_identity dr =
     (drd_reader_guid dr, reliability_kind (fst (dr_reliability (drd_qos dr))), drd_qos dr, drd_topic dr)"

definition builtin_drs :: "BuiltinEndpoints \<Rightarrow> DataReader list" where
  "builtin_drs be = [p2p_builtin_participant_msg_reader be, sedp_builtin_sub_reader be, sedp_builtin_pub_reader be]"

definition d_table :: "BuiltinEndpoints \<Rightarrow> Table" where
  "d_table be =
     \<lparr>tw = map_of (map (\<lambda>dw. (entity_id (dwr_writer_guid dw), dw_identity dw)) (builtin_dws be)),
      tr = map_of (map (\<lambda>dr. (entity_id (drd_reader_guid dr), dr_identity dr)) (builtin_drs be))\<rparr>"

definition p2p_writer_qos :: DataWriterQosPolicies where
  "p2p_writer_qos = datawriter_build DataWriterQosBuilder_new"

definition p2p_reader_qos :: DataReaderQosPolicies where
  "p2p_reader_qos = datareader_build DataReaderQosBuilder_new"

text \<open>The QoS of the endpoints that take part in the discovery of other endpoints.\<close>

definition in_force_w :: "TopicQosPolicies \<Rightarrow> DataWriterQosPolicies \<Rightarrow> DataWriterQosPolicies" where
  "in_force_w t q = dw_combine (dw_combine (to_datawriter_qos t) (datawriter_build DataWriterQosBuilder_new)) q"

definition in_force_r :: "TopicQosPolicies \<Rightarrow> DataReaderQosPolicies \<Rightarrow> DataReaderQosPolicies" where
  "in_force_r t q = dr_combine (dr_combine (to_datareader_qos t) (datareader_build DataReaderQosBuilder_new)) q"

definition builtin_qos :: "BuiltinEndpointsIngredients \<Rightarrow> DomainParticipantInner \<Rightarrow> bool" where
  "builtin_qos be dp \<longleftrightarrow>
     map wi_qos (builtin_writers be) =
       [in_force_w p2p_topic_qos p2p_writer_qos, in_force_w sedp_topic_qos sedp_writer_qos,
        in_force_w sedp_topic_qos sedp_writer_qos, in_force_w (default_topic_qos dp) spdp_writer_qos] \<and>
     map ri_qos (builtin_readers be) =
       [in_force_r p2p_topic_qos p2p_reader_qos, in_force_r sedp_topic_qos sedp_reader_qos,
        in_force_r sedp_topic_qos sedp_reader_qos]"

lemma wi_fixedD: "wi_fixed wi = (g, l, q, t) \<Longrightarrow> wi_guid wi = g \<and> wi_reliability_level wi = l \<and> wi_qos wi = q \<and> wi_topic wi = t"
  by (simp add: wi_fixed_def)

lemma create_builtin_endpoints_fields:
  assumes "create_builtin_endpoints dp = Inr (be, ing, dp')"
  shows "list_all fresh_writer (builtin_writers ing)" and "list_all fresh_reader (builtin_readers ing)"
    and "map wi_guid (builtin_writers ing) = map (GUID (guid_prefix (my_guid dp)))
      [P2P_BUILTIN_PARTICIPANT_MESSAGE_WRITER, SEDP_BUILTIN_SUBSCRIPTIONS_ANNOUNCER,
       SEDP_BUILTIN_PUBLICATIONS_ANNOUNCER, SPDP_BUILTIN_PARTICIPANT_ANNOUNCER]"
    and "map ri_guid (builtin_readers ing) = map (GUID (guid_prefix (my_guid dp)))
      [P2P_BUILTIN_PARTICIPANT_MESSAGE_READER, SEDP_BUILTIN_SUBSCRIPTIONS_DETECTOR, SEDP_BUILTIN_PUBLICATIONS_DETECTOR]"
    and "builtin_qos ing dp" and "map wi_fixed (builtin_writers ing) = map dw_identity (builtin_dws be)"
    and "map ri_fixed (builtin_readers ing) = map dr_identity (builtin_drs be)"
    and "map drd_reader_guid (builtin_drs be) = map ri_guid (builtin_readers ing)"
    and "map dwr_writer_guid (builtin_dws be) = map wi_guid (builtin_writers ing)"
    and "list_all (\<lambda>dw. last_change_sequence_number dw = 0) (builtin_dws be)"
    and "my_guid dp' = my_guid dp" and "serialized_spdp_data dp' = serialized_spdp_data dp"
    and "participant_config dp' = participant_config dp" and "dp_domain_id dp' = dp_domain_id dp"
proof -
  let ?p = "fst (create_publisher QosDefault dp)"
  let ?dp1 = "snd (create_publisher QosDefault dp)"
  let ?s = "fst (create_subscriber QosDefault ?dp1)"
  let ?dp2 = "snd (create_subscriber QosDefault ?dp1)"
  from assms obtain t1 t2 t3 t4 w1 i1 w2 i2 r3 i3 w4 i4 r5 i5 w6 i6 r7 i7 where
    1: "create_datawriter_with_entityid (QosPolicies spdp_writer_qos) t1 ?p SPDP_BUILTIN_PARTICIPANT_ANNOUNCER ?dp2 = Inr (w1, i1)"
    and 2: "create_datawriter_with_entityid (QosPolicies sedp_writer_qos) t2 ?p SEDP_BUILTIN_PUBLICATIONS_ANNOUNCER ?dp2 = Inr (w2, i2)"
    and 3: "create_datareader_with_entityid (QosPolicies sedp_reader_qos) t2 ?s SEDP_BUILTIN_PUBLICATIONS_DETECTOR ?dp2 = Inr (r3, i3)"
    and 4: "create_datawriter_with_entityid (QosPolicies sedp_writer_qos) t3 ?p SEDP_BUILTIN_SUBSCRIPTIONS_ANNOUNCER ?dp2 = Inr (w4, i4)"
    and 5: "create_datareader_with_entityid (QosPolicies sedp_reader_qos) t3 ?s SEDP_BUILTIN_SUBSCRIPTIONS_DETECTOR ?dp2 = Inr (r5, i5)"
    and 6: "create_datawriter_with_entityid (QosPolicies (default_dw_qos ?p)) t4 ?p P2P_BUILTIN_PARTICIPANT_MESSAGE_WRITER ?dp2 = Inr (w6, i6)"
    and 7: "create_datareader_with_entityid (QosPolicies (default_dr_qos ?s)) t4 ?s P2P_BUILTIN_PARTICIPANT_MESSAGE_READER ?dp2 = Inr (r7, i7)"
    and t: "topic_qos t1 = default_topic_qos ?dp2" "topic_qos t2 = sedp_topic_qos" "topic_qos t3 = sedp_topic_qos"
      "topic_qos t4 = p2p_topic_qos"
    and be: "builtin_dws be = [w6, w4, w2, w1]" "builtin_writers ing = [i6, i4, i2, i1]" "builtin_readers ing = [i7, i5, i3]" "builtin_drs be = [r7, r5, r3]"
    and dp': "dp' = ?dp2"
    unfolding create_builtin_endpoints_def Let_def case_prod_beta builtin_dws_def builtin_drs_def builtin_writers_def builtin_readers_def
    by (auto elim!: rbind_Inr_E simp: create_builtin_topic_def Topic_new_builtin_def or_factory_default_def)
  note f = create_datawriter_with_entityid_fields [OF 1] create_datawriter_with_entityid_fields [OF 2]
    create_datawriter_with_entityid_fields [OF 4] create_datawriter_with_entityid_fields [OF 6]
    create_datareader_with_entityid_fields [OF 3] create_datareader_with_entityid_fields [OF 5]
    create_datareader_with_entityid_fields [OF 7]
  have dp: "my_guid ?dp2 = my_guid dp" "serialized_spdp_data ?dp2 = serialized_spdp_data dp"
    "participant_config ?dp2 = participant_config dp" "dp_domain_id ?dp2 = dp_domain_id dp"
    "default_topic_qos ?dp2 = default_topic_qos dp"
    by (simp_all add: create_publisher_def create_subscriber_def gen_entity_key_def Let_def)
  have d: "default_dw_qos ?p = datawriter_build DataWriterQosBuilder_new" "default_dr_qos ?s = datareader_build DataReaderQosBuilder_new"
    by (simp_all add: create_publisher_def create_subscriber_def Publisher_new_def Subscriber_new_def gen_entity_key_def Let_def)
  note q = f(2,7,12,17) [THEN wi_fixedD, unfolded effective_dw_qos_def qos_choice.case d t]
  show "list_all fresh_writer (builtin_writers ing)" "list_all fresh_reader (builtin_readers ing)" using f by (simp_all add: be)
  show "map wi_guid (builtin_writers ing) = map (GUID (guid_prefix (my_guid dp)))
      [P2P_BUILTIN_PARTICIPANT_MESSAGE_WRITER, SEDP_BUILTIN_SUBSCRIPTIONS_ANNOUNCER,
       SEDP_BUILTIN_PUBLICATIONS_ANNOUNCER, SPDP_BUILTIN_PARTICIPANT_ANNOUNCER]"
    "map ri_guid (builtin_readers ing) = map (GUID (guid_prefix (my_guid dp)))
      [P2P_BUILTIN_PARTICIPANT_MESSAGE_READER, SEDP_BUILTIN_SUBSCRIPTIONS_DETECTOR, SEDP_BUILTIN_PUBLICATIONS_DETECTOR]"
    using f by (simp_all add: be dp)
  show "map ri_fixed (builtin_readers ing) = map dr_identity (builtin_drs be)"
    "map drd_reader_guid (builtin_drs be) = map ri_guid (builtin_readers ing)"
    using f by (simp_all add: be dr_identity_def ri_fixed_def DataReader_new_def)
  show "map wi_fixed (builtin_writers ing) = map dw_identity (builtin_dws be)"
    "map dwr_writer_guid (builtin_dws be) = map wi_guid (builtin_writers ing)"
    "list_all (\<lambda>dw. last_change_sequence_number dw = 0) (builtin_dws be)"
    using f by (simp_all add: be dw_identity_def DataWriter_new_def)
  show "builtin_qos ing dp"
    using q f by (simp add: builtin_qos_def be in_force_w_def in_force_r_def effective_dr_qos_def d t dp
        p2p_writer_qos_def p2p_reader_qos_def)
  show "my_guid dp' = my_guid dp" "serialized_spdp_data dp' = serialized_spdp_data dp"
    "participant_config dp' = participant_config dp" "dp_domain_id dp' = dp_domain_id dp"
    using dp by (simp_all add: dp')
qed

lemma map_pairs: "map (\<lambda>x. (f x, g x)) xs = zip (map f xs) (map g xs)"
  by (simp add: zip_map_map zip_same_conv_map comp_def)

lemma DomainParticipant_new_ok:
  assumes "DomainParticipant_new S host now can dom_id interfaces config = Inr n"
  shows "loop_inv (d_table (dc_endpoints (nd_disc n))) (nd_loop n)"
    and "\<exists>ing dp nics sockets. create_builtin_endpoints dp = Inr (dc_endpoints (nd_disc n), ing, nd_dp n) \<and>
      DomainParticipantInner_new S host dom_id nics (or_default config ParticipantConfig_default) = Inr (dp, sockets) \<and>
      choose_interfaces host interfaces = Inr nics"
    and "self_spdp_data (nd_disc n) = serialized_spdp_data (nd_dp n)" and "nd_cmds n = []"
proof -
  from assms obtain nics dp sockets be ing dp' el where
    nics: "choose_interfaces host interfaces = Inr nics"
    and inner: "DomainParticipantInner_new S host dom_id nics (or_default config ParticipantConfig_default) = Inr (dp, sockets)"
    and c: "create_builtin_endpoints dp = Inr (be, ing, dp')"
    and e: "EventLoop_new now can dom_id (guid_prefix (my_guid dp')) sockets (guid_prefix (my_guid dp'))
      DiscoveryDB_new (serialized_spdp_data dp') ing = Inr el"
    and n: "n = \<lparr>nd_dp = dp', nd_loop = el, nd_disc = Discovery_new be (serialized_spdp_data dp'), nd_cmds = []\<rparr>"
    unfolding DomainParticipant_new_def by (auto elim!: rbind_Inr_E)
  note f = create_builtin_endpoints_fields [OF c]
  have ids: "map (\<lambda>wi. entity_id (wi_guid wi)) (builtin_writers ing) =
      [P2P_BUILTIN_PARTICIPANT_MESSAGE_WRITER, SEDP_BUILTIN_SUBSCRIPTIONS_ANNOUNCER,
       SEDP_BUILTIN_PUBLICATIONS_ANNOUNCER, SPDP_BUILTIN_PARTICIPANT_ANNOUNCER]"
    "map (\<lambda>ri. entity_id (ri_guid ri)) (builtin_readers ing) =
      [P2P_BUILTIN_PARTICIPANT_MESSAGE_READER, SEDP_BUILTIN_SUBSCRIPTIONS_DETECTOR, SEDP_BUILTIN_PUBLICATIONS_DETECTOR]"
    using arg_cong [OF f(3), of "map entity_id"] arg_cong [OF f(4), of "map entity_id"] by (simp_all add: comp_def)
  have "db_inv DiscoveryDB_new" by (simp add: db_inv_def DiscoveryDB_new_def bm_wf_def)
  from EventLoop_new_ok [OF e this f(1) _ f(2)] ids
  have el: "loop_inv \<lparr>tw = w_table (builtin_writers ing), tr = r_table (builtin_readers ing)\<rparr> el"
    by (simp add: entity_id_defs entity_kind_defs)
  have guids: "map (\<lambda>x. entity_id (wi_guid x)) (builtin_writers ing) = map (\<lambda>x. entity_id (dwr_writer_guid x)) (builtin_dws be)"
    "map (\<lambda>x. entity_id (ri_guid x)) (builtin_readers ing) = map (\<lambda>x. entity_id (drd_reader_guid x)) (builtin_drs be)"
    using arg_cong [OF f(8), of "map entity_id"] arg_cong [OF f(9), of "map entity_id"] by (simp_all add: comp_def)
  have "w_table (builtin_writers ing) = tw (d_table be)" "r_table (builtin_readers ing) = tr (d_table be)"
    unfolding w_table_def r_table_def d_table_def map_pairs guids f(6,7) by simp_all
  then have "\<lparr>tw = w_table (builtin_writers ing), tr = r_table (builtin_readers ing)\<rparr> = d_table be" by simp
  with el show "loop_inv (d_table (dc_endpoints (nd_disc n))) (nd_loop n)" by (simp add: n Discovery_new_def)
  show "\<exists>ing dp nics sockets. create_builtin_endpoints dp = Inr (dc_endpoints (nd_disc n), ing, nd_dp n) \<and>
      DomainParticipantInner_new S host dom_id nics (or_default config ParticipantConfig_default) = Inr (dp, sockets) \<and>
      choose_interfaces host interfaces = Inr nics"
    using c inner nics by (auto simp: n Discovery_new_def)
  show "self_spdp_data (nd_disc n) = serialized_spdp_data (nd_dp n)" "nd_cmds n = []" by (simp_all add: n Discovery_new_def)
qed

section \<open>The QoS of the built-in endpoints\<close>

lemmas qos_calc = in_force_w_def in_force_r_def dw_combine_def dr_combine_def to_datawriter_qos_def to_datareader_qos_def
  combine_policy_def combine_reliability_def sedp_topic_qos_def sedp_writer_qos_def sedp_reader_qos_def
  spdp_writer_qos_def p2p_topic_qos_def p2p_writer_qos_def p2p_reader_qos_def topic_build_def TopicQosBuilder_new_def qos_values

lemma default_kinds_differ: "default_reliable \<noteq> default_besteffort" "default_besteffort \<noteq> default_reliable"
  by (simp_all add: default_reliable_def default_besteffort_def)

lemma sedp_in_force:
  "fst (dw_reliability (in_force_w sedp_topic_qos sedp_writer_qos)) = default_reliable"
  "fst (dw_durability (in_force_w sedp_topic_qos sedp_writer_qos)) = TransientLocal"
  "history_kind (fst (dw_history (in_force_w sedp_topic_qos sedp_writer_qos))) = KeepAll"
  "max_samples (fst (dw_resource_limits (in_force_w sedp_topic_qos sedp_writer_qos))) = LENGTH_UNLIMITED"
  "fst (dr_reliability (in_force_r sedp_topic_qos sedp_reader_qos)) = default_reliable"
  "fst (dr_durability (in_force_r sedp_topic_qos sedp_reader_qos)) = TransientLocal"
  by (simp_all add: qos_calc)

end
