(* ===== verification/Umber_NodeInv.thy ===== *)
theory Umber_NodeInv
  imports Umber_Creation
begin

text \<open>
  Runs of a whole participant: the event loop, the discovery thread and the application take turns in any order.
  Each step is one event of one of the two threads, or one access of the application to the participant, to a
  shared cache or to a channel. Every reachable state satisfies the invariant of the event loop,
  with all built-in endpoints in place.
\<close>

section \<open>The discovery thread keeps the invariant\<close>

definition builtin_ok :: "BuiltinEndpoints \<Rightarrow> bool" where
  "builtin_ok be \<longleftrightarrow>
     map (\<lambda>dw. entity_id (dwr_writer_guid dw)) (builtin_dws be) =
       [P2P_BUILTIN_PARTICIPANT_MESSAGE_WRITER, SEDP_BUILTIN_SUBSCRIPTIONS_ANNOUNCER,
        SEDP_BUILTIN_PUBLICATIONS_ANNOUNCER, SPDP_BUILTIN_PARTICIPANT_ANNOUNCER] \<and>
     map (\<lambda>dr. entity_id (drd_reader_guid dr)) (builtin_drs be) =
       [P2P_BUILTIN_PARTICIPANT_MESSAGE_READER, SEDP_BUILTIN_SUBSCRIPTIONS_DETECTOR, SEDP_BUILTIN_PUBLICATIONS_DETECTOR] \<and>
     list_all (\<lambda>dw. 0 \<le> last_change_sequence_number dw) (builtin_dws be) \<and>
     take 3 (map dwr_qos (builtin_dws be)) =
       [in_force_w p2p_topic_qos p2p_writer_qos, in_force_w sedp_topic_qos sedp_writer_qos,
        in_force_w sedp_topic_qos sedp_writer_qos] \<and>
     map drd_qos (builtin_drs be) =
       [in_force_r p2p_topic_qos p2p_reader_qos, in_force_r sedp_topic_qos sedp_reader_qos,
        in_force_r sedp_topic_qos sedp_reader_qos]"

definition node_inv :: "Node \<Rightarrow> bool" where
  "node_inv n \<longleftrightarrow> builtin_ok (dc_endpoints (nd_disc n)) \<and> loop_inv (d_table (dc_endpoints (nd_disc n))) (nd_loop n)"

text \<open>The counters of the built-in writers do not come near the end of their range.\<close>

definition disc_room :: "ParticipantMessageCmd list \<Rightarrow> Node \<Rightarrow> bool" where
  "disc_room msgs n \<longleftrightarrow>
     list_all (\<lambda>dw. last_change_sequence_number dw + int (length msgs + length (notify_new_writer_sender (nd_loop n)) +
         length (notify_new_reader_sender (nd_loop n))) + 1 < i64_max)
       (builtin_dws (dc_endpoints (nd_disc n)))"

lemma run_bind_SomeE:
  assumes "run_bind m f = Inr (Some b)"
  obtains a where "m = Inr (Some a)" and "f a = Inr (Some b)"
  using assms by (auto simp: run_bind_def elim!: rbind_Inr_E split: option.split_asm)

lemma run_of_SomeE:
  assumes "run_of m = Inr (Some a)"
  obtains "m = Inr a"
  using assms by (auto simp: run_of_def elim!: rbind_Inr_E)

lemma established_there:
  assumes "loop_inv E el"
  shows "tw E eid = Some x \<Longrightarrow> \<exists>w. bm_get (el_writers el) eid = Some w \<and> w_fixed w = x"
    and "tr E eid = Some y \<Longrightarrow> \<exists>r. bm_get (el_readers el) eid = Some r \<and> r_fixed r = y"
proof -
  have "established E el" using assms by (simp add: loop_inv_def loop_ok_def)
  then have e: "tw E eid = Some x \<Longrightarrow> map_option w_fixed (bm_get (el_writers el) eid) = Some x"
    "tr E eid = Some y \<Longrightarrow> map_option r_fixed (bm_get (el_readers el) eid) = Some y" unfolding established_def by blast+
  show "tw E eid = Some x \<Longrightarrow> \<exists>w. bm_get (el_writers el) eid = Some w \<and> w_fixed w = x"
    using e(1) by (cases "bm_get (el_writers el) eid") auto
  show "tr E eid = Some y \<Longrightarrow> \<exists>r. bm_get (el_readers el) eid = Some r \<and> r_fixed r = y"
    using e(2) by (cases "bm_get (el_readers el) eid") auto
qed

lemma add_change_stamps:
  assumes "add_change c rel limits hist h = Inr (h', r)" and "get_last_added_ts g h \<noteq> None"
  shows "get_last_added_ts g h' \<noteq> None"
  using assms
  by (auto simp: add_change_def add_known_def after_store_def store_change_def evict_oldest_def get_last_added_ts_def Let_def
      elim!: rbind_Inr_E split: option.split_asm if_split_asm list.split_asm HistoryCacheType.split_asm)

lemma loop_inv_put_cache:
  assumes inv: "loop_inv E el" and w: "bm_get (el_writers el) eid = Some w"
    and c: "writer_guid c = w_guid w" "0 \<le> sequence_number c" "sequence_number c < i64_max"
    and add: "add_change c (w_is_reliable w) limits hist (writer_cache w) = Inr (h, r)"
  shows "loop_inv E (put_writer_at eid (w\<lparr>writer_cache := h\<rparr>) el)"
proof -
  have "writer_inv (w\<lparr>writer_cache := h\<rparr>)" if wi: "writer_inv w"
  proof -
    have "w_is_reliable w" using writer_invD(1) [OF wi] by (simp add: w_is_reliable_def)
    with add show ?thesis using app_add_inv [OF wi c] by simp
  qed
  moreover have "stamped w \<Longrightarrow> stamped (w\<lparr>writer_cache := h\<rparr>)"
    using add_change_stamps [OF add] by (simp add: stamped_def)
  ultimately show ?thesis
    using inv unfolding loop_inv_def by (intro loop_ok_put_writer [OF _ w]) (auto simp: w_fixed_def)
qed

lemma advance_seq_num_fields:
  assumes "advance_seq_num inc dw = Inr dw'"
  shows "dw_identity dw' = dw_identity dw" and "dwr_writer_guid dw' = dwr_writer_guid dw"
    and "dwr_qos dw' = dwr_qos dw" and "dwr_is_reliable dw' = dwr_is_reliable dw"
    and "0 \<le> last_change_sequence_number dw \<Longrightarrow> 0 \<le> last_change_sequence_number dw' \<and>
      last_change_sequence_number dw' \<le> last_change_sequence_number dw + 1"
  using assms by (auto simp: advance_seq_num_def dw_identity_def dwr_is_reliable_def i64_add_def elim!: rbind_Inr_E
      split: if_split_asm)

lemma writer_data_to_hc_ok:
  assumes inv: "loop_inv E (nd_loop n)" and there: "tw E (entity_id (dwr_writer_guid dw)) = Some (dw_identity dw)"
    and room: "0 \<le> last_change_sequence_number dw" "last_change_sequence_number dw + 1 < i64_max"
    and run: "writer_data_to_hc ts payload inc dw n = Inr (Some (dw', n'))"
  shows "loop_inv E (nd_loop n') \<and> nd_disc n' = nd_disc n \<and> nd_dp n' = nd_dp n \<and>
    advance_seq_num inc dw = Inr dw' \<and>
    notify_new_writer_sender (nd_loop n') = notify_new_writer_sender (nd_loop n) \<and>
    notify_new_reader_sender (nd_loop n') = notify_new_reader_sender (nd_loop n)"
proof -
  let ?eid = "entity_id (dwr_writer_guid dw)"
  from run obtain dw1 where adv: "advance_seq_num inc dw = Inr dw1"
    by (auto simp: writer_data_to_hc_def elim!: rbind_Inr_E)
  note f = advance_seq_num_fields [OF adv]
  obtain w where w: "bm_get (el_writers (nd_loop n)) ?eid = Some w" "w_fixed w = dw_identity dw"
    using established_there(1) [OF inv there] by blast
  have same: "w_guid w = dwr_writer_guid dw" "w_is_reliable w = dwr_is_reliable dw"
    using w(2) by (auto simp: w_fixed_def dw_identity_def w_is_reliable_def dwr_is_reliable_def)
  have "rbind (add_change (a_change ts payload dw1) (w_is_reliable w) (fst (dw_resource_limits (dwr_qos dw)))
      (fst (dw_history (dwr_qos dw))) (writer_cache w)) (\<lambda>(cache, write_res). case write_res of
        Inr _ \<Rightarrow> Inr (Some (dw1, send_cmd ?eid WriteData (n\<lparr>nd_loop := put_writer_at ?eid (w\<lparr>writer_cache := cache\<rparr>) (nd_loop n)\<rparr>)))
      | Inl (WouldBlock t) \<Rightarrow> Inr None) = Inr (Some (dw', n'))"
    using run unfolding writer_data_to_hc_def adv rbind_simps Let_def f(2,3,4) w(1) option.case same by simp
  then obtain h where add: "add_change (a_change ts payload dw1) (w_is_reliable w)
      (fst (dw_resource_limits (dwr_qos dw))) (fst (dw_history (dwr_qos dw))) (writer_cache w) = Inr (h, Inr ())"
    and n': "dw' = dw1" "n' = send_cmd ?eid WriteData
      (n\<lparr>nd_loop := put_writer_at ?eid (w\<lparr>writer_cache := h\<rparr>) (nd_loop n)\<rparr>)"
    by (auto elim!: rbind_Inr_E split: sum.split_asm AddChangeErr.split_asm)
  have "loop_inv E (put_writer_at ?eid (w\<lparr>writer_cache := h\<rparr>) (nd_loop n))"
    using f(2) f(5) [OF room(1)] room(2) same(1) by (intro loop_inv_put_cache [OF inv w(1) _ _ _ add]) (auto simp: a_change_def)
  then show ?thesis by (simp add: n' adv send_cmd_def put_writer_at_def on_recv_def)
qed

lemma write_payload_ok:
  assumes inv: "loop_inv E (nd_loop n)" and there: "tw E (entity_id (dwr_writer_guid dw)) = Some (dw_identity dw)"
    and room: "0 \<le> last_change_sequence_number dw" "last_change_sequence_number dw + 1 < i64_max"
    and run: "run_bind (run_of m) (\<lambda>ts. run_bind (run_of (pl ts)) (\<lambda>payload. writer_data_to_hc ts payload inc dw n)) = Inr (Some (dw', n'))"
  shows "loop_inv E (nd_loop n') \<and> nd_disc n' = nd_disc n \<and> nd_dp n' = nd_dp n \<and> advance_seq_num inc dw = Inr dw' \<and>
    notify_new_writer_sender (nd_loop n') = notify_new_writer_sender (nd_loop n) \<and>
    notify_new_reader_sender (nd_loop n') = notify_new_reader_sender (nd_loop n)"
  using run by (elim run_bind_SomeE) (rule writer_data_to_hc_ok [OF inv there room])

text \<open>One of the built-in writers has written; the counters of all have grown by at most one.\<close>

definition wrote_one :: "Node \<Rightarrow> Node \<Rightarrow> bool" where
  "wrote_one n n' \<longleftrightarrow> node_inv n' \<and>
     list_all2 (\<lambda>dw dw'. last_change_sequence_number dw' \<le> last_change_sequence_number dw + 1)
       (builtin_dws (dc_endpoints (nd_disc n))) (builtin_dws (dc_endpoints (nd_disc n')))"

lemma builtin_there:
  assumes "builtin_ok be" and "dw \<in> set (builtin_dws be)"
  shows "tw (d_table be) (entity_id (dwr_writer_guid dw)) = Some (dw_identity dw)" and "0 \<le> last_change_sequence_number dw"
proof -
  have "distinct (map (\<lambda>dw. entity_id (dwr_writer_guid dw)) (builtin_dws be))"
    using assms(1) by (simp add: builtin_ok_def entity_id_defs entity_kind_defs)
  then show "tw (d_table be) (entity_id (dwr_writer_guid dw)) = Some (dw_identity dw)"
    using assms(2) by (auto simp: d_table_def intro!: map_of_is_SomeI simp: comp_def)
  show "0 \<le> last_change_sequence_number dw" using assms by (auto simp: builtin_ok_def list_all_iff)
qed

lemma wrote_oneI:
  assumes inv: "node_inv n" and adv: "advance_seq_num inc dw = Inr dw'" and k: "k < 4" "dw = builtin_dws (dc_endpoints (nd_disc n)) ! k"
    and n': "builtin_dws (dc_endpoints (nd_disc n')) = (builtin_dws (dc_endpoints (nd_disc n)))[k := dw']"
      "builtin_drs (dc_endpoints (nd_disc n')) = builtin_drs (dc_endpoints (nd_disc n))"
    and loop: "loop_inv (d_table (dc_endpoints (nd_disc n))) (nd_loop n')"
  shows "wrote_one n n'"
proof -
  let ?dws = "builtin_dws (dc_endpoints (nd_disc n))"
  note f = advance_seq_num_fields [OF adv]
  have len: "k < length ?dws" using k by (simp add: builtin_dws_def)
  have same: "map (\<lambda>dw. entity_id (dwr_writer_guid dw)) (?dws[k := dw']) = map (\<lambda>dw. entity_id (dwr_writer_guid dw)) ?dws"
    "map (\<lambda>dw. (entity_id (dwr_writer_guid dw), dw_identity dw)) (?dws[k := dw']) =
      map (\<lambda>dw. (entity_id (dwr_writer_guid dw), dw_identity dw)) ?dws"
    "map dwr_qos (?dws[k := dw']) = map dwr_qos ?dws"
    using f(1,2,3) k(2) len by (simp_all add: map_update list_update_same_conv)
  have "d_table (dc_endpoints (nd_disc n')) = d_table (dc_endpoints (nd_disc n))"
    by (simp only: d_table_def n' same)
  moreover have old: "builtin_ok (dc_endpoints (nd_disc n))" using inv by (simp add: node_inv_def)
  have dw: "0 \<le> last_change_sequence_number dw" using builtin_there(2) [OF old] len k(2) by simp
  have "list_all (\<lambda>dw. 0 \<le> last_change_sequence_number dw) ?dws" using old unfolding builtin_ok_def by blast
  then have "list_all (\<lambda>dw. 0 \<le> last_change_sequence_number dw) (?dws[k := dw'])"
    using f(5) [OF dw] set_update_subset_insert [of ?dws k dw'] by (auto simp: list_all_iff)
  then have "builtin_ok (dc_endpoints (nd_disc n'))" using old by (simp only: builtin_ok_def n' same)
  moreover have "list_all2 (\<lambda>dw dw'. last_change_sequence_number dw' \<le> last_change_sequence_number dw + 1) ?dws (?dws[k := dw'])"
    unfolding list_all2_conv_all_nth
  proof (intro conjI allI impI)
    fix i
    show "last_change_sequence_number (?dws[k := dw'] ! i) \<le> last_change_sequence_number (?dws ! i) + 1"
      using f(5) [OF dw] k(2) len by (cases "i = k") (simp_all del: One_nat_def)
  qed simp
  ultimately show ?thesis using loop by (simp add: wrote_one_def node_inv_def n')
qed

lemma disc_writes:
  assumes inv: "node_inv n" and room: "last_change_sequence_number dw + 1 < i64_max"
    and k: "k < 4" "dw = builtin_dws (dc_endpoints (nd_disc n)) ! k"
    and run: "run_bind (run_of m) (\<lambda>ts. run_bind (run_of (pl ts)) (\<lambda>payload. writer_data_to_hc ts payload inc dw n)) = Inr (Some (dw', n1))"
    and n': "nd_loop n' = nd_loop n1" "builtin_dws (dc_endpoints (nd_disc n')) = (builtin_dws (dc_endpoints (nd_disc n1)))[k := dw']"
      "builtin_drs (dc_endpoints (nd_disc n')) = builtin_drs (dc_endpoints (nd_disc n1))"
  shows "wrote_one n n'"
proof -
  have ok: "builtin_ok (dc_endpoints (nd_disc n))" and loop: "loop_inv (d_table (dc_endpoints (nd_disc n))) (nd_loop n)"
    using inv by (simp_all add: node_inv_def)
  have "length (builtin_dws (dc_endpoints (nd_disc n))) = 4" by (simp add: builtin_dws_def)
  then have "dw \<in> set (builtin_dws (dc_endpoints (nd_disc n)))" using k by simp
  note b = builtin_there [OF ok this]
  from write_payload_ok [OF loop b room run] show ?thesis
    using n' by (intro wrote_oneI [OF inv _ k]) auto
qed

lemma serialized_write:
  "write_serialized_builtin_data now payload inc dw n =
     run_bind (run_of (unwrap now)) (\<lambda>ts. run_bind (run_of (Inr payload)) (\<lambda>payload. writer_data_to_hc ts payload inc dw n))"
  by (simp add: write_serialized_builtin_data_def run_of_def run_bind_def)

lemma spdp_send_ok:
  assumes "node_inv n" and "disc_room msgs n" and "spdp_send now n = Inr (Some n')"
  shows "node_inv n'"
proof -
  let ?dw = "spdp_builtin_participant_writer (dc_endpoints (nd_disc n))"
  from assms(3) obtain dw n1 where r: "write_serialized_builtin_data now (self_spdp_data (nd_disc n)) False ?dw n = Inr (Some (dw, n1))"
    and n': "n' = disc_timer (SpdpSend (participant_message_period (participant_config (nd_dp n1))))
         (on_endpoints (\<lambda>be. be\<lparr>spdp_builtin_participant_writer := dw\<rparr>) n1)"
    by (auto simp: spdp_send_def elim!: run_bind_SomeE)
  have "wrote_one n n'"
    using assms(2)
    by (intro disc_writes [OF assms(1) _ _ _ r [unfolded serialized_write], where k = 3])
      (auto simp: builtin_dws_def builtin_drs_def disc_room_def n' disc_timer_def on_endpoints_def)
  then show ?thesis by (simp add: wrote_one_def)
qed

text \<open>The loops over what has arrived: every round needs the room of one more sample.\<close>

definition room_for :: "nat \<Rightarrow> Node \<Rightarrow> bool" where
  "room_for k n \<longleftrightarrow> list_all (\<lambda>dw. last_change_sequence_number dw + int k + 1 < i64_max) (builtin_dws (dc_endpoints (nd_disc n)))"

lemma wrote_one_room:
  assumes "wrote_one n n'" and "room_for (Suc k) n"
  shows "room_for k n'"
  using assms by (fastforce simp: wrote_one_def room_for_def list_all_length list_all2_conv_all_nth)

lemma run_fold_ok:
  assumes "run_fold f xs n = Inr (Some n')" and "node_inv n" and "room_for (length xs) n"
    and "\<And>x n n'. node_inv n \<Longrightarrow> room_for 1 n \<Longrightarrow> f x n = Inr (Some n') \<Longrightarrow> wrote_one n n'"
  shows "node_inv n'"
  using assms(1-3)
proof (induction xs arbitrary: n)
  case (Cons x xs)
  from Cons.prems(1) obtain n1 where n1: "f x n = Inr (Some n1)" "run_fold f xs n1 = Inr (Some n')"
    by (auto elim!: run_bind_SomeE)
  have "room_for 1 n" using Cons.prems(3) by (auto simp: room_for_def list_all_iff)
  from assms(4) [OF Cons.prems(2) this n1(1)] have w: "wrote_one n n1" .
  then show ?case
    using Cons.IH [OF n1(2)] wrote_one_room [OF w, of "length xs"] Cons.prems(3) by (simp add: wrote_one_def)
qed simp

lemma send_participant_message_ok:
  assumes "node_inv n" and "room_for 1 n" and "send_participant_message S now cmd n = Inr (Some n')"
  shows "wrote_one n n'"
proof -
  obtain data where cmd: "cmd = SendData data" by (cases cmd)
  from assms(3) obtain dw n1 where r: "dw_write now (Inr (write_participant_message_data S LittleEndian data))
      (p2p_builtin_participant_msg_writer (dc_endpoints (nd_disc n))) n = Inr (Some (dw, n1))"
    and n': "n' = on_endpoints (\<lambda>be. be\<lparr>p2p_builtin_participant_msg_writer := dw\<rparr>) n1"
    by (auto simp: send_participant_message_def cmd elim!: run_bind_SomeE)
  show ?thesis
    using assms(2)
    by (intro disc_writes [OF assms(1) _ _ _ r [unfolded dw_write_def], where k = 0])
      (auto simp: builtin_dws_def builtin_drs_def room_for_def n' on_endpoints_def)
qed

lemma announce_new_writer_ok:
  assumes "node_inv n" and "room_for 1 n" and "announce_new_writer S now x n = Inr (Some n')"
  shows "wrote_one n n'"
proof -
  obtain eid proxy data where x: "x = (eid, proxy, data)" by (cases x)
  from assms(3) obtain dw n1 where r: "write_builtin_data now (write_discovered_writer S LittleEndian proxy data) True
      (sedp_builtin_pub_writer (dc_endpoints (nd_disc n))) n = Inr (Some (dw, n1))"
    and n': "nd_loop n' = nd_loop n1" "dc_endpoints (nd_disc n') = (dc_endpoints (nd_disc n1))\<lparr>sedp_builtin_pub_writer := dw\<rparr>"
    by (auto simp: announce_new_writer_def x Let_def on_endpoints_def elim!: run_bind_SomeE)
  show ?thesis
    using assms(2)
    by (intro disc_writes [OF assms(1) _ _ _ r [unfolded write_builtin_data_def], where k = 2])
      (auto simp: builtin_dws_def builtin_drs_def room_for_def n')
qed

lemma announce_new_reader_ok:
  assumes "node_inv n" and "room_for 1 n" and "announce_new_reader S now x n = Inr (Some n')"
  shows "wrote_one n n'"
proof -
  obtain eid proxy data where x: "x = (eid, proxy, data)" by (cases x)
  from assms(3) obtain dw n1 where r: "write_builtin_data now (write_discovered_reader S LittleEndian proxy data) True
      (sedp_builtin_sub_writer (dc_endpoints (nd_disc n))) n = Inr (Some (dw, n1))"
    and n': "nd_loop n' = nd_loop n1" "dc_endpoints (nd_disc n') = (dc_endpoints (nd_disc n1))\<lparr>sedp_builtin_sub_writer := dw\<rparr>"
    by (auto simp: announce_new_reader_def x Let_def on_endpoints_def elim!: run_bind_SomeE)
  show ?thesis
    using assms(2)
    by (intro disc_writes [OF assms(1) _ _ _ r [unfolded write_builtin_data_def], where k = 1])
      (auto simp: builtin_dws_def builtin_drs_def room_for_def n')
qed

lemma check_participant_liveliness_inv: "db_inv db \<Longrightarrow> db_inv (fst (check_participant_liveliness now db))"
  by (simp add: check_participant_liveliness_def Let_def db_inv_def fold_bm_remove_wf split: prod.split)

lemma participant_liveliness_check_ok:
  assumes "node_inv n"
  shows "node_inv (participant_liveliness_check now n)"
proof -
  let ?el = "nd_loop n" and ?c = "check_participant_liveliness (or_default now TIME_INVALID) (el_db (nd_loop n))"
  let ?el' = "(on_recv (on_db (\<lambda>_. fst ?c)) ?el)\<lparr>discdb_update_receiver := discdb_update_receiver ?el @ map DeleteParticipant (snd (snd ?c))\<rparr>"
  have n': "participant_liveliness_check now n = disc_timer (ParticipantLivelinessCheck (fst (snd ?c))) (n\<lparr>nd_loop := ?el'\<rparr>)"
    by (simp add: participant_liveliness_check_def Let_def split: prod.split)
  have inv: "loop_ok (d_table (dc_endpoints (nd_disc n))) {} ?el" using assms by (simp add: node_inv_def loop_inv_def)
  have "db_inv (el_db ?el)" using recv_invD(2) [OF loop_ok_recv [OF inv]] by (simp add: el_db_def)
  from check_participant_liveliness_inv [OF this] have "loop_ok (d_table (dc_endpoints (nd_disc n))) {} (on_recv (on_db (\<lambda>_. fst ?c)) ?el)"
    by (intro loop_ok_db [OF inv])
  then show ?thesis using assms unfolding n' by (simp add: node_inv_def loop_inv_def disc_timer_def)
qed

lemma handle_discovery_ok:
  assumes inv: "node_inv n" and room: "disc_room msgs n" and run: "handle_discovery S now msgs token n = Inr (Some n')"
  shows "node_inv n'"
proof -
  let ?w = "n\<lparr>nd_loop := (nd_loop n)\<lparr>notify_new_writer_sender := []\<rparr>\<rparr>"
  let ?r = "n\<lparr>nd_loop := (nd_loop n)\<lparr>notify_new_reader_sender := []\<rparr>\<rparr>"
  have drained: "node_inv ?w" "node_inv ?r" using inv by (simp_all add: node_inv_def loop_inv_def)
  have rooms: "room_for (length msgs) n" "room_for (length (notify_new_writer_sender (nd_loop n))) ?w"
    "room_for (length (notify_new_reader_sender (nd_loop n))) ?r"
    using room by (auto simp: room_for_def disc_room_def list_all_iff)
  have folds: "run_fold (send_participant_message S now) msgs n = Inr (Some n') \<Longrightarrow> node_inv n'"
    "run_fold (announce_new_writer S now) (notify_new_writer_sender (nd_loop n)) ?w = Inr (Some n') \<Longrightarrow> node_inv n'"
    "run_fold (announce_new_reader S now) (notify_new_reader_sender (nd_loop n)) ?r = Inr (Some n') \<Longrightarrow> node_inv n'"
    by (erule run_fold_ok [OF _ inv rooms(1)] run_fold_ok [OF _ drained(1) rooms(2)] run_fold_ok [OF _ drained(2) rooms(3)],
        erule (2) send_participant_message_ok announce_new_writer_ok announce_new_reader_ok)+
  show ?thesis
    using run inv folds spdp_send_ok [OF inv room] participant_liveliness_check_ok [OF inv]
    by (auto simp: handle_discovery_def split: TokenDec.split_asm if_split_asm)
qed

section \<open>Runs of a participant\<close>

inductive node_step :: "Speedy \<Rightarrow> Wire \<Rightarrow> (Endianness \<Rightarrow> u8 list \<Rightarrow> 'd option) \<Rightarrow> Node \<Rightarrow> Node \<Rightarrow> bool"
  for S :: Speedy and wr :: Wire and deser :: "Endianness \<Rightarrow> u8 list \<Rightarrow> 'd option" where
  ns_event: "decode token = ReservedToken t \<Longrightarrow> polled_ok wr p (nd_loop n) \<Longrightarrow>
    handle_event wr p token (nd_loop n) = Inr el \<Longrightarrow> node_step S wr deser n (n\<lparr>nd_loop := el\<rparr>)"
| ns_commands: "decode token = EntityToken eid \<Longrightarrow> polled_ok wr p (nd_loop n) \<Longrightarrow> writer_cmds p = cmds_of eid n \<Longrightarrow>
    handle_event wr p token (nd_loop n) = Inr el \<Longrightarrow>
    node_step S wr deser n (n\<lparr>nd_loop := el, nd_cmds := bm_insert eid [] (nd_cmds n)\<rparr>)"
| ns_discovery: "disc_room msgs n \<Longrightarrow> handle_discovery S now msgs token n = Inr (Some n') \<Longrightarrow> node_step S wr deser n n'"
| ns_publisher: "create_publisher pqos (nd_dp n) = (pu, dp) \<Longrightarrow> node_step S wr deser n (n\<lparr>nd_dp := dp\<rparr>)"
| ns_subscriber: "create_subscriber sqos (nd_dp n) = (su, dp) \<Longrightarrow> node_step S wr deser n (n\<lparr>nd_dp := dp\<rparr>)"
| ns_topic_qos: "node_step S wr deser n (n\<lparr>nd_dp := set_default_topic_qos tqos (nd_dp n)\<rparr>)"
| ns_publisher_qos: "node_step S wr deser n (n\<lparr>nd_dp := set_default_publisher_qos dpqos (nd_dp n)\<rparr>)"
| ns_subscriber_qos: "node_step S wr deser n (n\<lparr>nd_dp := set_default_subscriber_qos dsqos (nd_dp n)\<rparr>)"
| ns_datawriter: "create_datawriter wqos topic pu (nd_dp n) (create_writer_receiver (nd_loop n)) = Inr (dw, dp, sent) \<Longrightarrow>
    node_step S wr deser n (n\<lparr>nd_dp := dp, nd_loop := (nd_loop n)\<lparr>create_writer_receiver := sent\<rparr>\<rparr>)"
| ns_datareader: "create_datareader rqos topic su (nd_dp n) (create_reader_receiver (nd_loop n)) = Inr (dr, dp, sent) \<Longrightarrow>
    node_step S wr deser n (n\<lparr>nd_dp := dp, nd_loop := (nd_loop n)\<lparr>create_reader_receiver := sent\<rparr>\<rparr>)"
| ns_write: "bm_get (el_writers (nd_loop n)) eid = Some w \<Longrightarrow> writer_guid c = w_guid w \<Longrightarrow>
    0 \<le> sequence_number c \<Longrightarrow> sequence_number c < i64_max \<Longrightarrow>
    add_change c (w_is_reliable w) limits hist (writer_cache w) = Inr (h, r) \<Longrightarrow>
    node_step S wr deser n (n\<lparr>nd_loop := put_writer_at eid (w\<lparr>writer_cache := h\<rparr>) (nd_loop n)\<rparr>)"
| ns_write_early: "create_writer_receiver (nd_loop n) = xs @ wi # ys \<Longrightarrow> writer_guid c = wi_guid wi \<Longrightarrow>
    0 \<le> sequence_number c \<Longrightarrow> sequence_number c < i64_max \<Longrightarrow>
    add_change c (wi_reliability_level wi = Reliable) limits hist (wi_whc wi) = Inr (h, r) \<Longrightarrow>
    node_step S wr deser n
      (n\<lparr>nd_loop := (nd_loop n)\<lparr>create_writer_receiver := xs @ wi\<lparr>wi_whc := h\<rparr> # ys\<rparr>\<rparr>)"
| ns_command: "node_step S wr deser n (send_cmd eid cmd n)"
| ns_take: "bm_get (el_readers (nd_loop n)) eid = Some rd \<Longrightarrow> get_data deser (reader_cache rd) = Inr (h, v) \<Longrightarrow>
    node_step S wr deser n (n\<lparr>nd_loop := put_reader_at eid (rd\<lparr>reader_cache := h\<rparr>) (nd_loop n)\<rparr>)"

inductive node_reachable :: "Speedy \<Rightarrow> Wire \<Rightarrow> (Endianness \<Rightarrow> u8 list \<Rightarrow> 'd option) \<Rightarrow> Node \<Rightarrow> bool"
  for S :: Speedy and wr :: Wire and deser :: "Endianness \<Rightarrow> u8 list \<Rightarrow> 'd option" where
  nr_new: "DomainParticipant_new S host now can dom_id interfaces config = Inr n \<Longrightarrow> node_reachable S wr deser n"
| nr_step: "node_reachable S wr deser n \<Longrightarrow> node_step S wr deser n n' \<Longrightarrow> node_reachable S wr deser n'"

inductive_cases node_stepE: "node_step S wr deser n n'"

definition user_kinds :: "EntityKind set" where
  "user_kinds = {WRITER_WITH_KEY_USER_DEFIND, WRITER_NO_KEY_USER_DEFIND,
     READER_WITH_KEY_USER_DEFIND, READER_NO_KEY_USER_DEFIND}"

lemma create_sent:
  "create_datawriter wqos topic pu dp sent = Inr (dw, dp', sent') \<Longrightarrow>
     \<exists>wi. sent' = sent @ [wi] \<and> fresh_writer wi \<and> entity_kind (entity_id (wi_guid wi)) \<in> user_kinds"
  "create_datareader rqos topic su dp rsent = Inr (dr, dp', rsent') \<Longrightarrow>
     \<exists>ri. rsent' = rsent @ [ri] \<and> fresh_reader ri \<and> entity_kind (entity_id (ri_guid ri)) \<in> user_kinds"
  using create_datawriter_with_entityid_fields(3,4) create_datareader_with_entityid_fields(2,6)
  by (fastforce simp: create_datawriter_def create_datareader_def user_kinds_def Let_def case_prod_beta
      elim!: rbind_Inr_E split: TopicKind.split)+

lemma d_table_user:
  assumes "builtin_ok be" and "entity_kind eid \<in> user_kinds"
  shows "tw (d_table be) eid = None" and "tr (d_table be) eid = None"
proof -
  have "(\<lambda>dw. entity_id (dwr_writer_guid dw)) ` set (builtin_dws be) =
      set (map (\<lambda>dw. entity_id (dwr_writer_guid dw)) (builtin_dws be))"
    "(\<lambda>dr. entity_id (drd_reader_guid dr)) ` set (builtin_drs be) =
      set (map (\<lambda>dr. entity_id (drd_reader_guid dr)) (builtin_drs be))" by simp_all
  then have "eid \<notin> (\<lambda>dw. entity_id (dwr_writer_guid dw)) ` set (builtin_dws be)"
    "eid \<notin> (\<lambda>dr. entity_id (drd_reader_guid dr)) ` set (builtin_drs be)"
    using assms unfolding builtin_ok_def by (auto simp: user_kinds_def entity_id_defs entity_kind_defs)
  then show "tw (d_table be) eid = None" "tr (d_table be) eid = None"
    by (simp_all add: d_table_def map_of_eq_None_iff image_image)
qed

lemma loop_inv_channels:
  assumes "loop_inv E el"
  shows "list_all (\<lambda>wi. fresh_writer wi \<and> tw E (entity_id (wi_guid wi)) = None) wis \<Longrightarrow>
      loop_inv E (el\<lparr>create_writer_receiver := wis\<rparr>)"
    and "list_all (\<lambda>ri. fresh_reader ri \<and> tr E (entity_id (ri_guid ri)) = None) ris \<Longrightarrow>
      loop_inv E (el\<lparr>create_reader_receiver := ris\<rparr>)"
    and "list_all (\<lambda>wi. fresh_writer wi \<and> tw E (entity_id (wi_guid wi)) = None) (create_writer_receiver el)"
    and "list_all (\<lambda>ri. fresh_reader ri \<and> tr E (entity_id (ri_guid ri)) = None) (create_reader_receiver el)"
  using assms
  by (auto simp: loop_inv_def loop_ok_def established_def el_readers_def el_writers_def list_all_iff)

lemma fresh_writer_add:
  assumes "fresh_writer wi" and "writer_guid c = wi_guid wi" "0 \<le> sequence_number c" "sequence_number c < i64_max"
    and "add_change c (wi_reliability_level wi = Reliable) limits hist (wi_whc wi) = Inr (h, r)"
  shows "fresh_writer (wi\<lparr>wi_whc := h\<rparr>)"
  using assms add_change_cache_ok(1) [OF _ assms(2-4), of "wi_whc wi" limits hist h r] by (auto simp: fresh_writer_def)

lemma node_step_inv:
  assumes "node_step S wr deser n n'" and inv: "node_inv n"
  shows "node_inv n'"
proof -
  let ?E = "d_table (dc_endpoints (nd_disc n))"
  have ok: "builtin_ok (dc_endpoints (nd_disc n))" and loop: "loop_inv ?E (nd_loop n)" using inv by (simp_all add: node_inv_def)
  note ch = loop_inv_channels [OF loop]
  from assms(1) show ?thesis
  proof cases
    case (ns_datawriter wqos topic pu dw dp sent)
    then obtain wi where "sent = create_writer_receiver (nd_loop n) @ [wi]" "fresh_writer wi" "tw ?E (entity_id (wi_guid wi)) = None"
      using create_sent(1) d_table_user(1) [OF ok] by blast
    with ch(1) [of sent] ch(3) ok show ?thesis by (simp add: ns_datawriter(1) node_inv_def)
  next
    case (ns_datareader rqos topic su dr dp sent)
    then obtain ri where "sent = create_reader_receiver (nd_loop n) @ [ri]" "fresh_reader ri" "tr ?E (entity_id (ri_guid ri)) = None"
      using create_sent(2) d_table_user(2) [OF ok] by blast
    with ch(2) [of sent] ch(4) ok show ?thesis by (simp add: ns_datareader(1) node_inv_def)
  next
    case (ns_write eid w c limits hist h r)
    then show ?thesis using loop_inv_put_cache [OF loop] ok by (simp add: node_inv_def)
  next
    case (ns_write_early xs wi ys c limits hist h r)
    then have "fresh_writer (wi\<lparr>wi_whc := h\<rparr>)" using ch(3) by (intro fresh_writer_add) auto
    with ch(1) [of "xs @ wi\<lparr>wi_whc := h\<rparr> # ys"] ch(3) ns_write_early ok show ?thesis by (simp add: node_inv_def)
  next
    case (ns_take eid rd h v)
    have "loop_ok ?E {} (put_reader_at eid (rd\<lparr>reader_cache := h\<rparr>) (nd_loop n))"
      using loop get_data_keeps [OF _ ns_take(3)]
      by (intro loop_ok_put_reader [OF _ ns_take(2)]) (auto simp: loop_inv_def r_fixed_def)
    with ns_take ok show ?thesis by (simp add: node_inv_def loop_inv_def)
  next
    case (ns_discovery msgs now token)
    then show ?thesis using handle_discovery_ok [OF inv] by blast
  qed (use handle_event_inv [OF loop] ok loop in \<open>auto simp: node_inv_def send_cmd_def\<close>)
qed

lemma node_new_inv:
  assumes "DomainParticipant_new S host now can dom_id interfaces config = Inr n"
  shows "node_inv n"
proof -
  from DomainParticipant_new_ok(2) [OF assms] obtain ing dp
    where c: "create_builtin_endpoints dp = Inr (dc_endpoints (nd_disc n), ing, nd_dp n)" by blast
  note f = create_builtin_endpoints_fields [OF c]
  have qos: "map dwr_qos (builtin_dws (dc_endpoints (nd_disc n))) = map wi_qos (builtin_writers ing)"
    "map drd_qos (builtin_drs (dc_endpoints (nd_disc n))) = map ri_qos (builtin_readers ing)"
    using arg_cong [OF f(6), of "map (\<lambda>x. fst (snd (snd x)))"] arg_cong [OF f(7), of "map (\<lambda>x. fst (snd (snd x)))"]
    by (simp_all add: comp_def wi_fixed_def ri_fixed_def dw_identity_def dr_identity_def)
  have "builtin_ok (dc_endpoints (nd_disc n))"
    unfolding builtin_ok_def qos using f(5) [unfolded builtin_qos_def] arg_cong [OF f(8), of "map entity_id"] arg_cong [OF f(9), of "map entity_id"]
      arg_cong [OF f(3), of "map entity_id"] arg_cong [OF f(4), of "map entity_id"] f(10)
    by (auto simp: comp_def list_all_iff numeral_eq_Suc)
  then show ?thesis using DomainParticipant_new_ok(1) [OF assms] by (simp add: node_inv_def)
qed

lemma node_reachable_inv: "node_reachable S wr deser n \<Longrightarrow> node_inv n"
  by (induction rule: node_reachable.induct) (auto intro: node_new_inv node_step_inv)

end
