(* ===== verification/Umber_Startup.thy ===== *)
theory Umber_Startup
  imports Umber_NodeInv
begin

text \<open>
  A participant starts when the host allows it, and stays safe; two participants discover each other.
\<close>

section \<open>Ports and participant identifiers\<close>

lemma port_values:
  "0 \<le> d \<Longrightarrow> d \<le> 231 \<Longrightarrow> spdp_multicast_port d = Inr (7400 + 250 * d)"
  "0 \<le> d \<Longrightarrow> d \<le> 231 \<Longrightarrow> usertraffic_multicast_port d = Inr (7401 + 250 * d)"
  "0 \<le> d \<Longrightarrow> d \<le> 231 \<Longrightarrow> 0 \<le> i \<Longrightarrow> i < 120 \<Longrightarrow> spdp_unicast_port d i = Inr (7410 + 250 * d + 2 * i)"
  "0 \<le> d \<Longrightarrow> d \<le> 231 \<Longrightarrow> 0 \<le> i \<Longrightarrow> i < 120 \<Longrightarrow> usertraffic_unicast_port d i = Inr (7411 + 250 * d + 2 * i)"
  by (simp_all add: spdp_multicast_port_def usertraffic_multicast_port_def spdp_unicast_port_def
      usertraffic_unicast_port_def u16_checked_def)

definition spdp_port :: "int \<Rightarrow> int \<Rightarrow> int" where
  "spdp_port d i = 7410 + 250 * d + 2 * i"

lemma find_participant_id_first:
  assumes "0 \<le> d" "d \<le> 231" and "0 \<le> i" "i \<le> pid" "pid < 120"
    and "\<And>j. i \<le> j \<Longrightarrow> j < pid \<Longrightarrow> \<not> free (spdp_port d j)" and "free (spdp_port d pid)"
  shows "find_participant_id free d i = Inr (Some pid)"
  using assms(3,4,6)
proof (induction "nat (pid - i)" arbitrary: i)
  case 0
  then have "i = pid" by simp
  then show ?case using assms by (subst find_participant_id.simps) (simp add: port_values spdp_port_def)
next
  case (Suc k)
  then have "\<not> free (spdp_port d i)" "find_participant_id free d (i + 1) = Inr (Some pid)" by simp_all
  then show ?case
    using assms(1,2,5) Suc.prems by (subst find_participant_id.simps) (simp add: port_values spdp_port_def)
qed

lemma find_participant_id_none:
  assumes "0 \<le> d" "d \<le> 231" and "0 \<le> i" "i \<le> 120" and "\<And>j. i \<le> j \<Longrightarrow> j < 120 \<Longrightarrow> \<not> free (spdp_port d j)"
  shows "find_participant_id free d i = Inr None"
  using assms(3-5)
proof (induction "nat (120 - i)" arbitrary: i)
  case 0
  then show ?case by (subst find_participant_id.simps) simp
next
  case (Suc k)
  then have "\<not> free (spdp_port d i)" "find_participant_id free d (i + 1) = Inr None" by simp_all
  then show ?case
    using assms(1,2) Suc.prems by (subst find_participant_id.simps) (simp add: port_values spdp_port_def)
qed

lemma new_list_ok: "replicate 4 0 \<notin> set nics \<Longrightarrow>
    new_list_from_multi_ipv4 port nics = Inr (map (\<lambda>a. Locator KIND_UDPV4 port (replicate 12 0 @ a)) nics)"
  by (induction nics) auto

section \<open>The event loop starts\<close>

lemma set_deadline_timer: "\<exists>v. set_writer_timer (TDeadline e d) u = Inr v \<and> el_domain_id v = el_domain_id u"
  by (auto simp: set_writer_timer_def Let_def set_timeout_def cancel_timeout_def split: option.split)

lemma register_writer_starts:
  assumes hc: "wi_whc wi = HistoryCache_new HCWriter" and bi: "builtin_writer_id (entity_id (wi_guid wi))"
    and port: "spdp_multicast_port (el_domain_id el) = Inr port"
    and hb: "0 \<le> dur_seconds (wi_heartbeat_period wi)" "dur_seconds (wi_heartbeat_period wi) < 2 ^ 31"
      "0 \<le> dur_fraction (wi_heartbeat_period wi)" "dur_fraction (wi_heartbeat_period wi) < 2 ^ 32"
  shows "\<exists>el'. register_writer (Some t) can wi el = Inr el' \<and> el_domain_id el' = el_domain_id el"
proof -
  obtain w0 where new: "Writer_new (Some t) wi = Inr (w0, deadline_timer (wi_guid wi) (wi_qos wi))"
    and w0: "changes (writer_cache w0) = []" "w_guid w0 = wi_guid wi" "w_heartbeat_period w0 = wi_heartbeat_period wi"
      "matched_readers w0 = []"
    using hc by (auto simp: Writer_new_def add_empty_change_def HistoryCache_new_def)
  let ?l = "new_from_ipv4 port [239, 255, 0, 1]"
  have "\<exists>w. matched_reader_add guid_UNKNOW False [] [?l] spdp_reader_qos w0 = Inr w \<and> w_guid w = wi_guid wi \<and>
      w_heartbeat_period w = wi_heartbeat_period wi"
    using w0 by (simp add: matched_reader_add_def matched_reader_add_with_default_locator_def
        ReaderProxy_new_def Let_def notify_w_def split: sum.split)
  then have "\<exists>w. add_spdp_reader (el_domain_id el) w0 = Inr w \<and> w_guid w = wi_guid wi \<and>
      w_heartbeat_period w = wi_heartbeat_period wi"
    using w0(2,3) port by (simp add: add_spdp_reader_def)
  then obtain w where spdp: "add_spdp_reader (el_domain_id el) w0 = Inr w"
    and w: "w_guid w = wi_guid wi" "w_heartbeat_period w = wi_heartbeat_period wi" by blast
  have "dur_fraction (wi_heartbeat_period wi) div 1000000000 \<le> dur_fraction (wi_heartbeat_period wi)"
    using hb(3) by linarith
  then have "\<exists>d. heartbeat_period w = Inr d"
    using hb by (simp add: heartbeat_period_def CoreDuration_new_def w wrap_u_def Let_def)
  then obtain d where d: "heartbeat_period w = Inr d" by blast
  obtain el1 where 1: "(case deadline_timer (wi_guid wi) (wi_qos wi) of
      Some t \<Rightarrow> handle_set_writer_timer [t] el | None \<Rightarrow> Inr el) = Inr el1" "el_domain_id el1 = el_domain_id el"
  proof (cases "deadline_timer (wi_guid wi) (wi_qos wi)")
    case (Some wt)
    then obtain e d where "wt = TDeadline e d" by (auto simp: deadline_timer_def Let_def split: if_split_asm)
    with Some show ?thesis using set_deadline_timer [of e d el] that by (auto simp: handle_set_writer_timer_def)
  qed (use that in simp)
  obtain el2 where 2: "(if w_is_reliable w then set_heartbeat_timer w el1 else Inr el1) = Inr el2" "el_domain_id el2 = el_domain_id el"
    using 1(2) d that by (cases "w_is_reliable w") (simp_all add: set_heartbeat_timer_def set_timeout_def)
  have "el_domain_id (watch_manual_writer can w el2) = el_domain_id el2"
    by (auto simp: watch_manual_writer_def watch_list_def set_timeout_def cancel_timeout_def Let_def split: option.split)
  then show ?thesis
    unfolding register_writer_def new rbind_simps prod.case 1(1) spdp 2(1)
    using bi w 2(2)
    by (simp add: announce_writer_def unwrap_def insert_writer_def writer_seen_alive_def on_recv_def)
qed

lemma register_reader_starts:
  assumes "builtin_reader_id (entity_id (ri_guid ri))"
  shows "\<exists>el'. register_reader ri el = Inr el' \<and> el_domain_id el' = el_domain_id el"
  using assms by (simp add: register_reader_def announce_reader_def insert_reader_def on_recv_def Reader_new_def Let_def)

lemma bind_some: "m = Inr a \<Longrightarrow> f a = Inr b \<Longrightarrow> rbind m f = Inr b"
  by simp

lemma register_builtin_starts:
  assumes w: "list_all (\<lambda>wi. wi_whc wi = HistoryCache_new HCWriter \<and> builtin_writer_id (entity_id (wi_guid wi)) \<and>
      0 \<le> dur_seconds (wi_heartbeat_period wi) \<and> dur_seconds (wi_heartbeat_period wi) < 2 ^ 31 \<and>
      0 \<le> dur_fraction (wi_heartbeat_period wi) \<and> dur_fraction (wi_heartbeat_period wi) < 2 ^ 32) (builtin_writers be)"
    and r: "list_all (\<lambda>ri. builtin_reader_id (entity_id (ri_guid ri))) (builtin_readers be)"
    and port: "spdp_multicast_port (el_domain_id el) = Inr port"
  shows "\<exists>el'. register_builtin_endpoints (Some t) can be el = Inr el'"
proof -
  have W: "\<exists>v. register_writer (Some t) can wi u = Inr v \<and> el_domain_id v = el_domain_id el"
    if "el_domain_id u = el_domain_id el" "wi \<in> set (builtin_writers be)" for wi u
    using register_writer_starts [of wi u port t can] w port that by (auto simp: list_all_iff)
  have R: "\<exists>v. register_reader ri u = Inr v \<and> el_domain_id v = el_domain_id el"
    if "el_domain_id u = el_domain_id el" "ri \<in> set (builtin_readers be)" for ri u
    using register_reader_starts [of ri u] r that by (auto simp: list_all_iff)
  obtain a where a: "register_writer (Some t) can (spdp_builtin_participant_writer_ing be) el = Inr a" "el_domain_id a = el_domain_id el"
    using W [of el] by (auto simp: builtin_writers_def)
  obtain b where b: "register_writer (Some t) can (sedp_builtin_pub_writer_ing be) a = Inr b" "el_domain_id b = el_domain_id el"
    using W [OF a(2)] by (auto simp: builtin_writers_def)
  obtain c where c: "register_reader (sedp_builtin_pub_reader_ing be) b = Inr c" "el_domain_id c = el_domain_id el"
    using R [OF b(2)] by (auto simp: builtin_readers_def)
  obtain d where d: "register_writer (Some t) can (sedp_builtin_sub_writer_ing be) c = Inr d" "el_domain_id d = el_domain_id el"
    using W [OF c(2)] by (auto simp: builtin_writers_def)
  obtain e where e: "register_reader (sedp_builtin_sub_reader_ing be) d = Inr e" "el_domain_id e = el_domain_id el"
    using R [OF d(2)] by (auto simp: builtin_readers_def)
  obtain f where f: "register_writer (Some t) can (p2p_builtin_participant_msg_writer_ing be) e = Inr f" "el_domain_id f = el_domain_id el"
    using W [OF e(2)] by (auto simp: builtin_writers_def)
  obtain g where g: "register_reader (p2p_builtin_participant_msg_reader_ing be) f = Inr g"
    using R [OF f(2)] by (auto simp: builtin_readers_def)
  show ?thesis by (simp add: register_builtin_endpoints_def a b c d e f g)
qed

section \<open>The participant starts\<close>

definition hb_typed :: "CoreDuration \<Rightarrow> bool" where
  "hb_typed c \<longleftrightarrow> 0 \<le> core_secs c \<and> core_secs c < 2 ^ 31 \<and> 0 \<le> core_nanos c \<and> core_nanos c < 10 ^ 9"

definition lets_start :: "Host \<Rightarrow> int \<Rightarrow> int \<Rightarrow> bool" where
  "lets_start host d pid \<longleftrightarrow>
     can_bind_multicast host (7400 + 250 * d) \<and> can_bind_multicast host (7401 + 250 * d) \<and>
     (\<forall>j. 0 \<le> j \<longrightarrow> j < pid \<longrightarrow> \<not> can_bind_unicast host (spdp_port d j)) \<and>
     can_bind_unicast host (spdp_port d pid) \<and> can_bind_unicast host (spdp_port d pid + 1) \<and> can_send host"

lemma create_dw_starts:
  assumes "0 \<le> dp_domain_id dp" "dp_domain_id dp \<le> 231" "0 \<le> dp_participant_id dp" "dp_participant_id dp < 120"
    and "replicate 4 0 \<notin> set (network_interfaces dp)" and "hb_typed (cfg_heartbeat_period (participant_config dp))"
  shows "\<exists>dw wi. create_datawriter_with_entityid qos topic p eid dp = Inr (dw, wi) \<and>
      wi_whc wi = HistoryCache_new HCWriter \<and> wi_guid wi = GUID (guid_prefix (my_guid dp)) eid \<and>
      0 \<le> dur_seconds (wi_heartbeat_period wi) \<and> dur_seconds (wi_heartbeat_period wi) < 2 ^ 31 \<and>
      0 \<le> dur_fraction (wi_heartbeat_period wi) \<and> dur_fraction (wi_heartbeat_period wi) < 2 ^ 32"
    and "\<exists>dr ri. create_datareader_with_entityid rqos topic su eid dp = Inr (dr, ri) \<and>
      ri_guid ri = GUID (guid_prefix (my_guid dp)) eid"
proof -
  let ?hb = "from_core (cfg_heartbeat_period (participant_config dp))"
  have "dur_wf ?hb" and "0 \<le> dur_seconds ?hb"
    using assms(6) fraction_in_u32 [of "core_nanos (cfg_heartbeat_period (participant_config dp))" 1000000000]
    by (auto simp: hb_typed_def from_core_def wrap_s_def dur_wf_def)
  then show "\<exists>dw wi. create_datawriter_with_entityid qos topic p eid dp = Inr (dw, wi) \<and>
      wi_whc wi = HistoryCache_new HCWriter \<and> wi_guid wi = GUID (guid_prefix (my_guid dp)) eid \<and>
      0 \<le> dur_seconds (wi_heartbeat_period wi) \<and> dur_seconds (wi_heartbeat_period wi) < 2 ^ 31 \<and>
      0 \<le> dur_fraction (wi_heartbeat_period wi) \<and> dur_fraction (wi_heartbeat_period wi) < 2 ^ 32"
    using assms by (simp add: create_datawriter_with_entityid_def Let_def port_values new_list_ok dur_wf_def DURATION_ZERO_def
        split: ReliabilityQosKind.split)
  show "\<exists>dr ri. create_datareader_with_entityid rqos topic su eid dp = Inr (dr, ri) \<and>
      ri_guid ri = GUID (guid_prefix (my_guid dp)) eid"
    using assms by (simp add: create_datareader_with_entityid_def Let_def port_values new_list_ok)
qed

lemma builtin_endpoints_start:
  assumes "0 \<le> dp_domain_id dp" "dp_domain_id dp \<le> 231" "0 \<le> dp_participant_id dp" "dp_participant_id dp < 120"
    and "replicate 4 0 \<notin> set (network_interfaces dp)" and "hb_typed (cfg_heartbeat_period (participant_config dp))"
  shows "\<exists>be ing dp'. create_builtin_endpoints dp = Inr (be, ing, dp') \<and>
      list_all (\<lambda>wi. wi_whc wi = HistoryCache_new HCWriter \<and> builtin_writer_id (entity_id (wi_guid wi)) \<and>
        0 \<le> dur_seconds (wi_heartbeat_period wi) \<and> dur_seconds (wi_heartbeat_period wi) < 2 ^ 31 \<and>
        0 \<le> dur_fraction (wi_heartbeat_period wi) \<and> dur_fraction (wi_heartbeat_period wi) < 2 ^ 32) (builtin_writers ing) \<and>
      list_all (\<lambda>ri. builtin_reader_id (entity_id (ri_guid ri))) (builtin_readers ing) \<and>
      (\<exists>k. dp' = dp\<lparr>entity_key_generator := k\<rparr>)"
proof -
  let ?dp = "snd (create_subscriber QosDefault (snd (create_publisher QosDefault dp)))"
  have f: "dp_domain_id ?dp = dp_domain_id dp" "dp_participant_id ?dp = dp_participant_id dp"
    "network_interfaces ?dp = network_interfaces dp" "participant_config ?dp = participant_config dp"
    "\<exists>k. ?dp = dp\<lparr>entity_key_generator := k\<rparr>"
    by (auto simp: create_publisher_def create_subscriber_def gen_entity_key_def Let_def)
  note W = create_dw_starts(1) [of ?dp, unfolded f(1-4), OF assms]
  note R = create_dw_starts(2) [of ?dp, unfolded f(1-4), OF assms]
  let ?p = "fst (create_publisher QosDefault dp)"
  let ?s = "fst (create_subscriber QosDefault (snd (create_publisher QosDefault dp)))"
  let ?t = "\<lambda>a b q. create_builtin_topic a b WithKey q ?dp"
  obtain w1 i1 where 1: "create_datawriter_with_entityid (QosPolicies spdp_writer_qos)
      (?t ''DCPSParticipant'' ''SPDPDiscoveredParticipantData'' QosDefault) ?p SPDP_BUILTIN_PARTICIPANT_ANNOUNCER ?dp = Inr (w1, i1)"
    using W by blast
  obtain w2 i2 where 2: "create_datawriter_with_entityid (QosPolicies sedp_writer_qos)
      (?t ''DCPSPublication'' ''PublicationBuiltinTopicData'' (QosPolicies sedp_topic_qos)) ?p SEDP_BUILTIN_PUBLICATIONS_ANNOUNCER ?dp = Inr (w2, i2)"
    using W by blast
  obtain r3 i3 where 3: "create_datareader_with_entityid (QosPolicies sedp_reader_qos)
      (?t ''DCPSPublication'' ''PublicationBuiltinTopicData'' (QosPolicies sedp_topic_qos)) ?s SEDP_BUILTIN_PUBLICATIONS_DETECTOR ?dp = Inr (r3, i3)"
    using R by blast
  obtain w4 i4 where 4: "create_datawriter_with_entityid (QosPolicies sedp_writer_qos)
      (?t ''DCPSSucscription'' ''SubscriptionBuiltinTopicData'' (QosPolicies sedp_topic_qos)) ?p SEDP_BUILTIN_SUBSCRIPTIONS_ANNOUNCER ?dp = Inr (w4, i4)"
    using W by blast
  obtain r5 i5 where 5: "create_datareader_with_entityid (QosPolicies sedp_reader_qos)
      (?t ''DCPSSucscription'' ''SubscriptionBuiltinTopicData'' (QosPolicies sedp_topic_qos)) ?s SEDP_BUILTIN_SUBSCRIPTIONS_DETECTOR ?dp = Inr (r5, i5)"
    using R by blast
  obtain w6 i6 where 6: "create_datawriter_with_entityid (QosPolicies (default_dw_qos ?p))
      (?t ''DCPSParticipantMessage'' ''ParticipantMessageData'' (QosPolicies p2p_topic_qos)) ?p P2P_BUILTIN_PARTICIPANT_MESSAGE_WRITER ?dp = Inr (w6, i6)"
    using W by blast
  obtain r7 i7 where 7: "create_datareader_with_entityid (QosPolicies (default_dr_qos ?s))
      (?t ''DCPSParticipantMessage'' ''ParticipantMessageData'' (QosPolicies p2p_topic_qos)) ?s P2P_BUILTIN_PARTICIPANT_MESSAGE_READER ?dp = Inr (r7, i7)"
    using R by blast
  have w: "wi_whc wi = HistoryCache_new HCWriter \<and> wi_guid wi = GUID (guid_prefix (my_guid ?dp)) eid \<and>
      0 \<le> dur_seconds (wi_heartbeat_period wi) \<and> dur_seconds (wi_heartbeat_period wi) < 2 ^ 31 \<and>
      0 \<le> dur_fraction (wi_heartbeat_period wi) \<and> dur_fraction (wi_heartbeat_period wi) < 2 ^ 32"
    if "create_datawriter_with_entityid q t ?p eid ?dp = Inr (dw, wi)" for q t eid dw wi
    using W [of q t ?p eid] that by auto
  have r: "ri_guid ri = GUID (guid_prefix (my_guid ?dp)) eid"
    if "create_datareader_with_entityid q t ?s eid ?dp = Inr (dr, ri)" for q t eid dr ri
    using R [of q t ?s eid] that by auto
  note facts = w [OF 1] w [OF 2] w [OF 4] w [OF 6] r [OF 3] r [OF 5] r [OF 7]
  show ?thesis
    unfolding create_builtin_endpoints_def Let_def case_prod_beta 1 2 3 4 5 6 7 rbind_simps fst_conv snd_conv
    using facts f(5) by (auto simp: builtin_writers_def builtin_readers_def builtin_writer_id_def builtin_reader_id_def)
qed

lemma node_builtin_there:
  assumes "node_inv n"
  shows "eid \<in> {SPDP_BUILTIN_PARTICIPANT_ANNOUNCER, SEDP_BUILTIN_PUBLICATIONS_ANNOUNCER,
      SEDP_BUILTIN_SUBSCRIPTIONS_ANNOUNCER, P2P_BUILTIN_PARTICIPANT_MESSAGE_WRITER} \<Longrightarrow>
    \<exists>w dw. bm_get (el_writers (nd_loop n)) eid = Some w \<and> dw \<in> set (builtin_dws (dc_endpoints (nd_disc n))) \<and>
      entity_id (dwr_writer_guid dw) = eid \<and> w_fixed w = dw_identity dw"
    and "eid \<in> {SEDP_BUILTIN_PUBLICATIONS_DETECTOR, SEDP_BUILTIN_SUBSCRIPTIONS_DETECTOR,
        P2P_BUILTIN_PARTICIPANT_MESSAGE_READER} \<Longrightarrow>
    \<exists>r dr. bm_get (el_readers (nd_loop n)) eid = Some r \<and> dr \<in> set (builtin_drs (dc_endpoints (nd_disc n))) \<and>
      entity_id (drd_reader_guid dr) = eid \<and> r_fixed r = dr_identity dr"
proof -
  let ?be = "dc_endpoints (nd_disc n)"
  have ok: "builtin_ok ?be" and loop: "loop_inv (d_table ?be) (nd_loop n)" using assms by (simp_all add: node_inv_def)
  have dws: "set (map (\<lambda>dw. entity_id (dwr_writer_guid dw)) (builtin_dws ?be)) =
      {SPDP_BUILTIN_PARTICIPANT_ANNOUNCER, SEDP_BUILTIN_PUBLICATIONS_ANNOUNCER,
       SEDP_BUILTIN_SUBSCRIPTIONS_ANNOUNCER, P2P_BUILTIN_PARTICIPANT_MESSAGE_WRITER}"
    "set (map (\<lambda>dr. entity_id (drd_reader_guid dr)) (builtin_drs ?be)) =
      {SEDP_BUILTIN_PUBLICATIONS_DETECTOR, SEDP_BUILTIN_SUBSCRIPTIONS_DETECTOR, P2P_BUILTIN_PARTICIPANT_MESSAGE_READER}"
    using ok unfolding builtin_ok_def by (auto simp del: set_map)
  have drs: "tr (d_table ?be) (entity_id (drd_reader_guid dr)) = Some (dr_identity dr)" if "dr \<in> set (builtin_drs ?be)" for dr
  proof -
    have "distinct (map (\<lambda>dr. entity_id (drd_reader_guid dr)) (builtin_drs ?be))"
      using ok unfolding builtin_ok_def by (simp add: entity_id_defs entity_kind_defs)
    then show ?thesis using that by (auto simp: d_table_def intro!: map_of_is_SomeI simp: comp_def)
  qed
  show "\<exists>w dw. bm_get (el_writers (nd_loop n)) eid = Some w \<and> dw \<in> set (builtin_dws ?be) \<and>
      entity_id (dwr_writer_guid dw) = eid \<and> w_fixed w = dw_identity dw"
    if e: "eid \<in> {SPDP_BUILTIN_PARTICIPANT_ANNOUNCER, SEDP_BUILTIN_PUBLICATIONS_ANNOUNCER,
      SEDP_BUILTIN_SUBSCRIPTIONS_ANNOUNCER, P2P_BUILTIN_PARTICIPANT_MESSAGE_WRITER}"
  proof -
    from e [folded dws(1)] obtain dw where dw: "dw \<in> set (builtin_dws ?be)" "eid = entity_id (dwr_writer_guid dw)" by auto
    then show ?thesis using established_there(1) [OF loop builtin_there(1) [OF ok dw(1)]] by blast
  qed
  show "\<exists>r dr. bm_get (el_readers (nd_loop n)) eid = Some r \<and> dr \<in> set (builtin_drs ?be) \<and>
      entity_id (drd_reader_guid dr) = eid \<and> r_fixed r = dr_identity dr"
    if e: "eid \<in> {SEDP_BUILTIN_PUBLICATIONS_DETECTOR, SEDP_BUILTIN_SUBSCRIPTIONS_DETECTOR,
        P2P_BUILTIN_PARTICIPANT_MESSAGE_READER}"
  proof -
    from e [folded dws(2)] obtain dr where dr: "dr \<in> set (builtin_drs ?be)" "eid = entity_id (drd_reader_guid dr)" by auto
    then show ?thesis using established_there(2) [OF loop drs [OF dr(1)]] by blast
  qed
qed

lemma own_spdp_data_value:
  assumes "0 \<le> d" "d \<le> 231" "0 \<le> pid" "pid < 120" and "replicate 4 0 \<notin> set nics"
  shows "own_spdp_data d pid guid nics config = Inr
    \<lparr>spdp_domain_id = d, domain_tag = ''todo'', spdp_protocol_version = PROTOCOLVERSION,
     spdp_guid = guid, spdp_vendor_id = vendor_THIS_IMPLEMENTATION, spdp_expects_inline_qos = False,
     available_builtin_endpoint = BUILTIN_ENDPOINTS,
     metarraffic_unicast_locator_list = map (\<lambda>a. Locator KIND_UDPV4 (spdp_port d pid) (replicate 12 0 @ a)) nics,
     metarraffic_multicast_locator_list = [new_from_ipv4 (7400 + 250 * d) MULTICAST_GROUP],
     spdp_default_multicast_locator_list = [new_from_ipv4 (7401 + 250 * d) MULTICAST_GROUP],
     spdp_default_unicast_locator_list = map (\<lambda>a. Locator KIND_UDPV4 (spdp_port d pid + 1) (replicate 12 0 @ a)) nics,
     manual_liveliness_count = Some 0, spdp_lease_duration = from_core (cfg_lease_duration config)\<rparr>"
  using assms by (simp add: own_spdp_data_def port_values new_list_ok spdp_port_def ac_simps)

lemma inner_starts:
  assumes "0 \<le> d" "d \<le> 231" "0 \<le> pid" "pid < 120" and "lets_start host d pid" and "replicate 4 0 \<notin> set nics"
  shows "\<exists>dp spdp. DomainParticipantInner_new S host d nics config =
      Inr (dp, [DISCOVERY_UNI_TOKEN, DISCOVERY_MULTI_TOKEN, USERTRAFFIC_UNI_TOKEN, USERTRAFFIC_MULTI_TOKEN]) \<and>
    own_spdp_data d pid (new_participant_guid (random_bytes host)) nics config = Inr spdp \<and> dp_spdp_data dp = spdp \<and>
    new_from_cdr_data (\<lambda>e. write_spdp S e spdp) PL_CDR_LE = Inr (serialized_spdp_data dp) \<and>
    dp_domain_id dp = d \<and> dp_participant_id dp = pid \<and> my_guid dp = new_participant_guid (random_bytes host) \<and>
    entity_key_generator dp = 0x300 \<and> network_interfaces dp = nics \<and> participant_config dp = config"
proof -
  have find: "find_participant_id (can_bind_unicast host) d 0 = Inr (Some pid)"
    using assms by (intro find_participant_id_first) (auto simp: lets_start_def)
  obtain spdp where spdp: "own_spdp_data d pid (new_participant_guid (random_bytes host)) nics config = Inr spdp"
    using own_spdp_data_value [OF assms(1-4,6)] by blast
  have "\<exists>ser. new_from_cdr_data (\<lambda>e. write_spdp S e spdp) PL_CDR_LE = Inr ser" by (simp add: new_from_cdr_data_def)
  then obtain ser where ser: "new_from_cdr_data (\<lambda>e. write_spdp S e spdp) PL_CDR_LE = Inr ser" by blast
  have binds: "bind_multicast host (7400 + 250 * d) = Inr ()" "bind_multicast host (7401 + 250 * d) = Inr ()"
    "bind_usertraffic host (7411 + 250 * d + 2 * pid) = Inr ()" "can_send host"
    using assms(5) by (simp_all add: lets_start_def bind_multicast_def bind_usertraffic_def spdp_port_def ac_simps)
  note ports = port_values(1,2) [OF assms(1,2)] port_values(3,4) [OF assms(1-4)]
  show ?thesis
    unfolding DomainParticipantInner_new_def ports find rbind_simps binds unwrap_def option.case spdp ser
    using ser binds(4) by simp
qed

lemma participant_starts:
  assumes "0 \<le> d" "d \<le> 231" "0 \<le> pid" "pid < 120" and "lets_start host d pid"
    and "choose_interfaces host interfaces = Inr nics" and "replicate 4 0 \<notin> set nics"
    and "hb_typed (cfg_heartbeat_period (or_default config ParticipantConfig_default))"
  shows "\<exists>n. DomainParticipant_new S host (Some t) can d interfaces config = Inr n \<and>
    dp_domain_id (nd_dp n) = d \<and> dp_participant_id (nd_dp n) = pid \<and>
    my_guid (nd_dp n) = new_participant_guid (random_bytes host) \<and> entity_key_generator (nd_dp n) = 0x302 \<and>
    own_spdp_data d pid (new_participant_guid (random_bytes host)) nics (or_default config ParticipantConfig_default) =
      Inr (dp_spdp_data (nd_dp n)) \<and>
    new_from_cdr_data (\<lambda>e. write_spdp S e (dp_spdp_data (nd_dp n))) PL_CDR_LE = Inr (self_spdp_data (nd_disc n))"
proof -
  let ?config = "or_default config ParticipantConfig_default"
  from inner_starts [OF assms(1-5,7), of S ?config] obtain dp sockets spdp where
    inner: "DomainParticipantInner_new S host d nics ?config = Inr (dp, sockets)"
    and spdp: "own_spdp_data d pid (new_participant_guid (random_bytes host)) nics ?config = Inr spdp" "dp_spdp_data dp = spdp"
      "new_from_cdr_data (\<lambda>e. write_spdp S e spdp) PL_CDR_LE = Inr (serialized_spdp_data dp)"
    and dp: "dp_domain_id dp = d" "dp_participant_id dp = pid" "my_guid dp = new_participant_guid (random_bytes host)"
      "entity_key_generator dp = 0x300" "network_interfaces dp = nics" "participant_config dp = ?config"
    by blast
  from builtin_endpoints_start [of dp] assms dp obtain be ing dp' where c: "create_builtin_endpoints dp = Inr (be, ing, dp')"
    and w: "list_all (\<lambda>wi. wi_whc wi = HistoryCache_new HCWriter \<and> builtin_writer_id (entity_id (wi_guid wi)) \<and>
        0 \<le> dur_seconds (wi_heartbeat_period wi) \<and> dur_seconds (wi_heartbeat_period wi) < 2 ^ 31 \<and>
        0 \<le> dur_fraction (wi_heartbeat_period wi) \<and> dur_fraction (wi_heartbeat_period wi) < 2 ^ 32) (builtin_writers ing)"
    and r: "list_all (\<lambda>ri. builtin_reader_id (entity_id (ri_guid ri))) (builtin_readers ing)"
    and dp': "\<exists>k. dp' = dp\<lparr>entity_key_generator := k\<rparr>"
    by auto
  have k: "entity_key_generator dp' = 0x302"
    using c dp(4) by (auto simp: create_builtin_endpoints_def create_publisher_def create_subscriber_def gen_entity_key_def
        Let_def elim!: rbind_Inr_E)
  have "\<exists>el. EventLoop_new (Some t) can d (guid_prefix (my_guid dp')) sockets (guid_prefix (my_guid dp'))
      DiscoveryDB_new (serialized_spdp_data dp') ing = Inr el"
    unfolding EventLoop_new_def by (rule register_builtin_starts [OF w r]) (simp add: port_values(1) [OF assms(1,2)])
  then obtain el where el: "EventLoop_new (Some t) can d (guid_prefix (my_guid dp')) sockets (guid_prefix (my_guid dp'))
      DiscoveryDB_new (serialized_spdp_data dp') ing = Inr el"
    by blast
  let ?n = "\<lparr>nd_dp = dp', nd_loop = el, nd_disc = Discovery_new be (serialized_spdp_data dp'), nd_cmds = []\<rparr>"
  have new: "DomainParticipant_new S host (Some t) can d interfaces config = Inr ?n"
    by (simp add: DomainParticipant_new_def assms(6) inner c el)
  show ?thesis using new k dp' dp spdp by (intro exI [of _ ?n]) (auto simp: Discovery_new_def)
qed

text \<open>
  C28. A participant starts. In a domain up to 231, on interfaces with an address, with a host that lets it bind the
  two multicast ports and a pair of unicast ports below the 120th, the constructor returns: the participant has the
  least identifier whose discovery port is free, listens on its four sockets, announces exactly the
  addresses it listens on, its event loop has the seven built-in endpoints, and no key has been used but
  those of the built-in publisher and subscriber.
\<close>

theorem participant_created:
  assumes "0 \<le> d" "d \<le> 231" "0 \<le> pid" "pid < 120" and "lets_start host d pid"
    and "choose_interfaces host interfaces = Inr nics" and "replicate 4 0 \<notin> set nics"
    and "hb_typed (cfg_heartbeat_period (or_default config ParticipantConfig_default))"
  shows "\<exists>n. DomainParticipant_new S host (Some t) can d interfaces config = Inr n \<and>
    dp_domain_id (nd_dp n) = d \<and> dp_participant_id (nd_dp n) = pid \<and>
    my_guid (nd_dp n) = new_participant_guid (random_bytes host) \<and>
    metarraffic_unicast_locator_list (dp_spdp_data (nd_dp n)) =
      map (\<lambda>a. Locator KIND_UDPV4 (spdp_port d pid) (replicate 12 0 @ a)) nics \<and>
    spdp_default_unicast_locator_list (dp_spdp_data (nd_dp n)) =
      map (\<lambda>a. Locator KIND_UDPV4 (spdp_port d pid + 1) (replicate 12 0 @ a)) nics \<and>
    (\<forall>eid. eid \<in> {SPDP_BUILTIN_PARTICIPANT_ANNOUNCER, SEDP_BUILTIN_PUBLICATIONS_ANNOUNCER,
        SEDP_BUILTIN_SUBSCRIPTIONS_ANNOUNCER, P2P_BUILTIN_PARTICIPANT_MESSAGE_WRITER} \<longrightarrow>
      bm_get (el_writers (nd_loop n)) eid \<noteq> None) \<and>
    (\<forall>eid. eid \<in> {SEDP_BUILTIN_PUBLICATIONS_DETECTOR, SEDP_BUILTIN_SUBSCRIPTIONS_DETECTOR,
        P2P_BUILTIN_PARTICIPANT_MESSAGE_READER} \<longrightarrow> bm_get (el_readers (nd_loop n)) eid \<noteq> None) \<and>
    entity_key_generator (nd_dp n) = 0x302"
proof -
  from participant_starts [OF assms] obtain n where new: "DomainParticipant_new S host (Some t) can d interfaces config = Inr n"
    and n: "dp_domain_id (nd_dp n) = d" "dp_participant_id (nd_dp n) = pid"
      "my_guid (nd_dp n) = new_participant_guid (random_bytes host)" "entity_key_generator (nd_dp n) = 0x302"
    and spdp: "own_spdp_data d pid (new_participant_guid (random_bytes host)) nics (or_default config ParticipantConfig_default) =
      Inr (dp_spdp_data (nd_dp n))" by blast
  note there = node_builtin_there [OF node_new_inv [OF new]]
  have "bm_get (el_writers (nd_loop n)) eid \<noteq> None"
    if "eid \<in> {SPDP_BUILTIN_PARTICIPANT_ANNOUNCER, SEDP_BUILTIN_PUBLICATIONS_ANNOUNCER,
        SEDP_BUILTIN_SUBSCRIPTIONS_ANNOUNCER, P2P_BUILTIN_PARTICIPANT_MESSAGE_WRITER}" for eid
    using there(1) [OF that] by auto
  moreover have "bm_get (el_readers (nd_loop n)) eid \<noteq> None"
    if "eid \<in> {SEDP_BUILTIN_PUBLICATIONS_DETECTOR, SEDP_BUILTIN_SUBSCRIPTIONS_DETECTOR,
        P2P_BUILTIN_PARTICIPANT_MESSAGE_READER}" for eid
    using there(2) [OF that] by auto
  moreover have "metarraffic_unicast_locator_list (dp_spdp_data (nd_dp n)) =
      map (\<lambda>a. Locator KIND_UDPV4 (spdp_port d pid) (replicate 12 0 @ a)) nics"
    "spdp_default_unicast_locator_list (dp_spdp_data (nd_dp n)) =
      map (\<lambda>a. Locator KIND_UDPV4 (spdp_port d pid + 1) (replicate 12 0 @ a)) nics"
    by (simp_all add: spdp [unfolded own_spdp_data_value [OF assms(1-4,7)] sum.inject, symmetric])
  ultimately show ?thesis using new n by blast
qed

definition ex_host :: Host where
  "ex_host = \<lparr>if_addrs = Some [\<lparr>is_loopback = True, if_ip = V4 [127, 0, 0, 1]\<rparr>,
       \<lparr>is_loopback = False, if_ip = V6 (replicate 16 1)\<rparr>, \<lparr>is_loopback = False, if_ip = V4 [10, 0, 0, 2]\<rparr>],
     can_bind_unicast = (\<lambda>port. port \<noteq> 7410), can_bind_multicast = (\<lambda>_. True), can_send = True,
     random_bytes = [1, 2, 3, 4, 5, 6, 7, 8, 9, 10, 11, 12]\<rparr>"

lemma ex_host_starts:
  "lets_start ex_host 0 1" "choose_interfaces ex_host [] = Inr [[10, 0, 0, 2]]"
  "hb_typed (cfg_heartbeat_period (or_default None ParticipantConfig_default))"
  by (auto simp: lets_start_def ex_host_def spdp_port_def choose_interfaces_def get_local_interfaces_def ipv4_of_def
      List.map_filter_def or_default_def ParticipantConfig_default_def hb_typed_def DEFAULT_HEARTBEAT_PERIOD_def core_secs_only_def)

theorem participant_created_witness:
  "\<exists>n. DomainParticipant_new ref_speedy ex_host (Some \<lparr>ts_seconds = 1, ts_fraction = 0\<rparr>) (\<lambda>_. True) 0 [] None = Inr n \<and>
     dp_participant_id (nd_dp n) = 1 \<and>
     spdp_default_unicast_locator_list (dp_spdp_data (nd_dp n)) = [new_from_ipv4 7413 [10, 0, 0, 2]]"
proof -
  from participant_created [OF _ _ _ _ ex_host_starts(1,2) ex_nic(2) ex_host_starts(3), of ref_speedy "\<lparr>ts_seconds = 1, ts_fraction = 0\<rparr>" "\<lambda>_. True"]
  obtain n where "DomainParticipant_new ref_speedy ex_host (Some \<lparr>ts_seconds = 1, ts_fraction = 0\<rparr>) (\<lambda>_. True) 0 [] None = Inr n"
    "dp_participant_id (nd_dp n) = 1"
    "spdp_default_unicast_locator_list (dp_spdp_data (nd_dp n)) =
      map (\<lambda>a. Locator KIND_UDPV4 (spdp_port 0 1 + 1) (replicate 12 0 @ a)) [[10, 0, 0, 2]]" by auto
  then show ?thesis by (simp add: spdp_port_def new_from_ipv4_def)
qed

text \<open>
  C20. A participant does not start. With interfaces named by the caller, in every domain from 233 on the arithmetic on
  ports overflows and panics, and when the 120 discovery ports of a domain are all taken, the constructor panics; without
  interfaces named by the caller it panics on a host that has only loopback interfaces.
\<close>

theorem participant_refused:
  "(233 \<le> d \<longrightarrow> d < 2 ^ 16 \<longrightarrow> interfaces \<noteq> [] \<longrightarrow>
     DomainParticipant_new S host now can d interfaces config = Inl ArithOverflow) \<and>
   (0 \<le> d \<longrightarrow> d \<le> 231 \<longrightarrow> interfaces \<noteq> [] \<longrightarrow> (\<forall>port. can_bind_multicast host port) \<longrightarrow>
     (\<forall>i. 0 \<le> i \<longrightarrow> i < 120 \<longrightarrow> \<not> can_bind_unicast host (spdp_port d i)) \<longrightarrow>
     DomainParticipant_new S host now can d interfaces config = Inl UnwrapNone) \<and>
   (\<forall>ifs. if_addrs host = Some ifs \<longrightarrow> list_all is_loopback ifs \<longrightarrow>
     DomainParticipant_new S host now can d [] config = Inl ExplicitPanic)"
proof (intro conjI impI allI)
  assume "233 \<le> d" "d < 2 ^ 16" "interfaces \<noteq> []"
  then show "DomainParticipant_new S host now can d interfaces config = Inl ArithOverflow"
    by (simp add: DomainParticipant_new_def choose_interfaces_def DomainParticipantInner_new_def spdp_multicast_port_def u16_checked_def)
next
  assume d: "0 \<le> d" "d \<le> 231" and i: "interfaces \<noteq> []" and m: "\<forall>port. can_bind_multicast host port"
    and u: "\<forall>i. 0 \<le> i \<longrightarrow> i < 120 \<longrightarrow> \<not> can_bind_unicast host (spdp_port d i)"
  have "find_participant_id (can_bind_unicast host) d 0 = Inr None"
    using u by (intro find_participant_id_none d) auto
  then show "DomainParticipant_new S host now can d interfaces config = Inl UnwrapNone"
    using d i m by (simp add: DomainParticipant_new_def choose_interfaces_def DomainParticipantInner_new_def
        port_values bind_multicast_def unwrap_def)
next
  fix ifs assume "if_addrs host = Some ifs" "list_all is_loopback ifs"
  moreover from this have "filter (\<lambda>s. \<not> is_loopback s) ifs = []" by (simp add: filter_empty_conv list_all_iff)
  ultimately show "DomainParticipant_new S host now can d [] config = Inl ExplicitPanic"
    by (simp add: DomainParticipant_new_def choose_interfaces_def get_local_interfaces_def List.map_filter_def)
qed

theorem participant_refused_witness:
  "DomainParticipant_new ref_speedy ex_host None (\<lambda>_. True) 233 [[10, 0, 0, 2]] None = Inl ArithOverflow \<and>
   DomainParticipant_new ref_speedy (ex_host\<lparr>if_addrs := Some [\<lparr>is_loopback = True, if_ip = V4 [127, 0, 0, 1]\<rparr>]\<rparr>)
     None (\<lambda>_. True) 0 [] None = Inl ExplicitPanic"
  using participant_refused [of 233 "[[10, 0, 0, 2]]" ref_speedy ex_host None "\<lambda>_. True" None]
    participant_refused [of 0 "[]" ref_speedy "ex_host\<lparr>if_addrs := Some [\<lparr>is_loopback = True, if_ip = V4 [127, 0, 0, 1]\<rparr>]\<rparr>" None "\<lambda>_. True" None]
  by simp

section \<open>A participant is safe\<close>

lemma loop_timer_fits:
  assumes "loop_inv E el" and "SetTimeout d st \<in> set (el_timers el)"
  shows "timer_fits (dom (bm_get (el_readers el))) (dom (bm_get (el_writers el))) (check_liveliness_timer_to el \<noteq> None) st"
  using assms by (auto simp: loop_inv_def loop_ok_def timers_fit_def)

text \<open>
  C8. A participant is safe in every reachable state (\<open>node_reachable\<close>: the event loop, the discovery thread, the
  application and the network in any order, for packets with sequence numbers in range, timers that were set
  and sequence numbers of the built-in data writers below the largest one). All reliable writers and all readers satisfy
  their invariants and are stored under their own identifiers, the discovery data base is consistent, and the
  built-in writers are there with the identity they were created with. Every timer that was ever set still
  fits when it fires: the handlers of the deadlines of readers and writers and of the lifespan find their endpoint
  and do not panic; with a working clock the handlers of the heartbeat period, of a reader's
  leases and of the check of manual liveliness can fail with an arithmetic overflow only, so they reach no
  \<^verbatim>\<open>unreachable!\<close> and no \<^verbatim>\<open>unwrap\<close> of \<^verbatim>\<open>None\<close>; and the handler that asserts automatic liveliness
  does not panic at all, because every writer has a time of its last activity.
\<close>

theorem participant_safe:
  assumes "node_reachable S wr deser n"
  shows "(\<forall>eid w. bm_get (el_writers (nd_loop n)) eid = Some w \<longrightarrow>
      entity_id (w_guid w) = eid \<and> (w_is_reliable w \<longrightarrow> writer_inv w)) \<and>
    (\<forall>eid r. bm_get (el_readers (nd_loop n)) eid = Some r \<longrightarrow> entity_id (r_guid r) = eid \<and> reader_inv r) \<and>
    db_inv (el_db (nd_loop n)) \<and>
    (\<forall>dw \<in> set (builtin_dws (dc_endpoints (nd_disc n))).
      \<exists>w. bm_get (el_writers (nd_loop n)) (entity_id (dwr_writer_guid dw)) = Some w \<and> w_fixed w = dw_identity dw) \<and>
    (\<forall>d st. SetTimeout d st \<in> set (el_timers (nd_loop n)) \<longrightarrow>
      (\<exists>el'. reader_deadline_fired st (nd_loop n) = Inr el') \<and> (\<exists>el'. reader_lifespan_fired st (nd_loop n) = Inr el') \<and>
      (\<exists>el'. writer_deadline_fired st (nd_loop n) = Inr el') \<and>
      (\<forall>t e. writer_heartbeat_fired (Some t) st (nd_loop n) = Inl e \<or> wlp_fired (Some t) st (nd_loop n) = Inl e \<or>
        check_liveliness_fired (Some t) st (nd_loop n) = Inl e \<longrightarrow> e = ArithOverflow)) \<and>
    (\<forall>t. \<exists>el'. assert_liveliness_fired (Some t) (nd_loop n) = Inr el')"
proof -
  let ?el = "nd_loop n" and ?be = "dc_endpoints (nd_disc n)"
  have ok: "builtin_ok ?be" and inv: "loop_inv (d_table ?be) ?el"
    using node_reachable_inv [OF assms] by (simp_all add: node_inv_def)
  have recv: "recv_inv (el_recv ?el)" using inv by (simp add: loop_inv_def loop_ok_def)
  note D = recv_invD [OF recv]
  have dws: "\<forall>dw \<in> set (builtin_dws ?be). \<exists>w. bm_get (el_writers ?el) (entity_id (dwr_writer_guid dw)) = Some w \<and> w_fixed w = dw_identity dw"
    using established_there(1) [OF inv builtin_there(1) [OF ok]] by blast
  have fire: "(\<exists>el'. reader_deadline_fired st ?el = Inr el') \<and> (\<exists>el'. reader_lifespan_fired st ?el = Inr el') \<and>
      (\<exists>el'. writer_deadline_fired st ?el = Inr el') \<and>
      (\<forall>t e. writer_heartbeat_fired (Some t) st ?el = Inl e \<or> wlp_fired (Some t) st ?el = Inl e \<or>
        check_liveliness_fired (Some t) st ?el = Inl e \<longrightarrow> e = ArithOverflow)"
    if "SetTimeout d st \<in> set (el_timers ?el)" for d st
  proof -
    note fits = loop_timer_fits [OF inv that]
    then have "overflows_only (check_liveliness_fired (Some t) st ?el)" for t
      by (intro check_liveliness_fired_overflows) simp
    with writer_heartbeat_overflows wlp_fired_overflows
    have "\<forall>t e. writer_heartbeat_fired (Some t) st ?el = Inl e \<or> wlp_fired (Some t) st ?el = Inl e \<or>
        check_liveliness_fired (Some t) st ?el = Inl e \<longrightarrow> e = ArithOverflow"
      unfolding overflows_only_def by blast
    with fits show ?thesis
      by (cases st) (auto simp: reader_deadline_fired_def reader_lifespan_fired_def writer_deadline_fired_def Let_def)
  qed
  have live: "\<forall>t. \<exists>el'. assert_liveliness_fired (Some t) ?el = Inr el'"
    using inv assert_liveliness_fired_total by (auto simp: loop_inv_def)
  show ?thesis
  proof (intro conjI dws live allI impI)
    show "db_inv (el_db ?el)" using D(2) by (simp add: el_db_def)
  qed (use D(3-6) fire in \<open>auto simp: el_writers_def el_readers_def\<close>)
qed

theorem participant_safe_witness:
  "\<exists>n r. DomainParticipant_new ref_speedy ex_host (Some \<lparr>ts_seconds = 1, ts_fraction = 0\<rparr>) (\<lambda>_. True) 0 [] None = Inr n \<and>
     bm_get (el_readers (nd_loop n)) SEDP_BUILTIN_PUBLICATIONS_DETECTOR = Some r \<and>
     entity_id (r_guid r) = SEDP_BUILTIN_PUBLICATIONS_DETECTOR \<and> reader_inv r"
proof -
  from participant_starts [OF _ _ _ _ ex_host_starts(1,2) ex_nic(2) ex_host_starts(3)]
  obtain n where n: "DomainParticipant_new ref_speedy ex_host (Some \<lparr>ts_seconds = 1, ts_fraction = 0\<rparr>) (\<lambda>_. True) 0 [] None = Inr n"
    by fastforce
  have "node_reachable ref_speedy (wire_of ref_speedy) (\<lambda>e bytes. Some bytes) n" by (rule nr_new [OF n])
  from participant_safe [OF this] node_builtin_there(2) [OF node_new_inv [OF n], of SEDP_BUILTIN_PUBLICATIONS_DETECTOR] n
  show ?thesis by blast
qed

end
