(* ===== verification/Umber_Meeting.thy ===== *)
theory Umber_Meeting
  imports Umber_Startup
begin

text \<open>
  Participants that meet and part: what a participant does with the announcement of another one, how its
  endpoints get known, and what is left when the other one is gone.
\<close>

section \<open>Built-in endpoints match\<close>

lemmas compatible_calc = dw_is_compatible_def dr_is_compatible_def compat_result_def durability_is_compatible_def
  deadline_is_compatible_def latency_budget_is_compatible_def ownership_is_compatible_def liveliness_is_compatible_def
  reliability_is_compatible_def destination_order_is_compatible_def dur_le_def default_durability_def

lemma builtin_compatible:
  "dw_is_compatible (in_force_w sedp_topic_qos sedp_writer_qos) (remote_reader_qos default_besteffort DataReaderQosBuilder_new) = Inr ()"
  "dw_is_compatible (in_force_w sedp_topic_qos sedp_writer_qos) (remote_reader_qos default_reliable DataReaderQosBuilder_new) = Inr ()"
  "dw_is_compatible (in_force_w p2p_topic_qos p2p_writer_qos)
     (remote_reader_qos default_reliable (DataReaderQosBuilder_new\<lparr>rb_history := Some keep_one\<rparr>)) = Inr ()"
  "dr_is_compatible (in_force_r sedp_topic_qos sedp_reader_qos) (remote_writer_qos DataWriterQosBuilder_new) = Inr ()"
  "dr_is_compatible (in_force_r p2p_topic_qos p2p_reader_qos)
     (remote_writer_qos (DataWriterQosBuilder_new\<lparr>wb_history := Some keep_one\<rparr>)) = Inr ()"
  by (simp_all add: compatible_calc remote_reader_qos_def remote_writer_qos_def qos_calc)

text \<open>
  A writer knows a built-in reader of another participant: it has a proxy with the announced addresses; if the
  proxy is new, the reader still lacks every change the writer holds.
\<close>

definition reader_known :: "SPDPdiscoveredParticipantData \<Rightarrow> EntityId \<Rightarrow> Writer \<Rightarrow> Writer \<Rightarrow> bool" where
  "reader_known d remote w w' \<longleftrightarrow>
     (case bm_get (matched_readers w') (GUID (guid_prefix (spdp_guid d)) remote) of
        None \<Rightarrow> False
      | Some p \<Rightarrow>
          rp_unicast_locator_list p = metarraffic_unicast_locator_list d \<and>
          rp_multicast_locator_list p = metarraffic_multicast_locator_list d \<and>
          (bm_get (matched_readers w) (GUID (guid_prefix (spdp_guid d)) remote) = None \<longrightarrow>
            (\<forall>n. is_acked n p \<longleftrightarrow> get_change (w_guid w) n (writer_cache w) = None)))"

definition writer_known :: "SPDPdiscoveredParticipantData \<Rightarrow> EntityId \<Rightarrow> Reader \<Rightarrow> bool" where
  "writer_known d remote r \<longleftrightarrow>
     (case bm_get (matched_writers r) (GUID (guid_prefix (spdp_guid d)) remote) of
        None \<Rightarrow> False
      | Some p \<Rightarrow>
          wp_unicast_locator_list p = metarraffic_unicast_locator_list d \<and>
          wp_multicast_locator_list p = metarraffic_multicast_locator_list d)"

lemma remote_durable: "fst (dr_durability (remote_reader_qos rel b)) = TransientLocal"
  by (simp add: remote_reader_qos_def qos_calc)

lemma matched_reader_add_known:
  assumes inv: "writer_inv w" and d: "metarraffic_unicast_locator_list d \<noteq> []"
    and q: "dw_is_compatible (w_qos w) (remote_reader_qos rel bd) = Inr ()" and bi: "is_builtin remote"
  shows "\<exists>w'. matched_reader_add (GUID (guid_prefix (spdp_guid d)) remote) (spdp_expects_inline_qos d)
      (metarraffic_unicast_locator_list d) (metarraffic_multicast_locator_list d) (remote_reader_qos rel bd) w = Inr w' \<and>
    reader_known d remote w w'"
proof (cases "bm_get (matched_readers w) (GUID (guid_prefix (spdp_guid d)) remote)")
  case (Some p)
  then show ?thesis
    using d by (simp add: matched_reader_add_def matched_reader_add_with_default_locator_def reader_known_def)
next
  case None
  let ?g = "GUID (guid_prefix (spdp_guid d)) remote"
  note co = writer_invD(3) [OF inv]
  have keys: "\<forall>k \<in> set (bm_keys (changes (writer_cache w))). hk_guid k = w_guid w \<and> hk_seq_num k \<le> i64_max"
    using cache_okD(3) [OF co] by (fastforce dest: weak_map_of_SomeI)
  have "metarraffic_unicast_locator_list d @ metarraffic_multicast_locator_list d @ [] @ [] \<noteq> []" using d by simp
  from ReaderProxy_new_spec [OF cache_okD(1) [OF co] keys this, of ?g "spdp_expects_inline_qos d" "remote_reader_qos rel bd" "push_mode w"]
  obtain p where p: "ReaderProxy_new ?g (spdp_expects_inline_qos d) (metarraffic_unicast_locator_list d)
        (metarraffic_multicast_locator_list d) [] [] (remote_reader_qos rel bd) (writer_cache w) (push_mode w) = Inr p"
    and e: "\<And>n. rp_entry p n = (if HCKey (w_guid w) n \<in> set (bm_keys (changes (writer_cache w)))
       then Some (ChangeForReader_new n (if push_mode w then Unsent else Unacknowledged) True) else None)"
    using bi by (auto simp: late_joiner_relevant_def remote_durable)
  have "is_acked n p \<longleftrightarrow> get_change (w_guid w) n (writer_cache w) = None" for n
    using e [of n] by (auto simp: is_acked_def rp_entry_def get_change_def bm_get_None ChangeForReader_new_def
        split: if_splits option.splits)
  moreover have "rp_unicast_locator_list p = metarraffic_unicast_locator_list d"
    "rp_multicast_locator_list p = metarraffic_multicast_locator_list d"
    using p by (auto simp: ReaderProxy_new_def Let_def elim!: rbind_Inr_E split: if_splits)
  ultimately show ?thesis
    using None q p by (simp add: matched_reader_add_def matched_reader_add_with_default_locator_def
        reader_known_def Let_def notify_w_def)
qed

lemma matched_writer_add_known:
  assumes "metarraffic_unicast_locator_list d \<noteq> []" and "dr_is_compatible (r_qos r) qos = Inr ()"
  shows "\<exists>r'. matched_writer_add (GUID (guid_prefix (spdp_guid d)) remote) (metarraffic_unicast_locator_list d)
      (metarraffic_multicast_locator_list d) 0 qos r = Inr r' \<and> writer_known d remote r'"
  using assms
  by (cases "bm_get (matched_writers r) (GUID (guid_prefix (spdp_guid d)) remote)")
    (simp_all add: matched_writer_add_def matched_writer_add_with_default_locator_def
      WriterProxy_new_def writer_known_def Let_def notify_r_def liveliness_changed_def on_proxy_def)

lemma match_remote_reader_known:
  assumes "bm_get (ws s) local = Some w" and "writer_inv w"
    and "endpoint_contains (available_builtin_endpoint d) b" "metarraffic_unicast_locator_list d \<noteq> []"
    and "dw_is_compatible (w_qos w) (remote_reader_qos rel bd) = Inr ()" and "is_builtin remote"
  shows "\<exists>w'. match_remote_reader b remote local (remote_reader_qos rel bd) d s = Inr (put_writer local w' s) \<and>
    reader_known d remote w w'"
  using matched_reader_add_known [OF assms(2,4-6)] assms(1,3) by (auto simp: match_remote_reader_def)

lemma match_remote_writer_known:
  assumes "bm_get (rs s) local = Some r"
    and "endpoint_contains (available_builtin_endpoint d) b" "metarraffic_unicast_locator_list d \<noteq> []"
    and "dr_is_compatible (r_qos r) qos = Inr ()"
  shows "\<exists>r'. match_remote_writer b remote local qos d s = Inr (put_reader local r' s) \<and> writer_known d remote r'"
  using matched_writer_add_known [OF assms(3,4), of remote] assms(1,2) by (auto simp: match_remote_writer_def)

section \<open>Two participants meet\<close>

lemma put_get:
  "bm_get (ws (put_writer eid w s)) e = (if e = eid then map_option (\<lambda>_. w) (bm_get (ws s) eid) else bm_get (ws s) e)"
  "bm_get (rs (put_writer eid w s)) e = bm_get (rs s) e" "mr (put_writer eid w s) = mr s"
  "bm_get (rs (put_reader eid r s)) e = (if e = eid then map_option (\<lambda>_. r) (bm_get (rs s) eid) else bm_get (rs s) e)"
  "bm_get (ws (put_reader eid r s)) e = bm_get (ws s) e" "mr (put_reader eid r s) = mr s"
  by (simp_all add: put_writer_def put_reader_def)

lemma builtin_ids_differ:
  "SEDP_BUILTIN_PUBLICATIONS_ANNOUNCER \<noteq> SEDP_BUILTIN_SUBSCRIPTIONS_ANNOUNCER"
  "SEDP_BUILTIN_PUBLICATIONS_ANNOUNCER \<noteq> P2P_BUILTIN_PARTICIPANT_MESSAGE_WRITER"
  "SEDP_BUILTIN_SUBSCRIPTIONS_ANNOUNCER \<noteq> P2P_BUILTIN_PARTICIPANT_MESSAGE_WRITER"
  "SEDP_BUILTIN_PUBLICATIONS_DETECTOR \<noteq> SEDP_BUILTIN_SUBSCRIPTIONS_DETECTOR"
  "SEDP_BUILTIN_PUBLICATIONS_DETECTOR \<noteq> P2P_BUILTIN_PARTICIPANT_MESSAGE_READER"
  "SEDP_BUILTIN_SUBSCRIPTIONS_DETECTOR \<noteq> P2P_BUILTIN_PARTICIPANT_MESSAGE_READER"
  "SPDP_BUILTIN_PARTICIPANT_ANNOUNCER \<notin> {SEDP_BUILTIN_PUBLICATIONS_ANNOUNCER, SEDP_BUILTIN_SUBSCRIPTIONS_ANNOUNCER,
    P2P_BUILTIN_PARTICIPANT_MESSAGE_WRITER}"
  by (simp_all add: entity_id_defs entity_kind_defs)

lemma builtin_bits:
  "endpoint_contains BUILTIN_ENDPOINTS PUBLICATIONS_DETECTOR_bit" "endpoint_contains BUILTIN_ENDPOINTS PUBLICATIONS_ANNOUNCER_bit"
  "endpoint_contains BUILTIN_ENDPOINTS SUBSCRIPTIONS_DETECTOR_bit" "endpoint_contains BUILTIN_ENDPOINTS SUBSCRIPTIONS_ANNOUNCER_bit"
  "endpoint_contains BUILTIN_ENDPOINTS PARTICIPANT_MESSAGE_DATA_READER_bit"
  "endpoint_contains BUILTIN_ENDPOINTS PARTICIPANT_MESSAGE_DATA_WRITER_bit"
  by (simp_all add: endpoint_contains_def BUILTIN_ENDPOINTS_def PUBLICATIONS_DETECTOR_bit_def PUBLICATIONS_ANNOUNCER_bit_def
      SUBSCRIPTIONS_DETECTOR_bit_def SUBSCRIPTIONS_ANNOUNCER_bit_def PARTICIPANT_MESSAGE_DATA_READER_bit_def
      PARTICIPANT_MESSAGE_DATA_WRITER_bit_def push_bit_eq_mult)

lemma remote_is_builtin:
  "is_builtin SEDP_BUILTIN_PUBLICATIONS_DETECTOR" "is_builtin SEDP_BUILTIN_SUBSCRIPTIONS_DETECTOR"
  "is_builtin P2P_BUILTIN_PARTICIPANT_MESSAGE_READER"
  by (simp_all add: is_builtin_def entity_id_defs)

text \<open>The local endpoints that a participant needs to meet another one, with the QoS it gives them.\<close>

definition meets :: "(EntityId \<Rightarrow> Writer) \<Rightarrow> (EntityId \<Rightarrow> Reader) \<Rightarrow> RecvState \<Rightarrow> bool" where
  "meets W R s \<longleftrightarrow>
     (\<forall>(eid, q) \<in> {(SEDP_BUILTIN_PUBLICATIONS_ANNOUNCER, in_force_w sedp_topic_qos sedp_writer_qos),
          (SEDP_BUILTIN_SUBSCRIPTIONS_ANNOUNCER, in_force_w sedp_topic_qos sedp_writer_qos),
          (P2P_BUILTIN_PARTICIPANT_MESSAGE_WRITER, in_force_w p2p_topic_qos p2p_writer_qos)}.
        bm_get (ws s) eid = Some (W eid) \<and> writer_inv (W eid) \<and> w_qos (W eid) = q) \<and>
     (\<forall>(eid, q) \<in> {(SEDP_BUILTIN_PUBLICATIONS_DETECTOR, in_force_r sedp_topic_qos sedp_reader_qos),
          (SEDP_BUILTIN_SUBSCRIPTIONS_DETECTOR, in_force_r sedp_topic_qos sedp_reader_qos),
          (P2P_BUILTIN_PARTICIPANT_MESSAGE_READER, in_force_r p2p_topic_qos p2p_reader_qos)}.
        bm_get (rs s) eid = Some (R eid) \<and> r_qos (R eid) = q)"

definition met :: "SPDPdiscoveredParticipantData \<Rightarrow> (EntityId \<Rightarrow> Writer) \<Rightarrow> RecvState \<Rightarrow> bool" where
  "met d W s \<longleftrightarrow>
     (\<forall>(local, remote) \<in> {(SEDP_BUILTIN_PUBLICATIONS_ANNOUNCER, SEDP_BUILTIN_PUBLICATIONS_DETECTOR),
          (SEDP_BUILTIN_SUBSCRIPTIONS_ANNOUNCER, SEDP_BUILTIN_SUBSCRIPTIONS_DETECTOR),
          (P2P_BUILTIN_PARTICIPANT_MESSAGE_WRITER, P2P_BUILTIN_PARTICIPANT_MESSAGE_READER)}.
        case bm_get (ws s) local of None \<Rightarrow> False | Some w \<Rightarrow> reader_known d remote (W local) w) \<and>
     (\<forall>(local, remote) \<in> {(SEDP_BUILTIN_PUBLICATIONS_DETECTOR, SEDP_BUILTIN_PUBLICATIONS_ANNOUNCER),
          (SEDP_BUILTIN_SUBSCRIPTIONS_DETECTOR, SEDP_BUILTIN_SUBSCRIPTIONS_ANNOUNCER),
          (P2P_BUILTIN_PARTICIPANT_MESSAGE_READER, P2P_BUILTIN_PARTICIPANT_MESSAGE_WRITER)}.
        case bm_get (rs s) local of None \<Rightarrow> False | Some r \<Rightarrow> writer_known d remote r)"

lemma participant_discovery_meets:
  assumes m: "meets W R s" and dom: "spdp_domain_id d = domain_id (mr s)"
    and d: "available_builtin_endpoint d = BUILTIN_ENDPOINTS" "metarraffic_unicast_locator_list d \<noteq> []"
  shows "\<exists>s'. handle_participant_discovery d s = Inr s' \<and> mr s' = mr s \<and> met d W s' \<and>
    bm_get (ws s') SPDP_BUILTIN_PARTICIPANT_ANNOUNCER = bm_get (ws s) SPDP_BUILTIN_PARTICIPANT_ANNOUNCER"
proof -
  let ?pa = SEDP_BUILTIN_PUBLICATIONS_ANNOUNCER and ?pd = SEDP_BUILTIN_PUBLICATIONS_DETECTOR
  let ?sa = SEDP_BUILTIN_SUBSCRIPTIONS_ANNOUNCER and ?sd = SEDP_BUILTIN_SUBSCRIPTIONS_DETECTOR
  let ?mw = P2P_BUILTIN_PARTICIPANT_MESSAGE_WRITER and ?mr = P2P_BUILTIN_PARTICIPANT_MESSAGE_READER
  have W: "bm_get (ws s) ?pa = Some (W ?pa)" "bm_get (ws s) ?sa = Some (W ?sa)" "bm_get (ws s) ?mw = Some (W ?mw)"
    and inv: "writer_inv (W ?pa)" "writer_inv (W ?sa)" "writer_inv (W ?mw)"
    and q: "w_qos (W ?pa) = in_force_w sedp_topic_qos sedp_writer_qos" "w_qos (W ?sa) = in_force_w sedp_topic_qos sedp_writer_qos"
      "w_qos (W ?mw) = in_force_w p2p_topic_qos p2p_writer_qos"
    and R: "bm_get (rs s) ?pd = Some (R ?pd)" "bm_get (rs s) ?sd = Some (R ?sd)" "bm_get (rs s) ?mr = Some (R ?mr)"
    and qr: "r_qos (R ?pd) = in_force_r sedp_topic_qos sedp_reader_qos" "r_qos (R ?sd) = in_force_r sedp_topic_qos sedp_reader_qos"
      "r_qos (R ?mr) = in_force_r p2p_topic_qos p2p_reader_qos"
    using m unfolding meets_def by auto
  note b = builtin_bits [folded d(1)]
  note rem = remote_is_builtin
  obtain w1 where 1: "match_remote_reader PUBLICATIONS_DETECTOR_bit ?pd ?pa (remote_reader_qos default_besteffort DataReaderQosBuilder_new) d s =
      Inr (put_writer ?pa w1 s)" "reader_known d ?pd (W ?pa) w1"
    using match_remote_reader_known [OF W(1) inv(1) b(1) d(2) builtin_compatible(1) [folded q(1)] rem(1)] by blast
  let ?s1 = "put_writer ?pa w1 s"
  have "bm_get (rs ?s1) ?pd = Some (R ?pd)" using R by (simp add: put_get)
  from match_remote_writer_known [OF this b(2) d(2) builtin_compatible(4) [folded qr(1)], of ?pa] obtain r2 where
    2: "match_remote_writer PUBLICATIONS_ANNOUNCER_bit ?pa ?pd (remote_writer_qos DataWriterQosBuilder_new) d ?s1 =
      Inr (put_reader ?pd r2 ?s1)" "writer_known d ?pa r2" by blast
  let ?s2 = "put_reader ?pd r2 ?s1"
  have "bm_get (ws ?s2) ?sa = Some (W ?sa)" using W builtin_ids_differ by (simp add: put_get)
  from match_remote_reader_known [OF this inv(2) b(3) d(2) builtin_compatible(2) [folded q(2)] rem(2)] obtain w3 where
    3: "match_remote_reader SUBSCRIPTIONS_DETECTOR_bit ?sd ?sa (remote_reader_qos default_reliable DataReaderQosBuilder_new) d ?s2 =
      Inr (put_writer ?sa w3 ?s2)" "reader_known d ?sd (W ?sa) w3" by blast
  let ?s3 = "put_writer ?sa w3 ?s2"
  have "bm_get (rs ?s3) ?sd = Some (R ?sd)" using R builtin_ids_differ by (simp add: put_get)
  from match_remote_writer_known [OF this b(4) d(2) builtin_compatible(4) [folded qr(2)], of ?sa] obtain r4 where
    4: "match_remote_writer SUBSCRIPTIONS_ANNOUNCER_bit ?sa ?sd (remote_writer_qos DataWriterQosBuilder_new) d ?s3 =
      Inr (put_reader ?sd r4 ?s3)" "writer_known d ?sa r4" by blast
  let ?s4 = "put_reader ?sd r4 ?s3"
  have "bm_get (ws ?s4) ?mw = Some (W ?mw)" using W builtin_ids_differ by (simp add: put_get)
  from match_remote_reader_known [OF this inv(3) b(5) d(2) builtin_compatible(3) [folded q(3)] rem(3)] obtain w5 where
    5: "match_remote_reader PARTICIPANT_MESSAGE_DATA_READER_bit ?mr ?mw (remote_reader_qos default_reliable
        (DataReaderQosBuilder_new\<lparr>rb_history := Some keep_one\<rparr>)) d ?s4 = Inr (put_writer ?mw w5 ?s4)" "reader_known d ?mr (W ?mw) w5" by blast
  let ?s5 = "put_writer ?mw w5 ?s4"
  have "bm_get (rs ?s5) ?mr = Some (R ?mr)" using R builtin_ids_differ by (simp add: put_get)
  from match_remote_writer_known [OF this b(6) d(2) builtin_compatible(5) [folded qr(3)], of ?mw] obtain r6 where
    6: "match_remote_writer PARTICIPANT_MESSAGE_DATA_WRITER_bit ?mw ?mr
        (remote_writer_qos (DataWriterQosBuilder_new\<lparr>wb_history := Some keep_one\<rparr>)) d ?s5 = Inr (put_reader ?mr r6 ?s5)"
    "writer_known d ?mw r6" by blast
  have "met d W (put_reader ?mr r6 ?s5)"
    using W R 1(2) 2(2) 3(2) 4(2) 5(2) 6(2) builtin_ids_differ by (simp add: met_def put_get)
  then show ?thesis
    using dom builtin_ids_differ by (simp add: handle_participant_discovery_def 1(1) 2(1) 3(1) 4(1) 5(1) 6(1) put_get)
qed

lemma node_endpoints:
  assumes "node_inv n"
  shows "meets (\<lambda>eid. the (bm_get (el_writers (nd_loop n)) eid)) (\<lambda>eid. the (bm_get (el_readers (nd_loop n)) eid))
    (el_recv (nd_loop n))"
    and "\<exists>w. bm_get (el_writers (nd_loop n)) SPDP_BUILTIN_PARTICIPANT_ANNOUNCER = Some w"
proof -
  let ?be = "dc_endpoints (nd_disc n)" and ?s = "el_recv (nd_loop n)"
  have ok: "builtin_ok ?be" and "loop_inv (d_table ?be) (nd_loop n)" using assms by (simp_all add: node_inv_def)
  then have D: "recv_inv ?s" by (simp add: loop_inv_def loop_ok_def)
  have W: "\<exists>w. bm_get (ws ?s) eid = Some w \<and> writer_inv w \<and> w_qos w = q"
    if "(eid, q) \<in> {(SEDP_BUILTIN_PUBLICATIONS_ANNOUNCER, in_force_w sedp_topic_qos sedp_writer_qos),
      (SEDP_BUILTIN_SUBSCRIPTIONS_ANNOUNCER, in_force_w sedp_topic_qos sedp_writer_qos),
      (P2P_BUILTIN_PARTICIPANT_MESSAGE_WRITER, in_force_w p2p_topic_qos p2p_writer_qos)}" for eid q
  proof -
    have "eid \<in> {SPDP_BUILTIN_PARTICIPANT_ANNOUNCER, SEDP_BUILTIN_PUBLICATIONS_ANNOUNCER,
        SEDP_BUILTIN_SUBSCRIPTIONS_ANNOUNCER, P2P_BUILTIN_PARTICIPANT_MESSAGE_WRITER}" using that by auto
    from node_builtin_there(1) [OF assms this] obtain w dw where w: "bm_get (ws ?s) eid = Some w"
      and dw: "dw \<in> set (builtin_dws ?be)" "entity_id (dwr_writer_guid dw) = eid" and f: "w_fixed w = dw_identity dw"
      unfolding el_writers_def by blast
    have "dwr_qos dw = q"
      using ok dw that builtin_ids_differ unfolding builtin_ok_def by (auto simp: builtin_dws_def)
    moreover from that have "reliability_kind (fst (dw_reliability q)) = Reliable"
      by (auto simp: qos_calc)
    ultimately have "w_is_reliable w" "w_qos w = q" using f by (simp_all add: w_fixed_def dw_identity_def w_is_reliable_def)
    with recv_invD(3) [OF D w] w show ?thesis by blast
  qed
  have R: "\<exists>r. bm_get (rs ?s) eid = Some r \<and> r_qos r = q"
    if "(eid, q) \<in> {(SEDP_BUILTIN_PUBLICATIONS_DETECTOR, in_force_r sedp_topic_qos sedp_reader_qos),
      (SEDP_BUILTIN_SUBSCRIPTIONS_DETECTOR, in_force_r sedp_topic_qos sedp_reader_qos),
      (P2P_BUILTIN_PARTICIPANT_MESSAGE_READER, in_force_r p2p_topic_qos p2p_reader_qos)}" for eid q
  proof -
    have "eid \<in> {SEDP_BUILTIN_PUBLICATIONS_DETECTOR, SEDP_BUILTIN_SUBSCRIPTIONS_DETECTOR,
        P2P_BUILTIN_PARTICIPANT_MESSAGE_READER}" using that by auto
    from node_builtin_there(2) [OF assms this] obtain r dr where r: "bm_get (rs ?s) eid = Some r"
      and dr: "dr \<in> set (builtin_drs ?be)" "entity_id (drd_reader_guid dr) = eid" and f: "r_fixed r = dr_identity dr"
      unfolding el_readers_def by blast
    have "drd_qos dr = q"
      using ok dr that builtin_ids_differ unfolding builtin_ok_def by (auto simp: builtin_drs_def)
    then show ?thesis using f r by (simp add: r_fixed_def dr_identity_def)
  qed
  show "meets (\<lambda>eid. the (bm_get (el_writers (nd_loop n)) eid)) (\<lambda>eid. the (bm_get (el_readers (nd_loop n)) eid)) ?s"
    unfolding meets_def el_writers_def el_readers_def
  proof (intro conjI ballI)
    show "case x of (eid, q) \<Rightarrow> bm_get (ws ?s) eid = Some (the (bm_get (ws ?s) eid)) \<and>
        writer_inv (the (bm_get (ws ?s) eid)) \<and> w_qos (the (bm_get (ws ?s) eid)) = q"
      if "x \<in> {(SEDP_BUILTIN_PUBLICATIONS_ANNOUNCER, in_force_w sedp_topic_qos sedp_writer_qos),
        (SEDP_BUILTIN_SUBSCRIPTIONS_ANNOUNCER, in_force_w sedp_topic_qos sedp_writer_qos),
        (P2P_BUILTIN_PARTICIPANT_MESSAGE_WRITER, in_force_w p2p_topic_qos p2p_writer_qos)}" for x
      using W [of "fst x" "snd x"] that by (cases x) fastforce
    show "case x of (eid, q) \<Rightarrow> bm_get (rs ?s) eid = Some (the (bm_get (rs ?s) eid)) \<and>
        r_qos (the (bm_get (rs ?s) eid)) = q"
      if "x \<in> {(SEDP_BUILTIN_PUBLICATIONS_DETECTOR, in_force_r sedp_topic_qos sedp_reader_qos),
        (SEDP_BUILTIN_SUBSCRIPTIONS_DETECTOR, in_force_r sedp_topic_qos sedp_reader_qos),
        (P2P_BUILTIN_PARTICIPANT_MESSAGE_READER, in_force_r p2p_topic_qos p2p_reader_qos)}" for x
      using R [of "fst x" "snd x"] that by (cases x) fastforce
  qed
  show "\<exists>w. bm_get (el_writers (nd_loop n)) SPDP_BUILTIN_PARTICIPANT_ANNOUNCER = Some w"
    using node_builtin_there(1) [OF assms, of SPDP_BUILTIN_PARTICIPANT_ANNOUNCER] by blast
qed

text \<open>The answer to a participant that was not known: the own announcement, sent to each of its addresses.\<close>

definition own_change :: "GUID \<Rightarrow> Timestamp \<Rightarrow> SerializedPayload \<Rightarrow> CacheChange" where
  "own_change g t payload =
     \<lparr>change_kind = Alive, writer_guid = g, sequence_number = 1, timestamp = t, data_value = Some payload,
      instance_handle = InstantHandle\<rparr>"

definition answered :: "Timestamp \<Rightarrow> SPDPdiscoveredParticipantData \<Rightarrow> RecvState \<Rightarrow> bool" where
  "answered t d s \<longleftrightarrow>
     (case bm_get (ws s) SPDP_BUILTIN_PARTICIPANT_ANNOUNCER of
        None \<Rightarrow> False
      | Some w \<Rightarrow>
          \<forall>l \<in> set (metarraffic_unicast_locator_list d).
            set (send_msg_to_locator l (data_msg (Some t) (w_guid w) SPDP_BUILTIN_PARTICIPANT_DETECTOR
              (own_change (w_guid w) t (spdp_data (mr s))))) \<subseteq> set (w_udp_sender w))"

lemma fold_emit:
  "w_udp_sender (fold (\<lambda>loc. emit loc msg) locs w) = w_udp_sender w @ concat (map (\<lambda>loc. send_msg_to_locator loc msg) locs)"
  "w_guid (fold (\<lambda>loc. emit loc msg) locs w) = w_guid w"
  by (induction locs arbitrary: w) (simp_all add: emit_def)

lemma spdp_reply_answers:
  assumes w: "bm_get (ws s) SPDP_BUILTIN_PARTICIPANT_ANNOUNCER = Some w" and d: "metarraffic_unicast_locator_list d \<noteq> []"
  shows "\<exists>w'. spdp_reply (Some t) d s = Inr (put_writer SPDP_BUILTIN_PARTICIPANT_ANNOUNCER w' s) \<and>
    answered t d (put_writer SPDP_BUILTIN_PARTICIPANT_ANNOUNCER w' s)"
proof -
  let ?msg = "data_msg (Some t) (w_guid w) SPDP_BUILTIN_PARTICIPANT_DETECTOR (own_change (w_guid w) t (spdp_data (mr s)))"
  let ?w = "fold (\<lambda>loc. emit loc ?msg) (metarraffic_unicast_locator_list d) w"
  have "spdp_reply (Some t) d s = Inr (put_writer SPDP_BUILTIN_PARTICIPANT_ANNOUNCER ?w s)"
    using w d by (simp add: spdp_reply_def spdp_reply_locators_def send_builtin_data_for_loc_def unwrap_def Let_def
        own_change_def data_message_def data_msg_def)
  moreover have "answered t d (put_writer SPDP_BUILTIN_PARTICIPANT_ANNOUNCER ?w s)"
    using w by (auto simp: answered_def put_get fold_emit)
  ultimately show ?thesis by blast
qed

lemma meets_kept:
  "meets W R (on_db f s) = meets W R s"
  "meets W R (put_writer SPDP_BUILTIN_PARTICIPANT_ANNOUNCER w s) = meets W R s"
proof -
  show "meets W R (on_db f s) = meets W R s" by (simp add: meets_def on_db_def)
  have "bm_get (ws (put_writer SPDP_BUILTIN_PARTICIPANT_ANNOUNCER w s)) eid = bm_get (ws s) eid"
    if "eid \<in> {SEDP_BUILTIN_PUBLICATIONS_ANNOUNCER, SEDP_BUILTIN_SUBSCRIPTIONS_ANNOUNCER, P2P_BUILTIN_PARTICIPANT_MESSAGE_WRITER}" for eid
    using that builtin_ids_differ(7) by (auto simp: put_get)
  then show "meets W R (put_writer SPDP_BUILTIN_PARTICIPANT_ANNOUNCER w s) = meets W R s"
    by (simp add: meets_def put_get(2))
qed

text \<open>The domain of the receiver is that of the participant.\<close>

lemma registration_domain:
  "register_writer now can wi el = Inr el' \<Longrightarrow> domain_id (mr (el_recv el')) = domain_id (mr (el_recv el))"
  "register_reader ri el = Inr el' \<Longrightarrow> domain_id (mr (el_recv el')) = domain_id (mr (el_recv el))"
proof -
  have t: "el_recv v = el_recv u" if "set_writer_timer wt u = Inr v" for wt u v
    using that by (auto simp: set_writer_timer_def Let_def set_timeout_def cancel_timeout_def
        elim!: rbind_Inr_E split: WriterTimer.split_asm option.split_asm)
  have m: "el_recv (watch_manual_writer can w u) = el_recv u" for w u
    by (auto simp: watch_manual_writer_def watch_list_def set_timeout_def cancel_timeout_def Let_def split: option.split)
  show "domain_id (mr (el_recv el')) = domain_id (mr (el_recv el))" if "register_writer now can wi el = Inr el'"
    using that unfolding register_writer_def
    by (auto simp: handle_set_writer_timer_def announce_writer_def set_heartbeat_timer_def set_timeout_def insert_writer_def
        writer_seen_alive_def on_recv_def on_db_def m dest!: t elim!: rbind_Inr_E split: option.split_asm if_split_asm)
  show "domain_id (mr (el_recv el')) = domain_id (mr (el_recv el))" if "register_reader ri el = Inr el'"
    using that by (auto simp: register_reader_def Let_def insert_reader_def announce_reader_def on_recv_def
        elim!: rbind_Inr_E split: if_split_asm)
qed

lemma interfaces_chosen: "choose_interfaces host interfaces = Inr nics \<Longrightarrow> nics \<noteq> []"
  by (auto simp: choose_interfaces_def split: if_split_asm list.split_asm)

lemma new_list_nonempty: "new_list_from_multi_ipv4 port nics = Inr ls \<Longrightarrow> nics \<noteq> [] \<Longrightarrow> ls \<noteq> []"
  by (cases nics) (auto elim!: rbind_Inr_E split: if_split_asm)

lemma payload_le: "new_from_cdr_data enc PL_CDR_LE =
    Inr \<lparr>representation_identifier = PL_CDR_LE, representation_options = (0, 0), payload_value = enc LittleEndian\<rparr>"
  by (simp add: new_from_cdr_data_def CDR_LE_def CDR_BE_def PL_CDR_LE_def)

lemma inner_spdp:
  assumes "DomainParticipantInner_new S host d nics config = Inr (dp, sockets)"
  shows "serialized_spdp_data dp = \<lparr>representation_identifier = PL_CDR_LE, representation_options = (0, 0),
       payload_value = write_spdp S LittleEndian (dp_spdp_data dp)\<rparr>"
    and "spdp_domain_id (dp_spdp_data dp) = d" and "spdp_guid (dp_spdp_data dp) = my_guid dp"
    and "available_builtin_endpoint (dp_spdp_data dp) = BUILTIN_ENDPOINTS"
    and "nics \<noteq> [] \<Longrightarrow> metarraffic_unicast_locator_list (dp_spdp_data dp) \<noteq> []"
  using assms
  by (auto simp: DomainParticipantInner_new_def own_spdp_data_def payload_le elim!: rbind_Inr_E
      dest!: new_list_nonempty split: if_split_asm)

lemma created_spdp:
  assumes "DomainParticipant_new S host now can d interfaces config = Inr n"
  shows "self_spdp_data (nd_disc n) =
      \<lparr>representation_identifier = PL_CDR_LE, representation_options = (0, 0),
       payload_value = write_spdp S LittleEndian (dp_spdp_data (nd_dp n))\<rparr>"
    and "spdp_domain_id (dp_spdp_data (nd_dp n)) = d" and "spdp_guid (dp_spdp_data (nd_dp n)) = my_guid (nd_dp n)"
    and "available_builtin_endpoint (dp_spdp_data (nd_dp n)) = BUILTIN_ENDPOINTS"
    and "metarraffic_unicast_locator_list (dp_spdp_data (nd_dp n)) \<noteq> []"
    and "domain_id (mr (el_recv (nd_loop n))) = d"
proof -
  from assms obtain nics dp sockets be ing dp' el where
    nics: "choose_interfaces host interfaces = Inr nics"
    and inner: "DomainParticipantInner_new S host d nics (or_default config ParticipantConfig_default) = Inr (dp, sockets)"
    and c: "create_builtin_endpoints dp = Inr (be, ing, dp')"
    and e: "EventLoop_new now can d (guid_prefix (my_guid dp')) sockets (guid_prefix (my_guid dp'))
      DiscoveryDB_new (serialized_spdp_data dp') ing = Inr el"
    and n: "n = \<lparr>nd_dp = dp', nd_loop = el, nd_disc = Discovery_new be (serialized_spdp_data dp'), nd_cmds = []\<rparr>"
    unfolding DomainParticipant_new_def by (auto elim!: rbind_Inr_E)
  note f = inner_spdp [OF inner]
  have dp': "dp_spdp_data dp' = dp_spdp_data dp" "my_guid dp' = my_guid dp" "serialized_spdp_data dp' = serialized_spdp_data dp"
    using c by (auto simp: create_builtin_endpoints_def create_publisher_def create_subscriber_def gen_entity_key_def
        Let_def elim!: rbind_Inr_E)
  have "domain_id (mr (el_recv el)) = d"
    using e unfolding EventLoop_new_def register_builtin_endpoints_def
    by (elim rbind_Inr_E) (simp add: registration_domain MessageReceiver_new_def)
  then show "domain_id (mr (el_recv (nd_loop n))) = d" by (simp add: n)
  show "self_spdp_data (nd_disc n) = \<lparr>representation_identifier = PL_CDR_LE, representation_options = (0, 0),
       payload_value = write_spdp S LittleEndian (dp_spdp_data (nd_dp n))\<rparr>"
    "spdp_domain_id (dp_spdp_data (nd_dp n)) = d" "spdp_guid (dp_spdp_data (nd_dp n)) = my_guid (nd_dp n)"
    "available_builtin_endpoint (dp_spdp_data (nd_dp n)) = BUILTIN_ENDPOINTS"
    "metarraffic_unicast_locator_list (dp_spdp_data (nd_dp n)) \<noteq> []"
    using f interfaces_chosen [OF nics] by (simp_all add: n Discovery_new_def dp')
qed

lemma spdp_payload_decoded:
  assumes "speedy_ok S" and "spdp_typed D" and "serialized_payload data =
    Some \<lparr>representation_identifier = PL_CDR_LE, representation_options = (0, 0), payload_value = write_spdp S LittleEndian D\<rparr>"
  shows "decode_payload (read_sdp (wire_of S)) data = Inr (Inr (spdp_received D))"
    and "gen_spdp_discoverd_participant_data (spdp_received D) = Some (D\<lparr>domain_tag := []\<rparr>)"
  using assms spdp_read_write [OF assms(1,2)]
  by (simp_all add: decode_payload_def payload_endianness_def payload_to_bytes_def Let_def PL_CDR_LE_def CDR_LE_def CDR_BE_def
      wire_of_def gen_spdp_discoverd_participant_data_def spdp_received_def sdp_default_def or_default_def)

lemma tag_ignored:
  "reader_known (D\<lparr>domain_tag := tag\<rparr>) = reader_known D" "writer_known (D\<lparr>domain_tag := tag\<rparr>) = writer_known D"
  "answered t (D\<lparr>domain_tag := tag\<rparr>) = answered t D"
  unfolding fun_eq_iff reader_known_def writer_known_def answered_def by (simp_all split: option.split)

text \<open>
  C6. Participants discover each other. When any running participant receives the announcement that a newly created
  participant of its domain sends, the handler does not panic and stores the other participant, alive from
  now, with all its data but the domain tag. Each of the three built-in writers then knows the corresponding
  reader of the other one at its announced addresses, and each of the three built-in readers the corresponding
  writer: the QoS on both sides are compatible. A writer that did not know the reader before counts every
  announcement it holds as not yet acknowledged, so that all endpoints that exist will be announced. A
  participant that was not known before is answered with the own announcement at all its addresses.
\<close>

theorem participants_discover:
  assumes "speedy_ok S" and "node_reachable S' wr deser A" and "domain_id (mr (el_recv (nd_loop A))) = d"
    and "DomainParticipant_new S host now can d interfaces config = Inr B" and "spdp_typed (dp_spdp_data (nd_dp B))"
    and "serialized_payload data = Some (self_spdp_data (nd_disc B))"
  shows "\<exists>s. handle_spdp_data (wire_of S) (Some t) data (el_recv (nd_loop A)) = Inr (s, Inr ()) \<and>
    bm_get (participant_data (disc_db (mr s))) (guid_prefix (my_guid (nd_dp B))) =
      Some (Live t, (dp_spdp_data (nd_dp B))\<lparr>domain_tag := []\<rparr>) \<and>
    met (dp_spdp_data (nd_dp B)) (\<lambda>eid. the (bm_get (el_writers (nd_loop A)) eid)) s \<and>
    (bm_get (participant_data (el_db (nd_loop A))) (guid_prefix (my_guid (nd_dp B))) = None \<longrightarrow>
      answered t (dp_spdp_data (nd_dp B)) s)"
proof -
  let ?s = "el_recv (nd_loop A)" and ?D = "dp_spdp_data (nd_dp B)"
  let ?E = "?D\<lparr>domain_tag := []\<rparr>" and ?p = "guid_prefix (my_guid (nd_dp B))"
  let ?W = "\<lambda>eid. the (bm_get (el_writers (nd_loop A)) eid)" and ?R = "\<lambda>eid. the (bm_get (el_readers (nd_loop A)) eid)"
  let ?db = "fst (write_participant ?p t ?E (disc_db (mr ?s)))"
  let ?s1 = "on_db (\<lambda>_. ?db) ?s"
  let ?known = "snd (write_participant ?p t ?E (disc_db (mr ?s)))"
  note B = created_spdp [OF assms(4)]
  note dec = spdp_payload_decoded [OF assms(1,5) assms(6) [unfolded B(1)]]
  have inv: "node_inv A" by (rule node_reachable_inv [OF assms(2)])
  have m: "meets ?W ?R ?s1" unfolding meets_kept by (rule node_endpoints(1) [OF inv])
  obtain w where w: "bm_get (ws ?s1) SPDP_BUILTIN_PARTICIPANT_ANNOUNCER = Some w"
    using node_endpoints(2) [OF inv] by (auto simp: el_writers_def on_db_def)
  have E: "metarraffic_unicast_locator_list ?E \<noteq> []" "available_builtin_endpoint ?E = BUILTIN_ENDPOINTS"
    "spdp_domain_id ?E = d" "guid_prefix (spdp_guid ?E) = ?p"
    using B by simp_all
  obtain w1 where w1: "spdp_reply (Some t) ?E ?s1 = Inr (put_writer SPDP_BUILTIN_PARTICIPANT_ANNOUNCER w1 ?s1)"
    "answered t ?E (put_writer SPDP_BUILTIN_PARTICIPANT_ANNOUNCER w1 ?s1)"
    using spdp_reply_answers [OF w E(1)] by blast
  let ?s2 = "if ?known then ?s1 else put_writer SPDP_BUILTIN_PARTICIPANT_ANNOUNCER w1 ?s1"
  have s2: "(if ?known then Inr ?s1 else spdp_reply (Some t) ?E ?s1) = Inr ?s2" "meets ?W ?R ?s2"
    "mr ?s2 = mr ?s1" "\<not> ?known \<longrightarrow> answered t ?E ?s2"
    using w1 m by (simp_all add: meets_kept put_get)
  have dom: "spdp_domain_id ?E = domain_id (mr ?s2)" using assms(3) E(3) s2(3) by (simp add: on_db_def)
  from participant_discovery_meets [OF s2(2) dom E(2,1)] obtain s3 where
    s3: "handle_participant_discovery ?E ?s2 = Inr s3" "mr s3 = mr ?s2" "met ?E ?W s3"
      "bm_get (ws s3) SPDP_BUILTIN_PARTICIPANT_ANNOUNCER = bm_get (ws ?s2) SPDP_BUILTIN_PARTICIPANT_ANNOUNCER" by blast
  have "handle_spdp_data (wire_of S) (Some t) data ?s = Inr (s3, Inr ())"
    unfolding handle_spdp_data_def dec(1) rbind_simps sum.case dec(2) option.case Let_def E(3,4) or_default_def s2(1) s3(1)
    using assms(3) by simp
  moreover have "bm_get (participant_data (disc_db (mr s3))) ?p = Some (Live t, ?E)"
    using s3(2) s2(3) by (simp add: on_db_def write_participant_def)
  moreover have "met ?D ?W s3" using s3(3) unfolding met_def tag_ignored .
  moreover have "answered t ?D s3" if "bm_get (participant_data (el_db (nd_loop A))) ?p = None"
  proof -
    have "\<not> ?known" using that by (simp add: write_participant_def el_db_def)
    with s2(4) have "answered t ?E ?s2" by blast
    then show ?thesis unfolding tag_ignored unfolding answered_def s3(2,4) .
  qed
  ultimately show ?thesis by (intro exI [of _ s3] conjI impI)
qed

definition ex_peer :: Host where
  "ex_peer = ex_host\<lparr>random_bytes := replicate 12 7\<rparr>"

abbreviation ex_create :: "Host \<Rightarrow> Node res" where
  "ex_create host \<equiv> DomainParticipant_new ref_speedy host (Some ex_now) (\<lambda>_. True) 0 [] None"

lemma ex_spdp_typed:
  assumes "own_spdp_data 0 1 (new_participant_guid (random_bytes ex_peer)) [[10, 0, 0, 2]] ParticipantConfig_default = Inr D"
  shows "spdp_typed D"
proof -
  have l: "locator_typed (Locator KIND_UDPV4 port (replicate 12 0 @ a))" if "0 \<le> port" "port < 2 ^ 16" "length a = 4" for port a
    using that by (simp add: locator_typed_def in_i32_def in_u32_def KIND_UDPV4_def Locator_new_def)
  have "dur_wf (from_core (cfg_lease_duration ParticipantConfig_default))"
    using fraction_in_u32 [of 0 1000000000]
    by (simp add: ParticipantConfig_default_def DEFAULT_LEASE_DURATION_def core_secs_only_def from_core_def wrap_s_def dur_wf_def)
  then show ?thesis
    using assms l by (auto simp: own_spdp_data_value [OF _ _ _ _ ex_nic(2)] spdp_typed_def new_participant_guid_def prefix_wf_def
        GuidPrefix_new_def ex_peer_def vendor_THIS_IMPLEMENTATION_def BUILTIN_ENDPOINTS_def spdp_port_def MULTICAST_GROUP_def
        new_from_ipv4_def in_i32_def)
qed

theorem participants_discover_witness:
  "\<exists>A B s. ex_create ex_host = Inr A \<and> ex_create ex_peer = Inr B \<and>
     handle_spdp_data (wire_of ref_speedy) (Some ex_now)
       \<lparr>data_reader_id = eid_UNKNOW, data_writer_id = SPDP_BUILTIN_PARTICIPANT_ANNOUNCER, writer_sn = 1, inline_qos = None,
        serialized_payload = Some (self_spdp_data (nd_disc B))\<rparr> (el_recv (nd_loop A)) = Inr (s, Inr ()) \<and>
     met (dp_spdp_data (nd_dp B)) (\<lambda>eid. the (bm_get (el_writers (nd_loop A)) eid)) s"
proof -
  have peer: "lets_start ex_peer 0 1" "choose_interfaces ex_peer [] = Inr [[10, 0, 0, 2]]"
    using ex_host_starts(1,2) by (simp_all add: ex_peer_def lets_start_def choose_interfaces_def get_local_interfaces_def)
  obtain A where A: "ex_create ex_host = Inr A"
    using participant_starts [OF _ _ _ _ ex_host_starts(1,2) ex_nic(2) ex_host_starts(3)] by fastforce
  obtain B where B: "ex_create ex_peer = Inr B" and
    "own_spdp_data 0 1 (new_participant_guid (random_bytes ex_peer)) [[10, 0, 0, 2]] ParticipantConfig_default =
      Inr (dp_spdp_data (nd_dp B))"
    using participant_starts [OF _ _ _ _ peer ex_nic(2) ex_host_starts(3), of ref_speedy ex_now "\<lambda>_. True"]
    by (auto simp: or_default_def)
  then have typed: "spdp_typed (dp_spdp_data (nd_dp B))" by (intro ex_spdp_typed)
  have "node_reachable ref_speedy (wire_of ref_speedy) (\<lambda>e bytes. Some bytes) A" by (rule nr_new [OF A])
  from participants_discover [OF ref_speedy_ok this created_spdp(6) [OF A] B typed,
      of "\<lparr>data_reader_id = eid_UNKNOW, data_writer_id = SPDP_BUILTIN_PARTICIPANT_ANNOUNCER, writer_sn = 1, inline_qos = None,
        serialized_payload = Some (self_spdp_data (nd_disc B))\<rparr>" ex_now]
  show ?thesis using A B by auto
qed

section \<open>A participant is gone\<close>

abbreviation drop_readers :: "DiscoveryDBUpdateNotifier \<Rightarrow> Writer \<Rightarrow> Writer" where
  "drop_readers u \<equiv> case u of DeleteParticipant prefix \<Rightarrow> delete_reader_proxy prefix"

abbreviation drop_writers :: "DiscoveryDBUpdateNotifier \<Rightarrow> Reader \<Rightarrow> Reader" where
  "drop_writers u \<equiv> case u of DeleteParticipant prefix \<Rightarrow> delete_writer_proxy prefix"

lemma fold_reader_remove: "bm_get (matched_readers (fold matched_reader_remove ks w)) g =
    (if g \<in> set ks then None else bm_get (matched_readers w) g)"
  by (induction ks arbitrary: w) (auto simp: matched_reader_remove_def notify_w_def Let_def)

lemma delete_reader_proxy_get:
  "bm_get (matched_readers (delete_reader_proxy pre w)) g = (if guid_prefix g = pre then None else bm_get (matched_readers w) g)"
  by (auto simp: delete_reader_proxy_def fold_reader_remove bm_get_None)

lemma drop_readers_get: "bm_get (matched_readers (fold drop_readers us w)) g =
    (if DeleteParticipant (guid_prefix g) \<in> set us then None else bm_get (matched_readers w) g)"
  by (induction us arbitrary: w) (auto simp: delete_reader_proxy_get split: DiscoveryDBUpdateNotifier.splits)

lemma drop_writers_get:
  assumes "reader_inv r"
  shows "bm_get (matched_writers (fold drop_writers us r)) g =
      (if DeleteParticipant (guid_prefix g) \<in> set us then None else bm_get (matched_writers r) g)"
    and "bm_get (unmatched_writers (fold drop_writers us r)) g =
      (if DeleteParticipant (guid_prefix g) \<in> set us then None else bm_get (unmatched_writers r) g)"
  using assms
  by (induction us arbitrary: r) (auto simp: delete_writer_proxy_ok split: DiscoveryDBUpdateNotifier.splits)

lemma removed_participants:
  "bm_get (el_writers (handle_discdb_update el)) eid =
     map_option (fold drop_readers (discdb_update_receiver el)) (bm_get (el_writers el) eid)"
  "bm_get (el_readers (handle_discdb_update el)) eid =
     map_option (fold drop_writers (discdb_update_receiver el)) (bm_get (el_readers el) eid)"
  "el_db (handle_discdb_update el) = el_db el"
proof -
  let ?F = "\<lambda>u. case u of DeleteParticipant prefix \<Rightarrow> remove_discoverd_participant prefix"
  have "bm_get (el_writers (fold ?F us el)) eid = map_option (fold drop_readers us) (bm_get (el_writers el) eid) \<and>
      bm_get (el_readers (fold ?F us el)) eid = map_option (fold drop_writers us) (bm_get (el_readers el) eid) \<and>
      el_db (fold ?F us el) = el_db el" for us el
    by (induction us arbitrary: el)
      (simp_all add: el_writers_def el_readers_def el_db_def remove_discoverd_participant_def on_recv_def option.map_comp comp_def option.map_id
        split: DiscoveryDBUpdateNotifier.split)
  from this [of "discdb_update_receiver el" "el\<lparr>discdb_update_receiver := []\<rparr>"]
  show "bm_get (el_writers (handle_discdb_update el)) eid =
     map_option (fold drop_readers (discdb_update_receiver el)) (bm_get (el_writers el) eid)"
    "bm_get (el_readers (handle_discdb_update el)) eid =
     map_option (fold drop_writers (discdb_update_receiver el)) (bm_get (el_readers el) eid)"
    "el_db (handle_discdb_update el) = el_db el"
    by (simp_all add: handle_discdb_update_def el_writers_def el_readers_def el_db_def)
qed

definition expired :: "Timestamp \<Rightarrow> DiscoveryDB \<Rightarrow> GuidPrefix \<Rightarrow> bool" where
  "expired now db pre \<longleftrightarrow>
     (case bm_get (participant_data db) pre of
        Some (Live ts, data) \<Rightarrow> core_less (to_core (spdp_lease_duration data)) (ts_sub now ts)
      | _ \<Rightarrow> False)"

text \<open>Gone: the lease is over now, or the event loop has still to be told so.\<close>

definition gone :: "Timestamp \<Rightarrow> Node \<Rightarrow> GuidPrefix \<Rightarrow> bool" where
  "gone now n pre \<longleftrightarrow>
     expired now (el_db (nd_loop n)) pre \<or> DeleteParticipant pre \<in> set (discdb_update_receiver (nd_loop n))"

lemma participants_checked:
  assumes "db_inv db"
  shows "set (snd (snd (check_participant_liveliness now db))) = {pre. expired now db pre}"
    and "bm_get (participant_data (fst (check_participant_liveliness now db))) pre =
      (if expired now db pre then None else bm_get (participant_data db) pre)"
proof -
  have wf: "bm_wf (participant_data db)" using assms by (simp add: db_inv_def)
  have "(\<exists>e. bm_get (participant_data db) pre = Some e \<and> lease_over now e) \<longleftrightarrow> expired now db pre" for pre
    by (auto simp: expired_def lease_over_def split: option.splits prod.splits EndpointState.splits)
  then have lost: "pre \<in> set (map fst (filter (\<lambda>(prefix, e). lease_over now e) (participant_data db))) \<longleftrightarrow> expired now db pre" for pre
    unfolding lost_prefixes [OF wf] by simp
  show "set (snd (snd (check_participant_liveliness now db))) = {pre. expired now db pre}"
    using lost by (simp add: check_participant_liveliness_def Let_def set_eq_iff del: set_map set_filter)
  show "bm_get (participant_data (fst (check_participant_liveliness now db))) pre =
      (if expired now db pre then None else bm_get (participant_data db) pre)"
    using lost by (simp add: check_participant_liveliness_def Let_def fold_bm_remove del: set_map set_filter)
qed

lemma leave_tokens:
  "handle_discovery S now msgs PARTICIPANT_LIVELINESS_TIMER n = Inr (Some (participant_liveliness_check now n))"
  "handle_event wr p DISCOVERY_DB_UPDATE el = Inr (handle_discdb_update el)"
  by (simp_all add: handle_discovery_def handle_event_def handle_reserved_def decode_def token_defs)

text \<open>
  C27. A participant that is gone leaves nothing behind. When the timer of the liveliness check fires, the
  discovery thread removes from the data base exactly the participants whose lease is over; once the
  event loop has processed the notifications, no writer has a proxy for a reader of such a participant
  and no reader one for a writer of it, matched or unmatched, and all proxies of the other participants are there as before.
\<close>

theorem participant_left:
  assumes "node_reachable S wr deser n"
  shows "\<exists>n1 el'. handle_discovery S (Some now) msgs PARTICIPANT_LIVELINESS_TIMER n = Inr (Some n1) \<and>
    handle_event wr p DISCOVERY_DB_UPDATE (nd_loop n1) = Inr el' \<and>
    (\<forall>pre. bm_get (participant_data (el_db el')) pre =
      (if expired now (el_db (nd_loop n)) pre then None else bm_get (participant_data (el_db (nd_loop n))) pre)) \<and>
    (\<forall>eid. rel_option (\<lambda>w w'. \<forall>g. bm_get (matched_readers w') g =
        (if gone now n (guid_prefix g) then None else bm_get (matched_readers w) g))
      (bm_get (el_writers (nd_loop n)) eid) (bm_get (el_writers el') eid)) \<and>
    (\<forall>eid. rel_option (\<lambda>r r'. \<forall>g.
        bm_get (matched_writers r') g = (if gone now n (guid_prefix g) then None else bm_get (matched_writers r) g) \<and>
        bm_get (unmatched_writers r') g = (if gone now n (guid_prefix g) then None else bm_get (unmatched_writers r) g))
      (bm_get (el_readers (nd_loop n)) eid) (bm_get (el_readers el') eid))"
proof -
  let ?el = "nd_loop n" and ?n1 = "participant_liveliness_check (Some now) n"
  let ?lost = "snd (snd (check_participant_liveliness now (el_db ?el)))"
  let ?us = "discdb_update_receiver ?el @ map DeleteParticipant ?lost"
  have recv: "recv_inv (el_recv ?el)"
    using node_reachable_inv [OF assms] by (simp add: node_inv_def loop_inv_def loop_ok_def)
  then have db: "db_inv (el_db ?el)" by (simp add: recv_inv_def el_db_def)
  have n1: "el_writers (nd_loop ?n1) = el_writers ?el" "el_readers (nd_loop ?n1) = el_readers ?el"
    "el_db (nd_loop ?n1) = fst (check_participant_liveliness now (el_db ?el))" "discdb_update_receiver (nd_loop ?n1) = ?us"
    by (simp_all add: participant_liveliness_check_def Let_def case_prod_beta disc_timer_def or_default_def on_recv_def on_db_def
        el_writers_def el_readers_def el_db_def)
  have gone: "DeleteParticipant pre \<in> set ?us \<longleftrightarrow> gone now n pre" for pre
    using participants_checked(1) [OF db, of now] by (auto simp: gone_def)
  let ?el' = "handle_discdb_update (nd_loop ?n1)"
  note upd = removed_participants [of "nd_loop ?n1", unfolded n1]
  have "rel_option (\<lambda>w w'. \<forall>g. bm_get (matched_readers w') g =
        (if gone now n (guid_prefix g) then None else bm_get (matched_readers w) g))
      (bm_get (el_writers ?el) eid) (bm_get (el_writers ?el') eid)" for eid
    unfolding upd by (cases "bm_get (el_writers ?el) eid") (simp_all only: option.map option.rel_inject drop_readers_get gone, simp_all)
  moreover have "rel_option (\<lambda>r r'. \<forall>g.
        bm_get (matched_writers r') g = (if gone now n (guid_prefix g) then None else bm_get (matched_writers r) g) \<and>
        bm_get (unmatched_writers r') g = (if gone now n (guid_prefix g) then None else bm_get (unmatched_writers r) g))
      (bm_get (el_readers ?el) eid) (bm_get (el_readers ?el') eid)" for eid
  proof (cases "bm_get (el_readers ?el) eid")
    case (Some r)
    then have "reader_inv r" using recv_invD(5) [OF recv] by (simp add: el_readers_def)
    then show ?thesis unfolding upd Some by (simp only: option.map option.rel_inject drop_writers_get gone simp_thms)
  qed (simp add: upd)
  moreover have "bm_get (participant_data (el_db ?el')) pre =
      (if expired now (el_db ?el) pre then None else bm_get (participant_data (el_db ?el)) pre)" for pre
    unfolding upd by (rule participants_checked(2) [OF db])
  ultimately show ?thesis by (intro exI [of _ ?n1] exI [of _ ?el'] conjI allI leave_tokens)
qed

definition ex_polled :: Polled where
  "ex_polled = \<lparr>clock = Some ex_now, cancellable = (\<lambda>_. True), incoming = [], fired = [], writer_cmds = []\<rparr>"

theorem participant_left_witness:
  "\<exists>A n1 el'. ex_create ex_host = Inr A \<and>
     handle_discovery ref_speedy (Some ex_now) [] PARTICIPANT_LIVELINESS_TIMER A = Inr (Some n1) \<and>
     handle_event (wire_of ref_speedy) ex_polled DISCOVERY_DB_UPDATE (nd_loop n1) = Inr el' \<and>
     bm_get (el_writers el') SEDP_BUILTIN_PUBLICATIONS_ANNOUNCER \<noteq> None"
proof -
  obtain A where A: "ex_create ex_host = Inr A"
    using participant_starts [OF _ _ _ _ ex_host_starts(1,2) ex_nic(2) ex_host_starts(3)] by fastforce
  have r: "node_reachable ref_speedy (wire_of ref_speedy) (\<lambda>e bytes. Some bytes) A" by (rule nr_new [OF A])
  obtain n1 el' where 1: "handle_discovery ref_speedy (Some ex_now) [] PARTICIPANT_LIVELINESS_TIMER A = Inr (Some n1)"
    "handle_event (wire_of ref_speedy) ex_polled DISCOVERY_DB_UPDATE (nd_loop n1) = Inr el'"
    and w: "rel_option (\<lambda>w w'. \<forall>g. bm_get (matched_readers w') g =
        (if gone ex_now A (guid_prefix g) then None else bm_get (matched_readers w) g))
      (bm_get (el_writers (nd_loop A)) SEDP_BUILTIN_PUBLICATIONS_ANNOUNCER) (bm_get (el_writers el') SEDP_BUILTIN_PUBLICATIONS_ANNOUNCER)"
    using participant_left [OF r, of ex_now "[]" ex_polled] by blast
  have "\<exists>w. bm_get (el_writers (nd_loop A)) SEDP_BUILTIN_PUBLICATIONS_ANNOUNCER = Some w"
    using node_builtin_there(1) [OF node_new_inv [OF A], of SEDP_BUILTIN_PUBLICATIONS_ANNOUNCER] by blast
  with w have "bm_get (el_writers el') SEDP_BUILTIN_PUBLICATIONS_ANNOUNCER \<noteq> None" by (auto simp: option_rel_Some1)
  with A 1 show ?thesis by blast
qed

end
