(* ===== verification/Umber_Endpoints.thy ===== *)
theory Umber_Endpoints
  imports Umber_Meeting
begin

text \<open>
  Endpoints of the application: how those of other participants are matched with the own ones, how the own ones are
  announced, and which of them are watched for their liveliness.
\<close>

section \<open>Matching the readers with a discovered writer\<close>

text \<open>What the discovery of a writer does to one reader.\<close>

definition matching :: "WriterProxy \<Rightarrow> string \<Rightarrow> string \<Rightarrow> Reader \<Rightarrow> Reader \<Rightarrow> bool" where
  "matching wp topic data_type r r' \<longleftrightarrow>
     (if \<not> is_writer_match topic data_type r then r' = r
      else
        (case bm_get (matched_writers r) (remote_writer_guid wp) of
           None \<Rightarrow>
             (case dr_is_compatible (r_qos r) (wp_qos wp) of
                Inl e \<Rightarrow> r' = notify_r (RequestedIncompatibleQos e) r
              | Inr _ \<Rightarrow>
                  bm_get (matched_writers r') = (bm_get (matched_writers r))(remote_writer_guid wp \<mapsto> wp\<lparr>wp_cache_state := []\<rparr>) \<and>
                  bm_get (writer_communication_state r') (remote_writer_guid wp) = Some Initial)
         | Some p \<Rightarrow>
             bm_get (matched_writers r') = (bm_get (matched_writers r))
               (remote_writer_guid wp \<mapsto> wp\<lparr>wp_cache_state := wp_cache_state p, remote_writer_guid := remote_writer_guid p\<rparr>)))"

definition reachable_proxy :: "WriterProxy \<Rightarrow> bool" where
  "reachable_proxy wp \<longleftrightarrow>
     wp_unicast_locator_list wp @ wp_multicast_locator_list wp @ wp_default_unicast_locator_list wp @
       wp_default_multicast_locator_list wp \<noteq> []"

lemma writer_added:
  assumes "reachable_proxy wp" and "is_writer_match topic data_type r"
  shows "\<exists>r' rt. matched_writer_add_with_default_locator (remote_writer_guid wp) (wp_unicast_locator_list wp)
      (wp_multicast_locator_list wp) (wp_default_unicast_locator_list wp) (wp_default_multicast_locator_list wp)
      (data_max_size_serialized wp) (wp_qos wp) r = Inr (r', rt) \<and> matching wp topic data_type r r'"
proof (cases "bm_get (matched_writers r) (remote_writer_guid wp)")
  case None
  have "WriterProxy_new (remote_writer_guid wp) (wp_unicast_locator_list wp) (wp_multicast_locator_list wp)
      (wp_default_unicast_locator_list wp) (wp_default_multicast_locator_list wp) (data_max_size_serialized wp) (wp_qos wp) =
      Inr (wp\<lparr>wp_cache_state := []\<rparr>)"
    using assms(1) by (auto simp: reachable_proxy_def WriterProxy_new_def)
  then show ?thesis
    using assms(2) None
    by (cases "dr_is_compatible (r_qos r) (wp_qos wp)")
      (simp_all add: matching_def matched_writer_add_with_default_locator_def Let_def notify_r_def liveliness_changed_def)
next
  case (Some p)
  show ?thesis
    using assms(2) Some
    by (simp add: matching_def matched_writer_add_with_default_locator_def on_proxy_def)
      (rule arg_cong [where f = "\<lambda>x. (bm_get (matched_writers r))(remote_writer_guid wp \<mapsto> x)"], rule WriterProxy.equality, simp_all)
qed

text \<open>Every reader of the topic has the kind of topic that the identifier of the writer tells.\<close>

definition kinds_agree :: "GUID \<Rightarrow> string \<Rightarrow> string \<Rightarrow> Reader \<Rightarrow> bool" where
  "kinds_agree g topic data_type r \<longleftrightarrow>
     (is_writer_match topic data_type r \<longrightarrow>
       (case eid_topic_kind (entity_id g) of Some tk \<Rightarrow> r_topic_kind r = tk | None \<Rightarrow> True))"

lemma match_readers_step:
  assumes "reachable_proxy wp" and "\<And>r. bm_get (rs s) e = Some r \<Longrightarrow> kinds_agree (remote_writer_guid wp) topic data_type r"
  obtains s1 where "match_readers wp topic data_type (e # eids) s = match_readers wp topic data_type eids s1"
    and "ws s1 = ws s" and "disc_db (mr s1) = disc_db (mr s)" and "source_guid_prefix (mr s1) = source_guid_prefix (mr s)"
    and "rel_option (matching wp topic data_type) (bm_get (rs s) e) (bm_get (rs s1) e)"
    and "\<And>x. x \<noteq> e \<Longrightarrow> bm_get (rs s1) x = bm_get (rs s) x"
proof (cases "\<exists>r. bm_get (rs s) e = Some r \<and> is_writer_match topic data_type r")
  case True
  then obtain r where r: "bm_get (rs s) e = Some r" and m: "is_writer_match topic data_type r" by blast
  from writer_added [OF assms(1) m] obtain r' rt where
    add: "matched_writer_add_with_default_locator (remote_writer_guid wp) (wp_unicast_locator_list wp)
      (wp_multicast_locator_list wp) (wp_default_unicast_locator_list wp) (wp_default_multicast_locator_list wp)
      (data_max_size_serialized wp) (wp_qos wp) r = Inr (r', rt)" "matching wp topic data_type r r'" by blast
  let ?s = "put_reader e r' s"
  have "match_readers wp topic data_type (e # eids) s = match_readers wp topic data_type eids
      (?s\<lparr>mr := (mr ?s)\<lparr>wlp_timer_sender := wlp_timer_sender (mr ?s) @ [e]\<rparr>\<rparr>)"
    using r m add assms(2) [OF r] by (simp add: kinds_agree_def Let_def split: option.splits)
  then show ?thesis by (rule that) (use r add(2) in \<open>simp_all add: put_reader_def\<close>)
next
  case False
  then have "rel_option (matching wp topic data_type) (bm_get (rs s) e) (bm_get (rs s) e)"
    by (cases "bm_get (rs s) e") (simp_all add: matching_def)
  moreover have "match_readers wp topic data_type (e # eids) s = match_readers wp topic data_type eids s"
    using False by (simp split: option.split)
  ultimately show ?thesis by (intro that) simp_all
qed

lemma match_readers_all:
  assumes "reachable_proxy wp" and "distinct eids"
    and "\<And>eid r. eid \<in> set eids \<Longrightarrow> bm_get (rs s) eid = Some r \<Longrightarrow> kinds_agree (remote_writer_guid wp) topic data_type r"
  shows "\<exists>s'. match_readers wp topic data_type eids s = Inr (s', True) \<and> ws s' = ws s \<and> disc_db (mr s') = disc_db (mr s) \<and>
    source_guid_prefix (mr s') = source_guid_prefix (mr s) \<and>
    (\<forall>eid. if eid \<in> set eids then rel_option (matching wp topic data_type) (bm_get (rs s) eid) (bm_get (rs s') eid)
      else bm_get (rs s') eid = bm_get (rs s) eid)"
  using assms(2,3)
proof (induction eids arbitrary: s)
  case (Cons e eids)
  then have e: "e \<notin> set eids" "distinct eids" by simp_all
  have "kinds_agree (remote_writer_guid wp) topic data_type r" if "bm_get (rs s) e = Some r" for r by (rule Cons.prems(2) [OF _ that]) simp
  from match_readers_step [OF assms(1) this, where eids = eids] obtain s1 where
    1: "match_readers wp topic data_type (e # eids) s = match_readers wp topic data_type eids s1"
    "ws s1 = ws s" "disc_db (mr s1) = disc_db (mr s)" "source_guid_prefix (mr s1) = source_guid_prefix (mr s)"
    and r: "rel_option (matching wp topic data_type) (bm_get (rs s) e) (bm_get (rs s1) e)"
    and o: "\<And>x. x \<noteq> e \<Longrightarrow> bm_get (rs s1) x = bm_get (rs s) x" by blast
  have k: "kinds_agree (remote_writer_guid wp) topic data_type r" if "eid \<in> set eids" "bm_get (rs s1) eid = Some r" for eid r
  proof -
    have "eid \<noteq> e" using that(1) e(1) by blast
    then show ?thesis using that Cons.prems(2) [of eid r] o by simp
  qed
  have "\<exists>s'. match_readers wp topic data_type eids s1 = Inr (s', True) \<and> ws s' = ws s1 \<and> disc_db (mr s') = disc_db (mr s1) \<and>
      source_guid_prefix (mr s') = source_guid_prefix (mr s1) \<and>
      (\<forall>eid. if eid \<in> set eids then rel_option (matching wp topic data_type) (bm_get (rs s1) eid) (bm_get (rs s') eid)
        else bm_get (rs s') eid = bm_get (rs s1) eid)"
    by (rule Cons.IH [OF e(2) k])
  then obtain s' where s': "match_readers wp topic data_type eids s1 = Inr (s', True)" "ws s' = ws s1"
    "disc_db (mr s') = disc_db (mr s1)" "source_guid_prefix (mr s') = source_guid_prefix (mr s1)"
    and all: "\<And>eid. if eid \<in> set eids then rel_option (matching wp topic data_type) (bm_get (rs s1) eid) (bm_get (rs s') eid)
      else bm_get (rs s') eid = bm_get (rs s1) eid" by blast
  have "if eid \<in> set (e # eids) then rel_option (matching wp topic data_type) (bm_get (rs s) eid) (bm_get (rs s') eid)
      else bm_get (rs s') eid = bm_get (rs s) eid" for eid
    using all [of eid] r o [of eid] e(1) by (cases "eid = e") auto
  then show ?case using 1 s' by (intro exI [of _ s']) simp
qed simp

text \<open>The proxy of a discovered writer: its own addresses, and those of its participant as the default.\<close>

definition discovered_proxy :: "Writer \<Rightarrow> SPDPdiscoveredParticipantData \<Rightarrow> DataWriterQosPolicies \<Rightarrow> WriterProxy" where
  "discovered_proxy w pd q =
     \<lparr>remote_writer_guid = w_guid w, wp_unicast_locator_list = w_unicast_locator_list w,
      wp_multicast_locator_list = w_multicast_locator_list w,
      wp_default_unicast_locator_list = spdp_default_unicast_locator_list pd,
      wp_default_multicast_locator_list = spdp_default_multicast_locator_list pd,
      data_max_size_serialized = w_data_max_size_serialized w, wp_qos = q, wp_cache_state = []\<rparr>"

lemma sedp_payload_decoded:
  assumes "speedy_ok S" and "sedp_data_w w = Inr (p, pub)" and "writer_proxy_typed p"
    and "name_typed (type_desc (w_topic w))" and "name_typed (topic_name (w_topic w))"
    and "write_discovered_writer S LittleEndian p pub = Inr bytes"
    and "serialized_payload data = Some \<lparr>representation_identifier = PL_CDR_LE, representation_options = (0, 0), payload_value = bytes\<rparr>"
  shows "decode_payload (read_sdp (wire_of S)) data =
      Inr (Inr (writer_received p (type_desc (w_topic w)) (topic_name (w_topic w))))"
    and "remote_writer_guid p = w_guid w" and "wp_unicast_locator_list p = w_unicast_locator_list w"
    and "wp_multicast_locator_list p = w_multicast_locator_list w" and "wp_qos p = w_qos w"
    and "data_max_size_serialized p = w_data_max_size_serialized w"
proof -
  have pub: "pub = pub_builtin_topic_data (w_topic w)" using assms(2) by (auto simp: sedp_data_w_def elim!: rbind_Inr_E)
  then have "pb_type_name pub = Some (type_desc (w_topic w))" "pb_topic_name pub = Some (topic_name (w_topic w))"
    by (simp_all add: pub_builtin_topic_data_def Let_def)
  from writer_read_write [OF assms(1,3-5) this] assms(6)
  have "SDPBuiltinData_read S LittleEndian bytes = Inr (Some (writer_received p (type_desc (w_topic w)) (topic_name (w_topic w))))"
    by auto
  then show "decode_payload (read_sdp (wire_of S)) data =
      Inr (Inr (writer_received p (type_desc (w_topic w)) (topic_name (w_topic w))))"
    using assms(7) by (simp add: decode_payload_def payload_endianness_def payload_to_bytes_def Let_def PL_CDR_LE_def CDR_LE_def
        CDR_BE_def wire_of_def)
  show "remote_writer_guid p = w_guid w" "wp_unicast_locator_list p = w_unicast_locator_list w"
    "wp_multicast_locator_list p = w_multicast_locator_list w" "wp_qos p = w_qos w"
    "data_max_size_serialized p = w_data_max_size_serialized w"
    using assms(2) by (auto simp: sedp_data_w_def WriterProxy_new_def elim!: rbind_Inr_E split: if_split_asm)
qed

text \<open>
  C7. A writer is discovered. When the announcement of a writer with automatic liveliness arrives from a participant that
  is known, and no reader of its topic and type has the other kind of topic, the handler comes to the end of its
  loop without a panic, while the application holds its readers: every reader with the topic name and type name of the
  writer that does not have it among its matched writers, and that finds the QoS of the writer compatible, has a new proxy with its GUID, its addresses and those of its participant;
  a reader that finds it incompatible reports the policies concerned and has no proxy; a reader that has matched it already keeps
  what it had received and takes over the announced values. All other readers and all writers are as before.
\<close>

theorem writer_discovered:
  assumes "speedy_ok S" and "recv_inv s" and "sedp_data_w w = Inr (p, pub)" and "writer_proxy_typed p"
    and "name_typed (type_desc (w_topic w))" and "name_typed (topic_name (w_topic w))"
    and "liveliness_kind (fst (dw_liveliness (w_qos w))) = Automatic" and "w_unicast_locator_list w \<noteq> []"
    and "write_discovered_writer S LittleEndian p pub = Inr bytes"
    and "serialized_payload data = Some \<lparr>representation_identifier = PL_CDR_LE, representation_options = (0, 0), payload_value = bytes\<rparr>"
    and "read_participant_data (source_guid_prefix (mr s)) (disc_db (mr s)) = Some pd"
    and "\<forall>eid r. bm_get (rs s) eid = Some r \<longrightarrow>
      kinds_agree (w_guid w) (topic_name (w_topic w)) (type_desc (w_topic w)) r"
  shows "\<exists>s' q. handle_sedp_w_data (wire_of S) data change ts s =
      add_to_builtin SEDP_BUILTIN_PUBLICATIONS_DETECTOR change s' \<and>
    ws s' = ws s \<and> (\<forall>rq. dr_is_compatible rq q = dr_is_compatible rq (w_qos w)) \<and>
    (\<forall>eid. rel_option (matching (discovered_proxy w pd q) (topic_name (w_topic w)) (type_desc (w_topic w)))
      (bm_get (rs s) eid) (bm_get (rs s') eid))"
proof -
  let ?tn = "topic_name (w_topic w)" and ?ty = "type_desc (w_topic w)"
  let ?sd = "writer_received p ?ty ?tn"
  let ?q = "sdp_writer_qos ?sd"
  let ?wp = "discovered_proxy w pd ?q"
  note p = sedp_payload_decoded [OF assms(1,3-6,9,10)]
  have wp: "gen_writerproxy (spdp_default_unicast_locator_list pd) (spdp_default_multicast_locator_list pd) ?sd = Inr (Some ?wp)"
    using writer_received_proxy(2) [of p] p assms(8) by (simp add: discovered_proxy_def)
  have compat: "\<forall>rq. dr_is_compatible rq ?q = dr_is_compatible rq (w_qos w)"
    using writer_received_compatible [of p] assms(7) by (simp add: p(5))
  let ?s1 = "on_db (write_remote_writer (remote_writer_guid ?wp) ts (liveliness_kind (fst (dw_liveliness (wp_qos ?wp))))) s"
  have s1: "rs ?s1 = rs s" "ws ?s1 = ws s" by (simp_all add: on_db_def)
  have guid: "remote_writer_guid ?wp = w_guid w" by (simp add: discovered_proxy_def)
  have "reachable_proxy ?wp" using assms(8) by (simp add: reachable_proxy_def discovered_proxy_def)
  moreover have "distinct (bm_keys (rs ?s1))" unfolding s1 by (rule bm_wf_distinct) (use assms(2) in \<open>simp add: recv_inv_def\<close>)
  ultimately obtain s2 where s2: "match_readers ?wp ?tn ?ty (bm_keys (rs ?s1)) ?s1 = Inr (s2, True)" "ws s2 = ws s"
    and all: "\<And>eid. if eid \<in> set (bm_keys (rs ?s1)) then rel_option (matching ?wp ?tn ?ty) (bm_get (rs ?s1) eid) (bm_get (rs s2) eid)
      else bm_get (rs s2) eid = bm_get (rs ?s1) eid"
    using match_readers_all [of ?wp "bm_keys (rs ?s1)" ?s1 ?tn ?ty] assms(12) guid unfolding s1 by auto
  have "rel_option (matching ?wp ?tn ?ty) (bm_get (rs s) eid) (bm_get (rs s2) eid)" for eid
  proof (cases "eid \<in> set (bm_keys (rs s))")
    case False
    then have "bm_get (rs s) eid = None" by (simp add: bm_get_None)
    then show ?thesis using all [of eid] False by (simp add: s1)
  qed (use all [of eid] in \<open>simp add: s1\<close>)
  moreover have "handle_sedp_w_data (wire_of S) data change ts s = add_to_builtin SEDP_BUILTIN_PUBLICATIONS_DETECTOR change s2"
    unfolding handle_sedp_w_data_def p(1) rbind_simps sum.case assms(11) option.case wp writer_received_proxy(1) prod.case Let_def s2(1)
    by simp
  ultimately show ?thesis using s2(2) compat by blast
qed

definition ex_remote_writer :: Writer where
  "ex_remote_writer = (ex_writer [] [])\<lparr>w_unicast_locator_list := [new_from_ipv4 7411 [127, 0, 0, 1]]\<rparr>"

definition ex_subscriber :: RecvState where
  "ex_subscriber =
     \<lparr>mr = ex_receiver\<lparr>disc_db := DiscoveryDB_new\<lparr>participant_data := [(guid_prefix ex_guid, (Live ex_now, ex_spdp))]\<rparr>\<rparr>,
      ws = [], rs = [(entity_id ex_reader_guid, ex_new_reader\<lparr>r_topic_kind := NoKey\<rparr>)]\<rparr>"

lemma ex_subscriber_inv: "recv_inv ex_subscriber"
proof -
  have "reader_inv ex_new_reader" unfolding ex_new_reader_def by (intro reader_reachable_inv [OF rr_new]) simp
  then have "reader_inv (ex_new_reader\<lparr>r_topic_kind := NoKey\<rparr>)" by (simp add: reader_inv_def)
  then show ?thesis
    by (auto simp: recv_inv_def ex_subscriber_def bm_wf_def bs_wf_def db_inv_def DiscoveryDB_new_def keyed_def ex_new_reader_def
        Reader_new_def)
qed

theorem writer_discovered_witness:
  "\<exists>data s' r. handle_sedp_w_data (wire_of ref_speedy) data (ex_change 1) ex_now ex_subscriber =
       add_to_builtin SEDP_BUILTIN_PUBLICATIONS_DETECTOR (ex_change 1) s' \<and>
     bm_get (rs s') (entity_id ex_reader_guid) = Some r \<and> bm_get (matched_writers r) ex_guid \<noteq> None"
proof -
  let ?w = ex_remote_writer and ?pub = "pub_builtin_topic_data ex_topic"
  have p: "sedp_data_w ?w = Inr (ex_announced_writer, ?pub)"
    by (simp add: sedp_data_w_def WriterProxy_new_def ex_remote_writer_def ex_writer_def ex_announced_writer_def)
  have t: "writer_proxy_typed ex_announced_writer"
    using default_blocking_typed
    by (simp add: writer_proxy_typed_def writer_qos_typed_def ex_announced_writer_def ex_writer_qos_def qos_values
        prefix_wf_def ex_guid_def ex_locator_typed in_i32_def service_typed_def limits_typed_def dur_wf_def [of "Duration.make _ _"]
        dur_wf_def [of "\<lparr>dur_seconds = _, dur_fraction = _\<rparr>"])
  have w: "w_topic ?w = ex_topic" "w_qos ?w = ex_writer_qos" "w_guid ?w = ex_guid" "w_unicast_locator_list ?w \<noteq> []"
    by (simp_all add: ex_remote_writer_def ex_writer_def)
  have n: "name_typed (type_desc ex_topic)" "name_typed (topic_name ex_topic)" "pb_type_name ?pub = Some (type_desc ex_topic)"
    "pb_topic_name ?pub = Some (topic_name ex_topic)"
    by (simp_all add: name_typed_def ex_topic_def pub_builtin_topic_data_def Let_def)
  obtain bytes where bytes: "write_discovered_writer ref_speedy LittleEndian ex_announced_writer ?pub = Inr bytes"
    using writer_read_write [OF ref_speedy_ok t n] by blast
  let ?data = "ex_data\<lparr>serialized_payload := Some \<lparr>representation_identifier = PL_CDR_LE, representation_options = (0, 0), payload_value = bytes\<rparr>\<rparr>"
  have live: "liveliness_kind (fst (dw_liveliness (w_qos ?w))) = Automatic" by (simp add: w ex_writer_qos_def qos_values)
  have pd: "read_participant_data (source_guid_prefix (mr ex_subscriber)) (disc_db (mr ex_subscriber)) = Some ex_spdp"
    by (simp add: ex_subscriber_def ex_receiver_def read_participant_data_def)
  have k: "\<forall>eid r. bm_get (rs ex_subscriber) eid = Some r \<longrightarrow>
      kinds_agree (w_guid ?w) (topic_name (w_topic ?w)) (type_desc (w_topic ?w)) r"
    by (auto simp: ex_subscriber_def kinds_agree_def w ex_guid_def eid_topic_kind_def
        kind_topic_kind_def entity_kind_defs split: if_split_asm option.split)
  have payload: "serialized_payload ?data =
      Some \<lparr>representation_identifier = PL_CDR_LE, representation_options = (0, 0), payload_value = bytes\<rparr>" by simp
  from writer_discovered [OF ref_speedy_ok ex_subscriber_inv p t n(1,2) [folded w(1)] live w(4) bytes payload pd k, of "ex_change 1" ex_now]
  obtain s' q where run: "handle_sedp_w_data (wire_of ref_speedy) ?data (ex_change 1) ex_now ex_subscriber =
      add_to_builtin SEDP_BUILTIN_PUBLICATIONS_DETECTOR (ex_change 1) s'"
    and q: "\<forall>rq. dr_is_compatible rq q = dr_is_compatible rq (w_qos ?w)"
    and m: "rel_option (matching (discovered_proxy ?w ex_spdp q) (topic_name (w_topic ?w)) (type_desc (w_topic ?w)))
      (bm_get (rs ex_subscriber) (entity_id ex_reader_guid)) (bm_get (rs s') (entity_id ex_reader_guid))" by blast
  have "dr_is_compatible ex_keep_all ex_writer_qos = Inr ()"
    by (simp add: compatible_calc ex_keep_all_def ex_reader_qos_def ex_writer_qos_def qos_values)
  then have "dr_is_compatible ex_keep_all q = Inr ()" using q by (simp add: w)
  then have "\<exists>r. bm_get (rs s') (entity_id ex_reader_guid) = Some r \<and> bm_get (matched_writers r) ex_guid \<noteq> None"
    using m by (auto simp: ex_subscriber_def option_rel_Some1 matching_def is_writer_match_def ex_new_reader_def Reader_new_def w
        discovered_proxy_def)
  with run show ?thesis by blast
qed

section \<open>A new writer\<close>

text \<open>What the steps of a registration before the writer is inserted leave alone.\<close>

lemma registration_steps:
  "\<exists>v. set_writer_timer (TDeadline e d) u = Inr v \<and> el_recv v = el_recv u \<and> notify_new_writer_sender v = notify_new_writer_sender u"
  "el_recv (watch_manual_writer can w u) = el_recv u"
  "notify_new_writer_sender (watch_manual_writer can w u) = notify_new_writer_sender u"
  "set (el_timers u) \<subseteq> set (el_timers (watch_manual_writer can w u))"
  by (auto simp: set_writer_timer_def watch_manual_writer_def watch_list_def Let_def set_timeout_def cancel_timeout_def
      split: option.split)

lemma deadline_timer_set:
  "\<exists>v. (case deadline_timer g q of Some t \<Rightarrow> handle_set_writer_timer [t] u | None \<Rightarrow> Inr u) = Inr v \<and> el_recv v = el_recv u \<and>
     notify_new_writer_sender v = notify_new_writer_sender u"
proof (cases "deadline_timer g q")
  case (Some wt)
  then obtain e d where "wt = TDeadline e d" by (auto simp: deadline_timer_def Let_def split: if_split_asm)
  with Some show ?thesis using registration_steps(1) [of e d u] by (auto simp: handle_set_writer_timer_def)
qed simp

lemma seen_alive: "read_local_writer g (write_local_writer g t k db) = Live t"
  by (simp add: read_local_writer_def write_local_writer_def Let_def update_liveliness_with_guid_prefix_def refresh_writers_def)

lemma create_datawriter_sends:
  assumes "create_datawriter qos topic p dp sent = Inr (dw, dp', sent')" and "hb_typed (cfg_heartbeat_period (participant_config dp))"
  obtains wi where "sent' = sent @ [wi]" and "wi_fixed wi = dw_identity dw" and "dwr_topic dw = topic"
    and "\<not> builtin_writer_id (entity_id (wi_guid wi))" and "wi_whc wi = HistoryCache_new HCWriter"
    and "wi_multicast_locator_list wi \<noteq> []" and "0 \<le> dur_seconds (wi_heartbeat_period wi)"
    and "dur_seconds (wi_heartbeat_period wi) < 2 ^ 31"
    and "0 \<le> dur_fraction (wi_heartbeat_period wi)" and "dur_fraction (wi_heartbeat_period wi) < 2 ^ 32"
proof -
  let ?hb = "from_core (cfg_heartbeat_period (participant_config dp))"
  have hb: "dur_wf ?hb" "0 \<le> dur_seconds ?hb"
    using assms(2) fraction_in_u32 [of "core_nanos (cfg_heartbeat_period (participant_config dp))" 1000000000]
    by (auto simp: hb_typed_def from_core_def wrap_s_def dur_wf_def)
  from assms(1) obtain wi where wi: "sent' = sent @ [wi]" "create_datawriter_with_entityid qos topic p
      (EntityId (fst (gen_entity_key dp)) (case topic_kind topic of WithKey \<Rightarrow> WRITER_WITH_KEY_USER_DEFIND | NoKey \<Rightarrow> WRITER_NO_KEY_USER_DEFIND))
      (snd (gen_entity_key dp)) = Inr (dw, wi)"
    by (auto simp: create_datawriter_def Let_def case_prod_beta elim!: rbind_Inr_E)
  note f = create_datawriter_with_entityid_fields [OF wi(2)]
  show ?thesis
  proof (rule that [OF wi(1)])
    show "wi_fixed wi = dw_identity dw" "dwr_topic dw = topic" using f(1,2) by (simp_all add: dw_identity_def DataWriter_new_def)
    show "\<not> builtin_writer_id (entity_id (wi_guid wi))"
      unfolding f(4) by (simp add: builtin_writer_id_def entity_id_defs entity_kind_defs split: TopicKind.split)
    show "wi_whc wi = HistoryCache_new HCWriter" "wi_multicast_locator_list wi \<noteq> []"
      using wi(2) by (auto simp: create_datawriter_with_entityid_def Let_def elim!: rbind_Inr_E)
    have "participant_config (snd (gen_entity_key dp)) = participant_config dp" by (simp add: gen_entity_key_def Let_def)
    then show "0 \<le> dur_seconds (wi_heartbeat_period wi)" "dur_seconds (wi_heartbeat_period wi) < 2 ^ 31"
      "0 \<le> dur_fraction (wi_heartbeat_period wi)" "dur_fraction (wi_heartbeat_period wi) < 2 ^ 32"
      using hb unfolding f(5) by (simp_all add: dur_wf_def DURATION_ZERO_def)
  qed
qed

lemma register_user_writer:
  assumes user: "\<not> builtin_writer_id (entity_id (wi_guid wi))"
    and loc: "wi_multicast_locator_list wi \<noteq> []"
    and hb: "0 \<le> dur_seconds (wi_heartbeat_period wi)" "dur_seconds (wi_heartbeat_period wi) < 2 ^ 31"
      "0 \<le> dur_fraction (wi_heartbeat_period wi)" "dur_fraction (wi_heartbeat_period wi) < 2 ^ 32"
  shows "\<exists>el' w px. register_writer (Some t) can wi el = Inr el' \<and>
    bm_get (el_writers el') = (bm_get (el_writers el))(entity_id (wi_guid wi) \<mapsto> w) \<and> w_fixed w = wi_fixed wi \<and>
    matched_readers w = [] \<and> changes (writer_cache w) = changes (wi_whc wi) \<and>
    unprocessed_seqnum (writer_cache w) = unprocessed_seqnum (wi_whc wi) \<and>
    sedp_data_w w = Inr (px, pub_builtin_topic_data (wi_topic wi)) \<and>
    notify_new_writer_sender el' =
      notify_new_writer_sender el @ [(entity_id (wi_guid wi), px, pub_builtin_topic_data (wi_topic wi))] \<and>
    (w_is_reliable w \<longrightarrow> (\<exists>d. heartbeat_period w = Inr d \<and> SetTimeout d (WriterHb (entity_id (wi_guid wi))) \<in> set (el_timers el'))) \<and>
    read_local_writer (wi_guid wi) (el_db el') = Live t"
proof -
  let ?eid = "entity_id (wi_guid wi)"
  obtain w where new: "Writer_new (Some t) wi = Inr (w, deadline_timer (wi_guid wi) (wi_qos wi))"
    and w: "changes (writer_cache w) = changes (wi_whc wi)" "unprocessed_seqnum (writer_cache w) = unprocessed_seqnum (wi_whc wi)" "w_guid w = wi_guid wi" "w_heartbeat_period w = wi_heartbeat_period wi"
      "matched_readers w = []" "w_fixed w = wi_fixed wi" "w_topic w = wi_topic wi" "w_multicast_locator_list w = wi_multicast_locator_list wi"
    by (auto simp: Writer_new_def add_empty_change_def w_fixed_def wi_fixed_def)
  have spdp: "add_spdp_reader (el_domain_id el) w = Inr w" using user by (auto simp: add_spdp_reader_def builtin_writer_id_def w)
  obtain px where px: "sedp_data_w w = Inr (px, pub_builtin_topic_data (wi_topic wi))"
    using loc by (auto simp: sedp_data_w_def WriterProxy_new_def w)
  have "dur_fraction (wi_heartbeat_period wi) div 1000000000 \<le> dur_fraction (wi_heartbeat_period wi)" using hb(3) by linarith
  then have "\<exists>d. heartbeat_period w = Inr d"
    using hb by (simp add: heartbeat_period_def CoreDuration_new_def w wrap_u_def Let_def)
  then obtain d where d: "heartbeat_period w = Inr d" by blast
  obtain el1 where 1: "(case deadline_timer (wi_guid wi) (wi_qos wi) of
      Some t \<Rightarrow> handle_set_writer_timer [t] el | None \<Rightarrow> Inr el) = Inr el1"
    "el_recv el1 = el_recv el" "notify_new_writer_sender el1 = notify_new_writer_sender el"
    using deadline_timer_set by blast
  let ?el2 = "if w_is_reliable w then set_timeout d (WriterHb ?eid) el1 else el1"
  have 2: "(if w_is_reliable w then set_heartbeat_timer w el1 else Inr el1) = Inr ?el2"
    using d by (simp add: set_heartbeat_timer_def w)
  let ?v = "watch_manual_writer can w ?el2"
  let ?el3 = "?v\<lparr>notify_new_writer_sender := notify_new_writer_sender ?v @ [(?eid, px, pub_builtin_topic_data (wi_topic wi))]\<rparr>"
  have 3: "announce_writer w ?v = Inr ?el3" using user px by (simp add: announce_writer_def w)
  let ?el' = "insert_writer w (writer_seen_alive t (w_guid w) w ?el3)"
  have run: "register_writer (Some t) can wi el = Inr ?el'"
    by (simp add: register_writer_def new 1(1) spdp 2 3 unwrap_def)
  have keep: "el_recv ?v = el_recv el" "notify_new_writer_sender ?v = notify_new_writer_sender el"
    using 1(2,3) by (simp_all add: registration_steps set_timeout_def)
  have timers: "SetTimeout d (WriterHb ?eid) \<in> set (el_timers ?el')" if "w_is_reliable w"
    using that registration_steps(4) [of ?el2 can w] by (auto simp: set_timeout_def insert_writer_def writer_seen_alive_def on_recv_def)
  have "bm_get (el_writers ?el') = (bm_get (el_writers el))(?eid \<mapsto> w)" "read_local_writer (wi_guid wi) (el_db ?el') = Live t"
    "notify_new_writer_sender ?el' = notify_new_writer_sender el @ [(?eid, px, pub_builtin_topic_data (wi_topic wi))]"
    by (simp_all add: insert_writer_def writer_seen_alive_def on_recv_def on_db_def el_writers_def el_db_def keep w seen_alive)
  with run w px timers d show ?thesis by blast
qed

text \<open>
  C29. A data writer enters the protocol. The application creates a data writer, in a participant whose heartbeat
  period fits the fields of a duration; its cache is new. Whatever the application has written to this
  cache by the time the event loop, in any state and with a working clock, registers the RTPS writer:
  the registration does not panic, and the RTPS writer has the GUID, the reliability, the QoS and the topic of the data writer, no
  matched reader, and the changes of the cache, with those it has not processed yet. The registration puts it beside all other
  writers, hands its announcement to the discovery thread, sets its first heartbeat if it is reliable, and notes
  it as alive.
\<close>

theorem writer_enters:
  assumes "create_datawriter qos topic p dp sent = Inr (dw, dp', sent')" and "hb_typed (cfg_heartbeat_period (participant_config dp))"
  shows "\<exists>wi. sent' = sent @ [wi] \<and> wi_whc wi = HistoryCache_new HCWriter \<and>
    (\<forall>h. \<exists>el' w px. register_writer (Some t) can (wi\<lparr>wi_whc := h\<rparr>) el = Inr el' \<and>
    bm_get (el_writers el') = (bm_get (el_writers el))(entity_id (dwr_writer_guid dw) \<mapsto> w) \<and> w_fixed w = dw_identity dw \<and>
    matched_readers w = [] \<and> changes (writer_cache w) = changes h \<and>
    unprocessed_seqnum (writer_cache w) = unprocessed_seqnum h \<and> sedp_data_w w = Inr (px, pub_builtin_topic_data topic) \<and>
    notify_new_writer_sender el' =
      notify_new_writer_sender el @ [(entity_id (dwr_writer_guid dw), px, pub_builtin_topic_data topic)] \<and>
    (w_is_reliable w \<longrightarrow>
      (\<exists>d. heartbeat_period w = Inr d \<and> SetTimeout d (WriterHb (entity_id (dwr_writer_guid dw))) \<in> set (el_timers el'))) \<and>
    read_local_writer (dwr_writer_guid dw) (el_db el') = Live t)"
proof -
  from create_datawriter_sends [OF assms] obtain wi where wi: "sent' = sent @ [wi]" "wi_fixed wi = dw_identity dw" "dwr_topic dw = topic"
    and hc: "wi_whc wi = HistoryCache_new HCWriter"
    and f: "\<not> builtin_writer_id (entity_id (wi_guid wi))"
      "wi_multicast_locator_list wi \<noteq> []" "0 \<le> dur_seconds (wi_heartbeat_period wi)"
      "dur_seconds (wi_heartbeat_period wi) < 2 ^ 31" "0 \<le> dur_fraction (wi_heartbeat_period wi)"
      "dur_fraction (wi_heartbeat_period wi) < 2 ^ 32" by blast
  have id: "wi_guid wi = dwr_writer_guid dw" "wi_topic wi = topic" using wi(2,3) by (simp_all add: wi_fixed_def dw_identity_def)
  have fixed: "wi_fixed (wi\<lparr>wi_whc := h\<rparr>) = dw_identity dw" for h using wi(2) by (simp add: wi_fixed_def)
  from f have "\<not> builtin_writer_id (entity_id (wi_guid (wi\<lparr>wi_whc := h\<rparr>)))" for h by simp
  from register_user_writer [OF this, of h t can el for h] f wi(1) id fixed hc show ?thesis
    by (intro exI [of _ wi]) simp
qed

theorem writer_enters_witness:
  "\<exists>A dw dp' sent el' w. ex_create ex_host = Inr A \<and> create_datawriter (QosPolicies ex_durable) ex_topic
       (fst (create_publisher QosDefault ex_dp)) (snd (create_publisher QosDefault ex_dp)) [] = Inr (dw, dp', sent) \<and>
     register_writer (Some ex_now) (\<lambda>_. True)
       ((hd sent)\<lparr>wi_whc := store_change (ex_change 1) (HistoryCache_new HCWriter)\<rparr>) (nd_loop A) = Inr el' \<and>
     bm_get (el_writers el') (entity_id (dwr_writer_guid dw)) = Some w \<and> w_qos w = dwr_qos dw \<and>
     changes (writer_cache w) = [(HCKey ex_guid 1, ex_change 1)]"
proof -
  let ?p = "create_publisher QosDefault ex_dp"
  obtain A where A: "ex_create ex_host = Inr A"
    using participant_starts [OF _ _ _ _ ex_host_starts(1,2) ex_nic(2) ex_host_starts(3)] by fastforce
  obtain dw dp' sent where c: "create_datawriter (QosPolicies ex_durable) ex_topic (fst ?p) (snd ?p) [] = Inr (dw, dp', sent)"
    using ex_datawriter by blast
  have hb: "hb_typed (cfg_heartbeat_period (participant_config (snd ?p)))"
    using ex_host_starts(3) by (simp add: create_publisher_def gen_entity_key_def Let_def ex_dp_def or_default_def)
  let ?h = "store_change (ex_change 1) (HistoryCache_new HCWriter)"
  have h: "changes ?h = [(HCKey ex_guid 1, ex_change 1)]"
    by (simp add: store_change_def change_key_def ex_change_def HistoryCache_new_def Let_def)
  from writer_enters [OF c hb, of ex_now "\<lambda>_. True" "nd_loop A"] obtain wi where
    "[] @ [wi] = sent" and "\<exists>el' w. register_writer (Some ex_now) (\<lambda>_. True) (wi\<lparr>wi_whc := ?h\<rparr>) (nd_loop A) = Inr el' \<and>
      bm_get (el_writers el') = (bm_get (el_writers (nd_loop A)))(entity_id (dwr_writer_guid dw) \<mapsto> w) \<and>
      w_fixed w = dw_identity dw \<and> changes (writer_cache w) = changes ?h"
    by fast
  then obtain el' w where sent: "sent = [wi]" and
    "register_writer (Some ex_now) (\<lambda>_. True) (wi\<lparr>wi_whc := ?h\<rparr>) (nd_loop A) = Inr el'"
    "bm_get (el_writers el') = (bm_get (el_writers (nd_loop A)))(entity_id (dwr_writer_guid dw) \<mapsto> w)" "w_fixed w = dw_identity dw"
    "changes (writer_cache w) = changes ?h" by auto
  then show ?thesis using A c sent h by (auto simp: w_fixed_def dw_identity_def)
qed

section \<open>Writers whose liveliness the application asserts\<close>

text \<open>The timer that is set for the check of the writers \<open>gs\<close>, with its period.\<close>

definition watched :: "Timeout \<Rightarrow> CoreDuration \<Rightarrow> GUID list \<Rightarrow> EventLoop \<Rightarrow> bool" where
  "watched to d gs el \<longleftrightarrow>
     check_liveliness_timer_to el = Some (d, to) \<and> to < length (el_timers el) \<and> el_timers el ! to = SetTimeout d (CheckLive gs)"

lemma watched_list: "watched (next_timeout el) d gs (watch_list d gs el)"
  by (simp add: watched_def watch_list_def set_timeout_def next_timeout_def)

lemma core_min_le: "\<not> core_less a (core_min a b)" "\<not> core_less b (core_min a b)"
  by (auto simp: core_min_def core_less_def)

lemma check_writers_timer:
  "rfold (check_writer now) gs el = Inr el' \<Longrightarrow> check_liveliness_timer_to el' = check_liveliness_timer_to el"
proof (induction gs arbitrary: el)
  case (Cons g gs)
  then show ?case
    by (auto simp: check_writer_def put_writer_at_def on_recv_def elim!: rbind_Inr_E split: option.split_asm)
qed simp

text \<open>
  C32. Writers with manual liveliness and a finite lease. The first one starts the timer of the liveliness check with half its
  lease as the period; each further one is added to the list of that timer, which is set again with a period neither longer than
  before nor longer than half the lease of the new writer. But if the timer has fired and cannot be
  cancelled any more, the new writer is not added: the handler sets the timer again for the writers of the
  old list only, so that the liveliness of the new writer is never checked. Other writers leave the timer alone.
\<close>

theorem manual_writer_watched:
  fixes w :: Writer
  defines "lv \<equiv> fst (dw_liveliness (w_qos w))"
  shows "(liveliness_kind lv = Automatic \<or> lease_duration lv = DURATION_INFINITE \<longrightarrow> watch_manual_writer can w el = el) \<and>
    (liveliness_kind lv \<noteq> Automatic \<longrightarrow> lease_duration lv \<noteq> DURATION_INFINITE \<longrightarrow>
      (check_liveliness_timer_to el = None \<longrightarrow>
        watched (length (el_timers el)) (to_core (dur_half (lease_duration lv))) [w_guid w] (watch_manual_writer can w el)) \<and>
      (watched to d gs el \<longrightarrow> can to \<longrightarrow>
        (\<exists>to' d'. watched to' d' (gs @ [w_guid w]) (watch_manual_writer can w el) \<and>
          \<not> core_less d d' \<and> \<not> core_less (to_core (dur_half (lease_duration lv))) d')) \<and>
      (watched to d gs el \<longrightarrow> \<not> can to \<longrightarrow>
        watched to d gs (watch_manual_writer can w el) \<and>
        (\<forall>now el'. check_liveliness_fired now (CheckLive gs) (watch_manual_writer can w el) = Inr el' \<longrightarrow>
          (\<exists>to'. watched to' d gs el'))))"
proof (intro conjI impI)
  assume "liveliness_kind lv = Automatic \<or> lease_duration lv = DURATION_INFINITE"
  then show "watch_manual_writer can w el = el" by (auto simp: watch_manual_writer_def lv_def Let_def)
next
  assume m: "liveliness_kind lv \<noteq> Automatic" "lease_duration lv \<noteq> DURATION_INFINITE"
  let ?half = "to_core (dur_half (lease_duration lv))"
  show "watched (length (el_timers el)) ?half [w_guid w] (watch_manual_writer can w el)" if "check_liveliness_timer_to el = None"
    using that m watched_list [of el ?half "[w_guid w]"] by (simp add: watch_manual_writer_def lv_def Let_def next_timeout_def)
  {
    assume old: "watched to d gs el" and "can to"
    then have "watch_manual_writer can w el = watch_list (core_min d ?half) (gs @ [w_guid w]) (cancel_timeout to el)"
      using m by (simp add: watch_manual_writer_def lv_def Let_def watched_def cancelled_list_def)
    then show "\<exists>to' d'. watched to' d' (gs @ [w_guid w]) (watch_manual_writer can w el) \<and> \<not> core_less d d' \<and> \<not> core_less ?half d'"
      using watched_list core_min_le by metis
  }
  assume old: "watched to d gs el" and "\<not> can to"
  then have run: "watch_manual_writer can w el = cancel_timeout to el"
    using m by (simp add: watch_manual_writer_def lv_def Let_def watched_def cancelled_list_def)
  then show kept: "watched to d gs (watch_manual_writer can w el)"
    using old by (simp add: watched_def cancel_timeout_def nth_append)
  show "\<forall>now el'. check_liveliness_fired now (CheckLive gs) (watch_manual_writer can w el) = Inr el' \<longrightarrow> (\<exists>to'. watched to' d gs el')"
  proof (intro allI impI)
    fix now el'
    assume "check_liveliness_fired now (CheckLive gs) (watch_manual_writer can w el) = Inr el'"
    then obtain el1 where 1: "rfold (check_writer now) gs (watch_manual_writer can w el) = Inr el1"
      and 2: "rbind (unwrap (check_liveliness_timer_to el1)) (\<lambda>(d, to). Inr (watch_list d gs el1)) = Inr el'"
      by (auto simp: check_liveliness_fired_def elim!: rbind_Inr_E)
    have "check_liveliness_timer_to el1 = Some (d, to)" using check_writers_timer [OF 1] kept by (simp add: watched_def)
    with 2 have "el' = watch_list d gs el1" by (simp add: unwrap_def)
    then show "\<exists>to'. watched to' d gs el'" using watched_list by blast
  qed
qed

definition ex_manual_writer :: Writer where
  "ex_manual_writer = (ex_writer [] [])\<lparr>w_qos := ex_writer_qos\<lparr>dw_liveliness :=
     (\<lparr>liveliness_kind = ManualByTopic, lease_duration = \<lparr>dur_seconds = 4, dur_fraction = 0\<rparr>\<rparr>, True)\<rparr>\<rparr>"

definition ex_loop :: EventLoop where
  "ex_loop =
     \<lparr>el_domain_id = 0, el_guid_prefix = guid_prefix ex_guid, el_sockets = [], el_recv = ex_node,
      create_writer_receiver = [], create_reader_receiver = [], notify_new_writer_sender = [], notify_new_reader_sender = [],
      el_timers = [SetTimeout (core_secs_only 7) (CheckLive [ex_reader_guid])],
      reader_deadline_timeout = [], writer_deadline_timeout = [], wlp_timeouts = [],
      check_liveliness_timer_to = Some (core_secs_only 7, 0), discdb_update_receiver = []\<rparr>"

theorem manual_writer_watched_witness:
  "(\<exists>to' d'. watched to' d' [ex_reader_guid, ex_guid] (watch_manual_writer (\<lambda>_. True) ex_manual_writer ex_loop)) \<and>
   watched 0 (core_secs_only 7) [ex_reader_guid] (watch_manual_writer (\<lambda>_. False) ex_manual_writer ex_loop)"
proof -
  have m: "liveliness_kind (fst (dw_liveliness (w_qos ex_manual_writer))) \<noteq> Automatic"
    "lease_duration (fst (dw_liveliness (w_qos ex_manual_writer))) \<noteq> DURATION_INFINITE" "w_guid ex_manual_writer = ex_guid"
    by (simp_all add: ex_manual_writer_def DURATION_INFINITE_def ex_writer_def)
  have "watched 0 (core_secs_only 7) [ex_reader_guid] ex_loop" by (simp add: watched_def ex_loop_def)
  with m manual_writer_watched [of ex_manual_writer "\<lambda>_. True" ex_loop 0 "core_secs_only 7" "[ex_reader_guid]"]
    manual_writer_watched [of ex_manual_writer "\<lambda>_. False" ex_loop 0 "core_secs_only 7" "[ex_reader_guid]"]
  show ?thesis by auto
qed

end
