(* ===== verification/Umber_ReaderSpec.thy ===== *)
theory Umber_ReaderSpec
  imports Umber_Subscriber
begin

text \<open>
  What a reliable reader knows about one writer, as an abstract machine over sets of sequence numbers,
  and the proof that the reader implements it: a simulation for every sequence of data, gaps and
  heartbeats of the writer.
\<close>

section \<open>The abstract machine\<close>

text \<open>
  \<open>got\<close> are the numbers that need not be sent any more, because they were received, skipped or given up;
  \<open>lacks\<close> are those that the writer has announced and that are still to come; \<open>taken\<close> are those that the
  application has taken and the reader still remembers. An announcement of the numbers from \<open>a\<close> to \<open>l\<close> gives
  up what is lacking below \<open>a\<close>, and forgets what was taken below \<open>a\<close>: if an older announcement arrives later, the
  machine, like the reader, lacks the forgotten numbers again.
\<close>

record ReaderView =
  got :: "SequenceNumber set"
  lacks :: "SequenceNumber set"
  taken :: "SequenceNumber set"

datatype ViewEvent = GotData SequenceNumber | GotGap "SequenceNumber set" | Announced SequenceNumber SequenceNumber

fun view_step :: "ViewEvent \<Rightarrow> ReaderView \<Rightarrow> ReaderView" where
  "view_step (GotData n) v = v\<lparr>got := insert n (got v), lacks := lacks v - {n}\<rparr>"
| "view_step (GotGap G) v = v\<lparr>got := got v \<union> G, lacks := lacks v - G\<rparr>"
| "view_step (Announced a l) v =
     \<lparr>got = (got v \<union> {n \<in> lacks v. n < a}) - {n \<in> taken v. n < a},
      lacks = {n \<in> lacks v. a \<le> n} \<union> ({a..l} - got v),
      taken = {n \<in> taken v. a \<le> n}\<rparr>"

section \<open>The messages of the writer\<close>

datatype ReaderEvent = EvData CacheChange | EvGap Gap | EvHeartbeat u8 Heartbeat

fun reader_event :: "GUID \<Rightarrow> ReaderEvent \<Rightarrow> Reader \<Rightarrow> Reader res" where
  "reader_event g (EvData c) r = rbind (reader_add_change (guid_prefix g) c r) (\<lambda>(r', rt). Inr r')"
| "reader_event g (EvGap gap) r = handle_gap g gap r"
| "reader_event g (EvHeartbeat f hb) r = rbind (handle_heartbeat g f hb r) (\<lambda>(r', rt). Inr r')"

fun event_in_range :: "GUID \<Rightarrow> ReaderEvent \<Rightarrow> bool" where
  "event_in_range g (EvData c) \<longleftrightarrow> writer_guid c = g \<and> 0 \<le> sequence_number c \<and> sequence_number c < i64_max"
| "event_in_range g (EvGap gap) \<longleftrightarrow> gap_in_range gap"
| "event_in_range g (EvHeartbeat f hb) \<longleftrightarrow> last_sn hb < i64_max"

definition gap_numbers :: "Gap \<Rightarrow> SequenceNumber set" where
  "gap_numbers gap = {gap_start gap..<bitmap_base (gap_list gap)} \<union>
     (case sns_set (gap_list gap) of Inr ns \<Rightarrow> set ns | Inl _ \<Rightarrow> {})"

fun view_event :: "ReaderEvent \<Rightarrow> ViewEvent" where
  "view_event (EvData c) = GotData (sequence_number c)"
| "view_event (EvGap gap) = GotGap (gap_numbers gap)"
| "view_event (EvHeartbeat f hb) = Announced (first_sn hb) (last_sn hb)"

section \<open>The simulation\<close>

definition proxy_view :: "ReaderView \<Rightarrow> WriterProxy \<Rightarrow> bool" where
  "proxy_view v p \<longleftrightarrow>
     (\<forall>n. wp_status p n \<noteq> Some Uuknown) \<and> lacks v = {n. wp_status p n = Some Missing} \<and>
     got v = {n. wp_status p n \<in> {Some Received, Some Lost}}"

definition taken_of :: "GUID \<Rightarrow> Reader \<Rightarrow> SequenceNumber set" where
  "taken_of g r = hk_seq_num ` {k \<in> set (taken_key (reader_cache r)). hk_guid k = g}"

definition implements :: "GUID \<Rightarrow> ReaderView \<Rightarrow> Reader \<Rightarrow> bool" where
  "implements g v r \<longleftrightarrow> reader_inv r \<and> r_is_reliable r \<and> taken v = taken_of g r \<and>
     (\<exists>p. bm_get (matched_writers (rematch g r)) g = Some p \<and> proxy_view v p)"

lemma proxy_view_data:
  assumes "wp_wf p" and "proxy_view v p"
  shows "proxy_view (view_step (GotData n) v) (received_change_set n p)"
  using assms by (auto simp: proxy_view_def received_change_set_spec)

lemma proxy_view_gap:
  assumes "wp_wf p" and "proxy_view v p"
  shows "proxy_view (view_step (GotGap (set ns)) v) (fold irrelevant_change_set ns p)"
  using assms fold_irrelevant_status [OF assms(1), of ns] by (auto simp: proxy_view_def)

lemma proxy_view_heartbeat:
  assumes ok: "wproxy_ok g p" and v: "proxy_view v p"
    and F: "hk_seq_num ` set ks = {n \<in> taken v. n < first_sn hb}"
  shows "proxy_view (view_step (Announced (first_sn hb) (last_sn hb)) v) (after_heartbeat hb ks p)"
proof -
  have "\<forall>k \<in> set ks. hk_seq_num k < first_sn hb" using F by auto
  note st = after_heartbeat_status [OF ok this, unfolded F]
  from v have "wp_status (after_heartbeat hb ks p) n \<noteq> Some Uuknown" for n
    unfolding st proxy_view_def by auto
  moreover have "wp_status (after_heartbeat hb ks p) n = Some Missing \<longleftrightarrow>
      n \<in> {n \<in> lacks v. first_sn hb \<le> n} \<union> ({first_sn hb..last_sn hb} - got v)" for n
    using v unfolding st proxy_view_def by (cases "wp_status p n"; cases "the (wp_status p n)") auto
  moreover have "wp_status (after_heartbeat hb ks p) n \<in> {Some Received, Some Lost} \<longleftrightarrow>
      n \<in> (got v \<union> {n \<in> lacks v. n < first_sn hb}) - {n \<in> taken v. n < first_sn hb}" for n
    using v unfolding st proxy_view_def by (cases "wp_status p n"; cases "the (wp_status p n)") auto
  ultimately show ?thesis by (auto simp: proxy_view_def)
qed

text \<open>What the three handlers do to the proxy of the writer.\<close>

lemma rematch_setup: "r_is_reliable (rematch g r) = r_is_reliable r"
  by (simp add: rematch_def liveliness_changed_def r_is_reliable_def split: option.splits)

lemma rematched:
  assumes "same_setup (rematch g r) r'"
  shows "rematch g r' = r'" and "r_is_reliable r' = r_is_reliable r"
  using assms rematch_unmatched [of g r] rematch_setup [of g r]
  by (simp_all add: same_setup_def rematch_def r_is_reliable_def)

lemma advance_state_writers: "advance_state g n r = Inr r' \<Longrightarrow> matched_writers r' = matched_writers r"
  by (auto simp: advance_state_def release_def flush_cache_def notify_r_def set_state_def rbind_Inr_iff Let_def
      split: option.splits ReaderState.splits if_splits)

lemma rematch_cache: "reader_cache (rematch g r) = reader_cache r"
  by (simp add: rematch_def liveliness_changed_def notify_r_def split: option.splits)

lemma flush_cache_taken: "flush_cache r = Inr (r', b) \<Longrightarrow> taken_key (reader_cache r') = taken_key (reader_cache r)"
  by (auto simp: flush_cache_def flush_def rbind_Inr_iff Let_def split: if_splits)

lemma advance_state_taken: "advance_state g n r = Inr r' \<Longrightarrow> taken_key (reader_cache r') = taken_key (reader_cache r)"
  by (auto simp: advance_state_def release_def notify_r_def set_state_def rbind_Inr_iff Let_def
      split: option.splits ReaderState.splits if_splits dest!: flush_cache_taken)

lemma response_taken:
  "handle_hb_response_timeout g r = Inr r' \<Longrightarrow> taken_key (reader_cache r') = taken_key (reader_cache r)"
  by (auto simp: handle_hb_response_timeout_def acknack_base_def set_state_def notify_r_def Let_def elim!: rbind_Inr_E
      split: option.split_asm list.split_asm if_split_asm dest!: flush_cache_taken)

lemma data_proxy:
  assumes inv: "reader_inv r" and rel: "r_is_reliable r" and c: "writer_guid c = g"
    and p: "bm_get (matched_writers (rematch g r)) g = Some p"
    and run: "reader_add_change (guid_prefix g) c r = Inr (r', rt)"
  shows "bm_get (matched_writers r') g = Some (received_change_set (sequence_number c) p)"
    and "same_setup (rematch g r) r'" and "taken_of g r' = taken_of g r"
proof -
  let ?r = "rematch g r"
  have g: "GUID (guid_prefix g) (entity_id (writer_guid c)) = g" using c by (cases g) simp
  from run have add: "add_change_reliable g c ?r = Inr r'"
    using rel p by (auto simp: reader_add_change_def Let_def g rbind_Inr_iff rematch_setup)
  then show "same_setup ?r r'" by (rule add_change_reliable_setup)
  from add obtain r1 x where r1: "add_to_cache c ?r = Inr (r1, x)" by (auto simp: add_change_reliable_def rbind_Inr_iff)
  have "hc_type (reader_cache ?r) = HCReader" by (rule reader_invD(2) [OF reader_inv_rematch [OF inv]])
  note type = this
  have keep: "taken_key (remove_change k False h) = taken_key h" for k h
    by (simp add: remove_change_def Let_def split: option.split)
  have keeps: "taken_key (fold (\<lambda>k. remove_change k False) ks h) = taken_key h" for ks h
    by (induction ks arbitrary: h) (simp_all add: keep)
  have "taken_key (reader_cache r1) = taken_key (reader_cache r)"
    using r1 type keep keeps
    by (auto simp: add_to_cache_def rbind_Inr_iff add_change_def add_known_def after_store_def keep_last_def store_change_def
        evict_oldest_def rematch_cache Let_def split: option.splits if_splits list.splits HistoryCacheType.splits)
  with add r1 show "taken_of g r' = taken_of g r"
    by (auto simp: add_change_reliable_def rbind_Inr_iff on_proxy_def taken_of_def split: sum.splits dest!: advance_state_taken)
  from type r1 have "x = Inr ()" "matched_writers r1 = matched_writers ?r"
    by (auto simp: add_to_cache_def rbind_Inr_iff add_change_def add_known_def after_store_def evict_oldest_def Let_def
        split: option.splits if_splits list.splits HistoryCacheType.splits)
  with add r1 p show "bm_get (matched_writers r') g = Some (received_change_set (sequence_number c) p)"
    by (auto simp: add_change_reliable_def rbind_Inr_iff on_proxy_def dest: advance_state_writers)
qed

lemma gap_proxy:
  assumes p: "bm_get (matched_writers (rematch g r)) g = Some p" and gap: "sns_set (gap_list gap) = Inr ns"
    and run: "handle_gap g gap r = Inr r'"
  shows "bm_get (matched_writers r') g =
      Some (fold irrelevant_change_set ([gap_start gap..bitmap_base (gap_list gap) - 1] @ ns) p)"
    and "same_setup (rematch g r) r'" and "taken_of g r' = taken_of g r"
proof -
  let ?all = "[gap_start gap..bitmap_base (gap_list gap) - 1] @ ns"
  have r': "r' = fold (skip_seq_num g) ?all (rematch g r)" using run by (simp add: handle_gap_def Let_def p gap)
  show "bm_get (matched_writers r') g = Some (fold irrelevant_change_set ?all p)"
    unfolding r' by (simp add: fold_skip_lookup p del: fold_append)
  have "reader_cache (fold (skip_seq_num g) ks s) = reader_cache s" for ks s
    by (induction ks arbitrary: s)
      (simp_all add: skip_seq_num_def on_proxy_def set_state_def Let_def split: option.split ReaderState.split)
  then show "taken_of g r' = taken_of g r" unfolding r' taken_of_def by (simp add: rematch_cache)
  have "same_setup s (fold (skip_seq_num g) ks s)" for ks s
  proof (induction ks arbitrary: s)
    case (Cons k ks)
    have "same_setup s (skip_seq_num g k s)"
      by (simp add: skip_seq_num_def Let_def split: option.splits ReaderState.splits)
    with Cons.IH [of "skip_seq_num g k s"] show ?case by (auto intro: same_setup_trans)
  qed simp
  then show "same_setup (rematch g r) r'" unfolding r' .
qed

lemma heartbeat_proxy:
  assumes inv: "reader_inv r" and p: "bm_get (matched_writers (rematch g r)) g = Some p"
    and l: "last_sn hb < i64_max" and run: "handle_heartbeat g f hb r = Inr (r', rt)"
  shows "bm_get (matched_writers r') g = Some (after_heartbeat hb
      (filter (\<lambda>k. hk_guid k = g \<and> hk_seq_num k < first_sn hb) (taken_key (reader_cache r))) p)"
    (is "_ = Some ?q") and "same_setup (rematch g r) r'"
    and "taken_of g r' = {n \<in> taken_of g r. first_sn hb \<le> n}"
proof -
  let ?kept = "\<lambda>h. filter (\<lambda>k. \<not> (hk_guid k = g \<and> hk_seq_num k < first_sn hb)) (taken_key h)"
  have "respond g u = Inr (u', x) \<Longrightarrow> taken_key (reader_cache u') = taken_key (reader_cache u)" for u u' x
    by (auto simp: respond_def rbind_Inr_iff split: if_splits dest: response_taken)
  with run have "taken_key (reader_cache r') = ?kept (reader_cache r)"
    by (auto simp: handle_heartbeat_def get_taken_less_than_def p rematch_cache Let_def on_proxy_def elim!: rbind_Inr_E
        split: if_split_asm option.split_asm)
  then show "taken_of g r' = {n \<in> taken_of g r. first_sn hb \<le> n}"
    by (force simp: taken_of_def)
  from run show "same_setup (rematch g r) r'" by (rule handle_heartbeat_setup)
  obtain r1 where r1: "reader_inv r1" "bm_get (matched_writers r1) g = Some ?q"
    "handle_heartbeat g f hb r = (if \<not> flag_contains f HeartbeatFlag_Final then respond g r1
       else if \<not> flag_contains f HeartbeatFlag_Liveliness \<and> missing_changes ?q \<noteq> []
       then respond g r1 else Inr (r1, None))"
    by (rule handle_heartbeat_ok [OF inv p l, of f])
  obtain r2 where "acknack_base g ?q r1 = Inr (r2, request_base ?q)" "matched_writers r2 = matched_writers r1"
    by (rule acknack_base_ok [OF r1(1,2)])
  then have "handle_hb_response_timeout g r1 = Inr u \<Longrightarrow> matched_writers u = matched_writers r1" for u
    by (auto simp: handle_hb_response_timeout_def r1(2) rbind_Inr_iff Let_def split: option.splits)
  then have "respond g r1 = Inr (r', rt) \<Longrightarrow> matched_writers r' = matched_writers r1"
    by (auto simp: respond_def rbind_Inr_iff split: if_splits)
  with run r1(2,3) show "bm_get (matched_writers r') g = Some ?q" by (auto split: if_splits)
qed

lemma event_simulates:
  assumes imp: "implements g v r" and range: "event_in_range g e"
    and run: "reader_event g e r = Inr r'"
  shows "implements g (view_step (view_event e) v) r'"
proof -
  from imp obtain p where inv: "reader_inv r" and rel: "r_is_reliable r"
    and p: "bm_get (matched_writers (rematch g r)) g = Some p" and v: "proxy_view v p" and t: "taken v = taken_of g r"
    by (auto simp: implements_def)
  note ok = reader_invD(3) [OF reader_inv_rematch [OF inv] p]
  then have wf: "wp_wf p" by (simp add: wproxy_ok_iff)
  have fin: "implements g w r'" if "reader_inv r'" "same_setup (rematch g r) r'"
    "bm_get (matched_writers r') g = Some q" "proxy_view w q" "taken w = taken_of g r'" for w q
    using that rel rematched [OF that(2)] by (simp add: implements_def)
  show ?thesis
  proof (cases e)
    case (EvData c)
    with run obtain rt where c: "reader_add_change (guid_prefix g) c r = Inr (r', rt)" by (auto simp: rbind_Inr_iff)
    from EvData range have r: "writer_guid c = g" "0 \<le> sequence_number c" "sequence_number c < i64_max" by simp_all
    show ?thesis
      using fin [OF reader_add_change_keeps [OF inv r(2,3) c] data_proxy(2,1) [OF inv rel r(1) p c]]
        proxy_view_data [OF wf v] data_proxy(3) [OF inv rel r(1) p c] EvData t by simp
  next
    case (EvGap gap)
    with range obtain ns where ns: "sns_set (gap_list gap) = Inr ns" by (auto simp: gap_in_range_def split: sum.splits)
    let ?all = "[gap_start gap..bitmap_base (gap_list gap) - 1] @ ns"
    have "set ?all = gap_numbers gap" by (auto simp: gap_numbers_def ns)
    with proxy_view_gap [OF wf v, of ?all] EvGap run range ns show ?thesis
      using fin [OF handle_gap_keeps [OF inv] gap_proxy(2,1) [OF p ns]] gap_proxy(3) [OF p ns] t by simp
  next
    case (EvHeartbeat f hb)
    with run obtain rt where h: "handle_heartbeat g f hb r = Inr (r', rt)" by (auto simp: rbind_Inr_iff)
    from EvHeartbeat range have l: "last_sn hb < i64_max" by simp
    have F: "hk_seq_num ` set (filter (\<lambda>k. hk_guid k = g \<and> hk_seq_num k < first_sn hb) (taken_key (reader_cache r))) =
        {n \<in> taken v. n < first_sn hb}"
      by (auto simp: t taken_of_def)
    show ?thesis
      using fin [OF handle_heartbeat_keeps [OF inv l h] heartbeat_proxy(2,1) [OF inv p l h]]
        proxy_view_heartbeat [OF ok v F] heartbeat_proxy(3) [OF inv p l h] EvHeartbeat t by simp
  qed
qed

lemma events_simulate:
  assumes "implements g v r" and "list_all (event_in_range g) es"
    and "rfold (reader_event g) es r = Inr r'"
  shows "implements g (fold (\<lambda>e. view_step (view_event e)) es v) r'"
  using assms
proof (induction es arbitrary: v r)
  case (Cons e es)
  from Cons.prems(3) obtain r1 where r1: "reader_event g e r = Inr r1" "rfold (reader_event g) es r1 = Inr r'"
    by (auto simp: rbind_Inr_iff)
  have "implements g (view_step (view_event e) v) r1"
    using Cons.prems(1,2) r1(1) by (intro event_simulates) simp_all
  with Cons.IH Cons.prems r1(2) show ?case by simp
qed simp

text \<open>
  C13. The reliable reader implements the abstract machine. Whatever data, gaps and heartbeats of one writer
  it processes without a panic between two calls of \<^verbatim>\<open>take\<close>, in any order, late and repeated ones included: what
  the reader knows about the writer is what the machine computes, and the changes that its next ACKNACK will
  ask for are exactly those the machine lacks. Sequence numbers are in range (\<open>event_in_range\<close>).
\<close>

theorem reader_refines_view:
  assumes "implements g v r" and "list_all (event_in_range g) es"
    and "rfold (reader_event g) es r = Inr r'"
  defines "v' \<equiv> fold (\<lambda>e. view_step (view_event e)) es v"
  shows "implements g v' r' \<and>
    (\<exists>p. bm_get (matched_writers (rematch g r')) g = Some p \<and> set (missing_changes p) = lacks v')"
proof -
  have imp: "implements g v' r'" unfolding v'_def using assms(1-3) by (rule events_simulate)
  then obtain p where p: "bm_get (matched_writers (rematch g r')) g = Some p" "proxy_view v' p" "reader_inv r'"
    by (auto simp: implements_def)
  have "wp_wf p" using reader_invD(3) [OF reader_inv_rematch [OF p(3)] p(1)] by (simp add: wproxy_ok_iff)
  with p missing_changes_spec [of p] have "set (missing_changes p) = lacks v'" by (auto simp: proxy_view_def)
  with imp p(1) show ?thesis by blast
qed

text \<open>A writer announces the changes 1 to 3, then change 2 arrives: 1 and 3 are lacking.\<close>

theorem reader_refines_view_witness:
  "\<exists>r' p. rfold (reader_event ex_guid) [EvHeartbeat 1 (ex_heartbeat\<lparr>first_sn := 1, last_sn := 3\<rparr>), EvData (ex_change 2)]
       (ex_reader [] Initial (HistoryCache_new HCReader)) = Inr r' \<and>
     bm_get (matched_writers (rematch ex_guid r')) ex_guid = Some p \<and> set (missing_changes p) = {1, 3}"
proof -
  let ?r = "ex_reader [] Initial (HistoryCache_new HCReader)"
  let ?hb = "ex_heartbeat\<lparr>first_sn := 1, last_sn := 3\<rparr>"
  let ?es = "[EvHeartbeat 1 ?hb, EvData (ex_change 2)]"
  let ?v = "\<lparr>got = {}, lacks = {}, taken = {}\<rparr>"
  have inv: "reader_inv ?r"
    using hc_inv_new [of HCReader] by (intro ex_reader_inv) (simp_all add: HistoryCache_new_def state_ok_def)
  have p: "bm_get (matched_writers (rematch ex_guid ?r)) ex_guid = Some (ex_writer_proxy [])" by simp
  have st: "wp_status (ex_writer_proxy []) n = None" for n by (simp add: ex_writer_proxy_status)
  then have imp: "implements ex_guid ?v ?r" using inv by (simp add: implements_def proxy_view_def taken_of_def HistoryCache_new_def)
  have range: "list_all (event_in_range ex_guid) ?es"
    by (simp add: ex_change_def i64_max_def)
  from heartbeat_request [OF inv p, of 1 ?hb] st obtain r1 where
    r1: "handle_heartbeat ex_guid 1 ?hb ?r = Inr (r1, None)" "reader_inv r1"
      "changes (reader_cache r1) = changes (reader_cache ?r)"
    by (auto simp: flag_contains_def flag_defs i64_max_def)
  have "can_add (ex_change 2) r1"
    using handle_heartbeat_setup [OF r1(1)] r1(3)
    by (simp add: can_add_def HistoryCache_new_def limit_reached_def same_setup_def ex_keep_all_def ex_reader_qos_def
        datareader_build_def DataReaderQosBuilder_new_def decide_value_def default_resource_limits_def)
  from reader_add_change_inv [OF r1(2) this, of "guid_prefix ex_guid"] obtain r' rt where
    "reader_add_change (guid_prefix ex_guid) (ex_change 2) r1 = Inr (r', rt)"
    by (auto simp: ex_change_def i64_max_def)
  then have "rfold (reader_event ex_guid) ?es ?r = Inr r'" by (simp add: r1(1))
  moreover have "lacks (fold (\<lambda>e. view_step (view_event e)) ?es ?v) = {1, 3}" by (auto simp: ex_change_def)
  ultimately show ?thesis using reader_refines_view [OF imp range] by metis
qed

end
