(* ===== verification/Umber_Channels.thy ===== *)
theory Umber_Channels
  imports Umber_Subscriber
begin

text \<open>
  The status channels when the application has let an endpoint go. A \<^verbatim>\<open>DataReader\<close> or \<^verbatim>\<open>DataWriter\<close> owns the
  receiving end of its channel, and dropping it does not remove the RTPS endpoint from the event loop.
  \<^verbatim>\<open>mio_channel::Sender::send\<close> then returns an error, and the code calls \<^verbatim>\<open>expect\<close> on it. The operations
  of the model note what they send and go on, which is the code while the receiving end is
  there; \<open>with_app\<close> is the code in both cases.
\<close>

section \<open>Sending to an application that may be gone\<close>

text \<open>
  \<open>sent\<close> reads the channel, \<open>held\<close> says whether the application still has the receiving end. Nothing that an operation does
  after a failed send is visible, since the thread panics: it is enough to look at whether the operation sends.
\<close>

definition with_app :: "('s \<Rightarrow> 'e list) \<Rightarrow> bool \<Rightarrow> ('s \<Rightarrow> ('s \<times> 'a) res) \<Rightarrow> 's \<Rightarrow> ('s \<times> 'a) res" where
  "with_app sent held op s =
     rbind (op s) (\<lambda>(s', x). if held \<or> sent s' = sent s then Inr (s', x) else Inl ExplicitPanic)"

definition alone :: "('s \<Rightarrow> 's res) \<Rightarrow> 's \<Rightarrow> ('s \<times> unit) res" where
  "alone op s = rbind (op s) (\<lambda>s'. Inr (s', ()))"

lemma with_app_held: "with_app sent True op s = op s"
  by (cases "op s") (auto simp: with_app_def rbind_def)

lemma with_app_sends:
  assumes "op s = Inr (s', x)" and "sent s' \<noteq> sent s"
  shows "with_app sent False op s = Inl ExplicitPanic"
  using assms by (simp add: with_app_def)

lemma with_app_silent:
  assumes "op s = Inr (s', x)" and "sent s' = sent s"
  shows "with_app sent held op s = Inr (s', x)"
  using assms by (simp add: with_app_def)

section \<open>What the operations send\<close>

abbreviation told :: "Reader \<Rightarrow> DataReaderStatusChanged list" where
  "told \<equiv> reader_state_notifier"

lemma rematch_told: "\<exists>ds. told (rematch g r) = told r @ ds"
  by (auto simp: rematch_def liveliness_changed_def notify_r_def split: option.split)

lemma add_to_cache_told:
  assumes "add_to_cache c r = Inr (r', x)"
  shows "told r' = told r" and "writer_communication_state r' = writer_communication_state r"
  using assms by (auto simp: add_to_cache_def rbind_Inr_iff)

lemma advance_state_told:
  assumes "advance_state g n r = Inr r'"
    and "bm_get (writer_communication_state r) g = Some st" and "releases n st"
  shows "told r' = told r @ [DataAvailable]"
  using assms
  by (auto simp: advance_state_def release_def flush_cache_def notify_r_def set_state_def releases_def rbind_Inr_iff Let_def
      split: ReaderState.splits if_splits)

lemma released_told:
  assumes inv: "reader_inv r" and rel: "r_is_reliable r"
    and g: "g = GUID prefix (entity_id (writer_guid c))" and m: "is_contain_writer g r"
    and st: "bm_get (writer_communication_state r) g = Some st" "releases (sequence_number c) st"
    and run: "reader_add_change prefix c r = Inr (r', rt)"
  shows "told r' \<noteq> told r"
proof -
  let ?r = "rematch g r"
  have f: "r_is_reliable ?r" "writer_communication_state ?r = writer_communication_state r"
    using rel by (simp_all add: rematch_def liveliness_changed_def notify_r_def r_is_reliable_def split: option.split)
  obtain p where p: "bm_get (matched_writers ?r) g = Some p"
  proof (cases "bm_get (unmatched_writers r) g")
    case None
    then show ?thesis using m that by (auto simp: is_contain_writer_def rematch_def bm_contains_def)
  next
    case (Some wp)
    then have "matched_writers ?r = bm_insert g wp (matched_writers r)"
      by (simp add: rematch_def liveliness_changed_def notify_r_def)
    then show ?thesis using that by simp
  qed
  from run have "add_change_reliable g c ?r = Inr r'"
    using f(1) p by (auto simp: reader_add_change_def Let_def g [symmetric] rbind_Inr_iff)
  then obtain r1 x where r1: "add_to_cache c ?r = Inr (r1, x)"
    and r': "(case x of Inl e \<Rightarrow> Inr r1 | Inr u \<Rightarrow> rbind (advance_state g (sequence_number c) r1) (\<lambda>r2.
      Inr (on_proxy g (received_change_set (sequence_number c)) r2))) = Inr r'"
    by (auto simp: add_change_reliable_def rbind_Inr_iff)
  have "hc_type (reader_cache ?r) = HCReader" by (rule reader_invD(2) [OF reader_inv_rematch [OF inv]])
  with r1 have "x = Inr ()"
    by (auto simp: add_to_cache_def rbind_Inr_iff add_change_def split: option.splits if_splits)
  with r' obtain r2 where r2: "advance_state g (sequence_number c) r1 = Inr r2" "told r' = told r2"
    by (auto simp: rbind_Inr_iff on_proxy_def)
  have "bm_get (writer_communication_state r1) g = Some st"
    using add_to_cache_told(2) [OF r1] f(2) st(1) by simp
  from advance_state_told [OF r2(1) this st(2)] r2(2) add_to_cache_told(1) [OF r1] rematch_told [of g r]
  show ?thesis by auto
qed

section \<open>Properties\<close>

text \<open>
  C40. An endpoint that the application has dropped makes the event loop panic. While the application has the
  receiving end of the status channel, the code is the model of the operations. Once it is gone, each of these
  panics: matching a writer or a reader that is not matched yet, whether its QoS is compatible or not; a
  sample, at a reliable reader that knows its writer, that releases the cache; and a missed deadline. The
  announcement of a writer or reader that is matched already does no harm.
\<close>

theorem dropped_endpoint_panics:
  "with_app sent True op s = op s \<and>
   (if bm_get (matched_writers r) wg = None
    then \<exists>e. with_app told False (matched_writer_add_with_default_locator wg uni multi duni dmulti max_size wqos) r = Inl e
    else \<exists>r' x. with_app told False (matched_writer_add_with_default_locator wg uni multi duni dmulti max_size wqos) r = Inr (r', x)) \<and>
   (if bm_get (matched_readers w) rg = None
    then \<exists>e. with_app writer_state_notifier False
           (alone (matched_reader_add_with_default_locator rg inl uni multi duni dmulti rqos)) w = Inl e
    else \<exists>w'. with_app writer_state_notifier False
           (alone (matched_reader_add_with_default_locator rg inl uni multi duni dmulti rqos)) w = Inr (w', ())) \<and>
   (\<forall>g st. reader_inv r \<and> r_is_reliable r \<and> g = GUID prefix (entity_id (writer_guid c)) \<and> is_contain_writer g r \<and>
     bm_get (writer_communication_state r) g = Some st \<and> releases (sequence_number c) st \<longrightarrow>
     (\<exists>e. with_app told False (reader_add_change prefix c) r = Inl e)) \<and>
   with_app told False (\<lambda>r. Inr (notify_reqested_deadline_missed wg r, ())) r = Inl ExplicitPanic \<and>
   with_app writer_state_notifier False (\<lambda>w. Inr (notify_offered_deadline_missed w, ())) w = Inl ExplicitPanic"
  (is "_ \<and> (if _ then \<exists>e. with_app told False ?add_w r = _ else _) \<and>
    (if _ then \<exists>e. with_app writer_state_notifier False ?add_r w = _ else _) \<and> _")
proof -
  have fails: "\<exists>e. with_app told False f r = Inl e" if "\<And>r' x. f r = Inr (r', x) \<Longrightarrow> told r' \<noteq> told r" for f :: "Reader \<Rightarrow> (Reader \<times> 'y) res"
  proof (cases "f r")
    case (Inr y)
    then show ?thesis using with_app_sends [of f r "fst y" "snd y" told] that [of "fst y" "snd y"] by simp
  qed (simp add: with_app_def)
  have r: "if bm_get (matched_writers r) wg = None then \<exists>e. with_app told False ?add_w r = Inl e
     else \<exists>r' x. with_app told False ?add_w r = Inr (r', x)"
  proof (cases "bm_get (matched_writers r) wg")
    case None
    then have "?add_w r = Inr (r', x) \<Longrightarrow> told r' \<noteq> told r" for r' x
      by (auto simp: matched_writer_add_with_default_locator_def notify_r_def liveliness_changed_def Let_def
          elim!: rbind_Inr_E split: sum.split_asm)
    from fails [OF this] None show ?thesis by simp
  next
    case (Some p)
    then obtain r' where "?add_w r = Inr (r', None)" "told r' = told r"
      by (auto simp: matched_writer_add_with_default_locator_def on_proxy_def)
    with Some show ?thesis by (auto dest: with_app_silent)
  qed
  have w: "if bm_get (matched_readers w) rg = None then \<exists>e. with_app writer_state_notifier False ?add_r w = Inl e
     else \<exists>w'. with_app writer_state_notifier False ?add_r w = Inr (w', ())"
  proof (cases "bm_get (matched_readers w) rg")
    case None
    have "writer_state_notifier w' \<noteq> writer_state_notifier w" if "?add_r w = Inr (w', x)" for w' x
      using that None
      by (auto simp: alone_def matched_reader_add_with_default_locator_def notify_w_def Let_def
          elim!: rbind_Inr_E split: sum.split_asm)
    then show ?thesis using None by (cases "?add_r w") (auto simp: with_app_def)
  next
    case (Some p)
    then obtain w' where "?add_r w = Inr (w', ())" "writer_state_notifier w' = writer_state_notifier w"
      by (auto simp: alone_def matched_reader_add_with_default_locator_def)
    with Some show ?thesis by (auto dest: with_app_silent)
  qed
  have d: "\<forall>g st. reader_inv r \<and> r_is_reliable r \<and> g = GUID prefix (entity_id (writer_guid c)) \<and> is_contain_writer g r \<and>
      bm_get (writer_communication_state r) g = Some st \<and> releases (sequence_number c) st \<longrightarrow>
      (\<exists>e. with_app told False (reader_add_change prefix c) r = Inl e)"
    using fails [of "reader_add_change prefix c"] released_told by blast
  have "with_app told False (\<lambda>r. Inr (notify_reqested_deadline_missed wg r, ())) r = Inl ExplicitPanic"
    "with_app writer_state_notifier False (\<lambda>w. Inr (notify_offered_deadline_missed w, ())) w = Inl ExplicitPanic"
    by (simp_all add: with_app_def notify_reqested_deadline_missed_def notify_r_def
        notify_offered_deadline_missed_def notify_w_def)
  with r w d show ?thesis unfolding with_app_held by (intro conjI refl)
qed

text \<open>
  Two readers whose application is gone: one without writers hears of a writer, the other receives the sample it
  expects. Both operations succeed while the application is there.
\<close>

theorem dropped_endpoint_panics_witness:
  "let add = matched_writer_add_with_default_locator ex_guid [] [] [ex_locator 1] [] 0 ex_writer_qos;
       receive = reader_add_change (guid_prefix ex_guid) (ex_change 1);
       r = ex_reader [] (Expect 1) (HistoryCache_new HCReader)
   in (\<exists>e. with_app told False add ex_new_reader = Inl e) \<and> (\<exists>r' x. with_app told True add ex_new_reader = Inr (r', x)) \<and>
      (\<exists>e. with_app told False receive r = Inl e) \<and> (\<exists>r' x. with_app told True receive r = Inr (r', x))"
proof -
  let ?add = "matched_writer_add_with_default_locator ex_guid [] [] [ex_locator 1] [] 0 ex_writer_qos"
  let ?receive = "reader_add_change (guid_prefix ex_guid) (ex_change 1)"
  let ?r = "ex_reader [] (Expect 1) (HistoryCache_new HCReader)"
  have none: "bm_get (matched_writers ex_new_reader) ex_guid = None" by (simp add: ex_new_reader_def Reader_new_def)
  have "\<exists>r' x. ?add ex_new_reader = Inr (r', x)"
    by (cases "?add ex_new_reader")
      (auto simp: matched_writer_add_with_default_locator_def none WriterProxy_new_def Let_def split: sum.split_asm)
  moreover have "with_app told True ?add ex_new_reader = ?add ex_new_reader"
    "\<exists>e. with_app told False ?add ex_new_reader = Inl e"
    using dropped_endpoint_panics [of told ?add ex_new_reader ex_new_reader ex_guid "[]" "[]" "[ex_locator 1]" "[]" 0 ex_writer_qos]
      none by simp_all
  moreover have inv: "reader_inv ?r"
    using hc_inv_new [of HCReader] by (intro ex_reader_inv) (simp_all add: HistoryCache_new_def state_ok_def i64_max_def bm_wf_def)
  have "can_add (ex_change 1) ?r"
    by (simp add: can_add_def HistoryCache_new_def limit_reached_def ex_keep_all_def ex_reader_qos_def
        datareader_build_def DataReaderQosBuilder_new_def decide_value_def default_resource_limits_def)
  from reader_add_change_inv [OF inv this, of "guid_prefix ex_guid"] have "\<exists>r' x. ?receive ?r = Inr (r', x)"
    by (auto simp: ex_change_def i64_max_def)
  moreover have "ex_guid = GUID (guid_prefix ex_guid) (entity_id (writer_guid (ex_change 1)))" "is_contain_writer ex_guid ?r"
    "bm_get (writer_communication_state ?r) ex_guid = Some (Expect 1)" "releases (sequence_number (ex_change 1)) (Expect 1)"
    by (simp_all add: ex_change_def is_contain_writer_def bm_contains_def releases_def)
  then have "\<exists>e. with_app told False ?receive ?r = Inl e"
    by (intro dropped_endpoint_panics [THEN conjunct2, THEN conjunct2, THEN conjunct2, THEN conjunct1, THEN spec, THEN spec,
          THEN mp, of ?r ex_guid "guid_prefix ex_guid" "ex_change 1" "Expect 1"]) (use inv in simp)
  moreover have "with_app told True ?receive ?r = ?receive ?r"
    using dropped_endpoint_panics [where sent = told and op = ?receive and s = ?r] by blast
  ultimately show ?thesis by (simp add: Let_def)
qed

end
