(* ===== verification/Spec2Isabelle.thy ===== *)
theory Spec2Isabelle
  imports Umber_Endpoints Umber_ReaderSpec Umber_Channels
begin

text \<open>
  Verification of Umber DDS, an implementation of the OMG Data Distribution Service on the RTPS
  protocol (\<^verbatim>\<open>src/src/\<close>; file names below are relative to that directory).

  \<^bold>\<open>The program.\<close> An application writes samples with a \<^verbatim>\<open>DataWriter\<close> and takes them with a
  \<^verbatim>\<open>DataReader\<close>. Each of them shares a history cache with its RTPS endpoint, which lives in the event
  loop's thread: the RTPS writer keeps a proxy for every matched remote reader and sends DATA, GAP and
  HEARTBEAT, the RTPS reader keeps a proxy for every matched remote writer and answers with ACKNACK. The
  message receiver parses UDP packets and dispatches their submessages to the endpoints, and hands the
  data of the built-in topics to discovery, which matches endpoints by topic and QoS and watches the
  leases of participants and writers. A participant starts two threads: the event loop, which owns the RTPS endpoints,
  the receiver and the timers, and the discovery thread, which announces the participant and its endpoints through
  built-in writers. The application reaches them through channels and the shared caches.

  \<^bold>\<open>The theories, from the bottom up.\<close>

  \<^item> \<open>Umber_Prelude\<close>: computations that may panic (\<open>'a res\<close>), machine integers, \<^verbatim>\<open>BTreeMap\<close> and
    \<^verbatim>\<open>BTreeSet\<close> as sorted association lists, with the locale \<open>ordered_map\<close> for their laws.
  \<^item> \<open>Umber_Structure\<close>, \<open>Umber_SeqNum\<close>, \<open>Umber_Time\<close>, \<open>Umber_Payload\<close>: \<^verbatim>\<open>structure/\<close> and
    \<^verbatim>\<open>message/submessage/element.rs\<close>: identifiers and locators, sequence numbers and their bitmaps,
    durations and timestamps with the rounding of \<^verbatim>\<open>f64\<close>, serialized payloads. Shown: round trips, orders
    and bounds, and where wrap-around or rounding makes them fail.
  \<^item> \<open>Umber_Qos\<close>: \<^verbatim>\<open>dds/qos.rs\<close>: policies, defaults, builders, combination and compatibility. Shown: both sides
    of a match agree on compatibility; what combination selects.
  \<^item> \<open>Umber_Cache\<close>: \<^verbatim>\<open>rtps/cache.rs\<close>, the history cache with its indexes. Shown: the invariant \<open>hc_inv\<close> in every
    reachable state (\<open>hc_step\<close>), the effect of history depth and resource limits. The locale \<open>change_store\<close> is
    the interface through which the endpoints use it.
  \<^item> \<open>Umber_Proxy\<close>: \<^verbatim>\<open>structure/proxy.rs\<close>, the state of each change for a remote endpoint; the locale
    \<open>change_tracker\<close> is interpreted for both kinds of proxy.
  \<^item> \<open>Umber_Message\<close>: \<^verbatim>\<open>message/\<close>: messages, their construction and validation.
  \<^item> \<open>Umber_Wire\<close>, \<open>Umber_QosWire\<close>, \<open>Umber_DiscWire\<close>: the bytes of messages, of QoS policies and of discovery data: all
    \<^verbatim>\<open>Readable\<close> and \<^verbatim>\<open>Writable\<close> implementations, \<^verbatim>\<open>Message::new\<close> and \<^verbatim>\<open>SDPBuiltinData::read_from\<close>. Shown: what the
    message builder makes is read back unchanged; truncated packets panic.
  \<^item> \<open>Umber_Writer\<close>, \<open>Umber_WriterSend\<close>, \<open>Umber_WriterInv\<close>, \<open>Umber_WriterNack\<close>, \<open>Umber_DataWriter\<close>: \<^verbatim>\<open>rtps/writer.rs\<close> and
    \<^verbatim>\<open>dds/datawriter.rs\<close>. Shown: the loops that drain the proxies end; a write reaches every matched reader; an
    ACKNACK is answered; no unacknowledged change is dropped; the invariant \<open>writer_inv\<close> in every
    interleaving of the application's thread and the event loop (\<open>pub_step\<close>).
  \<^item> \<open>Umber_Reader\<close>, \<open>Umber_ReaderInv\<close>, \<open>Umber_DataReader\<close>, \<open>Umber_Subscriber\<close>, \<open>Umber_ReaderSpec\<close>: \<^verbatim>\<open>rtps/reader.rs\<close> and
    \<^verbatim>\<open>dds/datareader.rs\<close>. Shown: the invariant \<open>reader_inv\<close> in every reachable state, the effect of data, gaps,
    heartbeats and take, a full round of repair between a writer and a reader, and the refinement of an
    abstract machine over sets of sequence numbers, whatever the order of the messages.
  \<^item> \<open>Umber_Channels\<close>: the \<^verbatim>\<open>expect\<close> on sends to the application. Shown: an operation is as modelled while the
    application holds the \<^verbatim>\<open>DataReader\<close> or \<^verbatim>\<open>DataWriter\<close>; once it has dropped it, the next status event panics.
  \<^item> \<open>Umber_Discovery\<close>, \<open>Umber_DiscData\<close>, \<open>Umber_Announce\<close>: \<^verbatim>\<open>discovery/\<close>: the data base of participants and writers,
    the discovery data and what a participant learns from the announcements of another.
  \<^item> \<open>Umber_Receiver\<close>, \<open>Umber_ReceiverInv\<close>, \<open>Umber_Participant\<close>, \<open>Umber_Packets\<close>: \<^verbatim>\<open>message/message_receiver.rs\<close>. Shown:
    packets keep the invariants of all endpoints; user data reaches the readers that know its writer, from the
    bytes that the writer's participant sends; which packets end the process.
  \<^item> \<open>Umber_EventLoop\<close>, \<open>Umber_Identity\<close>, \<open>Umber_LoopInv\<close>: \<^verbatim>\<open>dds/event_loop.rs\<close> and \<^verbatim>\<open>dds/tokens.rs\<close>: registration of
    endpoints, all timers, the dispatch of events (\<open>handle_event\<close>). Shown: no event changes the identity of an endpoint,
    and every event keeps \<open>loop_inv\<close>: all endpoints satisfy their invariants, every timer that was set finds its endpoint, and
    every writer has a time of its last activity; what the handlers of the timers can fail with.
  \<^item> \<open>Umber_Entities\<close>, \<open>Umber_Node\<close>: \<^verbatim>\<open>dds/participant.rs\<close>, \<^verbatim>\<open>dds/publisher.rs\<close>, \<^verbatim>\<open>dds/subscriber.rs\<close>, \<^verbatim>\<open>dds/topic.rs\<close> and
    \<^verbatim>\<open>discovery.rs\<close>: the factories, the built-in endpoints, the discovery thread (\<open>handle_discovery\<close>), and the participant
    (\<open>Node\<close>) that is made of both threads and the commands in their channels.
  \<^item> \<open>Umber_Creation\<close>, \<open>Umber_NodeInv\<close>, \<open>Umber_Startup\<close>: what is created: unique entity keys, the QoS in force; \<open>node_step\<close>, one
    step of the event loop, the discovery thread or the application, and its invariant \<open>node_inv\<close>; when a participant
    starts and when it panics instead.
  \<^item> \<open>Umber_Meeting\<close>, \<open>Umber_Endpoints\<close>: how participants interact: the announcement of one participant makes the other know it and
    match all built-in endpoints, a participant whose lease is over leaves nothing behind, a new data writer is registered and
    announced, a discovered writer is matched with exactly the readers that fit.

  \<^bold>\<open>Conventions.\<close> A Rust panic is a value \<open>Inl p\<close> of \<open>'a res\<close>; arithmetic overflow panics, as in the builds with
  overflow checks, except where the code uses wrapping operations or casts. Errors that the code
  returns are values of options and sums inside \<open>Inr\<close>. State is passed explicitly; the lists \<open>sent\<close> and the
  lists of notifications and commands stand for the UDP sender and the \<^verbatim>\<open>mio\<close> channels. The clock is an argument, read once per
  handler. Log output is left out. Locks make each operation on a shared cache or on the data base
  atomic; where the application's thread and the event loop share a cache, their steps interleave. The endpoints' notifications
  (\<open>notify_w\<close>, \<open>notify_r\<close>) succeed, which is the code as long as the application holds the data writer or data reader; every
  statement that something does not panic is meant under this condition, and \<open>Umber_Channels\<close> says what happens without it.

  \<^bold>\<open>Parameters.\<close> The \<^verbatim>\<open>speedy\<close> library is the record \<open>Speedy\<close>: its integer coding in either byte order, its derived
  readers of options and of INFO_REPLY, its string reader; \<open>speedy_ok\<close> states its documented
  behaviour and \<open>ref_speedy\<close> shows that it can be met. The CDR decoder of user types is an argument of \<open>get_data\<close>. The
  operating system is the record \<open>Host\<close> (interfaces, ports that can be bound, random bytes); what the sockets and the timers of
  \<^verbatim>\<open>mio_extras\<close> give back when a token fires is the record \<open>Polled\<close>, and the requests to the timers are a list. A write
  of the discovery thread that would block is the value \<open>None\<close> of a run.

  \<^bold>\<open>Bounds.\<close> The loops that drain a reader proxy are bounded by the number of its entries; the
  development shows that any larger bound gives the same result. All other loops are structural
  or have a termination proof. The endless loops of the two threads are runs of single events.

  \<^bold>\<open>Scope of the reachable states.\<close> \<open>node_step\<close>, \<open>pub_step\<close> and \<open>reader_step\<close> take packets whose sequence numbers are in range
  (\<open>polled_ok\<close>, \<open>in_range\<close>), timers that were set, and writes below the largest sequence number (\<open>disc_room\<close>); \<open>writer_inv\<close> is the
  invariant of reliable writers. What the program does outside is in the theorems about panics and not covered otherwise.
  \<open>destination\<close> and \<open>wp_unicast_ll\<close> are the one list of locators that the code chooses for a remote endpoint.

  \<^bold>\<open>Not modelled.\<close> Binding, sending and receiving on UDP sockets (\<^verbatim>\<open>network/\<close>, pure I/O); the registration of channels, sockets
  and timers with \<^verbatim>\<open>mio\<close> and the moment at which a timer fires; joining the threads when a participant is dropped; how
  the application reads the status channels of its data writers and data readers; the derive macro \<^verbatim>\<open>ddsdata_derive\<close>, which
  generates code for user types; logging, error display and module declarations.
\<close>

end
